(* ===== verification/Prelude.thy ===== *)
theory Prelude
  imports Complex_Main "HOL-Library.AList" "HOL-Library.Multiset"
begin

text \<open>
  Shared vocabulary of the development: Python values and dictionaries, the error type that
  stands for raised exceptions, a deque with a maximal length, clocks, and the general
  invariant argument for state machines.

  A Python \<open>dict\<close> keeps its keys in insertion order and overwriting a key keeps its place;
  this is exactly \<open>AList.update\<close> on association lists, so dictionaries are association lists
  here, \<open>map_of\<close> is \<open>dict.get\<close> and \<open>map snd\<close> is \<open>dict.values()\<close>.
  A Python \<open>float\<close> is a \<open>real\<close>: sums and quotients are exact, rounding is not modelled.
  Wall-clock and monotonic readings and fresh identifiers are arguments of the operations.
\<close>

named_theorems dict_simps \<open>rewrite rules for Python dictionaries\<close>
named_theorems inv_intros \<open>preservation of component invariants\<close>

subsection \<open>Python values, errors\<close>

text \<open>\<open>PTime t\<close> is the ISO-8601 text of the instant \<open>t\<close>.\<close>

datatype pyval =
    PNone
  | PBool bool
  | PInt int
  | PStr string
  | PTime real
  | PList "pyval list"
  | PDict "(string \<times> pyval) list"

datatype py_error =
    ValueError string
  | KeyError string
  | IndexError
  | TimeoutError
  | OtherError string

type_synonym 'a result = "py_error + 'a"

abbreviation is_ok :: "'a result \<Rightarrow> bool" where
  "is_ok r \<equiv> (\<exists>x. r = Inr x)"

text \<open>Truthiness of optional strings: \<open>None\<close> and the empty string are false.\<close>

definition truthy :: "string option \<Rightarrow> bool" where
  "truthy s = (case s of None \<Rightarrow> False | Some x \<Rightarrow> x \<noteq> [])"

text \<open>Python's \<open>a or b\<close> for an optional string \<open>a\<close>.\<close>

definition or_else :: "string option \<Rightarrow> string \<Rightarrow> string" where
  "or_else s d = (case s of None \<Rightarrow> d | Some x \<Rightarrow> if x = [] then d else x)"

lemma truthy_simps [simp]:
  "truthy None = False" "truthy (Some x) = (x \<noteq> [])"
  by (simp_all add: truthy_def)

lemma or_else_simps [simp]:
  "or_else None d = d" "or_else (Some []) d = d" "x \<noteq> [] \<Longrightarrow> or_else (Some x) d = x"
  by (simp_all add: or_else_def)

text \<open>\<open>str.lower()\<close> on ASCII text, \<open>sep.join(xs)\<close>, and whether a string occurs in another.\<close>

definition py_lower :: "string \<Rightarrow> string" where
  "py_lower s =
     map (\<lambda>c. let n = (of_char c :: nat) in if 65 \<le> n \<and> n \<le> 90 then char_of (n + 32) else c) s"

fun py_join :: "string \<Rightarrow> string list \<Rightarrow> string" where
  "py_join sep [] = []"
| "py_join sep [x] = x"
| "py_join sep (x # y # ys) = x @ sep @ py_join sep (y # ys)"

fun py_in :: "string \<Rightarrow> string \<Rightarrow> bool" where
  "py_in t [] \<longleftrightarrow> t = []"
| "py_in t (c # cs) \<longleftrightarrow> take (length t) (c # cs) = t \<or> py_in t cs"

text \<open>
  Python's \<open>round(x, n)\<close>: to the nearest multiple of \<open>10 ^ -n\<close>, a tie to the even one. On reals this
  is exact, so results lie on the decimal grid.
\<close>

definition half_even :: "real \<Rightarrow> int" where
  "half_even x =
     (let d = x - of_int \<lfloor>x\<rfloor> in
      if d < 1 / 2 then \<lfloor>x\<rfloor> else if d > 1 / 2 then \<lfloor>x\<rfloor> + 1
      else if even \<lfloor>x\<rfloor> then \<lfloor>x\<rfloor> else \<lfloor>x\<rfloor> + 1)"

definition py_round :: "nat \<Rightarrow> real \<Rightarrow> real" where
  "py_round n x = of_int (half_even (x * 10 ^ n)) / 10 ^ n"

lemma half_even_bounds: "of_int (half_even x) \<le> x + 1 / 2 \<and> x - 1 / 2 \<le> of_int (half_even x)"
  unfolding half_even_def Let_def by (simp; linarith)

lemma half_even_mono: "x \<le> y \<Longrightarrow> half_even x \<le> half_even y"
proof (cases "\<lfloor>x\<rfloor> = \<lfloor>y\<rfloor>")
  case False
  assume "x \<le> y"
  then have "\<lfloor>x\<rfloor> + 1 \<le> \<lfloor>y\<rfloor>" using False floor_mono [of x y] by linarith
  moreover have "half_even x \<le> \<lfloor>x\<rfloor> + 1" "\<lfloor>y\<rfloor> \<le> half_even y" by (simp_all add: half_even_def Let_def)
  ultimately show ?thesis by linarith
qed (auto simp: half_even_def Let_def)

lemma half_even_of_int [simp]: "half_even (of_int i) = i"
  by (simp add: half_even_def)

lemma py_round_mono: "x \<le> y \<Longrightarrow> py_round n x \<le> py_round n y"
  unfolding py_round_def by (intro divide_right_mono of_int_le_iff [THEN iffD2] half_even_mono mult_right_mono) simp_all

lemma py_round_of_int [simp]: "py_round n (of_int i) = of_int i"
  using half_even_of_int [of "i * 10 ^ n"] by (simp add: py_round_def)

lemma py_round_0 [simp]: "py_round n 0 = 0" and py_round_1 [simp]: "py_round n 1 = 1"
  using py_round_of_int [of n 0] py_round_of_int [of n 1] by simp_all

lemma py_round_unit: "0 \<le> x \<Longrightarrow> x \<le> 1 \<Longrightarrow> 0 \<le> py_round n x \<and> py_round n x \<le> 1"
  using py_round_mono [of 0 x n] py_round_mono [of x 1 n] by simp

text \<open>Python's \<open>int(x)\<close> of a float: truncation towards zero.\<close>

definition py_int :: "real \<Rightarrow> int" where
  "py_int x = (if x < 0 then \<lceil>x\<rceil> else \<lfloor>x\<rfloor>)"

subsection \<open>Dictionaries\<close>

type_synonym ('k, 'v) dict = "('k \<times> 'v) list"

abbreviation dict_get :: "('k, 'v) dict \<Rightarrow> 'k \<Rightarrow> 'v option" where
  "dict_get d k \<equiv> map_of d k"

abbreviation dict_set :: "('k, 'v) dict \<Rightarrow> 'k \<Rightarrow> 'v \<Rightarrow> ('k, 'v) dict" where
  "dict_set d k v \<equiv> AList.update k v d"

abbreviation dict_del :: "('k, 'v) dict \<Rightarrow> 'k \<Rightarrow> ('k, 'v) dict" where
  "dict_del d k \<equiv> AList.delete k d"

abbreviation dict_values :: "('k, 'v) dict \<Rightarrow> 'v list" where
  "dict_values d \<equiv> map snd d"

abbreviation dict_keys :: "('k, 'v) dict \<Rightarrow> 'k list" where
  "dict_keys d \<equiv> map fst d"

abbreviation dict_wf :: "('k, 'v) dict \<Rightarrow> bool" where
  "dict_wf d \<equiv> distinct (map fst d)"

definition dict_get_or :: "('k, 'v) dict \<Rightarrow> 'k \<Rightarrow> 'v \<Rightarrow> 'v" where
  "dict_get_or d k v = (case map_of d k of None \<Rightarrow> v | Some x \<Rightarrow> x)"

lemma dict_get_set [simp, dict_simps]:
  "dict_get (dict_set d k v) k' = (if k' = k then Some v else dict_get d k')"
  by (simp add: update_conv')

lemma dict_get_del [simp, dict_simps]:
  "dict_get (dict_del d k) k' = (if k' = k then None else dict_get d k')"
  by (simp add: delete_conv')

lemma dict_wf_set [simp, dict_simps]: "dict_wf d \<Longrightarrow> dict_wf (dict_set d k v)"
  by (rule distinct_update)

lemma dict_wf_del [simp, dict_simps]: "dict_wf d \<Longrightarrow> dict_wf (dict_del d k)"
  by (rule distinct_delete)

lemma dict_get_or_set [simp, dict_simps]:
  "dict_get_or (dict_set d k v) k' w = (if k' = k then v else dict_get_or d k' w)"
  by (simp add: dict_get_or_def)

lemma set_dict_values: "dict_wf d \<Longrightarrow> v \<in> set (dict_values d) \<longleftrightarrow> (\<exists>k. dict_get d k = Some v)"
  by force

lemma set_dict_values_set:
  "set (dict_values (dict_set d k v)) \<subseteq> insert v (set (dict_values d))"
  by (induction d) auto

lemma set_dict_set_subset: "set (dict_set d k v) \<subseteq> insert (k, v) (set d)"
  by (induction d) auto

lemma set_dict_del_subset: "set (dict_del d k) \<subseteq> set d"
  by (simp add: AList.delete_eq)

lemma set_keys_dict_set [simp, dict_simps]:
  "fst ` set (dict_set d k v) = insert k (fst ` set d)"
  by (induction d) auto

lemma ball_dict_set [inv_intros]:
  "\<forall>x\<in>set d. P x \<Longrightarrow> P (k, v) \<Longrightarrow> \<forall>x\<in>set (dict_set d k v). P x"
  using set_dict_set_subset [of k v d] by blast

lemma ball_dict_del [inv_intros]: "\<forall>x\<in>set d. P x \<Longrightarrow> \<forall>x\<in>set (dict_del d k). P x"
  using set_dict_del_subset [of k d] by blast

lemma ball_dict_get: "\<forall>x\<in>set d. P x \<Longrightarrow> dict_get d k = Some v \<Longrightarrow> P (k, v)"
  by (auto dest: map_of_SomeD)

lemma dict_get_None_iff: "dict_get d k = None \<longleftrightarrow> k \<notin> set (dict_keys d)"
  by (simp add: map_of_eq_None_iff image_image)

lemma dict_set_append: "dict_get d k = None \<Longrightarrow> dict_set d k v = d @ [(k, v)]"
  by (induction d) (auto split: if_splits)

subsection \<open>Bounded deques\<close>

text \<open>\<open>collections.deque(maxlen=n)\<close>: appending to a full deque drops its oldest element.\<close>

definition deque_append :: "nat \<Rightarrow> 'a list \<Rightarrow> 'a \<Rightarrow> 'a list" where
  "deque_append n xs x = (let ys = xs @ [x] in drop (length ys - n) ys)"

lemma length_deque_append: "length (deque_append n xs x) = min n (Suc (length xs))"
  by (auto simp: deque_append_def Let_def)

lemma set_deque_append: "set (deque_append n xs x) \<subseteq> insert x (set xs)"
  unfolding deque_append_def Let_def by (rule order_trans [OF set_drop_subset]) simp

text \<open>The slice \<open>xs[-n:]\<close> for a positive \<open>n\<close>, and \<open>xs[-0:]\<close>, which is the whole list.\<close>

definition last_n :: "nat \<Rightarrow> 'a list \<Rightarrow> 'a list" where
  "last_n n xs = (if n = 0 then xs else drop (length xs - n) xs)"

lemma length_last_n: "0 < n \<Longrightarrow> length (last_n n xs) = min n (length xs)"
  by (auto simp: last_n_def)

text \<open>The slice \<open>xs[i:j]\<close>: a negative bound counts from the end, both are clipped.\<close>

definition clip_index :: "nat \<Rightarrow> int \<Rightarrow> nat" where
  "clip_index n i = (if i < 0 then nat (int n + i) else min n (nat i))"

definition py_slice :: "int \<Rightarrow> int \<Rightarrow> 'a list \<Rightarrow> 'a list" where
  "py_slice i j xs =
     (let a = clip_index (length xs) i; b = clip_index (length xs) j in drop a (take b xs))"

lemma set_py_slice: "set (py_slice i j xs) \<subseteq> set xs"
  unfolding py_slice_def Let_def by (meson order_trans set_drop_subset set_take_subset)

lemma length_py_slice: "0 \<le> i \<Longrightarrow> 0 \<le> n \<Longrightarrow> length (py_slice i (i + n) xs) \<le> nat n"
  by (auto simp: py_slice_def Let_def clip_index_def)

subsection \<open>State machines\<close>

text \<open>
  A component is a set of initial states and a step relation. An invariant that holds
  initially and is kept by every step holds in every reachable state. Each component's own
  machine is an interpretation of this locale.
\<close>

inductive reach :: "('s \<Rightarrow> bool) \<Rightarrow> ('s \<Rightarrow> 's \<Rightarrow> bool) \<Rightarrow> 's \<Rightarrow> bool" for init step where
  reach_init: "init s \<Longrightarrow> reach init step s"
| reach_step: "reach init step s \<Longrightarrow> step s t \<Longrightarrow> reach init step t"

locale invariant_machine =
  fixes init :: "'s \<Rightarrow> bool"
    and step :: "'s \<Rightarrow> 's \<Rightarrow> bool"
    and inv :: "'s \<Rightarrow> bool"
  assumes init_inv: "init s \<Longrightarrow> inv s"
    and step_inv: "inv s \<Longrightarrow> step s t \<Longrightarrow> inv t"
begin

lemma reach_inv: "reach init step s \<Longrightarrow> inv s"
proof (induction rule: reach.induct)
  case (reach_init s)
  then show ?case by (rule init_inv)
next
  case (reach_step s t)
  then show ?case by (blast intro: step_inv)
qed

lemma steps_inv: "step\<^sup>*\<^sup>* s t \<Longrightarrow> inv s \<Longrightarrow> inv t"
  by (induction rule: rtranclp_induct) (blast intro: step_inv)+

end

subsection \<open>Calls that are refused\<close>

text \<open>
  The sequence of calls of one operation, with their answers. A component that refuses a call
  without changing its state refuses every later call of the same kind: this is shared by the
  open circuit, the exhausted probe budget and the exhausted worker pool.
\<close>

fun run_calls :: "('i \<Rightarrow> 's \<Rightarrow> 's \<times> 'o) \<Rightarrow> 'i list \<Rightarrow> 's \<Rightarrow> 's \<times> 'o list" where
  "run_calls call [] s = (s, [])"
| "run_calls call (i # is) s =
     (let (s', r) = call i s; (s'', rs) = run_calls call is s' in (s'', r # rs))"

lemma run_calls_append:
  "run_calls call (xs @ ys) s =
     (let (s', rs) = run_calls call xs s; (s'', rs') = run_calls call ys s' in (s'', rs @ rs'))"
  by (induction xs arbitrary: s) (auto simp: Let_def split: prod.splits)

lemma length_run_calls [simp]: "length (snd (run_calls call xs s)) = length xs"
  by (induction xs arbitrary: s) (auto simp: Let_def case_prod_beta)

locale refusing =
  fixes call :: "'i \<Rightarrow> 's \<Rightarrow> 's \<times> 'o"
    and quiet :: "'i \<Rightarrow> bool"
    and refused :: "'s \<Rightarrow> bool"
    and refusal :: 'o
  assumes refuse: "refused s \<Longrightarrow> quiet i \<Longrightarrow> snd (call i s) = refusal \<and> refused (fst (call i s))"
begin

lemma run_refused:
  "refused s \<Longrightarrow> list_all quiet is \<Longrightarrow>
   snd (run_calls call is s) = replicate (length is) refusal \<and> refused (fst (run_calls call is s))"
  by (induction "is" arbitrary: s) (auto simp: refuse case_prod_beta)

end

locale refusing_idle =
  fixes call :: "'i \<Rightarrow> 's \<Rightarrow> 's \<times> 'o"
    and quiet :: "'i \<Rightarrow> bool"
    and refused :: "'s \<Rightarrow> bool"
    and refusal :: 'o
  assumes refuse_idle: "refused s \<Longrightarrow> quiet i \<Longrightarrow> call i s = (s, refusal)"
begin

lemma run_refused_idle:
  "refused s \<Longrightarrow> list_all quiet is \<Longrightarrow> run_calls call is s = (s, replicate (length is) refusal)"
  by (induction "is") (auto simp: refuse_idle)

end

sublocale refusing_idle \<subseteq> refusing
  by unfold_locales (simp add: refuse_idle)

end
