(* ===== verification/Workflow_Domain.thy ===== *)
theory Workflow_Domain
  imports Prelude
begin

text \<open>
  The domain layer of the workflow engine (\<open>domain/workflow.py\<close>): node and edge data, the
  versioned \<open>Workflow\<close> entity with its copies (\<open>new_version\<close>, \<open>activate\<close>, \<open>archive\<close>), and the
  immutable \<open>WorkflowExecution\<close> with one function per method. Each Python method that builds a
  new frozen object field by field is a record update of exactly the fields it changes.
  \<open>now\<close> is the reading of \<open>_utcnow()\<close>, \<open>uid\<close> the value of \<open>uuid4()\<close>.
\<close>

type_synonym datetime = real

datatype workflow_status = WS_DRAFT | WS_ACTIVE | WS_PAUSED | WS_COMPLETED | WS_FAILED | WS_ARCHIVED

datatype exec_status =
  PENDING | RUNNING | PAUSED | AWAITING_APPROVAL | COMPLETED | FAILED | CANCELLED

datatype node_type =
  N_AGENT | N_TOOL | N_LLM | N_CONDITION | N_PARALLEL | N_APPROVAL | N_SUBWORKFLOW | N_START | N_END

fun workflow_status_value :: "workflow_status \<Rightarrow> string" where
  "workflow_status_value WS_DRAFT = ''draft''"
| "workflow_status_value WS_ACTIVE = ''active''"
| "workflow_status_value WS_PAUSED = ''paused''"
| "workflow_status_value WS_COMPLETED = ''completed''"
| "workflow_status_value WS_FAILED = ''failed''"
| "workflow_status_value WS_ARCHIVED = ''archived''"

fun exec_status_value :: "exec_status \<Rightarrow> string" where
  "exec_status_value PENDING = ''pending''"
| "exec_status_value RUNNING = ''running''"
| "exec_status_value PAUSED = ''paused''"
| "exec_status_value AWAITING_APPROVAL = ''awaiting_approval''"
| "exec_status_value COMPLETED = ''completed''"
| "exec_status_value FAILED = ''failed''"
| "exec_status_value CANCELLED = ''cancelled''"

fun node_type_value :: "node_type \<Rightarrow> string" where
  "node_type_value N_AGENT = ''agent''"
| "node_type_value N_TOOL = ''tool''"
| "node_type_value N_LLM = ''llm''"
| "node_type_value N_CONDITION = ''condition''"
| "node_type_value N_PARALLEL = ''parallel''"
| "node_type_value N_APPROVAL = ''approval''"
| "node_type_value N_SUBWORKFLOW = ''subworkflow''"
| "node_type_value N_START = ''start''"
| "node_type_value N_END = ''end''"

record workflow_node =
  wn_id :: string
  wn_type :: node_type
  wn_label :: string
  wn_config :: "(string, pyval) dict"
  wn_position :: "(string, real) dict"
  wn_subworkflow_id :: "string option"

definition with_position :: "workflow_node \<Rightarrow> real \<Rightarrow> real \<Rightarrow> workflow_node" where
  "with_position n x y = n\<lparr>wn_position := [(''x'', x), (''y'', y)]\<rparr>"

definition with_config :: "workflow_node \<Rightarrow> (string, pyval) dict \<Rightarrow> workflow_node" where
  "with_config n cfg = n\<lparr>wn_config := cfg\<rparr>"

record workflow_edge =
  we_id :: string
  we_source :: string
  we_target :: string
  we_source_handle :: "string option"
  we_target_handle :: "string option"
  we_condition :: "(string, pyval) dict option"

record workflow_template =
  wt_id :: string
  wt_name :: string
  wt_description :: string
  wt_nodes :: "workflow_node list"
  wt_edges :: "workflow_edge list"
  wt_parameters :: "(string, pyval) dict"
  wt_version :: int
  wt_created_at :: datetime
  wt_updated_at :: datetime
  wt_created_by :: string

text \<open>The two timestamp fields of a new object are filled by two separate \<open>_utcnow()\<close> calls.\<close>

definition template_create ::
  "string \<Rightarrow> datetime \<Rightarrow> datetime \<Rightarrow> string \<Rightarrow> string \<Rightarrow> workflow_node list \<Rightarrow> workflow_edge list \<Rightarrow>
   (string, pyval) dict option \<Rightarrow> string \<Rightarrow> workflow_template" where
  "template_create uid t1 t2 name description nodes edges parameters created_by =
     \<lparr>wt_id = uid, wt_name = name, wt_description = description, wt_nodes = nodes,
      wt_edges = edges, wt_parameters = (case parameters of None \<Rightarrow> [] | Some p \<Rightarrow> p),
      wt_version = 1, wt_created_at = t1, wt_updated_at = t2, wt_created_by = created_by\<rparr>"

record workflow =
  wf_id :: string
  wf_name :: string
  wf_description :: string
  wf_nodes :: "workflow_node list"
  wf_edges :: "workflow_edge list"
  wf_version :: int
  wf_status :: workflow_status
  wf_template_id :: "string option"
  wf_created_at :: datetime
  wf_updated_at :: datetime
  wf_created_by :: string

definition workflow_create ::
  "string \<Rightarrow> datetime \<Rightarrow> datetime \<Rightarrow> string \<Rightarrow> string \<Rightarrow> workflow_node list \<Rightarrow> workflow_edge list \<Rightarrow>
   string option \<Rightarrow> string \<Rightarrow> workflow" where
  "workflow_create uid t1 t2 name description nodes edges template_id created_by =
     \<lparr>wf_id = uid, wf_name = name, wf_description = description, wf_nodes = nodes,
      wf_edges = edges, wf_version = 1, wf_status = WS_DRAFT, wf_template_id = template_id,
      wf_created_at = t1, wf_updated_at = t2, wf_created_by = created_by\<rparr>"

definition new_version ::
  "workflow \<Rightarrow> datetime \<Rightarrow> string option \<Rightarrow> string option \<Rightarrow> workflow_node list option \<Rightarrow>
   workflow_edge list option \<Rightarrow> string \<Rightarrow> workflow" where
  "new_version w now name description nodes edges created_by =
     w\<lparr>wf_name := or_else name (wf_name w),
       wf_description := or_else description (wf_description w),
       wf_nodes := (case nodes of None \<Rightarrow> wf_nodes w | Some ns \<Rightarrow> ns),
       wf_edges := (case edges of None \<Rightarrow> wf_edges w | Some es \<Rightarrow> es),
       wf_version := wf_version w + 1,
       wf_status := WS_DRAFT,
       wf_updated_at := now,
       wf_created_by := created_by\<rparr>"

definition activate :: "workflow \<Rightarrow> datetime \<Rightarrow> string \<Rightarrow> workflow" where
  "activate w now created_by =
     w\<lparr>wf_status := WS_ACTIVE, wf_updated_at := now, wf_created_by := created_by\<rparr>"

definition archive :: "workflow \<Rightarrow> datetime \<Rightarrow> string \<Rightarrow> workflow" where
  "archive w now created_by =
     w\<lparr>wf_status := WS_ARCHIVED, wf_updated_at := now, wf_created_by := created_by\<rparr>"

record workflow_version =
  wv_version :: int
  wv_workflow_id :: string
  wv_name :: string
  wv_description :: string
  wv_nodes :: "workflow_node list"
  wv_edges :: "workflow_edge list"
  wv_created_at :: datetime
  wv_created_by :: string
  wv_changelog :: string

subsection \<open>Executions\<close>

record execution =
  x_id :: string
  x_workflow_id :: string
  x_workflow_version :: int
  x_status :: exec_status
  x_inputs :: "(string, pyval) dict"
  x_current_node :: "string option"
  x_completed_nodes :: "string set"
  x_failed_nodes :: "string set"
  x_node_outputs :: "(string, pyval) dict"
  x_node_errors :: "(string, string) dict"
  x_pending_approval :: "string option"
  x_approval_history :: "(string, (string, pyval) dict) dict"
  x_started_at :: datetime
  x_completed_at :: "datetime option"
  x_error :: "string option"
  x_parent_execution_id :: "string option"
  x_replay_from_node :: "string option"

definition execution_create ::
  "string \<Rightarrow> datetime \<Rightarrow> string \<Rightarrow> int \<Rightarrow> (string, pyval) dict \<Rightarrow> string option \<Rightarrow> string option \<Rightarrow>
   execution" where
  "execution_create uid now workflow_id version inputs parent replay_from =
     \<lparr>x_id = uid, x_workflow_id = workflow_id, x_workflow_version = version,
      x_status = PENDING, x_inputs = inputs, x_current_node = None, x_completed_nodes = {},
      x_failed_nodes = {}, x_node_outputs = [], x_node_errors = [], x_pending_approval = None,
      x_approval_history = [], x_started_at = now, x_completed_at = None, x_error = None,
      x_parent_execution_id = parent, x_replay_from_node = replay_from\<rparr>"

definition x_start :: "execution \<Rightarrow> execution" where
  "x_start e = e\<lparr>x_status := RUNNING, x_completed_at := None, x_error := None\<rparr>"

definition x_pause :: "execution \<Rightarrow> execution" where
  "x_pause e = e\<lparr>x_status := PAUSED, x_completed_at := None\<rparr>"

definition x_complete :: "execution \<Rightarrow> datetime \<Rightarrow> execution" where
  "x_complete e now =
     e\<lparr>x_status := COMPLETED, x_current_node := None, x_pending_approval := None,
       x_completed_at := Some now, x_error := None\<rparr>"

definition x_fail :: "execution \<Rightarrow> datetime \<Rightarrow> string \<Rightarrow> string option \<Rightarrow> execution" where
  "x_fail e now err failed_node =
     e\<lparr>x_status := FAILED,
       x_failed_nodes :=
         (if truthy failed_node then x_failed_nodes e \<union> {the failed_node} else x_failed_nodes e),
       x_node_errors :=
         (if truthy failed_node then dict_set (x_node_errors e) (the failed_node) err
          else x_node_errors e),
       x_pending_approval := None, x_completed_at := Some now, x_error := Some err\<rparr>"

definition x_cancel :: "execution \<Rightarrow> datetime \<Rightarrow> execution" where
  "x_cancel e now =
     e\<lparr>x_status := CANCELLED, x_current_node := None, x_pending_approval := None,
       x_completed_at := Some now, x_error := Some ''Cancelled by user''\<rparr>"

definition x_set_current_node :: "execution \<Rightarrow> string \<Rightarrow> execution" where
  "x_set_current_node e node_id = e\<lparr>x_current_node := Some node_id\<rparr>"

definition x_complete_node :: "execution \<Rightarrow> string \<Rightarrow> pyval \<Rightarrow> execution" where
  "x_complete_node e node_id out =
     e\<lparr>x_completed_nodes := x_completed_nodes e \<union> {node_id},
       x_node_outputs := dict_set (x_node_outputs e) node_id out\<rparr>"

definition x_request_approval ::
  "execution \<Rightarrow> datetime \<Rightarrow> string \<Rightarrow> pyval \<Rightarrow> execution" where
  "x_request_approval e now node_id ctxt =
     e\<lparr>x_status := AWAITING_APPROVAL, x_current_node := Some node_id,
       x_pending_approval := Some node_id,
       x_approval_history :=
         dict_set (x_approval_history e) node_id
           [(''requested_at'', PTime now), (''context'', ctxt)],
       x_completed_at := None\<rparr>"

definition opt_str :: "string option \<Rightarrow> pyval" where
  "opt_str s = (case s of None \<Rightarrow> PNone | Some x \<Rightarrow> PStr x)"

definition x_decide_approval ::
  "execution \<Rightarrow> datetime \<Rightarrow> datetime \<Rightarrow> string \<Rightarrow> bool \<Rightarrow> string \<Rightarrow> string option \<Rightarrow> execution" where
  "x_decide_approval e t1 t2 node_id approved decided_by reason =
     (let entry = dict_get_or (x_approval_history e) node_id [];
          entry = dict_set entry ''decided_at'' (PTime t1);
          entry = dict_set entry ''decided_by'' (PStr decided_by);
          entry = dict_set entry ''approved'' (PBool approved);
          entry = dict_set entry ''reason'' (opt_str reason);
          msg = or_else reason ''Approval denied''
      in e\<lparr>x_status := (if approved then RUNNING else FAILED),
           x_current_node := (if approved then Some node_id else None),
           x_completed_nodes := x_completed_nodes e \<union> (if approved then {node_id} else {}),
           x_failed_nodes := x_failed_nodes e \<union> (if approved then {} else {node_id}),
           x_node_errors :=
             (if approved then x_node_errors e else dict_set (x_node_errors e) node_id msg),
           x_pending_approval := None,
           x_approval_history := dict_set (x_approval_history e) node_id entry,
           x_completed_at := (if approved then None else Some t2),
           x_error := (if approved then None else Some msg)\<rparr>)"

lemmas x_op_defs =
  execution_create_def x_start_def x_pause_def x_complete_def x_fail_def x_cancel_def
  x_set_current_node_def x_complete_node_def x_request_approval_def x_decide_approval_def

subsection \<open>Consistency of execution objects\<close>

text \<open>
  The relation between the fields that every method keeps: the completion time is set exactly
  in the final states, the error and the pending approval agree with the status, a node has
  an output only if it completed, and exactly the failed nodes have an error entry.
\<close>

definition final_status :: "exec_status \<Rightarrow> bool" where
  "final_status s \<longleftrightarrow> s = COMPLETED \<or> s = FAILED \<or> s = CANCELLED"

definition exec_wf :: "execution \<Rightarrow> bool" where
  "exec_wf e \<longleftrightarrow>
     (x_completed_at e \<noteq> None \<longleftrightarrow> final_status (x_status e)) \<and>
     (x_status e = FAILED \<longrightarrow> x_error e \<noteq> None) \<and>
     (x_status e = COMPLETED \<longrightarrow> x_error e = None) \<and>
     (final_status (x_status e) \<longrightarrow> x_pending_approval e = None) \<and>
     (x_status e = AWAITING_APPROVAL \<longrightarrow> x_pending_approval e \<noteq> None) \<and>
     set (dict_keys (x_node_outputs e)) \<subseteq> x_completed_nodes e \<and>
     set (dict_keys (x_node_errors e)) = x_failed_nodes e"

lemma x_decide_sel [simp]:
  "x_status (x_decide_approval e t1 t2 nid approved who reason) = (if approved then RUNNING else FAILED)"
  "x_completed_at (x_decide_approval e t1 t2 nid approved who reason) = (if approved then None else Some t2)"
  "x_error (x_decide_approval e t1 t2 nid approved who reason) =
     (if approved then None else Some (or_else reason ''Approval denied''))"
  "x_pending_approval (x_decide_approval e t1 t2 nid approved who reason) = None"
  "x_node_outputs (x_decide_approval e t1 t2 nid approved who reason) = x_node_outputs e"
  "x_completed_nodes (x_decide_approval e t1 t2 nid approved who reason) =
     (if approved then insert nid (x_completed_nodes e) else x_completed_nodes e)"
  "x_failed_nodes (x_decide_approval e t1 t2 nid approved who reason) =
     (if approved then x_failed_nodes e else insert nid (x_failed_nodes e))"
  "x_node_errors (x_decide_approval e t1 t2 nid approved who reason) =
     (if approved then x_node_errors e
      else dict_set (x_node_errors e) nid (or_else reason ''Approval denied''))"
  "x_id (x_decide_approval e t1 t2 nid approved who reason) = x_id e"
  "x_workflow_id (x_decide_approval e t1 t2 nid approved who reason) = x_workflow_id e"
  by (simp_all add: x_decide_approval_def Let_def)

text \<open>The methods of \<open>WorkflowExecution\<close> as one step relation.\<close>

inductive exec_step :: "execution \<Rightarrow> execution \<Rightarrow> bool" where
  step_start: "exec_step e (x_start e)"
| step_pause: "exec_step e (x_pause e)"
| step_complete: "exec_step e (x_complete e now)"
| step_fail: "exec_step e (x_fail e now err failed_node)"
| step_cancel: "exec_step e (x_cancel e now)"
| step_current: "exec_step e (x_set_current_node e nid)"
| step_node: "exec_step e (x_complete_node e nid out)"
| step_request: "exec_step e (x_request_approval e now nid ctxt)"
| step_decide: "exec_step e (x_decide_approval e t1 t2 nid approved who reason)"

inductive exec_created :: "execution \<Rightarrow> bool" where
  "exec_created (execution_create uid now wid ver inputs parent replay)"

lemma exec_wf_create [inv_intros]: "exec_wf (execution_create uid now wid ver inputs parent replay)"
  by (simp add: exec_wf_def execution_create_def final_status_def)

lemma exec_wf_step [inv_intros]: "exec_step e e' \<Longrightarrow> exec_wf e \<Longrightarrow> exec_wf e'"
proof (induction rule: exec_step.induct)
  case (step_decide e t1 t2 nid approved who reason)
  then show ?case
    by (cases approved) (simp_all add: exec_wf_def final_status_def subset_insertI2)
qed (auto simp: exec_wf_def x_start_def x_pause_def x_complete_def x_fail_def x_cancel_def
      x_set_current_node_def x_complete_node_def x_request_approval_def final_status_def
      split: option.splits)

interpretation exec_machine: invariant_machine exec_created exec_step exec_wf
  by unfold_locales (auto intro: exec_wf_step exec_wf_create elim: exec_created.cases)

text \<open>What no method of an execution changes: its identity and its inputs.\<close>

lemma exec_step_frame:
  "exec_step e e' \<Longrightarrow>
     x_id e' = x_id e \<and> x_workflow_id e' = x_workflow_id e \<and>
     x_workflow_version e' = x_workflow_version e \<and> x_inputs e' = x_inputs e \<and>
     x_started_at e' = x_started_at e \<and> x_parent_execution_id e' = x_parent_execution_id e \<and>
     x_replay_from_node e' = x_replay_from_node e"
  by (induction rule: exec_step.induct) (auto simp: x_op_defs Let_def)

lemma exec_step_completed_mono: "exec_step e e' \<Longrightarrow> x_completed_nodes e \<subseteq> x_completed_nodes e'"
  by (induction rule: exec_step.induct) (auto simp: x_op_defs Let_def)

end
