(* ===== verification/Graph.thy ===== *)
theory Graph
  imports Prelude
begin

text \<open>
  Graphs given as edge lists (with repetitions), in-degrees relative to a set of processed
  nodes, and the invariant of Kahn's algorithm. Both the validator and the runner of the
  workflow engine use this algorithm; their loops are related to it in their own theories.
\<close>

type_synonym 'a edges = "('a \<times> 'a) list"

definition succs :: "'a edges \<Rightarrow> 'a \<Rightarrow> 'a list" where
  "succs E u = map snd (filter (\<lambda>e. fst e = u) E)"

definition preds :: "'a edges \<Rightarrow> 'a \<Rightarrow> 'a list" where
  "preds E v = map fst (filter (\<lambda>e. snd e = v) E)"

definition indeg_of :: "'a edges \<Rightarrow> 'a set \<Rightarrow> 'a \<Rightarrow> nat" where
  "indeg_of E P v = length (filter (\<lambda>e. snd e = v \<and> fst e \<notin> P) E)"

definition topo_ok :: "'a edges \<Rightarrow> 'a list \<Rightarrow> bool" where
  "topo_ok E p \<longleftrightarrow> (\<forall>xs y ys. p = xs @ y # ys \<longrightarrow> set (preds E y) \<subseteq> set xs)"

lemma set_preds: "set (preds E v) = {u. (u, v) \<in> set E}"
  by (force simp: preds_def)

lemma set_succs: "set (succs E u) = {v. (u, v) \<in> set E}"
  by (force simp: succs_def)

lemma succs_simps [simp]:
  "succs [] u = []"
  "succs (e # E) u = (if fst e = u then snd e # succs E u else succs E u)"
  by (simp_all add: succs_def)

lemma preds_simps [simp]:
  "preds [] v = []"
  "preds (e # E) v = (if snd e = v then fst e # preds E v else preds E v)"
  by (simp_all add: preds_def)

lemma indeg_of_zero: "indeg_of E P v = 0 \<longleftrightarrow> set (preds E v) \<subseteq> P"
  by (auto simp: indeg_of_def set_preds filter_empty_conv)

lemma indeg_of_empty: "indeg_of E {} v = length (preds E v)"
  by (simp add: indeg_of_def preds_def)

lemma indeg_of_insert:
  "u \<notin> P \<Longrightarrow> indeg_of E (insert u P) v + count_list (succs E u) v = indeg_of E P v"
  by (induction E) (auto simp: indeg_of_def)

lemma topo_ok_Nil [simp]: "topo_ok E []"
  by (simp add: topo_ok_def)

lemma topo_ok_snoc: "topo_ok E p \<Longrightarrow> set (preds E u) \<subseteq> set p \<Longrightarrow> topo_ok E (p @ [u])"
  by (auto simp: topo_ok_def append_eq_append_conv2 append_eq_Cons_conv Cons_eq_append_conv)

lemma topo_ok_append: "topo_ok E (p @ q) \<Longrightarrow> topo_ok E p"
  unfolding topo_ok_def by (metis append.assoc append_Cons)

lemma topo_ok_preds: "topo_ok E p \<Longrightarrow> v \<in> set p \<Longrightarrow> set (preds E v) \<subseteq> set p"
  unfolding topo_ok_def by (metis UnI1 set_append split_list subset_eq)

subsection \<open>Topological orders and cycles\<close>

lemma acyclic_no_stuck:
  assumes "acyclic R" and "finite V" and "\<And>v. v \<in> V \<Longrightarrow> \<exists>u\<in>V. (u, v) \<in> R"
  shows "V = {}"
proof (rule ccontr)
  assume ne: "V \<noteq> {}"
  let ?S = "R \<inter> V \<times> V"
  have "acyclic ?S" using assms(1) by (rule acyclic_subset) simp
  moreover have "finite ?S" using assms(2) by simp
  ultimately have "wf ?S" by (simp add: finite_acyclic_wf)
  then obtain m where "m \<in> V" and "\<And>y. (y, m) \<in> ?S \<Longrightarrow> y \<notin> V"
    using ne by (metis wf_eq_minimal ex_in_conv)
  with assms(3) show False by blast
qed

lemma topo_ok_path_index:
  assumes "topo_ok E p" and "distinct p" and "(u, v) \<in> (set E)\<^sup>+" and "v \<in> set p"
  shows "\<exists>xs ys zs. p = xs @ u # ys @ v # zs"
  using assms(3,4)
proof (induction rule: trancl_induct)
  case (base v)
  from base(2) obtain xs ys where p: "p = xs @ v # ys" by (meson split_list)
  with assms(1) base(1) have "u \<in> set xs" by (auto simp: topo_ok_def set_preds)
  with p show ?case by (metis append.assoc append_Cons split_list)
next
  case (step w v)
  from step(4) obtain xs ys where p: "p = xs @ v # ys" by (meson split_list)
  with assms(1) step(2) have w: "w \<in> set xs" by (auto simp: topo_ok_def set_preds)
  with p step.IH obtain as bs cs where q: "p = as @ u # bs @ w # cs" by auto
  from w obtain l r where xs: "xs = l @ w # r" by (meson split_list)
  have "distinct (as @ u # bs @ w # cs)" and "distinct (l @ w # r @ v # ys)"
    using assms(2) p q xs by auto
  moreover have eq: "(as @ u # bs) @ w # cs = l @ w # (r @ v # ys)" using p q xs by simp
  ultimately have "as @ u # bs = l" "cs = r @ v # ys"
    using append_Cons_eq_iff [of w "as @ u # bs" cs l "r @ v # ys"] by auto
  with p xs show ?case by (metis append.assoc append_Cons)
qed

lemma topo_ok_acyclic:
  assumes "topo_ok E p" and "distinct p" and "snd ` set E \<subseteq> set p"
  shows "acyclic (set E)"
proof (rule acyclicI, safe)
  fix u assume u: "(u, u) \<in> (set E)\<^sup>+"
  then obtain w where "(w, u) \<in> set E" by (meson tranclE)
  with assms(3) have "u \<in> set p" by force
  from topo_ok_path_index [OF assms(1,2) u this] assms(2) show False by auto
qed

subsection \<open>The invariant of Kahn's algorithm\<close>

text \<open>\<open>p\<close> is the list of processed nodes, \<open>q\<close> the queue.\<close>

definition kahn_inv :: "'a list \<Rightarrow> 'a edges \<Rightarrow> 'a list \<Rightarrow> 'a list \<Rightarrow> bool" where
  "kahn_inv V E p q \<longleftrightarrow>
     distinct (p @ q) \<and> topo_ok E p \<and>
     set (p @ q) = {v \<in> set V. indeg_of E (set p) v = 0}"

definition edges_in :: "'a list \<Rightarrow> 'a edges \<Rightarrow> bool" where
  "edges_in V E \<longleftrightarrow> (\<forall>(u, v) \<in> set E. u \<in> set V \<and> v \<in> set V)"

lemma kahn_inv_init:
  "distinct V \<Longrightarrow> kahn_inv V E [] (filter (\<lambda>v. preds E v = []) V)"
  by (auto simp: kahn_inv_def indeg_of_empty)

lemma kahn_inv_indeg: "kahn_inv V E p q \<Longrightarrow> v \<in> set (p @ q) \<Longrightarrow> indeg_of E (set p) v = 0"
  unfolding kahn_inv_def by blast

lemma kahn_inv_head:
  assumes "kahn_inv V E p (u # q)"
  shows "u \<in> set V" and "u \<notin> set p" and "set (preds E u) \<subseteq> set p" and "u \<notin> set (succs E u)"
proof -
  show u: "u \<in> set V" "u \<notin> set p" using assms by (auto simp: kahn_inv_def)
  have "indeg_of E (set p) u = 0" using assms unfolding kahn_inv_def by auto
  then show p: "set (preds E u) \<subseteq> set p" by (simp add: indeg_of_zero)
  with u show "u \<notin> set (succs E u)" by (auto simp: set_preds set_succs)
qed

lemma kahn_inv_step:
  assumes inv: "kahn_inv V E p (u # q)" and ein: "edges_in V E" and dn: "distinct new"
    and sn: "set new = {v \<in> set (succs E u). indeg_of E (set p) v = count_list (succs E u) v}"
  shows "kahn_inv V E (p @ [u]) (q @ new)"
proof -
  note hd = kahn_inv_head [OF inv]
  have ins: "indeg_of E (insert u (set p)) v + count_list (succs E u) v = indeg_of E (set p) v" for v
    by (rule indeg_of_insert [OF hd(2)])
  have cl: "v \<in> set (succs E u) \<longleftrightarrow> count_list (succs E u) v \<noteq> 0" for v
    by (simp add: count_list_0_iff)
  have old: "insert u (set p \<union> set q) = {v \<in> set V. indeg_of E (set p) v = 0}"
    using inv by (auto simp: kahn_inv_def)
  have new: "set new = {v \<in> set V. indeg_of E (set p) v \<noteq> 0 \<and> indeg_of E (insert u (set p)) v = 0}"
    (is "_ = ?N")
  proof (intro set_eqI iffI)
    fix v assume "v \<in> set new"
    then have v: "v \<in> set (succs E u)" "indeg_of E (set p) v = count_list (succs E u) v"
      by (simp_all add: sn)
    then have "v \<in> set V" using ein by (auto simp: set_succs edges_in_def)
    with v ins [of v] cl [of v] show "v \<in> ?N" by simp
  next
    fix v assume "v \<in> ?N"
    with ins [of v] cl [of v] show "v \<in> set new" by (simp add: sn)
  qed
  have "set new \<inter> insert u (set p \<union> set q) = {}" unfolding new old by auto
  then have d: "distinct ((p @ [u]) @ q @ new)"
    using inv dn by (auto simp: kahn_inv_def)
  have "insert u (set p \<union> set q) \<union> set new = {v \<in> set V. indeg_of E (insert u (set p)) v = 0}"
  proof (intro set_eqI)
    fix v
    show "v \<in> insert u (set p \<union> set q) \<union> set new \<longleftrightarrow>
      v \<in> {v \<in> set V. indeg_of E (insert u (set p)) v = 0}"
      unfolding old new using ins [of v] by auto
  qed
  then have "set ((p @ [u]) @ q @ new) = {v \<in> set V. indeg_of E (set (p @ [u])) v = 0}"
    by (simp add: Un_ac insert_commute)
  moreover have "topo_ok E (p @ [u])"
    using inv hd(3) by (auto simp: kahn_inv_def intro: topo_ok_snoc)
  ultimately show ?thesis using d by (simp add: kahn_inv_def)
qed

lemma kahn_inv_done:
  assumes "kahn_inv V E p []" and "edges_in V E"
  shows "set p = set V \<longleftrightarrow> acyclic (set E)"
proof
  assume eq: "set p = set V"
  have "snd ` set E \<subseteq> set p" using assms(2) eq by (force simp: edges_in_def)
  with assms(1) show "acyclic (set E)"
    by (intro topo_ok_acyclic [of E p]) (auto simp: kahn_inv_def)
next
  assume ac: "acyclic (set E)"
  have p: "set p = {v \<in> set V. set (preds E v) \<subseteq> set p}"
    using assms(1) by (simp add: kahn_inv_def indeg_of_zero)
  have "set V - set p = {}"
  proof (rule acyclic_no_stuck [OF ac])
    fix v assume v: "v \<in> set V - set p"
    with p have "\<not> set (preds E v) \<subseteq> set p" by blast
    then obtain u where u: "(u, v) \<in> set E" "u \<notin> set p" by (auto simp: set_preds)
    with assms(2) show "\<exists>u\<in>set V - set p. (u, v) \<in> set E" by (force simp: edges_in_def)
  qed simp
  with p show "set p = set V" by blast
qed

lemma kahn_inv_length:
  "kahn_inv V E p q \<Longrightarrow> length p + length q \<le> card (set V)"
proof -
  assume a: "kahn_inv V E p q"
  have "card (set (p @ q)) = length (p @ q)" using a by (intro distinct_card) (simp add: kahn_inv_def)
  moreover have "card (set (p @ q)) \<le> card (set V)"
    using a by (intro card_mono) (auto simp: kahn_inv_def)
  ultimately show ?thesis by simp
qed

end
