(* ===== verification/Workflow_Validation.thy ===== *)
theory Workflow_Validation
  imports Workflow_Domain Graph
begin

text \<open>
  \<open>WorkflowEngineImpl.validate_workflow\<close> (\<open>core/workflow/engine.py\<close>): duplicate identifiers,
  dangling edges, and the cycle check by Kahn's algorithm. The loops are translated as they
  are written: one pass over the edges that collects errors and the adjacency dictionary, a
  nested pass that counts in-degrees, and the \<open>while queue\<close> loop, whose termination is proved
  with the measure "queue length plus outstanding in-degrees". The main results say that the
  check accepts exactly the acyclic graphs.
  A \<open>defaultdict(int)\<close> is a total function into \<open>int\<close>.
\<close>

record validation_result =
  vr_valid :: bool
  vr_errors :: "string list"
  vr_warnings :: "string list"

definition adj_append :: "(string, string list) dict \<Rightarrow> string \<Rightarrow> string \<Rightarrow> (string, string list) dict" where
  "adj_append adj u v = dict_set adj u (dict_get_or adj u [] @ [v])"

fun scan_edges ::
  "string list \<Rightarrow> workflow_edge list \<Rightarrow> string list \<Rightarrow> (string, string list) dict \<Rightarrow>
   string list \<times> (string, string list) dict" where
  "scan_edges ids [] errs adj = (errs, adj)"
| "scan_edges ids (e # es) errs adj =
     (let errs1 = (if we_source e \<notin> set ids
                   then errs @ [''Edge '' @ we_id e @ '': source node '' @ we_source e @ '' does not exist'']
                   else errs);
          errs2 = (if we_target e \<notin> set ids
                   then errs1 @ [''Edge '' @ we_id e @ '': target node '' @ we_target e @ '' does not exist'']
                   else errs1);
          adj' = (if we_source e \<in> set ids \<and> we_target e \<in> set ids
                  then adj_append adj (we_source e) (we_target e) else adj)
      in scan_edges ids es errs2 adj')"

definition count_in_degree :: "(string, string list) dict \<Rightarrow> string \<Rightarrow> int" where
  "count_in_degree adj =
     fold (\<lambda>(u, vs). fold (\<lambda>v d. d(v := d v + 1)) vs) adj (\<lambda>_. 0)"

fun relax :: "(string \<Rightarrow> int) \<Rightarrow> string list \<Rightarrow> string list \<Rightarrow> (string \<Rightarrow> int) \<times> string list" where
  "relax d q [] = (d, q)"
| "relax d q (v # vs) =
     (let d' = d(v := d v - 1) in relax d' (if d' v = 0 then q @ [v] else q) vs)"

definition adj_targets :: "(string, string list) dict \<Rightarrow> string set" where
  "adj_targets adj = (\<Union>vs \<in> set (dict_values adj). set vs)"

lemma finite_adj_targets [simp]: "finite (adj_targets adj)"
  by (simp add: adj_targets_def)

lemma relax_measure:
  assumes "finite A" and "set vs \<subseteq> A"
  shows "length (snd (relax d q vs)) + (\<Sum>v\<in>A. nat (fst (relax d q vs) v))
           \<le> length q + (\<Sum>v\<in>A. nat (d v))"
  using assms(2)
proof (induction vs arbitrary: d q)
  case (Cons v vs)
  let ?d = "d(v := d v - 1)" and ?q = "if d v = 1 then q @ [v] else q"
  have "(\<Sum>w\<in>A. nat (d w)) = nat (d v) + (\<Sum>w\<in>A - {v}. nat (d w))"
    and "(\<Sum>w\<in>A. nat (?d w)) = nat (d v - 1) + (\<Sum>w\<in>A - {v}. nat (d w))"
    using assms(1) Cons.prems by (auto simp: sum.remove [of A v])
  then have b: "length ?q + (\<Sum>w\<in>A. nat (?d w)) \<le> length q + (\<Sum>w\<in>A. nat (d w))" by auto
  have a: "length (snd (relax ?d ?q vs)) + (\<Sum>w\<in>A. nat (fst (relax ?d ?q vs) w))
      \<le> length ?q + (\<Sum>w\<in>A. nat (?d w))"
    by (rule Cons.IH) (use Cons.prems in simp)
  have "relax d q (v # vs) = relax ?d ?q vs" by (simp add: Let_def)
  then show ?case using order_trans [OF a b] by (simp only:)
qed simp

lemma adj_targets_get: "set (dict_get_or adj u []) \<subseteq> adj_targets adj"
proof (cases "dict_get adj u")
  case (Some vs)
  then have "vs \<in> set (dict_values adj)" by (force dest: map_of_SomeD)
  with Some show ?thesis by (auto simp: dict_get_or_def adj_targets_def)
qed (simp add: dict_get_or_def)

lemma relax_adj_measure:
  assumes "relax d q (dict_get_or adj u []) = (d', q')"
  shows "length q' + (\<Sum>v\<in>adj_targets adj. nat (d' v)) \<le> length q + (\<Sum>v\<in>adj_targets adj. nat (d v))"
  using relax_measure [OF finite_adj_targets adj_targets_get, of d q adj u] assms by simp

function kahn_loop ::
  "(string, string list) dict \<Rightarrow> (string \<Rightarrow> int) \<Rightarrow> string list \<Rightarrow> nat \<Rightarrow> nat" where
  "kahn_loop adj d [] n = n"
| "kahn_loop adj d (u # q) n =
     (let (d', q') = relax d q (dict_get_or adj u []) in kahn_loop adj d' q' (n + 1))"
  by pat_completeness auto
termination
proof (relation "measure (\<lambda>(adj, d, q, n). length q + (\<Sum>v\<in>adj_targets adj. nat (d v)))", goal_cases)
  case (2 adj d u q n x d' q')
  then have "relax d q (dict_get_or adj u []) = (d', q')" by simp
  from relax_adj_measure [OF this] show ?case by simp
qed simp

definition validate_workflow :: "workflow_node list \<Rightarrow> workflow_edge list \<Rightarrow> validation_result" where
  "validate_workflow nodes edges =
     (let node_ids = map wn_id nodes;
          errs = (if \<not> distinct node_ids then [''Duplicate node IDs found''] else []);
          edge_ids = map we_id edges;
          errs = (if \<not> distinct edge_ids then errs @ [''Duplicate edge IDs found''] else errs);
          (errs, adj) = scan_edges node_ids edges errs [];
          errs = (if errs = [] then
                    (let in_degree = count_in_degree adj;
                         queue = filter (\<lambda>n. in_degree n = 0) node_ids;
                         topo_count = kahn_loop adj in_degree queue 0
                     in if topo_count \<noteq> length node_ids
                        then [''Workflow contains cycles (not a valid DAG)''] else [])
                  else errs);
          has_start = list_ex (\<lambda>n. wn_type n = N_START) nodes;
          has_end = list_ex (\<lambda>n. wn_type n = N_END) nodes;
          warns = (if \<not> has_start then [''Workflow has no START node''] else []);
          warns = (if \<not> has_end then warns @ [''Workflow has no END node''] else warns)
      in \<lparr>vr_valid = (errs = []), vr_errors = errs, vr_warnings = warns\<rparr>)"

subsection \<open>The abstract graph of a workflow\<close>

definition wf_pairs :: "workflow_edge list \<Rightarrow> string edges" where
  "wf_pairs edges = map (\<lambda>e. (we_source e, we_target e)) edges"

text \<open>What a valid workflow definition is, independently of the algorithm.\<close>

definition wf_graph :: "workflow_node list \<Rightarrow> workflow_edge list \<Rightarrow> bool" where
  "wf_graph nodes edges \<longleftrightarrow>
     distinct (map wn_id nodes) \<and> distinct (map we_id edges) \<and>
     edges_in (map wn_id nodes) (wf_pairs edges)"

lemma scan_edges_errors:
  "fst (scan_edges ids es errs adj) = [] \<longleftrightarrow> errs = [] \<and> edges_in ids (wf_pairs es)"
  by (induction ids es errs adj rule: scan_edges.induct)
     (auto simp: Let_def edges_in_def wf_pairs_def)

lemma scan_edges_adj:
  "edges_in ids (wf_pairs es) \<Longrightarrow>
   dict_get_or (snd (scan_edges ids es errs adj)) u [] = dict_get_or adj u [] @ succs (wf_pairs es) u"
  by (induction ids es errs adj rule: scan_edges.induct)
     (auto simp: Let_def edges_in_def wf_pairs_def adj_append_def)

lemma fold_count: "fold (\<lambda>v d. d(v := d v + 1)) vs d w = d w + int (count_list vs w)"
  by (induction vs arbitrary: d) auto

lemma count_in_degree_sum:
  "count_in_degree adj w = (\<Sum>(u, vs)\<leftarrow>adj. int (count_list vs w))"
proof -
  have "fold (\<lambda>(u, vs). fold (\<lambda>v d. d(v := d v + 1)) vs) adj d w =
          d w + (\<Sum>(u, vs)\<leftarrow>adj. int (count_list vs w))" for d
    by (induction adj arbitrary: d) (auto simp: fold_count)
  then show ?thesis by (simp add: count_in_degree_def)
qed

lemma count_in_degree_append:
  "count_in_degree (adj_append adj u v) w = count_in_degree adj w + (if w = v then 1 else 0)"
  unfolding count_in_degree_sum adj_append_def
  by (induction adj) (auto simp: dict_get_or_def split: option.splits)

lemma scan_edges_in_degree:
  "edges_in ids (wf_pairs es) \<Longrightarrow>
   count_in_degree (snd (scan_edges ids es errs adj)) v =
     count_in_degree adj v + int (length (preds (wf_pairs es) v))"
  by (induction ids es errs adj rule: scan_edges.induct)
     (auto simp: Let_def edges_in_def wf_pairs_def count_in_degree_append)

subsection \<open>The loop is Kahn's algorithm\<close>

lemma relax_effect:
  assumes "\<And>v. int (count_list vs v) \<le> d v"
  shows "\<exists>new. relax d q vs = (\<lambda>v. d v - int (count_list vs v), q @ new) \<and> distinct new \<and>
           set new = {v \<in> set vs. d v = int (count_list vs v)}"
  using assms
proof (induction vs arbitrary: d q)
  case (Cons v vs)
  let ?d = "d(v := d v - 1)" and ?q = "if d v = 1 then q @ [v] else q"
  have le: "int (count_list vs w) \<le> ?d w" for w using Cons.prems [of w] by auto
  obtain new where new: "relax ?d ?q vs = (\<lambda>w. ?d w - int (count_list vs w), ?q @ new)"
    "distinct new" "set new = {w \<in> set vs. ?d w = int (count_list vs w)}"
    using Cons.IH [OF le] by blast
  have zero: "d v = 1 \<Longrightarrow> v \<notin> set vs" using le [of v] by (simp add: count_list_0_iff)
  have "relax d q (v # vs) = (\<lambda>w. d w - int (count_list (v # vs) w), q @ (if d v = 1 then v # new else new))"
    using new(1) by (auto simp: Let_def)
  moreover have "distinct (if d v = 1 then v # new else new)" using new zero by auto
  moreover have "set (if d v = 1 then v # new else new) =
      {w \<in> set (v # vs). d w = int (count_list (v # vs) w)}"
    using zero by (auto simp: new(3) count_list_0_iff split: if_splits)
  ultimately show ?case by blast
qed simp

text \<open>Every round pops one node; the loop returns the number of nodes ever popped.\<close>

lemma kahn_loop_complete:
  assumes "edges_in V E" and "kahn_inv V E p q"
    and "\<And>v. d v = int (indeg_of E (set p) v)"
    and "\<And>u. dict_get_or adj u [] = succs E u"
  shows "\<exists>p'. kahn_loop adj d q (length p) = length p' \<and> kahn_inv V E p' []"
  using assms(2,3,4)
proof (induction adj d q "length p" arbitrary: p rule: kahn_loop.induct)
  case (1 adj d)
  then show ?case by auto
next
  case (2 adj d u q)
  note hd = kahn_inv_head [OF 2(2)]
  have ins: "indeg_of E (insert u (set p)) v + count_list (succs E u) v = indeg_of E (set p) v" for v
    by (rule indeg_of_insert [OF hd(2)])
  have le: "int (count_list (succs E u) v) \<le> d v" for v using ins [of v] 2(3) [of v] by simp
  obtain new where new: "relax d q (succs E u) = (\<lambda>v. d v - int (count_list (succs E u) v), q @ new)"
    "distinct new" "set new = {v \<in> set (succs E u). d v = int (count_list (succs E u) v)}"
    using relax_effect [OF le, of q] by auto
  let ?d = "\<lambda>v. d v - int (count_list (succs E u) v)"
  have inv: "kahn_inv V E (p @ [u]) (q @ new)"
    using kahn_inv_step [OF 2(2) assms(1) new(2)] new(3) 2(3) by simp
  have d: "?d v = int (indeg_of E (set (p @ [u])) v)" for v
    using ins [of v] 2(3) [of v] by simp
  have "\<exists>p'. kahn_loop adj ?d (q @ new) (length (p @ [u])) = length p' \<and> kahn_inv V E p' []"
    by (rule 2(1) [OF _ _ _ inv d 2(4)]) (simp_all add: 2(4) new(1))
  then show ?case by (simp add: 2(4) new(1))
qed

lemma validate_valid_iff:
  "vr_valid (validate_workflow nodes edges) \<longleftrightarrow>
     wf_graph nodes edges \<and> acyclic (set (wf_pairs edges))"
proof (cases "wf_graph nodes edges")
  case False
  let ?errs = "(if \<not> distinct (map we_id edges)
      then (if \<not> distinct (map wn_id nodes) then [''Duplicate node IDs found''] else [])
           @ [''Duplicate edge IDs found'']
      else (if \<not> distinct (map wn_id nodes) then [''Duplicate node IDs found''] else []))"
  obtain errs adj where sc: "scan_edges (map wn_id nodes) edges ?errs [] = (errs, adj)" by force
  have "errs \<noteq> []"
    using scan_edges_errors [of "map wn_id nodes" edges ?errs "[]"] sc False
    by (auto simp: wf_graph_def split: if_splits)
  then have "\<not> vr_valid (validate_workflow nodes edges)"
    unfolding validate_workflow_def Let_def sc by simp
  with False show ?thesis by simp
next
  case True
  let ?V = "map wn_id nodes" and ?E = "wf_pairs edges"
  obtain errs adj where sc: "scan_edges ?V edges [] [] = (errs, adj)" by force
  have g: "distinct ?V" "distinct (map we_id edges)" "edges_in ?V ?E"
    using True by (auto simp: wf_graph_def)
  have errs: "errs = []" using scan_edges_errors [of ?V edges "[]" "[]"] sc g by simp
  have adj: "dict_get_or adj u [] = succs ?E u" for u
    using scan_edges_adj [OF g(3), of "[]" "[]" u] sc by (simp add: dict_get_or_def)
  have deg: "count_in_degree adj v = int (length (preds ?E v))" for v
    using scan_edges_in_degree [OF g(3), of "[]" "[]" v] sc by (simp add: count_in_degree_def)
  let ?q = "filter (\<lambda>v. count_in_degree adj v = 0) ?V"
  have "kahn_inv ?V ?E [] ?q" using kahn_inv_init [OF g(1), of ?E] by (simp add: deg)
  then obtain p where p: "kahn_loop adj (count_in_degree adj) ?q 0 = length p" "kahn_inv ?V ?E p []"
    using kahn_loop_complete [OF g(3), of "[]" ?q "count_in_degree adj" adj] adj deg
    by (auto simp: indeg_of_empty)
  have dp: "distinct p" "set p \<subseteq> set ?V" using p(2) by (auto simp: kahn_inv_def)
  have "length p = length ?V \<longleftrightarrow> set p = set ?V"
    using dp g(1) by (metis card_subset_eq distinct_card finite_set)
  also have "\<dots> \<longleftrightarrow> acyclic (set ?E)" by (rule kahn_inv_done [OF p(2) g(3)])
  finally have "length p = length nodes \<longleftrightarrow> acyclic (set ?E)" by simp
  with True g sc errs p(1) show ?thesis by (simp add: validate_workflow_def Let_def)
qed

subsection \<open>Properties\<close>

text \<open>C1: The validator accepts a definition exactly when its node identifiers and its edge
  identifiers are distinct, every edge connects existing nodes, and the graph has no cycle:
  the Kahn loop terminates on every input and its counter test decides acyclicity.\<close>

theorem validate_accepts_exactly_dags:
  "vr_valid (validate_workflow nodes edges) =
     (distinct (map wn_id nodes) \<and> distinct (map we_id edges) \<and>
      we_source ` set edges \<subseteq> wn_id ` set nodes \<and> we_target ` set edges \<subseteq> wn_id ` set nodes \<and>
      acyclic ((\<lambda>e. (we_source e, we_target e)) ` set edges))"
  unfolding validate_valid_iff wf_graph_def edges_in_def wf_pairs_def by auto

end
