(* ===== verification/Workflow_Engine.thy ===== *)
theory Workflow_Engine
  imports Workflow_Validation
begin

text \<open>
  \<open>WorkflowEngineImpl\<close> (\<open>core/workflow/engine.py\<close>): the engine's dictionaries, its CRUD,
  execution, approval and control operations, the node executor and the background runner
  \<open>_run_execution\<close>.

  An operation maps a state to a new state and a result; a raised exception is an \<open>Inl\<close>
  result and keeps the state changes made before the raise. A background task is a \<open>runner\<close>:
  the local variables of \<open>_run_execution\<close> plus a program counter. Its code between two
  suspension points is one step: \<open>RStart\<close> (created, not yet scheduled), \<open>RLoop\<close> (at the loop
  head), \<open>RNode n\<close> (inside \<open>_execute_node\<close> for \<open>n\<close>). \<open>eg_live\<close> is the event loop's set of
  unfinished tasks, numbered; \<open>eg_tasks\<close> is \<open>_execution_tasks\<close>. Published events are appended
  to \<open>eg_events\<close>; an event carries the execution or workflow snapshot that the code serialises.
  The provider call, \<open>str()\<close> and \<open>repr()\<close> are parameters, in \<open>node_env\<close>.
\<close>

subsection \<open>State\<close>

datatype wf_topic =
    WORKFLOW_CREATED | WORKFLOW_UPDATED | WORKFLOW_DELETED | WORKFLOW_STARTED
  | WORKFLOW_NODE_STARTED | WORKFLOW_NODE_COMPLETED | WORKFLOW_NODE_FAILED
  | WORKFLOW_COMPLETED | WORKFLOW_FAILED | WORKFLOW_CANCELLED | WORKFLOW_PAUSED
  | WORKFLOW_RESUMED | WORKFLOW_APPROVAL_REQUESTED | WORKFLOW_APPROVAL_DECIDED
  | WORKFLOW_REPLAYED

datatype wf_payload =
    PL_workflow workflow
  | PL_exec execution "(string \<times> pyval) list"
  | PL_empty

datatype runner_pc = RStart | RLoop | RNode workflow_node

record runner =
  r_exec :: execution
  r_workflow :: workflow
  r_adj :: "(string, string list) dict"
  r_rev :: "(string, string list) dict"
  r_queue :: "string list"
  r_indeg :: "string \<Rightarrow> int"
  r_pc :: runner_pc

record engine =
  eg_workflows :: "(string, workflow) dict"
  eg_versions :: "(string, workflow_version list) dict"
  eg_executions :: "(string, execution) dict"
  eg_running :: "string set"
  eg_tasks :: "(string, nat) dict"
  eg_live :: "(nat, runner) dict"
  eg_next :: nat
  eg_events :: "(wf_topic \<times> string \<times> wf_payload) list"

record agent_ref =
  ag_provider :: string
  ag_model :: string

record node_env =
  ne_agents :: "(string, agent_ref) dict"
  ne_complete :: "string \<Rightarrow> string \<Rightarrow> string \<Rightarrow> string + (pyval \<times> pyval option)"
  ne_str :: "pyval \<Rightarrow> string"
  ne_repr :: "string \<Rightarrow> string"

type_synonym 'a op = "engine \<times> 'a result"

definition engine_init :: engine where
  "engine_init =
     \<lparr>eg_workflows = [], eg_versions = [], eg_executions = [], eg_running = {}, eg_tasks = [],
      eg_live = [], eg_next = 0, eg_events = []\<rparr>"

definition emit_event :: "wf_topic \<Rightarrow> string \<Rightarrow> wf_payload \<Rightarrow> engine \<Rightarrow> engine" where
  "emit_event topic key payload eg = eg\<lparr>eg_events := eg_events eg @ [(topic, key, payload)]\<rparr>"

definition put_exec :: "execution \<Rightarrow> engine \<Rightarrow> engine" where
  "put_exec e eg = eg\<lparr>eg_executions := dict_set (eg_executions eg) (x_id e) e\<rparr>"

subsection \<open>Port data\<close>

record workflow_create_data =
  wc_name :: string
  wc_description :: string
  wc_nodes :: "workflow_node list"
  wc_edges :: "workflow_edge list"
  wc_template_id :: "string option"
  wc_created_by :: string

record workflow_update_data =
  wu_name :: "string option"
  wu_description :: "string option"
  wu_nodes :: "workflow_node list option"
  wu_edges :: "workflow_edge list option"
  wu_updated_by :: string

record workflow_execute_data =
  wxd_inputs :: "(string, pyval) dict"
  wxd_version :: "int option"
  wxd_parent_execution_id :: "string option"
  wxd_replay_from_node :: "string option"

record workflow_replay_data =
  wr_inputs :: "(string, pyval) dict"
  wr_version :: "int option"
  wr_from_node :: "string option"
  wr_parent_execution_id :: "string option"

record workflow_approval_data =
  wa_node_id :: string
  wa_approved :: bool
  wa_decided_by :: string
  wa_reason :: "string option"

record workflow_detail =
  wd_id :: string
  wd_name :: string
  wd_description :: string
  wd_nodes :: "workflow_node list"
  wd_edges :: "workflow_edge list"
  wd_version :: int
  wd_status :: workflow_status
  wd_template_id :: "string option"
  wd_created_at :: pyval
  wd_updated_at :: pyval
  wd_created_by :: string

record workflow_summary =
  wsum_id :: string
  wsum_name :: string
  wsum_version :: int
  wsum_status :: workflow_status
  wsum_updated_at :: pyval

definition workflow_detail_from_workflow :: "workflow \<Rightarrow> workflow_detail" where
  "workflow_detail_from_workflow w =
     \<lparr>wd_id = wf_id w, wd_name = wf_name w, wd_description = wf_description w,
      wd_nodes = wf_nodes w, wd_edges = wf_edges w, wd_version = wf_version w,
      wd_status = wf_status w, wd_template_id = wf_template_id w,
      wd_created_at = PTime (wf_created_at w), wd_updated_at = PTime (wf_updated_at w),
      wd_created_by = wf_created_by w\<rparr>"

definition workflow_detail_from_version :: "workflow_version \<Rightarrow> workflow_detail" where
  "workflow_detail_from_version v =
     workflow_detail_from_workflow
       \<lparr>wf_id = wv_workflow_id v, wf_name = wv_name v, wf_description = wv_description v,
        wf_nodes = wv_nodes v, wf_edges = wv_edges v, wf_version = wv_version v,
        wf_status = WS_DRAFT, wf_template_id = None, wf_created_at = wv_created_at v,
        wf_updated_at = wv_created_at v, wf_created_by = wv_created_by v\<rparr>"

definition workflow_summary_from_workflow :: "workflow \<Rightarrow> workflow_summary" where
  "workflow_summary_from_workflow w =
     \<lparr>wsum_id = wf_id w, wsum_name = wf_name w, wsum_version = wf_version w,
      wsum_status = wf_status w, wsum_updated_at = PTime (wf_updated_at w)\<rparr>"

subsection \<open>CRUD operations\<close>

definition create_workflow ::
  "string \<Rightarrow> datetime \<Rightarrow> datetime \<Rightarrow> workflow_create_data \<Rightarrow> engine \<Rightarrow> engine \<times> workflow_detail" where
  "create_workflow uid t1 t2 data eg =
     (let w = workflow_create uid t1 t2 (wc_name data) (wc_description data) (wc_nodes data)
                (wc_edges data) (wc_template_id data) (wc_created_by data);
          eg = eg\<lparr>eg_workflows := dict_set (eg_workflows eg) (wf_id w) w\<rparr>;
          eg = emit_event WORKFLOW_CREATED (wf_id w) (PL_workflow w) eg
      in (eg, workflow_detail_from_workflow w))"

definition get_workflow :: "string \<Rightarrow> engine \<Rightarrow> workflow_detail option" where
  "get_workflow wid eg = map_option workflow_detail_from_workflow (dict_get (eg_workflows eg) wid)"

definition list_workflows ::
  "workflow_status option \<Rightarrow> int \<Rightarrow> int \<Rightarrow> engine \<Rightarrow> workflow_summary list" where
  "list_workflows status limit offset eg =
     (let ws = dict_values (eg_workflows eg);
          ws = (case status of None \<Rightarrow> ws | Some st \<Rightarrow> filter (\<lambda>w. wf_status w = st) ws);
          ws = sort_key (\<lambda>w. - wf_updated_at w) ws
      in map workflow_summary_from_workflow (py_slice offset (offset + limit) ws))"

definition structure_changed :: "workflow \<Rightarrow> workflow_update_data \<Rightarrow> bool" where
  "structure_changed w data \<longleftrightarrow>
     (case wu_nodes data of None \<Rightarrow> False | Some ns \<Rightarrow> map wn_id ns \<noteq> map wn_id (wf_nodes w)) \<or>
     (case wu_edges data of None \<Rightarrow> False | Some es \<Rightarrow> map we_id es \<noteq> map we_id (wf_edges w))"

definition update_workflow ::
  "datetime \<Rightarrow> string \<Rightarrow> workflow_update_data \<Rightarrow> engine \<Rightarrow> workflow_detail op" where
  "update_workflow now wid data eg =
     (case dict_get (eg_workflows eg) wid of
        None \<Rightarrow> (eg, Inl (ValueError (''Workflow '' @ wid @ '' not found'')))
      | Some w \<Rightarrow>
          (let w' = (if structure_changed w data
                     then new_version w now (wu_name data) (wu_description data) (wu_nodes data)
                            (wu_edges data) (wu_updated_by data)
                     else w\<lparr>wf_name := or_else (wu_name data) (wf_name w),
                            wf_description := or_else (wu_description data) (wf_description w),
                            wf_updated_at := now\<rparr>);
               eg = eg\<lparr>eg_workflows := dict_set (eg_workflows eg) wid w'\<rparr>;
               eg = emit_event WORKFLOW_UPDATED wid (PL_workflow w') eg
           in (eg, Inr (workflow_detail_from_workflow w'))))"

definition delete_workflow :: "string \<Rightarrow> engine \<Rightarrow> bool op" where
  "delete_workflow wid eg =
     (if dict_get (eg_workflows eg) wid = None then (eg, Inr False)
      else if list_ex (\<lambda>e. x_workflow_id e = wid \<and> x_status e = RUNNING)
                      (dict_values (eg_executions eg))
      then (eg, Inl (ValueError (''Cannot delete workflow '' @ wid @ '': has running executions'')))
      else
        (let eg = eg\<lparr>eg_workflows := dict_del (eg_workflows eg) wid,
                     eg_versions := dict_del (eg_versions eg) wid\<rparr>;
             eg = emit_event WORKFLOW_DELETED wid PL_empty eg
         in (eg, Inr True)))"

definition get_workflow_versions :: "string \<Rightarrow> engine \<Rightarrow> workflow_version list" where
  "get_workflow_versions wid eg = dict_get_or (eg_versions eg) wid []"

definition get_workflow_version :: "string \<Rightarrow> int \<Rightarrow> engine \<Rightarrow> workflow_detail option" where
  "get_workflow_version wid ver eg =
     (let historical = map_option workflow_detail_from_version
                         (find (\<lambda>v. wv_version v = ver) (dict_get_or (eg_versions eg) wid []))
      in case dict_get (eg_workflows eg) wid of
           None \<Rightarrow> historical
         | Some w \<Rightarrow> if wf_version w = ver then Some (workflow_detail_from_workflow w) else historical)"

subsection \<open>Execution operations\<close>

definition new_runner :: "execution \<Rightarrow> workflow \<Rightarrow> runner" where
  "new_runner e w =
     \<lparr>r_exec = e, r_workflow = w, r_adj = [], r_rev = [], r_queue = [], r_indeg = (\<lambda>_. 0), r_pc = RStart\<rparr>"

text \<open>\<open>asyncio.create_task\<close> followed by the two registrations the callers make.\<close>

definition create_task :: "execution \<Rightarrow> workflow \<Rightarrow> engine \<Rightarrow> engine" where
  "create_task e w eg =
     eg\<lparr>eg_live := dict_set (eg_live eg) (eg_next eg) (new_runner e w),
        eg_tasks := dict_set (eg_tasks eg) (x_id e) (eg_next eg),
        eg_next := eg_next eg + 1,
        eg_running := eg_running eg \<union> {x_id e}\<rparr>"

definition execute_workflow ::
  "string \<Rightarrow> datetime \<Rightarrow> string \<Rightarrow> workflow_execute_data \<Rightarrow> engine \<Rightarrow> execution op" where
  "execute_workflow uid now wid data eg =
     (case dict_get (eg_workflows eg) wid of
        None \<Rightarrow> (eg, Inl (ValueError (''Workflow '' @ wid @ '' not found'')))
      | Some w \<Rightarrow>
          if wf_status w \<noteq> WS_ACTIVE
          then (eg, Inl (ValueError (''Workflow '' @ wid @ '' is not active (status: '' @
                                     workflow_status_value (wf_status w) @ '')'')))
          else
            (let e = execution_create uid now wid (wf_version w) (wxd_inputs data)
                       (wxd_parent_execution_id data) (wxd_replay_from_node data);
                 eg = put_exec e eg;
                 eg = create_task e w eg;
                 eg = emit_event WORKFLOW_STARTED (x_id e) (PL_exec e []) eg
             in (eg, Inr e)))"

text \<open>\<open>data.version or workflow.version\<close>: a missing or zero version falls back.\<close>

definition replay_workflow ::
  "string \<Rightarrow> datetime \<Rightarrow> string \<Rightarrow> workflow_replay_data \<Rightarrow> engine \<Rightarrow> execution op" where
  "replay_workflow uid now wid data eg =
     (case dict_get (eg_workflows eg) wid of
        None \<Rightarrow> (eg, Inl (ValueError (''Workflow '' @ wid @ '' not found'')))
      | Some w \<Rightarrow>
          (let ver = (case wr_version data of None \<Rightarrow> wf_version w
                      | Some v \<Rightarrow> if v = 0 then wf_version w else v);
               e = execution_create uid now wid ver (wr_inputs data) None (wr_from_node data);
               eg = put_exec e eg;
               eg = create_task e w eg;
               eg = emit_event WORKFLOW_REPLAYED (x_id e) (PL_exec e []) eg
           in (eg, Inr e)))"

definition find_awaiting :: "string \<Rightarrow> string \<Rightarrow> engine \<Rightarrow> execution option" where
  "find_awaiting wid node_id eg =
     find (\<lambda>e. x_workflow_id e = wid \<and> x_status e = AWAITING_APPROVAL \<and>
               x_pending_approval e = Some node_id)
          (dict_values (eg_executions eg))"

definition approve_workflow ::
  "datetime \<Rightarrow> datetime \<Rightarrow> string \<Rightarrow> workflow_approval_data \<Rightarrow> engine \<Rightarrow> execution op" where
  "approve_workflow t1 t2 wid data eg =
     (case find_awaiting wid (wa_node_id data) eg of
        None \<Rightarrow> (eg, Inl (ValueError (''No execution awaiting approval for node '' @ wa_node_id data)))
      | Some e \<Rightarrow>
          (let e' = x_decide_approval e t1 t2 (wa_node_id data) (wa_approved data)
                      (wa_decided_by data) (wa_reason data);
               eg = eg\<lparr>eg_executions := dict_set (eg_executions eg) (x_id e) e'\<rparr>;
               eg = emit_event WORKFLOW_APPROVAL_DECIDED (x_id e)
                      (PL_exec e' [(''approved'', PBool (wa_approved data)),
                                   (''node_id'', PStr (wa_node_id data))]) eg
           in (eg, Inr e')))"

subsection \<open>Queries\<close>

definition get_execution :: "string \<Rightarrow> engine \<Rightarrow> execution option" where
  "get_execution eid eg = dict_get (eg_executions eg) eid"

definition get_workflow_executions ::
  "string \<Rightarrow> exec_status option \<Rightarrow> int \<Rightarrow> int \<Rightarrow> engine \<Rightarrow> execution list" where
  "get_workflow_executions wid status limit offset eg =
     (let es = filter (\<lambda>e. x_workflow_id e = wid) (dict_values (eg_executions eg));
          es = (case status of None \<Rightarrow> es | Some st \<Rightarrow> filter (\<lambda>e. x_status e = st) es);
          es = sort_key (\<lambda>e. - x_started_at e) es
      in py_slice offset (offset + limit) es)"

definition get_running_executions :: "engine \<Rightarrow> execution list" where
  "get_running_executions eg =
     filter (\<lambda>e. x_status e = RUNNING) (dict_values (eg_executions eg))"

subsection \<open>The node executor\<close>

datatype node_outcome = Output pyval | Needs_Approval pyval | Raised string

fun py_true :: "pyval \<Rightarrow> bool" where
  "py_true PNone = False"
| "py_true (PBool b) = b"
| "py_true (PInt i) = (i \<noteq> 0)"
| "py_true (PStr s) = (s \<noteq> [])"
| "py_true (PTime _) = True"
| "py_true (PList xs) = (xs \<noteq> [])"
| "py_true (PDict d) = (d \<noteq> [])"

fun py_type_name :: "pyval \<Rightarrow> string" where
  "py_type_name PNone = ''NoneType''"
| "py_type_name (PBool _) = ''bool''"
| "py_type_name (PInt _) = ''int''"
| "py_type_name (PStr _) = ''str''"
| "py_type_name (PTime _) = ''str''"
| "py_type_name (PList _) = ''list''"
| "py_type_name (PDict _) = ''dict''"

definition quoted :: "string \<Rightarrow> string" where
  "quoted s = CHR 0x27 # s @ [CHR 0x27]"

definition agent_inputs :: "(string, pyval) dict \<Rightarrow> execution \<Rightarrow> (string, pyval) dict" where
  "agent_inputs base e =
     (let ins = fold (\<lambda>(k, v) d. dict_set d k v) (x_inputs e) base
      in fold (\<lambda>(k, v) d. dict_set d (''dep_'' @ k) v) (x_node_outputs e) ins)"

text \<open>
  The agent branch: a falsy \<open>agent_id\<close> and an unknown agent raise \<open>ValueError\<close>; an unhashable
  identifier and a non-mapping \<open>inputs\<close> entry raise \<open>TypeError\<close>; the provider may raise.
\<close>

definition execute_agent :: "node_env \<Rightarrow> workflow_node \<Rightarrow> execution \<Rightarrow> node_outcome" where
  "execute_agent env n e =
     (let cfg = wn_config n; agent_id = dict_get_or cfg ''agent_id'' PNone in
      if \<not> py_true agent_id then Raised ''Agent node requires agent_id in config''
      else case agent_id of
        PList _ \<Rightarrow> Raised (''unhashable type: '' @ quoted ''list'')
      | PDict _ \<Rightarrow> Raised (''unhashable type: '' @ quoted ''dict'')
      | _ \<Rightarrow>
        (case (case agent_id of PStr s \<Rightarrow> dict_get (ne_agents env) s | _ \<Rightarrow> None) of
           None \<Rightarrow> Raised (''Agent '' @ ne_str env agent_id @ '' not found'')
         | Some ag \<Rightarrow>
             (case dict_get_or cfg ''inputs'' (PDict []) of
                PDict base \<Rightarrow>
                  (case ne_complete env (ag_provider ag) (ag_model ag)
                          (ne_str env (PDict (agent_inputs base e))) of
                     Inl err \<Rightarrow> Raised err
                   | Inr (content, usage) \<Rightarrow>
                       Output (PDict [(''output'', content),
                                      (''usage'', case usage of None \<Rightarrow> PNone | Some u \<Rightarrow> u)]))
              | other \<Rightarrow> Raised (quoted (py_type_name other) @ '' object is not a mapping''))))"

definition execute_node :: "node_env \<Rightarrow> workflow_node \<Rightarrow> execution \<Rightarrow> node_outcome" where
  "execute_node env n e =
     (let cfg = wn_config n in
      case wn_type n of
        N_START \<Rightarrow> Output (PDict [(''status'', PStr ''started''), (''inputs'', PDict (x_inputs e))])
      | N_END \<Rightarrow> Output (PDict [(''status'', PStr ''completed''), (''result'', PDict (x_node_outputs e))])
      | N_AGENT \<Rightarrow> execute_agent env n e
      | N_TOOL \<Rightarrow>
          (let tool = dict_get_or cfg ''tool'' PNone
           in if \<not> py_true tool then Raised ''Tool node requires tool name in config''
              else Output (PDict [(''tool'', tool), (''result'', PStr ''executed'')]))
      | N_APPROVAL \<Rightarrow>
          Needs_Approval (dict_get_or cfg ''context'' (PDict [(''message'', PStr ''Approval required'')]))
      | N_CONDITION \<Rightarrow> Output (PDict [(''condition_result'', PBool True)])
      | N_PARALLEL \<Rightarrow>
          Output (PDict [(''parallel'', PBool True), (''children'', dict_get_or cfg ''children'' (PList []))])
      | N_SUBWORKFLOW \<Rightarrow>
          (if \<not> truthy (wn_subworkflow_id n) then Raised ''Subworkflow node requires subworkflow_id''
           else Output (PDict [(''subworkflow'', PStr (the (wn_subworkflow_id n))),
                               (''status'', PStr ''completed'')]))
      | N_LLM \<Rightarrow>
          Output (PDict [(''prompt'', dict_get_or cfg ''prompt'' (PStr [])),
                         (''response'', PStr ''llm_response'')]))"

subsection \<open>The background runner\<close>

text \<open>The execution plan: adjacency, reversed adjacency and in-degrees, in one pass.\<close>

fun build_plan ::
  "workflow_edge list \<Rightarrow> (string, string list) dict \<Rightarrow> (string, string list) dict \<Rightarrow> (string \<Rightarrow> int) \<Rightarrow>
   (string, string list) dict \<times> (string, string list) dict \<times> (string \<Rightarrow> int)" where
  "build_plan [] adj radj d = (adj, radj, d)"
| "build_plan (e # es) adj radj d =
     build_plan es (adj_append adj (we_source e) (we_target e))
       (adj_append radj (we_target e) (we_source e)) (d(we_target e := d (we_target e) + 1))"

text \<open>\<open>{n.id: n for n in workflow.nodes}\<close>: the last node with an identifier wins.\<close>

definition node_map :: "workflow_node list \<Rightarrow> string \<Rightarrow> workflow_node option" where
  "node_map nodes nid = find (\<lambda>n. wn_id n = nid) (rev nodes)"

fun add_downstream ::
  "string set \<Rightarrow> (string \<Rightarrow> int) \<Rightarrow> string list \<Rightarrow> string list \<Rightarrow> (string \<Rightarrow> int) \<times> string list" where
  "add_downstream C d q [] = (d, q)"
| "add_downstream C d q (v # vs) =
     (let d' = d(v := d v - 1)
      in add_downstream C d' (if d' v \<le> 0 \<and> v \<notin> C \<and> v \<notin> set q then q @ [v] else q) vs)"

text \<open>The \<open>finally\<close> clause; the task is over.\<close>

definition finish_task :: "nat \<Rightarrow> string \<Rightarrow> engine \<Rightarrow> engine" where
  "finish_task tid eid eg =
     eg\<lparr>eg_running := eg_running eg - {eid}, eg_tasks := dict_del (eg_tasks eg) eid,
        eg_live := dict_del (eg_live eg) tid\<rparr>"

definition set_runner :: "nat \<Rightarrow> runner \<Rightarrow> engine \<Rightarrow> engine" where
  "set_runner tid r eg = eg\<lparr>eg_live := dict_set (eg_live eg) tid r\<rparr>"

definition runner_begin :: "nat \<Rightarrow> runner \<Rightarrow> engine \<Rightarrow> engine" where
  "runner_begin tid r eg =
     (let e = x_start (r_exec r);
          eg = put_exec e eg;
          eg = emit_event WORKFLOW_STARTED (x_id e) (PL_exec e []) eg;
          w = r_workflow r;
          (adj, radj, d) = build_plan (wf_edges w) [] [] (\<lambda>_. 0);
          queue = map wn_id (filter (\<lambda>n. d (wn_id n) = 0) (wf_nodes w));
          queue = (if truthy (x_replay_from_node e) then [the (x_replay_from_node e)] else queue)
      in set_runner tid \<lparr>r_exec = e, r_workflow = w, r_adj = adj, r_rev = radj, r_queue = queue,
                         r_indeg = d, r_pc = RLoop\<rparr> eg)"

definition runner_finalize :: "datetime \<Rightarrow> nat \<Rightarrow> runner \<Rightarrow> engine \<Rightarrow> engine" where
  "runner_finalize now tid r eg =
     (let e = r_exec r in
      if x_status e = RUNNING then
        (let e' = (if x_failed_nodes e \<noteq> {}
                   then x_fail e now ''Workflow failed due to node failures'' None
                   else x_complete e now);
             eg = put_exec e' eg;
             eg = emit_event (if x_status e' = COMPLETED then WORKFLOW_COMPLETED else WORKFLOW_FAILED)
                    (x_id e') (PL_exec e' []) eg
         in finish_task tid (x_id e') eg)
      else finish_task tid (x_id e) eg)"

text \<open>The outer \<open>except Exception\<close> handler.\<close>

definition runner_crash :: "datetime \<Rightarrow> nat \<Rightarrow> string \<Rightarrow> runner \<Rightarrow> engine \<Rightarrow> engine" where
  "runner_crash now tid err r eg =
     (let e = x_fail (r_exec r) now (''Execution crashed: '' @ err) None;
          eg = put_exec e eg;
          eg = emit_event WORKFLOW_FAILED (x_id e) (PL_exec e []) eg
      in finish_task tid (x_id e) eg)"

definition runner_loop :: "node_env \<Rightarrow> datetime \<Rightarrow> nat \<Rightarrow> runner \<Rightarrow> engine \<Rightarrow> engine" where
  "runner_loop env now tid r eg =
     (let e = r_exec r in
      if x_status e \<noteq> RUNNING then runner_finalize now tid r eg
      else case r_queue r of
        [] \<Rightarrow> runner_finalize now tid r eg
      | nid # q \<Rightarrow>
          (case node_map (wf_nodes (r_workflow r)) nid of
             None \<Rightarrow> runner_crash now tid (ne_repr env nid) r eg
           | Some n \<Rightarrow>
               if nid \<in> x_completed_nodes e then set_runner tid (r\<lparr>r_queue := q\<rparr>) eg
               else
                 (let deps = dict_get_or (r_rev r) nid [] in
                  if deps \<noteq> [] \<and> \<not> (\<forall>d \<in> set deps. d \<in> x_completed_nodes e)
                  then set_runner tid (r\<lparr>r_queue := q @ [nid]\<rparr>) eg
                  else
                    (let e = x_set_current_node e nid;
                         eg = put_exec e eg;
                         eg = emit_event WORKFLOW_NODE_STARTED (x_id e)
                                (PL_exec e [(''node_id'', PStr nid),
                                            (''node_type'', PStr (node_type_value (wn_type n)))]) eg
                     in set_runner tid (r\<lparr>r_exec := e, r_queue := q, r_pc := RNode n\<rparr>) eg))))"

text \<open>
  The node runs and its outcome is handled. After a failure the loop is left by \<open>break\<close> and
  the final check does nothing, since the status is \<open>FAILED\<close>; an approval request returns.
\<close>

definition runner_node ::
  "node_env \<Rightarrow> datetime \<Rightarrow> nat \<Rightarrow> workflow_node \<Rightarrow> runner \<Rightarrow> engine \<Rightarrow> engine" where
  "runner_node env now tid n r eg =
     (let nid = wn_id n in
      case execute_node env n (r_exec r) of
        Output out \<Rightarrow>
          (let e = x_complete_node (r_exec r) nid out;
               eg = put_exec e eg;
               eg = emit_event WORKFLOW_NODE_COMPLETED (x_id e)
                      (PL_exec e [(''node_id'', PStr nid), (''output'', out)]) eg;
               (d, q) = add_downstream (x_completed_nodes e) (r_indeg r) (r_queue r)
                          (dict_get_or (r_adj r) nid [])
           in set_runner tid (r\<lparr>r_exec := e, r_indeg := d, r_queue := q, r_pc := RLoop\<rparr>) eg)
      | Needs_Approval ctxt \<Rightarrow>
          (let e = x_request_approval (r_exec r) now nid ctxt;
               eg = put_exec e eg;
               eg = emit_event WORKFLOW_APPROVAL_REQUESTED (x_id e)
                      (PL_exec e [(''node_id'', PStr nid), (''context'', ctxt)]) eg
           in finish_task tid (x_id e) eg)
      | Raised err \<Rightarrow>
          (let e = x_fail (r_exec r) now err (Some nid);
               eg = put_exec e eg;
               eg = emit_event WORKFLOW_NODE_FAILED (x_id e)
                      (PL_exec e [(''node_id'', PStr nid), (''error'', PStr err)]) eg
           in finish_task tid (x_id e) eg))"

text \<open>One scheduling of task \<open>tid\<close>: the code up to its next suspension point.\<close>

definition task_step :: "node_env \<Rightarrow> datetime \<Rightarrow> nat \<Rightarrow> engine \<Rightarrow> engine" where
  "task_step env now tid eg =
     (case dict_get (eg_live eg) tid of
        None \<Rightarrow> eg
      | Some r \<Rightarrow>
          (case r_pc r of
             RStart \<Rightarrow> runner_begin tid r eg
           | RLoop \<Rightarrow> runner_loop env now tid r eg
           | RNode n \<Rightarrow> runner_node env now tid n r eg))"

text \<open>
  \<open>task.cancel()\<close> and awaiting the task: a task that has not started yet is dropped without
  running any of its code, a started one runs its \<open>except CancelledError\<close> handler and its
  \<open>finally\<close> clause.
\<close>

definition cancel_task :: "datetime \<Rightarrow> nat \<Rightarrow> engine \<Rightarrow> engine" where
  "cancel_task now tid eg =
     (case dict_get (eg_live eg) tid of
        None \<Rightarrow> eg
      | Some r \<Rightarrow>
          if r_pc r = RStart then eg\<lparr>eg_live := dict_del (eg_live eg) tid\<rparr>
          else
            (let e = x_cancel (r_exec r) now;
                 eg = put_exec e eg;
                 eg = emit_event WORKFLOW_CANCELLED (x_id e) (PL_exec e []) eg
             in finish_task tid (x_id e) eg))"

subsection \<open>Control operations\<close>

definition cancel_finish :: "datetime \<Rightarrow> string \<Rightarrow> execution \<Rightarrow> engine \<Rightarrow> execution op" where
  "cancel_finish now eid e eg =
     (let eg = eg\<lparr>eg_running := eg_running eg - {eid}\<rparr>;
          e' = x_cancel e now;
          eg = eg\<lparr>eg_executions := dict_set (eg_executions eg) eid e'\<rparr>;
          eg = emit_event WORKFLOW_CANCELLED eid (PL_exec e' []) eg
      in (eg, Inr e'))"

definition cancel_execution :: "datetime \<Rightarrow> datetime \<Rightarrow> string \<Rightarrow> engine \<Rightarrow> execution op" where
  "cancel_execution t1 t2 eid eg =
     (case dict_get (eg_executions eg) eid of
        None \<Rightarrow> (eg, Inl (ValueError (''Execution '' @ eid @ '' not found'')))
      | Some e \<Rightarrow>
          if x_status e \<notin> {RUNNING, PAUSED, AWAITING_APPROVAL}
          then (eg, Inl (ValueError (''Cannot cancel execution in status '' @ exec_status_value (x_status e))))
          else
            (case dict_get (eg_tasks eg) eid of
               None \<Rightarrow> cancel_finish t2 eid e eg
             | Some tid \<Rightarrow>
                 (let eg = cancel_task t1 tid eg in
                  if dict_get (eg_tasks eg) eid = None then (eg, Inl (KeyError eid))
                  else cancel_finish t2 eid e (eg\<lparr>eg_tasks := dict_del (eg_tasks eg) eid\<rparr>))))"

definition pause_execution :: "string \<Rightarrow> engine \<Rightarrow> execution op" where
  "pause_execution eid eg =
     (case dict_get (eg_executions eg) eid of
        None \<Rightarrow> (eg, Inl (ValueError (''Execution '' @ eid @ '' not found'')))
      | Some e \<Rightarrow>
          if x_status e \<noteq> RUNNING
          then (eg, Inl (ValueError (''Cannot pause execution in status '' @ exec_status_value (x_status e))))
          else
            (let e' = x_pause e;
                 eg = eg\<lparr>eg_executions := dict_set (eg_executions eg) eid e'\<rparr>;
                 eg = emit_event WORKFLOW_PAUSED eid (PL_exec e' []) eg
             in (eg, Inr e')))"

definition resume_execution :: "string \<Rightarrow> engine \<Rightarrow> execution op" where
  "resume_execution eid eg =
     (case dict_get (eg_executions eg) eid of
        None \<Rightarrow> (eg, Inl (ValueError (''Execution '' @ eid @ '' not found'')))
      | Some e \<Rightarrow>
          if x_status e \<noteq> PAUSED
          then (eg, Inl (ValueError (''Cannot resume execution in status '' @ exec_status_value (x_status e))))
          else
            (let e' = x_start e;
                 eg = eg\<lparr>eg_executions := dict_set (eg_executions eg) eid e'\<rparr>
             in case dict_get (eg_workflows eg) (x_workflow_id e) of
                  None \<Rightarrow> (eg, Inl (KeyError (x_workflow_id e)))
                | Some w \<Rightarrow>
                    (let eg = create_task e' w eg;
                         eg = emit_event WORKFLOW_RESUMED eid (PL_exec e' []) eg
                     in (eg, Inr e'))))"

end
