(* ===== verification/Workflow_Run.thy ===== *)
theory Workflow_Run
  imports Workflow_Engine
begin

text \<open>
  What the background runner does with a workflow definition that passed validation: it
  terminates after two steps per node, the nodes complete in a topological order, and the
  final status tells why it stopped. The loop invariant is the invariant of Kahn's algorithm
  on the set of completed nodes. The second part is about runs that do not start from
  scratch: replays, resumed executions, cancellation, pausing and approval.
\<close>

text \<open>A task scheduled once per clock reading of a list.\<close>

definition run_task :: "node_env \<Rightarrow> nat \<Rightarrow> datetime list \<Rightarrow> engine \<Rightarrow> engine" where
  "run_task env tid ts eg = fold (\<lambda>now. task_step env now tid) ts eg"

lemma run_task_simps [simp]:
  "run_task env tid [] eg = eg"
  "run_task env tid (t # ts) eg = run_task env tid ts (task_step env t tid eg)"
  by (simp_all add: run_task_def)

lemma run_task_finished: "dict_get (eg_live eg) tid = None \<Longrightarrow> run_task env tid ts eg = eg"
  by (induction ts) (simp_all add: task_step_def)

subsection \<open>Helper facts on the engine's primitives\<close>

lemma emit_sel [simp]:
  "eg_executions (emit_event t k p eg) = eg_executions eg"
  "eg_live (emit_event t k p eg) = eg_live eg"
  "eg_tasks (emit_event t k p eg) = eg_tasks eg"
  "eg_running (emit_event t k p eg) = eg_running eg"
  "eg_workflows (emit_event t k p eg) = eg_workflows eg"
  "eg_versions (emit_event t k p eg) = eg_versions eg"
  "eg_next (emit_event t k p eg) = eg_next eg"
  by (simp_all add: emit_event_def)

lemma put_exec_sel [simp]:
  "eg_executions (put_exec e eg) = dict_set (eg_executions eg) (x_id e) e"
  "eg_live (put_exec e eg) = eg_live eg"
  "eg_tasks (put_exec e eg) = eg_tasks eg"
  "eg_running (put_exec e eg) = eg_running eg"
  "eg_workflows (put_exec e eg) = eg_workflows eg"
  "eg_versions (put_exec e eg) = eg_versions eg"
  "eg_next (put_exec e eg) = eg_next eg"
  by (simp_all add: put_exec_def)

lemma finish_task_sel [simp]:
  "eg_executions (finish_task tid eid eg) = eg_executions eg"
  "eg_live (finish_task tid eid eg) = dict_del (eg_live eg) tid"
  "eg_tasks (finish_task tid eid eg) = dict_del (eg_tasks eg) eid"
  "eg_running (finish_task tid eid eg) = eg_running eg - {eid}"
  "eg_workflows (finish_task tid eid eg) = eg_workflows eg"
  "eg_versions (finish_task tid eid eg) = eg_versions eg"
  "eg_next (finish_task tid eid eg) = eg_next eg"
  by (simp_all add: finish_task_def)

lemma set_runner_sel [simp]:
  "eg_executions (set_runner tid r eg) = eg_executions eg"
  "eg_live (set_runner tid r eg) = dict_set (eg_live eg) tid r"
  "eg_tasks (set_runner tid r eg) = eg_tasks eg"
  "eg_running (set_runner tid r eg) = eg_running eg"
  "eg_workflows (set_runner tid r eg) = eg_workflows eg"
  "eg_versions (set_runner tid r eg) = eg_versions eg"
  "eg_next (set_runner tid r eg) = eg_next eg"
  by (simp_all add: set_runner_def)

lemmas x_simple_defs =
  x_start_def x_pause_def x_complete_def x_fail_def x_cancel_def
  x_set_current_node_def x_complete_node_def x_request_approval_def

subsection \<open>The execution plan\<close>

lemma build_plan_correct:
  assumes "build_plan es adj radj d = (adj', radj', d')"
  shows "dict_get_or adj' u [] = dict_get_or adj u [] @ succs (wf_pairs es) u"
    and "dict_get_or radj' v [] = dict_get_or radj v [] @ preds (wf_pairs es) v"
    and "d' v = d v + int (length (preds (wf_pairs es) v))"
  using assms
  by (induction es adj radj d rule: build_plan.induct) (auto simp: wf_pairs_def adj_append_def)

lemma node_map_Some: "node_map nodes nid = Some n \<Longrightarrow> n \<in> set nodes \<and> wn_id n = nid"
  by (auto simp: node_map_def find_Some_iff) (metis nth_mem set_rev length_rev)

lemma node_map_ex: "nid \<in> wn_id ` set nodes \<Longrightarrow> \<exists>n. node_map nodes nid = Some n"
  by (metis (mono_tags, lifting) find_None_iff imageE node_map_def not_None_eq set_rev)

text \<open>On states of a regular run, the runner's loop body does what the validator's does.\<close>

lemma add_downstream_relax:
  assumes "\<And>v. int (count_list vs v) \<le> d v" and "set vs \<inter> (C \<union> set q) = {}"
  shows "add_downstream C d q vs = relax d q vs"
  using assms
proof (induction vs arbitrary: d q)
  case (Cons v vs)
  let ?d = "d(v := d v - 1)"
  have le: "int (count_list vs w) \<le> ?d w" for w using Cons.prems(1) [of w] by auto
  have pos: "1 \<le> d v" using Cons.prems(1) [of v] by simp
  have zero: "d v = 1 \<Longrightarrow> v \<notin> set vs" using le [of v] by (simp add: count_list_0_iff)
  let ?q = "if ?d v = 0 then q @ [v] else q"
  have "set vs \<inter> (C \<union> set ?q) = {}" using Cons.prems(2) zero by auto
  with le have "add_downstream C ?d ?q vs = relax ?d ?q vs" by (rule Cons.IH)
  moreover have "(?d v \<le> 0 \<and> v \<notin> C \<and> v \<notin> set q) \<longleftrightarrow> ?d v = 0"
    using Cons.prems(2) pos by auto
  ultimately show ?case by (simp only: add_downstream.simps relax.simps Let_def)
qed simp

subsection \<open>The loop invariant of a regular run\<close>

definition run_outcome :: "node_env \<Rightarrow> workflow \<Rightarrow> execution \<Rightarrow> bool" where
  "run_outcome env w e \<longleftrightarrow>
     (let p = dict_keys (x_node_outputs e); V = map wn_id (wf_nodes w) in
      distinct p \<and> topo_ok (wf_pairs (wf_edges w)) p \<and> set p \<subseteq> set V \<and>
      x_completed_nodes e = set p \<and>
      (x_status e = COMPLETED \<and> set p = set V \<and> x_failed_nodes e = {} \<or>
       x_status e = FAILED \<and>
         (\<exists>n \<in> set (wf_nodes w). \<exists>x err. wn_id n \<notin> set p \<and> execute_node env n x = Raised err \<and>
            x_error e = Some err \<and> x_failed_nodes e = (if wn_id n = [] then {} else {wn_id n})) \<or>
       x_status e = AWAITING_APPROVAL \<and>
         (\<exists>n \<in> set (wf_nodes w). \<exists>x ctxt. wn_id n \<notin> set p \<and>
            execute_node env n x = Needs_Approval ctxt \<and> x_pending_approval e = Some (wn_id n))))"

definition runner_inv :: "workflow \<Rightarrow> string \<Rightarrow> runner \<Rightarrow> bool" where
  "runner_inv w eid r \<longleftrightarrow>
     (let e = r_exec r; p = dict_keys (x_node_outputs e); E = wf_pairs (wf_edges w) in
      r_workflow r = w \<and> r_pc r = RLoop \<and> x_id e = eid \<and> x_status e = RUNNING \<and>
      x_failed_nodes e = {} \<and> x_completed_nodes e = set p \<and>
      kahn_inv (map wn_id (wf_nodes w)) E p (r_queue r) \<and>
      r_indeg r = (\<lambda>v. int (indeg_of E (set p) v)) \<and>
      (\<forall>u. dict_get_or (r_adj r) u [] = succs E u) \<and>
      (\<forall>v. dict_get_or (r_rev r) v [] = preds E v))"

definition task_done :: "node_env \<Rightarrow> workflow \<Rightarrow> nat \<Rightarrow> string \<Rightarrow> engine \<Rightarrow> bool" where
  "task_done env w tid eid eg \<longleftrightarrow>
     dict_get (eg_live eg) tid = None \<and>
     (\<exists>e. dict_get (eg_executions eg) eid = Some e \<and> run_outcome env w e)"

lemma runner_inv_begin:
  assumes g: "wf_graph (wf_nodes w) (wf_edges w)"
    and e: "x_completed_nodes e = {}" "x_failed_nodes e = {}" "x_node_outputs e = []"
    and rp: "\<not> truthy (x_replay_from_node e)"
  shows "\<exists>r. dict_get (eg_live (runner_begin tid (new_runner e w) eg)) tid = Some r \<and>
             runner_inv w (x_id e) r"
proof -
  let ?E = "wf_pairs (wf_edges w)" and ?V = "map wn_id (wf_nodes w)"
  obtain adj radj d where bp: "build_plan (wf_edges w) [] [] (\<lambda>_. 0) = (adj, radj, d)"
    using prod_cases3 by blast
  note bpc = build_plan_correct [OF bp]
  have d: "d = (\<lambda>v. int (indeg_of ?E {} v))" using bpc(3) by (auto simp: indeg_of_empty)
  have "kahn_inv ?V ?E [] (filter (\<lambda>v. preds ?E v = []) ?V)"
    using g by (intro kahn_inv_init) (simp add: wf_graph_def)
  then have "kahn_inv ?V ?E [] (map wn_id (filter (\<lambda>n. indeg_of ?E {} (wn_id n) = 0) (wf_nodes w)))"
    by (simp add: filter_map comp_def indeg_of_empty)
  with bpc(1,2) e rp show ?thesis
    by (simp add: runner_begin_def new_runner_def bp Let_def runner_inv_def x_start_def d
        dict_get_or_def)
qed

text \<open>An empty queue ends the run; on an acyclic graph every node has completed by then.\<close>

lemma runner_loop_empty:
  assumes g: "wf_graph (wf_nodes w) (wf_edges w)" "acyclic (set (wf_pairs (wf_edges w)))"
    and inv: "runner_inv w eid r" and q: "r_queue r = []"
  shows "task_done env w tid eid (runner_loop env now tid r eg)"
proof -
  let ?p = "dict_keys (x_node_outputs (r_exec r))" and ?V = "map wn_id (wf_nodes w)"
  have k: "kahn_inv ?V (wf_pairs (wf_edges w)) ?p []"
    using inv q by (simp add: runner_inv_def Let_def)
  have "set ?p = set ?V"
    using kahn_inv_done [OF k] g by (simp add: wf_graph_def)
  with k inv q show ?thesis
    by (auto simp: task_done_def run_outcome_def runner_loop_def runner_finalize_def runner_inv_def
        x_complete_def Let_def kahn_inv_def)
qed

text \<open>The next node in the queue is always ready: it starts at once.\<close>

lemma runner_loop_starts:
  assumes inv: "runner_inv w eid r" and q: "r_queue r = nid # q"
  shows "\<exists>n. n \<in> set (wf_nodes w) \<and> wn_id n = nid \<and>
             runner_loop env now tid r eg =
               set_runner tid (r\<lparr>r_exec := x_set_current_node (r_exec r) nid, r_queue := q, r_pc := RNode n\<rparr>)
                 (emit_event WORKFLOW_NODE_STARTED eid
                    (PL_exec (x_set_current_node (r_exec r) nid)
                       [(''node_id'', PStr nid), (''node_type'', PStr (node_type_value (wn_type n)))])
                    (put_exec (x_set_current_node (r_exec r) nid) eg))"
proof -
  let ?p = "dict_keys (x_node_outputs (r_exec r))"
  have k: "kahn_inv (map wn_id (wf_nodes w)) (wf_pairs (wf_edges w)) ?p (nid # q)"
    using inv q by (simp add: runner_inv_def Let_def)
  note hd = kahn_inv_head [OF k]
  from hd(1) obtain n where n: "node_map (wf_nodes w) nid = Some n"
    using node_map_ex [of nid "wf_nodes w"] by auto
  have "\<not> (dict_get_or (r_rev r) nid [] \<noteq> [] \<and>
           \<not> (\<forall>d \<in> set (dict_get_or (r_rev r) nid []). d \<in> x_completed_nodes (r_exec r)))"
    using inv hd(3) by (auto simp: runner_inv_def Let_def)
  with inv q n hd(2) node_map_Some [OF n] show ?thesis
    by (intro exI [of _ n]) (auto simp: runner_loop_def runner_inv_def Let_def x_set_current_node_def)
qed

lemma runner_node_output:
  assumes g: "wf_graph (wf_nodes w) (wf_edges w)"
    and inv: "runner_inv w eid r" and q: "r_queue r = wn_id n # q"
    and r': "r' = r\<lparr>r_exec := x_set_current_node (r_exec r) (wn_id n), r_queue := q, r_pc := RNode n\<rparr>"
    and out: "execute_node env n (r_exec r') = Output out"
  shows "\<exists>r''. dict_get (eg_live (runner_node env now tid n r' eg)) tid = Some r'' \<and>
               runner_inv w eid r'' \<and>
               dict_keys (x_node_outputs (r_exec r'')) = dict_keys (x_node_outputs (r_exec r)) @ [wn_id n]"
proof -
  let ?E = "wf_pairs (wf_edges w)" and ?V = "map wn_id (wf_nodes w)" and ?u = "wn_id n"
  let ?p = "dict_keys (x_node_outputs (r_exec r))" and ?d = "r_indeg r"
  have k: "kahn_inv ?V ?E ?p (?u # q)" and d: "?d = (\<lambda>v. int (indeg_of ?E (set ?p) v))"
    and adj: "dict_get_or (r_adj r) ?u [] = succs ?E ?u"
    and c: "x_completed_nodes (r_exec r) = set ?p"
    using inv q by (simp_all add: runner_inv_def Let_def)
  note hd = kahn_inv_head [OF k]
  have ins: "indeg_of ?E (insert ?u (set ?p)) v + count_list (succs ?E ?u) v = indeg_of ?E (set ?p) v" for v
    by (rule indeg_of_insert [OF hd(2)])
  have le: "int (count_list (succs ?E ?u) v) \<le> ?d v" for v using ins [of v] d by simp
  obtain new where new: "relax ?d q (succs ?E ?u) = (\<lambda>v. ?d v - int (count_list (succs ?E ?u) v), q @ new)"
    "distinct new" "set new = {v \<in> set (succs ?E ?u). ?d v = int (count_list (succs ?E ?u) v)}"
    using relax_effect [OF le, of q] by auto
  have nz: "indeg_of ?E (set ?p) v \<noteq> 0" if "v \<in> set (succs ?E ?u)" for v
    using that ins [of v] by (metis add_is_0 count_list_0_iff)
  have "v \<notin> set (?p @ ?u # q)" if "v \<in> set (succs ?E ?u)" for v
    using kahn_inv_indeg [OF k, of v] nz [OF that] by (rule contrapos_nn [rotated]) 
  then have "set (succs ?E ?u) \<inter> (insert ?u (set ?p) \<union> set q) = {}"
    by (simp add: disjoint_iff)
  with le have "add_downstream (insert ?u (set ?p)) ?d q (succs ?E ?u) = relax ?d q (succs ?E ?u)"
    by (rule add_downstream_relax)
  with new(1) have ad: "add_downstream (insert ?u (set ?p)) ?d q (succs ?E ?u) =
      (\<lambda>v. ?d v - int (count_list (succs ?E ?u) v), q @ new)" by simp
  have k': "kahn_inv ?V ?E (?p @ [?u]) (q @ new)"
    using kahn_inv_step [OF k _ new(2)] g new(3) by (simp add: d wf_graph_def)
  have d': "(\<lambda>v. ?d v - int (count_list (succs ?E ?u) v)) = (\<lambda>v. int (indeg_of ?E (set (?p @ [?u])) v))"
  proof
    fix v show "?d v - int (count_list (succs ?E ?u) v) = int (indeg_of ?E (set (?p @ [?u])) v)"
      using ins [of v] d by simp
  qed
  have "dict_get (x_node_outputs (r_exec r)) ?u = None"
    using hd(2) by (simp add: dict_get_None_iff)
  then have keys: "dict_keys (dict_set (x_node_outputs (r_exec r)) ?u out) = ?p @ [?u]"
    by (simp add: dict_set_append)
  show ?thesis
    using inv out r' q c ad k' d' keys adj
    by (simp add: runner_node_def Let_def x_complete_node_def x_set_current_node_def runner_inv_def
        insert_commute)
qed

lemma runner_node_stops:
  assumes inv: "runner_inv w eid r" and q: "r_queue r = wn_id n # q" and n: "n \<in> set (wf_nodes w)"
    and r': "r' = r\<lparr>r_exec := x_set_current_node (r_exec r) (wn_id n), r_queue := q, r_pc := RNode n\<rparr>"
    and no: "\<nexists>out. execute_node env n (r_exec r') = Output out"
  shows "task_done env w tid eid (runner_node env now tid n r' eg)"
proof -
  let ?p = "dict_keys (x_node_outputs (r_exec r))" and ?V = "map wn_id (wf_nodes w)"
  have k: "kahn_inv ?V (wf_pairs (wf_edges w)) ?p (wn_id n # q)"
    using inv q by (simp add: runner_inv_def Let_def)
  then have p: "distinct ?p" "topo_ok (wf_pairs (wf_edges w)) ?p" "set ?p \<subseteq> set ?V" "wn_id n \<notin> set ?p"
    by (auto simp: kahn_inv_def)
  show ?thesis
  proof (cases "execute_node env n (r_exec r')")
    case (Output out)
    with no show ?thesis by blast
  next
    case (Needs_Approval ctxt)
    with inv r' n p show ?thesis
      by (auto simp: runner_node_def Let_def task_done_def run_outcome_def runner_inv_def
          x_request_approval_def x_set_current_node_def)
  next
    case (Raised err)
    with inv r' n p show ?thesis
      by (auto simp: runner_node_def Let_def task_done_def run_outcome_def runner_inv_def
          x_fail_def x_set_current_node_def)
  qed
qed

lemma run_task_done_mono: "task_done env w tid eid eg \<Longrightarrow> task_done env w tid eid (run_task env tid ts eg)"
  using run_task_finished by (auto simp: task_done_def)

lemma regular_run:
  assumes g: "wf_graph (wf_nodes w) (wf_edges w)" "acyclic (set (wf_pairs (wf_edges w)))"
    and "dict_get (eg_live eg) tid = Some r" and "runner_inv w eid r"
    and "2 * (length (wf_nodes w) - length (x_node_outputs (r_exec r))) + 1 \<le> length ts"
  shows "task_done env w tid eid (run_task env tid ts eg)"
  using assms(3-5)
proof (induction "length (wf_nodes w) - length (x_node_outputs (r_exec r))" arbitrary: r eg ts
    rule: less_induct)
  case less
  note live = less.prems(1) and inv = less.prems(2)
  have pc: "r_pc r = RLoop" using inv by (simp add: runner_inv_def Let_def)
  obtain t ts' where ts: "ts = t # ts'" using less.prems(3) by (cases ts) auto
  have st: "task_step env t tid eg = runner_loop env t tid r eg" using live pc by (simp add: task_step_def)
  show ?case
  proof (cases "r_queue r")
    case Nil
    then show ?thesis
      using runner_loop_empty [OF g inv Nil] ts st by (simp add: run_task_done_mono)
  next
    case (Cons nid q)
    obtain n where n: "n \<in> set (wf_nodes w)" "wn_id n = nid" and
      rl: "runner_loop env t tid r eg =
        set_runner tid (r\<lparr>r_exec := x_set_current_node (r_exec r) nid, r_queue := q, r_pc := RNode n\<rparr>)
          (emit_event WORKFLOW_NODE_STARTED eid
             (PL_exec (x_set_current_node (r_exec r) nid)
                [(''node_id'', PStr nid), (''node_type'', PStr (node_type_value (wn_type n)))])
             (put_exec (x_set_current_node (r_exec r) nid) eg))" (is "_ = ?eg1")
      using runner_loop_starts [OF inv Cons, of env t tid eg] by blast
    define r' where "r' = r\<lparr>r_exec := x_set_current_node (r_exec r) nid, r_queue := q, r_pc := RNode n\<rparr>"
    have live': "dict_get (eg_live ?eg1) tid = Some r'" by (simp add: r'_def)
    have "kahn_inv (map wn_id (wf_nodes w)) (wf_pairs (wf_edges w))
        (dict_keys (x_node_outputs (r_exec r))) (nid # q)"
      using inv Cons by (simp add: runner_inv_def Let_def)
    from kahn_inv_length [OF this] card_length [of "map wn_id (wf_nodes w)"]
    have lt: "length (x_node_outputs (r_exec r)) < length (wf_nodes w)" by simp
    with less.prems(3) ts obtain t' ts'' where ts': "ts' = t' # ts''" by (cases ts') auto
    have st': "task_step env t' tid ?eg1 = runner_node env t' tid n r' ?eg1"
      using live' by (simp add: task_step_def r'_def)
    have run: "run_task env tid ts eg = run_task env tid ts'' (runner_node env t' tid n r' ?eg1)"
      using ts ts' st rl st' by simp
    have q': "r_queue r = wn_id n # q" and r'': "r' = r\<lparr>r_exec := x_set_current_node (r_exec r) (wn_id n),
        r_queue := q, r_pc := RNode n\<rparr>" using Cons n(2) by (simp_all add: r'_def)
    show ?thesis
    proof (cases "\<exists>out. execute_node env n (r_exec r') = Output out")
      case True
      then obtain r2 where r2: "dict_get (eg_live (runner_node env t' tid n r' ?eg1)) tid = Some r2"
        "runner_inv w eid r2"
        "dict_keys (x_node_outputs (r_exec r2)) = dict_keys (x_node_outputs (r_exec r)) @ [wn_id n]"
        using runner_node_output [OF g(1) inv q' r''] by blast
      from arg_cong [OF r2(3), of length]
      have "length (x_node_outputs (r_exec r2)) = Suc (length (x_node_outputs (r_exec r)))" by simp
      with lt less.prems(3) ts ts' show ?thesis
        unfolding run by (intro less.hyps [OF _ r2(1,2)]) auto
    next
      case False
      from runner_node_stops [OF inv q' n(1) r'' False] show ?thesis
        unfolding run by (rule run_task_done_mono)
    qed
  qed
qed

lemma fresh_run:
  assumes v: "vr_valid (validate_workflow (wf_nodes w) (wf_edges w))"
    and e: "x_completed_nodes e = {}" "x_failed_nodes e = {}" "x_node_outputs e = []"
    and rp: "\<not> truthy (x_replay_from_node e)"
    and live: "dict_get (eg_live eg) tid = Some (new_runner e w)"
    and ts: "2 * length (wf_nodes w) + 2 \<le> length ts"
  shows "task_done env w tid (x_id e) (run_task env tid ts eg)"
proof -
  have g: "wf_graph (wf_nodes w) (wf_edges w)" "acyclic (set (wf_pairs (wf_edges w)))"
    using v by (simp_all add: validate_valid_iff)
  obtain t ts' where t: "ts = t # ts'" using ts by (cases ts) auto
  obtain r where r: "dict_get (eg_live (runner_begin tid (new_runner e w) eg)) tid = Some r"
    "runner_inv w (x_id e) r"
    using runner_inv_begin [OF g(1) e rp] by blast
  have "run_task env tid ts eg = run_task env tid ts' (runner_begin tid (new_runner e w) eg)"
    using live t by (simp add: task_step_def new_runner_def)
  moreover have "task_done env w tid (x_id e) (run_task env tid ts' (runner_begin tid (new_runner e w) eg))"
    using ts t by (intro regular_run [OF g r]) auto
  ultimately show ?thesis by simp
qed

subsection \<open>Replays that wait for a node nobody runs\<close>

definition stuck_runner :: "runner \<Rightarrow> bool" where
  "stuck_runner r \<longleftrightarrow>
     r_pc r = RLoop \<and> x_status (r_exec r) = RUNNING \<and>
     (\<exists>nid. r_queue r = [nid] \<and> node_map (wf_nodes (r_workflow r)) nid \<noteq> None \<and>
            nid \<notin> x_completed_nodes (r_exec r) \<and>
            \<not> set (dict_get_or (r_rev r) nid []) \<subseteq> x_completed_nodes (r_exec r))"

lemma stuck_step:
  assumes "stuck_runner r" and "dict_get (eg_live eg) tid = Some r"
  shows "dict_get (eg_live (task_step env now tid eg)) tid = Some r"
    and "eg_executions (task_step env now tid eg) = eg_executions eg"
proof -
  obtain nid n where nid: "r_queue r = [nid]" "node_map (wf_nodes (r_workflow r)) nid = Some n"
    "nid \<notin> x_completed_nodes (r_exec r)"
    "\<not> set (dict_get_or (r_rev r) nid []) \<subseteq> x_completed_nodes (r_exec r)"
    using assms(1) by (auto simp: stuck_runner_def)
  from nid(4) have "dict_get_or (r_rev r) nid [] \<noteq> []"
    "\<exists>d\<in>set (dict_get_or (r_rev r) nid []). d \<notin> x_completed_nodes (r_exec r)" by auto
  with assms nid(1-3) have "task_step env now tid eg = set_runner tid (r\<lparr>r_queue := [nid]\<rparr>) eg"
    by (simp add: task_step_def runner_loop_def stuck_runner_def Let_def)
  moreover have "r\<lparr>r_queue := [nid]\<rparr> = r" using nid(1) by (cases r) simp
  ultimately show "dict_get (eg_live (task_step env now tid eg)) tid = Some r"
    and "eg_executions (task_step env now tid eg) = eg_executions eg" by simp_all
qed

lemma stuck_forever:
  "stuck_runner r \<Longrightarrow> dict_get (eg_live eg) tid = Some r \<Longrightarrow>
   dict_get (eg_live (run_task env tid ts eg)) tid = Some r \<and>
   eg_executions (run_task env tid ts eg) = eg_executions eg"
  by (induction ts arbitrary: eg) (auto simp: stuck_step)

lemma replay_begin_stuck:
  assumes rp: "x_replay_from_node e = Some nid" "nid \<noteq> []"
    and n: "nid \<in> wn_id ` set (wf_nodes w)"
    and c: "x_completed_nodes e = {}" and dep: "nid \<in> we_target ` set (wf_edges w)"
  shows "\<exists>r. dict_get (eg_live (runner_begin tid (new_runner e w) eg)) tid = Some r \<and> stuck_runner r"
proof -
  obtain adj radj d where bp: "build_plan (wf_edges w) [] [] (\<lambda>_. 0) = (adj, radj, d)"
    using prod_cases3 by blast
  have "dict_get_or radj nid [] = preds (wf_pairs (wf_edges w)) nid"
    using build_plan_correct(2) [OF bp, of nid] by (simp add: dict_get_or_def)
  moreover from dep obtain ed where "ed \<in> set (wf_edges w)" "we_target ed = nid" by blast
  then have "we_source ed \<in> set (preds (wf_pairs (wf_edges w)) nid)"
    by (auto simp: set_preds wf_pairs_def)
  ultimately show ?thesis
    using rp c node_map_ex [OF n]
    by (auto simp: runner_begin_def new_runner_def bp Let_def stuck_runner_def x_start_def)
qed

subsection \<open>Resuming: completed start nodes end the run\<close>

definition drained_runner :: "runner \<Rightarrow> bool" where
  "drained_runner r \<longleftrightarrow>
     r_pc r = RLoop \<and> x_status (r_exec r) = RUNNING \<and> x_failed_nodes (r_exec r) = {} \<and>
     set (r_queue r) \<subseteq> x_completed_nodes (r_exec r) \<and>
     set (r_queue r) \<subseteq> wn_id ` set (wf_nodes (r_workflow r))"

lemma drained_run:
  assumes "drained_runner r" and "dict_get (eg_live eg) tid = Some r"
    and "length (r_queue r) + 1 \<le> length ts"
  shows "\<exists>e now. dict_get (eg_live (run_task env tid ts eg)) tid = None \<and>
           dict_get (eg_executions (run_task env tid ts eg)) (x_id (r_exec r)) = Some e \<and>
           e = x_complete (r_exec r) now"
  using assms
proof (induction "r_queue r" arbitrary: r eg ts)
  case Nil
  then obtain t ts' where ts: "ts = t # ts'" by (cases ts) auto
  from Nil have "dict_get (eg_live (task_step env t tid eg)) tid = None"
    "dict_get (eg_executions (task_step env t tid eg)) (x_id (r_exec r)) = Some (x_complete (r_exec r) t)"
    by (auto simp: task_step_def drained_runner_def runner_loop_def runner_finalize_def x_complete_def Let_def)
  then show ?case by (auto simp: ts run_task_finished)
next
  case (Cons nid q)
  obtain t ts' where ts: "ts = t # ts'" using Cons.prems(3) by (cases ts) auto
  let ?r = "r\<lparr>r_queue := q\<rparr>"
  obtain n where "node_map (wf_nodes (r_workflow r)) nid = Some n"
    using Cons.hyps(2) Cons.prems(1) node_map_ex by (metis drained_runner_def list.set_intros(1) subset_eq)
  then have st: "task_step env t tid eg = set_runner tid ?r eg"
    using Cons.hyps(2) [symmetric] Cons.prems(1,2)
    by (auto simp: task_step_def drained_runner_def runner_loop_def Let_def)
  have "drained_runner ?r"
    using Cons.prems(1) Cons.hyps(2) [symmetric] by (auto simp: drained_runner_def)
  then have "\<exists>e now. dict_get (eg_live (run_task env tid ts' (set_runner tid ?r eg))) tid = None \<and>
      dict_get (eg_executions (run_task env tid ts' (set_runner tid ?r eg))) (x_id (r_exec ?r)) = Some e \<and>
      e = x_complete (r_exec ?r) now"
    using Cons.prems(3) Cons.hyps(2) [symmetric] by (intro Cons.hyps(1)) (auto simp: ts)
  then show ?case by (simp add: ts st)
qed

lemma resume_begin_drained:
  assumes rp: "\<not> truthy (x_replay_from_node e)" and f: "x_failed_nodes e = {}"
    and src: "\<And>n. n \<in> set (wf_nodes w) \<Longrightarrow> wn_id n \<notin> we_target ` set (wf_edges w) \<Longrightarrow>
                wn_id n \<in> x_completed_nodes e"
  shows "\<exists>r. dict_get (eg_live (runner_begin tid (new_runner e w) eg)) tid = Some r \<and>
             drained_runner r \<and> r_exec r = x_start e \<and> length (r_queue r) \<le> length (wf_nodes w)"
proof -
  obtain adj radj d where bp: "build_plan (wf_edges w) [] [] (\<lambda>_. 0) = (adj, radj, d)"
    using prod_cases3 by blast
  have "wn_id n \<notin> we_target ` set (wf_edges w)" if "d (wn_id n) = 0" for n
    using build_plan_correct(3) [OF bp, of "wn_id n"] that
    by (auto simp: wf_pairs_def preds_def filter_empty_conv)
  with src have "wn_id n \<in> x_completed_nodes e" if "n \<in> set (wf_nodes w)" "d (wn_id n) = 0" for n
    using that by blast
  with rp f show ?thesis
    by (auto simp: runner_begin_def new_runner_def bp Let_def drained_runner_def x_start_def)
qed

end
