(* ===== verification/Workflow_Invariants.thy ===== *)
theory Workflow_Invariants
  imports Workflow_Run
begin

text \<open>
  The workflow engine as a transition system: every public operation and every scheduling of
  a background task is a step, in any order. Its invariant relates the dictionaries, and it
  bounds what the public interface can reach at all.
\<close>

inductive engine_step :: "node_env \<Rightarrow> engine \<Rightarrow> engine \<Rightarrow> bool" for env where
  es_create: "engine_step env eg (fst (create_workflow uid t1 t2 cdata eg))"
| es_update: "engine_step env eg (fst (update_workflow now wid udata eg))"
| es_delete: "engine_step env eg (fst (delete_workflow wid eg))"
| es_execute: "engine_step env eg (fst (execute_workflow uid now wid xdata eg))"
| es_replay: "engine_step env eg (fst (replay_workflow uid now wid rdata eg))"
| es_approve: "engine_step env eg (fst (approve_workflow t1 t2 wid adata eg))"
| es_cancel: "engine_step env eg (fst (cancel_execution t1 t2 eid eg))"
| es_pause: "engine_step env eg (fst (pause_execution eid eg))"
| es_resume: "engine_step env eg (fst (resume_execution eid eg))"
| es_task: "engine_step env eg (task_step env now tid eg)"

definition workflows_ok :: "(string, workflow) dict \<Rightarrow> bool" where
  "workflows_ok d \<longleftrightarrow>
     dict_wf d \<and> (\<forall>(k, w) \<in> set d. wf_id w = k \<and> wf_status w = WS_DRAFT \<and> 1 \<le> wf_version w)"

definition executions_ok :: "(string, execution) dict \<Rightarrow> bool" where
  "executions_ok d \<longleftrightarrow> dict_wf d \<and> (\<forall>(k, e) \<in> set d. x_id e = k \<and> exec_wf e)"

definition live_ok :: "engine \<Rightarrow> bool" where
  "live_ok eg \<longleftrightarrow>
     dict_wf (eg_live eg) \<and>
     (\<forall>(t, r) \<in> set (eg_live eg). t < eg_next eg \<and> exec_wf (r_exec r) \<and>
        x_id (r_exec r) \<in> fst ` set (eg_executions eg))"

definition engine_inv :: "engine \<Rightarrow> bool" where
  "engine_inv eg \<longleftrightarrow>
     workflows_ok (eg_workflows eg) \<and> eg_versions eg = [] \<and> executions_ok (eg_executions eg) \<and>
     live_ok eg \<and> dict_wf (eg_tasks eg) \<and> eg_running eg \<subseteq> fst ` set (eg_executions eg)"

lemma workflows_ok_set:
  "workflows_ok d \<Longrightarrow> wf_id w = k \<Longrightarrow> wf_status w = WS_DRAFT \<Longrightarrow> 1 \<le> wf_version w \<Longrightarrow>
   workflows_ok (dict_set d k w)"
  unfolding workflows_ok_def using set_dict_set_subset [of k w d] by fastforce

lemma workflows_ok_del: "workflows_ok d \<Longrightarrow> workflows_ok (dict_del d k)"
  unfolding workflows_ok_def using set_dict_del_subset [of k d] by fastforce

lemma workflows_okD:
  "workflows_ok d \<Longrightarrow> dict_get d k = Some w \<Longrightarrow> wf_id w = k \<and> wf_status w = WS_DRAFT \<and> 1 \<le> wf_version w"
  unfolding workflows_ok_def by (auto dest: map_of_SomeD)

lemma executions_ok_set:
  "executions_ok d \<Longrightarrow> x_id e = k \<Longrightarrow> exec_wf e \<Longrightarrow> executions_ok (dict_set d k e)"
  unfolding executions_ok_def using set_dict_set_subset [of k e d] by fastforce

lemma executions_okD:
  "executions_ok d \<Longrightarrow> dict_get d k = Some e \<Longrightarrow> x_id e = k \<and> exec_wf e \<and> k \<in> fst ` set d"
  unfolding executions_ok_def by (force dest: map_of_SomeD)

lemma live_okD:
  "live_ok eg \<Longrightarrow> dict_get (eg_live eg) t = Some r \<Longrightarrow>
   t < eg_next eg \<and> exec_wf (r_exec r) \<and> x_id (r_exec r) \<in> fst ` set (eg_executions eg)"
  unfolding live_ok_def by (auto dest: map_of_SomeD)

text \<open>The engine's primitives keep the invariant.\<close>

lemma engine_inv_emit [inv_intros]: "engine_inv eg \<Longrightarrow> engine_inv (emit_event t k p eg)"
  by (simp add: engine_inv_def live_ok_def)

lemma engine_inv_put [inv_intros]:
  "engine_inv eg \<Longrightarrow> exec_wf e \<Longrightarrow> engine_inv (put_exec e eg)"
  by (auto simp: engine_inv_def live_ok_def intro: executions_ok_set)

lemma engine_inv_executions [inv_intros]:
  "engine_inv eg \<Longrightarrow> x_id e = k \<Longrightarrow> exec_wf e \<Longrightarrow>
   engine_inv (eg\<lparr>eg_executions := dict_set (eg_executions eg) k e\<rparr>)"
  by (auto simp: engine_inv_def live_ok_def intro: executions_ok_set)

lemma engine_inv_finish [inv_intros]: "engine_inv eg \<Longrightarrow> engine_inv (finish_task tid eid eg)"
  unfolding engine_inv_def live_ok_def using set_dict_del_subset [of tid "eg_live eg"] by auto

lemma engine_inv_runner [inv_intros]:
  "engine_inv eg \<Longrightarrow> tid < eg_next eg \<Longrightarrow> exec_wf (r_exec r) \<Longrightarrow>
   x_id (r_exec r) \<in> fst ` set (eg_executions eg) \<Longrightarrow> engine_inv (set_runner tid r eg)"
  unfolding engine_inv_def live_ok_def using set_dict_set_subset [of tid r "eg_live eg"] by auto

lemma engine_inv_create_task [inv_intros]:
  "engine_inv eg \<Longrightarrow> exec_wf e \<Longrightarrow> x_id e \<in> fst ` set (eg_executions eg) \<Longrightarrow>
   engine_inv (create_task e w eg)"
proof -
  assume a: "engine_inv eg" "exec_wf e" "x_id e \<in> fst ` set (eg_executions eg)"
  let ?eg = "eg\<lparr>eg_tasks := dict_set (eg_tasks eg) (x_id e) (eg_next eg), eg_next := eg_next eg + 1,
               eg_running := eg_running eg \<union> {x_id e}\<rparr>"
  have "engine_inv ?eg" using a by (auto simp: engine_inv_def live_ok_def)
  then have "engine_inv (set_runner (eg_next eg) (new_runner e w) ?eg)"
    using a by (intro engine_inv_runner) (auto simp: new_runner_def)
  then show ?thesis by (simp add: create_task_def engine_inv_def live_ok_def)
qed

lemmas exec_wf_ops [inv_intros] = exec_step.intros [THEN exec_wf_step]

subsection \<open>Every step keeps the invariant\<close>

lemma exec_frame [simp]:
  "x_id (x_start e) = x_id e" "x_id (x_pause e) = x_id e" "x_id (x_complete e t) = x_id e"
  "x_id (x_fail e t err n) = x_id e" "x_id (x_cancel e t) = x_id e"
  "x_id (x_set_current_node e nid) = x_id e" "x_id (x_complete_node e nid out) = x_id e"
  "x_id (x_request_approval e t nid ctxt) = x_id e"
  by (simp_all add: x_simple_defs)

lemma engine_inv_create:
  "engine_inv eg \<Longrightarrow> engine_inv (fst (create_workflow uid t1 t2 cdata eg))"
  by (auto simp: create_workflow_def Let_def workflow_create_def engine_inv_def live_ok_def
      intro!: workflows_ok_set)

lemma engine_inv_update:
  assumes "engine_inv eg"
  shows "engine_inv (fst (update_workflow now wid udata eg))"
proof (cases "dict_get (eg_workflows eg) wid")
  case (Some w)
  then have w: "wf_id w = wid" "wf_status w = WS_DRAFT" "1 \<le> wf_version w"
    using assms workflows_okD by (auto simp: engine_inv_def)
  have "engine_inv (eg\<lparr>eg_workflows := dict_set (eg_workflows eg) wid w'\<rparr>)"
    if "wf_id w' = wid" "wf_status w' = WS_DRAFT" "1 \<le> wf_version w'" for w'
    using assms that by (simp add: engine_inv_def live_ok_def workflows_ok_set)
  with w Some show ?thesis
    by (auto simp: update_workflow_def Let_def new_version_def intro!: engine_inv_emit)
qed (simp add: assms update_workflow_def)

lemma engine_inv_delete:
  "engine_inv eg \<Longrightarrow> engine_inv (fst (delete_workflow wid eg))"
  by (auto simp: delete_workflow_def Let_def engine_inv_def live_ok_def intro: workflows_ok_del)

lemma engine_inv_execute:
  "engine_inv eg \<Longrightarrow> engine_inv (fst (execute_workflow uid now wid xdata eg))"
  by (auto simp: execute_workflow_def Let_def split: option.splits
      intro!: engine_inv_emit engine_inv_create_task engine_inv_put exec_wf_create)

lemma engine_inv_replay:
  "engine_inv eg \<Longrightarrow> engine_inv (fst (replay_workflow uid now wid rdata eg))"
  by (auto simp: replay_workflow_def Let_def split: option.splits
      intro!: engine_inv_emit engine_inv_create_task engine_inv_put exec_wf_create)

lemma find_awaitingD:
  "find_awaiting wid nid eg = Some e \<Longrightarrow>
   e \<in> set (dict_values (eg_executions eg)) \<and> x_workflow_id e = wid \<and>
   x_status e = AWAITING_APPROVAL \<and> x_pending_approval e = Some nid"
  unfolding find_awaiting_def by (metis (mono_tags, lifting) find_Some_iff nth_mem)

lemma engine_inv_approve:
  assumes "engine_inv eg"
  shows "engine_inv (fst (approve_workflow t1 t2 wid adata eg))"
proof (cases "find_awaiting wid (wa_node_id adata) eg")
  case (Some e)
  from find_awaitingD [OF this] assms have "exec_wf e"
    by (auto simp: engine_inv_def executions_ok_def)
  with Some assms show ?thesis
    by (auto simp: approve_workflow_def Let_def intro!: engine_inv_emit engine_inv_executions exec_wf_ops)
qed (simp add: assms approve_workflow_def)

lemma engine_inv_cancel_task:
  assumes "engine_inv eg"
  shows "engine_inv (cancel_task now tid eg)"
proof (cases "dict_get (eg_live eg) tid")
  case (Some r)
  then have "exec_wf (r_exec r)" using assms live_okD by (auto simp: engine_inv_def)
  moreover have "engine_inv (eg\<lparr>eg_live := dict_del (eg_live eg) tid\<rparr>)"
    using assms set_dict_del_subset [of tid "eg_live eg"] by (auto simp: engine_inv_def live_ok_def)
  ultimately show ?thesis
    using Some assms
    by (auto simp: cancel_task_def Let_def intro!: engine_inv_finish engine_inv_emit engine_inv_put exec_wf_ops)
qed (simp add: assms cancel_task_def)

lemma engine_inv_cancel_finish:
  assumes "engine_inv eg" and "exec_wf e" and "x_id e = eid"
  shows "engine_inv (fst (cancel_finish now eid e eg))"
proof -
  have "engine_inv (eg\<lparr>eg_running := eg_running eg - {eid}\<rparr>)"
    using assms(1) by (auto simp: engine_inv_def live_ok_def)
  from engine_inv_executions [OF this, of "x_cancel e now" eid] assms show ?thesis
    by (auto simp: cancel_finish_def Let_def intro!: engine_inv_emit exec_wf_ops)
qed

lemma engine_inv_cancel:
  assumes "engine_inv eg"
  shows "engine_inv (fst (cancel_execution t1 t2 eid eg))"
proof (cases "dict_get (eg_executions eg) eid")
  case (Some e)
  then have e: "exec_wf e" "x_id e = eid" using assms executions_okD by (auto simp: engine_inv_def)
  have "engine_inv (eg'\<lparr>eg_tasks := dict_del (eg_tasks eg') eid\<rparr>)" if "engine_inv eg'" for eg'
    using that by (auto simp: engine_inv_def live_ok_def)
  with Some e assms show ?thesis
    by (auto simp: cancel_execution_def Let_def split: option.splits
        intro!: engine_inv_cancel_finish engine_inv_cancel_task)
qed (simp add: assms cancel_execution_def)

lemma engine_inv_pause:
  assumes "engine_inv eg"
  shows "engine_inv (fst (pause_execution eid eg))"
  using assms executions_okD [of "eg_executions eg" eid]
  by (auto simp: pause_execution_def Let_def engine_inv_def [of eg] split: option.splits
      intro!: engine_inv_emit engine_inv_executions [OF assms] exec_wf_ops)

lemma engine_inv_resume:
  assumes "engine_inv eg"
  shows "engine_inv (fst (resume_execution eid eg))"
proof (cases "dict_get (eg_executions eg) eid")
  case (Some e)
  then have e: "exec_wf e" "x_id e = eid" using assms executions_okD by (auto simp: engine_inv_def)
  then have "engine_inv (eg\<lparr>eg_executions := dict_set (eg_executions eg) eid (x_start e)\<rparr>)"
    by (intro engine_inv_executions assms) (auto intro: exec_wf_ops)
  with Some e assms show ?thesis
    by (auto simp: resume_execution_def Let_def split: option.splits
        intro!: engine_inv_emit engine_inv_create_task exec_wf_ops)
qed (simp add: assms resume_execution_def)

text \<open>The three segments of a background task.\<close>

lemma engine_inv_begin:
  assumes "engine_inv eg" and "exec_wf (r_exec r)" and "tid < eg_next eg"
  shows "engine_inv (runner_begin tid r eg)"
  using assms
  by (auto simp: runner_begin_def Let_def split: prod.splits
      intro!: engine_inv_runner engine_inv_emit engine_inv_put exec_wf_ops)

lemma engine_inv_finalize:
  assumes "engine_inv eg" and "exec_wf (r_exec r)"
  shows "engine_inv (runner_finalize now tid r eg)"
  using assms
  by (auto simp: runner_finalize_def Let_def
      intro!: engine_inv_finish engine_inv_emit engine_inv_put exec_wf_ops)

lemma engine_inv_crash:
  assumes "engine_inv eg" and "exec_wf (r_exec r)"
  shows "engine_inv (runner_crash now tid err r eg)"
  using assms
  by (auto simp: runner_crash_def Let_def
      intro!: engine_inv_finish engine_inv_emit engine_inv_put exec_wf_ops)

lemma engine_inv_loop:
  assumes "engine_inv eg" and "exec_wf (r_exec r)" and "tid < eg_next eg"
    and "x_id (r_exec r) \<in> fst ` set (eg_executions eg)"
  shows "engine_inv (runner_loop env now tid r eg)"
proof -
  have fin: "engine_inv (runner_finalize now tid r eg)" and cr: "\<And>err. engine_inv (runner_crash now tid err r eg)"
    using assms engine_inv_finalize engine_inv_crash by auto
  have q: "engine_inv (set_runner tid (r\<lparr>r_queue := q\<rparr>) eg)" for q
    using assms by (intro engine_inv_runner) auto
  have st: "engine_inv (set_runner tid (r\<lparr>r_exec := x_set_current_node (r_exec r) nid, r_queue := q, r_pc := pc\<rparr>)
      (emit_event t (x_id (r_exec r)) pl (put_exec (x_set_current_node (r_exec r) nid) eg)))" for nid q pc t pl
    using assms by (intro engine_inv_runner engine_inv_emit engine_inv_put) (auto intro: exec_wf_ops)
  show ?thesis
    using fin cr q st by (auto simp: runner_loop_def Let_def split: list.splits option.splits)
qed

lemma engine_inv_node:
  assumes "engine_inv eg" and "exec_wf (r_exec r)" and "tid < eg_next eg"
  shows "engine_inv (runner_node env now tid n r eg)"
  using assms
  by (auto simp: runner_node_def Let_def split: node_outcome.splits prod.splits
      intro!: engine_inv_runner engine_inv_finish engine_inv_emit engine_inv_put exec_wf_ops)

lemma engine_inv_task:
  assumes "engine_inv eg"
  shows "engine_inv (task_step env now tid eg)"
proof (cases "dict_get (eg_live eg) tid")
  case (Some r)
  with assms have "tid < eg_next eg" "exec_wf (r_exec r)" "x_id (r_exec r) \<in> fst ` set (eg_executions eg)"
    using live_okD by (auto simp: engine_inv_def)
  with Some assms show ?thesis
    by (auto simp: task_step_def split: runner_pc.splits
        intro: engine_inv_begin engine_inv_loop engine_inv_node)
qed (simp add: assms task_step_def)

lemma engine_step_inv: "engine_step env eg eg' \<Longrightarrow> engine_inv eg \<Longrightarrow> engine_inv eg'"
  by (induction rule: engine_step.induct)
     (blast intro: engine_inv_create engine_inv_update engine_inv_delete engine_inv_execute
        engine_inv_replay engine_inv_approve engine_inv_cancel engine_inv_pause engine_inv_resume
        engine_inv_task)+

definition engine_start :: "engine \<Rightarrow> bool" where
  "engine_start eg \<longleftrightarrow> eg = engine_init"

lemma engine_inv_init: "engine_inv engine_init"
  by (simp add: engine_init_def engine_inv_def workflows_ok_def executions_ok_def live_ok_def)

interpretation engine_machine: invariant_machine engine_start "engine_step env" engine_inv
  for env
  by unfold_locales (auto simp: engine_start_def engine_inv_init intro: engine_step_inv)

subsection \<open>A sample definition\<close>

definition sample_node :: "string \<Rightarrow> node_type \<Rightarrow> workflow_node" where
  "sample_node nid ty = \<lparr>wn_id = nid, wn_type = ty, wn_label = nid, wn_config = [],
     wn_position = [(''x'', 0), (''y'', 0)], wn_subworkflow_id = None\<rparr>"

definition sample_edge :: "string \<Rightarrow> string \<Rightarrow> string \<Rightarrow> workflow_edge" where
  "sample_edge eid s t = \<lparr>we_id = eid, we_source = s, we_target = t, we_source_handle = None,
     we_target_handle = None, we_condition = None\<rparr>"

definition sample_nodes :: "workflow_node list" where
  "sample_nodes = [sample_node ''a'' N_START, sample_node ''b'' N_LLM, sample_node ''c'' N_END]"

definition sample_edges :: "workflow_edge list" where
  "sample_edges = [sample_edge ''1'' ''a'' ''b'', sample_edge ''2'' ''b'' ''c'', sample_edge ''3'' ''a'' ''c'']"

definition sample_workflow :: workflow where
  "sample_workflow = activate (workflow_create ''w'' 0 0 ''n'' ''d'' sample_nodes sample_edges None ''u'') 1 ''u''"

definition sample_env :: node_env where
  "sample_env = \<lparr>ne_agents = [], ne_complete = (\<lambda>_ _ _. Inl ''offline''), ne_str = (\<lambda>_. []), ne_repr = quoted\<rparr>"

definition sample_engine :: engine where
  "sample_engine = engine_init\<lparr>eg_workflows := [(''w'', sample_workflow)]\<rparr>"

definition sample_exec :: execution where
  "sample_exec = execution_create ''x'' 0 ''w'' 1 [] None None"

lemma sample_sel [simp]:
  "wf_nodes sample_workflow = sample_nodes" "wf_edges sample_workflow = sample_edges"
  "wf_status sample_workflow = WS_ACTIVE" "wf_id sample_workflow = ''w''" "wf_version sample_workflow = 1"
  "eg_workflows sample_engine = [(''w'', sample_workflow)]" "eg_next sample_engine = 0"
  "eg_executions sample_engine = []" "eg_live sample_engine = []" "eg_tasks sample_engine = []"
  by (simp_all add: sample_workflow_def activate_def workflow_create_def sample_engine_def engine_init_def)

lemma sample_valid: "vr_valid (validate_workflow sample_nodes sample_edges)"
  by code_simp

subsection \<open>Properties\<close>

text \<open>Replaying from a node that has an incoming edge never ends: the replay starts with
  no completed node, the runner re-queues the requested node for ever, and the execution
  stays as it was stored when the run began, whatever the number of steps.\<close>

theorem replay_from_dependent_node_diverges:
  assumes "dict_get (eg_workflows eg) wid = Some w"
    and "wr_from_node rdata = Some nid" and "nid \<noteq> []"
    and "nid \<in> wn_id ` set (wf_nodes w)" and "nid \<in> we_target ` set (wf_edges w)"
  shows "\<exists>eg1 e r. replay_workflow uid now wid rdata eg = (eg1, Inr e) \<and>
           dict_get (eg_live (run_task env (eg_next eg) (t # ts) eg1)) (eg_next eg) = Some r \<and>
           x_status (r_exec r) = RUNNING \<and> x_completed_nodes (r_exec r) = {} \<and>
           dict_get (eg_executions (run_task env (eg_next eg) (t # ts) eg1)) uid = Some (x_start e)"
proof -
  let ?tid = "eg_next eg"
  obtain eg1 e where eg1: "replay_workflow uid now wid rdata eg = (eg1, Inr e)"
    and e: "x_replay_from_node e = Some nid" "x_completed_nodes e = {}" "x_id e = uid"
    and live: "dict_get (eg_live eg1) ?tid = Some (new_runner e w)"
    using assms(1,2) by (simp add: replay_workflow_def Let_def create_task_def execution_create_def)
  have st: "task_step env t ?tid eg1 = runner_begin ?tid (new_runner e w) eg1"
    using live by (simp add: task_step_def new_runner_def)
  obtain r where r: "dict_get (eg_live (runner_begin ?tid (new_runner e w) eg1)) ?tid = Some r" "stuck_runner r"
    using replay_begin_stuck [OF e(1) assms(3,4) e(2) assms(5)] by blast
  have ex: "dict_get (eg_executions (runner_begin ?tid (new_runner e w) eg1)) uid = Some (x_start e)"
    and rx: "r_exec r = x_start e"
    using e r(1) by (auto simp: runner_begin_def Let_def new_runner_def split: prod.splits)
  from stuck_forever [OF r(2,1), of env ts] eg1 st ex rx r(2) e(2) show ?thesis
    by (auto simp: stuck_runner_def x_start_def)
qed

text \<open>C2: What the background task of a workflow does, for a definition that passes validation, when it is
  scheduled without interference. Started by a replay that names no node, whatever the status of
  the workflow, or by executing an active workflow with no node to replay from, it ends after at
  most two steps per node plus two: the nodes complete in a topological order, each at most once,
  and the stored execution is COMPLETED with every node done, or FAILED with the error of a node
  that raised, or AWAITING_APPROVAL at a node that asked for approval. Started by a replay from a
  node with an incoming edge it never ends: after any number of steps it is still alive and RUNNING
  with nothing completed.\<close>

theorem workflow_run_ends_unless_replayed_inside:
  assumes "vr_valid (validate_workflow (wf_nodes w) (wf_edges w))"
    and "dict_get (eg_workflows eg) wid = Some w" and "2 * length (wf_nodes w) + 2 \<le> length ts"
  shows "(\<not> truthy (wr_from_node rdata) \<longrightarrow>
      (\<exists>eg1 e. replay_workflow uid now wid rdata eg = (eg1, Inr e) \<and> x_id e = uid \<and>
         task_done env w (eg_next eg) uid (run_task env (eg_next eg) ts eg1))) \<and>
    (wf_status w = WS_ACTIVE \<and> \<not> truthy (wxd_replay_from_node xdata) \<longrightarrow>
      (\<exists>eg1 e. execute_workflow uid now wid xdata eg = (eg1, Inr e) \<and> x_id e = uid \<and>
         task_done env w (eg_next eg) uid (run_task env (eg_next eg) ts eg1))) \<and>
    (wr_from_node rdata = Some nid \<and> nid \<noteq> [] \<and> nid \<in> wn_id ` set (wf_nodes w) \<and>
     nid \<in> we_target ` set (wf_edges w) \<longrightarrow>
      (\<exists>eg1 e r. replay_workflow uid now wid rdata eg = (eg1, Inr e) \<and>
         dict_get (eg_live (run_task env (eg_next eg) ts eg1)) (eg_next eg) = Some r \<and>
         x_status (r_exec r) = RUNNING \<and> x_completed_nodes (r_exec r) = {}))"
proof (intro conjI impI)
  assume from_start: "\<not> truthy (wr_from_node rdata)"
  obtain eg1 e where eg1: "replay_workflow uid now wid rdata eg = (eg1, Inr e)"
    and e: "x_replay_from_node e = wr_from_node rdata" "x_completed_nodes e = {}" "x_failed_nodes e = {}"
      "x_node_outputs e = []" "x_id e = uid"
    and live: "dict_get (eg_live eg1) (eg_next eg) = Some (new_runner e w)"
    using assms(2) by (simp add: replay_workflow_def Let_def create_task_def execution_create_def)
  have "task_done env w (eg_next eg) (x_id e) (run_task env (eg_next eg) ts eg1)"
    using assms(1,3) from_start live e(1-4) by (intro fresh_run) simp_all
  with eg1 e(5) show "\<exists>eg1 e. replay_workflow uid now wid rdata eg = (eg1, Inr e) \<and> x_id e = uid \<and>
      task_done env w (eg_next eg) uid (run_task env (eg_next eg) ts eg1)" by auto
next
  assume active: "wf_status w = WS_ACTIVE \<and> \<not> truthy (wxd_replay_from_node xdata)"
  let ?e = "execution_create uid now wid (wf_version w) (wxd_inputs xdata)
      (wxd_parent_execution_id xdata) (wxd_replay_from_node xdata)"
  obtain eg1 where eg1: "execute_workflow uid now wid xdata eg = (eg1, Inr ?e)"
    and live: "dict_get (eg_live eg1) (eg_next eg) = Some (new_runner ?e w)"
    using assms(2) active by (simp add: execute_workflow_def Let_def create_task_def)
  have "task_done env w (eg_next eg) (x_id ?e) (run_task env (eg_next eg) ts eg1)"
    using assms(1,3) active live by (intro fresh_run) (simp_all add: execution_create_def)
  with eg1 show "\<exists>eg1 e. execute_workflow uid now wid xdata eg = (eg1, Inr e) \<and> x_id e = uid \<and>
      task_done env w (eg_next eg) uid (run_task env (eg_next eg) ts eg1)" by (simp add: execution_create_def)
next
  assume inside: "wr_from_node rdata = Some nid \<and> nid \<noteq> [] \<and> nid \<in> wn_id ` set (wf_nodes w) \<and>
    nid \<in> we_target ` set (wf_edges w)"
  obtain t ts' where "ts = t # ts'" using assms(3) by (cases ts) auto
  with replay_from_dependent_node_diverges [OF assms(2), of rdata nid uid now env t ts'] inside
  show "\<exists>eg1 e r. replay_workflow uid now wid rdata eg = (eg1, Inr e) \<and>
      dict_get (eg_live (run_task env (eg_next eg) ts eg1)) (eg_next eg) = Some r \<and>
      x_status (r_exec r) = RUNNING \<and> x_completed_nodes (r_exec r) = {}" by auto
qed

theorem replay_from_dependent_node_diverges_witness:
  "\<exists>eg1 e r. replay_workflow ''x'' 0 ''w'' \<lparr>wr_inputs = [], wr_version = None,
       wr_from_node = Some ''b'', wr_parent_execution_id = None\<rparr> sample_engine = (eg1, Inr e) \<and>
     dict_get (eg_live (run_task sample_env 0 (0 # replicate 100 0) eg1)) 0 = Some r \<and>
     x_status (r_exec r) = RUNNING \<and> x_completed_nodes (r_exec r) = {} \<and>
     dict_get (eg_executions (run_task sample_env 0 (0 # replicate 100 0) eg1)) ''x'' = Some (x_start e)"
  using replay_from_dependent_node_diverges [of sample_engine "''w''" sample_workflow
      "\<lparr>wr_inputs = [], wr_version = None, wr_from_node = Some ''b'', wr_parent_execution_id = None\<rparr>"
      "''b''" "''x''" 0 sample_env 0 "replicate 100 0"]
  by (simp add: sample_nodes_def sample_edges_def sample_node_def sample_edge_def)

text \<open>Resuming a paused execution whose start nodes (those without incoming edges) are all
  completed does not run the remaining nodes: the new task skips the completed start nodes
  without releasing their successors and marks the execution COMPLETED, with the same
  completed nodes and outputs as before.\<close>

theorem resume_completes_without_running:
  assumes "dict_get (eg_executions eg) eid = Some e" and "x_id e = eid" and "x_status e = PAUSED"
    and "dict_get (eg_workflows eg) (x_workflow_id e) = Some w"
    and "\<not> truthy (x_replay_from_node e)" and "x_failed_nodes e = {}"
    and "\<And>n. n \<in> set (wf_nodes w) \<Longrightarrow> wn_id n \<notin> we_target ` set (wf_edges w) \<Longrightarrow>
           wn_id n \<in> x_completed_nodes e"
    and "length (wf_nodes w) + 2 \<le> length ts"
  shows "\<exists>eg1 e1. resume_execution eid eg = (eg1, Inr (x_start e)) \<and>
           dict_get (eg_live (run_task env (eg_next eg) ts eg1)) (eg_next eg) = None \<and>
           dict_get (eg_executions (run_task env (eg_next eg) ts eg1)) eid = Some e1 \<and>
           x_status e1 = COMPLETED \<and> x_completed_nodes e1 = x_completed_nodes e \<and>
           x_node_outputs e1 = x_node_outputs e"
proof -
  let ?tid = "eg_next eg"
  obtain eg1 where eg1: "resume_execution eid eg = (eg1, Inr (x_start e))"
    and live: "dict_get (eg_live eg1) ?tid = Some (new_runner (x_start e) w)"
    using assms(1,3,4) by (simp add: resume_execution_def Let_def create_task_def)
  obtain t ts' where ts: "ts = t # ts'" using assms(8) by (cases ts) auto
  have st: "task_step env t ?tid eg1 = runner_begin ?tid (new_runner (x_start e) w) eg1"
    using live by (simp add: task_step_def new_runner_def)
  obtain r where r: "dict_get (eg_live (runner_begin ?tid (new_runner (x_start e) w) eg1)) ?tid = Some r"
    "drained_runner r" "r_exec r = x_start (x_start e)" "length (r_queue r) \<le> length (wf_nodes w)"
    using resume_begin_drained [of "x_start e" w ?tid eg1] assms(5-7) by (auto simp: x_start_def)
  from r(4) assms(8) ts have "length (r_queue r) + 1 \<le> length ts'" by simp
  from drained_run [OF r(2,1) this, of env] eg1 st ts r(3) assms(2) show ?thesis
    by (auto simp: x_complete_def x_start_def)
qed

theorem resume_completes_without_running_witness:
  "\<exists>eg1 e1. let e = x_pause (x_complete_node (x_start sample_exec) ''a'' PNone);
                eg = sample_engine\<lparr>eg_executions := [(''x'', e)]\<rparr> in
     resume_execution ''x'' eg = (eg1, Inr (x_start e)) \<and>
     dict_get (eg_live (run_task sample_env 0 (replicate 5 0) eg1)) 0 = None \<and>
     dict_get (eg_executions (run_task sample_env 0 (replicate 5 0) eg1)) ''x'' = Some e1 \<and>
     x_status e1 = COMPLETED \<and> x_completed_nodes e1 = {''a''} \<and> length (wf_nodes sample_workflow) = 3"
proof -
  define e where "e = x_pause (x_complete_node (x_start sample_exec) ''a'' PNone)"
  define eg where "eg = sample_engine\<lparr>eg_executions := [(''x'', e)]\<rparr>"
  have e: "x_id e = ''x''" "x_status e = PAUSED" "x_workflow_id e = ''w''" "x_replay_from_node e = None"
    "x_failed_nodes e = {}" "x_completed_nodes e = {''a''}"
    by (simp_all add: e_def sample_exec_def x_op_defs)
  have src: "wn_id n \<in> x_completed_nodes e" if "n \<in> set (wf_nodes sample_workflow)"
    "wn_id n \<notin> we_target ` set (wf_edges sample_workflow)" for n
    using that e(6)
    by (simp add: sample_nodes_def sample_edges_def, elim disjE) (simp_all add: sample_node_def sample_edge_def)
  from resume_completes_without_running [of eg "''x''" e sample_workflow "replicate 5 0" sample_env, OF _ e(1,2) _ _ e(5) src]
  have "\<exists>eg1 e1. resume_execution ''x'' eg = (eg1, Inr (x_start e)) \<and>
     dict_get (eg_live (run_task sample_env 0 (replicate 5 0) eg1)) 0 = None \<and>
     dict_get (eg_executions (run_task sample_env 0 (replicate 5 0) eg1)) ''x'' = Some e1 \<and>
     x_status e1 = COMPLETED \<and> x_completed_nodes e1 = {''a''}"
    using e by (simp add: eg_def sample_nodes_def) blast
  then show ?thesis by (simp add: e_def [symmetric] eg_def [symmetric] Let_def) (simp add: sample_nodes_def)
qed

text \<open>Approving a gate marks the execution RUNNING and its node completed, but creates no
  task: the set of live tasks is unchanged, and the execution cannot be resumed, because
  resuming requires PAUSED.\<close>

theorem approve_starts_no_task:
  assumes "approve_workflow t1 t2 wid adata eg = (eg1, Inr e)" and "wa_approved adata"
    and "\<forall>(k, x) \<in> set (eg_executions eg). x_id x = k"
  shows "dict_get (eg_executions eg1) (x_id e) = Some e \<and> x_status e = RUNNING \<and>
         wa_node_id adata \<in> x_completed_nodes e \<and>
         eg_live eg1 = eg_live eg \<and> eg_tasks eg1 = eg_tasks eg \<and>
         resume_execution (x_id e) eg1 =
           (eg1, Inl (ValueError ''Cannot resume execution in status running''))"
proof -
  obtain x where x: "find_awaiting wid (wa_node_id adata) eg = Some x"
    using assms(1) by (auto simp: approve_workflow_def split: option.splits)
  have e: "e = x_decide_approval x t1 t2 (wa_node_id adata) True (wa_decided_by adata) (wa_reason adata)"
    and eg1: "eg_executions eg1 = dict_set (eg_executions eg) (x_id x) e"
      "eg_live eg1 = eg_live eg" "eg_tasks eg1 = eg_tasks eg"
    using assms(1,2) x by (auto simp: approve_workflow_def Let_def)
  show ?thesis using e eg1 by (simp add: resume_execution_def)
qed

theorem approve_starts_no_task_witness:
  "let e0 = x_request_approval (x_start sample_exec) 0 ''b'' PNone;
       eg = sample_engine\<lparr>eg_executions := [(''x'', e0)]\<rparr>;
       ad = \<lparr>wa_node_id = ''b'', wa_approved = True, wa_decided_by = ''h'', wa_reason = None\<rparr>
   in \<exists>eg1 e. approve_workflow 1 1 ''w'' ad eg = (eg1, Inr e) \<and> x_status e = RUNNING \<and> eg_live eg1 = []"
proof -
  define e0 where "e0 = x_request_approval (x_start sample_exec) 0 ''b'' PNone"
  define eg where "eg = sample_engine\<lparr>eg_executions := [(''x'', e0)]\<rparr>"
  define ad where "ad = \<lparr>wa_node_id = ''b'', wa_approved = True, wa_decided_by = ''h'', wa_reason = None\<rparr>"
  have e0: "x_id e0 = ''x''" "x_status e0 = AWAITING_APPROVAL" "x_workflow_id e0 = ''w''"
    "x_pending_approval e0 = Some ''b''"
    by (simp_all add: e0_def sample_exec_def x_op_defs)
  have "\<exists>eg1 e. approve_workflow 1 1 ''w'' ad eg = (eg1, Inr e)"
    using e0 by (simp add: approve_workflow_def find_awaiting_def eg_def ad_def Let_def)
  then obtain eg1 e where ap: "approve_workflow 1 1 ''w'' ad eg = (eg1, Inr e)" by blast
  from approve_starts_no_task [OF ap] e0 have "x_status e = RUNNING \<and> eg_live eg1 = []"
    by (simp add: eg_def ad_def)
  with ap show ?thesis by (auto simp: Let_def e0_def eg_def ad_def)
qed

text \<open>Cancelling an execution whose background task has started stores the execution as
  CANCELLED but raises KeyError: the cancelled task has already removed its own entry from
  the task table when the operation deletes it again.\<close>

theorem cancel_running_raises_key_error:
  assumes "dict_get (eg_executions eg) eid = Some e"
    and "x_status e = RUNNING \<or> x_status e = PAUSED"
    and "dict_get (eg_tasks eg) eid = Some tid" and "dict_get (eg_live eg) tid = Some r"
    and "r_pc r \<noteq> RStart" and "x_id (r_exec r) = eid"
  shows "\<exists>eg1. cancel_execution t1 t2 eid eg = (eg1, Inl (KeyError eid)) \<and>
           dict_get (eg_executions eg1) eid = Some (x_cancel (r_exec r) t1) \<and>
           dict_get (eg_live eg1) tid = None"
  using assms by (auto simp: cancel_execution_def cancel_task_def Let_def)

theorem cancel_running_raises_key_error_witness:
  "let e = x_start sample_exec; r = (new_runner e sample_workflow)\<lparr>r_pc := RLoop\<rparr>;
       eg = sample_engine\<lparr>eg_executions := [(''x'', e)], eg_tasks := [(''x'', 0)], eg_live := [(0, r)]\<rparr>
   in \<exists>eg1. cancel_execution 1 1 ''x'' eg = (eg1, Inl (KeyError ''x''))"
  using cancel_running_raises_key_error [of "sample_engine\<lparr>eg_executions := [(''x'', x_start sample_exec)],
      eg_tasks := [(''x'', 0)], eg_live := [(0, (new_runner (x_start sample_exec) sample_workflow)\<lparr>r_pc := RLoop\<rparr>)]\<rparr>"
      "''x''" "x_start sample_exec" 0 "(new_runner (x_start sample_exec) sample_workflow)\<lparr>r_pc := RLoop\<rparr>" 1 1]
  by (auto simp: sample_exec_def x_start_def execution_create_def new_runner_def Let_def)

text \<open>Pausing does not stop a background task: the task works on its own copy of the
  execution, so when a node it was running returns, the copy is stored over the paused
  execution, which is RUNNING again, with the node completed.\<close>

theorem pause_is_overwritten_by_runner:
  assumes "dict_get (eg_executions eg) eid = Some e" and "x_status e = RUNNING"
    and "dict_get (eg_live eg) tid = Some r" and "r_pc r = RNode n"
    and "x_id (r_exec r) = eid" and "x_status (r_exec r) = RUNNING"
    and "execute_node env n (r_exec r) = Output out"
  shows "\<exists>eg1 e1 e2. pause_execution eid eg = (eg1, Inr e1) \<and> x_status e1 = PAUSED \<and>
           dict_get (eg_executions eg1) eid = Some e1 \<and>
           dict_get (eg_executions (task_step env now tid eg1)) eid = Some e2 \<and>
           x_status e2 = RUNNING \<and> wn_id n \<in> x_completed_nodes e2"
  using assms
  by (auto simp: pause_execution_def task_step_def runner_node_def Let_def x_pause_def x_complete_node_def
      split: prod.splits)

theorem pause_is_overwritten_by_runner_witness:
  "let e = x_start sample_exec; n = sample_node ''b'' N_LLM;
       r = (new_runner e sample_workflow)\<lparr>r_pc := RNode n\<rparr>;
       eg = sample_engine\<lparr>eg_executions := [(''x'', e)], eg_live := [(0, r)]\<rparr>
   in \<exists>eg1 e1 e2. pause_execution ''x'' eg = (eg1, Inr e1) \<and> x_status e1 = PAUSED \<and>
        dict_get (eg_executions (task_step sample_env 0 0 eg1)) ''x'' = Some e2 \<and> x_status e2 = RUNNING"
proof -
  define e where "e = x_start sample_exec"
  define n where "n = sample_node ''b'' N_LLM"
  define r where "r = (new_runner e sample_workflow)\<lparr>r_pc := RNode n\<rparr>"
  define eg where "eg = sample_engine\<lparr>eg_executions := [(''x'', e)], eg_live := [(0, r)]\<rparr>"
  have e: "x_id e = ''x''" "x_status e = RUNNING"
    by (simp_all add: e_def sample_exec_def x_start_def execution_create_def)
  have r: "r_exec r = e" "r_pc r = RNode n" by (simp_all add: r_def new_runner_def)
  obtain out where out: "execute_node sample_env n e = Output out"
    by (simp add: execute_node_def n_def sample_node_def Let_def)
  from pause_is_overwritten_by_runner [of eg "''x''" e 0 r n sample_env out 0] e r out show ?thesis
    by (auto simp: eg_def Let_def e_def [symmetric] n_def [symmetric] r_def [symmetric])
qed

text \<open>C4: Whatever sequence of public operations and task steps is run from a new engine, no
  stored workflow ever leaves the DRAFT status, so \<open>execute_workflow\<close> never succeeds: no
  operation of the engine calls \<open>Workflow.activate\<close>.\<close>

theorem engine_never_executes:
  assumes "reach engine_start (engine_step env) eg"
  shows "\<exists>msg. execute_workflow uid now wid xdata eg = (eg, Inl (ValueError msg))"
proof -
  have "engine_inv eg" using assms by (rule engine_machine.reach_inv)
  then have "wf_status w = WS_DRAFT" if "dict_get (eg_workflows eg) wid = Some w" for w
    using that workflows_okD by (auto simp: engine_inv_def)
  then show ?thesis by (auto simp: execute_workflow_def split: option.splits)
qed

lemma sample_reach:
  "reach engine_start (engine_step env)
     (fst (create_workflow ''w'' 0 0 \<lparr>wc_name = ''n'', wc_description = ''d'', wc_nodes = sample_nodes,
        wc_edges = sample_edges, wc_template_id = None, wc_created_by = ''u''\<rparr> engine_init))"
proof (rule reach_step)
  show "reach engine_start (engine_step env) engine_init"
    by (rule reach_init) (simp add: engine_start_def)
qed (rule es_create)

definition drafted_engine :: engine where
  "drafted_engine = fst (create_workflow ''w'' 0 0 \<lparr>wc_name = ''n'', wc_description = ''d'', wc_nodes = sample_nodes,
     wc_edges = sample_edges, wc_template_id = None, wc_created_by = ''u''\<rparr> engine_init)"

theorem workflow_run_ends_unless_replayed_inside_witness:
  "reach engine_start (engine_step sample_env) drafted_engine \<and>
   (\<exists>eg1 e. replay_workflow ''x'' 0 ''w'' \<lparr>wr_inputs = [], wr_version = None, wr_from_node = None,
        wr_parent_execution_id = None\<rparr> drafted_engine = (eg1, Inr e) \<and>
      dict_get (eg_live (run_task sample_env 0 (replicate 8 0) eg1)) 0 = None) \<and>
   (\<exists>eg1 e r. replay_workflow ''x'' 0 ''w'' \<lparr>wr_inputs = [], wr_version = None, wr_from_node = Some ''b'',
        wr_parent_execution_id = None\<rparr> drafted_engine = (eg1, Inr e) \<and>
      dict_get (eg_live (run_task sample_env 0 (replicate 100 0) eg1)) 0 = Some r)"
proof -
  let ?w = "workflow_create ''w'' 0 0 ''n'' ''d'' sample_nodes sample_edges None ''u''"
  have w: "dict_get (eg_workflows drafted_engine) ''w'' = Some ?w" "eg_next drafted_engine = 0"
    by (simp_all add: drafted_engine_def create_workflow_def workflow_create_def engine_init_def Let_def)
  have v: "vr_valid (validate_workflow (wf_nodes ?w) (wf_edges ?w))" "length (wf_nodes ?w) = 3"
    "''b'' \<in> wn_id ` set (wf_nodes ?w)" "''b'' \<in> we_target ` set (wf_edges ?w)"
    using sample_valid
    by (simp_all add: workflow_create_def) (simp_all add: sample_nodes_def sample_edges_def sample_node_def sample_edge_def)
  have "reach engine_start (engine_step sample_env) drafted_engine"
    unfolding drafted_engine_def by (rule sample_reach)
  moreover have "\<exists>eg1 e. replay_workflow ''x'' 0 ''w'' \<lparr>wr_inputs = [], wr_version = None, wr_from_node = None,
        wr_parent_execution_id = None\<rparr> drafted_engine = (eg1, Inr e) \<and>
      dict_get (eg_live (run_task sample_env 0 (replicate 8 0) eg1)) 0 = None"
  proof -
    have len: "2 * length (wf_nodes ?w) + 2 \<le> length (replicate 8 (0 :: real))" unfolding v(2) by simp
    have "\<not> truthy (wr_from_node \<lparr>wr_inputs = [], wr_version = None, wr_from_node = None, wr_parent_execution_id = None\<rparr>)"
      by simp
    then show ?thesis
      using workflow_run_ends_unless_replayed_inside [OF v(1) w(1) len, where uid = "''x''" and now = 0 and env = sample_env]
      unfolding w(2) task_done_def by blast
  qed
  moreover have "\<exists>eg1 e r. replay_workflow ''x'' 0 ''w'' \<lparr>wr_inputs = [], wr_version = None, wr_from_node = Some ''b'',
        wr_parent_execution_id = None\<rparr> drafted_engine = (eg1, Inr e) \<and>
      dict_get (eg_live (run_task sample_env 0 (replicate 100 0) eg1)) 0 = Some r"
  proof -
    have len: "2 * length (wf_nodes ?w) + 2 \<le> length (replicate 100 (0 :: real))" unfolding v(2) by simp
    have "wr_from_node \<lparr>wr_inputs = [], wr_version = None, wr_from_node = Some ''b'', wr_parent_execution_id = None\<rparr> =
        Some ''b'' \<and> ''b'' \<noteq> []" by simp
    then show ?thesis
      using workflow_run_ends_unless_replayed_inside [OF v(1) w(1) len, where uid = "''x''" and now = 0 and env = sample_env] v(3,4)
      unfolding w(2) by blast
  qed
  ultimately show ?thesis by blast
qed

theorem engine_never_executes_witness:
  "\<exists>msg eg. dict_get (eg_workflows eg) ''w'' \<noteq> None \<and>
     execute_workflow ''x'' 0 ''w'' \<lparr>wxd_inputs = [], wxd_version = None,
       wxd_parent_execution_id = None, wxd_replay_from_node = None\<rparr> eg = (eg, Inl (ValueError msg))"
proof -
  let ?eg = "fst (create_workflow ''w'' 0 0 \<lparr>wc_name = ''n'', wc_description = ''d'', wc_nodes = sample_nodes,
        wc_edges = sample_edges, wc_template_id = None, wc_created_by = ''u''\<rparr> engine_init)"
  have "dict_get (eg_workflows ?eg) ''w'' \<noteq> None"
    by (simp add: create_workflow_def workflow_create_def engine_init_def Let_def)
  with engine_never_executes [OF sample_reach [of sample_env]] show ?thesis by blast
qed

text \<open>C3: In every reachable state of the engine each stored execution is consistent: the
  completion time is set exactly in a final status, a failed execution has an error, only
  completed nodes have outputs, the nodes with an error are exactly the failed ones, the
  dictionary key is the execution's identifier, and every execution that is registered as
  running or that a live task works on is stored.\<close>

theorem engine_executions_consistent:
  assumes "reach engine_start (engine_step env) eg"
  shows "(dict_get (eg_executions eg) eid = Some e \<longrightarrow> x_id e = eid \<and> exec_wf e) \<and>
         (eid \<in> eg_running eg \<longrightarrow> dict_get (eg_executions eg) eid \<noteq> None) \<and>
         (dict_get (eg_live eg) tid = Some r \<longrightarrow> dict_get (eg_executions eg) (x_id (r_exec r)) \<noteq> None)"
proof -
  have inv: "engine_inv eg" using assms by (rule engine_machine.reach_inv)
  then have "dict_get (eg_executions eg) eid = Some e \<longrightarrow> x_id e = eid \<and> exec_wf e"
    using executions_okD by (auto simp: engine_inv_def)
  moreover have keys: "dict_get (eg_executions eg) k \<noteq> None" if "k \<in> fst ` set (eg_executions eg)" for k
    using that by (simp add: dict_get_None_iff del: not_None_eq)
  moreover have "eid \<in> eg_running eg \<longrightarrow> dict_get (eg_executions eg) eid \<noteq> None"
    using inv keys unfolding engine_inv_def by blast
  moreover have "dict_get (eg_live eg) tid = Some r \<longrightarrow> dict_get (eg_executions eg) (x_id (r_exec r)) \<noteq> None"
  proof
    assume "dict_get (eg_live eg) tid = Some r"
    with inv have "x_id (r_exec r) \<in> fst ` set (eg_executions eg)"
      using live_okD by (simp add: engine_inv_def)
    then show "dict_get (eg_executions eg) (x_id (r_exec r)) \<noteq> None" by (rule keys)
  qed
  ultimately show ?thesis by blast
qed

theorem engine_executions_consistent_witness:
  "let eg = fst (replay_workflow ''x'' 0 ''w'' \<lparr>wr_inputs = [], wr_version = None, wr_from_node = None,
        wr_parent_execution_id = None\<rparr>
      (fst (create_workflow ''w'' 0 0 \<lparr>wc_name = ''n'', wc_description = ''d'', wc_nodes = sample_nodes,
        wc_edges = sample_edges, wc_template_id = None, wc_created_by = ''u''\<rparr> engine_init)))
   in ''x'' \<in> eg_running eg \<and> dict_get (eg_executions eg) ''x'' \<noteq> None"
proof -
  let ?eg = "fst (replay_workflow ''x'' 0 ''w'' \<lparr>wr_inputs = [], wr_version = None, wr_from_node = None,
        wr_parent_execution_id = None\<rparr>
      (fst (create_workflow ''w'' 0 0 \<lparr>wc_name = ''n'', wc_description = ''d'', wc_nodes = sample_nodes,
        wc_edges = sample_edges, wc_template_id = None, wc_created_by = ''u''\<rparr> engine_init)))"
  have r: "reach engine_start (engine_step sample_env) ?eg"
    by (rule reach_step [OF sample_reach]) (rule es_replay)
  have "''x'' \<in> eg_running ?eg"
    by (simp add: replay_workflow_def create_workflow_def workflow_create_def engine_init_def Let_def
        create_task_def execution_create_def)
  with engine_executions_consistent [OF r, of "''x''"] show ?thesis by (simp add: Let_def)
qed

text \<open>An update that changes the node or edge identifiers stores the next version number
  in DRAFT status, and the previous version cannot be retrieved any more from any reachable
  state: the version history is never written.\<close>

theorem update_loses_previous_version:
  assumes "reach engine_start (engine_step env) eg"
    and "dict_get (eg_workflows eg) wid = Some w" and "structure_changed w udata"
  shows "\<exists>eg1 d. update_workflow now wid udata eg = (eg1, Inr d) \<and> wd_version d = wf_version w + 1 \<and>
           wd_status d = WS_DRAFT \<and> get_workflow_version wid (wf_version w + 1) eg1 = Some d \<and>
           get_workflow_version wid (wf_version w) eg1 = None"
proof -
  have "eg_versions eg = []" using engine_machine.reach_inv [OF assms(1)] by (simp add: engine_inv_def)
  with assms(2,3) show ?thesis
    by (simp add: update_workflow_def get_workflow_version_def Let_def new_version_def
        workflow_detail_from_workflow_def dict_get_or_def)
qed

theorem update_loses_previous_version_witness:
  "let eg = fst (create_workflow ''w'' 0 0 \<lparr>wc_name = ''n'', wc_description = ''d'', wc_nodes = sample_nodes,
        wc_edges = sample_edges, wc_template_id = None, wc_created_by = ''u''\<rparr> engine_init);
       u = \<lparr>wu_name = None, wu_description = None, wu_nodes = Some [], wu_edges = Some [], wu_updated_by = ''u''\<rparr>
   in \<exists>eg1 d. update_workflow 5 ''w'' u eg = (eg1, Inr d) \<and> get_workflow_version ''w'' 1 eg1 = None"
proof -
  let ?eg = "fst (create_workflow ''w'' 0 0 \<lparr>wc_name = ''n'', wc_description = ''d'', wc_nodes = sample_nodes,
        wc_edges = sample_edges, wc_template_id = None, wc_created_by = ''u''\<rparr> engine_init)"
  let ?w = "workflow_create ''w'' 0 0 ''n'' ''d'' sample_nodes sample_edges None ''u''"
  let ?u = "\<lparr>wu_name = None, wu_description = None, wu_nodes = Some [], wu_edges = Some [], wu_updated_by = ''u''\<rparr>"
  have w: "dict_get (eg_workflows ?eg) ''w'' = Some ?w"
    by (simp add: create_workflow_def workflow_create_def engine_init_def Let_def)
  have c: "structure_changed ?w ?u"
    by (simp add: structure_changed_def workflow_create_def sample_nodes_def)
  from update_loses_previous_version [OF sample_reach [of sample_env] w c, of 5] show ?thesis
    by (auto simp: Let_def workflow_create_def)
qed

end
