(* ===== verification/Circuit_Breaker.thy ===== *)
theory Circuit_Breaker
  imports Prelude
begin

text \<open>
  The circuit breaker of the provider router (\<open>core/omniroute/failover.py\<close>): the bounded
  failure windows, the per-provider state, the transition function and every public operation
  of \<open>CircuitBreakerEngineImpl\<close>. All operations run under the engine's lock, so each is one
  atomic step. \<open>mt\<close> and \<open>wt\<close> are the readings of \<open>time.monotonic()\<close> and
  \<open>datetime.now(UTC)\<close>; one reading of each serves all uses within an operation. Rates are exact
  quotients: for counts far below \<open>2^26\<close> the comparison of two such quotients has the same
  outcome in double precision. Published events are appended to \<open>cb_events\<close> when an event bus is
  configured (\<open>cb_bus\<close>).
\<close>

subsection \<open>Data\<close>

datatype failover_state =
  FS_CLOSED | FS_IDLE | FS_RETRYING | FS_FAILING_OVER | FS_OPEN | FS_HALF_OPEN | FS_RECOVERED

record cb_config =
  failure_threshold :: int
  minimum_request_count :: int
  recovery_timeout_seconds :: real
  half_open_probe_count :: int
  sliding_window_size :: int

definition default_cb_config :: cb_config where
  "default_cb_config =
     \<lparr>failure_threshold = 5, minimum_request_count = 3, recovery_timeout_seconds = 30,
      half_open_probe_count = 2, sliding_window_size = 10\<rparr>"

record sliding_window =
  sw_window :: "real list"
  sw_max_size :: nat

definition sw_new :: "nat \<Rightarrow> sliding_window" where
  "sw_new n = \<lparr>sw_window = [], sw_max_size = n\<rparr>"

definition sw_add :: "sliding_window \<Rightarrow> real \<Rightarrow> sliding_window" where
  "sw_add w t = w\<lparr>sw_window := deque_append (sw_max_size w) (sw_window w) t\<rparr>"

definition sw_count_in_window :: "real \<Rightarrow> sliding_window \<Rightarrow> real \<Rightarrow> int" where
  "sw_count_in_window now w since = int (length (filter (\<lambda>t. now - t < since) (sw_window w)))"

definition sw_full :: "sliding_window \<Rightarrow> bool" where
  "sw_full w \<longleftrightarrow> length (sw_window w) \<ge> sw_max_size w"

definition sw_clear :: "sliding_window \<Rightarrow> sliding_window" where
  "sw_clear w = w\<lparr>sw_window := []\<rparr>"

record provider_state =
  ps_provider :: string
  ps_config :: cb_config
  ps_state :: failover_state
  ps_success_count :: int
  ps_failure_count :: int
  ps_consecutive_failures :: int
  ps_total_requests :: int
  ps_last_failure_time :: "real option"
  ps_last_success_time :: "real option"
  ps_circuit_open_until :: "real option"
  ps_half_open_attempts :: int
  ps_half_open_probe_successes :: int
  ps_total_latency_ms :: real
  ps_latency_sample_count :: int
  ps_timeout_count :: int
  ps_http_failure_count :: int
  ps_auth_failure_count :: int
  ps_rate_limit_failure_count :: int
  ps_network_failure_count :: int
  ps_unavailable_count :: int
  ps_failures_window :: sliding_window
  ps_successes_window :: sliding_window
  ps_first_seen :: real
  ps_last_state_change :: real
  ps_total_trip_count :: int
  ps_total_recovery_count :: int
  ps_total_time_spent_open :: real

definition new_provider_state :: "string \<Rightarrow> cb_config \<Rightarrow> provider_state" where
  "new_provider_state provider cfg =
     \<lparr>ps_provider = provider, ps_config = cfg, ps_state = FS_CLOSED, ps_success_count = 0,
      ps_failure_count = 0, ps_consecutive_failures = 0, ps_total_requests = 0,
      ps_last_failure_time = None, ps_last_success_time = None, ps_circuit_open_until = None,
      ps_half_open_attempts = 0, ps_half_open_probe_successes = 0, ps_total_latency_ms = 0,
      ps_latency_sample_count = 0, ps_timeout_count = 0, ps_http_failure_count = 0,
      ps_auth_failure_count = 0, ps_rate_limit_failure_count = 0, ps_network_failure_count = 0,
      ps_unavailable_count = 0, ps_failures_window = sw_new 10, ps_successes_window = sw_new 10,
      ps_first_seen = 0, ps_last_state_change = 0, ps_total_trip_count = 0,
      ps_total_recovery_count = 0, ps_total_time_spent_open = 0\<rparr>"

text \<open>The reported ratios; Python's \<open>round\<close> to a number of digits is the parameter \<open>rnd\<close>.\<close>

definition failure_rate :: "(real \<Rightarrow> nat \<Rightarrow> real) \<Rightarrow> provider_state \<Rightarrow> real" where
  "failure_rate rnd ps =
     (let total = ps_success_count ps + ps_failure_count ps
      in if total = 0 then 0 else rnd (of_int (ps_failure_count ps) / of_int total) 4)"

definition average_latency_ms :: "(real \<Rightarrow> nat \<Rightarrow> real) \<Rightarrow> provider_state \<Rightarrow> real" where
  "average_latency_ms rnd ps =
     (if ps_latency_sample_count ps = 0 then 0
      else rnd (ps_total_latency_ms ps / of_int (ps_latency_sample_count ps)) 2)"

definition uptime_ratio :: "(real \<Rightarrow> nat \<Rightarrow> real) \<Rightarrow> real \<Rightarrow> provider_state \<Rightarrow> real" where
  "uptime_ratio rnd mt ps =
     (if ps_first_seen ps = 0 then 0
      else let elapsed = mt - ps_first_seen ps in
        if elapsed \<le> 0 then 1
        else rnd (max 0 (1 - ps_total_time_spent_open ps / elapsed)) 4)"

definition should_trip :: "real \<Rightarrow> provider_state \<Rightarrow> bool" where
  "should_trip mt ps =
     (let cfg = ps_config ps in
      if ps_total_requests ps < minimum_request_count cfg then False
      else if ps_consecutive_failures ps \<ge> failure_threshold cfg then True
      else if sw_full (ps_failures_window ps) then
        (let recent_failures = sw_count_in_window mt (ps_failures_window ps) 60;
             recent_successes = sw_count_in_window mt (ps_successes_window ps) 60;
             total_recent = recent_failures + recent_successes
         in if total_recent \<ge> minimum_request_count cfg then
              (let rate = (of_int recent_failures :: real) / of_int (max total_recent 1);
                   threshold = of_int (failure_threshold cfg) / of_int (max (sliding_window_size cfg) 1)
               in rate \<ge> threshold \<and> recent_failures \<ge> failure_threshold cfg)
            else False)
      else False)"

record cb_state_view =
  cs_provider :: string
  cs_state :: failover_state
  cs_failure_count :: int
  cs_success_count :: int
  cs_consecutive_failures :: int
  cs_last_failure :: "real option"
  cs_last_success :: "real option"
  cs_circuit_open_until :: "real option"
  cs_half_open_attempts :: int
  cs_half_open_probe_successes :: int
  cs_config :: cb_config

definition ps_snapshot :: "provider_state \<Rightarrow> cb_state_view" where
  "ps_snapshot ps =
     \<lparr>cs_provider = ps_provider ps, cs_state = ps_state ps, cs_failure_count = ps_failure_count ps,
      cs_success_count = ps_success_count ps, cs_consecutive_failures = ps_consecutive_failures ps,
      cs_last_failure = ps_last_failure_time ps, cs_last_success = ps_last_success_time ps,
      cs_circuit_open_until = ps_circuit_open_until ps,
      cs_half_open_attempts = ps_half_open_attempts ps,
      cs_half_open_probe_successes = ps_half_open_probe_successes ps, cs_config = ps_config ps\<rparr>"

record provider_circuit_metrics =
  pm_success_count :: int
  pm_failure_count :: int
  pm_consecutive_failures :: int
  pm_failure_rate :: real
  pm_last_failure :: "real option"
  pm_last_success :: "real option"
  pm_average_latency_ms :: real
  pm_timeout_count :: int
  pm_http_failures :: int
  pm_authentication_failures :: int
  pm_rate_limit_failures :: int
  pm_network_failures :: int
  pm_provider_unavailable_count :: int

definition ps_metric_snapshot ::
  "(real \<Rightarrow> nat \<Rightarrow> real) \<Rightarrow> provider_state \<Rightarrow> provider_circuit_metrics" where
  "ps_metric_snapshot rnd ps =
     \<lparr>pm_success_count = ps_success_count ps, pm_failure_count = ps_failure_count ps,
      pm_consecutive_failures = ps_consecutive_failures ps, pm_failure_rate = failure_rate rnd ps,
      pm_last_failure = ps_last_failure_time ps, pm_last_success = ps_last_success_time ps,
      pm_average_latency_ms = average_latency_ms rnd ps, pm_timeout_count = ps_timeout_count ps,
      pm_http_failures = ps_http_failure_count ps,
      pm_authentication_failures = ps_auth_failure_count ps,
      pm_rate_limit_failures = ps_rate_limit_failure_count ps,
      pm_network_failures = ps_network_failure_count ps,
      pm_provider_unavailable_count = ps_unavailable_count ps\<rparr>"

datatype cb_event =
    EV_OPENED string string int int real
  | EV_HALF_OPEN string string int
  | EV_CLOSED string string
  | EV_SUCCESS string failover_state int real
  | EV_FAILURE string string failover_state int int

record cb_engine =
  cb_bus :: bool
  cb_config_global :: cb_config
  cb_started :: bool
  cb_start_time :: real
  cb_providers :: "(string, provider_state) dict"
  cb_trip_count_total :: int
  cb_recovery_count_total :: int
  cb_state_transitions :: "(failover_state \<times> failover_state, int) dict"
  cb_events :: "cb_event list"

definition cb_init :: "bool \<Rightarrow> cb_config option \<Rightarrow> cb_engine" where
  "cb_init bus cfg =
     \<lparr>cb_bus = bus, cb_config_global = (case cfg of None \<Rightarrow> default_cb_config | Some c \<Rightarrow> c),
      cb_started = False, cb_start_time = 0, cb_providers = [], cb_trip_count_total = 0,
      cb_recovery_count_total = 0, cb_state_transitions = [], cb_events = []\<rparr>"

subsection \<open>Internal helpers\<close>

definition cb_publish :: "cb_event \<Rightarrow> cb_engine \<Rightarrow> cb_engine" where
  "cb_publish ev s = (if cb_bus s then s\<lparr>cb_events := cb_events s @ [ev]\<rparr> else s)"

definition cb_put :: "string \<Rightarrow> provider_state \<Rightarrow> cb_engine \<Rightarrow> cb_engine" where
  "cb_put p ps s = s\<lparr>cb_providers := dict_set (cb_providers s) p ps\<rparr>"

definition cb_get_or_create :: "real \<Rightarrow> string \<Rightarrow> cb_engine \<Rightarrow> cb_engine \<times> provider_state" where
  "cb_get_or_create mt p s =
     (case dict_get (cb_providers s) p of
        Some ps \<Rightarrow> (s, ps)
      | None \<Rightarrow>
          (let ps = (new_provider_state p (cb_config_global s))
                      \<lparr>ps_first_seen := mt, ps_last_state_change := mt\<rparr>
           in (cb_put p ps s, ps)))"

definition cb_transition ::
  "real \<Rightarrow> real \<Rightarrow> string \<Rightarrow> failover_state \<Rightarrow> string \<Rightarrow> cb_engine \<Rightarrow> cb_engine" where
  "cb_transition mt wt p to_state reason s =
     (let (s, ps) = cb_get_or_create mt p s; old = ps_state ps in
      if old = to_state then s
      else
        (let ps = ps\<lparr>ps_state := to_state, ps_last_state_change := mt\<rparr>;
             s = s\<lparr>cb_state_transitions :=
                     dict_set (cb_state_transitions s) (old, to_state)
                       (dict_get_or (cb_state_transitions s) (old, to_state) 0 + 1)\<rparr>
         in if to_state = FS_OPEN then
              (let ps = ps\<lparr>ps_total_trip_count := ps_total_trip_count ps + 1,
                           ps_circuit_open_until := Some (wt + recovery_timeout_seconds (ps_config ps))\<rparr>;
                   s = cb_put p ps (s\<lparr>cb_trip_count_total := cb_trip_count_total s + 1\<rparr>)
               in cb_publish (EV_OPENED p reason (ps_failure_count ps) (ps_consecutive_failures ps)
                                (recovery_timeout_seconds (ps_config ps))) s)
            else if to_state = FS_HALF_OPEN then
              (let ps = ps\<lparr>ps_half_open_attempts := 0, ps_half_open_probe_successes := 0\<rparr>
               in cb_publish (EV_HALF_OPEN p reason (ps_failure_count ps)) (cb_put p ps s))
            else if to_state = FS_CLOSED then
              (let (s, ps) =
                     (if old = FS_HALF_OPEN
                      then (s\<lparr>cb_recovery_count_total := cb_recovery_count_total s + 1\<rparr>,
                            ps\<lparr>ps_total_recovery_count := ps_total_recovery_count ps + 1\<rparr>)
                      else (s, ps));
                   ps = ps\<lparr>ps_consecutive_failures := 0, ps_half_open_attempts := 0,
                           ps_half_open_probe_successes := 0,
                           ps_failures_window := sw_clear (ps_failures_window ps)\<rparr>
               in cb_publish (EV_CLOSED p reason) (cb_put p ps s))
            else cb_put p ps s))"

subsection \<open>Public operations\<close>

definition cb_start :: "real \<Rightarrow> cb_engine \<Rightarrow> cb_engine" where
  "cb_start mt s = s\<lparr>cb_started := True, cb_start_time := mt\<rparr>"

definition cb_stop :: "cb_engine \<Rightarrow> cb_engine" where
  "cb_stop s = s\<lparr>cb_started := False\<rparr>"

definition cb_dispose :: "cb_engine \<Rightarrow> cb_engine" where
  "cb_dispose s =
     (cb_stop s)\<lparr>cb_providers := [], cb_trip_count_total := 0, cb_recovery_count_total := 0\<rparr>"

definition add_latency :: "real \<Rightarrow> provider_state \<Rightarrow> provider_state" where
  "add_latency latency_ms ps =
     (if latency_ms > 0
      then ps\<lparr>ps_total_latency_ms := ps_total_latency_ms ps + latency_ms,
              ps_latency_sample_count := ps_latency_sample_count ps + 1\<rparr>
      else ps)"

definition cb_record_success :: "real \<Rightarrow> real \<Rightarrow> string \<Rightarrow> real \<Rightarrow> cb_engine \<Rightarrow> cb_engine" where
  "cb_record_success mt wt p latency_ms s =
     (if \<not> cb_started s then s
      else
        (let (s, ps) = cb_get_or_create mt p s;
             ps = ps\<lparr>ps_success_count := ps_success_count ps + 1,
                     ps_total_requests := ps_total_requests ps + 1,
                     ps_consecutive_failures := 0,
                     ps_last_success_time := Some wt,
                     ps_successes_window := sw_add (ps_successes_window ps) mt\<rparr>;
             ps = add_latency latency_ms ps;
             s = (if ps_state ps = FS_HALF_OPEN then
                    (let ps = ps\<lparr>ps_half_open_probe_successes := ps_half_open_probe_successes ps + 1\<rparr>;
                         s = cb_put p ps s
                     in if ps_half_open_probe_successes ps \<ge> half_open_probe_count (ps_config ps)
                        then cb_transition mt wt p FS_CLOSED ''probe_success'' s else s)
                  else cb_put p ps s);
             (s, ps) = cb_get_or_create mt p s
         in cb_publish (EV_SUCCESS p (ps_state ps) (ps_success_count ps) latency_ms) s))"

definition classify_failure :: "string \<Rightarrow> provider_state \<Rightarrow> provider_state" where
  "classify_failure failure_type ps =
     (let ft = py_lower failure_type in
      if ft \<in> {''timeout'', ''deadline_exceeded''}
      then ps\<lparr>ps_timeout_count := ps_timeout_count ps + 1\<rparr>
      else if ft \<in> {''http'', ''http_error'', ''http_5xx'', ''http_4xx''}
      then ps\<lparr>ps_http_failure_count := ps_http_failure_count ps + 1\<rparr>
      else if ft \<in> {''auth'', ''authentication'', ''unauthorized'', ''forbidden''}
      then ps\<lparr>ps_auth_failure_count := ps_auth_failure_count ps + 1\<rparr>
      else if ft \<in> {''rate_limit'', ''rate_limited'', ''too_many_requests'', ''quota''}
      then ps\<lparr>ps_rate_limit_failure_count := ps_rate_limit_failure_count ps + 1\<rparr>
      else if ft \<in> {''network'', ''connection'', ''dns'', ''timeout''}
      then ps\<lparr>ps_network_failure_count := ps_network_failure_count ps + 1\<rparr>
      else if ft \<in> {''unavailable'', ''service_unavailable'', ''down'', ''503''}
      then ps\<lparr>ps_unavailable_count := ps_unavailable_count ps + 1\<rparr>
      else ps)"

definition cb_record_failure ::
  "real \<Rightarrow> real \<Rightarrow> string \<Rightarrow> string \<Rightarrow> real \<Rightarrow> cb_engine \<Rightarrow> cb_engine" where
  "cb_record_failure mt wt p failure_type latency_ms s =
     (if \<not> cb_started s then s
      else
        (let (s, ps) = cb_get_or_create mt p s;
             ps = ps\<lparr>ps_failure_count := ps_failure_count ps + 1,
                     ps_total_requests := ps_total_requests ps + 1,
                     ps_consecutive_failures := ps_consecutive_failures ps + 1,
                     ps_last_failure_time := Some wt,
                     ps_failures_window := sw_add (ps_failures_window ps) mt\<rparr>;
             ps = add_latency latency_ms (classify_failure failure_type ps);
             s = cb_put p ps s;
             s = (if ps_state ps = FS_CLOSED \<and> should_trip mt ps
                  then cb_transition mt wt p FS_OPEN ''failure_threshold_exceeded'' s
                  else if ps_state ps = FS_HALF_OPEN
                  then cb_transition mt wt p FS_OPEN ''probe_failed'' s
                  else s);
             (s, ps) = cb_get_or_create mt p s
         in cb_publish (EV_FAILURE p failure_type (ps_state ps) (ps_failure_count ps)
                          (ps_consecutive_failures ps)) s))"

definition cb_allow_request :: "real \<Rightarrow> real \<Rightarrow> string \<Rightarrow> cb_engine \<Rightarrow> cb_engine \<times> bool" where
  "cb_allow_request mt wt p s =
     (if \<not> cb_started s then (s, True)
      else
        (let (s, ps) = cb_get_or_create mt p s in
         if ps_state ps = FS_CLOSED then (s, True)
         else if ps_state ps = FS_OPEN then
           (case ps_circuit_open_until ps of
              None \<Rightarrow> (s, False)
            | Some until \<Rightarrow>
                if wt \<ge> until
                then (cb_transition mt wt p FS_HALF_OPEN ''recovery_timeout'' s, True)
                else (s, False))
         else if ps_state ps = FS_HALF_OPEN then
           (if ps_half_open_attempts ps < half_open_probe_count (ps_config ps)
            then (cb_put p (ps\<lparr>ps_half_open_attempts := ps_half_open_attempts ps + 1\<rparr>) s, True)
            else (s, False))
         else (s, True)))"

definition cb_reset :: "string \<Rightarrow> cb_engine \<Rightarrow> cb_engine \<times> bool" where
  "cb_reset p s =
     (case dict_get (cb_providers s) p of
        None \<Rightarrow> (s, False)
      | Some ps \<Rightarrow>
          (let new_ps = (new_provider_state p (ps_config ps))\<lparr>ps_first_seen := ps_first_seen ps\<rparr>;
               s = cb_put p new_ps s
           in (if ps_state ps = FS_OPEN
               then s\<lparr>cb_recovery_count_total := cb_recovery_count_total s + 1\<rparr> else s, True)))"

definition cb_trip :: "real \<Rightarrow> real \<Rightarrow> string \<Rightarrow> cb_engine \<Rightarrow> cb_engine \<times> bool" where
  "cb_trip mt wt p s =
     (cb_transition mt wt p FS_OPEN ''manual_trip'' (fst (cb_get_or_create mt p s)), True)"

definition cb_half_open :: "real \<Rightarrow> real \<Rightarrow> string \<Rightarrow> cb_engine \<Rightarrow> cb_engine \<times> bool" where
  "cb_half_open mt wt p s =
     (cb_transition mt wt p FS_HALF_OPEN ''manual_half_open'' (fst (cb_get_or_create mt p s)), True)"

definition cb_close :: "real \<Rightarrow> real \<Rightarrow> string \<Rightarrow> cb_engine \<Rightarrow> cb_engine \<times> bool" where
  "cb_close mt wt p s =
     (cb_transition mt wt p FS_CLOSED ''manual_close'' (fst (cb_get_or_create mt p s)), True)"

definition cb_provider_state :: "string \<Rightarrow> cb_engine \<Rightarrow> cb_state_view option" where
  "cb_provider_state p s = map_option ps_snapshot (dict_get (cb_providers s) p)"

definition cb_all_states :: "cb_engine \<Rightarrow> (string, cb_state_view) dict" where
  "cb_all_states s = map (\<lambda>(p, ps). (p, ps_snapshot ps)) (cb_providers s)"

definition cb_provider_metrics ::
  "(real \<Rightarrow> nat \<Rightarrow> real) \<Rightarrow> string \<Rightarrow> cb_engine \<Rightarrow> provider_circuit_metrics option" where
  "cb_provider_metrics rnd p s = map_option (ps_metric_snapshot rnd) (dict_get (cb_providers s) p)"

definition cb_healthy_providers :: "cb_engine \<Rightarrow> string list" where
  "cb_healthy_providers s =
     map fst (filter (\<lambda>(p, ps). ps_state ps \<noteq> FS_OPEN \<and> ps_state ps \<noteq> FS_IDLE) (cb_providers s))"

definition cb_open_providers :: "cb_engine \<Rightarrow> string list" where
  "cb_open_providers s = map fst (filter (\<lambda>(p, ps). ps_state ps = FS_OPEN) (cb_providers s))"

definition cb_health :: "cb_engine \<Rightarrow> string \<times> bool \<times> nat \<times> nat" where
  "cb_health s =
     (if cb_started s then ''healthy'' else ''stopped'', cb_started s, length (cb_providers s),
      length (filter (\<lambda>ps. ps_state ps = FS_OPEN) (dict_values (cb_providers s))))"

record cb_statistics_view =
  st_tracked_providers :: nat
  st_state_distribution :: "(failover_state, int) dict"
  st_total_failures :: int
  st_total_successes :: int
  st_total_trips :: int
  st_total_recoveries :: int
  st_avg_latency_ms :: real
  st_engine_uptime_seconds :: real
  st_state_transitions :: "(failover_state \<times> failover_state, int) dict"

definition cb_statistics :: "(real \<Rightarrow> nat \<Rightarrow> real) \<Rightarrow> real \<Rightarrow> cb_engine \<Rightarrow> cb_statistics_view" where
  "cb_statistics rnd mt s =
     (let pss = dict_values (cb_providers s);
          states0 = map (\<lambda>t. (t, 0)) [FS_CLOSED, FS_IDLE, FS_RETRYING, FS_FAILING_OVER, FS_OPEN,
                                    FS_HALF_OPEN, FS_RECOVERED];
          states = fold (\<lambda>ps d. dict_set d (ps_state ps) (dict_get_or d (ps_state ps) 0 + 1)) pss states0;
          samples = sum_list (map ps_latency_sample_count pss)
      in \<lparr>st_tracked_providers = length (cb_providers s), st_state_distribution = states,
          st_total_failures = sum_list (map ps_failure_count pss),
          st_total_successes = sum_list (map ps_success_count pss),
          st_total_trips = sum_list (map ps_total_trip_count pss),
          st_total_recoveries = sum_list (map ps_total_recovery_count pss),
          st_avg_latency_ms =
            rnd (sum_list (map ps_total_latency_ms pss) / of_int (max samples 1)) 2,
          st_engine_uptime_seconds = rnd (if cb_started s then mt - cb_start_time s else 0) 2,
          st_state_transitions = cb_state_transitions s\<rparr>)"

subsection \<open>The abstract circuit of one provider\<close>

text \<open>
  Specification level: what each operation does to the circuit of one provider, as pure
  functions. The engine refines it: an operation on \<open>p\<close> replaces the circuit of \<open>p\<close> by the
  specified one and leaves every other circuit alone.
\<close>

definition slot :: "real \<Rightarrow> string \<Rightarrow> cb_engine \<Rightarrow> provider_state" where
  "slot mt p s =
     (case dict_get (cb_providers s) p of
        Some ps \<Rightarrow> ps
      | None \<Rightarrow> (new_provider_state p (cb_config_global s))\<lparr>ps_first_seen := mt, ps_last_state_change := mt\<rparr>)"

definition ps_transition :: "real \<Rightarrow> real \<Rightarrow> failover_state \<Rightarrow> provider_state \<Rightarrow> provider_state" where
  "ps_transition mt wt to_state ps =
     (if ps_state ps = to_state then ps
      else case to_state of
        FS_OPEN \<Rightarrow>
          ps\<lparr>ps_state := FS_OPEN, ps_last_state_change := mt,
             ps_total_trip_count := ps_total_trip_count ps + 1,
             ps_circuit_open_until := Some (wt + recovery_timeout_seconds (ps_config ps))\<rparr>
      | FS_HALF_OPEN \<Rightarrow>
          ps\<lparr>ps_state := FS_HALF_OPEN, ps_last_state_change := mt,
             ps_half_open_attempts := 0, ps_half_open_probe_successes := 0\<rparr>
      | FS_CLOSED \<Rightarrow>
          ps\<lparr>ps_state := FS_CLOSED, ps_last_state_change := mt,
             ps_total_recovery_count :=
               (if ps_state ps = FS_HALF_OPEN then ps_total_recovery_count ps + 1
                else ps_total_recovery_count ps),
             ps_consecutive_failures := 0, ps_half_open_attempts := 0,
             ps_half_open_probe_successes := 0,
             ps_failures_window := sw_clear (ps_failures_window ps)\<rparr>
      | _ \<Rightarrow> ps\<lparr>ps_state := to_state, ps_last_state_change := mt\<rparr>)"

definition ps_succeed :: "real \<Rightarrow> real \<Rightarrow> real \<Rightarrow> provider_state \<Rightarrow> provider_state" where
  "ps_succeed mt wt latency_ms ps =
     (let ps = add_latency latency_ms
                 (ps\<lparr>ps_success_count := ps_success_count ps + 1,
                     ps_total_requests := ps_total_requests ps + 1,
                     ps_consecutive_failures := 0, ps_last_success_time := Some wt,
                     ps_successes_window := sw_add (ps_successes_window ps) mt\<rparr>)
      in if ps_state ps = FS_HALF_OPEN then
           (let ps = ps\<lparr>ps_half_open_probe_successes := ps_half_open_probe_successes ps + 1\<rparr>
            in if ps_half_open_probe_successes ps \<ge> half_open_probe_count (ps_config ps)
               then ps_transition mt wt FS_CLOSED ps else ps)
         else ps)"

definition ps_failed :: "real \<Rightarrow> real \<Rightarrow> string \<Rightarrow> real \<Rightarrow> provider_state \<Rightarrow> provider_state" where
  "ps_failed mt wt failure_type latency_ms ps =
     (let ps = add_latency latency_ms (classify_failure failure_type
                 (ps\<lparr>ps_failure_count := ps_failure_count ps + 1,
                     ps_total_requests := ps_total_requests ps + 1,
                     ps_consecutive_failures := ps_consecutive_failures ps + 1,
                     ps_last_failure_time := Some wt,
                     ps_failures_window := sw_add (ps_failures_window ps) mt\<rparr>))
      in if ps_state ps = FS_CLOSED \<and> should_trip mt ps \<or> ps_state ps = FS_HALF_OPEN
         then ps_transition mt wt FS_OPEN ps else ps)"

definition ps_allow :: "real \<Rightarrow> real \<Rightarrow> provider_state \<Rightarrow> provider_state \<times> bool" where
  "ps_allow mt wt ps =
     (case ps_state ps of
        FS_OPEN \<Rightarrow>
          (case ps_circuit_open_until ps of
             None \<Rightarrow> (ps, False)
           | Some until \<Rightarrow>
               if wt \<ge> until then (ps_transition mt wt FS_HALF_OPEN ps, True) else (ps, False))
      | FS_HALF_OPEN \<Rightarrow>
          (if ps_half_open_attempts ps < half_open_probe_count (ps_config ps)
           then (ps\<lparr>ps_half_open_attempts := ps_half_open_attempts ps + 1\<rparr>, True)
           else (ps, False))
      | _ \<Rightarrow> (ps, True))"

lemma cb_put_sel [simp]:
  "cb_providers (cb_put p ps s) = dict_set (cb_providers s) p ps"
  "cb_config_global (cb_put p ps s) = cb_config_global s" "cb_started (cb_put p ps s) = cb_started s"
  by (simp_all add: cb_put_def)

lemma cb_publish_sel [simp]:
  "cb_providers (cb_publish ev s) = cb_providers s"
  "cb_config_global (cb_publish ev s) = cb_config_global s" "cb_started (cb_publish ev s) = cb_started s"
  by (simp_all add: cb_publish_def)

lemma get_or_create_snd [simp]: "snd (cb_get_or_create mt p s) = slot mt p s"
  by (simp add: cb_get_or_create_def slot_def Let_def split: option.splits)

lemma get_or_create_get [simp]:
  "dict_get (cb_providers (fst (cb_get_or_create mt p s))) q =
     (if q = p then Some (slot mt p s) else dict_get (cb_providers s) q)"
  by (simp add: cb_get_or_create_def slot_def Let_def split: option.splits)

lemma get_or_create_sel [simp]:
  "cb_config_global (fst (cb_get_or_create mt p s)) = cb_config_global s"
  "cb_started (fst (cb_get_or_create mt p s)) = cb_started s"
  by (simp_all add: cb_get_or_create_def Let_def split: option.splits)

lemma slot_get: "dict_get (cb_providers s) p = Some ps \<Longrightarrow> slot mt p s = ps"
  by (simp add: slot_def)

lemma get_or_create_existing:
  "dict_get (cb_providers s) p = Some ps \<Longrightarrow> cb_get_or_create mt p s = (s, ps)"
  by (simp add: cb_get_or_create_def)

lemma transition_get [simp]:
  "dict_get (cb_providers (cb_transition mt wt p to_state reason s)) q =
     (if q = p then Some (ps_transition mt wt to_state (slot mt p s)) else dict_get (cb_providers s) q)"
  by (cases to_state)
     (auto simp: cb_transition_def ps_transition_def case_prod_beta Let_def)

lemma transition_sel [simp]:
  "cb_config_global (cb_transition mt wt p to_state reason s) = cb_config_global s"
  "cb_started (cb_transition mt wt p to_state reason s) = cb_started s"
  by (simp_all add: cb_transition_def case_prod_beta Let_def)

lemma slot_put [simp]: "slot mt p (cb_put p ps s) = ps"
  by (simp add: slot_def)

lemma slot_publish [simp]: "slot mt p (cb_publish ev s) = slot mt p s"
  by (simp add: slot_def split: option.splits)

lemma slot_get_or_create [simp]: "slot mt p (fst (cb_get_or_create mt' p s)) = slot mt' p s"
  by (simp add: slot_def [of mt])

lemma slot_transition [simp]:
  "slot mt p (cb_transition mt' wt p to_state reason s) = ps_transition mt' wt to_state (slot mt' p s)"
  by (simp add: slot_def [of mt])

lemma add_latency_sel [simp]:
  "ps_state (add_latency l ps) = ps_state ps" "ps_config (add_latency l ps) = ps_config ps"
  "ps_half_open_probe_successes (add_latency l ps) = ps_half_open_probe_successes ps"
  "ps_half_open_attempts (add_latency l ps) = ps_half_open_attempts ps"
  "ps_circuit_open_until (add_latency l ps) = ps_circuit_open_until ps"
  "ps_consecutive_failures (add_latency l ps) = ps_consecutive_failures ps"
  "ps_failure_count (add_latency l ps) = ps_failure_count ps"
  "ps_success_count (add_latency l ps) = ps_success_count ps"
  "ps_total_requests (add_latency l ps) = ps_total_requests ps"
  "ps_failures_window (add_latency l ps) = ps_failures_window ps"
  "ps_successes_window (add_latency l ps) = ps_successes_window ps"
  "ps_total_time_spent_open (add_latency l ps) = ps_total_time_spent_open ps"
  "ps_provider (add_latency l ps) = ps_provider ps" "ps_first_seen (add_latency l ps) = ps_first_seen ps"
  by (simp_all add: add_latency_def)

lemma classify_sel [simp]:
  "ps_state (classify_failure ft ps) = ps_state ps" "ps_config (classify_failure ft ps) = ps_config ps"
  "ps_half_open_probe_successes (classify_failure ft ps) = ps_half_open_probe_successes ps"
  "ps_half_open_attempts (classify_failure ft ps) = ps_half_open_attempts ps"
  "ps_circuit_open_until (classify_failure ft ps) = ps_circuit_open_until ps"
  "ps_consecutive_failures (classify_failure ft ps) = ps_consecutive_failures ps"
  "ps_failure_count (classify_failure ft ps) = ps_failure_count ps"
  "ps_success_count (classify_failure ft ps) = ps_success_count ps"
  "ps_total_requests (classify_failure ft ps) = ps_total_requests ps"
  "ps_failures_window (classify_failure ft ps) = ps_failures_window ps"
  "ps_successes_window (classify_failure ft ps) = ps_successes_window ps"
  "ps_total_time_spent_open (classify_failure ft ps) = ps_total_time_spent_open ps"
  "ps_provider (classify_failure ft ps) = ps_provider ps"
  "ps_first_seen (classify_failure ft ps) = ps_first_seen ps"
  by (simp_all add: classify_failure_def Let_def)

lemma record_success_get:
  "cb_started s \<Longrightarrow>
   dict_get (cb_providers (cb_record_success mt wt p l s)) q =
     (if q = p then Some (ps_succeed mt wt l (slot mt p s)) else dict_get (cb_providers s) q)"
  by (simp add: cb_record_success_def ps_succeed_def case_prod_beta Let_def)

lemma record_failure_get:
  "cb_started s \<Longrightarrow>
   dict_get (cb_providers (cb_record_failure mt wt p ft l s)) q =
     (if q = p then Some (ps_failed mt wt ft l (slot mt p s)) else dict_get (cb_providers s) q)"
  by (simp add: cb_record_failure_def ps_failed_def case_prod_beta Let_def)

lemma allow_request_get:
  "cb_started s \<Longrightarrow>
   dict_get (cb_providers (fst (cb_allow_request mt wt p s))) q =
     (if q = p then Some (fst (ps_allow mt wt (slot mt p s))) else dict_get (cb_providers s) q) \<and>
   snd (cb_allow_request mt wt p s) = snd (ps_allow mt wt (slot mt p s))"
  by (cases "ps_state (slot mt p s)")
     (auto simp: cb_allow_request_def ps_allow_def case_prod_beta Let_def
        split: option.splits)

end
