(* ===== verification/Circuit_Breaker_Laws.thy ===== *)
theory Circuit_Breaker_Laws
  imports Circuit_Breaker
begin

text \<open>
  What the circuit breaker guarantees: the invariant of every tracked circuit over all
  sequences of operations, isolation of the circuits of different providers, when a circuit
  trips, how long it blocks, how many probes it admits and when it closes again.
\<close>

subsection \<open>The machine of all operations\<close>

inductive cb_step :: "cb_engine \<Rightarrow> cb_engine \<Rightarrow> bool" where
  st_start: "cb_step s (cb_start mt s)"
| st_stop: "cb_step s (cb_stop s)"
| st_dispose: "cb_step s (cb_dispose s)"
| st_success: "cb_step s (cb_record_success mt wt p l s)"
| st_failure: "cb_step s (cb_record_failure mt wt p ft l s)"
| st_allow: "cb_step s (fst (cb_allow_request mt wt p s))"
| st_reset: "cb_step s (fst (cb_reset p s))"
| st_trip: "cb_step s (fst (cb_trip mt wt p s))"
| st_half_open: "cb_step s (fst (cb_half_open mt wt p s))"
| st_close: "cb_step s (fst (cb_close mt wt p s))"

definition cb_initial :: "cb_engine \<Rightarrow> bool" where
  "cb_initial s \<longleftrightarrow> (\<exists>bus cfg. s = cb_init bus cfg)"

definition window_ok :: "sliding_window \<Rightarrow> bool" where
  "window_ok w \<longleftrightarrow> sw_max_size w = 10 \<and> length (sw_window w) \<le> 10"

definition circuit_ok :: "cb_config \<Rightarrow> string \<Rightarrow> provider_state \<Rightarrow> bool" where
  "circuit_ok cfg p ps \<longleftrightarrow>
     ps_provider ps = p \<and> ps_config ps = cfg \<and>
     ps_state ps \<in> {FS_CLOSED, FS_OPEN, FS_HALF_OPEN} \<and>
     (ps_state ps = FS_OPEN \<longrightarrow> ps_circuit_open_until ps \<noteq> None) \<and>
     (ps_state ps = FS_CLOSED \<longrightarrow> ps_half_open_attempts ps = 0 \<and> ps_half_open_probe_successes ps = 0) \<and>
     0 \<le> ps_half_open_attempts ps \<and> ps_half_open_attempts ps \<le> max 0 (half_open_probe_count cfg) \<and>
     0 \<le> ps_half_open_probe_successes ps \<and>
     ps_half_open_probe_successes ps \<le> max 0 (half_open_probe_count cfg - 1) \<and>
     0 \<le> ps_success_count ps \<and> 0 \<le> ps_consecutive_failures ps \<and>
     ps_consecutive_failures ps \<le> ps_failure_count ps \<and>
     ps_total_requests ps = ps_success_count ps + ps_failure_count ps \<and>
     window_ok (ps_failures_window ps) \<and> window_ok (ps_successes_window ps) \<and>
     ps_total_time_spent_open ps = 0"

definition cb_ok :: "cb_engine \<Rightarrow> bool" where
  "cb_ok s \<longleftrightarrow>
     (\<forall>p ps. dict_get (cb_providers s) p = Some ps \<longrightarrow> circuit_ok (cb_config_global s) p ps)"

lemma window_ok_new [simp]: "window_ok (sw_new 10)"
  by (simp add: window_ok_def sw_new_def)

lemma window_ok_clear [simp]: "window_ok w \<Longrightarrow> window_ok (sw_clear w)"
  by (simp add: window_ok_def sw_clear_def)

lemma window_ok_add [simp]: "window_ok w \<Longrightarrow> window_ok (sw_add w t)"
  by (simp add: window_ok_def sw_add_def length_deque_append)

lemma circuit_ok_new [simp]:
  "circuit_ok cfg p (new_provider_state p cfg)"
  "circuit_ok cfg p (ps\<lparr>ps_first_seen := a\<rparr>) = circuit_ok cfg p ps"
  "circuit_ok cfg p (ps\<lparr>ps_last_state_change := a\<rparr>) = circuit_ok cfg p ps"
  by (simp_all add: circuit_ok_def new_provider_state_def)

lemma circuit_ok_slot: "cb_ok s \<Longrightarrow> circuit_ok (cb_config_global s) p (slot mt p s)"
  by (simp add: slot_def cb_ok_def split: option.splits)

lemma circuit_ok_transition [simp]:
  "circuit_ok cfg p ps \<Longrightarrow> st \<in> {FS_CLOSED, FS_OPEN, FS_HALF_OPEN} \<Longrightarrow>
   circuit_ok cfg p (ps_transition mt wt st ps)"
  by (cases "ps_state ps = st") (auto simp: circuit_ok_def ps_transition_def)

lemma circuit_ok_add_latency [simp]: "circuit_ok cfg p (add_latency l ps) = circuit_ok cfg p ps"
  by (simp add: circuit_ok_def)

lemma circuit_ok_classify [simp]: "circuit_ok cfg p (classify_failure ft ps) = circuit_ok cfg p ps"
  by (simp add: circuit_ok_def)

lemma circuit_ok_succeed: "circuit_ok cfg p ps \<Longrightarrow> circuit_ok cfg p (ps_succeed mt wt l ps)"
  by (simp add: ps_succeed_def Let_def circuit_ok_def ps_transition_def max_def)
     (auto split: if_splits)

lemma circuit_ok_count_failure [simp]:
  "circuit_ok cfg p ps \<Longrightarrow>
   circuit_ok cfg p
     (ps\<lparr>ps_failure_count := ps_failure_count ps + 1, ps_total_requests := ps_total_requests ps + 1,
        ps_consecutive_failures := ps_consecutive_failures ps + 1, ps_last_failure_time := t,
        ps_failures_window := sw_add (ps_failures_window ps) now\<rparr>)"
  by (simp add: circuit_ok_def)

lemma circuit_ok_failed: "circuit_ok cfg p ps \<Longrightarrow> circuit_ok cfg p (ps_failed mt wt ft l ps)"
  by (simp add: ps_failed_def Let_def)

lemma circuit_ok_allow: "circuit_ok cfg p ps \<Longrightarrow> circuit_ok cfg p (fst (ps_allow mt wt ps))"
  by (auto simp: ps_allow_def circuit_ok_def ps_transition_def split: failover_state.splits option.splits)

lemmas circuit_ok_ops = circuit_ok_succeed circuit_ok_failed circuit_ok_allow circuit_ok_transition

lemma cb_ok_update:
  assumes "cb_ok s" "cb_config_global s' = cb_config_global s"
    and "\<And>q. dict_get (cb_providers s') q = (if q = p then Some ps else dict_get (cb_providers s) q)"
    and "circuit_ok (cb_config_global s) p ps"
  shows "cb_ok s'"
  using assms by (auto simp: cb_ok_def)

lemma ops_config [simp]:
  "cb_config_global (cb_record_success mt wt p l s) = cb_config_global s"
  "cb_config_global (cb_record_failure mt wt p ft l s) = cb_config_global s"
  "cb_config_global (fst (cb_allow_request mt wt p s)) = cb_config_global s"
  "cb_config_global (fst (cb_reset p s)) = cb_config_global s"
  by (simp_all add: cb_record_success_def cb_record_failure_def cb_allow_request_def cb_reset_def
      case_prod_beta Let_def split: option.splits)

lemma ops_started [simp]:
  "cb_started (cb_record_success mt wt p l s) = cb_started s"
  "cb_started (cb_record_failure mt wt p ft l s) = cb_started s"
  "cb_started (fst (cb_allow_request mt wt p s)) = cb_started s"
  by (simp_all add: cb_record_success_def cb_record_failure_def cb_allow_request_def
      case_prod_beta Let_def split: option.splits)

lemma ops_not_started:
  "\<not> cb_started s \<Longrightarrow> cb_record_success mt wt p l s = s"
  "\<not> cb_started s \<Longrightarrow> cb_record_failure mt wt p ft l s = s"
  "\<not> cb_started s \<Longrightarrow> cb_allow_request mt wt p s = (s, True)"
  by (simp_all add: cb_record_success_def cb_record_failure_def cb_allow_request_def)

lemma cb_ok_success: "cb_ok s \<Longrightarrow> cb_ok (cb_record_success mt wt p l s)"
  by (cases "cb_started s")
     (simp_all add: ops_not_started cb_ok_update [OF _ _ record_success_get] circuit_ok_succeed circuit_ok_slot)

lemma cb_ok_failure: "cb_ok s \<Longrightarrow> cb_ok (cb_record_failure mt wt p ft l s)"
  by (cases "cb_started s")
     (simp_all add: ops_not_started cb_ok_update [OF _ _ record_failure_get] circuit_ok_failed circuit_ok_slot)

lemma cb_ok_allow: "cb_ok s \<Longrightarrow> cb_ok (fst (cb_allow_request mt wt p s))"
  by (cases "cb_started s")
     (simp_all add: ops_not_started cb_ok_update [OF _ _ allow_request_get [THEN conjunct1]] circuit_ok_allow circuit_ok_slot)

lemma cb_ok_manual:
  "cb_ok s \<Longrightarrow> st \<in> {FS_CLOSED, FS_OPEN, FS_HALF_OPEN} \<Longrightarrow>
   cb_ok (cb_transition mt wt p st r (fst (cb_get_or_create mt p s)))"
  by (rule cb_ok_update [of s _ p "ps_transition mt wt st (slot mt p s)"])
     (simp_all add: circuit_ok_slot)

lemma cb_ok_reset: "cb_ok s \<Longrightarrow> cb_ok (fst (cb_reset p s))"
  by (auto simp: cb_reset_def Let_def cb_ok_def split: option.splits)
     (metis circuit_ok_def circuit_ok_new(1))+

interpretation cb_machine: invariant_machine cb_initial cb_step cb_ok
proof unfold_locales
  show "cb_ok s" if "cb_initial s" for s
    using that by (auto simp: cb_initial_def cb_init_def cb_ok_def)
  show "cb_ok t" if "cb_ok s" "cb_step s t" for s t
    using that(2,1)
    by (cases rule: cb_step.cases)
       (auto simp: cb_ok_success cb_ok_failure cb_ok_allow cb_ok_reset cb_trip_def cb_half_open_def
          cb_close_def cb_ok_manual, auto simp: cb_start_def cb_stop_def cb_dispose_def cb_ok_def)
qed

subsection \<open>Counting failures\<close>

definition record_failures ::
  "string \<Rightarrow> (real \<times> real \<times> string \<times> real) list \<Rightarrow> cb_engine \<Rightarrow> cb_engine" where
  "record_failures p fs s = fold (\<lambda>(mt, wt, ft, l). cb_record_failure mt wt p ft l) fs s"

definition record_successes :: "string \<Rightarrow> (real \<times> real \<times> real) list \<Rightarrow> cb_engine \<Rightarrow> cb_engine" where
  "record_successes p ls s = fold (\<lambda>(mt, wt, l). cb_record_success mt wt p l) ls s"

definition trip_point :: "cb_config \<Rightarrow> int" where
  "trip_point cfg = max (failure_threshold cfg) (minimum_request_count cfg)"

definition failing :: "cb_config \<Rightarrow> int \<Rightarrow> provider_state \<Rightarrow> bool" where
  "failing cfg n ps \<longleftrightarrow>
     ps_config ps = cfg \<and> ps_consecutive_failures ps = n \<and> ps_total_requests ps = n \<and>
     int (length (sw_window (ps_failures_window ps))) \<le> n \<and>
     ps_state ps = (if trip_point cfg \<le> n then FS_OPEN else FS_CLOSED)"

lemma count_in_window_le: "sw_count_in_window now w since \<le> int (length (sw_window w))"
  by (simp add: sw_count_in_window_def)

lemma should_trip_consecutive:
  assumes "ps_consecutive_failures ps = ps_total_requests ps"
    and "int (length (sw_window (ps_failures_window ps))) \<le> ps_total_requests ps"
  shows "should_trip mt ps \<longleftrightarrow> trip_point (ps_config ps) \<le> ps_total_requests ps"
  using assms count_in_window_le [of mt "ps_failures_window ps" 60]
  by (auto simp: should_trip_def trip_point_def Let_def)

lemma failing_fresh:
  "dict_get (cb_providers s) p = None \<Longrightarrow> 1 \<le> failure_threshold (cb_config_global s) \<Longrightarrow>
   failing (cb_config_global s) 0 (slot mt p s)"
  by (simp add: failing_def slot_def new_provider_state_def sw_new_def trip_point_def)

lemma failing_Suc: "failing cfg n ps \<Longrightarrow> failing cfg (n + 1) (ps_failed mt wt ft l ps)"
  by (auto simp: failing_def ps_failed_def Let_def ps_transition_def should_trip_consecutive
      sw_add_def length_deque_append)

lemma slot_failed:
  "cb_started s \<Longrightarrow> slot mt' p (cb_record_failure mt wt p ft l s) = ps_failed mt wt ft l (slot mt p s)"
  by (simp add: slot_def [of mt'] record_failure_get)

lemma slot_succeeded:
  "cb_started s \<Longrightarrow> slot mt' p (cb_record_success mt wt p l s) = ps_succeed mt wt l (slot mt p s)"
  by (simp add: slot_def [of mt'] record_success_get)

lemma failing_fold:
  "cb_started s \<Longrightarrow> (\<And>mt. failing cfg n (slot mt p s)) \<Longrightarrow>
   failing cfg (n + int (length fs)) (slot mt p (record_failures p fs s))"
proof (induction fs arbitrary: s n)
  case Nil
  then show ?case by (simp add: record_failures_def)
next
  case (Cons f fs)
  obtain a b c d where f: "f = (a, b, c, d)" by (cases f)
  let ?s = "cb_record_failure a b p c d s"
  have "failing cfg (n + 1 + int (length fs)) (slot mt p (record_failures p fs ?s))"
    using Cons.prems by (intro Cons.IH) (simp_all add: slot_failed failing_Suc)
  then show ?case by (simp add: record_failures_def f algebra_simps)
qed

lemma started_failures: "cb_started s \<Longrightarrow> cb_started (record_failures p fs s)"
  by (induction fs arbitrary: s) (auto simp: record_failures_def)

lemma tracked_after_failures:
  "cb_started s \<Longrightarrow> fs \<noteq> [] \<Longrightarrow>
   dict_get (cb_providers (record_failures p fs s)) p = Some (slot mt p (record_failures p fs s))"
proof (induction fs arbitrary: s rule: rev_induct)
  case (snoc f fs)
  show ?case
    using started_failures [of s p fs] snoc.prems by (cases f) (simp add: record_failures_def record_failure_get slot_failed)
qed simp

subsection \<open>Refusals\<close>

definition circuit_open_at :: "string \<Rightarrow> real \<Rightarrow> cb_engine \<Rightarrow> bool" where
  "circuit_open_at p until s \<longleftrightarrow>
     cb_started s \<and> (\<exists>ps. dict_get (cb_providers s) p = Some ps \<and> ps_state ps = FS_OPEN \<and>
                         ps_circuit_open_until ps = Some until)"

definition probes_exhausted :: "string \<Rightarrow> cb_engine \<Rightarrow> bool" where
  "probes_exhausted p s \<longleftrightarrow>
     cb_started s \<and> (\<exists>ps. dict_get (cb_providers s) p = Some ps \<and> ps_state ps = FS_HALF_OPEN \<and>
                         half_open_probe_count (ps_config ps) \<le> ps_half_open_attempts ps)"

abbreviation allow_at :: "string \<Rightarrow> real \<times> real \<Rightarrow> cb_engine \<Rightarrow> cb_engine \<times> bool" where
  "allow_at p \<equiv> (\<lambda>(mt, wt). cb_allow_request mt wt p)"

interpretation open_circuit: refusing_idle "allow_at p" "\<lambda>(mt, wt). wt < until" "circuit_open_at p until" False
  for p until
  by unfold_locales
     (auto simp: circuit_open_at_def cb_allow_request_def get_or_create_existing)

interpretation spent_circuit: refusing_idle "allow_at p" "\<lambda>_. True" "probes_exhausted p" False
  for p
  by unfold_locales
     (auto simp: probes_exhausted_def cb_allow_request_def get_or_create_existing)

lemma probes_run:
  assumes "cb_started s" "dict_get (cb_providers s) p = Some ps" "ps_state ps = FS_HALF_OPEN"
    and "k = nat (half_open_probe_count (ps_config ps) - ps_half_open_attempts ps)"
  shows "snd (run_calls (allow_at p) ts s) =
           replicate (min (length ts) k) True @ replicate (length ts - k) False"
  using assms
proof (induction ts arbitrary: s ps k)
  case (Cons t ts)
  obtain mt wt where t: "t = (mt, wt)" by (cases t)
  show ?case
  proof (cases k)
    case 0
    then have "probes_exhausted p s" using Cons.prems by (auto simp: probes_exhausted_def)
    from spent_circuit.run_refused_idle [OF this, of "t # ts"] 0 show ?thesis
      by (simp add: list_all_iff del: run_calls.simps)
  next
    case (Suc j)
    let ?ps = "ps\<lparr>ps_half_open_attempts := ps_half_open_attempts ps + 1\<rparr>"
    have step: "cb_allow_request mt wt p s = (cb_put p ?ps s, True)"
      using Cons.prems Suc by (simp add: cb_allow_request_def get_or_create_existing)
    have "snd (run_calls (allow_at p) ts (cb_put p ?ps s)) =
            replicate (min (length ts) j) True @ replicate (length ts - j) False"
      using Cons.prems Suc by (intro Cons.IH [of _ ?ps]) simp_all
    then show ?thesis by (auto simp: t step Suc split: prod.splits)
  qed
qed simp

lemma allow_recovers:
  assumes "circuit_open_at p until s" "until \<le> wt"
  obtains ps where "cb_started (fst (cb_allow_request mt wt p s))" "snd (cb_allow_request mt wt p s)"
    and "dict_get (cb_providers (fst (cb_allow_request mt wt p s))) p = Some ps"
    and "ps_state ps = FS_HALF_OPEN" "ps_half_open_attempts ps = 0" "ps_half_open_probe_successes ps = 0"
    and "ps_config ps = ps_config (slot mt p s)"
proof -
  obtain ps where ps: "cb_started s" "dict_get (cb_providers s) p = Some ps" "ps_state ps = FS_OPEN"
    "ps_circuit_open_until ps = Some until" using assms(1) by (auto simp: circuit_open_at_def)
  then have "slot mt p s = ps" by (simp add: slot_get)
  with ps assms(2) show ?thesis
    by (intro that [of "ps_transition mt wt FS_HALF_OPEN ps"])
       (simp_all add: allow_request_get ps_allow_def ps_transition_def)
qed

lemma tripped_open_at:
  assumes "cb_started s" "ps_state (slot mt p s) \<noteq> FS_OPEN"
  shows "circuit_open_at p (wt + recovery_timeout_seconds (ps_config (slot mt p s)))
           (fst (cb_trip mt wt p s))"
  using assms by (simp add: circuit_open_at_def cb_trip_def ps_transition_def)

subsection \<open>Recovery\<close>

definition probing :: "cb_config \<Rightarrow> int \<Rightarrow> provider_state \<Rightarrow> bool" where
  "probing cfg n ps \<longleftrightarrow>
     ps_config ps = cfg \<and>
     (if n \<ge> max 1 (half_open_probe_count cfg) then ps_state ps = FS_CLOSED
      else ps_state ps = FS_HALF_OPEN \<and> ps_half_open_probe_successes ps = n)"

lemma probing_Suc: "0 \<le> n \<Longrightarrow> probing cfg n ps \<Longrightarrow> probing cfg (n + 1) (ps_succeed mt wt l ps)"
  by (auto simp: probing_def ps_succeed_def Let_def ps_transition_def split: if_splits)

lemma probing_fold:
  "cb_started s \<Longrightarrow> 0 \<le> n \<Longrightarrow> (\<And>mt. probing cfg n (slot mt p s)) \<Longrightarrow>
   probing cfg (n + int (length ls)) (slot mt p (record_successes p ls s))"
proof (induction ls arbitrary: s n)
  case Nil
  then show ?case by (simp add: record_successes_def)
next
  case (Cons f ls)
  obtain a b c where f: "f = (a, b, c)" by (cases f)
  let ?s = "cb_record_success a b p c s"
  have "probing cfg (n + 1 + int (length ls)) (slot mt p (record_successes p ls ?s))"
    using Cons.prems by (intro Cons.IH) (simp_all add: slot_succeeded probing_Suc)
  then show ?case by (simp add: record_successes_def f algebra_simps)
qed

lemma started_successes: "cb_started s \<Longrightarrow> cb_started (record_successes p ls s)"
  by (induction ls arbitrary: s) (auto simp: record_successes_def)

lemma slot_tracked:
  "dict_get (cb_providers s) p \<noteq> None \<Longrightarrow>
   map_option cs_state (cb_provider_state p s) = Some (ps_state (slot mt p s))"
  by (auto simp: cb_provider_state_def ps_snapshot_def slot_def)

lemma tracked_after_successes:
  "dict_get (cb_providers s) p \<noteq> None \<Longrightarrow> dict_get (cb_providers (record_successes p ls s)) p \<noteq> None"
proof (induction ls arbitrary: s)
  case (Cons f ls)
  obtain a b c where f: "f = (a, b, c)" by (cases f)
  have "dict_get (cb_providers (cb_record_success a b p c s)) p \<noteq> None"
    using Cons.prems by (cases "cb_started s") (auto simp: record_success_get ops_not_started)
  from Cons.IH [OF this] show ?case by (simp add: f record_successes_def)
qed (simp add: record_successes_def)

subsection \<open>Properties\<close>

text \<open>C5: In every state the engine can reach, each tracked circuit is CLOSED, OPEN or HALF_OPEN,
  an OPEN circuit has a reopening time, probe attempts and successes stay within the probe
  budget (and are zero when CLOSED), the counters add up, and the windows hold at most ten
  entries.\<close>

theorem circuits_stay_well_formed:
  assumes "reach cb_initial cb_step s" "dict_get (cb_providers s) p = Some ps"
  shows "circuit_ok (cb_config_global s) p ps"
  using cb_machine.reach_inv [OF assms(1)] assms(2) by (simp add: cb_ok_def)

lemma failures_elsewhere:
  "q \<noteq> p \<Longrightarrow> dict_get (cb_providers (record_failures p fs s)) q = dict_get (cb_providers s) q"
proof (induction fs arbitrary: s)
  case (Cons f fs)
  obtain mt wt ft l where f: "f = (mt, wt, ft, l)" by (cases f)
  have "dict_get (cb_providers (cb_record_failure mt wt p ft l s)) q = dict_get (cb_providers s) q"
    using Cons.prems by (cases "cb_started s") (simp_all add: record_failure_get ops_not_started)
  then show ?case using Cons.IH [OF Cons.prems, of "cb_record_failure mt wt p ft l s"]
    by (simp add: record_failures_def f)
qed (simp add: record_failures_def)

text \<open>C6: A provider that only fails, starting untracked, has an OPEN circuit exactly when the
  number of recorded failures has reached both the failure threshold and the minimal request
  count, whatever the failures are and whenever they come; before that it is CLOSED. The circuits
  of all other providers stay as they were.\<close>

theorem trips_exactly_at_threshold:
  assumes "cb_started s" "dict_get (cb_providers s) p = None"
    and "1 \<le> failure_threshold (cb_config_global s)" "fs \<noteq> []"
  shows "map_option cs_state (cb_provider_state p (record_failures p fs s)) =
           Some (if failure_threshold (cb_config_global s) \<le> int (length fs) \<and>
                    minimum_request_count (cb_config_global s) \<le> int (length fs)
                 then FS_OPEN else FS_CLOSED) \<and>
         (\<forall>q. q \<noteq> p \<longrightarrow>
            dict_get (cb_providers (record_failures p fs s)) q = dict_get (cb_providers s) q)"
  using failing_fold [OF assms(1) failing_fresh [OF assms(2,3)], of fs 0] failures_elsewhere [of _ p fs s]
    slot_tracked [of "record_failures p fs s" p 0] tracked_after_failures [OF assms(1,4), of p 0]
  by (simp add: failing_def trip_point_def)

text \<open>C7: After a trip at wall-clock time \<open>wt\<close>, every request before \<open>wt\<close> plus the recovery
  timeout is refused and changes nothing, however many there are; the first request at or after
  that time is admitted and finds the circuit HALF_OPEN.\<close>

theorem open_circuit_blocks_until_timeout:
  assumes "cb_started s" "ps_state (slot mt p s) \<noteq> FS_OPEN"
    and "until = wt + recovery_timeout_seconds (ps_config (slot mt p s))"
    and "s' = fst (cb_trip mt wt p s)"
    and "list_all (\<lambda>(mt, wt). wt < until) ts" "until \<le> wt'"
  shows "run_calls (allow_at p) ts s' = (s', replicate (length ts) False) \<and>
         snd (cb_allow_request mt' wt' p s') \<and>
         map_option cs_state (cb_provider_state p (fst (cb_allow_request mt' wt' p s'))) = Some FS_HALF_OPEN"
proof -
  have o: "circuit_open_at p until s'" using tripped_open_at [OF assms(1,2)] assms(3,4) by simp
  show ?thesis
    using open_circuit.run_refused_idle [OF o assms(5)]
    by (auto intro: allow_recovers [OF o assms(6), of mt'] simp: cb_provider_state_def ps_snapshot_def)
qed

text \<open>Once the timeout has passed, if no outcome is recorded, the circuit admits exactly one
  request more than the configured probe count and then refuses every request, at whatever
  time it comes: the request that causes the transition is not counted as a probe.\<close>

theorem half_open_admits_one_extra_then_blocks:
  assumes "circuit_open_at p until s" "until \<le> wt"
    and "k = Suc (nat (half_open_probe_count (ps_config (slot mt p s))))"
  shows "snd (run_calls (allow_at p) ((mt, wt) # ts) s) =
           replicate (min (Suc (length ts)) k) True @ replicate (Suc (length ts) - k) False"
proof -
  obtain ps where ps: "cb_started (fst (cb_allow_request mt wt p s))" "snd (cb_allow_request mt wt p s)"
    "dict_get (cb_providers (fst (cb_allow_request mt wt p s))) p = Some ps"
    "ps_state ps = FS_HALF_OPEN" "ps_half_open_attempts ps = 0" "ps_config ps = ps_config (slot mt p s)"
    using allow_recovers [OF assms(1,2), of mt] by metis
  from probes_run [OF ps(1,3,4) refl, of ts] ps(2,5,6) assms(3) show ?thesis
    by (auto split: prod.splits)
qed

text \<open>From a circuit that has just become HALF_OPEN, \<open>n\<close> successes close it exactly when
  \<open>n\<close> reaches the probe count (at least one); a failure recorded before that reopens it for a
  full recovery timeout.\<close>

theorem probe_outcomes_decide_recovery:
  assumes "cb_started s" "dict_get (cb_providers s) p = Some ps" "ps_state ps = FS_HALF_OPEN"
    and "ps_half_open_probe_successes ps = 0"
    and "need = max 1 (half_open_probe_count (ps_config ps))"
  shows "map_option cs_state (cb_provider_state p (record_successes p ls s)) =
           Some (if need \<le> int (length ls) then FS_CLOSED else FS_HALF_OPEN) \<and>
         (int (length ls) < need \<longrightarrow>
          circuit_open_at p (wt + recovery_timeout_seconds (ps_config ps))
            (cb_record_failure mt wt p ft l (record_successes p ls s)))"
proof -
  have pr: "probing (ps_config ps) (int (length ls)) (slot mt p (record_successes p ls s))" for mt
    using probing_fold [OF assms(1), of 0 "ps_config ps" p ls mt] assms(2-4)
    by (simp add: probing_def slot_get)
  have tr: "dict_get (cb_providers (record_successes p ls s)) p \<noteq> None"
    using assms(2) by (simp add: tracked_after_successes)
  have "map_option cs_state (cb_provider_state p (record_successes p ls s)) =
          Some (if need \<le> int (length ls) then FS_CLOSED else FS_HALF_OPEN)"
    using pr [of 0] assms(5) unfolding slot_tracked [OF tr, of 0]
    by (simp add: probing_def split: if_splits)
  moreover have "circuit_open_at p (wt + recovery_timeout_seconds (ps_config ps))
          (cb_record_failure mt wt p ft l (record_successes p ls s))" if "int (length ls) < need"
    using pr [of mt] that assms(5) started_successes [OF assms(1), of p ls]
    by (auto simp: circuit_open_at_def record_failure_get probing_def ps_failed_def Let_def
        ps_transition_def split: if_splits)
  ultimately show ?thesis by blast
qed

text \<open>The reported uptime ratio of a tracked provider does not depend on how long its circuit
  was open: in every reachable state it is the rounding of 1 once time has passed since the
  provider was first seen.\<close>

theorem uptime_ratio_ignores_open_time:
  assumes "reach cb_initial cb_step s" "dict_get (cb_providers s) p = Some ps"
  shows "uptime_ratio rnd mt ps =
           (if ps_first_seen ps = 0 then 0 else if mt \<le> ps_first_seen ps then 1 else rnd 1 4)"
  using cb_machine.reach_inv [OF assms(1)] assms(2)
  by (auto simp: cb_ok_def circuit_ok_def uptime_ratio_def Let_def)

subsection \<open>Witnesses\<close>

text \<open>A started engine with the default configuration: threshold 5, minimum 3, two probes.\<close>

definition demo_breaker :: cb_engine where
  "demo_breaker = cb_start 0 (cb_init False None)"

lemma demo_breaker_sel [simp]:
  "cb_started demo_breaker" "cb_providers demo_breaker = []"
  "cb_config_global demo_breaker = default_cb_config"
  by (simp_all add: demo_breaker_def cb_start_def cb_init_def)

lemma demo_slot [simp]:
  "ps_state (slot mt p demo_breaker) = FS_CLOSED" "ps_config (slot mt p demo_breaker) = default_cb_config"
  by (simp_all add: slot_def new_provider_state_def)

lemma demo_trip_open: "circuit_open_at ''p'' 31 (fst (cb_trip 1 1 ''p'' demo_breaker))"
  using tripped_open_at [of demo_breaker 1 "''p''" 1] by (simp add: default_cb_config_def)

lemma demo_reach: "reach cb_initial cb_step (fst (cb_trip 1 1 ''p'' demo_breaker))"
proof -
  have "reach cb_initial cb_step (cb_init False None)" by (rule reach_init) (auto simp: cb_initial_def)
  then have "reach cb_initial cb_step demo_breaker"
    unfolding demo_breaker_def by (rule reach_step) (rule st_start)
  then show ?thesis by (rule reach_step) (rule st_trip)
qed

lemma demo_trip_get:
  "dict_get (cb_providers (fst (cb_trip 1 1 ''p'' demo_breaker))) ''p'' =
     Some (ps_transition 1 1 FS_OPEN (slot 1 ''p'' demo_breaker))"
  by (simp add: cb_trip_def)

theorem circuits_stay_well_formed_witness:
  "circuit_ok default_cb_config ''p'' (ps_transition 1 1 FS_OPEN (slot 1 ''p'' demo_breaker))"
  using circuits_stay_well_formed [OF demo_reach demo_trip_get] by (simp add: cb_trip_def)

theorem trips_exactly_at_threshold_witness:
  "map_option cs_state (cb_provider_state ''p''
     (record_failures ''p'' (replicate 4 (1, 1, ''http'', 0)) demo_breaker)) = Some FS_CLOSED \<and>
   map_option cs_state (cb_provider_state ''p''
     (record_failures ''p'' (replicate 5 (1, 1, ''http'', 0)) demo_breaker)) = Some FS_OPEN"
  using trips_exactly_at_threshold [of demo_breaker "''p''" "replicate 4 (1, 1, ''http'', 0)"]
    trips_exactly_at_threshold [of demo_breaker "''p''" "replicate 5 (1, 1, ''http'', 0)"]
  by (simp add: default_cb_config_def)

theorem open_circuit_blocks_until_timeout_witness:
  "snd (run_calls (allow_at ''p'') [(2, 2), (30, 30)] (fst (cb_trip 1 1 ''p'' demo_breaker))) = [False, False] \<and>
   snd (cb_allow_request 31 31 ''p'' (fst (cb_trip 1 1 ''p'' demo_breaker)))"
  using open_circuit_blocks_until_timeout
    [of demo_breaker 1 "''p''" 31 1 "fst (cb_trip 1 1 ''p'' demo_breaker)" "[(2, 2), (30, 30)]" 31 31]
  by (simp add: default_cb_config_def)

theorem half_open_admits_one_extra_then_blocks_witness:
  "snd (run_calls (allow_at ''p'') [(31, 31), (32, 32), (33, 33), (34, 34), (99, 99)]
     (fst (cb_trip 1 1 ''p'' demo_breaker))) = [True, True, True, False, False]"
  using half_open_admits_one_extra_then_blocks
    [OF demo_trip_open, of 31 3 31 "[(32, 32), (33, 33), (34, 34), (99, 99)]"]
  by (simp add: slot_get [OF demo_trip_get] ps_transition_def default_cb_config_def numeral_eq_Suc)

theorem probe_outcomes_decide_recovery_witness:
  "map_option cs_state (cb_provider_state ''p''
     (record_successes ''p'' [(1, 1, 0), (2, 2, 0)] (fst (cb_half_open 0 0 ''p'' demo_breaker)))) =
   Some FS_CLOSED"
  using probe_outcomes_decide_recovery
    [of "fst (cb_half_open 0 0 ''p'' demo_breaker)" "''p''"
        "ps_transition 0 0 FS_HALF_OPEN (slot 0 ''p'' demo_breaker)" 2 "[(1, 1, 0), (2, 2, 0)]"]
  by (simp add: cb_half_open_def ps_transition_def default_cb_config_def)

theorem uptime_ratio_ignores_open_time_witness:
  "uptime_ratio (\<lambda>x _. x) 100 (ps_transition 1 1 FS_OPEN (slot 1 ''p'' demo_breaker)) = 1"
  using uptime_ratio_ignores_open_time [OF demo_reach demo_trip_get, of "\<lambda>x _. x" 100]
  by (simp add: ps_transition_def slot_def split: if_splits)

end
