(* ===== verification/Heapq.thy ===== *)
theory Heapq
  imports Prelude
begin

text \<open>
  The functions of Python's standard module \<open>heapq\<close> that the scheduler's deadline queue uses,
  on lists of key-value pairs compared by their keys, as the reference implementation in
  CPython defines them: \<open>_siftdown\<close> moves an item towards the root, \<open>_siftup\<close> moves the smaller
  children up until the hole is a leaf and then sifts the item down from there. They implement a
  minimum queue, whose contract is the locale \<open>min_queue\<close>.
\<close>

subsection \<open>Algorithms\<close>

type_synonym ('k, 'v) heap = "('k \<times> 'v) list"

function siftdown_loop :: "('k::linorder, 'v) heap \<Rightarrow> nat \<Rightarrow> nat \<Rightarrow> 'k \<times> 'v \<Rightarrow> ('k, 'v) heap \<times> nat" where
  "siftdown_loop heap startpos pos newitem =
     (if pos > startpos then
        (let parentpos = (pos - 1) div 2; parent = heap ! parentpos in
         if fst newitem < fst parent
         then siftdown_loop (heap[pos := parent]) startpos parentpos newitem
         else (heap, pos))
      else (heap, pos))"
  by pat_completeness auto
termination by (relation "measure (\<lambda>(_, _, pos, _). pos)") auto

declare siftdown_loop.simps [simp del]

definition siftdown :: "('k::linorder, 'v) heap \<Rightarrow> nat \<Rightarrow> nat \<Rightarrow> ('k, 'v) heap" where
  "siftdown heap startpos pos =
     (let newitem = heap ! pos; (heap, pos) = siftdown_loop heap startpos pos newitem
      in heap[pos := newitem])"

function siftup_loop :: "('k::linorder, 'v) heap \<Rightarrow> nat \<Rightarrow> ('k, 'v) heap \<times> nat" where
  "siftup_loop heap pos =
     (let childpos = 2 * pos + 1 in
      if childpos < length heap then
        (let rightpos = childpos + 1;
             childpos = (if rightpos < length heap \<and> \<not> fst (heap ! childpos) < fst (heap ! rightpos)
                         then rightpos else childpos)
         in siftup_loop (heap[pos := heap ! childpos]) childpos)
      else (heap, pos))"
  by pat_completeness auto
termination by (relation "measure (\<lambda>(heap, pos). length heap - pos)") (auto simp: Let_def)

declare siftup_loop.simps [simp del]

definition siftup :: "('k::linorder, 'v) heap \<Rightarrow> nat \<Rightarrow> ('k, 'v) heap" where
  "siftup heap pos =
     (let newitem = heap ! pos; (heap, pos') = siftup_loop heap pos
      in siftdown (heap[pos' := newitem]) pos pos')"

definition heappush :: "('k::linorder, 'v) heap \<Rightarrow> 'k \<times> 'v \<Rightarrow> ('k, 'v) heap" where
  "heappush heap item = siftdown (heap @ [item]) 0 (length heap)"

text \<open>\<open>heappop\<close> raises \<open>IndexError\<close> on an empty list.\<close>

definition heappop :: "('k::linorder, 'v) heap \<Rightarrow> (('k \<times> 'v) \<times> ('k, 'v) heap) result" where
  "heappop heap =
     (if heap = [] then Inl IndexError
      else
        (let lastelt = last heap; heap = butlast heap in
         if heap \<noteq> [] then Inr (heap ! 0, siftup (heap[0 := lastelt]) 0)
         else Inr (lastelt, heap)))"

subsection \<open>Heap order\<close>

definition par :: "nat \<Rightarrow> nat" where
  "par i = (i - 1) div 2"

definition key_at :: "('k, 'v) heap \<Rightarrow> nat \<Rightarrow> 'k" where
  "key_at h i = fst (h ! i)"

lemma par_less: "0 < i \<Longrightarrow> par i < i"
  by (simp add: par_def)

lemma par_eq_iff: "0 < i \<Longrightarrow> par i = pos \<longleftrightarrow> i = 2 * pos + 1 \<or> i = 2 * pos + 2"
  by (auto simp: par_def)

definition heap_ok :: "('k::linorder, 'v) heap \<Rightarrow> bool" where
  "heap_ok h \<longleftrightarrow> (\<forall>i. 0 < i \<and> i < length h \<longrightarrow> key_at h (par i) \<le> key_at h i)"

text \<open>Heap order except possibly between \<open>pos\<close> and its parent.\<close>

definition heap_up_to :: "('k::linorder, 'v) heap \<Rightarrow> nat \<Rightarrow> bool" where
  "heap_up_to h pos \<longleftrightarrow>
     (\<forall>i. 0 < i \<and> i < length h \<and> i \<noteq> pos \<longrightarrow> key_at h (par i) \<le> key_at h i) \<and>
     (\<forall>i. 0 < i \<and> i < length h \<and> par i = pos \<and> 0 < pos \<longrightarrow> key_at h (par pos) \<le> key_at h i)"

text \<open>Heap order of everything but a hole at \<open>pos\<close>.\<close>

definition heap_hole :: "('k::linorder, 'v) heap \<Rightarrow> nat \<Rightarrow> bool" where
  "heap_hole h pos \<longleftrightarrow>
     (\<forall>i. 0 < i \<and> i < length h \<and> i \<noteq> pos \<and> par i \<noteq> pos \<longrightarrow> key_at h (par i) \<le> key_at h i) \<and>
     (\<forall>i. 0 < i \<and> i < length h \<and> par i = pos \<and> 0 < pos \<longrightarrow> key_at h (par pos) \<le> key_at h i)"

lemma key_at_update:
  "pos < length h \<Longrightarrow> key_at (h[pos := x]) i = (if i = pos then fst x else key_at h i)"
  by (simp add: key_at_def nth_list_update)

text \<open>The loops only move elements, whether or not the list is a heap.\<close>

lemma siftdown_loop_unfold:
  "siftdown_loop h a pos x =
     (if a < pos \<and> fst x < key_at h (par pos)
      then siftdown_loop (h[pos := h ! par pos]) a (par pos) x else (h, pos))"
  by (subst siftdown_loop.simps) (simp add: Let_def par_def key_at_def)

lemma siftdown_loop_mset:
  "pos < length h \<Longrightarrow> siftdown_loop h a pos x = (h', pos') \<Longrightarrow>
   length h' = length h \<and> pos' < length h \<and> mset (h'[pos' := x]) = mset (h[pos := x])"
proof (induction pos arbitrary: h rule: less_induct)
  case (less pos)
  show ?case
  proof (cases "a < pos \<and> fst x < key_at h (par pos)")
    case True
    then have p: "par pos < pos" "par pos < length h" using less.prems(1) par_less [of pos] by auto
    have "mset ((h[pos := h ! par pos])[par pos := x]) = mset (h[pos := x])"
      using mset_swap [of "par pos" "h[pos := x]" pos] p less.prems(1) by simp
    moreover have "siftdown_loop (h[pos := h ! par pos]) a (par pos) x = (h', pos')"
      using less.prems(2) True by (subst (asm) siftdown_loop_unfold) simp
    ultimately show ?thesis
      using less.IH [OF p(1), of "h[pos := h ! par pos]"] p(2) by simp
  next
    case False
    then show ?thesis using less.prems by (subst (asm) siftdown_loop_unfold) auto
  qed
qed

lemma siftdown_mset: "pos < length h \<Longrightarrow> mset (siftdown h a pos) = mset h"
proof -
  assume pos: "pos < length h"
  obtain h' pos' where l: "siftdown_loop h a pos (h ! pos) = (h', pos')" by fastforce
  from siftdown_loop_mset [OF pos l] show ?thesis by (simp add: siftdown_def l)
qed

lemma heap_up_toD:
  "heap_up_to h pos \<Longrightarrow> 0 < i \<Longrightarrow> i < length h \<Longrightarrow> i \<noteq> pos \<Longrightarrow> key_at h (par i) \<le> key_at h i"
  "heap_up_to h pos \<Longrightarrow> 0 < i \<Longrightarrow> i < length h \<Longrightarrow> par i = pos \<Longrightarrow> 0 < pos \<Longrightarrow>
   key_at h (par pos) \<le> key_at h i"
  by (auto simp: heap_up_to_def)

lemma heap_up_to_step:
  assumes f: "heap_up_to f pos" and pos: "0 < pos" "pos < length f"
    and less: "key_at f pos < key_at f (par pos)"
    and g: "length g = length f" "key_at g pos = key_at f (par pos)" "key_at g (par pos) = key_at f pos"
      "\<And>i. i \<noteq> pos \<Longrightarrow> i \<noteq> par pos \<Longrightarrow> key_at g i = key_at f i"
  shows "heap_up_to g (par pos)"
  unfolding heap_up_to_def
proof (intro conjI allI impI)
  fix i assume i: "0 < i \<and> i < length g \<and> i \<noteq> par pos"
  then have pi: "par i < i" by (simp add: par_less)
  consider "i = pos" | "i \<noteq> pos" "par i = pos" | "i \<noteq> pos" "par i = par pos"
    | "i \<noteq> pos" "par i \<noteq> pos" "par i \<noteq> par pos" by blast
  then show "key_at g (par i) \<le> key_at g i"
  proof cases
    case 1 with less g show ?thesis by simp
  next
    case 2 with heap_up_toD(2) [OF f _ _ _ pos(1), of i] i g show ?thesis by simp
  next
    case 3 with heap_up_toD(1) [OF f, of i] less i g show ?thesis by simp
  next
    case 4 with heap_up_toD(1) [OF f, of i] i g show ?thesis by simp
  qed
next
  fix i assume i: "0 < i \<and> i < length g \<and> par i = par pos \<and> 0 < par pos"
  have lt: "par (par pos) < par pos" "par pos < pos" using i pos by (simp_all add: par_less)
  have up: "key_at f (par (par pos)) \<le> key_at f (par pos)"
    using heap_up_toD(1) [OF f, of "par pos"] i lt pos by simp
  have ip: "par pos < i" using i par_less [of i] by simp
  show "key_at g (par (par pos)) \<le> key_at g i"
  proof (cases "i = pos")
    case True with up lt g show ?thesis by simp
  next
    case False
    with heap_up_toD(1) [OF f, of i] up i g ip lt show ?thesis by simp
  qed
qed

lemma siftdown_loop_spec:
  "pos < length h \<Longrightarrow> heap_up_to (h[pos := x]) pos \<Longrightarrow> siftdown_loop h 0 pos x = (h', pos') \<Longrightarrow>
   heap_ok (h'[pos' := x])"
proof (induction pos arbitrary: h rule: less_induct)
  case (less pos)
  let ?p = "par pos"
  show ?case
  proof (cases "0 < pos \<and> fst x < key_at h ?p")
    case True
    then have p: "?p < pos" "?p < length h" using less.prems(1) par_less [of pos] by auto
    have "heap_up_to ((h[pos := h ! ?p])[?p := x]) ?p"
      using True p less.prems(1)
      by (intro heap_up_to_step [OF less.prems(2)]) (simp_all add: key_at_update, simp add: key_at_def)
    moreover have "siftdown_loop (h[pos := h ! ?p]) 0 ?p x = (h', pos')"
      using less.prems(3) True by (subst (asm) siftdown_loop_unfold) simp
    ultimately show ?thesis using less.IH [OF p(1), of "h[pos := h ! ?p]"] p(2) by simp
  next
    case False
    then have "(h', pos') = (h, pos)" using less.prems(3) by (subst (asm) siftdown_loop_unfold) auto
    moreover have "heap_ok (h[pos := x])"
      unfolding heap_ok_def
    proof (intro allI impI)
      fix i assume i: "0 < i \<and> i < length (h[pos := x])"
      show "key_at (h[pos := x]) (par i) \<le> key_at (h[pos := x]) i"
        using heap_up_toD(1) [OF less.prems(2), of i] i False less.prems(1) par_less [of pos]
        by (cases "i = pos") (auto simp: key_at_update)
    qed
    ultimately show ?thesis by simp
  qed
qed

lemma siftdown_spec:
  assumes "pos < length h" "heap_up_to h pos"
  shows "heap_ok (siftdown h 0 pos) \<and> mset (siftdown h 0 pos) = mset h"
proof -
  obtain h' pos' where l: "siftdown_loop h 0 pos (h ! pos) = (h', pos')" by fastforce
  from siftdown_loop_spec [OF assms(1) _ l] assms(2) have "heap_ok (siftdown h 0 pos)"
    by (simp add: siftdown_def l)
  with siftdown_mset [OF assms(1), of 0] show ?thesis by blast
qed

lemma heap_holeD:
  "heap_hole h pos \<Longrightarrow> 0 < i \<Longrightarrow> i < length h \<Longrightarrow> i \<noteq> pos \<Longrightarrow> par i \<noteq> pos \<Longrightarrow>
   key_at h (par i) \<le> key_at h i"
  "heap_hole h pos \<Longrightarrow> 0 < i \<Longrightarrow> i < length h \<Longrightarrow> par i = pos \<Longrightarrow> 0 < pos \<Longrightarrow>
   key_at h (par pos) \<le> key_at h i"
  by (auto simp: heap_hole_def)

text \<open>One round of \<open>_siftup\<close>: the smaller child \<open>c\<close> of the hole moves up.\<close>

lemma heap_hole_step:
  assumes h: "heap_hole h pos" and c: "c < length h" "0 < c" "par c = pos"
    and least: "\<And>i. 0 < i \<Longrightarrow> i < length h \<Longrightarrow> par i = pos \<Longrightarrow> key_at h c \<le> key_at h i"
  shows "heap_hole (h[pos := h ! c]) c"
proof -
  let ?g = "h[pos := h ! c]"
  have pc: "pos < c" using c par_less by blast
  then have upd: "key_at ?g i = (if i = pos then key_at h c else key_at h i)" for i
    using c(1) by (simp add: key_at_update) (simp add: key_at_def)
  show ?thesis
    unfolding heap_hole_def
  proof (intro conjI allI impI)
    fix i assume i: "0 < i \<and> i < length ?g \<and> i \<noteq> c \<and> par i \<noteq> c"
    consider "i = pos" | "par i = pos" "i \<noteq> pos" | "i \<noteq> pos" "par i \<noteq> pos" by blast
    then show "key_at ?g (par i) \<le> key_at ?g i"
    proof cases
      case 1 with heap_holeD(2) [OF h c(2,1,3)] i par_less [of pos] show ?thesis by (simp add: upd)
    next
      case 2 with least [of i] i show ?thesis by (simp add: upd)
    next
      case 3 with heap_holeD(1) [OF h, of i] i show ?thesis by (simp add: upd)
    qed
  next
    fix i assume i: "0 < i \<and> i < length ?g \<and> par i = c \<and> 0 < c"
    then have "c < i" using par_less by blast
    with heap_holeD(1) [OF h, of i] i pc c(3) show "key_at ?g (par c) \<le> key_at ?g i"
      by (simp add: upd)
  qed
qed

lemma siftup_loop_unfold:
  assumes "2 * pos + 1 < length h"
  obtains c where "siftup_loop h pos = siftup_loop (h[pos := h ! c]) c" "c < length h" "0 < c"
    "par c = pos" "pos < c" "\<forall>i. 0 < i \<and> i < length h \<and> par i = pos \<longrightarrow> key_at h c \<le> key_at h i"
proof -
  let ?l = "2 * pos + 1"
  define c where "c = (if ?l + 1 < length h \<and> \<not> fst (h ! ?l) < fst (h ! (?l + 1)) then ?l + 1 else ?l)"
  show ?thesis
  proof (rule that [of c])
    show "siftup_loop h pos = siftup_loop (h[pos := h ! c]) c"
      using assms by (subst siftup_loop.simps) (simp add: Let_def c_def)
    show "c < length h" "0 < c" "par c = pos" "pos < c" using assms by (auto simp: par_def c_def)
    have "key_at h c \<le> key_at h i" if "0 < i" "i < length h" "par i = pos" for i
      using that par_eq_iff [of i pos] by (auto simp: key_at_def not_less c_def)
    then show "\<forall>i. 0 < i \<and> i < length h \<and> par i = pos \<longrightarrow> key_at h c \<le> key_at h i" by blast
  qed
qed

lemma siftup_loop_spec:
  assumes "pos < length h" "siftup_loop h pos = (h', pos')"
  shows "length h' = length h \<and> pos' < length h \<and> length h \<le> 2 * pos' + 1 \<and>
         mset (h'[pos' := x]) = mset (h[pos := x]) \<and> (heap_hole h pos \<longrightarrow> heap_hole h' pos')"
  using assms
proof (induction "length h - pos" arbitrary: h pos rule: less_induct)
  case less
  show ?case
  proof (cases "2 * pos + 1 < length h")
    case True
    then obtain c where c: "siftup_loop h pos = siftup_loop (h[pos := h ! c]) c" "c < length h" "0 < c"
      "par c = pos" "pos < c" "\<forall>i. 0 < i \<and> i < length h \<and> par i = pos \<longrightarrow> key_at h c \<le> key_at h i"
      by (rule siftup_loop_unfold)
    have "mset ((h[pos := h ! c])[c := x]) = mset (h[pos := x])"
      using mset_swap [of c "h[pos := x]" pos] c(2,5) less.prems(1) by simp
    moreover have "heap_hole h pos \<longrightarrow> heap_hole (h[pos := h ! c]) c"
      using heap_hole_step [of h pos c] c(2-4,6) by blast
    ultimately show ?thesis
      using less.hyps [of "h[pos := h ! c]" c] c(1,2,5) less.prems by (simp add: diff_less_mono2)
  next
    case False
    then show ?thesis using less.prems by (simp add: siftup_loop.simps [of h])
  qed
qed

lemma siftup_mset: "h \<noteq> [] \<Longrightarrow> mset (siftup h 0) = mset h"
proof -
  assume h: "h \<noteq> []"
  obtain h' pos' where l: "siftup_loop h 0 = (h', pos')" by fastforce
  from siftup_loop_spec [OF _ l, of "h ! 0"] h show ?thesis by (simp add: siftup_def l siftdown_mset)
qed

lemma heap_hole_fill:
  assumes "heap_hole h pos" "pos < length h" "length h \<le> 2 * pos + 1"
  shows "heap_up_to (h[pos := x]) pos"
proof -
  have leaf: "par i \<noteq> pos" if "0 < i" "i < length h" for i
    using that assms(3) par_eq_iff [of i pos] by auto
  show ?thesis
    using assms leaf by (auto simp: heap_up_to_def heap_hole_def key_at_update)
qed

lemma siftup_spec:
  assumes "h \<noteq> []" "heap_hole h 0"
  shows "heap_ok (siftup h 0)"
proof -
  obtain h' pos' where l: "siftup_loop h 0 = (h', pos')" by fastforce
  have s: "length h' = length h" "pos' < length h'" "heap_hole h' pos'" "length h' \<le> 2 * pos' + 1"
    using siftup_loop_spec [OF _ l, of "h ! 0"] assms by simp_all
  from siftdown_spec [OF _ heap_hole_fill [OF s(3,2,4), of "h ! 0"]] s(2) show ?thesis
    by (simp add: siftup_def l)
qed

subsection \<open>Contract of a minimum queue\<close>

text \<open>
  The operations a client of a minimum queue calls, and the laws they obey: \<open>pop\<close> removes one
  element whose key is least. The client lemmas hold for every implementation.
\<close>

locale min_queue =
  fixes push :: "'q \<Rightarrow> 'e \<Rightarrow> 'q"
    and pop :: "'q \<Rightarrow> ('e \<times> 'q) option"
    and elems :: "'q \<Rightarrow> 'e multiset"
    and ok :: "'q \<Rightarrow> bool"
    and key :: "'e \<Rightarrow> 'k::linorder"
  assumes push_ok: "ok q \<Longrightarrow> ok (push q e)"
    and push_elems: "ok q \<Longrightarrow> elems (push q e) = add_mset e (elems q)"
    and pop_None: "ok q \<Longrightarrow> pop q = None \<longleftrightarrow> elems q = {#}"
    and pop_Some: "ok q \<Longrightarrow> pop q = Some (e, q') \<Longrightarrow>
      ok q' \<and> elems q = add_mset e (elems q') \<and> (\<forall>x \<in># elems q. key e \<le> key x)"
begin

lemma pop_size: "ok q \<Longrightarrow> pop q = Some (e, q') \<Longrightarrow> size (elems q') < size (elems q)"
  using pop_Some by fastforce

lemma push_many: "ok q \<Longrightarrow> ok (foldl push q es) \<and> elems (foldl push q es) = mset es + elems q"
  by (induction es arbitrary: q) (auto simp: push_ok push_elems)

lemma pop_keys_ascend:
  "ok q \<Longrightarrow> pop q = Some (e, q') \<Longrightarrow> pop q' = Some (e', q'') \<Longrightarrow> key e \<le> key e'"
  using pop_Some by fastforce

end

definition heap_pop :: "('k::linorder, 'v) heap \<Rightarrow> (('k \<times> 'v) \<times> ('k, 'v) heap) option" where
  "heap_pop h = (case heappop h of Inl _ \<Rightarrow> None | Inr r \<Rightarrow> Some r)"

lemma heap_root_least:
  assumes "heap_ok h" "i < length h"
  shows "key_at h 0 \<le> key_at h i"
  using assms(2)
proof (induction i rule: less_induct)
  case (less i)
  show ?case
  proof (cases "i = 0")
    case False
    then have "par i < i" by (simp add: par_less)
    with less.IH [of "par i"] less.prems have "key_at h 0 \<le> key_at h (par i)" by simp
    also have "\<dots> \<le> key_at h i" using assms(1) less.prems False by (simp add: heap_ok_def)
    finally show ?thesis .
  qed simp
qed

lemma heap_root_least_set: "heap_ok h \<Longrightarrow> x \<in> set h \<Longrightarrow> fst (h ! 0) \<le> fst x"
  using heap_root_least [of h] by (auto simp: in_set_conv_nth key_at_def)

lemma heappush_spec:
  assumes "heap_ok h"
  shows "heap_ok (heappush h x) \<and> mset (heappush h x) = add_mset x (mset h)"
proof -
  have k: "key_at (h @ [x]) i = key_at h i" if "i < length h" for i
    using that by (simp add: key_at_def nth_append)
  have "heap_up_to (h @ [x]) (length h)"
    unfolding heap_up_to_def
  proof (intro conjI allI impI)
    fix i assume i: "0 < i \<and> i < length (h @ [x]) \<and> i \<noteq> length h"
    then have "i < length h" "par i < length h" using par_less [of i] by auto
    then show "key_at (h @ [x]) (par i) \<le> key_at (h @ [x]) i"
      using assms i unfolding k [OF \<open>i < length h\<close>] k [OF \<open>par i < length h\<close>] heap_ok_def by blast
  next
    fix i assume i: "0 < i \<and> i < length (h @ [x]) \<and> par i = length h \<and> 0 < length h"
    then have "length h < i" using par_less [of i] by simp
    with i show "key_at (h @ [x]) (par (length h)) \<le> key_at (h @ [x]) i" by simp
  qed
  from siftdown_spec [OF _ this] show ?thesis by (simp add: heappush_def)
qed

lemma heap_ok_butlast: "heap_ok h \<Longrightarrow> heap_ok (butlast h)"
  unfolding heap_ok_def
proof (intro allI impI)
  fix i assume h: "\<forall>i. 0 < i \<and> i < length h \<longrightarrow> key_at h (par i) \<le> key_at h i"
    and i: "0 < i \<and> i < length (butlast h)"
  then have "par i < length (butlast h)" using par_less [of i] by simp
  moreover have "i < length h" using i by auto
  ultimately show "key_at (butlast h) (par i) \<le> key_at (butlast h) i"
    using h i by (simp add: key_at_def nth_butlast)
qed

lemma heap_hole_root: "heap_ok h \<Longrightarrow> heap_hole (h[0 := x]) 0"
  by (auto simp: heap_ok_def heap_hole_def key_at_def)

lemma heappop_mset:
  assumes "heappop h = Inr (e, h')"
  shows "e = h ! 0 \<and> mset h = add_mset e (mset h')"
proof -
  from assms have "h \<noteq> []" by (auto simp: heappop_def)
  then obtain b l where h: "h = b @ [l]" by (metis rev_exhaust)
  show ?thesis
  proof (cases b)
    case Nil
    with assms h show ?thesis by (simp add: heappop_def)
  next
    case (Cons x xs)
    with assms h have "e = x" "h' = siftup (l # xs) 0" by (auto simp: heappop_def Let_def)
    with Cons h show ?thesis by (simp add: siftup_mset add_mset_commute)
  qed
qed

lemma heappop_spec:
  assumes "heap_ok h" "heappop h = Inr (e, h')"
  shows "heap_ok h' \<and> (\<forall>x \<in> set h. fst e \<le> fst x)"
proof -
  have "heap_ok h'"
  proof (cases "butlast h = []")
    case False
    with assms(2) have "h' = siftup ((butlast h)[0 := last h]) 0"
      by (auto simp: heappop_def Let_def split: if_splits)
    then show ?thesis
      using siftup_spec [OF _ heap_hole_root [OF heap_ok_butlast [OF assms(1)]]] False by simp
  next
    case True
    with assms(2) have "h' = []" by (auto simp: heappop_def Let_def split: if_splits)
    then show ?thesis by (simp add: heap_ok_def)
  qed
  then show ?thesis using heappop_mset [OF assms(2)] heap_root_least_set [OF assms(1)] by blast
qed

lemma heappop_empty: "heappop h = Inl err \<longleftrightarrow> h = [] \<and> err = IndexError"
  by (auto simp: heappop_def Let_def)

lemma heap_pop_None: "heap_pop h = None \<longleftrightarrow> h = []"
  by (simp add: heap_pop_def heappop_def Let_def)

lemma heap_pop_Some: "heap_pop h = Some r \<longleftrightarrow> heappop h = Inr r"
  by (simp add: heap_pop_def split: sum.splits)

interpretation heap: min_queue heappush heap_pop mset heap_ok fst
proof unfold_locales
  fix q :: "('k::linorder, 'v) heap" and e q'
  assume ok: "heap_ok q"
  show "heap_ok (heappush q e)" "mset (heappush q e) = add_mset e (mset q)"
    using heappush_spec [OF ok] by blast+
  show "heap_pop q = None \<longleftrightarrow> mset q = {#}"
    by (simp add: heap_pop_None)
  show "heap_ok q' \<and> mset q = add_mset e (mset q') \<and> (\<forall>x \<in># mset q. fst e \<le> fst x)"
    if "heap_pop q = Some (e, q')"
    using heappop_spec [OF ok, of e q'] heappop_mset [of q e q'] that
    unfolding heap_pop_Some set_mset_mset by blast
qed

end
