(* ===== verification/Scheduler_Queues.thy ===== *)
theory Scheduler_Queues
  imports Heapq "HOL-Library.Product_Lexorder"
begin

text \<open>
  The three queues of the request scheduler (\<open>core/omniroute/scheduler.py\<close>): the multi-level
  priority queue, the earliest-deadline-first queue on \<open>heapq\<close> and the weighted fair queue,
  with their data (\<open>domain/omniroute.py\<close>). Times are milliseconds of the monotonic clock.
\<close>

subsection \<open>Numbers with infinity\<close>

text \<open>A Python float that may be \<open>float("inf")\<close>.\<close>

datatype xfloat = Fin real | PosInf

instantiation xfloat :: linorder
begin

fun less_eq_xfloat :: "xfloat \<Rightarrow> xfloat \<Rightarrow> bool" where
  "Fin a \<le> Fin b = (a \<le> b)"
| "_ \<le> PosInf = True"
| "PosInf \<le> Fin _ = False"

definition less_xfloat :: "xfloat \<Rightarrow> xfloat \<Rightarrow> bool" where
  "x < y \<longleftrightarrow> x \<le> y \<and> \<not> (y::xfloat) \<le> x"

instance
proof
  fix x y z :: xfloat
  show "x < y \<longleftrightarrow> x \<le> y \<and> \<not> y \<le> x" by (rule less_xfloat_def)
  show "x \<le> x" by (cases x) auto
  show "x \<le> y \<Longrightarrow> y \<le> z \<Longrightarrow> x \<le> z" by (cases x; cases y; cases z) auto
  show "x \<le> y \<Longrightarrow> y \<le> x \<Longrightarrow> x = y" by (cases x; cases y) auto
  show "x \<le> y \<or> y \<le> x" by (cases x; cases y) auto
qed

end

lemma xfloat_less [simp]: "Fin a < Fin b \<longleftrightarrow> a < b" "Fin a < PosInf"
  by (auto simp: less_xfloat_def)

lemma xfloat_inf_least [simp]: "\<not> PosInf < x"
  by (cases x) (auto simp: less_xfloat_def)

subsection \<open>Requests\<close>

datatype priority_level = CRITICAL | HIGH | NORMAL | LOW | BULK | BACKGROUND

abbreviation priority_levels :: "priority_level list" where
  "priority_levels \<equiv> [CRITICAL, HIGH, NORMAL, LOW, BULK, BACKGROUND]"

text \<open>Levels are ordered by their position in the enumeration: the most urgent is least.\<close>

primrec level_index :: "priority_level \<Rightarrow> nat" where
  "level_index CRITICAL = 0"
| "level_index HIGH = 1"
| "level_index NORMAL = 2"
| "level_index LOW = 3"
| "level_index BULK = 4"
| "level_index BACKGROUND = 5"

lemma level_index_inj [simp]: "level_index a = level_index b \<longleftrightarrow> a = b"
  by (cases a; cases b) simp_all

instantiation priority_level :: linorder
begin

definition less_eq_priority_level :: "priority_level \<Rightarrow> priority_level \<Rightarrow> bool" where
  "a \<le> b \<longleftrightarrow> level_index a \<le> level_index b"

definition less_priority_level :: "priority_level \<Rightarrow> priority_level \<Rightarrow> bool" where
  "a < b \<longleftrightarrow> level_index a < level_index b"

instance
  by intro_classes (auto simp: less_eq_priority_level_def less_priority_level_def)

end

lemmas level_order = less_eq_priority_level_def less_priority_level_def

record queue_item =
  qi_id :: string
  qi_provider :: string
  qi_model :: string
  qi_priority :: priority_level
  qi_created_at :: real
  qi_deadline :: "real option"
  qi_cost :: real
  qi_estimated_latency_ms :: real
  qi_queue_affinity :: string

record queue_entry =
  qe_item :: queue_item
  qe_priority_level :: priority_level
  qe_enqueued_ms :: real
  qe_deadline_ms :: "real option"
  qe_retry_count :: int
  qe_age_boost :: int

text \<open>Deleting the first element that satisfies a test, as \<open>del q[i]\<close> in a search loop does.\<close>

fun delete_first :: "('a \<Rightarrow> bool) \<Rightarrow> 'a list \<Rightarrow> 'a list" where
  "delete_first P [] = []"
| "delete_first P (x # xs) = (if P x then xs else x # delete_first P xs)"

abbreviation has_id :: "string \<Rightarrow> queue_entry \<Rightarrow> bool" where
  "has_id i \<equiv> (\<lambda>e. qi_id (qe_item e) = i)"

subsection \<open>The multi-level priority queue\<close>

record pqueue =
  pq_max_size :: int
  pq_queues :: "priority_level \<Rightarrow> queue_entry list"
  pq_total :: int
  pq_overflow_count :: int

definition pq_init :: "int \<Rightarrow> pqueue" where
  "pq_init n = \<lparr>pq_max_size = n, pq_queues = (\<lambda>_. []), pq_total = 0, pq_overflow_count = 0\<rparr>"

text \<open>The scan for the level whose first entry is oldest.\<close>

definition oldest_level :: "(priority_level \<Rightarrow> queue_entry list) \<Rightarrow> priority_level" where
  "oldest_level qs =
     snd (foldl (\<lambda>(oldest_time, oldest) level.
                   case qs level of
                     [] \<Rightarrow> (oldest_time, oldest)
                   | e # _ \<Rightarrow> if Fin (qe_enqueued_ms e) < oldest_time
                              then (Fin (qe_enqueued_ms e), level) else (oldest_time, oldest))
            (PosInf, BACKGROUND) priority_levels)"

definition pq_append :: "queue_entry \<Rightarrow> pqueue \<Rightarrow> pqueue" where
  "pq_append e q =
     q\<lparr>pq_queues := (pq_queues q)(qe_priority_level e := pq_queues q (qe_priority_level e) @ [e]),
       pq_total := pq_total q + 1\<rparr>"

definition pq_stored :: "(priority_level \<Rightarrow> queue_entry list) \<Rightarrow> nat" where
  "pq_stored qs = sum_list (map (\<lambda>l. length (qs l)) priority_levels)"

lemma length_nonempty_less: "xs \<noteq> [] \<Longrightarrow> length xs - Suc 0 < length xs"
  by (cases xs) auto

lemma pq_stored_update_less:
  "length ys < length (qs l) \<Longrightarrow> pq_stored (qs(l := ys)) < pq_stored qs"
  by (cases l) (simp_all add: pq_stored_def)

lemma find_SomeD: "find P xs = Some x \<Longrightarrow> P x \<and> x \<in> set xs"
  by (induction xs) (auto split: if_splits)

function pq_push :: "queue_entry \<Rightarrow> string \<Rightarrow> pqueue \<Rightarrow> pqueue \<times> bool" where
  "pq_push e strategy q =
     (if pq_total q \<ge> pq_max_size q then
        (let q = q\<lparr>pq_overflow_count := pq_overflow_count q + 1\<rparr> in
         if strategy = ''drop_oldest'' then
           (let level = oldest_level (pq_queues q) in
            if pq_queues q level \<noteq> [] then
              pq_push e strategy
                (q\<lparr>pq_queues := (pq_queues q)(level := tl (pq_queues q level)),
                   pq_total := pq_total q - 1\<rparr>)
            else (pq_append e q, True))
         else if strategy = ''drop_newest'' then (q, True)
         else if strategy = ''priority_eviction'' then
           (case find (\<lambda>l. pq_queues q l \<noteq> []) (rev priority_levels) of
              Some level \<Rightarrow>
                pq_push e strategy
                  (q\<lparr>pq_queues := (pq_queues q)(level := butlast (pq_queues q level)),
                     pq_total := pq_total q - 1\<rparr>)
            | None \<Rightarrow> (q, False))
         else (q, False))
      else (pq_append e q, True))"
  by pat_completeness auto
termination
proof (relation "measure (\<lambda>(e, strategy, q). pq_stored (pq_queues q))", goal_cases)
  case 1
  show ?case by simp
next
  case (2 e strategy q q' level)
  then show ?case by (simp add: pq_stored_update_less length_nonempty_less)
next
  case (3 e strategy q q' level)
  have "pq_queues q' level \<noteq> []" using find_SomeD [OF 3(6)] by simp
  with 3(2) show ?case by (simp add: pq_stored_update_less length_nonempty_less)
qed

declare pq_push.simps [simp del]

definition pq_pop :: "pqueue \<Rightarrow> pqueue \<times> queue_entry option" where
  "pq_pop q =
     (case find (\<lambda>l. pq_queues q l \<noteq> []) priority_levels of
        Some level \<Rightarrow>
          (q\<lparr>pq_total := pq_total q - 1,
             pq_queues := (pq_queues q)(level := tl (pq_queues q level))\<rparr>,
           Some (hd (pq_queues q level)))
      | None \<Rightarrow> (q, None))"

definition pq_peek :: "pqueue \<Rightarrow> queue_entry option" where
  "pq_peek q = map_option (\<lambda>l. hd (pq_queues q l)) (find (\<lambda>l. pq_queues q l \<noteq> []) priority_levels)"

definition pq_remove :: "string \<Rightarrow> pqueue \<Rightarrow> pqueue \<times> bool" where
  "pq_remove item_id q =
     (case find (\<lambda>l. list_ex (has_id item_id) (pq_queues q l)) priority_levels of
        Some level \<Rightarrow>
          (q\<lparr>pq_queues := (pq_queues q)(level := delete_first (has_id item_id) (pq_queues q level)),
             pq_total := pq_total q - 1\<rparr>, True)
      | None \<Rightarrow> (q, False))"

definition pq_clear :: "pqueue \<Rightarrow> pqueue" where
  "pq_clear q = q\<lparr>pq_overflow_count := 0, pq_total := 0, pq_queues := (\<lambda>_. [])\<rparr>"

definition pq_depth :: "pqueue \<Rightarrow> priority_level \<Rightarrow> nat" where
  "pq_depth q level = length (pq_queues q level)"

subsection \<open>The earliest-deadline-first queue\<close>

record edf_queue =
  edf_heap :: "(xfloat \<times> int, queue_entry) heap"
  edf_counter :: int

definition edf_init :: edf_queue where
  "edf_init = \<lparr>edf_heap = [], edf_counter = 0\<rparr>"

definition edf_total :: "edf_queue \<Rightarrow> int" where
  "edf_total q = int (length (edf_heap q))"

definition deadline_key :: "queue_entry \<Rightarrow> xfloat" where
  "deadline_key e = (case qe_deadline_ms e of Some d \<Rightarrow> Fin d | None \<Rightarrow> PosInf)"

definition edf_push :: "edf_queue \<Rightarrow> queue_entry \<Rightarrow> edf_queue" where
  "edf_push q e =
     \<lparr>edf_heap = heappush (edf_heap q) ((deadline_key e, edf_counter q + 1), e),
      edf_counter = edf_counter q + 1\<rparr>"

definition edf_pop :: "edf_queue \<Rightarrow> edf_queue \<times> queue_entry option" where
  "edf_pop q =
     (case heappop (edf_heap q) of
        Inl _ \<Rightarrow> (q, None)
      | Inr ((_, e), h) \<Rightarrow> (q\<lparr>edf_heap := h\<rparr>, Some e))"

definition edf_peek :: "edf_queue \<Rightarrow> queue_entry option" where
  "edf_peek q = (if edf_heap q = [] then None else Some (snd (edf_heap q ! 0)))"

definition edf_remove :: "string \<Rightarrow> edf_queue \<Rightarrow> edf_queue \<times> bool" where
  "edf_remove item_id q =
     (q\<lparr>edf_heap := filter (\<lambda>(_, e). \<not> has_id item_id e) (edf_heap q)\<rparr>,
      list_ex (\<lambda>(_, e). has_id item_id e) (edf_heap q))"

definition edf_clear :: "edf_queue \<Rightarrow> edf_queue" where
  "edf_clear q = \<lparr>edf_heap = [], edf_counter = 0\<rparr>"

text \<open>The loop of \<open>expired\<close>: popping while the root's deadline has passed.\<close>

lemma length_siftdown_loop: "length (fst (siftdown_loop h a b x)) = length h"
proof (induction h a b x rule: siftdown_loop.induct)
  case (1 h a b x)
  then show ?case by (simp add: siftdown_loop.simps [of h a b x] Let_def)
qed

lemma length_siftup_loop: "length (fst (siftup_loop h a)) = length h"
proof (induction h a rule: siftup_loop.induct)
  case (1 h a)
  show ?case
  proof (cases "2 * a + 1 < length h")
    case True
    with "1.IH" [OF refl True refl refl] show ?thesis
      by (subst siftup_loop.simps) (simp only: Let_def if_True length_list_update True simp_thms)
  qed (simp add: siftup_loop.simps [of h a])
qed

lemma length_siftup [simp]: "length (siftup h a) = length h"
  by (simp add: siftup_def siftdown_def Let_def case_prod_beta length_siftdown_loop length_siftup_loop)

lemma heappop_length: "heappop h = Inr (e, h') \<Longrightarrow> length h = Suc (length h')"
  by (cases h rule: rev_cases) (auto simp: heappop_def Let_def split: if_splits)

function expired_loop ::
  "real \<Rightarrow> (xfloat \<times> int, queue_entry) heap \<Rightarrow> (xfloat \<times> int, queue_entry) heap \<times> queue_entry list" where
  "expired_loop now_ms h =
     (if h \<noteq> [] \<and> fst (fst (h ! 0)) \<le> Fin now_ms then
        (case heappop h of
           Inr ((_, e), h') \<Rightarrow> (let (h'', es) = expired_loop now_ms h' in (h'', e # es))
         | Inl _ \<Rightarrow> (h, []))
      else (h, []))"
  by pat_completeness auto
termination by (relation "measure (\<lambda>(_, h). length h)") (auto simp: heappop_length)

declare expired_loop.simps [simp del]

definition edf_expired :: "real \<Rightarrow> edf_queue \<Rightarrow> edf_queue \<times> queue_entry list" where
  "edf_expired now_ms q =
     (let (h, es) = expired_loop now_ms (edf_heap q) in (q\<lparr>edf_heap := h\<rparr>, es))"

subsection \<open>The weighted fair queue\<close>

record fairness_tracker =
  ft_dispatched :: int
  ft_last_dispatch_ms :: real
  ft_deficit :: real

definition new_tracker :: fairness_tracker where
  "new_tracker = \<lparr>ft_dispatched = 0, ft_last_dispatch_ms = 0, ft_deficit = 0\<rparr>"

record fair_queue =
  wf_queues :: "(string, queue_entry list) dict"
  wf_fairness :: "(string, fairness_tracker) dict"
  wf_weights :: "(string, real) dict"
  wf_round_robin :: "string list"
  wf_rr_index :: nat
  wf_total :: int

definition wf_init :: fair_queue where
  "wf_init = \<lparr>wf_queues = [], wf_fairness = [], wf_weights = [], wf_round_robin = [],
              wf_rr_index = 0, wf_total = 0\<rparr>"

definition wf_set_weight :: "string \<Rightarrow> real \<Rightarrow> fair_queue \<Rightarrow> fair_queue" where
  "wf_set_weight grp weight q =
     (let q = q\<lparr>wf_weights := dict_set (wf_weights q) grp (max (1 / 10) weight)\<rparr> in
      if dict_get (wf_fairness q) grp = None
      then q\<lparr>wf_fairness := dict_set (wf_fairness q) grp new_tracker,
             wf_round_robin := wf_round_robin q @ [grp]\<rparr>
      else q)"

text \<open>\<open>_queues\<close> is a \<open>defaultdict\<close>: reading a missing group stores an empty deque for it.\<close>

definition wf_read :: "string \<Rightarrow> fair_queue \<Rightarrow> fair_queue \<times> queue_entry list" where
  "wf_read grp q =
     (case dict_get (wf_queues q) grp of
        Some es \<Rightarrow> (q, es)
      | None \<Rightarrow> (q\<lparr>wf_queues := dict_set (wf_queues q) grp []\<rparr>, []))"

definition wf_push :: "string \<Rightarrow> queue_entry \<Rightarrow> fair_queue \<Rightarrow> fair_queue" where
  "wf_push grp e q =
     (let q = (if dict_get (wf_fairness q) grp = None then wf_set_weight grp 1 q else q);
          (q, es) = wf_read grp q
      in q\<lparr>wf_queues := dict_set (wf_queues q) grp (es @ [e]), wf_total := wf_total q + 1\<rparr>)"

text \<open>The list of candidates of \<open>pop_wfq\<close>; a group without a tracker is a \<open>KeyError\<close>.\<close>

fun wfq_candidates ::
  "fair_queue \<Rightarrow> (string, queue_entry list) dict \<Rightarrow> (real \<times> string) list result" where
  "wfq_candidates q [] = Inr []"
| "wfq_candidates q ((grp, es) # rest) =
     (if es = [] then wfq_candidates q rest
      else
        (case dict_get (wf_fairness q) grp of
           None \<Rightarrow> Inl (KeyError grp)
         | Some t \<Rightarrow>
             (let weight = dict_get_or (wf_weights q) grp 1 in
              if weight = 0 then Inl (OtherError ''ZeroDivisionError'')
              else (case wfq_candidates q rest of
                      Inl err \<Rightarrow> Inl err
                    | Inr cs \<Rightarrow> Inr ((ft_deficit t / weight, grp) # cs)))))"

definition count_dispatch :: "real \<Rightarrow> fairness_tracker \<Rightarrow> fairness_tracker" where
  "count_dispatch now_ms t =
     t\<lparr>ft_deficit := ft_deficit t + 1, ft_last_dispatch_ms := now_ms, ft_dispatched := ft_dispatched t + 1\<rparr>"

definition wf_pop_wfq :: "real \<Rightarrow> fair_queue \<Rightarrow> (fair_queue \<times> queue_entry option) result" where
  "wf_pop_wfq now_ms q =
     (case wfq_candidates q (wf_queues q) of
        Inl err \<Rightarrow> Inl err
      | Inr [] \<Rightarrow> Inr (q, None)
      | Inr (c # cs) \<Rightarrow>
          (let chosen = snd (hd (sort_key fst (c # cs))) in
           case (dict_get (wf_queues q) chosen, dict_get (wf_fairness q) chosen) of
             (Some (e # es), Some t) \<Rightarrow>
               Inr (q\<lparr>wf_queues := dict_set (wf_queues q) chosen es, wf_total := wf_total q - 1,
                      wf_fairness := dict_set (wf_fairness q) chosen (count_dispatch now_ms t)\<rparr>, Some e)
           | _ \<Rightarrow> Inl (KeyError chosen)))"

fun rr_loop :: "nat \<Rightarrow> fair_queue \<Rightarrow> (fair_queue \<times> queue_entry option) result" where
  "rr_loop 0 q = Inr (q, None)"
| "rr_loop (Suc n) q =
     (if wf_rr_index q \<ge> length (wf_round_robin q) then Inl IndexError
      else
        (let grp = wf_round_robin q ! wf_rr_index q;
             q = q\<lparr>wf_rr_index := (wf_rr_index q + 1) mod length (wf_round_robin q)\<rparr>;
             (q, es) = wf_read grp q
         in case es of
              e # es' \<Rightarrow>
                Inr (q\<lparr>wf_total := wf_total q - 1, wf_queues := dict_set (wf_queues q) grp es'\<rparr>, Some e)
            | [] \<Rightarrow> rr_loop n q))"

definition wf_pop_rr :: "fair_queue \<Rightarrow> (fair_queue \<times> queue_entry option) result" where
  "wf_pop_rr q =
     (if wf_round_robin q = [] then Inr (q, None) else rr_loop (length (wf_round_robin q)) q)"

fun wrr_loop :: "real \<Rightarrow> nat \<Rightarrow> fair_queue \<Rightarrow> (fair_queue \<times> queue_entry option) result" where
  "wrr_loop total_weight 0 q = wf_pop_rr q"
| "wrr_loop total_weight (Suc n) q =
     (if wf_rr_index q \<ge> length (wf_round_robin q) then Inl IndexError
      else
        (let grp = wf_round_robin q ! wf_rr_index q;
             w = dict_get_or (wf_weights q) grp 1;
             (q, es) = wf_read grp q;
             q = q\<lparr>wf_rr_index := (wf_rr_index q + 1) mod length (wf_round_robin q)\<rparr>
         in case es of
              [] \<Rightarrow> wrr_loop total_weight n q
            | e # es' \<Rightarrow>
                if w / total_weight \<ge> 1 / 10
                then Inr (q\<lparr>wf_total := wf_total q - 1, wf_queues := dict_set (wf_queues q) grp es'\<rparr>, Some e)
                else wrr_loop total_weight n q))"

definition wf_pop_wrr :: "fair_queue \<Rightarrow> (fair_queue \<times> queue_entry option) result" where
  "wf_pop_wrr q =
     (if wf_round_robin q = [] then Inr (q, None)
      else
        (let total_weight = sum_list (map (\<lambda>g. dict_get_or (wf_weights q) g 1) (wf_round_robin q)) in
         if total_weight = 0 then wf_pop_rr q
         else wrr_loop total_weight (length (wf_round_robin q) * 3) q))"

definition wf_clear :: "fair_queue \<Rightarrow> fair_queue" where
  "wf_clear q = q\<lparr>wf_queues := [], wf_fairness := [], wf_total := 0, wf_rr_index := 0\<rparr>"

text \<open>The search of \<open>cancel\<close> in the fair queue's groups.\<close>

definition wf_cancel :: "string \<Rightarrow> fair_queue \<Rightarrow> fair_queue \<times> bool" where
  "wf_cancel item_id q =
     (case find (\<lambda>(_, es). list_ex (has_id item_id) es) (wf_queues q) of
        Some (grp, es) \<Rightarrow>
          (q\<lparr>wf_queues := dict_set (wf_queues q) grp (delete_first (has_id item_id) es),
             wf_total := wf_total q - 1\<rparr>, True)
      | None \<Rightarrow> (q, False))"

end
