(* ===== verification/Scheduler_Engine.thy ===== *)
theory Scheduler_Engine
  imports Scheduler_Queues
begin

text \<open>
  The remaining parts of the request scheduler (\<open>core/omniroute/scheduler.py\<close>): starvation
  detector, back-pressure, worker pool, retry planner, load predictor, metrics and balancer, and
  \<open>SchedulerEngineImpl\<close> itself. Every public operation holds the engine's lock for its whole body,
  so it is one step on the state. \<open>mono\<close>-clock readings are the arguments \<open>now\<close> (seconds) and
  \<open>now_ms\<close>; \<open>wt\<close> is the wall clock and \<open>fresh\<close> the identifier drawn by \<open>uuid4\<close>.
\<close>

subsection \<open>Starvation detector\<close>

record starvation =
  sd_max_wait_ms :: real
  sd_count :: int

definition sd_init :: starvation where
  "sd_init = \<lparr>sd_max_wait_ms = 5000, sd_count = 0\<rparr>"

definition sd_check :: "real \<Rightarrow> queue_entry \<Rightarrow> starvation \<Rightarrow> starvation \<times> int" where
  "sd_check now_ms e d =
     (let elapsed = now_ms - qe_enqueued_ms e; d' = d\<lparr>sd_count := sd_count d + 1\<rparr> in
      if elapsed > sd_max_wait_ms d * 4 then (d', 3)
      else if elapsed > sd_max_wait_ms d * 2 then (d', 2)
      else if elapsed > sd_max_wait_ms d then (d', 1)
      else (d, 0))"

definition sd_reset :: "starvation \<Rightarrow> starvation" where
  "sd_reset d = d\<lparr>sd_count := 0\<rparr>"

subsection \<open>Back-pressure\<close>

record backpressure =
  bp_high :: int
  bp_low :: int
  bp_active :: bool
  bp_events :: int

definition bp_init :: "int \<Rightarrow> int \<Rightarrow> backpressure" where
  "bp_init high low = \<lparr>bp_high = high, bp_low = low, bp_active = False, bp_events = 0\<rparr>"

definition bp_update :: "int \<Rightarrow> backpressure \<Rightarrow> backpressure \<times> bool" where
  "bp_update depth b =
     (if depth \<ge> bp_high b \<and> \<not> bp_active b
      then (b\<lparr>bp_active := True, bp_events := bp_events b + 1\<rparr>, True)
      else if depth \<le> bp_low b \<and> bp_active b
      then (b\<lparr>bp_active := False, bp_events := bp_events b + 1\<rparr>, True)
      else (b, False))"

definition bp_reset :: "backpressure \<Rightarrow> backpressure" where
  "bp_reset b = b\<lparr>bp_active := False, bp_events := 0\<rparr>"

subsection \<open>Worker pool\<close>

record workers =
  wk_pool_size :: int
  wk_acquired :: int

definition wk_init :: "int \<Rightarrow> workers" where
  "wk_init n = \<lparr>wk_pool_size = n, wk_acquired = 0\<rparr>"

definition wk_available :: "workers \<Rightarrow> int" where
  "wk_available w = wk_pool_size w - wk_acquired w"

definition wk_utilization :: "workers \<Rightarrow> real" where
  "wk_utilization w = of_int (wk_acquired w) / of_int (max (wk_pool_size w) 1)"

definition wk_acquire :: "int \<Rightarrow> workers \<Rightarrow> workers \<times> bool" where
  "wk_acquire n w =
     (if wk_acquired w + n \<le> wk_pool_size w then (w\<lparr>wk_acquired := wk_acquired w + n\<rparr>, True)
      else (w, False))"

definition wk_release :: "int \<Rightarrow> workers \<Rightarrow> workers" where
  "wk_release n w = w\<lparr>wk_acquired := max 0 (wk_acquired w - n)\<rparr>"

definition wk_reset :: "workers \<Rightarrow> workers" where
  "wk_reset w = w\<lparr>wk_acquired := 0\<rparr>"

subsection \<open>Retry planner\<close>

text \<open>The text of a reason is kept structured: \<open>''retry #''\<close> with its number, or the refusal.\<close>

datatype retry_reason = RetryNo int | MaxRetriesExceeded

record retry_schedule =
  rs_should_retry :: bool
  rs_retry_count :: int
  rs_delay_ms :: int
  rs_reason :: retry_reason

record retry_planner =
  rp_retry_counts :: "(string, int) dict"
  rp_total_retries :: int

definition rp_init :: retry_planner where
  "rp_init = \<lparr>rp_retry_counts = [], rp_total_retries = 0\<rparr>"

definition rp_retry_rate :: "retry_planner \<Rightarrow> real" where
  "rp_retry_rate r =
     of_int (rp_total_retries r) / of_int (max (sum_list (dict_values (rp_retry_counts r))) 1)"

definition rp_plan :: "string \<Rightarrow> int \<Rightarrow> retry_planner \<Rightarrow> retry_planner \<times> retry_schedule" where
  "rp_plan item_id max_retries r =
     (let count = dict_get_or (rp_retry_counts r) item_id 0 in
      if count \<ge> max_retries
      then (r, \<lparr>rs_should_retry = False, rs_retry_count = count, rs_delay_ms = 0,
                rs_reason = MaxRetriesExceeded\<rparr>)
      else (r\<lparr>rp_retry_counts := dict_set (rp_retry_counts r) item_id (count + 1),
              rp_total_retries := rp_total_retries r + 1\<rparr>,
            \<lparr>rs_should_retry = True, rs_retry_count = count + 1,
             rs_delay_ms = 100 * 2 ^ nat count + 50, rs_reason = RetryNo (count + 1)\<rparr>))"

definition rp_reset :: "string option \<Rightarrow> retry_planner \<Rightarrow> retry_planner" where
  "rp_reset item_id r =
     (if truthy item_id then r\<lparr>rp_retry_counts := dict_del (rp_retry_counts r) (the item_id)\<rparr>
      else r\<lparr>rp_retry_counts := []\<rparr>)"

subsection \<open>Load predictor and balancer\<close>

record load_predictor =
  lp_timestamps :: "real list"
  lp_window_s :: real

definition lp_init :: load_predictor where
  "lp_init = \<lparr>lp_timestamps = [], lp_window_s = 60\<rparr>"

definition lp_record_dispatch :: "real \<Rightarrow> load_predictor \<Rightarrow> load_predictor" where
  "lp_record_dispatch now p = p\<lparr>lp_timestamps := deque_append 1000 (lp_timestamps p) now\<rparr>"

definition lp_dispatch_rate :: "real \<Rightarrow> load_predictor \<Rightarrow> real" where
  "lp_dispatch_rate now p =
     (let recent = filter (\<lambda>t. t > now - lp_window_s p) (lp_timestamps p)
      in if recent \<noteq> [] then of_nat (length recent) / lp_window_s p else 0)"

definition lp_predicted_load :: "real \<Rightarrow> int \<Rightarrow> load_predictor \<Rightarrow> xfloat" where
  "lp_predicted_load now queue_depth p =
     (let rate = lp_dispatch_rate now p in if rate = 0 then PosInf else Fin (of_int queue_depth / rate))"

definition lp_reset :: "load_predictor \<Rightarrow> load_predictor" where
  "lp_reset p = p\<lparr>lp_timestamps := []\<rparr>"

record balancer =
  qb_threshold :: real
  qb_loads :: "(string, int) dict"
  qb_total_load :: int

definition qb_init :: balancer where
  "qb_init = \<lparr>qb_threshold = 3 / 10, qb_loads = [], qb_total_load = 0\<rparr>"

definition qb_record_push :: "string \<Rightarrow> balancer \<Rightarrow> balancer" where
  "qb_record_push provider b =
     b\<lparr>qb_loads := dict_set (qb_loads b) provider (dict_get_or (qb_loads b) provider 0 + 1),
       qb_total_load := qb_total_load b + 1\<rparr>"

definition qb_record_dispatch :: "string \<Rightarrow> balancer \<Rightarrow> balancer" where
  "qb_record_dispatch provider b =
     b\<lparr>qb_loads := dict_set (qb_loads b) provider (max 0 (dict_get_or (qb_loads b) provider 0 - 1)),
       qb_total_load := max 0 (qb_total_load b - 1)\<rparr>"

definition qb_imbalance :: "balancer \<Rightarrow> real" where
  "qb_imbalance b =
     (if qb_loads b = [] \<or> qb_total_load b = 0 then 0
      else of_int (Max (set (dict_values (qb_loads b))) - Min (set (dict_values (qb_loads b)))) /
           of_int (qb_total_load b))"

definition qb_should_rebalance :: "balancer \<Rightarrow> bool" where
  "qb_should_rebalance b \<longleftrightarrow> qb_imbalance b > qb_threshold b"

definition qb_reset :: "balancer \<Rightarrow> balancer" where
  "qb_reset b = b\<lparr>qb_loads := [], qb_total_load := 0\<rparr>"

subsection \<open>Metrics\<close>

record scheduler_metrics =
  sm_queue_length :: int
  sm_average_wait_time :: real
  sm_dispatch_count :: int
  sm_expired_count :: int
  sm_retry_count :: int
  sm_dispatch_rate :: real
  sm_backpressure_events :: int
  sm_starvation_count :: int
  sm_deadline_misses :: int
  sm_worker_utilization :: real
  sm_dispatch_latency :: real
  sm_fairness_index :: real
  sm_health_status :: string

definition sm_init :: scheduler_metrics where
  "sm_init =
     \<lparr>sm_queue_length = 0, sm_average_wait_time = 0, sm_dispatch_count = 0, sm_expired_count = 0,
      sm_retry_count = 0, sm_dispatch_rate = 0, sm_backpressure_events = 0, sm_starvation_count = 0,
      sm_deadline_misses = 0, sm_worker_utilization = 0, sm_dispatch_latency = 0,
      sm_fairness_index = 1, sm_health_status = ''healthy''\<rparr>"

record queue_metrics =
  qm_queue_length :: int
  qm_average_wait_time :: real
  qm_dispatch_rate :: real
  qm_expired_requests :: int
  qm_retry_rate :: real
  qm_queue_utilization :: real
  qm_starvation_count :: int
  qm_deadline_misses :: int
  qm_backpressure_events :: int
  qm_worker_utilization :: real
  qm_dispatch_latency :: real
  qm_fairness_index :: real
  qm_scheduler_health :: string

definition sm_snapshot :: "scheduler_metrics \<Rightarrow> queue_metrics" where
  "sm_snapshot m =
     \<lparr>qm_queue_length = sm_queue_length m, qm_average_wait_time = sm_average_wait_time m,
      qm_dispatch_rate = sm_dispatch_rate m, qm_expired_requests = sm_expired_count m,
      qm_retry_rate = of_int (sm_retry_count m) / of_int (max (sm_dispatch_count m) 1),
      qm_queue_utilization = of_int (sm_queue_length m) / of_int (max 500 1),
      qm_starvation_count = sm_starvation_count m, qm_deadline_misses = sm_deadline_misses m,
      qm_backpressure_events = sm_backpressure_events m, qm_worker_utilization = sm_worker_utilization m,
      qm_dispatch_latency = sm_dispatch_latency m, qm_fairness_index = sm_fairness_index m,
      qm_scheduler_health = sm_health_status m\<rparr>"

subsection \<open>Engine state\<close>

datatype overflow_strategy =
  OS_REJECT | OS_DROP_OLDEST | OS_DROP_NEWEST | OS_DELAY | OS_SPILLOVER | OS_PRIORITY_EVICTION |
  OS_ADAPTIVE_EVICTION

record scheduling_policy =
  sp_algorithm :: string
  sp_max_queue_depth :: int
  sp_worker_pool_size :: int
  sp_enable_fairness :: bool
  sp_enable_starvation_detection :: bool
  sp_enable_backpressure :: bool
  sp_enable_deadlines :: bool
  sp_default_priority :: priority_level
  sp_overflow_strategy :: overflow_strategy
  sp_aging_threshold_ms :: real

datatype scheduling_reason =
  SR_QUEUED | SR_QUEUE_FULL | SR_QUEUE_PAUSED | SR_SCHEDULER_NOT_RUNNING | SR_DEADLINE_MISSED |
  SR_CANCELLED | SR_EXPIRED | SR_RETRY | SR_BACKPRESSURE | SR_STARVATION | SR_OVERFLOW | SR_DISPATCHED

record scheduling_decision =
  sdn_queued :: bool
  sdn_item_id :: string
  sdn_position :: int
  sdn_reason :: scheduling_reason
  sdn_retry_after_ms :: real

record dispatch_reservation =
  dr_item_id :: string
  dr_provider :: string
  dr_model :: string
  dr_reserved_at :: real
  dr_expires_at :: real

record dispatch_plan =
  dp_item :: queue_item
  dp_priority :: priority_level
  dp_wait_time_ms :: real
  dp_retry :: retry_schedule
  dp_deadline_ms :: "real option"
  dp_reservation :: dispatch_reservation
  dp_algorithm :: string

record scheduler_health =
  sh_status :: string
  sh_uptime_s :: real
  sh_total_queued :: int
  sh_total_dispatched :: int
  sh_total_expired :: int
  sh_total_canceled :: int
  sh_total_retries :: int
  sh_backpressure_active :: bool
  sh_queue_full_pct :: real
  sh_worker_utilization :: real

datatype sched_event =
    SE_STARTED
  | SE_STOPPED
  | SE_OVERFLOW string string
  | SE_ENQUEUED string string
  | SE_DEQUEUED string real int
  | SE_EXPIRED string
  | SE_CANCELLED string
  | SE_BACKPRESSURE_ENABLED string
  | SE_BACKPRESSURE_DISABLED

record scheduler =
  sc_bus :: bool
  sc_running :: bool
  sc_paused :: bool
  sc_pause_reason :: string
  sc_policy :: scheduling_policy
  sc_started_at :: real
  sc_dispatched :: int
  sc_canceled :: int
  sc_expired :: int
  sc_total_wait :: real
  sc_fifo :: pqueue
  sc_edf :: edf_queue
  sc_fair :: fair_queue
  sc_starvation :: starvation
  sc_backpressure :: backpressure
  sc_workers :: workers
  sc_retry :: retry_planner
  sc_predictor :: load_predictor
  sc_metrics :: scheduler_metrics
  sc_balancer :: balancer
  sc_reservations :: "(string, dispatch_reservation) dict"
  sc_health :: scheduler_health
  sc_events :: "sched_event list"

definition sched_init ::
  "bool \<Rightarrow> int \<Rightarrow> int \<Rightarrow> bool \<Rightarrow> string \<Rightarrow> real \<Rightarrow> real \<Rightarrow> scheduler" where
  "sched_init bus max_queue worker_pool fair algorithm bp_hi bp_lo =
     \<lparr>sc_bus = bus, sc_running = False, sc_paused = False, sc_pause_reason = [],
      sc_policy =
        \<lparr>sp_algorithm = algorithm, sp_max_queue_depth = max_queue, sp_worker_pool_size = worker_pool,
         sp_enable_fairness = fair, sp_enable_starvation_detection = True, sp_enable_backpressure = True,
         sp_enable_deadlines = True, sp_default_priority = NORMAL, sp_overflow_strategy = OS_REJECT,
         sp_aging_threshold_ms = 30 * 1000\<rparr>,
      sc_started_at = 0, sc_dispatched = 0, sc_canceled = 0, sc_expired = 0, sc_total_wait = 0,
      sc_fifo = pq_init max_queue, sc_edf = edf_init, sc_fair = wf_init, sc_starvation = sd_init,
      sc_backpressure = bp_init (py_int (bp_hi * of_int max_queue)) (py_int (bp_lo * of_int max_queue)),
      sc_workers = wk_init worker_pool, sc_retry = rp_init, sc_predictor = lp_init,
      sc_metrics = sm_init, sc_balancer = qb_init, sc_reservations = [],
      sc_health =
        \<lparr>sh_status = ''stopped'', sh_uptime_s = 0, sh_total_queued = 0, sh_total_dispatched = 0,
         sh_total_expired = 0, sh_total_canceled = 0, sh_total_retries = 0,
         sh_backpressure_active = False, sh_queue_full_pct = 0, sh_worker_utilization = 0\<rparr>,
      sc_events = []\<rparr>"

subsection \<open>Operations\<close>

definition sched_publish :: "sched_event \<Rightarrow> scheduler \<Rightarrow> scheduler" where
  "sched_publish ev s = (if sc_bus s then s\<lparr>sc_events := sc_events s @ [ev]\<rparr> else s)"

definition total_depth :: "scheduler \<Rightarrow> int" where
  "total_depth s = pq_total (sc_fifo s) + edf_total (sc_edf s) + wf_total (sc_fair s)"

definition set_status :: "string \<Rightarrow> scheduler \<Rightarrow> scheduler" where
  "set_status st s = s\<lparr>sc_health := (sc_health s)\<lparr>sh_status := st\<rparr>\<rparr>"

definition update_health :: "real \<Rightarrow> scheduler \<Rightarrow> scheduler" where
  "update_health now s =
     s\<lparr>sc_health :=
         \<lparr>sh_status = sh_status (sc_health s),
          sh_uptime_s = (if sc_started_at s > 0 then now - sc_started_at s else 0),
          sh_total_queued = total_depth s, sh_total_dispatched = sc_dispatched s,
          sh_total_expired = sc_expired s, sh_total_canceled = sc_canceled s,
          sh_total_retries = rp_total_retries (sc_retry s),
          sh_backpressure_active = bp_active (sc_backpressure s),
          sh_queue_full_pct =
            of_int (total_depth s) / of_int (max (sp_max_queue_depth (sc_policy s)) 1),
          sh_worker_utilization = wk_utilization (sc_workers s)\<rparr>\<rparr>"

definition sched_start :: "real \<Rightarrow> scheduler \<Rightarrow> scheduler" where
  "sched_start now s =
     (if sc_running s then s
      else sched_publish SE_STARTED (set_status ''running''
             (s\<lparr>sc_running := True, sc_paused := False, sc_pause_reason := [], sc_started_at := now\<rparr>)))"

definition sched_stop :: "real \<Rightarrow> scheduler \<Rightarrow> scheduler" where
  "sched_stop now s =
     (if \<not> sc_running s then s
      else
        (let s = set_status ''stopped'' (s\<lparr>sc_running := False, sc_paused := False\<rparr>);
             s = s\<lparr>sc_fifo := pq_clear (sc_fifo s), sc_edf := edf_clear (sc_edf s),
                   sc_fair := wf_clear (sc_fair s)\<rparr>
         in sched_publish SE_STOPPED (update_health now s)))"

definition sched_health :: "real \<Rightarrow> scheduler \<Rightarrow> scheduler \<times> scheduler_health" where
  "sched_health now s = (let s = update_health now s in (s, sc_health s))"

definition sched_metrics :: "scheduler \<Rightarrow> scheduler \<times> queue_metrics" where
  "sched_metrics s =
     (let s = s\<lparr>sc_metrics := (sc_metrics s)\<lparr>sm_queue_length := total_depth s\<rparr>\<rparr>
      in (s, sm_snapshot (sc_metrics s)))"

definition average_wait :: "scheduler \<Rightarrow> real" where
  "average_wait s = (if sc_dispatched s = 0 then 0 else sc_total_wait s / of_int (sc_dispatched s))"

record queue_statistics =
  qs_total_queued :: int
  qs_total_dispatched :: int
  qs_total_expired :: int
  qs_total_canceled :: int
  qs_total_retries :: int
  qs_average_wait_ms :: real
  qs_dispatch_rate :: real
  qs_backpressure_events :: int
  qs_starvation_count :: int
  qs_overflow_count :: int
  qs_worker_utilization :: real

definition sched_statistics :: "real \<Rightarrow> scheduler \<Rightarrow> queue_statistics" where
  "sched_statistics now s =
     \<lparr>qs_total_queued = total_depth s, qs_total_dispatched = sc_dispatched s,
      qs_total_expired = sc_expired s, qs_total_canceled = sc_canceled s,
      qs_total_retries = rp_total_retries (sc_retry s), qs_average_wait_ms = average_wait s,
      qs_dispatch_rate = lp_dispatch_rate now (sc_predictor s),
      qs_backpressure_events = bp_events (sc_backpressure s),
      qs_starvation_count = sd_count (sc_starvation s),
      qs_overflow_count = pq_overflow_count (sc_fifo s),
      qs_worker_utilization = wk_utilization (sc_workers s)\<rparr>"

record queue_snapshot =
  qsn_timestamp :: real
  qsn_total_queued :: int
  qsn_depth_by_priority :: "(priority_level, nat) dict"
  qsn_edf_depth :: int
  qsn_fair_depth :: int
  qsn_backpressure_active :: bool
  qsn_worker_utilization :: real
  qsn_average_wait_ms :: real
  qsn_max_wait_ms :: real
  qsn_overflow_count :: int

definition sched_snapshot :: "real \<Rightarrow> real \<Rightarrow> scheduler \<Rightarrow> queue_snapshot" where
  "sched_snapshot now_ms wt s =
     (let depths = filter (\<lambda>(_, d). d > 0) (map (\<lambda>l. (l, pq_depth (sc_fifo s) l)) priority_levels);
          waits = concat (map (\<lambda>l. map (\<lambda>e. now_ms - qe_enqueued_ms e) (take 10 (pq_queues (sc_fifo s) l)))
                            priority_levels)
      in \<lparr>qsn_timestamp = wt, qsn_total_queued = total_depth s, qsn_depth_by_priority = depths,
          qsn_edf_depth = edf_total (sc_edf s), qsn_fair_depth = wf_total (sc_fair s),
          qsn_backpressure_active = bp_active (sc_backpressure s),
          qsn_worker_utilization = wk_utilization (sc_workers s),
          qsn_average_wait_ms = sum_list waits / of_nat (max (length waits) 1),
          qsn_max_wait_ms = (if waits = [] then 0 else Max (set waits)),
          qsn_overflow_count = pq_overflow_count (sc_fifo s)\<rparr>)"

definition refuse_decision :: "scheduling_reason \<Rightarrow> real \<Rightarrow> scheduling_decision" where
  "refuse_decision r retry_after =
     \<lparr>sdn_queued = False, sdn_item_id = [], sdn_position = 0, sdn_reason = r, sdn_retry_after_ms = retry_after\<rparr>"

text \<open>Truthiness of an optional number: \<open>None\<close> and zero are false.\<close>

definition truthy_num :: "real option \<Rightarrow> bool" where
  "truthy_num d = (case d of None \<Rightarrow> False | Some x \<Rightarrow> x \<noteq> 0)"

definition make_entry ::
  "real \<Rightarrow> real \<Rightarrow> string \<Rightarrow> string \<Rightarrow> string \<Rightarrow> priority_level \<Rightarrow> real option \<Rightarrow> real \<Rightarrow> real \<Rightarrow> string option \<Rightarrow>
   queue_entry" where
  "make_entry now_ms wt fresh provider model priority deadline_s provider_cost estimated_latency_ms affinity =
     \<lparr>qe_item =
        \<lparr>qi_id = fresh, qi_provider = provider, qi_model = model, qi_priority = priority,
         qi_created_at = wt, qi_deadline = map_option (\<lambda>d. wt + d) deadline_s,
         qi_cost = provider_cost, qi_estimated_latency_ms = estimated_latency_ms,
         qi_queue_affinity = or_else affinity []\<rparr>,
      qe_priority_level = priority, qe_enqueued_ms = now_ms,
      qe_deadline_ms = (if truthy_num deadline_s then Some (now_ms + the deadline_s * 1000) else None),
      qe_retry_count = 0, qe_age_boost = 0\<rparr>"

text \<open>The choice of a queue by algorithm, the body of \<open>enqueue\<close> after the overflow check.\<close>

definition enqueue_by_algorithm ::
  "string \<Rightarrow> real option \<Rightarrow> string option \<Rightarrow> queue_entry \<Rightarrow> scheduler \<Rightarrow> scheduler \<times> bool" where
  "enqueue_by_algorithm provider deadline_s affinity e s =
     (let algo = sp_algorithm (sc_policy s);
          to_edf = (s\<lparr>sc_edf := edf_push (sc_edf s) e\<rparr>, True);
          to_fair = (s\<lparr>sc_fair := wf_push (or_else affinity provider) e (sc_fair s)\<rparr>, True);
          to_fifo = (let (q, ok) = pq_push e ''reject'' (sc_fifo s) in (s\<lparr>sc_fifo := q\<rparr>, ok))
      in if algo = ''edf'' then to_edf
         else if algo = ''fair'' then to_fair
         else if algo \<in> {''fifo'', ''priority''} then to_fifo
         else if deadline_s \<noteq> None then to_edf
         else if or_else affinity provider \<noteq> [] then to_fair
         else to_fifo)"

definition sched_enqueue ::
  "real \<Rightarrow> real \<Rightarrow> string \<Rightarrow> string \<Rightarrow> string \<Rightarrow> priority_level \<Rightarrow> real option \<Rightarrow> real \<Rightarrow> real \<Rightarrow> string option \<Rightarrow>
   scheduler \<Rightarrow> scheduler \<times> scheduling_decision" where
  "sched_enqueue now_ms wt fresh provider model priority deadline_s cost latency affinity s =
     (if \<not> sc_running s then (s, refuse_decision SR_SCHEDULER_NOT_RUNNING 0)
      else if sc_paused s then (s, refuse_decision SR_QUEUE_PAUSED 0)
      else
        (let e = make_entry now_ms wt fresh provider model priority deadline_s cost latency affinity;
             depth = total_depth s;
             s = s\<lparr>sc_backpressure := fst (bp_update depth (sc_backpressure s))\<rparr>;
             algo = sp_algorithm (sc_policy s)
         in if depth \<ge> sp_max_queue_depth (sc_policy s) \<and> algo \<in> {''fifo'', ''priority''} \<and>
               sp_overflow_strategy (sc_policy s) = OS_REJECT
            then (sched_publish (SE_OVERFLOW fresh ''max queue depth'') s,
                  refuse_decision SR_QUEUE_FULL (30 * 1000))
            else
              (let (s, queued) = enqueue_by_algorithm provider deadline_s affinity e s in
               if \<not> queued \<and> \<not> (algo \<in> {''edf'', ''fair''} \<and> truthy_num deadline_s \<or> truthy affinity)
               then (sched_publish (SE_OVERFLOW fresh ''queue full'') s,
                     refuse_decision SR_QUEUE_FULL (30 * 1000))
               else
                 (sched_publish (SE_ENQUEUED fresh provider)
                    (s\<lparr>sc_balancer := qb_record_push provider (sc_balancer s)\<rparr>),
                  \<lparr>sdn_queued = True, sdn_item_id = fresh, sdn_position = depth + 1,
                   sdn_reason = SR_QUEUED, sdn_retry_after_ms = 0\<rparr>))))"

text \<open>Step 1 of \<open>dequeue\<close>: entries whose deadline has passed are dropped and counted.\<close>

definition drop_expired :: "real \<Rightarrow> scheduler \<Rightarrow> scheduler" where
  "drop_expired now_ms s =
     (let (q, es) = edf_expired now_ms (sc_edf s) in
      fold (\<lambda>e s. sched_publish (SE_EXPIRED (qi_id (qe_item e)))
              (s\<lparr>sc_expired := sc_expired s + 1,
                 sc_metrics := (sc_metrics s)
                   \<lparr>sm_expired_count := sm_expired_count (sc_metrics s) + 1,
                    sm_deadline_misses := sm_deadline_misses (sc_metrics s) + 1\<rparr>\<rparr>))
        es (s\<lparr>sc_edf := q\<rparr>))"

text \<open>Step 3 of \<open>dequeue\<close>: the queue that the algorithm pops.\<close>

definition take_edf :: "scheduler \<Rightarrow> scheduler \<times> queue_entry option" where
  "take_edf s = (let (q, e) = edf_pop (sc_edf s) in (s\<lparr>sc_edf := q\<rparr>, e))"

definition take_fifo :: "scheduler \<Rightarrow> scheduler \<times> queue_entry option" where
  "take_fifo s = (let (q, e) = pq_pop (sc_fifo s) in (s\<lparr>sc_fifo := q\<rparr>, e))"

definition take_fair ::
  "(fair_queue \<Rightarrow> (fair_queue \<times> queue_entry option) result) \<Rightarrow> scheduler \<Rightarrow>
   (scheduler \<times> queue_entry option) result" where
  "take_fair pop s = map_sum id (\<lambda>(q, e). (s\<lparr>sc_fair := q\<rparr>, e)) (pop (sc_fair s))"

definition select_entry :: "real \<Rightarrow> scheduler \<Rightarrow> (scheduler \<times> queue_entry option) result" where
  "select_entry now_ms s =
     (let algo = sp_algorithm (sc_policy s) in
      if algo = ''edf'' then Inr (take_edf s)
      else if algo = ''fifo'' then Inr (take_fifo s)
      else if algo = ''fair'' then take_fair (wf_pop_wfq now_ms) s
      else if algo = ''wrr'' then take_fair wf_pop_wrr s
      else if algo = ''rr'' then take_fair wf_pop_rr s
      else
        (case take_edf s of
           (s, Some e) \<Rightarrow> Inr (s, Some e)
         | (s, None) \<Rightarrow>
             (case take_fair (wf_pop_wfq now_ms) s of
                Inl err \<Rightarrow> Inl err
              | Inr (s, Some e) \<Rightarrow> Inr (s, Some e)
              | Inr (s, None) \<Rightarrow> Inr (take_fifo s))))"

text \<open>The bookkeeping of \<open>dequeue\<close> for a selected entry.\<close>

definition dispatch_entry :: "real \<Rightarrow> real \<Rightarrow> queue_entry \<Rightarrow> scheduler \<Rightarrow> scheduler \<times> dispatch_plan" where
  "dispatch_entry now now_ms e s =
     (let item = qe_item e;
          (d, boost) = sd_check now_ms e (sc_starvation s);
          s = s\<lparr>sc_starvation := d\<rparr>;
          s = (if boost > 0
               then s\<lparr>sc_metrics := (sc_metrics s)\<lparr>sm_starvation_count := sm_starvation_count (sc_metrics s) + 1\<rparr>\<rparr>
               else s);
          (r, retry) = rp_plan (qi_id item) 3 (sc_retry s);
          wait_ms = now_ms - qe_enqueued_ms e;
          s = s\<lparr>sc_retry := r, sc_total_wait := sc_total_wait s + wait_ms,
                sc_dispatched := sc_dispatched s + 1,
                sc_predictor := lp_record_dispatch now (sc_predictor s)\<rparr>;
          s = s\<lparr>sc_backpressure := fst (bp_update (total_depth s) (sc_backpressure s))\<rparr>;
          reservation = \<lparr>dr_item_id = qi_id item, dr_provider = qi_provider item, dr_model = qi_model item,
                         dr_reserved_at = now_ms, dr_expires_at = now_ms + 30000\<rparr>;
          s = s\<lparr>sc_reservations := dict_set (sc_reservations s) (qi_id item) reservation\<rparr>
      in (sched_publish (SE_DEQUEUED (qi_id item) wait_ms boost) s,
          \<lparr>dp_item = item, dp_priority = qe_priority_level e, dp_wait_time_ms = wait_ms, dp_retry = retry,
           dp_deadline_ms = qe_deadline_ms e, dp_reservation = reservation,
           dp_algorithm = sp_algorithm (sc_policy s)\<rparr>))"

definition sched_dequeue :: "real \<Rightarrow> real \<Rightarrow> scheduler \<Rightarrow> (scheduler \<times> dispatch_plan option) result" where
  "sched_dequeue now now_ms s =
     (if \<not> sc_running s \<or> sc_paused s then Inr (s, None)
      else
        (let s = drop_expired now_ms s; (w, got) = wk_acquire 1 (sc_workers s) in
         if \<not> got then Inr (s, None)
         else
           (case select_entry now_ms (s\<lparr>sc_workers := w\<rparr>) of
              Inl err \<Rightarrow> Inl err
            | Inr (s, None) \<Rightarrow> Inr (s\<lparr>sc_workers := wk_release 1 (sc_workers s)\<rparr>, None)
            | Inr (s, Some e) \<Rightarrow>
                (let (s, plan) = dispatch_entry now now_ms e s in Inr (s, Some plan)))))"

definition sched_cancel :: "string \<Rightarrow> scheduler \<Rightarrow> scheduler \<times> bool" where
  "sched_cancel item_id s =
     (let (q, found) = pq_remove item_id (sc_fifo s); s = s\<lparr>sc_fifo := q\<rparr>;
          (s, found) =
            (if found then (s, True)
             else (let (q, found) = edf_remove item_id (sc_edf s) in (s\<lparr>sc_edf := q\<rparr>, found)));
          (s, found) =
            (if found then (s, True)
             else (let (q, found) = wf_cancel item_id (sc_fair s) in (s\<lparr>sc_fair := q\<rparr>, found)))
      in (if found then sched_publish (SE_CANCELLED item_id) (s\<lparr>sc_canceled := sc_canceled s + 1\<rparr>) else s,
          found))"

definition sched_pause :: "string \<Rightarrow> scheduler \<Rightarrow> scheduler" where
  "sched_pause reason s =
     sched_publish (SE_BACKPRESSURE_ENABLED reason)
       (set_status ''paused'' (s\<lparr>sc_paused := True, sc_pause_reason := reason\<rparr>))"

definition sched_resume :: "scheduler \<Rightarrow> scheduler" where
  "sched_resume s =
     sched_publish SE_BACKPRESSURE_DISABLED
       (set_status ''running'' (s\<lparr>sc_paused := False, sc_pause_reason := []\<rparr>))"

end
