(* ===== verification/Scheduler_Queue_Laws.thy ===== *)
theory Scheduler_Queue_Laws
  imports Scheduler_Queues
begin

text \<open>
  What the scheduler's queues promise. The contract \<open>ordered_queue\<close> is a queue that serves its
  entries by rank and, within a rank, in order of arrival; filling and emptying it is a stable
  sort. The priority queue and the deadline queue are instances. The fair queue keeps its counters
  and never raises, and removing an entry from the deadline queue can break its order.
\<close>

subsection \<open>Stable insertion\<close>

definition insert_last :: "('e \<Rightarrow> 'k::linorder) \<Rightarrow> 'e \<Rightarrow> 'e list \<Rightarrow> 'e list" where
  "insert_last f e xs = takeWhile (\<lambda>x. f x \<le> f e) xs @ e # dropWhile (\<lambda>x. f x \<le> f e) xs"

lemma mset_insert_last [simp]: "mset (insert_last f e xs) = add_mset e (mset xs)"
proof -
  have "mset xs = mset (takeWhile (\<lambda>x. f x \<le> f e) xs @ dropWhile (\<lambda>x. f x \<le> f e) xs)" by simp
  then show ?thesis unfolding insert_last_def by (simp del: takeWhile_dropWhile_id)
qed

lemma dropWhile_greater:
  "sorted (map f xs) \<Longrightarrow> x \<in> set (dropWhile (\<lambda>x. f x \<le> f e) xs) \<Longrightarrow> f e < f x"
  by (induction xs) (auto split: if_splits)

lemma sorted_insert_last: "sorted (map f xs) \<Longrightarrow> sorted (map f (insert_last f e xs))"
  by (induction xs) (auto simp: insert_last_def dest: set_takeWhileD set_dropWhileD)

lemma filter_insert_last:
  assumes "sorted (map f xs)"
  shows "filter (\<lambda>x. k = f x) (insert_last f e xs) = filter (\<lambda>x. k = f x) xs @ (if k = f e then [e] else [])"
proof -
  let ?t = "takeWhile (\<lambda>x. f x \<le> f e) xs" and ?d = "dropWhile (\<lambda>x. f x \<le> f e) xs"
  have "filter (\<lambda>x. k = f x) xs = filter (\<lambda>x. k = f x) ?t @ filter (\<lambda>x. k = f x) ?d"
    by (simp flip: filter_append)
  moreover have "filter (\<lambda>x. k = f x) ?d = []" if "k = f e"
    using dropWhile_greater [OF assms, of _ e] that by (metis (mono_tags, lifting) filter_False less_irrefl)
  ultimately show ?thesis by (auto simp: insert_last_def)
qed

lemma filter_sort_key: "filter (\<lambda>x. k = f x) (sort_key f xs) = filter (\<lambda>x. k = f x) xs"
  using sort_key_stable [of f k xs] by (simp only: eq_commute [of k])

lemma sort_key_snoc: "sort_key f (xs @ [e]) = insert_last f e (sort_key f xs)"
  by (rule sym, rule properties_for_sort_key [symmetric])
     (simp_all add: sorted_insert_last filter_insert_last filter_sort_key)

lemma foldl_insert_last: "foldl (\<lambda>xs e. insert_last f e xs) [] es = sort_key f es"
  by (induction es rule: rev_induct) (simp_all add: sort_key_snoc)

subsection \<open>Contract of an ordered queue\<close>

locale ordered_queue =
  fixes push :: "'q \<Rightarrow> 'e \<Rightarrow> 'q"
    and pop :: "'q \<Rightarrow> 'q \<times> 'e option"
    and abs :: "'q \<Rightarrow> 'e list"
    and ok :: "'q \<Rightarrow> bool"
    and rank :: "'e \<Rightarrow> 'k::linorder"
  assumes push_ok: "ok q \<Longrightarrow> ok (push q e)"
    and push_abs: "ok q \<Longrightarrow> abs (push q e) = insert_last rank e (abs q)"
    and pop_ok: "ok q \<Longrightarrow> ok (fst (pop q))"
    and pop_abs: "ok q \<Longrightarrow> abs (fst (pop q)) = tl (abs q)"
    and pop_val: "ok q \<Longrightarrow> snd (pop q) = (if abs q = [] then None else Some (hd (abs q)))"
begin

lemma fill: "ok q \<Longrightarrow> ok (foldl push q es) \<and> abs (foldl push q es) = foldl (\<lambda>xs e. insert_last rank e xs) (abs q) es"
  by (induction es arbitrary: q) (auto simp: push_ok push_abs)

lemma empty_out:
  "ok q \<Longrightarrow> length (abs q) = length is \<Longrightarrow> snd (run_calls (\<lambda>_. pop) is q) = map Some (abs q)"
proof (induction "is" arbitrary: q)
  case (Cons i "is")
  then obtain x xs where x: "abs q = x # xs" by (cases "abs q") auto
  have "snd (run_calls (\<lambda>_. pop) is (fst (pop q))) = map Some xs"
    using Cons.IH [of "fst (pop q)"] Cons.prems pop_abs [OF Cons.prems(1)] pop_ok x by simp
  then show ?case using pop_val [OF Cons.prems(1)] x by (simp add: case_prod_beta)
qed simp

theorem serves_stable_sorted:
  assumes "ok q" "abs q = []"
  shows "snd (run_calls (\<lambda>_. pop) es (foldl push q es)) = map Some (sort_key rank es)"
proof -
  have "ok (foldl push q es)" "abs (foldl push q es) = sort_key rank es"
    using fill [OF assms(1), of es] assms(2) by (simp_all add: foldl_insert_last)
  then show ?thesis using empty_out [of "foldl push q es" es] by simp
qed

end

lemma insert_last_append:
  "(\<And>x. x \<in> set xs \<Longrightarrow> f x \<le> f e) \<Longrightarrow> (\<And>y. y \<in> set ys \<Longrightarrow> f e < f y) \<Longrightarrow>
   insert_last f e (xs @ ys) = xs @ e # ys"
proof -
  assume "\<And>x. x \<in> set xs \<Longrightarrow> f x \<le> f e" "\<And>y. y \<in> set ys \<Longrightarrow> f e < f y"
  moreover from this(2) have "takeWhile (\<lambda>x. f x \<le> f e) ys = []" "dropWhile (\<lambda>x. f x \<le> f e) ys = ys"
    by (cases ys; force)+
  ultimately show ?thesis by (simp add: insert_last_def)
qed

subsection \<open>The priority queue\<close>

definition pq_entries :: "pqueue \<Rightarrow> queue_entry list" where
  "pq_entries q = concat (map (pq_queues q) priority_levels)"

definition pq_ok :: "pqueue \<Rightarrow> bool" where
  "pq_ok q \<longleftrightarrow> pq_total q = int (length (pq_entries q)) \<and>
     (\<forall>l. \<forall>e \<in> set (pq_queues q l). qe_priority_level e = l)"

lemma pq_init_ok [simp]: "pq_ok (pq_init n)" "pq_entries (pq_init n) = []"
  by (simp_all add: pq_ok_def pq_entries_def pq_init_def)

lemma pq_clear_ok [simp]: "pq_ok (pq_clear q)" "pq_entries (pq_clear q) = []"
  by (simp_all add: pq_ok_def pq_entries_def pq_clear_def)

lemma pq_append_entries:
  assumes "\<forall>l. \<forall>e \<in> set (pq_queues q l). qe_priority_level e = l"
  shows "pq_entries (pq_append e q) = insert_last qe_priority_level e (pq_entries q)"
proof -
  let ?le = "filter (\<lambda>l. l \<le> qe_priority_level e) priority_levels"
  let ?gt = "filter (\<lambda>l. qe_priority_level e < l) priority_levels"
  have "pq_entries q = concat (map (pq_queues q) ?le) @ concat (map (pq_queues q) ?gt)"
    by (cases "qe_priority_level e") (simp_all add: pq_entries_def level_order)
  moreover have "pq_entries (pq_append e q) = concat (map (pq_queues q) ?le) @ e # concat (map (pq_queues q) ?gt)"
    by (cases "qe_priority_level e") (simp_all add: pq_entries_def pq_append_def level_order)
  moreover have "insert_last qe_priority_level e (concat (map (pq_queues q) ?le) @ concat (map (pq_queues q) ?gt)) =
      concat (map (pq_queues q) ?le) @ e # concat (map (pq_queues q) ?gt)"
    by (rule insert_last_append) (use assms in \<open>auto simp del: filter.simps simp: image_iff\<close>)
  ultimately show ?thesis by simp
qed

lemma pq_append_ok: "pq_ok q \<Longrightarrow> pq_ok (pq_append e q)"
proof -
  assume ok: "pq_ok q"
  then have "length (pq_entries (pq_append e q)) = Suc (length (pq_entries q))"
    by (simp add: pq_append_entries pq_ok_def flip: size_mset)
  with ok show ?thesis by (auto simp: pq_ok_def pq_append_def)
qed

lemma find_nonempty_entries:
  "(case find (\<lambda>l. qs l \<noteq> []) ls of
      None \<Rightarrow> concat (map qs ls) = []
    | Some l \<Rightarrow> l \<in> set ls \<and> qs l \<noteq> [] \<and> hd (concat (map qs ls)) = hd (qs l) \<and> concat (map qs ls) \<noteq> [])"
  by (induction ls) (auto split: option.splits)

lemma find_nonempty_tl:
  "distinct ls \<Longrightarrow> find (\<lambda>l. qs l \<noteq> []) ls = Some l \<Longrightarrow>
   concat (map (qs(l := tl (qs l))) ls) = tl (concat (map qs ls))"
proof (induction ls)
  case (Cons m ls)
  show ?case
  proof (cases "qs m = []")
    case True
    with Cons show ?thesis by (auto dest: find_SomeD)
  next
    case False
    with Cons.prems have "l = m" "m \<notin> set ls" by auto
    then have "map (qs(l := tl (qs l))) ls = map qs ls" by (auto intro: map_cong)
    with False \<open>l = m\<close> show ?thesis by (simp only: list.map concat.simps fun_upd_same)
        (simp add: tl_append2)
  qed
qed simp

lemma pq_pop_entries:
  "pq_entries (fst (pq_pop q)) = tl (pq_entries q)"
  "snd (pq_pop q) = (if pq_entries q = [] then None else Some (hd (pq_entries q)))"
  using find_nonempty_entries [of "pq_queues q" priority_levels]
    find_nonempty_tl [of priority_levels "pq_queues q"]
  unfolding pq_entries_def pq_pop_def by (auto split: option.splits)

lemma pq_pop_ok: "pq_ok q \<Longrightarrow> pq_ok (fst (pq_pop q))"
proof -
  assume ok: "pq_ok q"
  have "pq_total (fst (pq_pop q)) = (if pq_entries q = [] then pq_total q else pq_total q - 1)"
    using find_nonempty_entries [of "pq_queues q" priority_levels]
    unfolding pq_pop_def pq_entries_def by (auto split: option.splits)
  moreover have "\<forall>l. set (pq_queues (fst (pq_pop q)) l) \<subseteq> set (pq_queues q l)"
    unfolding pq_pop_def by (auto split: option.splits if_splits dest: list.set_sel(2))
  ultimately show ?thesis
    using ok unfolding pq_ok_def pq_pop_entries by (cases "pq_entries q") auto
qed

interpretation pq: ordered_queue "\<lambda>q e. pq_append e q" pq_pop pq_entries pq_ok qe_priority_level
  by unfold_locales
     (simp_all add: pq_append_ok pq_append_entries pq_pop_ok pq_pop_entries, simp add: pq_ok_def pq_append_entries)

lemma pq_push_below: "pq_total q < pq_max_size q \<Longrightarrow> pq_push e st q = (pq_append e q, True)"
  by (subst pq_push.simps) simp

lemma pq_push_reject:
  "pq_push e ''reject'' q =
     (if pq_total q < pq_max_size q then (pq_append e q, True)
      else (q\<lparr>pq_overflow_count := pq_overflow_count q + 1\<rparr>, False))"
  by (subst pq_push.simps) (simp add: Let_def)

lemma pq_append_sel [simp]:
  "pq_max_size (pq_append e q) = pq_max_size q" "pq_total (pq_append e q) = pq_total q + 1"
  by (simp_all add: pq_append_def)

lemma pq_push_many:
  "pq_total q + int (length es) \<le> pq_max_size q \<Longrightarrow>
   foldl (\<lambda>q e. fst (pq_push e st q)) q es = foldl (\<lambda>q e. pq_append e q) q es"
  by (induction es arbitrary: q) (simp_all add: pq_push_below)

subsubsection \<open>Overflow strategies\<close>

lemma level_in_levels: "l \<in> set priority_levels"
  by (cases l) auto

definition older :: "(priority_level \<Rightarrow> queue_entry list) \<Rightarrow> xfloat \<times> priority_level \<Rightarrow> priority_level \<Rightarrow> xfloat \<times> priority_level" where
  "older qs = (\<lambda>(oldest_time, oldest) level.
     case qs level of
       [] \<Rightarrow> (oldest_time, oldest)
     | e # _ \<Rightarrow> if Fin (qe_enqueued_ms e) < oldest_time
                then (Fin (qe_enqueued_ms e), level) else (oldest_time, oldest))"

lemma older_step:
  assumes "older qs (t, l) m = (t', l')"
  shows "(t' = PosInf \<longrightarrow> t = PosInf \<and> qs m = []) \<and> (qs l' \<noteq> [] \<or> t' = t)"
proof (cases "qs m")
  case Nil
  then show ?thesis using assms by (simp add: older_def)
next
  case (Cons e es)
  then show ?thesis using assms by (cases "Fin (qe_enqueued_ms e) < t"; cases t) (auto simp: older_def)
qed

lemma older_scan:
  "foldl (older qs) (t, l) ls = (t', l') \<Longrightarrow> qs l \<noteq> [] \<or> t = PosInf \<Longrightarrow>
   (t' = PosInf \<longrightarrow> (\<forall>m \<in> set ls. qs m = [])) \<and> (t' \<noteq> PosInf \<longrightarrow> qs l' \<noteq> []) \<and> (t' = PosInf \<longrightarrow> t = PosInf)"
proof (induction ls arbitrary: t l)
  case Nil
  then show ?case by auto
next
  case (Cons m ls)
  obtain t1 l1 where s: "older qs (t, l) m = (t1, l1)" by fastforce
  have f: "foldl (older qs) (t1, l1) ls = (t', l')" using Cons.prems(1) s by simp
  have "qs l1 \<noteq> [] \<or> t1 = PosInf"
  proof (cases "t = PosInf")
    case True
    then show ?thesis using older_step [OF s] by blast
  next
    case False
    then have "qs l \<noteq> []" using Cons.prems(2) by blast
    then show ?thesis using s by (auto simp: older_def split: list.splits if_splits)
  qed
  from Cons.IH [OF f this] older_step [OF s] show ?case unfolding list.set by blast
qed

lemma oldest_level_nonempty:
  assumes "\<exists>l. qs l \<noteq> []"
  shows "qs (oldest_level qs) \<noteq> []"
proof -
  obtain t l where f: "foldl (older qs) (PosInf, BACKGROUND) priority_levels = (t, l)" by fastforce
  then have l: "oldest_level qs = l" unfolding oldest_level_def older_def [symmetric] by simp
  from assms have "\<exists>m \<in> set priority_levels. qs m \<noteq> []" by (metis level_in_levels)
  with older_scan [OF f] l show ?thesis by (auto split: if_splits)
qed

lemma length_pq_entries: "length (pq_entries q) = pq_stored (pq_queues q)"
  by (simp add: pq_entries_def pq_stored_def)

lemma pq_stored_shorter:
  "qs l \<noteq> [] \<Longrightarrow> length ys = length (qs l) - 1 \<Longrightarrow> int (pq_stored (qs(l := ys))) = int (pq_stored qs) - 1"
  by (cases "qs l"; cases l) (simp_all add: pq_stored_def)

lemma pq_stored_0: "pq_stored qs = 0 \<longleftrightarrow> (\<forall>l. qs l = [])"
proof
  assume "pq_stored qs = 0"
  then show "\<forall>l. qs l = []" by (auto simp: pq_stored_def) (metis priority_level.exhaust)
qed (simp add: pq_stored_def)

definition pq_drop :: "priority_level \<Rightarrow> queue_entry list \<Rightarrow> pqueue \<Rightarrow> pqueue" where
  "pq_drop l es q =
     q\<lparr>pq_overflow_count := pq_overflow_count q + 1, pq_queues := (pq_queues q)(l := es),
       pq_total := pq_total q - 1\<rparr>"

lemma pq_ok_drop:
  assumes "pq_ok q" "pq_queues q l \<noteq> []" "set es \<subseteq> set (pq_queues q l)"
    "length es = length (pq_queues q l) - 1"
  shows "pq_ok (pq_drop l es q)"
  using assms pq_stored_shorter [of "pq_queues q" l es]
  by (auto simp: pq_ok_def length_pq_entries pq_drop_def)

lemma pq_push_unfold:
  "pq_push e st q =
     (if pq_total q < pq_max_size q then (pq_append e q, True)
      else if st = ''drop_oldest'' then
        (let l = oldest_level (pq_queues q) in
         if pq_queues q l \<noteq> [] then pq_push e st (pq_drop l (tl (pq_queues q l)) q)
         else (pq_append e (q\<lparr>pq_overflow_count := pq_overflow_count q + 1\<rparr>), True))
      else if st = ''drop_newest'' then (q\<lparr>pq_overflow_count := pq_overflow_count q + 1\<rparr>, True)
      else if st = ''priority_eviction'' then
        (case find (\<lambda>l. pq_queues q l \<noteq> []) (rev priority_levels) of
           Some l \<Rightarrow> pq_push e st (pq_drop l (butlast (pq_queues q l)) q)
         | None \<Rightarrow> (q\<lparr>pq_overflow_count := pq_overflow_count q + 1\<rparr>, False))
      else (q\<lparr>pq_overflow_count := pq_overflow_count q + 1\<rparr>, False))"
  by (subst pq_push.simps) (simp add: Let_def pq_drop_def not_less)

lemma pq_drop_sel [simp]:
  "pq_max_size (pq_drop l es q) = pq_max_size q" "pq_total (pq_drop l es q) = pq_total q - 1"
  by (simp_all add: pq_drop_def)

lemma pq_ok_overflow [simp]: "pq_ok (q\<lparr>pq_overflow_count := n\<rparr>) = pq_ok q"
  by (simp add: pq_ok_def pq_entries_def)

text \<open>With a positive capacity, a push under any strategy keeps the queue within it.\<close>

lemma pq_push_capacity:
  "pq_ok q \<Longrightarrow> 1 \<le> pq_max_size q \<Longrightarrow> pq_total q \<le> pq_max_size q \<Longrightarrow>
   pq_ok (fst (pq_push e st q)) \<and> pq_total (fst (pq_push e st q)) \<le> pq_max_size q \<and>
   pq_max_size (fst (pq_push e st q)) = pq_max_size q"
proof -
  assume ok: "pq_ok q" and cap: "1 \<le> pq_max_size q" "pq_total q \<le> pq_max_size q"
  show ?thesis
  proof (cases "pq_total q < pq_max_size q")
    case True
    with ok show ?thesis by (simp add: pq_push_below pq_append_ok)
  next
    case False
    have old: "pq_queues q (oldest_level (pq_queues q)) \<noteq> []"
    proof -
      have "pq_stored (pq_queues q) \<noteq> 0" using ok cap False by (simp add: pq_ok_def length_pq_entries)
      then show ?thesis using oldest_level_nonempty [of "pq_queues q"] by (auto simp: pq_stored_0)
    qed
    have drop: "pq_ok (pq_drop l es q) \<and> pq_push e st (pq_drop l es q) = (pq_append e (pq_drop l es q), True)"
      if "pq_queues q l \<noteq> []" "set es \<subseteq> set (pq_queues q l)" "length es = length (pq_queues q l) - 1" for l es
      using pq_ok_drop [OF ok that] cap by (simp add: pq_push_below)
    let ?l = "oldest_level (pq_queues q)"
    consider (oldest) "st = ''drop_oldest''" | (newest) "st = ''drop_newest''"
      | (evict) "st = ''priority_eviction''" | (other) "st \<noteq> ''drop_oldest''" "st \<noteq> ''drop_newest''" "st \<noteq> ''priority_eviction''"
      by blast
    then show ?thesis
    proof cases
      case oldest
      then have "pq_push e st q = pq_push e st (pq_drop ?l (tl (pq_queues q ?l)) q)"
        using False old by (subst pq_push_unfold) (simp add: Let_def)
      with drop [OF old, of "tl (pq_queues q ?l)"] old cap show ?thesis
        by (simp add: pq_append_ok subset_iff list.set_sel(2))
    next
      case evict
      show ?thesis
      proof (cases "find (\<lambda>l. pq_queues q l \<noteq> []) (rev priority_levels)")
        case None
        with evict False ok cap show ?thesis by (subst (1 2 3) pq_push_unfold) simp
      next
        case (Some l)
        have l: "pq_queues q l \<noteq> []" using find_SomeD [OF Some] by simp
        have "pq_push e st q = pq_push e st (pq_drop l (butlast (pq_queues q l)) q)"
          using evict False Some by (subst pq_push_unfold) (simp del: find.simps)
        with drop [OF l, of "butlast (pq_queues q l)"] cap show ?thesis
          by (simp add: pq_append_ok subset_iff in_set_butlastD)
      qed
    next
      case newest
      with False ok cap show ?thesis by (subst (1 2 3) pq_push_unfold) simp
    next
      case other
      with False ok cap show ?thesis by (subst (1 2 3) pq_push_unfold) simp
    qed
  qed
qed

subsection \<open>The deadline queue\<close>

definition edf_ok :: "edf_queue \<Rightarrow> bool" where
  "edf_ok q \<longleftrightarrow> heap_ok (edf_heap q) \<and> distinct (map fst (edf_heap q)) \<and>
     (\<forall>((d, c), e) \<in> set (edf_heap q). d = deadline_key e \<and> c \<le> edf_counter q)"

text \<open>The entries in the order in which the heap holds their keys.\<close>

definition edf_order :: "edf_queue \<Rightarrow> queue_entry list" where
  "edf_order q = map snd (sort_key fst (edf_heap q))"

lemma sort_key_unique:
  "mset xs = mset ys \<Longrightarrow> distinct (map f xs) \<Longrightarrow> sort_key f xs = sort_key f ys"
  by (rule sort_key_inj_key_eq) (simp_all add: distinct_map)

lemma edf_init_ok [simp]: "edf_ok edf_init" "edf_order edf_init = []"
  by (simp_all add: edf_ok_def edf_order_def edf_init_def heap_ok_def)

lemma heappush_set [simp]: "heap_ok h \<Longrightarrow> set (heappush h x) = insert x (set h)"
  using heappush_spec [of h x] by (metis set_mset_add_mset_insert set_mset_mset)

lemma distinct_map_mset: "mset xs = mset ys \<Longrightarrow> distinct (map f xs) = distinct (map f ys)"
  by (metis distinct_count_atmost_1 mset_map mset_eq_setD distinct_card mset_eq_imp_distinct_iff)

lemma edf_push_ok:
  assumes "edf_ok q"
  shows "edf_ok (edf_push q e)"
proof -
  let ?x = "((deadline_key e, edf_counter q + 1), e)"
  have h: "heap_ok (edf_heap q)" using assms by (simp add: edf_ok_def)
  have m: "mset (heappush (edf_heap q) ?x) = mset (?x # edf_heap q)" using heappush_spec [OF h] by simp
  have "fst ?x \<notin> fst ` set (edf_heap q)" using assms by (force simp: edf_ok_def)
  then have "distinct (map fst (?x # edf_heap q))" using assms by (simp add: edf_ok_def)
  with distinct_map_mset [OF m] have "distinct (map fst (heappush (edf_heap q) ?x))" by blast
  with assms heappush_spec [OF h] show ?thesis by (auto simp: edf_ok_def edf_push_def h)
qed

lemma edf_push_order:
  assumes "edf_ok q"
  shows "edf_order (edf_push q e) = insert_last deadline_key e (edf_order q)"
proof -
  let ?x = "((deadline_key e, edf_counter q + 1), e)"
  let ?s = "sort_key fst (edf_heap q)"
  have h: "heap_ok (edf_heap q)" using assms by (simp add: edf_ok_def)
  have "mset (heappush (edf_heap q) ?x) = mset (edf_heap q @ [?x])" using heappush_spec [OF h] by simp
  moreover have "distinct (map fst (heappush (edf_heap q) ?x))"
    using edf_push_ok [OF assms, of e] by (simp add: edf_ok_def edf_push_def)
  ultimately have "sort_key fst (heappush (edf_heap q) ?x) = insert_last fst ?x ?s"
    unfolding sort_key_snoc [symmetric] by (rule sort_key_unique)
  moreover have "map snd (insert_last fst ?x ?s) = insert_last deadline_key e (map snd ?s)"
  proof -
    have "(fst y \<le> fst ?x) = (deadline_key (snd y) \<le> deadline_key e)" if "y \<in> set ?s" for y
      using that assms by (force simp: edf_ok_def less_eq_prod_def order_le_less)
    then have "takeWhile (\<lambda>y. fst y \<le> fst ?x) ?s = takeWhile (\<lambda>y. deadline_key (snd y) \<le> deadline_key e) ?s"
      "dropWhile (\<lambda>y. fst y \<le> fst ?x) ?s = dropWhile (\<lambda>y. deadline_key (snd y) \<le> deadline_key e) ?s"
      by (auto intro: takeWhile_cong dropWhile_cong)
    then show ?thesis by (simp add: insert_last_def takeWhile_map dropWhile_map comp_def)
  qed
  ultimately show ?thesis by (simp add: edf_order_def edf_push_def)
qed

lemma heappop_sorted:
  assumes "heap_ok h" "distinct (map fst h)" "heappop h = Inr (x, h')"
  shows "sort_key fst h = x # sort_key fst h'"
proof (rule sort_key_inj_key_eq)
  have m: "mset h = add_mset x (mset h')" and le: "\<forall>y \<in> set h. fst x \<le> fst y"
    using heappop_mset [OF assms(3)] heappop_spec [OF assms(1,3)] by auto
  show "mset h = mset (x # sort_key fst h')" using m by simp
  show "inj_on fst (set h)" using assms(2) by (simp add: distinct_map)
  have "set h' \<subseteq> set h" using m by (metis set_mset_mset set_mset_add_mset_insert subset_insertI)
  then show "sorted (map fst (x # sort_key fst h'))" using le by auto
qed

lemma heappop_edf_ok:
  assumes "edf_ok q" "heappop (edf_heap q) = Inr (x, h')"
  shows "edf_ok (q\<lparr>edf_heap := h'\<rparr>)" "edf_order q = snd x # edf_order (q\<lparr>edf_heap := h'\<rparr>)"
    "fst (fst x) = deadline_key (snd x)" "x = edf_heap q ! 0"
proof -
  have m: "x = edf_heap q ! 0" "mset (edf_heap q) = mset (x # h')"
    using heappop_mset [OF assms(2)] by simp_all
  then have "distinct (map fst (x # h'))"
    using assms(1) distinct_map_mset [OF m(2), of fst] by (simp add: edf_ok_def)
  moreover have "set (edf_heap q) = set (x # h')" using m(2) by (rule mset_eq_setD)
  ultimately show "edf_ok (q\<lparr>edf_heap := h'\<rparr>)" "fst (fst x) = deadline_key (snd x)"
    using assms heappop_spec [of "edf_heap q" x h'] by (auto simp: edf_ok_def)
  show "edf_order q = snd x # edf_order (q\<lparr>edf_heap := h'\<rparr>)"
    using assms heappop_sorted [of "edf_heap q" x h'] by (simp add: edf_order_def edf_ok_def)
  show "x = edf_heap q ! 0" by (rule m(1))
qed

lemma edf_pop_cases:
  obtains (empty) "edf_heap q = []" "edf_pop q = (q, None)"
  | (some) x h' where "heappop (edf_heap q) = Inr (x, h')" "edf_pop q = (q\<lparr>edf_heap := h'\<rparr>, Some (snd x))"
proof (cases "heappop (edf_heap q)")
  case (Inl err)
  moreover have "edf_heap q = []" using Inl by (simp add: heappop_empty)
  ultimately show ?thesis by (intro empty) (simp_all add: edf_pop_def)
next
  case (Inr r)
  then show ?thesis using some by (cases r) (auto simp: edf_pop_def split: prod.splits)
qed

lemma edf_order_Nil [simp]: "edf_order q = [] \<longleftrightarrow> edf_heap q = []"
  by (simp add: edf_order_def flip: length_0_conv)

interpretation edf: ordered_queue edf_push edf_pop edf_order edf_ok deadline_key
proof unfold_locales
  fix q e assume ok: "edf_ok q"
  show "edf_ok (edf_push q e)" "edf_order (edf_push q e) = insert_last deadline_key e (edf_order q)"
    using ok by (rule edf_push_ok, rule edf_push_order)
  have "edf_ok (fst (edf_pop q)) \<and> edf_order (fst (edf_pop q)) = tl (edf_order q) \<and>
    snd (edf_pop q) = (if edf_order q = [] then None else Some (hd (edf_order q)))"
  proof (cases q rule: edf_pop_cases)
    case empty
    then show ?thesis using ok by (simp add: edf_order_def)
  next
    case (some x h')
    have "edf_heap q \<noteq> []" using some(1) by (auto simp: heappop_def)
    with heappop_edf_ok [OF ok some(1)] some(2) show ?thesis by simp
  qed
  then show "edf_ok (fst (edf_pop q))" "edf_order (fst (edf_pop q)) = tl (edf_order q)"
    "snd (edf_pop q) = (if edf_order q = [] then None else Some (hd (edf_order q)))" by blast+
qed

lemma edf_order_sorted: "edf_ok q \<Longrightarrow> sorted (map deadline_key (edf_order q))"
proof -
  assume ok: "edf_ok q"
  have "sorted (map fst (sort_key fst (edf_heap q)))" by simp
  then have "sorted (map (fst \<circ> fst) (sort_key fst (edf_heap q)))"
    by (auto simp: sorted_wrt_map less_eq_prod_def elim: sorted_wrt_mono_rel [rotated])
  moreover have "map (fst \<circ> fst) (sort_key fst (edf_heap q)) = map deadline_key (edf_order q)"
    using ok by (force simp: edf_order_def edf_ok_def)
  ultimately show ?thesis by simp
qed

subsubsection \<open>Expiry\<close>

lemma expired_loop_spec:
  "edf_ok q \<Longrightarrow> expired_loop now (edf_heap q) = (h', es) \<Longrightarrow>
   edf_ok (q\<lparr>edf_heap := h'\<rparr>) \<and> es = filter (\<lambda>e. deadline_key e \<le> Fin now) (edf_order q) \<and>
   edf_order (q\<lparr>edf_heap := h'\<rparr>) = filter (\<lambda>e. \<not> deadline_key e \<le> Fin now) (edf_order q)"
proof (induction "length (edf_heap q)" arbitrary: q es rule: less_induct)
  case less
  let ?P = "\<lambda>e. deadline_key e \<le> Fin now"
  show ?case
  proof (cases "edf_heap q \<noteq> [] \<and> fst (fst (edf_heap q ! 0)) \<le> Fin now")
    case True
    then obtain x h where p: "heappop (edf_heap q) = Inr (x, h)"
      using heappop_empty [of "edf_heap q"] by (cases "heappop (edf_heap q)") auto
    obtain h'' es' where r: "expired_loop now h = (h'', es')" by fastforce
    note ok = heappop_edf_ok [OF less.prems(1) p]
    have "h' = h''" "es = snd x # es'"
      using less.prems(2) True p r by (auto simp: expired_loop.simps [of now "edf_heap q"] split: prod.splits)
    moreover have "?P (snd x)" using True ok(3,4) by simp
    ultimately show ?thesis
      using less.hyps [of "q\<lparr>edf_heap := h\<rparr>" es'] heappop_length [OF p] ok(1,2) r by simp
  next
    case False
    then have eq: "h' = edf_heap q" "es = []"
      using less.prems(2) by (auto simp: expired_loop.simps [of now "edf_heap q"] split: if_splits)
    have "\<not> ?P e" if "e \<in> set (edf_order q)" for e
    proof -
      have "e \<in> snd ` set (edf_heap q)" using that by (simp add: edf_order_def)
      then obtain y where y: "y \<in> set (edf_heap q)" "e = snd y" by blast
      then have "fst (fst (edf_heap q ! 0)) \<le> fst (fst y)"
        using heap_root_least_set [of "edf_heap q" y] less.prems(1) by (auto simp: edf_ok_def less_eq_prod_def)
      also have "fst (fst y) = deadline_key e" using y less.prems(1) by (auto simp: edf_ok_def)
      finally show ?thesis using False y(1) by (cases "edf_heap q") (auto dest: order_trans)
    qed
    then show ?thesis using eq less.prems(1) by simp
  qed
qed

text \<open>The entries leave the queue unchanged in number, in whatever order the list is.\<close>

lemma expired_loop_mset:
  "expired_loop now h = (h', es) \<Longrightarrow> mset (map snd h) = mset (map snd h') + mset es"
proof (induction "length h" arbitrary: h es rule: less_induct)
  case less
  show ?case
  proof (cases "h \<noteq> [] \<and> fst (fst (h ! 0)) \<le> Fin now")
    case True
    then obtain x h1 where p: "heappop h = Inr (x, h1)"
      using heappop_empty [of h] by (cases "heappop h") auto
    obtain h'' es' where r: "expired_loop now h1 = (h'', es')" by fastforce
    have "h' = h''" "es = snd x # es'"
      using less.prems True p r by (auto simp: expired_loop.simps [of now h] split: prod.splits)
    moreover have "mset (map snd h) = mset (map snd (x # h1))"
      using heappop_mset [OF p] by (metis mset_map mset.simps(2))
    ultimately show ?thesis using less.hyps [of h1 es'] r heappop_length [OF p] by simp
  next
    case False
    then show ?thesis using less.prems by (auto simp: expired_loop.simps [of now h] split: if_splits)
  qed
qed

subsection \<open>The fair queue\<close>

definition wf_entries :: "fair_queue \<Rightarrow> queue_entry list" where
  "wf_entries q = concat (dict_values (wf_queues q))"

definition wf_ok :: "fair_queue \<Rightarrow> bool" where
  "wf_ok q \<longleftrightarrow>
     dict_wf (wf_queues q) \<and> wf_total q = int (length (wf_entries q)) \<and>
     (\<forall>g es. dict_get (wf_queues q) g = Some es \<and> es \<noteq> [] \<longrightarrow> dict_get (wf_fairness q) g \<noteq> None) \<and>
     (\<forall>g w. dict_get (wf_weights q) g = Some w \<longrightarrow> 0 < w) \<and>
     wf_rr_index q < max 1 (length (wf_round_robin q)) \<and>
     (\<forall>g. dict_get (wf_fairness q) g \<noteq> None \<longrightarrow> g \<in> set (wf_round_robin q))"

lemma concat_dict_set:
  "dict_wf d \<Longrightarrow>
   mset (concat (dict_values (dict_set d k v))) + mset (dict_get_or d k []) =
   mset (concat (dict_values d)) + mset v"
proof (induction d)
  case (Cons p d)
  obtain a b where p: "p = (a, b)" by (cases p)
  show ?case
  proof (cases "a = k")
    case True
    then show ?thesis by (simp add: p dict_get_or_def)
  next
    case False
    with Cons show ?thesis by (simp add: p dict_get_or_def add.assoc)
  qed
qed (simp add: dict_get_or_def)

text \<open>Replacing the queue of one group by \<open>es\<close> and adding \<open>n\<close> to the total.\<close>

lemma wf_ok_replace:
  assumes "wf_ok q" "wf_queues q' = dict_set (wf_queues q) g es"
    and "wf_total q' = wf_total q + int (length es) - int (length (dict_get_or (wf_queues q) g []))"
    and "es = [] \<or> dict_get (wf_fairness q') g \<noteq> None"
    and "\<And>h. dict_get (wf_fairness q) h \<noteq> None \<Longrightarrow> dict_get (wf_fairness q') h \<noteq> None"
    and "\<And>h. dict_get (wf_fairness q') h \<noteq> None \<Longrightarrow> h \<in> set (wf_round_robin q')"
    and "\<And>h w. dict_get (wf_weights q') h = Some w \<Longrightarrow> 0 < w"
    and "wf_rr_index q' < max 1 (length (wf_round_robin q'))"
  shows "wf_ok q'"
    and "mset (wf_entries q') + mset (dict_get_or (wf_queues q) g []) = mset (wf_entries q) + mset es"
proof -
  have wf: "dict_wf (wf_queues q)" using assms(1) by (simp add: wf_ok_def)
  show m: "mset (wf_entries q') + mset (dict_get_or (wf_queues q) g []) = mset (wf_entries q) + mset es"
    using concat_dict_set [OF wf] by (simp add: wf_entries_def assms(2))
  then have "size (mset (wf_entries q')) + length (dict_get_or (wf_queues q) g []) =
      size (mset (wf_entries q)) + length es"
    by (metis size_mset size_union)
  then have len: "length (wf_entries q') + length (dict_get_or (wf_queues q) g []) =
      length (wf_entries q) + length es" by simp
  have "wf_total q' = int (length (wf_entries q'))" using len assms(1,3) by (simp add: wf_ok_def)
  moreover have "dict_get (wf_fairness q') h \<noteq> None"
    if "dict_get (wf_queues q') h = Some fs" "fs \<noteq> []" for h fs
    using that assms(1,2,4,5) by (auto simp: wf_ok_def split: if_splits)
  ultimately show "wf_ok q'" using assms(6-8) wf assms(2) unfolding wf_ok_def by (auto simp del: not_None_eq)
qed

lemma wf_init_ok [simp]: "wf_ok wf_init" "wf_entries wf_init = []"
  by (simp_all add: wf_ok_def wf_entries_def wf_init_def)

lemma wf_clear_ok: "wf_ok q \<Longrightarrow> wf_ok (wf_clear q)" "wf_entries (wf_clear q) = []"
  by (auto simp: wf_ok_def wf_entries_def wf_clear_def)

lemma wf_set_weight_ok: "wf_ok q \<Longrightarrow> wf_ok (wf_set_weight g w q)"
  by (auto simp: wf_ok_def wf_set_weight_def Let_def wf_entries_def)

lemma wf_set_weight_sel [simp]:
  "wf_queues (wf_set_weight g w q) = wf_queues q" "wf_total (wf_set_weight g w q) = wf_total q"
  "dict_get (wf_fairness (wf_set_weight g w q)) h =
     (if h = g \<and> dict_get (wf_fairness q) g = None then Some new_tracker else dict_get (wf_fairness q) h)"
  by (simp_all add: wf_set_weight_def Let_def)

lemma wf_okD:
  assumes "wf_ok q"
  shows "dict_wf (wf_queues q)" "wf_total q = int (length (wf_entries q))"
    "\<And>g es. dict_get (wf_queues q) g = Some es \<Longrightarrow> es \<noteq> [] \<Longrightarrow> dict_get (wf_fairness q) g \<noteq> None"
    "\<And>g w. dict_get (wf_weights q) g = Some w \<Longrightarrow> 0 < w"
    "wf_rr_index q < max 1 (length (wf_round_robin q))"
    "\<And>g. dict_get (wf_fairness q) g \<noteq> None \<Longrightarrow> g \<in> set (wf_round_robin q)"
  using assms by (auto simp: wf_ok_def)

lemma wf_read_snd [simp]: "snd (wf_read g q) = dict_get_or (wf_queues q) g []"
  by (simp add: wf_read_def dict_get_or_def split: option.splits)

lemma wf_read_sel [simp]:
  "dict_get_or (wf_queues (fst (wf_read g q))) h [] = dict_get_or (wf_queues q) h []"
  "wf_fairness (fst (wf_read g q)) = wf_fairness q" "wf_weights (fst (wf_read g q)) = wf_weights q"
  "wf_round_robin (fst (wf_read g q)) = wf_round_robin q" "wf_rr_index (fst (wf_read g q)) = wf_rr_index q"
  "wf_total (fst (wf_read g q)) = wf_total q"
  by (auto simp: wf_read_def dict_get_or_def split: option.splits)

lemma wf_read_set [simp]:
  "dict_set (wf_queues (fst (wf_read g q))) g es = dict_set (wf_queues q) g es"
  by (simp add: wf_read_def split: option.splits)

lemma wf_read_ok:
  assumes "wf_ok q"
  shows "wf_ok (fst (wf_read g q))" "mset (wf_entries (fst (wf_read g q))) = mset (wf_entries q)"
proof (atomize (full), cases "dict_get (wf_queues q) g")
  case None
  have "wf_ok (fst (wf_read g q))"
    "mset (wf_entries (fst (wf_read g q))) + mset (dict_get_or (wf_queues q) g []) = mset (wf_entries q) + mset []"
    by (rule wf_ok_replace [OF assms, of _ g "[]"];
        use wf_okD [OF assms] None in \<open>simp add: wf_read_def dict_get_or_def\<close>)+
  with None show "wf_ok (fst (wf_read g q)) \<and> mset (wf_entries (fst (wf_read g q))) = mset (wf_entries q)"
    by (simp add: dict_get_or_def)
next
  case (Some es)
  with assms show "wf_ok (fst (wf_read g q)) \<and> mset (wf_entries (fst (wf_read g q))) = mset (wf_entries q)"
    by (simp add: wf_read_def)
qed

lemma wf_push_ok:
  assumes "wf_ok q"
  shows "wf_ok (wf_push g e q)" "mset (wf_entries (wf_push g e q)) = add_mset e (mset (wf_entries q))"
proof -
  define p where "p = (if dict_get (wf_fairness q) g = None then wf_set_weight g 1 q else q)"
  have p: "wf_ok p" "wf_queues p = wf_queues q" "dict_get (wf_fairness p) g \<noteq> None"
    using assms by (auto simp: p_def wf_set_weight_ok)
  let ?es = "dict_get_or (wf_queues p) g []"
  have push: "wf_push g e q = (fst (wf_read g p))
      \<lparr>wf_queues := dict_set (wf_queues p) g (?es @ [e]), wf_total := wf_total p + 1\<rparr>"
    by (simp add: wf_push_def p_def [symmetric] Let_def case_prod_beta)
  have "wf_ok (wf_push g e q)"
    "mset (wf_entries (wf_push g e q)) + mset ?es = mset (wf_entries p) + mset (?es @ [e])"
    by (rule wf_ok_replace [OF p(1), of _ g "?es @ [e]"]; use wf_okD [OF p(1)] p(3) in \<open>simp add: push\<close>)+
  moreover have "wf_entries p = wf_entries q" using p(2) by (simp add: wf_entries_def)
  ultimately show "wf_ok (wf_push g e q)" "mset (wf_entries (wf_push g e q)) = add_mset e (mset (wf_entries q))"
    by simp_all
qed

subsubsection \<open>Contract of the three pops\<close>

text \<open>
  \<open>pop_wfq\<close>, \<open>pop_rr\<close> and \<open>pop_wrr\<close> share a contract: on a consistent queue they do not raise,
  they keep it consistent, they remove exactly the entry they return, and they return nothing
  only when nothing is queued.
\<close>

definition pop_result :: "fair_queue \<Rightarrow> (fair_queue \<times> queue_entry option) result \<Rightarrow> bool" where
  "pop_result q r \<longleftrightarrow>
     (\<exists>q' e. r = Inr (q', e) \<and> wf_ok q' \<and>
        mset (wf_entries q) = mset (wf_entries q') + mset (case e of None \<Rightarrow> [] | Some x \<Rightarrow> [x]) \<and>
        (e = None \<longrightarrow> wf_entries q = []))"

locale fair_pop =
  fixes pop :: "fair_queue \<Rightarrow> (fair_queue \<times> queue_entry option) result"
  assumes pop_spec: "wf_ok q \<Longrightarrow> pop_result q (pop q)"
begin

lemma pop_total:
  assumes "wf_ok q"
  obtains q' e where "pop q = Inr (q', e)" "wf_ok q'"
    "mset (wf_entries q) = mset (wf_entries q') + mset (case e of None \<Rightarrow> [] | Some x \<Rightarrow> [x])"
    "e = None \<Longrightarrow> wf_entries q = []"
  using pop_spec [OF assms] by (auto simp: pop_result_def)

lemma pop_empty_iff: "wf_ok q \<Longrightarrow> (\<exists>q'. pop q = Inr (q', None)) \<longleftrightarrow> wf_entries q = []"
  using pop_spec [of q] by (auto simp: pop_result_def split: option.splits)

end

lemma wf_take_head:
  assumes "wf_ok q" "dict_get_or (wf_queues q) g [] = e # es"
    and "wf_queues q' = dict_set (wf_queues q) g es" "wf_total q' = wf_total q - 1"
    and "\<And>h. dict_get (wf_fairness q') h \<noteq> None \<longleftrightarrow> dict_get (wf_fairness q) h \<noteq> None"
    and "wf_round_robin q' = wf_round_robin q" "wf_weights q' = wf_weights q"
    and "wf_rr_index q' < max 1 (length (wf_round_robin q))"
  shows "pop_result q (Inr (q', Some e))"
proof -
  have g: "dict_get (wf_fairness q) g \<noteq> None"
    using wf_okD(3) [OF assms(1), of g "e # es"] assms(2) by (auto simp: dict_get_or_def split: option.splits)
  have "wf_ok q'" "mset (wf_entries q') + mset (dict_get_or (wf_queues q) g []) = mset (wf_entries q) + mset es"
    by (rule wf_ok_replace [OF assms(1,3)]; use wf_okD [OF assms(1)] assms g in simp)+
  moreover from this(2) assms(2) have "mset (wf_entries q) = add_mset e (mset (wf_entries q'))"
    by (simp add: add.commute [of _ "mset es"])
  ultimately show ?thesis by (simp add: pop_result_def)
qed

lemma wf_entries_Nil:
  assumes "wf_ok q"
  shows "wf_entries q = [] \<longleftrightarrow> (\<forall>g \<in> set (wf_round_robin q). dict_get_or (wf_queues q) g [] = [])"
proof
  assume "wf_entries q = []"
  then show "\<forall>g \<in> set (wf_round_robin q). dict_get_or (wf_queues q) g [] = []"
    by (force simp: wf_entries_def dict_get_or_def split: option.splits dest: map_of_SomeD)
next
  assume rr: "\<forall>g \<in> set (wf_round_robin q). dict_get_or (wf_queues q) g [] = []"
  show "wf_entries q = []"
  proof (rule ccontr)
    assume "wf_entries q \<noteq> []"
    then obtain g es where "(g, es) \<in> set (wf_queues q)" "es \<noteq> []" by (auto simp: wf_entries_def)
    then have "dict_get (wf_queues q) g = Some es" "es \<noteq> []" using wf_okD(1) [OF assms] by simp_all
    with wf_okD(3,6) [OF assms] rr show False by (fastforce simp: dict_get_or_def)
  qed
qed

lemma pop_result_trans:
  "pop_result p r \<Longrightarrow> mset (wf_entries p) = mset (wf_entries q) \<Longrightarrow> pop_result q r"
  by (auto simp: pop_result_def)

subsubsection \<open>Round robin\<close>

lemma rr_index_less: "wf_ok q \<Longrightarrow> wf_round_robin q \<noteq> [] \<Longrightarrow> wf_rr_index q < length (wf_round_robin q)"
  using wf_okD(5) [of q] by (cases "wf_round_robin q") auto

definition rr_slot :: "fair_queue \<Rightarrow> nat \<Rightarrow> string" where
  "rr_slot q i = wf_round_robin q ! ((wf_rr_index q + i) mod length (wf_round_robin q))"

lemma rr_slots_cover:
  assumes "wf_rr_index q < length (wf_round_robin q)"
  shows "set (wf_round_robin q) \<subseteq> rr_slot q ` {..<length (wf_round_robin q)}"
proof
  let ?n = "length (wf_round_robin q)" and ?i = "wf_rr_index q"
  fix g assume "g \<in> set (wf_round_robin q)"
  then obtain j where j: "j < ?n" "g = wf_round_robin q ! j" by (auto simp: in_set_conv_nth)
  let ?k = "(j + (?n - ?i)) mod ?n"
  have "(?i + ?k) mod ?n = (?i + (j + (?n - ?i))) mod ?n" by (simp add: mod_add_right_eq)
  also have "\<dots> = j" using assms j(1) by simp
  finally have "g = rr_slot q ?k" using j(2) by (simp add: rr_slot_def)
  moreover have "?k < ?n" using j(1) by (intro mod_less_divisor) auto
  ultimately show "g \<in> rr_slot q ` {..<?n}" by blast
qed

text \<open>One visit of the loops: the queue of the current group is read and the index advances.\<close>

definition rr_visit :: "fair_queue \<Rightarrow> fair_queue" where
  "rr_visit q =
     (fst (wf_read (wf_round_robin q ! wf_rr_index q) q))
       \<lparr>wf_rr_index := (wf_rr_index q + 1) mod length (wf_round_robin q)\<rparr>"

lemma rr_visit_sel [simp]:
  "dict_get_or (wf_queues (rr_visit q)) h [] = dict_get_or (wf_queues q) h []"
  "wf_fairness (rr_visit q) = wf_fairness q" "wf_weights (rr_visit q) = wf_weights q"
  "wf_round_robin (rr_visit q) = wf_round_robin q" "wf_total (rr_visit q) = wf_total q"
  "wf_rr_index (rr_visit q) = (wf_rr_index q + 1) mod length (wf_round_robin q)"
  "rr_slot (rr_visit q) i = rr_slot q (Suc i)"
  by (simp_all add: rr_visit_def rr_slot_def mod_simps)

lemma wf_ok_index [simp]:
  "wf_ok q \<Longrightarrow> n < max 1 (length (wf_round_robin q)) \<Longrightarrow> wf_ok (q\<lparr>wf_rr_index := n\<rparr>)"
  by (simp add: wf_ok_def wf_entries_def)

lemma rr_visit_ok:
  assumes "wf_ok q" "wf_round_robin q \<noteq> []"
  shows "wf_ok (rr_visit q)" "mset (wf_entries (rr_visit q)) = mset (wf_entries q)"
  using wf_read_ok [OF assms(1), of "wf_round_robin q ! wf_rr_index q"] assms(2)
  by (simp_all add: rr_visit_def less_max_iff_disj) (simp add: wf_entries_def)

lemma rr_visit_swap:
  "wf_read g (q\<lparr>wf_rr_index := n\<rparr>) = (\<lambda>(q, es). (q\<lparr>wf_rr_index := n\<rparr>, es)) (wf_read g q)"
  by (simp add: wf_read_def split: option.splits)

lemma rr_loop_Suc:
  assumes "wf_rr_index q < length (wf_round_robin q)"
  shows "rr_loop (Suc n) q =
     (case dict_get_or (wf_queues q) (rr_slot q 0) [] of
        e # es \<Rightarrow> Inr ((rr_visit q)\<lparr>wf_total := wf_total q - 1,
                                   wf_queues := dict_set (wf_queues q) (rr_slot q 0) es\<rparr>, Some e)
      | [] \<Rightarrow> rr_loop n (rr_visit q))"
  using assms
  by (simp add: rr_slot_def rr_visit_def rr_visit_swap case_prod_beta Let_def split: list.splits)

lemma rr_take:
  assumes "wf_ok q" "wf_round_robin q \<noteq> []" "dict_get_or (wf_queues q) g [] = e # es"
  shows "pop_result q (Inr ((rr_visit q)\<lparr>wf_total := wf_total q - 1,
           wf_queues := dict_set (wf_queues q) g es\<rparr>, Some e))"
  by (rule wf_take_head [OF assms(1,3)]) (use assms(2) in \<open>simp_all add: less_max_iff_disj\<close>)

lemma rr_loop_spec:
  "wf_ok q \<Longrightarrow> wf_round_robin q \<noteq> [] \<Longrightarrow>
   (\<forall>i<n. dict_get_or (wf_queues q) (rr_slot q i) [] = []) \<and>
     (\<exists>q'. rr_loop n q = Inr (q', None) \<and> wf_ok q' \<and> mset (wf_entries q) = mset (wf_entries q')) \<or>
   (\<exists>q' e. rr_loop n q = Inr (q', Some e)) \<and> pop_result q (rr_loop n q)"
proof (induction n arbitrary: q)
  case (Suc n)
  have idx: "wf_rr_index q < length (wf_round_robin q)"
    using Suc.prems by (rule rr_index_less)
  note visit = rr_visit_ok [OF Suc.prems]
  show ?case
  proof (cases "dict_get_or (wf_queues q) (rr_slot q 0) []")
    case Nil
    then have step: "rr_loop (Suc n) q = rr_loop n (rr_visit q)" using idx by (simp add: rr_loop_Suc del: rr_loop.simps)
    have all: "(\<forall>i<Suc n. dict_get_or (wf_queues q) (rr_slot q i) [] = []) \<longleftrightarrow>
        (\<forall>i<n. dict_get_or (wf_queues q) (rr_slot q (Suc i)) [] = [])"
      using Nil by (auto simp: less_Suc_eq_0_disj)
    show ?thesis
      using Suc.IH [OF visit(1)] Suc.prems(2) visit(2) pop_result_trans [of "rr_visit q" _ q]
      unfolding step all by auto
  next
    case (Cons e es)
    with rr_take [OF Suc.prems Cons] idx show ?thesis by (auto simp: rr_loop_Suc simp del: rr_loop.simps)
  qed
qed simp

interpretation rr: fair_pop wf_pop_rr
proof unfold_locales
  fix q assume ok: "wf_ok q"
  show "pop_result q (wf_pop_rr q)"
  proof (cases "wf_round_robin q = []")
    case True
    with ok wf_entries_Nil [OF ok] show ?thesis by (simp add: wf_pop_rr_def pop_result_def)
  next
    case False
    then have "wf_rr_index q < length (wf_round_robin q)"
      using rr_index_less [OF ok] by blast
    then have "(\<forall>i<length (wf_round_robin q). dict_get_or (wf_queues q) (rr_slot q i) [] = []) \<Longrightarrow> wf_entries q = []"
      using rr_slots_cover wf_entries_Nil [OF ok] by fastforce
    with rr_loop_spec [OF ok False, of "length (wf_round_robin q)"] False show ?thesis
      by (auto simp: wf_pop_rr_def pop_result_def)
  qed
qed

lemma wrr_loop_Suc:
  assumes "wf_rr_index q < length (wf_round_robin q)"
  shows "wrr_loop tw (Suc n) q =
     (case dict_get_or (wf_queues q) (rr_slot q 0) [] of
        e # es \<Rightarrow>
          if dict_get_or (wf_weights q) (rr_slot q 0) 1 / tw \<ge> 1 / 10
          then Inr ((rr_visit q)\<lparr>wf_total := wf_total q - 1,
                                wf_queues := dict_set (wf_queues q) (rr_slot q 0) es\<rparr>, Some e)
          else wrr_loop tw n (rr_visit q)
      | [] \<Rightarrow> wrr_loop tw n (rr_visit q))"
  using assms by (simp add: rr_slot_def rr_visit_def case_prod_beta Let_def split: list.splits)

lemma wrr_loop_spec: "wf_ok q \<Longrightarrow> wf_round_robin q \<noteq> [] \<Longrightarrow> pop_result q (wrr_loop tw n q)"
proof (induction n arbitrary: q)
  case 0
  then show ?case by (simp add: rr.pop_spec)
next
  case (Suc n)
  have idx: "wf_rr_index q < length (wf_round_robin q)"
    using Suc.prems by (rule rr_index_less)
  have rest: "pop_result q (wrr_loop tw n (rr_visit q))"
    using Suc.IH [OF rr_visit_ok(1) [OF Suc.prems]] Suc.prems(2) rr_visit_ok(2) [OF Suc.prems]
    by (auto intro: pop_result_trans)
  show ?case
    unfolding wrr_loop_Suc [OF idx]
    by (auto intro: rest rr_take [OF Suc.prems] split: list.split)
qed

interpretation wrr: fair_pop wf_pop_wrr
proof unfold_locales
  fix q assume ok: "wf_ok q"
  show "pop_result q (wf_pop_wrr q)"
    using ok wf_entries_Nil [OF ok] rr.pop_spec [OF ok] wrr_loop_spec [OF ok]
    by (cases "wf_round_robin q = []") (simp_all add: wf_pop_wrr_def Let_def pop_result_def)
qed

subsubsection \<open>Weighted fair choice\<close>

definition fair_share :: "fair_queue \<Rightarrow> string \<Rightarrow> real" where
  "fair_share q g =
     ft_deficit (the (dict_get (wf_fairness q) g)) / dict_get_or (wf_weights q) g 1"

lemma wfq_candidates_ok:
  assumes "wf_ok q" "set d \<subseteq> set (wf_queues q)"
  shows "wfq_candidates q d = Inr (map (\<lambda>(g, _). (fair_share q g, g)) (filter (\<lambda>(_, es). es \<noteq> []) d))"
  using assms(2)
proof (induction d)
  case (Cons p d)
  obtain g es where p: "p = (g, es)" by (cases p)
  have get: "dict_get (wf_queues q) g = Some es"
    using Cons.prems wf_okD(1) [OF assms(1)] by (simp add: p)
  have "0 < dict_get_or (wf_weights q) g 1"
    using wf_okD(4) [OF assms(1), of g] by (auto simp: dict_get_or_def split: option.splits)
  with Cons wf_okD(3) [OF assms(1) get] show ?case by (auto simp: p fair_share_def)
qed simp

lemma sort_key_hd:
  "xs \<noteq> [] \<Longrightarrow> hd (sort_key f xs) \<in> set xs \<and> (\<forall>x \<in> set xs. f (hd (sort_key f xs)) \<le> f x)"
proof -
  assume "xs \<noteq> []"
  then have "length (sort_key f xs) \<noteq> 0" by simp
  then obtain y ys where y: "sort_key f xs = y # ys" by (cases "sort_key f xs") auto
  have "set xs = set (y # ys)" unfolding y [symmetric] by simp
  moreover have "sorted (map f (y # ys))" using sorted_sort_key [of f xs] y by simp
  ultimately show ?thesis using y by simp
qed

text \<open>The group \<open>pop_wfq\<close> serves has the least share among the groups with entries.\<close>

lemma wf_pop_wfq_choice:
  assumes "wf_ok q" "wf_entries q \<noteq> []"
  obtains g e es t where "dict_get (wf_queues q) g = Some (e # es)" "dict_get (wf_fairness q) g = Some t"
    "wf_pop_wfq now_ms q =
       Inr (q\<lparr>wf_queues := dict_set (wf_queues q) g es, wf_total := wf_total q - 1,
              wf_fairness := dict_set (wf_fairness q) g (count_dispatch now_ms t)\<rparr>, Some e)"
    "\<forall>h fs. dict_get (wf_queues q) h = Some fs \<and> fs \<noteq> [] \<longrightarrow> fair_share q g \<le> fair_share q h"
proof -
  let ?cs = "map (\<lambda>(g, _). (fair_share q g, g)) (filter (\<lambda>(_, es). es \<noteq> []) (wf_queues q))"
  have cs: "wfq_candidates q (wf_queues q) = Inr ?cs" using wfq_candidates_ok [OF assms(1)] by simp
  have "?cs \<noteq> []" using assms(2) by (auto simp: wf_entries_def filter_empty_conv)
  define c where "c = hd (sort_key fst ?cs)"
  have least: "fst c \<le> fst x" if "x \<in> set ?cs" for x
    using sort_key_hd [OF \<open>?cs \<noteq> []\<close>, of fst] that unfolding c_def by blast
  have "c \<in> set ?cs" using sort_key_hd [OF \<open>?cs \<noteq> []\<close>, of fst] unfolding c_def by blast
  then obtain g fs where g: "c = (fair_share q g, g)" "(g, fs) \<in> set (wf_queues q)" "fs \<noteq> []" by auto
  then obtain e es where fs: "fs = e # es" by (cases fs) auto
  have get: "dict_get (wf_queues q) g = Some (e # es)" using g(2) fs wf_okD(1) [OF assms(1)] by simp
  then obtain t where t: "dict_get (wf_fairness q) g = Some t" using wf_okD(3) [OF assms(1)] by fastforce
  show ?thesis
  proof (rule that [OF get t])
    show "wf_pop_wfq now_ms q =
       Inr (q\<lparr>wf_queues := dict_set (wf_queues q) g es, wf_total := wf_total q - 1,
              wf_fairness := dict_set (wf_fairness q) g (count_dispatch now_ms t)\<rparr>, Some e)"
      using \<open>?cs \<noteq> []\<close> g(1) get t cs unfolding c_def wf_pop_wfq_def
      by (cases ?cs) (simp_all del: list.map filter.simps)
    show "\<forall>h fs. dict_get (wf_queues q) h = Some fs \<and> fs \<noteq> [] \<longrightarrow> fair_share q g \<le> fair_share q h"
      using least g(1) by (force dest: map_of_SomeD)
  qed
qed

interpretation wfq: fair_pop "wf_pop_wfq now_ms" for now_ms
proof unfold_locales
  fix q assume ok: "wf_ok q"
  show "pop_result q (wf_pop_wfq now_ms q)"
  proof (cases "wf_entries q = []")
    case True
    then have "wfq_candidates q (wf_queues q) = Inr []"
      using wfq_candidates_ok [OF ok] by (auto simp: wf_entries_def filter_empty_conv)
    with True ok show ?thesis by (simp add: wf_pop_wfq_def pop_result_def)
  next
    case False
    obtain g e es t where c: "dict_get (wf_queues q) g = Some (e # es)" "dict_get (wf_fairness q) g = Some t"
      "wf_pop_wfq now_ms q =
       Inr (q\<lparr>wf_queues := dict_set (wf_queues q) g es, wf_total := wf_total q - 1,
              wf_fairness := dict_set (wf_fairness q) g (count_dispatch now_ms t)\<rparr>, Some e)"
      by (rule wf_pop_wfq_choice [OF ok False, of now_ms])
    show ?thesis
      unfolding c(3)
      by (rule wf_take_head [OF ok, of g]) (use c(1,2) wf_okD(5) [OF ok] in \<open>simp_all add: dict_get_or_def\<close>)
  qed
qed

subsection \<open>Removal\<close>

lemma delete_first_split:
  "list_ex P xs \<Longrightarrow> \<exists>x. P x \<and> mset xs = add_mset x (mset (delete_first P xs))"
  by (induction xs) (auto simp: add_mset_commute)

lemma length_delete_first: "list_ex P xs \<Longrightarrow> length xs = Suc (length (delete_first P xs))"
  by (induction xs) auto

lemma set_delete_first: "set (delete_first P xs) \<subseteq> set xs"
  by (induction xs) auto

lemma find_NoneD: "find P xs = None \<Longrightarrow> \<forall>x \<in> set xs. \<not> P x"
  by (induction xs) (auto split: if_splits)

lemma pq_entries_update:
  "mset (concat (map (qs(l := ys)) priority_levels)) + mset (qs l) =
   mset (concat (map qs priority_levels)) + mset ys"
  by (cases l) (simp_all add: ac_simps)

text \<open>The entries that carry another identifier are untouched by a removal.\<close>

definition removes :: "string \<Rightarrow> queue_entry multiset \<Rightarrow> queue_entry multiset \<Rightarrow> bool \<Rightarrow> bool" where
  "removes i es es' found \<longleftrightarrow>
     filter_mset (\<lambda>e. \<not> has_id i e) es' = filter_mset (\<lambda>e. \<not> has_id i e) es \<and>
     (found \<longrightarrow> es' \<subset># es) \<and> (\<not> found \<longrightarrow> es' = es \<and> (\<forall>e \<in># es. \<not> has_id i e))"

lemma removes_one: "has_id i x \<Longrightarrow> es = add_mset x es' \<Longrightarrow> removes i es es' True"
  by (simp add: removes_def)

lemma pq_remove_removes:
  assumes "pq_ok q"
  shows "pq_ok (fst (pq_remove i q)) \<and>
         removes i (mset (pq_entries q)) (mset (pq_entries (fst (pq_remove i q)))) (snd (pq_remove i q))"
proof (cases "find (\<lambda>l. list_ex (has_id i) (pq_queues q l)) priority_levels")
  case None
  then have "\<not> has_id i e" if "e \<in> set (pq_entries q)" for e
    using find_NoneD [OF None] that unfolding pq_entries_def by (auto simp: list_ex_iff)
  with None assms show ?thesis unfolding pq_remove_def None by (simp add: removes_def)
next
  case (Some l)
  let ?es = "delete_first (has_id i) (pq_queues q l)"
  let ?q = "q\<lparr>pq_queues := (pq_queues q)(l := ?es), pq_total := pq_total q - 1\<rparr>"
  have ex: "list_ex (has_id i) (pq_queues q l)" using find_SomeD [OF Some] by simp
  then obtain x where x: "has_id i x" "mset (pq_queues q l) = add_mset x (mset ?es)"
    using delete_first_split by blast
  have m: "mset (pq_entries q) = add_mset x (mset (pq_entries ?q))"
    using pq_entries_update [of "pq_queues q" l ?es] x(2) unfolding pq_entries_def pqueue.simps by simp
  then have "length (pq_entries q) = Suc (length (pq_entries ?q))"
    by (metis size_mset size_add_mset)
  moreover have "set ((pq_queues ?q) k) \<subseteq> set (pq_queues q k)" for k
    using set_delete_first [of "has_id i" "pq_queues q l"] by simp
  ultimately have "pq_ok ?q" using assms unfolding pq_ok_def by (fastforce simp: subset_iff)
  with removes_one [OF x(1) m] show ?thesis unfolding pq_remove_def Some by simp
qed

lemma removes_filter:
  "found \<longleftrightarrow> (\<exists>e \<in># es. has_id i e) \<Longrightarrow> removes i es (filter_mset (\<lambda>e. \<not> has_id i e) es) found"
  unfolding removes_def
proof (intro conjI impI)
  assume f: "found \<longleftrightarrow> (\<exists>e \<in># es. has_id i e)" found
  then obtain x where x: "x \<in># es" "has_id i x" by blast
  then have "x \<notin># filter_mset (\<lambda>e. \<not> has_id i e) es" by simp
  with x(1) have "filter_mset (\<lambda>e. \<not> has_id i e) es \<noteq> es" by metis
  then show "filter_mset (\<lambda>e. \<not> has_id i e) es \<subset># es" by (simp add: subset_mset.less_le)
qed (auto simp: filter_mset_eq_conv)

lemma edf_remove_removes:
  "removes i (mset (map snd (edf_heap q))) (mset (map snd (edf_heap (fst (edf_remove i q)))))
     (snd (edf_remove i q))"
proof -
  let ?h = "edf_heap q"
  have h: "edf_heap (fst (edf_remove i q)) = filter (\<lambda>(_, e). \<not> has_id i e) ?h" by (simp add: edf_remove_def)
  have "map snd (filter (\<lambda>(_, e). \<not> has_id i e) ?h) = filter (\<lambda>e. \<not> has_id i e) (map snd ?h)"
    by (simp add: filter_map comp_def case_prod_unfold)
  then have e: "mset (map snd (edf_heap (fst (edf_remove i q)))) =
      filter_mset (\<lambda>e. \<not> has_id i e) (mset (map snd ?h))"
    unfolding h by (simp only: mset_filter)
  have "snd (edf_remove i q) \<longleftrightarrow> (\<exists>e \<in># mset (map snd ?h). has_id i e)"
    by (force simp: edf_remove_def list_ex_iff)
  then show ?thesis unfolding e by (rule removes_filter)
qed

lemma wf_cancel_removes:
  assumes "wf_ok q"
  shows "wf_ok (fst (wf_cancel i q)) \<and>
         removes i (mset (wf_entries q)) (mset (wf_entries (fst (wf_cancel i q)))) (snd (wf_cancel i q))"
proof (cases "find (\<lambda>(_, es). list_ex (has_id i) es) (wf_queues q)")
  case None
  then have "\<not> has_id i e" if "e \<in> set (wf_entries q)" for e
    using find_NoneD [OF None] that by (fastforce simp: wf_entries_def list_ex_iff)
  with None assms show ?thesis by (simp add: wf_cancel_def removes_def)
next
  case (Some p)
  obtain g es where p: "p = (g, es)" by (cases p)
  let ?es = "delete_first (has_id i) es"
  let ?q = "q\<lparr>wf_queues := dict_set (wf_queues q) g ?es, wf_total := wf_total q - 1\<rparr>"
  have ex: "list_ex (has_id i) es" and "(g, es) \<in> set (wf_queues q)" using find_SomeD [OF Some] p by auto
  then have get: "dict_get (wf_queues q) g = Some es" using wf_okD(1) [OF assms] by simp
  have ne: "es \<noteq> []" using ex by auto
  obtain x where x: "has_id i x" "mset es = add_mset x (mset ?es)"
    using delete_first_split [OF ex] by blast
  have "wf_ok ?q" "mset (wf_entries ?q) + mset (dict_get_or (wf_queues q) g []) = mset (wf_entries q) + mset ?es"
    by (rule wf_ok_replace [OF assms, of _ g ?es];
        use wf_okD [OF assms] get ne length_delete_first [OF ex] in \<open>simp add: dict_get_or_def\<close>)+
  moreover from this(2) have "mset (wf_entries q) = add_mset x (mset (wf_entries ?q))"
    using get x(2) by (simp add: dict_get_or_def)
  ultimately show ?thesis using removes_one [OF x(1)] by (simp add: wf_cancel_def Some p)
qed

subsection \<open>Properties\<close>

text \<open>Filling an empty priority queue below its capacity and emptying it returns the
  entries stably sorted by priority level: most urgent first and, within a level, in order of
  arrival, whatever the overflow strategy.\<close>

theorem priority_queue_serves_by_level_then_arrival:
  assumes "int (length es) \<le> n"
  shows "snd (run_calls (\<lambda>_. pq_pop) es (foldl (\<lambda>q e. fst (pq_push e st q)) (pq_init n) es)) =
           map Some (sort_key qe_priority_level es)"
proof -
  have "pq_total (pq_init n) + int (length es) \<le> pq_max_size (pq_init n)"
    using assms by (simp add: pq_init_def)
  from pq_push_many [OF this] show ?thesis using pq.serves_stable_sorted [of "pq_init n" es] by simp
qed

text \<open>With a positive capacity, a push keeps the priority queue consistent and within its
  capacity under every overflow strategy; the recursion that evicts entries terminates.\<close>

theorem priority_queue_stays_within_capacity:
  assumes "pq_ok q" "1 \<le> pq_max_size q" "pq_total q \<le> pq_max_size q"
  shows "pq_ok (fst (pq_push e st q)) \<and> pq_total (fst (pq_push e st q)) \<le> pq_max_size q"
  using pq_push_capacity [OF assms] by simp

text \<open>C9: Filling an empty deadline queue and emptying it returns the entries stably sorted by
  deadline, entries without a deadline last: the binary heap implements earliest deadline first.\<close>

theorem edf_queue_serves_by_deadline:
  "snd (run_calls (\<lambda>_. edf_pop) es (foldl edf_push edf_init es)) = map Some (sort_key deadline_key es)"
  using edf.serves_stable_sorted [of edf_init es] by simp

text \<open>On a deadline queue with an intact heap, expiry removes exactly the entries whose
  deadline has passed, earliest first, and keeps the order of the others.\<close>

theorem edf_expired_splits_queue:
  assumes "edf_ok q" "edf_expired now_ms q = (q', es)"
  shows "es = filter (\<lambda>e. deadline_key e \<le> Fin now_ms) (edf_order q) \<and>
         edf_order q' = filter (\<lambda>e. \<not> deadline_key e \<le> Fin now_ms) (edf_order q) \<and> edf_ok q'"
proof -
  obtain h where h: "expired_loop now_ms (edf_heap q) = (h, es)" "q' = q\<lparr>edf_heap := h\<rparr>"
    using assms(2) by (auto simp: edf_expired_def split: prod.splits)
  from expired_loop_spec [OF assms(1) h(1)] show ?thesis by (simp add: h(2))
qed

text \<open>Weighted fair selection serves, among the groups with queued requests, one whose
  deficit divided by its weight is least, and charges one unit to it.\<close>

theorem wfq_serves_least_share:
  assumes "wf_ok q" "wf_entries q \<noteq> []"
  shows "\<exists>g e q'. wf_pop_wfq now_ms q = Inr (q', Some e) \<and> hd (dict_get_or (wf_queues q) g []) = e \<and>
           dict_get_or (wf_queues q) g [] \<noteq> [] \<and>
           (\<forall>h. dict_get_or (wf_queues q) h [] \<noteq> [] \<longrightarrow> fair_share q g \<le> fair_share q h) \<and>
           ft_deficit (the (dict_get (wf_fairness q') g)) = ft_deficit (the (dict_get (wf_fairness q) g)) + 1"
proof -
  obtain g e es t where c: "dict_get (wf_queues q) g = Some (e # es)" "dict_get (wf_fairness q) g = Some t"
    "wf_pop_wfq now_ms q =
       Inr (q\<lparr>wf_queues := dict_set (wf_queues q) g es, wf_total := wf_total q - 1,
              wf_fairness := dict_set (wf_fairness q) g (count_dispatch now_ms t)\<rparr>, Some e)"
    "\<forall>h fs. dict_get (wf_queues q) h = Some fs \<and> fs \<noteq> [] \<longrightarrow> fair_share q g \<le> fair_share q h"
    by (rule wf_pop_wfq_choice [OF assms])
  have "\<forall>h. dict_get_or (wf_queues q) h [] \<noteq> [] \<longrightarrow> fair_share q g \<le> fair_share q h"
    using c(4) by (auto simp: dict_get_or_def split: option.splits)
  with c(1-3) show ?thesis by (intro exI [of _ g] exI) (auto simp: dict_get_or_def count_dispatch_def)
qed

definition demo_entry :: "char \<Rightarrow> real \<Rightarrow> queue_entry" where
  "demo_entry c d =
     \<lparr>qe_item = \<lparr>qi_id = [c], qi_provider = ''p'', qi_model = ''m'', qi_priority = NORMAL, qi_created_at = 0,
                 qi_deadline = None, qi_cost = 0, qi_estimated_latency_ms = 0, qi_queue_affinity = []\<rparr>,
      qe_priority_level = NORMAL, qe_enqueued_ms = 0, qe_deadline_ms = Some d, qe_retry_count = 0,
      qe_age_boost = 0\<rparr>"

text \<open>Removing an entry from the deadline queue filters the heap's list without restoring the
  heap order: after seven requests with deadlines 1, 5, 2, 6, 7, 3, 4 are queued and the one with
  deadline 2 is removed, the queue serves deadline 5 before deadline 3.\<close>

theorem edf_remove_breaks_deadline_order:
  "map (map_option qe_deadline_ms)
     (snd (run_calls (\<lambda>_. edf_pop) [(), (), ()]
        (fst (edf_remove ''c''
           (foldl edf_push edf_init
              [demo_entry CHR ''a'' 1, demo_entry CHR ''b'' 5, demo_entry CHR ''c'' 2,
               demo_entry CHR ''d'' 6, demo_entry CHR ''e'' 7, demo_entry CHR ''f'' 3,
               demo_entry CHR ''g'' 4]))))) =
   [Some (Some 1), Some (Some 5), Some (Some 3)]"
  by code_simp

subsection \<open>Witnesses\<close>

theorem priority_queue_serves_by_level_then_arrival_witness:
  "snd (run_calls (\<lambda>_. pq_pop) [demo_entry CHR ''a'' 1, demo_entry CHR ''b'' 1]
     (foldl (\<lambda>q e. fst (pq_push e ''reject'' q)) (pq_init 2) [demo_entry CHR ''a'' 1, demo_entry CHR ''b'' 1])) =
   [Some (demo_entry CHR ''a'' 1), Some (demo_entry CHR ''b'' 1)]"
  using priority_queue_serves_by_level_then_arrival
    [of "[demo_entry CHR ''a'' 1, demo_entry CHR ''b'' 1]" 2 "''reject''"]
  by (simp add: demo_entry_def)

theorem priority_queue_stays_within_capacity_witness:
  "pq_total (fst (pq_push (demo_entry CHR ''b'' 1) ''drop_oldest'' (pq_append (demo_entry CHR ''a'' 1) (pq_init 1)))) \<le> 1"
  using priority_queue_stays_within_capacity
    [of "pq_append (demo_entry CHR ''a'' 1) (pq_init 1)" "demo_entry CHR ''b'' 1" "''drop_oldest''"]
  by (simp add: pq_append_ok) (simp add: pq_init_def)

theorem edf_expired_splits_queue_witness:
  "snd (edf_expired 2 (edf_push (edf_push edf_init (demo_entry CHR ''a'' 1)) (demo_entry CHR ''b'' 3))) =
   [demo_entry CHR ''a'' 1]"
proof -
  let ?q = "edf_push (edf_push edf_init (demo_entry CHR ''a'' 1)) (demo_entry CHR ''b'' 3)"
  have ok: "edf_ok ?q" "edf_order ?q = [demo_entry CHR ''a'' 1, demo_entry CHR ''b'' 3]"
    by (simp_all add: edf_push_ok edf_push_order insert_last_def demo_entry_def deadline_key_def)
  show ?thesis
    using edf_expired_splits_queue [OF ok(1) prod.collapse [symmetric], of 2]
    by (simp add: ok(2)) (simp add: deadline_key_def demo_entry_def)
qed

theorem wfq_serves_least_share_witness:
  "\<exists>q'. wf_pop_wfq 0 (wf_push ''g'' (demo_entry CHR ''a'' 1) wf_init) = Inr (q', Some (demo_entry CHR ''a'' 1))"
proof -
  let ?q = "wf_push ''g'' (demo_entry CHR ''a'' 1) wf_init"
  have "wf_ok ?q" "wf_entries ?q \<noteq> []"
    using wf_push_ok [of wf_init "''g''" "demo_entry CHR ''a'' 1"] by (auto simp flip: mset_zero_iff)
  from wfq_serves_least_share [OF this, of 0] show ?thesis
    by (auto simp: wf_push_def wf_init_def wf_set_weight_def Let_def wf_read_def dict_get_or_def split: if_splits)
qed

end
