(* ===== verification/Scheduler_Laws.thy ===== *)
theory Scheduler_Laws
  imports Scheduler_Engine Scheduler_Queue_Laws
begin

text \<open>
  Properties of the request scheduler as a whole: the invariant over all sequences of its
  operations, conservation of requests, the capacity of the queues and of the worker pool, and
  which requests each algorithm can serve.
\<close>

subsection \<open>The machine of all operations\<close>

inductive sched_step :: "scheduler \<Rightarrow> scheduler \<Rightarrow> bool" where
  ss_start: "sched_step s (sched_start now s)"
| ss_stop: "sched_step s (sched_stop now s)"
| ss_health: "sched_step s (fst (sched_health now s))"
| ss_metrics: "sched_step s (fst (sched_metrics s))"
| ss_enqueue: "sched_step s (fst (sched_enqueue now_ms wt fresh p m prio dl cost lat aff s))"
| ss_dequeue: "sched_dequeue now now_ms s = Inr (s', r) \<Longrightarrow> sched_step s s'"
| ss_cancel: "sched_step s (fst (sched_cancel i s))"
| ss_pause: "sched_step s (sched_pause r s)"
| ss_resume: "sched_step s (sched_resume s)"

definition sched_initial :: "scheduler \<Rightarrow> bool" where
  "sched_initial s \<longleftrightarrow> (\<exists>bus n pool fair algo hi lo. s = sched_init bus n pool fair algo hi lo)"

definition sched_entries :: "scheduler \<Rightarrow> queue_entry multiset" where
  "sched_entries s =
     mset (pq_entries (sc_fifo s)) + mset (map snd (edf_heap (sc_edf s))) + mset (wf_entries (sc_fair s))"

definition fifo_only :: "scheduler \<Rightarrow> bool" where
  "fifo_only s \<longleftrightarrow> sp_algorithm (sc_policy s) \<in> {''fifo'', ''priority''}"

text \<open>Every entry of the deadline heap is filed under its own deadline.\<close>

definition edf_keyed :: "edf_queue \<Rightarrow> bool" where
  "edf_keyed q \<longleftrightarrow> (\<forall>x\<in>set (edf_heap q). fst (fst x) = deadline_key (snd x))"

lemma edf_keyed_simps [simp]: "edf_keyed edf_init" "edf_keyed (edf_clear q)" "edf_keyed \<lparr>edf_heap = [], edf_counter = n\<rparr>"
  by (simp_all add: edf_keyed_def edf_init_def edf_clear_def)

lemma edf_keyed_subset: "edf_keyed q \<Longrightarrow> set h \<subseteq> set (edf_heap q) \<Longrightarrow> edf_keyed (q\<lparr>edf_heap := h\<rparr>)"
  by (auto simp: edf_keyed_def)

lemma edf_keyed_push: "edf_keyed q \<Longrightarrow> edf_keyed (edf_push q e)"
proof -
  have "set (heappush h x) = insert x (set h)" for h :: "(xfloat \<times> int, queue_entry) heap" and x
    using mset_eq_setD [OF siftdown_mset [of "length h" "h @ [x]" 0]] by (simp add: heappush_def)
  then show "edf_keyed q \<Longrightarrow> edf_keyed (edf_push q e)" by (simp add: edf_keyed_def edf_push_def)
qed

lemma heappop_set: "heappop h = Inr (x, h') \<Longrightarrow> set h = insert x (set h')"
  by (metis heappop_mset set_mset_add_mset_insert set_mset_mset)

text \<open>A request is due when it has a deadline and that has come. The heap drops only what is due.\<close>

definition due :: "real \<Rightarrow> queue_entry \<Rightarrow> bool" where
  "due now_ms e \<longleftrightarrow> (case qe_deadline_ms e of None \<Rightarrow> False | Some d \<Rightarrow> d \<le> now_ms)"

lemma due_key: "deadline_key e \<le> Fin now_ms \<longleftrightarrow> due now_ms e"
  by (simp add: due_def deadline_key_def split: option.split)

lemma expired_loop_due:
  "expired_loop now_ms h = (h', es) \<Longrightarrow> \<forall>x\<in>set h. fst (fst x) = deadline_key (snd x) \<Longrightarrow>
   set h' \<subseteq> set h \<and> (\<forall>e\<in>set es. due now_ms e)"
proof (induction "length h" arbitrary: h h' es rule: less_induct)
  case less
  show ?case
  proof (cases "h \<noteq> [] \<and> fst (fst (h ! 0)) \<le> Fin now_ms")
    case True
    then obtain x h1 where p: "heappop h = Inr (x, h1)"
      using heappop_empty [of h] by (cases "heappop h") auto
    obtain h2 es' where r: "expired_loop now_ms h1 = (h2, es')" by fastforce
    have h': "h' = h2" "es = snd x # es'"
      using less.prems(1) True p r by (auto simp: expired_loop.simps [of now_ms h] split: prod.splits)
    have x: "x = h ! 0" "x \<in> set h" "set h1 \<subseteq> set h" using heappop_mset [OF p] heappop_set [OF p] by auto
    then have "due now_ms (snd x)" using True less.prems(2) due_key by metis
    moreover have "set h2 \<subseteq> set h1 \<and> (\<forall>e\<in>set es'. due now_ms e)"
      by (rule less.hyps [OF _ r]) (use less.prems(2) x(3) heappop_length [OF p] in auto)
    ultimately show ?thesis using x(3) h' by auto
  next
    case False
    then show ?thesis using less.prems by (auto simp: expired_loop.simps [of now_ms h] split: if_splits)
  qed
qed

lemma edf_expired_all_due:
  assumes "edf_ok q"
  shows "mset (snd (edf_expired now_ms q)) = filter_mset (due now_ms) (mset (map snd (edf_heap q)))"
proof -
  obtain h es where h: "expired_loop now_ms (edf_heap q) = (h, es)" by fastforce
  have "es = filter (due now_ms) (edf_order q)"
    using expired_loop_spec [OF assms h] unfolding due_key by blast
  then show ?thesis by (simp add: edf_expired_def h edf_order_def)
qed

text \<open>What concerns the queues, and what concerns the pool of workers.\<close>

definition queues_ok :: "scheduler \<Rightarrow> bool" where
  "queues_ok s \<longleftrightarrow>
     pq_ok (sc_fifo s) \<and> wf_ok (sc_fair s) \<and> edf_keyed (sc_edf s) \<and>
     pq_max_size (sc_fifo s) = sp_max_queue_depth (sc_policy s) \<and>
     pq_total (sc_fifo s) \<le> max 0 (sp_max_queue_depth (sc_policy s)) \<and>
     sp_overflow_strategy (sc_policy s) = OS_REJECT \<and>
     (fifo_only s \<longrightarrow> edf_heap (sc_edf s) = [] \<and> wf_entries (sc_fair s) = [])"

definition pool_ok :: "scheduler \<Rightarrow> bool" where
  "pool_ok s \<longleftrightarrow>
     wk_acquired (sc_workers s) = sc_dispatched s \<and> 0 \<le> sc_dispatched s \<and>
     sc_dispatched s \<le> max 0 (wk_pool_size (sc_workers s)) \<and>
     wk_pool_size (sc_workers s) = sp_worker_pool_size (sc_policy s)"

definition sched_ok :: "scheduler \<Rightarrow> bool" where
  "sched_ok s \<longleftrightarrow> queues_ok s \<and> pool_ok s"

subsection \<open>What the operations leave alone\<close>

text \<open>Two states agree on the parts that the invariant is about.\<close>

definition same_core :: "scheduler \<Rightarrow> scheduler \<Rightarrow> bool" where
  "same_core s t \<longleftrightarrow>
     sc_fifo t = sc_fifo s \<and> sc_edf t = sc_edf s \<and> sc_fair t = sc_fair s \<and> sc_policy t = sc_policy s \<and>
     sc_workers t = sc_workers s \<and> sc_dispatched t = sc_dispatched s"

lemma pool_ok_cong:
  "sc_workers t = sc_workers s \<Longrightarrow> sc_dispatched t = sc_dispatched s \<Longrightarrow> sc_policy t = sc_policy s \<Longrightarrow>
   pool_ok t = pool_ok s"
  by (simp add: pool_ok_def)

lemma same_core_ok: "same_core s t \<Longrightarrow> sched_ok s \<Longrightarrow> sched_ok t"
  by (auto simp: same_core_def sched_ok_def queues_ok_def pool_ok_def fifo_only_def)

lemma same_core_entries: "same_core s t \<Longrightarrow> sched_entries t = sched_entries s"
  by (simp add: same_core_def sched_entries_def)

lemma same_core_trans: "same_core s t \<Longrightarrow> same_core t u \<Longrightarrow> same_core s u"
  by (simp add: same_core_def)

lemma publish_core [simp]: "same_core s (sched_publish ev s)"
  by (simp add: same_core_def sched_publish_def)

lemma publish_sel [simp]:
  "sc_fifo (sched_publish ev s) = sc_fifo s" "sc_edf (sched_publish ev s) = sc_edf s"
  "sc_fair (sched_publish ev s) = sc_fair s" "sc_policy (sched_publish ev s) = sc_policy s"
  "sc_workers (sched_publish ev s) = sc_workers s" "sc_dispatched (sched_publish ev s) = sc_dispatched s"
  "sc_running (sched_publish ev s) = sc_running s" "sc_paused (sched_publish ev s) = sc_paused s"
  "sc_expired (sched_publish ev s) = sc_expired s" "sc_retry (sched_publish ev s) = sc_retry s"
  "sc_canceled (sched_publish ev s) = sc_canceled s"
  by (simp_all add: sched_publish_def)

lemma admin_core:
  "same_core s (sched_start now s)" "same_core s (fst (sched_health now s))"
  "same_core s (fst (sched_metrics s))" "same_core s (sched_pause r s)" "same_core s (sched_resume s)"
  by (simp_all add: same_core_def sched_start_def sched_health_def sched_metrics_def sched_pause_def
      sched_resume_def set_status_def update_health_def Let_def)

lemma stop_ok: "sched_ok s \<Longrightarrow> sched_ok (sched_stop now s)"
  using wf_clear_ok [of "sc_fair s"]
  by (auto simp: sched_stop_def Let_def set_status_def update_health_def sched_ok_def queues_ok_def
      pool_ok_def fifo_only_def edf_clear_def) (simp_all add: pq_clear_def)

subsection \<open>Enqueue\<close>

lemma total_depth_size: "queues_ok s \<Longrightarrow> total_depth s = int (size (sched_entries s))"
  using wf_okD(2) [of "sc_fair s"]
  by (simp add: total_depth_def sched_entries_def queues_ok_def pq_ok_def edf_total_def)

lemma pq_total_le_depth: "queues_ok s \<Longrightarrow> 0 \<le> pq_total (sc_fifo s) \<and> pq_total (sc_fifo s) \<le> total_depth s"
  using wf_okD(2) [of "sc_fair s"] by (simp add: total_depth_def queues_ok_def pq_ok_def edf_total_def)

lemma edf_push_entries:
  "mset (map snd (edf_heap (edf_push q e))) = add_mset e (mset (map snd (edf_heap q)))"
  by (simp add: edf_push_def heappush_def siftdown_mset)

lemma pq_append_mset: "pq_ok q \<Longrightarrow> mset (pq_entries (pq_append e q)) = add_mset e (mset (pq_entries q))"
  by (simp add: pq_append_entries pq_ok_def)

lemma store_edf:
  "queues_ok s \<Longrightarrow> \<not> fifo_only s \<Longrightarrow>
   queues_ok (s\<lparr>sc_edf := edf_push (sc_edf s) e\<rparr>) \<and>
   sched_entries (s\<lparr>sc_edf := edf_push (sc_edf s) e\<rparr>) = add_mset e (sched_entries s)"
  by (simp add: queues_ok_def sched_entries_def fifo_only_def edf_push_entries edf_keyed_push del: mset_map)

lemma store_fair:
  "queues_ok s \<Longrightarrow> \<not> fifo_only s \<Longrightarrow>
   queues_ok (s\<lparr>sc_fair := wf_push g e (sc_fair s)\<rparr>) \<and>
   sched_entries (s\<lparr>sc_fair := wf_push g e (sc_fair s)\<rparr>) = add_mset e (sched_entries s)"
  by (simp add: queues_ok_def sched_entries_def fifo_only_def wf_push_ok)

lemma store_fifo:
  "queues_ok s \<Longrightarrow> pq_push e ''reject'' (sc_fifo s) = (q, ok) \<Longrightarrow>
   queues_ok (s\<lparr>sc_fifo := q\<rparr>) \<and> (ok \<longleftrightarrow> pq_total (sc_fifo s) < sp_max_queue_depth (sc_policy s)) \<and>
   sched_entries (s\<lparr>sc_fifo := q\<rparr>) = sched_entries s + (if ok then {#e#} else {#})"
  using pq_total_le_depth [of s]
  by (auto simp: queues_ok_def sched_entries_def fifo_only_def pq_push_reject pq_append_ok pq_append_mset
      split: if_splits) (simp_all add: pq_entries_def)

lemma enqueue_fifo_only:
  "fifo_only s \<Longrightarrow>
   enqueue_by_algorithm p dl aff e s =
     (let (q, ok) = pq_push e ''reject'' (sc_fifo s) in (s\<lparr>sc_fifo := q\<rparr>, ok))"
  by (auto simp: enqueue_by_algorithm_def fifo_only_def)

lemma enqueue_other:
  "\<not> fifo_only s \<Longrightarrow>
   enqueue_by_algorithm p dl aff e s =
     (if sp_algorithm (sc_policy s) = ''edf'' \<or> sp_algorithm (sc_policy s) \<noteq> ''fair'' \<and> dl \<noteq> None
      then (s\<lparr>sc_edf := edf_push (sc_edf s) e\<rparr>, True)
      else if sp_algorithm (sc_policy s) = ''fair'' \<or> or_else aff p \<noteq> []
      then (s\<lparr>sc_fair := wf_push (or_else aff p) e (sc_fair s)\<rparr>, True)
      else (let (q, ok) = pq_push e ''reject'' (sc_fifo s) in (s\<lparr>sc_fifo := q\<rparr>, ok)))"
  by (simp add: enqueue_by_algorithm_def fifo_only_def Let_def)

text \<open>A request is stored exactly when the chosen queue accepts it; only the bounded queue refuses.\<close>

lemma enqueue_by_algorithm_spec:
  assumes "queues_ok s" "enqueue_by_algorithm p dl aff e s = (t, ok)"
  shows "queues_ok t \<and> sched_entries t = sched_entries s + (if ok then {#e#} else {#}) \<and>
         (ok \<or> sp_max_queue_depth (sc_policy s) \<le> pq_total (sc_fifo s) \<and>
               (fifo_only s \<or> \<not> truthy aff \<and> sp_algorithm (sc_policy s) \<notin> {''edf'', ''fair''})) \<and>
         sc_workers t = sc_workers s \<and> sc_dispatched t = sc_dispatched s \<and> sc_policy t = sc_policy s"
proof -
  let ?algo = "sp_algorithm (sc_policy s)"
  have aff: "or_else aff p = [] \<Longrightarrow> \<not> truthy aff" by (cases aff) (auto simp: or_else_def split: if_splits)
  obtain q b where push: "pq_push e ''reject'' (sc_fifo s) = (q, b)" by fastforce
  consider (edf) "\<not> fifo_only s" "t = s\<lparr>sc_edf := edf_push (sc_edf s) e\<rparr>" ok
    | (fair) "\<not> fifo_only s" "t = s\<lparr>sc_fair := wf_push (or_else aff p) e (sc_fair s)\<rparr>" ok
    | (fifo) "t = s\<lparr>sc_fifo := q\<rparr>" "ok = b" "fifo_only s \<or> or_else aff p = [] \<and> ?algo \<notin> {''edf'', ''fair''}"
  proof (cases "fifo_only s")
    case True
    have "t = s\<lparr>sc_fifo := q\<rparr>" "ok = b" using assms(2) push by (simp_all add: enqueue_fifo_only [OF True])
    with True fifo show ?thesis by blast
  next
    case False
    note en = assms(2) [unfolded enqueue_other [OF False]]
    show ?thesis
    proof (cases "?algo = ''edf'' \<or> ?algo \<noteq> ''fair'' \<and> dl \<noteq> None")
      case True
      with en have "t = s\<lparr>sc_edf := edf_push (sc_edf s) e\<rparr>" ok by (simp_all only: if_True prod.inject)
      with False edf show ?thesis by blast
    next
      case no_edf: False
      show ?thesis
      proof (cases "?algo = ''fair'' \<or> or_else aff p \<noteq> []")
        case True
        with en no_edf have "t = s\<lparr>sc_fair := wf_push (or_else aff p) e (sc_fair s)\<rparr>" ok
          by (simp_all only: if_True if_False prod.inject)
        with False fair show ?thesis by blast
      next
        case no_fair: False
        with en no_edf push have "t = s\<lparr>sc_fifo := q\<rparr>" "ok = b"
          by (simp_all only: if_True if_False prod.inject Let_def prod.case)
        with no_edf no_fair fifo show ?thesis by blast
      qed
    qed
  qed
  then show ?thesis
  proof cases
    case edf
    with store_edf [OF assms(1)] show ?thesis by simp
  next
    case fair
    with store_fair [OF assms(1)] show ?thesis by simp
  next
    case fifo
    from fifo(3) aff have "fifo_only s \<or> \<not> truthy aff \<and> ?algo \<notin> {''edf'', ''fair''}" by blast
    with fifo(1,2) store_fifo [OF assms(1) push] show ?thesis by (simp add: not_less) linarith
  qed
qed

lemma enqueue_spec:
  assumes "sched_ok s" "sched_enqueue now_ms wt fresh p m prio dl cost lat aff s = (s', d)"
  shows "sched_ok s' \<and>
         sched_entries s' = sched_entries s +
           (if sdn_queued d then {#make_entry now_ms wt fresh p m prio dl cost lat aff#} else {#})"
proof (cases "sc_running s \<and> \<not> sc_paused s")
  case False
  then show ?thesis using assms by (auto simp: sched_enqueue_def refuse_decision_def split: if_splits)
next
  case True
  let ?e = "make_entry now_ms wt fresh p m prio dl cost lat aff"
  define b where "b = s\<lparr>sc_backpressure := fst (bp_update (total_depth s) (sc_backpressure s))\<rparr>"
  have core: "same_core s b" by (simp add: same_core_def b_def)
  have ok: "queues_ok b" "pool_ok b" and depth: "total_depth b = total_depth s"
    using same_core_ok [OF core assms(1)] by (simp_all add: sched_ok_def total_depth_def b_def)
  have en: "sched_entries b = sched_entries s" by (rule same_core_entries [OF core])
  obtain t k where t: "enqueue_by_algorithm p dl aff ?e b = (t, k)" by fastforce
  note spec = enqueue_by_algorithm_spec [OF ok(1) t]
  have pool: "pool_ok t" using ok(2) spec pool_ok_cong [of t b] by blast
  show ?thesis
  proof (cases "sp_max_queue_depth (sc_policy s) \<le> total_depth s \<and> fifo_only s")
    case full: True
    then have "s' = sched_publish (SE_OVERFLOW fresh ''max queue depth'') b" "\<not> sdn_queued d"
      using True assms
      by (auto simp: sched_enqueue_def Let_def b_def fifo_only_def sched_ok_def queues_ok_def refuse_decision_def
          split: if_splits)
    then show ?thesis
      using ok en same_core_ok [OF publish_core] same_core_entries [OF publish_core] by (simp add: sched_ok_def)
  next
    case False
    have refuse: "\<not> (sp_algorithm (sc_policy s) \<in> {''edf'', ''fair''} \<and> truthy_num dl \<or> truthy aff)" if "\<not> k"
    proof -
      have "fifo_only b \<Longrightarrow> sp_max_queue_depth (sc_policy b) \<le> pq_total (sc_fifo b) \<Longrightarrow> False"
        using False pq_total_le_depth [OF ok(1)] depth by (auto simp: b_def fifo_only_def)
      with spec that show ?thesis by (auto simp: b_def)
    qed
    have "same_core t s' \<and> sdn_queued d = k"
      using True False assms(2) t refuse
      by (cases k) (auto simp: sched_enqueue_def Let_def b_def [symmetric] fifo_only_def refuse_decision_def
          split: if_splits, auto simp: b_def same_core_def)
    then show ?thesis
      using spec pool en same_core_ok [of t s'] same_core_entries [of t s'] by (simp add: sched_ok_def)
  qed
qed

subsection \<open>Dequeue\<close>

definition opt_mset :: "'a option \<Rightarrow> 'a multiset" where
  "opt_mset x = (case x of None \<Rightarrow> {#} | Some a \<Rightarrow> {#a#})"

lemma opt_mset_simps [simp]: "opt_mset None = {#}" "opt_mset (Some a) = {#a#}"
  by (simp_all add: opt_mset_def)

text \<open>A step that takes the entries \<open>gone\<close> out of the queues and touches nothing else.\<close>

definition taken :: "scheduler \<Rightarrow> scheduler \<Rightarrow> queue_entry multiset \<Rightarrow> bool" where
  "taken s t gone \<longleftrightarrow>
     queues_ok t \<and> sched_entries s = sched_entries t + gone \<and> sc_workers t = sc_workers s \<and>
     sc_dispatched t = sc_dispatched s \<and> sc_policy t = sc_policy s \<and> sc_retry t = sc_retry s"

lemma take_edf_taken:
  assumes "queues_ok s" "take_edf s = (t, e)"
  shows "taken s t (opt_mset e)"
proof (cases "sc_edf s" rule: edf_pop_cases)
  case empty
  then show ?thesis using assms by (auto simp: take_edf_def taken_def)
next
  case (some x h)
  have "edf_heap (sc_edf s) \<noteq> []" using some(1) by (auto simp: heappop_def)
  moreover have "mset (map snd (edf_heap (sc_edf s))) = add_mset (snd x) (mset (map snd h))"
    using heappop_mset [OF some(1)] by (metis image_mset_add_mset mset_map)
  moreover have "edf_keyed ((sc_edf s)\<lparr>edf_heap := h\<rparr>)"
    using assms(1) heappop_set [OF some(1)] edf_keyed_subset by (auto simp: queues_ok_def)
  ultimately show ?thesis
    using assms some(2) by (auto simp: take_edf_def taken_def queues_ok_def sched_entries_def fifo_only_def)
qed

lemma take_fifo_taken:
  assumes "queues_ok s" "take_fifo s = (t, e)"
  shows "taken s t (opt_mset e)"
proof -
  have t: "t = s\<lparr>sc_fifo := fst (pq_pop (sc_fifo s))\<rparr>" "e = snd (pq_pop (sc_fifo s))"
    using assms(2) by (auto simp: take_fifo_def split: prod.splits)
  have ok: "pq_ok (sc_fifo s)" using assms(1) by (simp add: queues_ok_def)
  have "pq_total (fst (pq_pop (sc_fifo s))) \<le> pq_total (sc_fifo s)"
    "pq_max_size (fst (pq_pop (sc_fifo s))) = pq_max_size (sc_fifo s)"
    by (simp_all add: pq_pop_def split: option.splits)
  moreover have "mset (pq_entries (sc_fifo s)) = mset (pq_entries (fst (pq_pop (sc_fifo s)))) + opt_mset e"
    unfolding t(2) pq_pop_entries by (cases "pq_entries (sc_fifo s)") simp_all
  ultimately show ?thesis
    using assms(1) pq_pop_ok [OF ok]
    by (auto simp: t(1) taken_def queues_ok_def sched_entries_def fifo_only_def)
qed

context fair_pop
begin

lemma take_fair_taken:
  assumes "queues_ok s"
  shows "\<exists>t e. take_fair pop s = Inr (t, e) \<and> taken s t (opt_mset e)"
proof -
  have "wf_ok (sc_fair s)" using assms by (simp add: queues_ok_def)
  then obtain q e where q: "pop (sc_fair s) = Inr (q, e)" "wf_ok q"
    "mset (wf_entries (sc_fair s)) = mset (wf_entries q) + mset (case e of None \<Rightarrow> [] | Some x \<Rightarrow> [x])"
    by (rule pop_total) blast
  have m: "mset (wf_entries (sc_fair s)) = mset (wf_entries q) + opt_mset e"
    using q(3) by (cases e) simp_all
  then have "sched_entries s = sched_entries (s\<lparr>sc_fair := q\<rparr>) + opt_mset e"
    by (simp add: sched_entries_def)
  moreover have "wf_entries q = []" if "wf_entries (sc_fair s) = []" using m that by simp
  then have "queues_ok (s\<lparr>sc_fair := q\<rparr>)" using assms q(2) by (auto simp: queues_ok_def fifo_only_def)
  ultimately show ?thesis using q(1) by (simp add: take_fair_def taken_def)
qed

end

lemma taken_trans: "taken s t a \<Longrightarrow> taken t u b \<Longrightarrow> taken s u (a + b)"
  by (simp add: taken_def ac_simps)

lemma select_entry_taken:
  assumes "queues_ok s"
  shows "\<exists>t e. select_entry now_ms s = Inr (t, e) \<and> taken s t (opt_mset e)"
proof -
  let ?algo = "sp_algorithm (sc_policy s)"
  obtain t1 e1 where edf: "take_edf s = (t1, e1)" by fastforce
  obtain t2 e2 where fifo: "take_fifo s = (t2, e2)" by fastforce
  note t1 = take_edf_taken [OF assms edf] and t2 = take_fifo_taken [OF assms fifo]
  show ?thesis
  proof (cases "?algo \<in> {''edf'', ''fifo'', ''fair'', ''wrr'', ''rr''}")
    case True
    then show ?thesis
      using edf fifo t1 t2 wfq.take_fair_taken [OF assms, of now_ms] rr.take_fair_taken [OF assms]
        wrr.take_fair_taken [OF assms]
      by (auto simp: select_entry_def)
  next
    case False
    show ?thesis
    proof (cases e1)
      case (Some e)
      then show ?thesis using False edf t1 by (auto simp: select_entry_def)
    next
      case None
      then have q1: "queues_ok t1" using t1 by (simp add: taken_def)
      obtain t3 e3 where fair: "take_fair (wf_pop_wfq now_ms) t1 = Inr (t3, e3)" "taken t1 t3 (opt_mset e3)"
        using wfq.take_fair_taken [OF q1] by blast
      obtain t4 e4 where last: "take_fifo t3 = (t4, e4)" by fastforce
      have "taken t3 t4 (opt_mset e4)" using fair(2) last by (intro take_fifo_taken) (simp_all add: taken_def)
      with fair None t1 False edf last show ?thesis
        by (cases e3) (auto simp: select_entry_def dest: taken_trans)
    qed
  qed
qed

lemma fold_expired_sel:
  fixes es :: "queue_entry list"
  defines "note_expired \<equiv> (\<lambda>e s. sched_publish (SE_EXPIRED (qi_id (qe_item e)))
              (s\<lparr>sc_expired := sc_expired s + 1,
                 sc_metrics := (sc_metrics s)
                   \<lparr>sm_expired_count := sm_expired_count (sc_metrics s) + 1,
                    sm_deadline_misses := sm_deadline_misses (sc_metrics s) + 1\<rparr>\<rparr>))"
  shows "same_core s (fold note_expired es s) \<and> sc_expired (fold note_expired es s) = sc_expired s + int (length es) \<and>
         sc_retry (fold note_expired es s) = sc_retry s"
proof (induction es arbitrary: s)
  case (Cons e es)
  have "same_core s (note_expired e s)" "sc_expired (note_expired e s) = sc_expired s + 1"
    "sc_retry (note_expired e s) = sc_retry s"
    by (simp_all add: note_expired_def same_core_def)
  with Cons [of "note_expired e s"] show ?case by (auto intro: same_core_trans)
qed (simp add: same_core_def)

lemma drop_expired_taken:
  assumes "queues_ok s"
  shows "taken s (drop_expired now_ms s) (mset (snd (edf_expired now_ms (sc_edf s)))) \<and>
         (\<forall>e\<in>set (snd (edf_expired now_ms (sc_edf s))). due now_ms e) \<and>
         sc_expired (drop_expired now_ms s) = sc_expired s + int (length (snd (edf_expired now_ms (sc_edf s))))"
proof -
  obtain h es where h: "expired_loop now_ms (edf_heap (sc_edf s)) = (h, es)" by fastforce
  let ?t = "s\<lparr>sc_edf := (sc_edf s)\<lparr>edf_heap := h\<rparr>\<rparr>"
  have "h = []" if "edf_heap (sc_edf s) = []" using h that by (simp add: expired_loop.simps)
  moreover have "set h \<subseteq> set (edf_heap (sc_edf s)) \<and> (\<forall>e\<in>set es. due now_ms e)"
    using expired_loop_due [OF h] assms by (simp add: queues_ok_def edf_keyed_def)
  then have due: "\<forall>e\<in>set es. due now_ms e" and "edf_keyed ((sc_edf s)\<lparr>edf_heap := h\<rparr>)"
    using edf_keyed_subset assms by (auto simp: queues_ok_def)
  ultimately have "queues_ok ?t" using assms by (auto simp: queues_ok_def fifo_only_def)
  moreover have "sched_entries s = sched_entries ?t + mset es"
    using expired_loop_mset [OF h] by (simp add: sched_entries_def)
  ultimately have t: "taken s ?t (mset es)" by (simp add: taken_def)
  define u where "u = drop_expired now_ms s"
  have "same_core ?t u" "sc_expired u = sc_expired ?t + int (length es)" "sc_retry u = sc_retry ?t"
    using fold_expired_sel [of ?t es] by (simp_all add: u_def drop_expired_def edf_expired_def h Let_def)
  then show ?thesis
    using t due by (simp add: u_def [symmetric] edf_expired_def h taken_def same_core_def queues_ok_def
        fifo_only_def sched_entries_def)
qed

lemma dispatch_entry_core:
  assumes "dispatch_entry now now_ms e s = (t, plan)"
  shows "sc_fifo t = sc_fifo s \<and> sc_edf t = sc_edf s \<and> sc_fair t = sc_fair s \<and> sc_policy t = sc_policy s \<and>
     sc_workers t = sc_workers s \<and> sc_dispatched t = sc_dispatched s + 1 \<and> sc_expired t = sc_expired s \<and>
     sc_retry t = fst (rp_plan (qi_id (qe_item e)) 3 (sc_retry s)) \<and>
     dp_retry plan = snd (rp_plan (qi_id (qe_item e)) 3 (sc_retry s)) \<and>
     dp_item plan = qe_item e \<and> dp_priority plan = qe_priority_level e"
  using assms by (auto simp: dispatch_entry_def Let_def case_prod_beta)

lemma select_entry_expired:
  "select_entry now_ms s = Inr (t, e) \<Longrightarrow> sc_expired t = sc_expired s"
  by (auto simp: select_entry_def take_edf_def take_fifo_def take_fair_def Let_def map_sum_def id_def
      split: if_splits prod.splits option.splits sum.splits)

lemma workers_irrelevant [simp]:
  "queues_ok (s\<lparr>sc_workers := w\<rparr>) = queues_ok s" "sched_entries (s\<lparr>sc_workers := w\<rparr>) = sched_entries s"
  by (simp_all add: queues_ok_def fifo_only_def sched_entries_def)

text \<open>\<open>dequeue\<close> of a running scheduler, after the expired entries are dropped.\<close>

definition with_worker :: "scheduler \<Rightarrow> scheduler" where
  "with_worker d = d\<lparr>sc_workers := (sc_workers d)\<lparr>wk_acquired := wk_acquired (sc_workers d) + 1\<rparr>\<rparr>"

lemma dequeue_active:
  assumes "sc_running s" "\<not> sc_paused s" "d = drop_expired now_ms s"
  shows "sched_dequeue now now_ms s =
     (if wk_acquired (sc_workers d) + 1 \<le> wk_pool_size (sc_workers d) then
        (case select_entry now_ms (with_worker d) of
           Inl err \<Rightarrow> Inl err
         | Inr (t, None) \<Rightarrow> Inr (t\<lparr>sc_workers := wk_release 1 (sc_workers t)\<rparr>, None)
         | Inr (t, Some x) \<Rightarrow> (let (u, plan) = dispatch_entry now now_ms x t in Inr (u, Some plan)))
      else Inr (d, None))"
  using assms by (simp add: sched_dequeue_def Let_def wk_acquire_def with_worker_def)

text \<open>What one \<open>dequeue\<close> may do to the queues and counters.\<close>

definition dequeued :: "real \<Rightarrow> scheduler \<Rightarrow> scheduler \<Rightarrow> dispatch_plan option \<Rightarrow> bool" where
  "dequeued now_ms s t r \<longleftrightarrow> sched_ok t \<and>
     (\<exists>old out. sched_entries s = sched_entries t + old + out \<and>
        sc_expired t = sc_expired s + int (size old) \<and> sc_dispatched t = sc_dispatched s + int (size out) \<and>
        (\<forall>e\<in>#old. due now_ms e) \<and>
        (sc_running s \<and> \<not> sc_paused s \<and> edf_ok (sc_edf s) \<longrightarrow>
           old = filter_mset (due now_ms) (mset (map snd (edf_heap (sc_edf s))))) \<and>
        (case r of None \<Rightarrow> out = {#}
         | Some plan \<Rightarrow> \<exists>e. out = {#e#} \<and> dp_item plan = qe_item e \<and> dp_priority plan = qe_priority_level e))"

lemma dequeue_dispatches:
  assumes "queues_ok d" "pool_ok d" "wk_acquired (sc_workers d) + 1 \<le> wk_pool_size (sc_workers d)"
    and "taken (with_worker d) t {#x#}" "sc_expired t = sc_expired d" "dispatch_entry now now_ms x t = (u, plan)"
  shows "sched_ok u" "sched_entries d = sched_entries u + {#x#}" "sc_dispatched u = sc_dispatched d + 1"
    "sc_expired u = sc_expired d" "dp_item plan = qe_item x" "dp_priority plan = qe_priority_level x"
  using assms dispatch_entry_core [OF assms(6)]
  by (auto simp: sched_ok_def taken_def with_worker_def queues_ok_def fifo_only_def pool_ok_def sched_entries_def)

lemma dequeue_finds_nothing:
  assumes "queues_ok d" "pool_ok d" "wk_acquired (sc_workers d) + 1 \<le> wk_pool_size (sc_workers d)"
    and "taken (with_worker d) t {#}" "sc_expired t = sc_expired d" "u = t\<lparr>sc_workers := wk_release 1 (sc_workers t)\<rparr>"
  shows "sched_ok u" "sched_entries d = sched_entries u" "sc_dispatched u = sc_dispatched d" "sc_expired u = sc_expired d"
  using assms by (auto simp: sched_ok_def taken_def with_worker_def pool_ok_def wk_release_def)

lemma dequeue_spec:
  assumes "sched_ok s"
  shows "\<exists>t r. sched_dequeue now now_ms s = Inr (t, r) \<and> dequeued now_ms s t r"
proof (cases "sc_running s \<and> \<not> sc_paused s")
  case False
  then show ?thesis
    using assms by (auto simp: sched_dequeue_def dequeued_def)
next
  case True
  define d where "d = drop_expired now_ms s"
  define old where "old = mset (snd (edf_expired now_ms (sc_edf s)))"
  have d: "taken s d old" "sc_expired d = sc_expired s + int (size old)" and due: "\<forall>e\<in>#old. due now_ms e"
    using drop_expired_taken [of s now_ms] assms by (simp_all add: d_def old_def sched_ok_def)
  have all: "old = filter_mset (due now_ms) (mset (map snd (edf_heap (sc_edf s))))" if "edf_ok (sc_edf s)"
    using edf_expired_all_due [OF that] by (simp add: old_def)
  have result: "dequeued now_ms s t r"
    if "sched_ok t" "sched_entries d = sched_entries t + out" "sc_dispatched t = sc_dispatched d + int (size out)"
      "sc_expired t = sc_expired d"
      "case r of None \<Rightarrow> out = {#}
       | Some plan \<Rightarrow> \<exists>e. out = {#e#} \<and> dp_item plan = qe_item e \<and> dp_priority plan = qe_priority_level e"
    for t r out
    unfolding dequeued_def
    using that d due all by (intro conjI exI [of _ old] exI [of _ out] impI) (simp_all add: taken_def)
  have ok: "queues_ok d" "pool_ok d"
    using d(1) assms pool_ok_cong [of d s] by (simp_all add: taken_def sched_ok_def)
  note deq = dequeue_active [OF True [THEN conjunct1] True [THEN conjunct2] d_def, of now]
  show ?thesis
  proof (cases "wk_acquired (sc_workers d) + 1 \<le> wk_pool_size (sc_workers d)")
    case False
    have "dequeued now_ms s d None"
      by (rule result [of _ "{#}"]) (use ok in \<open>simp_all add: sched_ok_def\<close>)
    then show ?thesis using deq False by simp
  next
    case worker: True
    from ok(1) have "queues_ok (with_worker d)" by (simp add: with_worker_def)
    from select_entry_taken [OF this] obtain t e where
      t: "select_entry now_ms (with_worker d) = Inr (t, e)" "taken (with_worker d) t (opt_mset e)" by blast
    have te: "sc_expired t = sc_expired d" using select_entry_expired [OF t(1)] by (simp add: with_worker_def)
    show ?thesis
    proof (cases e)
      case None
      note n = dequeue_finds_nothing [OF ok worker t(2) [unfolded None opt_mset_simps] te refl]
      have "dequeued now_ms s (t\<lparr>sc_workers := wk_release 1 (sc_workers t)\<rparr>) None"
        by (rule result [OF n(1), of "{#}"]) (use n in simp_all)
      then show ?thesis using deq worker t(1) None by simp
    next
      case (Some x)
      obtain u plan where u: "dispatch_entry now now_ms x t = (u, plan)" by fastforce
      note n = dequeue_dispatches [OF ok worker t(2) [unfolded Some opt_mset_simps] te u]
      have "dequeued now_ms s u (Some plan)"
        by (rule result [OF n(1), of "{#x#}"]) (use n in simp_all)
      then show ?thesis using deq worker t(1) Some u by simp
    qed
  qed
qed

subsection \<open>Cancellation and the invariant\<close>

lemma removes_found: "removes i a a' f \<Longrightarrow> f \<Longrightarrow> removes i (a + b) (a' + b) True"
  by (simp add: removes_def)

lemma removes_missed: "removes i a a' f \<Longrightarrow> \<not> f \<Longrightarrow> a' = a \<and> (\<forall>e \<in># a. \<not> has_id i e)"
  by (simp add: removes_def)

lemma removes_empty: "removes i {#} es' f \<Longrightarrow> es' = {#}"
  by (cases f) (simp_all add: removes_def)

lemma cancel_fifo:
  assumes "queues_ok s" "t = s\<lparr>sc_fifo := fst (pq_remove i (sc_fifo s))\<rparr>" "f = snd (pq_remove i (sc_fifo s))"
  shows "queues_ok t" "f \<Longrightarrow> removes i (sched_entries s) (sched_entries t) True"
    "\<not> f \<Longrightarrow> sched_entries t = sched_entries s \<and> (\<forall>e \<in> set (pq_entries (sc_fifo s)). \<not> has_id i e)"
proof -
  let ?q = "fst (pq_remove i (sc_fifo s))"
  have r: "pq_ok ?q" "removes i (mset (pq_entries (sc_fifo s))) (mset (pq_entries ?q)) f"
    using pq_remove_removes [of "sc_fifo s" i] assms(1,3) by (simp_all add: queues_ok_def)
  have "pq_max_size ?q = pq_max_size (sc_fifo s)" "pq_total ?q \<le> pq_total (sc_fifo s)"
    by (simp_all add: pq_remove_def split: option.splits)
  with assms r(1) show "queues_ok t" by (auto simp: queues_ok_def fifo_only_def)
  show "removes i (sched_entries s) (sched_entries t) True" if f
    using removes_found [OF r(2) that] by (simp add: sched_entries_def assms(2) add.assoc)
  show "sched_entries t = sched_entries s \<and> (\<forall>e \<in> set (pq_entries (sc_fifo s)). \<not> has_id i e)" if "\<not> f"
    using removes_missed [OF r(2) that] by (simp add: sched_entries_def assms(2))
qed

lemma cancel_edf:
  assumes "queues_ok s" "t = s\<lparr>sc_edf := fst (edf_remove i (sc_edf s))\<rparr>" "f = snd (edf_remove i (sc_edf s))"
  shows "queues_ok t" "f \<Longrightarrow> removes i (sched_entries s) (sched_entries t) True"
    "\<not> f \<Longrightarrow> sched_entries t = sched_entries s \<and> (\<forall>e \<in> snd ` set (edf_heap (sc_edf s)). \<not> has_id i e)"
proof -
  let ?q = "fst (edf_remove i (sc_edf s))"
  let ?h = "mset (map snd (edf_heap (sc_edf s)))" and ?h' = "mset (map snd (edf_heap ?q))"
  have r: "removes i ?h ?h' f" using edf_remove_removes assms(3) by simp
  have "edf_heap (sc_edf s) = [] \<Longrightarrow> edf_heap ?q = []" by (simp add: edf_remove_def)
  moreover have "edf_keyed ?q"
    using assms(1) by (auto simp: edf_remove_def queues_ok_def intro: edf_keyed_subset)
  ultimately show "queues_ok t" using assms by (auto simp: queues_ok_def fifo_only_def)
  have e: "sched_entries s = ?h + (mset (pq_entries (sc_fifo s)) + mset (wf_entries (sc_fair s)))"
    "sched_entries t = ?h' + (mset (pq_entries (sc_fifo s)) + mset (wf_entries (sc_fair s)))"
    by (simp_all add: sched_entries_def assms(2) ac_simps)
  show "removes i (sched_entries s) (sched_entries t) True" if f
    unfolding e by (rule removes_found [OF r that])
  show "sched_entries t = sched_entries s \<and> (\<forall>e \<in> snd ` set (edf_heap (sc_edf s)). \<not> has_id i e)" if "\<not> f"
    using removes_missed [OF r that] unfolding e by auto
qed

lemma cancel_fair:
  assumes "queues_ok s" "t = s\<lparr>sc_fair := fst (wf_cancel i (sc_fair s))\<rparr>" "f = snd (wf_cancel i (sc_fair s))"
  shows "queues_ok t" "f \<Longrightarrow> removes i (sched_entries s) (sched_entries t) True"
    "\<not> f \<Longrightarrow> sched_entries t = sched_entries s \<and> (\<forall>e \<in> set (wf_entries (sc_fair s)). \<not> has_id i e)"
proof -
  let ?q = "fst (wf_cancel i (sc_fair s))"
  have r: "wf_ok ?q" "removes i (mset (wf_entries (sc_fair s))) (mset (wf_entries ?q)) f"
    using wf_cancel_removes [of "sc_fair s" i] assms(1,3) by (simp_all add: queues_ok_def)
  have "wf_entries (sc_fair s) = [] \<Longrightarrow> wf_entries ?q = []" using removes_empty r(2) by fastforce
  with assms r(1) show "queues_ok t" by (auto simp: queues_ok_def fifo_only_def)
  have e: "sched_entries s =
      mset (wf_entries (sc_fair s)) + (mset (pq_entries (sc_fifo s)) + mset (map snd (edf_heap (sc_edf s))))"
    "sched_entries t =
      mset (wf_entries ?q) + (mset (pq_entries (sc_fifo s)) + mset (map snd (edf_heap (sc_edf s))))"
    by (simp_all add: sched_entries_def assms(2) ac_simps)
  show "removes i (sched_entries s) (sched_entries t) True" if f
    unfolding e by (rule removes_found [OF r(2) that])
  show "sched_entries t = sched_entries s \<and> (\<forall>e \<in> set (wf_entries (sc_fair s)). \<not> has_id i e)" if "\<not> f"
    using removes_missed [OF r(2) that] by (simp add: sched_entries_def assms(2))
qed

lemma cancel_spec:
  assumes "sched_ok s" "sched_cancel i s = (t, found)"
  shows "sched_ok t \<and> removes i (sched_entries s) (sched_entries t) found"
proof -
  define a where "a = s\<lparr>sc_fifo := fst (pq_remove i (sc_fifo s))\<rparr>"
  define b where "b = (if snd (pq_remove i (sc_fifo s)) then a else a\<lparr>sc_edf := fst (edf_remove i (sc_edf a))\<rparr>)"
  define fb where "fb \<longleftrightarrow> snd (pq_remove i (sc_fifo s)) \<or> snd (edf_remove i (sc_edf a))"
  define c where "c = (if fb then b else b\<lparr>sc_fair := fst (wf_cancel i (sc_fair b))\<rparr>)"
  have t: "t = (if found then sched_publish (SE_CANCELLED i) (c\<lparr>sc_canceled := sc_canceled c + 1\<rparr>) else c)"
    "found \<longleftrightarrow> fb \<or> snd (wf_cancel i (sc_fair b))"
    using assms(2) unfolding sched_cancel_def Let_def a_def b_def c_def fb_def
    by (cases "snd (pq_remove i (sc_fifo s))"; cases "snd (edf_remove i (sc_edf s))"; auto simp: case_prod_beta)+
  have core: "same_core c t" using t(1) by (simp add: same_core_def)
  have q: "queues_ok s" using assms(1) by (simp add: sched_ok_def)
  note sa = cancel_fifo [OF q a_def refl]
  have sb: "queues_ok b" "fb \<Longrightarrow> removes i (sched_entries s) (sched_entries b) True"
    "\<not> fb \<Longrightarrow> sched_entries b = sched_entries s \<and>
       (\<forall>e \<in> set (pq_entries (sc_fifo s)) \<union> snd ` set (edf_heap (sc_edf s)). \<not> has_id i e)"
    using sa cancel_edf [OF sa(1) refl refl, of i] by (auto simp: b_def fb_def) (auto simp: a_def)
  have fair: "sc_fair b = sc_fair s" by (simp add: b_def a_def)
  have sc: "queues_ok c" "found \<Longrightarrow> removes i (sched_entries s) (sched_entries c) True"
    "\<not> found \<Longrightarrow> sched_entries c = sched_entries s \<and> (\<forall>e \<in># sched_entries s. \<not> has_id i e)"
    using sb cancel_fair [OF sb(1) refl refl, of i]
    by (auto simp: c_def t(2) fair) (auto simp: sched_entries_def)
  have "pool_ok c" using assms(1) pool_ok_cong [of c s] by (simp add: sched_ok_def c_def b_def a_def)
  then have "sched_ok t" using sc(1) same_core_ok [OF core] by (simp add: sched_ok_def)
  moreover have "removes i (sched_entries s) (sched_entries t) found"
    using sc(2,3) same_core_entries [OF core] by (cases found) (auto simp: removes_def)
  ultimately show ?thesis by blast
qed

lemma init_ok: "sched_initial s \<Longrightarrow> sched_ok s"
  by (auto simp: sched_initial_def sched_init_def sched_ok_def queues_ok_def pool_ok_def wk_init_def edf_init_def)
     (auto simp: pq_init_def)

interpretation sched_machine: invariant_machine sched_initial sched_step sched_ok
proof unfold_locales
  show "sched_ok s" if "sched_initial s" for s using that by (rule init_ok)
  show "sched_ok t" if "sched_ok s" "sched_step s t" for s t
    using that(2,1)
  proof (cases rule: sched_step.cases)
    case (ss_enqueue now_ms wt fresh p m prio dl cost lat aff)
    with that(1) enqueue_spec [OF that(1) prod.collapse [symmetric]] show ?thesis by simp
  next
    case (ss_dequeue now now_ms r)
    with that(1) dequeue_spec [OF that(1), of now now_ms] show ?thesis by (auto simp: dequeued_def)
  next
    case (ss_cancel i)
    with that(1) cancel_spec [OF that(1) prod.collapse [symmetric]] show ?thesis by simp
  qed (auto simp: stop_ok intro: same_core_ok admin_core)
qed

lemmas sched_reach_ok = sched_machine.reach_inv

subsection \<open>The worker pool\<close>

definition dequeue_call ::
  "real \<times> real \<Rightarrow> scheduler \<Rightarrow> scheduler \<times> (py_error + dispatch_plan option)" where
  "dequeue_call = (\<lambda>(now, now_ms) s.
     case sched_dequeue now now_ms s of Inl err \<Rightarrow> (s, Inl err) | Inr (t, r) \<Rightarrow> (t, Inr r))"

lemma pool_bounds: "sched_ok s \<Longrightarrow> 0 \<le> sc_dispatched s \<and> sc_dispatched s \<le> max 0 (wk_pool_size (sc_workers s))"
  unfolding sched_ok_def pool_ok_def by blast

definition pool_exhausted :: "scheduler \<Rightarrow> bool" where
  "pool_exhausted s \<longleftrightarrow> sched_ok s \<and> sc_dispatched s \<ge> wk_pool_size (sc_workers s)"

lemma dequeue_exhausted:
  assumes "pool_exhausted s"
  shows "\<exists>t. sched_dequeue now now_ms s = Inr (t, None) \<and> pool_exhausted t"
proof -
  obtain t r where t: "sched_dequeue now now_ms s = Inr (t, r)" "dequeued now_ms s t r"
    using dequeue_spec [of s now now_ms] assms unfolding pool_exhausted_def by blast
  have w: "wk_pool_size (sc_workers t) = wk_pool_size (sc_workers s)"
  proof (cases "sc_running s \<and> \<not> sc_paused s")
    case False
    then show ?thesis using t(1) by (auto simp: sched_dequeue_def)
  next
    case True
    have d: "taken s (drop_expired now_ms s) (mset (snd (edf_expired now_ms (sc_edf s))))"
      using drop_expired_taken assms by (simp add: pool_exhausted_def sched_ok_def)
    then have "\<not> wk_acquired (sc_workers (drop_expired now_ms s)) + 1 \<le> wk_pool_size (sc_workers (drop_expired now_ms s))"
      using assms by (auto simp: taken_def pool_exhausted_def sched_ok_def pool_ok_def)
    then have "t = drop_expired now_ms s" using t(1) True dequeue_active [of s _ now_ms now] by simp
    with d show ?thesis by (simp add: taken_def)
  qed
  have "sc_dispatched t \<le> max 0 (wk_pool_size (sc_workers t))" "0 \<le> sc_dispatched s"
    using t(2) assms pool_bounds by (auto simp: dequeued_def pool_exhausted_def)
  then have "r = None"
    using t(2) assms w by (cases r) (auto simp: dequeued_def pool_exhausted_def)
  moreover from this have "pool_exhausted t" using t(2) assms w by (auto simp: dequeued_def pool_exhausted_def)
  ultimately show ?thesis using t(1) by blast
qed

interpretation exhausted_pool: refusing dequeue_call "\<lambda>_. True" pool_exhausted "Inr None"
proof unfold_locales
  fix s and i :: "real \<times> real" assume "pool_exhausted s"
  from dequeue_exhausted [OF this, of "fst i" "snd i"]
  show "snd (dequeue_call i s) = Inr None \<and> pool_exhausted (fst (dequeue_call i s))"
    by (auto simp: dequeue_call_def split: prod.splits)
qed

subsection \<open>Which queue an algorithm serves\<close>

lemma take_fair_edf: "take_fair pop s = Inr (t, e) \<Longrightarrow> sc_edf t = sc_edf s"
  by (auto simp: take_fair_def map_sum_def split: sum.splits)

lemma dequeue_rr_edf:
  assumes "sp_algorithm (sc_policy s) \<in> {''rr'', ''wrr''}" "sched_ok s"
    and "sched_dequeue now now_ms s = Inr (t, r)"
  shows "sc_edf t = sc_edf s \<or> sc_edf t = fst (edf_expired now_ms (sc_edf s))"
proof (cases "sc_running s \<and> \<not> sc_paused s")
  case False
  then show ?thesis using assms(3) by (auto simp: sched_dequeue_def)
next
  case True
  let ?d = "drop_expired now_ms s"
  have q: "queues_ok s" using assms(2) by (simp add: sched_ok_def)
  have edf: "sc_edf ?d = fst (edf_expired now_ms (sc_edf s))"
    using fold_expired_sel by (auto simp: drop_expired_def Let_def same_core_def split: prod.splits)
  have pol: "sc_policy (with_worker ?d) = sc_policy s"
    using drop_expired_taken [OF q] by (simp add: taken_def with_worker_def)
  have sel: "sc_edf u = sc_edf ?d" if "select_entry now_ms (with_worker ?d) = Inr (u, e)" for u e
    using that assms(1) pol by (auto simp: select_entry_def with_worker_def dest!: take_fair_edf)
  show ?thesis
    using assms(3) edf sel dispatch_entry_core
    unfolding dequeue_active [OF True [THEN conjunct1] True [THEN conjunct2] refl]
    by (auto split: if_splits sum.splits option.splits prod.splits)
qed

lemma first_plan:
  "dict_get (rp_retry_counts r) i = None \<Longrightarrow>
   rp_plan i 3 r =
     (r\<lparr>rp_retry_counts := dict_set (rp_retry_counts r) i 1, rp_total_retries := rp_total_retries r + 1\<rparr>,
      \<lparr>rs_should_retry = True, rs_retry_count = 1, rs_delay_ms = 150, rs_reason = RetryNo 1\<rparr>)"
  by (simp add: rp_plan_def dict_get_or_def)

subsection \<open>Properties\<close>

text \<open>C8: In every reachable state \<open>dequeue\<close> returns without raising, and two things leave the queues:
  requests of the deadline heap whose deadline has come, each counted as expired, and the request
  of the plan that is returned, counted as dispatched; nothing else is lost and nothing is
  duplicated. As long as no cancellation has disturbed the heap, a running scheduler drops every
  request of the heap whose deadline has come.\<close>

theorem dequeue_conserves_requests:
  assumes "reach sched_initial sched_step s"
  shows "\<exists>t r old out. sched_dequeue now now_ms s = Inr (t, r) \<and>
           sched_entries s = sched_entries t + old + out \<and>
           sc_expired t = sc_expired s + int (size old) \<and> sc_dispatched t = sc_dispatched s + int (size out) \<and>
           (\<forall>e\<in>#old. \<exists>d. qe_deadline_ms e = Some d \<and> d \<le> now_ms) \<and>
           (sc_running s \<and> \<not> sc_paused s \<and> edf_ok (sc_edf s) \<longrightarrow>
              old = {#e \<in># mset (map snd (edf_heap (sc_edf s))). \<exists>d. qe_deadline_ms e = Some d \<and> d \<le> now_ms#}) \<and>
           (case r of None \<Rightarrow> out = {#}
            | Some plan \<Rightarrow> \<exists>e. out = {#e#} \<and> dp_item plan = qe_item e \<and> dp_priority plan = qe_priority_level e)"
proof -
  have due: "due now_ms e \<longleftrightarrow> (\<exists>d. qe_deadline_ms e = Some d \<and> d \<le> now_ms)" for e
    by (auto simp: due_def split: option.split)
  obtain t r where "sched_dequeue now now_ms s = Inr (t, r)" "dequeued now_ms s t r"
    using dequeue_spec [OF sched_reach_ok [OF assms], of now now_ms] by blast
  then show ?thesis unfolding dequeued_def due by blast
qed

text \<open>In every reachable state, \<open>enqueue\<close> adds exactly the new request to the queues when its
  decision says it was queued, and leaves their contents alone otherwise.\<close>

theorem enqueue_stores_what_it_accepts:
  assumes "reach sched_initial sched_step s"
    and "sched_enqueue now_ms wt fresh p m prio dl cost lat aff s = (t, d)"
  shows "sched_entries t = sched_entries s +
           (if sdn_queued d then {#make_entry now_ms wt fresh p m prio dl cost lat aff#} else {#})"
  using enqueue_spec [OF sched_reach_ok [OF assms(1)] assms(2)] by blast

text \<open>In every reachable state, \<open>cancel\<close> answers whether some queued request has the identifier;
  if so the contents shrink, and requests with other identifiers stay queued.\<close>

theorem cancel_removes_only_the_named:
  assumes "reach sched_initial sched_step s" "sched_cancel i s = (t, found)"
  shows "filter_mset (\<lambda>e. \<not> has_id i e) (sched_entries t) = filter_mset (\<lambda>e. \<not> has_id i e) (sched_entries s) \<and>
         (if found then sched_entries t \<subset># sched_entries s
          else sched_entries t = sched_entries s \<and> (\<forall>e \<in># sched_entries s. \<not> has_id i e))"
  using cancel_spec [OF sched_reach_ok [OF assms(1)] assms(2)] by (auto simp: removes_def)

text \<open>Every dispatch keeps its worker: in every reachable state the acquired workers are all
  the requests dispatched so far, so over its whole life, restarts included, the scheduler
  dispatches at most as many requests as its pool has workers.\<close>

theorem lifetime_dispatches_bounded_by_pool:
  assumes "reach sched_initial sched_step s"
  shows "wk_acquired (sc_workers s) = sc_dispatched s \<and>
         sc_dispatched s \<le> max 0 (sp_worker_pool_size (sc_policy s))"
  using sched_reach_ok [OF assms] by (auto simp: sched_ok_def pool_ok_def)

text \<open>Once as many requests as the pool has workers have been dispatched, every further
  \<open>dequeue\<close> answers None, however many there are and whatever is queued.\<close>

theorem exhausted_pool_dispatches_nothing:
  assumes "reach sched_initial sched_step s" "sc_dispatched s = wk_pool_size (sc_workers s)"
  shows "snd (run_calls dequeue_call ts s) = replicate (length ts) (Inr None)"
proof -
  have "pool_exhausted s" using sched_reach_ok [OF assms(1)] assms(2) by (simp add: pool_exhausted_def)
  then show ?thesis using exhausted_pool.run_refused [of s ts] by (simp add: list_all_iff)
qed

text \<open>With the algorithms \<open>fifo\<close> and \<open>priority\<close> the number of queued requests never exceeds the
  configured maximum; the adaptive default accepts a request for a named provider at any depth.\<close>

theorem queue_limit_holds_for_fifo_only:
  assumes "reach sched_initial sched_step s"
  shows "(fifo_only s \<longrightarrow> total_depth s \<le> max 0 (sp_max_queue_depth (sc_policy s))) \<and>
         (sp_algorithm (sc_policy s) = ''adaptive_hybrid'' \<and> sc_running s \<and> \<not> sc_paused s \<and> p \<noteq> [] \<longrightarrow>
          sdn_queued (snd (sched_enqueue now_ms wt fresh p m prio dl cost lat aff s)))"
proof -
  have q: "queues_ok s" using sched_reach_ok [OF assms] by (simp add: sched_ok_def)
  have "total_depth s \<le> max 0 (sp_max_queue_depth (sc_policy s))" if "fifo_only s"
    using q that wf_okD(2) [of "sc_fair s"] by (auto simp: total_depth_def queues_ok_def edf_total_def)
  moreover have "or_else aff p \<noteq> []" if "p \<noteq> []" using that by (cases aff) (auto simp: or_else_def)
  ultimately show ?thesis
    by (auto simp: sched_enqueue_def Let_def enqueue_other fifo_only_def split: if_splits)
qed

text \<open>With the round-robin algorithms a request with a deadline is accepted into the deadline
  queue, but \<open>dequeue\<close> never serves that queue: it only drops what has expired.\<close>

theorem round_robin_never_serves_deadlines:
  assumes "reach sched_initial sched_step s" "sp_algorithm (sc_policy s) \<in> {''rr'', ''wrr''}"
    and "sc_running s" "\<not> sc_paused s" "sched_dequeue now now_ms s = Inr (t, r)"
  shows "(let (u, d) = sched_enqueue now_ms wt fresh p m prio (Some x) cost lat aff s in
            sdn_queued d \<and> sc_edf u = edf_push (sc_edf s) (make_entry now_ms wt fresh p m prio (Some x) cost lat aff)) \<and>
         (sc_edf t = sc_edf s \<or> sc_edf t = fst (edf_expired now_ms (sc_edf s)))"
proof -
  have "\<not> fifo_only s" "sp_algorithm (sc_policy s) \<noteq> ''edf''" "sp_algorithm (sc_policy s) \<noteq> ''fair''"
    using assms(2) by (auto simp: fifo_only_def)
  then show ?thesis
    using assms(3,4) dequeue_rr_edf [OF assms(2) sched_reach_ok [OF assms(1)] assms(5)]
    by (simp add: sched_enqueue_def Let_def enqueue_other fifo_only_def)
qed

text \<open>The first dispatch of a request is already planned and counted as a retry: its plan
  says retry number 1 after 150 ms, and the retry total grows by one.\<close>

theorem first_dispatch_counts_as_retry:
  assumes "dispatch_entry now now_ms e s = (t, plan)"
    and "dict_get (rp_retry_counts (sc_retry s)) (qi_id (qe_item e)) = None"
  shows "rs_should_retry (dp_retry plan) \<and> rs_retry_count (dp_retry plan) = 1 \<and>
         rs_delay_ms (dp_retry plan) = 150 \<and>
         rp_total_retries (sc_retry t) = rp_total_retries (sc_retry s) + 1"
  using dispatch_entry_core [OF assms(1)] first_plan [OF assms(2)] by simp

subsection \<open>Witnesses\<close>

definition demo_start :: "string \<Rightarrow> scheduler" where
  "demo_start algo = sched_start 1 (sched_init False 10 1 True algo (9 / 10) (1 / 2))"

definition demo_queued :: "string \<Rightarrow> scheduler" where
  "demo_queued algo = fst (sched_enqueue 1000 0 ''a'' ''p'' ''m'' NORMAL None 0 0 None (demo_start algo))"

definition demo_dispatched :: scheduler where
  "demo_dispatched = fst (dequeue_call (2, 2000) (demo_queued ''rr''))"

lemma reach_dequeue:
  assumes "reach sched_initial sched_step s"
  shows "reach sched_initial sched_step (fst (dequeue_call i s))"
proof -
  obtain t r where "sched_dequeue (fst i) (snd i) s = Inr (t, r)"
    using dequeue_spec [OF sched_reach_ok [OF assms]] by blast
  then show ?thesis
    using reach_step [OF assms ss_dequeue] by (simp add: dequeue_call_def case_prod_beta)
qed

lemma reach_demo_start: "reach sched_initial sched_step (demo_start algo)"
proof -
  have "reach sched_initial sched_step (sched_init False 10 1 True algo (9 / 10) (1 / 2))"
    by (rule reach_init) (unfold sched_initial_def, blast)
  then show ?thesis unfolding demo_start_def by (rule reach_step) (rule ss_start)
qed

lemma reach_demo_queued: "reach sched_initial sched_step (demo_queued algo)"
  unfolding demo_queued_def using reach_demo_start by (rule reach_step) (rule ss_enqueue)

lemma reach_demo_dispatched: "reach sched_initial sched_step demo_dispatched"
  unfolding demo_dispatched_def by (rule reach_dequeue) (rule reach_demo_queued)

lemma demo_start_sel [simp]:
  "sc_running (demo_start algo)" "\<not> sc_paused (demo_start algo)" "sp_algorithm (sc_policy (demo_start algo)) = algo"
  "total_depth (demo_start algo) = 0" "sp_max_queue_depth (sc_policy (demo_start algo)) = 10"
  by (simp_all add: demo_start_def sched_start_def sched_init_def set_status_def sched_publish_def total_depth_def
      pq_init_def edf_total_def edf_init_def wf_init_def)

definition late_entry :: queue_entry where
  "late_entry = make_entry 1000 0 ''b'' ''p'' ''m'' NORMAL (Some (1 / 2)) 0 0 None"

definition demo_late :: scheduler where
  "demo_late = fst (sched_enqueue 1000 0 ''b'' ''p'' ''m'' NORMAL (Some (1 / 2)) 0 0 None (demo_start ''edf''))"

lemma demo_late_sel:
  "sc_running demo_late" "\<not> sc_paused demo_late" "sc_edf demo_late = edf_push edf_init late_entry"
proof -
  have "sc_edf (demo_start ''edf'') = edf_init"
    by (simp add: demo_start_def sched_start_def sched_init_def set_status_def sched_publish_def)
  then show "sc_running demo_late" "\<not> sc_paused demo_late" "sc_edf demo_late = edf_push edf_init late_entry"
    by (simp_all add: demo_late_def sched_enqueue_def enqueue_by_algorithm_def Let_def late_entry_def)
qed

theorem dequeue_conserves_requests_witness:
  "\<exists>t r. sched_dequeue 2 2000 demo_late = Inr (t, r) \<and> sc_expired t = sc_expired demo_late + 1"
proof -
  have "reach sched_initial sched_step demo_late"
    unfolding demo_late_def using reach_demo_start by (rule reach_step) (rule ss_enqueue)
  note c8 = dequeue_conserves_requests [OF this, of 2 2000]
  have "edf_ok (sc_edf demo_late)" unfolding demo_late_sel by (rule edf_push_ok) simp
  moreover have "mset (map snd (edf_heap (sc_edf demo_late))) = {#late_entry#}"
    unfolding demo_late_sel edf_push_entries by (simp add: edf_init_def)
  moreover have "qe_deadline_ms late_entry = Some 1500" by (simp add: late_entry_def make_entry_def truthy_num_def)
  ultimately show ?thesis using c8 demo_late_sel(1,2) by auto
qed

theorem enqueue_stores_what_it_accepts_witness:
  "sched_entries (demo_queued ''rr'') =
     sched_entries (demo_start ''rr'') + {#make_entry 1000 0 ''a'' ''p'' ''m'' NORMAL None 0 0 None#}"
proof -
  have "sdn_queued (snd (sched_enqueue 1000 0 ''a'' ''p'' ''m'' NORMAL None 0 0 None (demo_start ''rr'')))"
    by (simp add: sched_enqueue_def Let_def enqueue_other fifo_only_def or_else_def)
  then show ?thesis
    using enqueue_stores_what_it_accepts [OF reach_demo_start prod.collapse [symmetric],
        of 1000 0 "''a''" "''p''" "''m''" NORMAL None 0 0 None "''rr''"]
    by (simp add: demo_queued_def)
qed

theorem cancel_removes_only_the_named_witness:
  "filter_mset (\<lambda>e. \<not> has_id ''b'' e) (sched_entries (fst (sched_cancel ''b'' (demo_queued ''rr'')))) =
   filter_mset (\<lambda>e. \<not> has_id ''b'' e) (sched_entries (demo_queued ''rr''))"
  using cancel_removes_only_the_named [OF reach_demo_queued prod.collapse [symmetric], of "''b''" "''rr''"] by blast

theorem lifetime_dispatches_bounded_by_pool_witness:
  "wk_acquired (sc_workers demo_dispatched) = sc_dispatched demo_dispatched"
  using lifetime_dispatches_bounded_by_pool [OF reach_demo_dispatched] by blast

lemma demo_dispatched_exhausted: "sc_dispatched demo_dispatched = wk_pool_size (sc_workers demo_dispatched)"
  by code_simp

theorem exhausted_pool_dispatches_nothing_witness:
  "snd (run_calls dequeue_call [(3, 3000), (4, 4000)] demo_dispatched) = [Inr None, Inr None]"
  using exhausted_pool_dispatches_nothing [OF reach_demo_dispatched demo_dispatched_exhausted, of "[(3, 3000), (4, 4000)]"]
  by simp

theorem queue_limit_holds_for_fifo_only_witness:
  "sdn_queued (snd (sched_enqueue 0 0 ''a'' ''p'' ''m'' LOW None 0 0 None (demo_start ''adaptive_hybrid'')))"
  using queue_limit_holds_for_fifo_only [OF reach_demo_start [of "''adaptive_hybrid''"], of "''p''" 0 0 "''a''" "''m''" LOW None 0 0 None]
  by simp

theorem round_robin_never_serves_deadlines_witness:
  "\<exists>t r. sched_dequeue 2 2000 (demo_start ''rr'') = Inr (t, r) \<and>
     (sc_edf t = sc_edf (demo_start ''rr'') \<or> sc_edf t = fst (edf_expired 2000 (sc_edf (demo_start ''rr''))))"
proof -
  obtain t r where t: "sched_dequeue 2 2000 (demo_start ''rr'') = Inr (t, r)"
    using dequeue_spec [OF sched_reach_ok [OF reach_demo_start]] by blast
  from round_robin_never_serves_deadlines [OF reach_demo_start _ _ _ t, of 0 "''a''" "''p''" "''m''" LOW 1 0 0 None] t
  show ?thesis by simp
qed

theorem first_dispatch_counts_as_retry_witness:
  "rs_retry_count (dp_retry (snd (dispatch_entry 2 2000 (demo_entry CHR ''a'' 1) (demo_start ''rr'')))) = 1"
proof -
  have "rp_retry_counts (sc_retry (demo_start ''rr'')) = []"
    by (simp add: demo_start_def sched_start_def sched_init_def rp_init_def set_status_def)
  then show ?thesis
    using first_dispatch_counts_as_retry [OF prod.collapse [symmetric], of "demo_start ''rr''"] by simp
qed

end
