(* ===== verification/Consensus.thy ===== *)
theory Consensus
  imports Prelude
begin

text \<open>
  Voting rounds of the cluster (\<open>core/cluster/consensus.py\<close>, data in \<open>core/cluster/domain.py\<close>):
  the five decision strategies, the bounded history and its queries. Identifiers and timestamps
  are arguments; weights and confidences are exact numbers.
\<close>

subsection \<open>Data\<close>

datatype consensus_type = CT_MAJORITY | CT_WEIGHTED | CT_CONFIDENCE | CT_LEADER | CT_QUORUM

record consensus_vote =
  v_node_id :: string
  v_vote :: string
  v_weight :: real
  v_confidence :: real
  v_rationale :: string
  v_timestamp :: string

datatype decision = Accepted | Rejected | NoQuorum

record consensus_result =
  r_id :: string
  r_proposal :: string
  r_type :: consensus_type
  r_votes :: "consensus_vote list"
  r_decision :: decision
  r_confidence :: real
  r_agreement :: real
  r_leader_id :: string
  r_quorum_size :: int
  r_quorum_met :: bool
  r_created_at :: string

record consensus_manager =
  m_quorum_size :: int
  m_leader_id :: string
  m_history :: "consensus_result list"

definition cm_init :: "int \<Rightarrow> string \<Rightarrow> consensus_manager" where
  "cm_init quorum leader = \<lparr>m_quorum_size = max 1 quorum, m_leader_id = leader, m_history = []\<rparr>"

definition set_quorum_size :: "int \<Rightarrow> consensus_manager \<Rightarrow> consensus_manager" where
  "set_quorum_size n m = m\<lparr>m_quorum_size := max 1 n\<rparr>"

definition set_leader :: "string \<Rightarrow> consensus_manager \<Rightarrow> consensus_manager" where
  "set_leader l m = m\<lparr>m_leader_id := l\<rparr>"

subsection \<open>Decision strategies\<close>

definition count_votes :: "string \<Rightarrow> consensus_vote list \<Rightarrow> nat" where
  "count_votes x vs = length (filter (\<lambda>v. v_vote v = x) vs)"

definition decide_majority :: "consensus_vote list \<Rightarrow> decision" where
  "decide_majority vs = (if count_votes ''yes'' vs > count_votes ''no'' vs then Accepted else Rejected)"

definition decide_weighted :: "consensus_vote list \<Rightarrow> decision" where
  "decide_weighted vs =
     (let total_weight = sum_list (map v_weight vs) in
      if total_weight = 0 then Rejected
      else let yes_weight = sum_list (map v_weight (filter (\<lambda>v. v_vote v = ''yes'') vs)) in
        if yes_weight / total_weight > 1 / 2 then Accepted else Rejected)"

definition decide_confidence :: "consensus_vote list \<Rightarrow> decision" where
  "decide_confidence vs =
     (if vs = [] then Rejected
      else let yes_conf = map v_confidence (filter (\<lambda>v. v_vote v = ''yes'') vs) in
        if yes_conf = [] then Rejected
        else if sum_list yes_conf / of_nat (length yes_conf) \<ge> 6 / 10 then Accepted else Rejected)"

definition decide_leader :: "string \<Rightarrow> consensus_vote list \<Rightarrow> decision" where
  "decide_leader leader vs =
     (if leader = [] then Rejected
      else case find (\<lambda>v. v_node_id v = leader) vs of
             Some v \<Rightarrow> if v_vote v = ''yes'' then Accepted else Rejected
           | None \<Rightarrow> Rejected)"

definition decide_quorum :: "int \<Rightarrow> consensus_vote list \<Rightarrow> decision" where
  "decide_quorum quorum vs = (if int (length vs) < quorum then NoQuorum else decide_majority vs)"

definition parse_consensus_type :: "string \<Rightarrow> consensus_type result" where
  "parse_consensus_type x =
     (if x = ''majority'' then Inr CT_MAJORITY
      else if x = ''weighted'' then Inr CT_WEIGHTED
      else if x = ''confidence'' then Inr CT_CONFIDENCE
      else if x = ''leader'' then Inr CT_LEADER
      else if x = ''quorum'' then Inr CT_QUORUM
      else Inl (ValueError x))"

definition consensus_type_value :: "consensus_type \<Rightarrow> string" where
  "consensus_type_value t =
     (case t of CT_MAJORITY \<Rightarrow> ''majority'' | CT_WEIGHTED \<Rightarrow> ''weighted'' | CT_CONFIDENCE \<Rightarrow> ''confidence''
      | CT_LEADER \<Rightarrow> ''leader'' | CT_QUORUM \<Rightarrow> ''quorum'')"

definition decide :: "consensus_manager \<Rightarrow> consensus_type \<Rightarrow> consensus_vote list \<Rightarrow> decision" where
  "decide m t vs =
     (if t = CT_LEADER then decide_leader (m_leader_id m) vs
      else if \<not> int (length vs) \<ge> m_quorum_size m then NoQuorum
      else case t of
             CT_MAJORITY \<Rightarrow> decide_majority vs
           | CT_WEIGHTED \<Rightarrow> decide_weighted vs
           | CT_CONFIDENCE \<Rightarrow> decide_confidence vs
           | CT_QUORUM \<Rightarrow> decide_quorum (m_quorum_size m) vs
           | CT_LEADER \<Rightarrow> Rejected)"

definition make_result ::
  "string \<Rightarrow> string \<Rightarrow> string \<Rightarrow> consensus_type \<Rightarrow> consensus_vote list \<Rightarrow> consensus_manager \<Rightarrow> consensus_result" where
  "make_result fresh now proposal t vs m =
     \<lparr>r_id = fresh, r_proposal = proposal, r_type = t, r_votes = vs, r_decision = decide m t vs,
      r_confidence = (if vs = [] then 0 else sum_list (map v_confidence vs) / of_nat (length vs)),
      r_agreement = (if vs = [] then 0 else of_nat (count_votes ''yes'' vs) / of_nat (length vs)),
      r_leader_id = m_leader_id m, r_quorum_size = m_quorum_size m,
      r_quorum_met = (int (length vs) \<ge> m_quorum_size m), r_created_at = now\<rparr>"

definition run_consensus ::
  "string \<Rightarrow> string \<Rightarrow> string \<Rightarrow> consensus_vote list option \<Rightarrow> string \<Rightarrow> consensus_manager \<Rightarrow>
   (consensus_manager \<times> consensus_result) result" where
  "run_consensus fresh now proposal votes ctype m =
     (case parse_consensus_type ctype of
        Inl err \<Rightarrow> Inl err
      | Inr t \<Rightarrow>
          (let vs = (case votes of None \<Rightarrow> [] | Some vs \<Rightarrow> vs);
               result = make_result fresh now proposal t vs m;
               h = m_history m @ [result];
               h = (if length h > 200 then last_n 200 h else h)
           in Inr (m\<lparr>m_history := h\<rparr>, result)))"

subsection \<open>Queries\<close>

text \<open>The slice \<open>xs[-limit:]\<close> for any integer \<open>limit\<close>.\<close>

definition slice_last :: "int \<Rightarrow> 'a list \<Rightarrow> 'a list" where
  "slice_last limit xs = drop (clip_index (length xs) (- limit)) xs"

definition list_history :: "int \<Rightarrow> consensus_manager \<Rightarrow> consensus_result list" where
  "list_history limit m = slice_last limit (m_history m)"

definition get_consensus :: "string \<Rightarrow> consensus_manager \<Rightarrow> consensus_result option" where
  "get_consensus i m = find (\<lambda>r. r_id r = i) (m_history m)"

record consensus_stats =
  cs_total :: nat
  cs_by_decision :: "(decision, int) dict"
  cs_by_type :: "(consensus_type, int) dict"
  cs_quorum_size :: int
  cs_leader :: string

definition count_key :: "'k \<Rightarrow> ('k, int) dict \<Rightarrow> ('k, int) dict" where
  "count_key k d = dict_set d k (dict_get_or d k 0 + 1)"

definition stats :: "consensus_manager \<Rightarrow> consensus_stats" where
  "stats m =
     \<lparr>cs_total = length (m_history m),
      cs_by_decision = fold (\<lambda>r. count_key (r_decision r)) (m_history m)
        [(Accepted, 0), (Rejected, 0), (NoQuorum, 0)],
      cs_by_type = fold (\<lambda>r. count_key (r_type r)) (m_history m)
        [(CT_MAJORITY, 0), (CT_WEIGHTED, 0), (CT_CONFIDENCE, 0), (CT_LEADER, 0), (CT_QUORUM, 0)],
      cs_quorum_size = m_quorum_size m, cs_leader = m_leader_id m\<rparr>"

subsection \<open>Votes as multisets\<close>

lemma count_votes_perm: "mset vs = mset ws \<Longrightarrow> count_votes x vs = count_votes x ws"
  unfolding count_votes_def by (metis mset_filter size_mset)

lemma sum_list_perm: "mset vs = mset ws \<Longrightarrow> sum_list (map f vs) = (sum_list (map f ws) :: real)"
  by (metis mset_map sum_mset_sum_list)

lemma filter_perm: "mset vs = mset ws \<Longrightarrow> mset (filter P vs) = mset (filter P ws)"
  by simp

lemma find_unique:
  "distinct (map f xs) \<Longrightarrow> find (\<lambda>x. f x = k) xs = Some x \<longleftrightarrow> x \<in> set xs \<and> f x = k"
  by (induction xs) auto

lemma find_perm:
  assumes "mset xs = mset ys" "distinct (map f xs)"
  shows "find (\<lambda>x. f x = k) xs = find (\<lambda>x. f x = k) ys"
proof -
  have "distinct (map f ys)" using assms by (metis mset_map mset_eq_imp_distinct_iff)
  then have "find (\<lambda>x. f x = k) xs = Some x \<longleftrightarrow> find (\<lambda>x. f x = k) ys = Some x" for x
    using find_unique [OF assms(2)] find_unique [of f ys k x] mset_eq_setD [OF assms(1)] by simp
  then show ?thesis by (metis option.exhaust)
qed

lemma decide_perm:
  assumes "mset vs = mset ws" "distinct (map v_node_id vs)"
  shows "decide m t vs = decide m t ws"
proof -
  have len: "length vs = length ws" using assms(1) by (rule mset_eq_length)
  have f: "mset (filter (\<lambda>v. v_vote v = ''yes'') vs) = mset (filter (\<lambda>v. v_vote v = ''yes'') ws)"
    using assms(1) by (rule filter_perm)
  have maj: "decide_majority vs = decide_majority ws"
    unfolding decide_majority_def using count_votes_perm [OF assms(1)] by presburger
  have "decide_weighted vs = decide_weighted ws"
    unfolding decide_weighted_def using sum_list_perm [OF assms(1)] sum_list_perm [OF f] by presburger
  moreover have "decide_confidence vs = decide_confidence ws"
  proof -
    have "vs = [] \<longleftrightarrow> ws = []"
      "filter (\<lambda>v. v_vote v = ''yes'') vs = [] \<longleftrightarrow> filter (\<lambda>v. v_vote v = ''yes'') ws = []"
      using assms(1) f by (metis mset_zero_iff)+
    then show ?thesis
      unfolding decide_confidence_def Let_def map_is_Nil_conv length_map mset_eq_length [OF f]
        sum_list_perm [OF f] by presburger
  qed
  moreover have "decide_leader (m_leader_id m) vs = decide_leader (m_leader_id m) ws"
    unfolding decide_leader_def find_perm [OF assms] ..
  ultimately show ?thesis unfolding decide_def decide_quorum_def maj len by (cases t) simp_all
qed

subsection \<open>The machine of rounds\<close>

inductive cm_step :: "consensus_manager \<Rightarrow> consensus_manager \<Rightarrow> bool" where
  cm_quorum: "cm_step m (set_quorum_size n m)"
| cm_leader: "cm_step m (set_leader l m)"
| cm_run: "run_consensus fresh now p vs t m = Inr (m', r) \<Longrightarrow> cm_step m m'"

lemma count_votes_le: "count_votes x vs \<le> length vs"
  by (simp add: count_votes_def)

lemma decide_accepted_votes: "decide m t vs = Accepted \<Longrightarrow> vs \<noteq> []"
  by (auto simp: decide_def decide_majority_def decide_weighted_def decide_confidence_def decide_leader_def
      decide_quorum_def count_votes_def Let_def split: if_splits consensus_type.splits option.splits)

lemma decide_no_quorum: "decide m t vs = NoQuorum \<Longrightarrow> t \<noteq> CT_LEADER \<and> int (length vs) < m_quorum_size m"
  by (auto simp: decide_def decide_majority_def decide_weighted_def decide_confidence_def decide_leader_def
      decide_quorum_def Let_def split: if_splits consensus_type.splits option.splits)

definition result_ok :: "consensus_result \<Rightarrow> bool" where
  "result_ok r \<longleftrightarrow>
     r_quorum_met r = (int (length (r_votes r)) \<ge> r_quorum_size r) \<and>
     (r_decision r = Accepted \<longrightarrow> r_votes r \<noteq> []) \<and>
     (r_decision r = NoQuorum \<longrightarrow> \<not> r_quorum_met r \<and> r_type r \<noteq> CT_LEADER) \<and>
     0 \<le> r_agreement r \<and> r_agreement r \<le> 1"

lemma make_result_ok: "result_ok (make_result fresh now p t vs m)"
proof -
  have "of_nat (count_votes ''yes'' vs) / of_nat (length vs) \<le> (1::real)"
    using count_votes_le [of "''yes''" vs] by (cases "vs = []") (simp_all add: divide_le_eq_1)
  then show ?thesis
    using decide_accepted_votes [of m t vs] decide_no_quorum [of m t vs]
    by (auto simp: result_ok_def make_result_def)
qed

lemma run_consensus_cases:
  assumes "run_consensus fresh now p vs t m = Inr (m', r)"
  shows "result_ok r" "m_history m' = last_n 200 (m_history m @ [r])"
    "m_quorum_size m' = m_quorum_size m" "m_leader_id m' = m_leader_id m"
proof -
  obtain t' vs' where r: "r = make_result fresh now p t' vs' m"
    using assms by (auto simp: run_consensus_def Let_def split: sum.splits)
  show "result_ok r" unfolding r by (rule make_result_ok)
  show "m_history m' = last_n 200 (m_history m @ [r])"
    using assms by (auto simp: run_consensus_def Let_def last_n_def split: sum.splits)
  show "m_quorum_size m' = m_quorum_size m" "m_leader_id m' = m_leader_id m"
    using assms by (auto simp: run_consensus_def Let_def split: sum.splits)
qed

lemma set_last_n: "set (last_n n xs) \<subseteq> set xs"
  by (simp add: last_n_def set_drop_subset)

interpretation cm_machine: invariant_machine "\<lambda>m. \<exists>n l. m = cm_init n l" cm_step
  "\<lambda>m. 1 \<le> m_quorum_size m \<and> length (m_history m) \<le> 200 \<and> list_all result_ok (m_history m)"
proof unfold_locales
  fix m assume "\<exists>n l. m = cm_init n l"
  then show "1 \<le> m_quorum_size m \<and> length (m_history m) \<le> 200 \<and> list_all result_ok (m_history m)"
    by (auto simp: cm_init_def)
next
  fix m m' assume inv: "1 \<le> m_quorum_size m \<and> length (m_history m) \<le> 200 \<and> list_all result_ok (m_history m)"
    and "cm_step m m'"
  from this(2) show "1 \<le> m_quorum_size m' \<and> length (m_history m') \<le> 200 \<and> list_all result_ok (m_history m')"
  proof (cases rule: cm_step.cases)
    case (cm_run fresh now p vs t r)
    note r = run_consensus_cases [OF cm_run]
    have "list_all result_ok (m_history m @ [r])" using inv r(1) by simp
    then have "list_all result_ok (last_n 200 (m_history m @ [r]))"
      using set_last_n [of 200 "m_history m @ [r]"] unfolding list_all_iff by blast
    then show ?thesis using inv r by (simp add: length_last_n)
  qed (use inv in \<open>auto simp: set_quorum_size_def set_leader_def\<close>)
qed

subsection \<open>Properties\<close>

text \<open>
  What a round promises, over the multiset of its votes: the leader's own yes, more yes than no
  votes, more weight on the yes side than on all others, or a yes side that is confident enough.
\<close>

definition voting :: "string \<Rightarrow> consensus_vote multiset \<Rightarrow> consensus_vote multiset" where
  "voting x V = {#v \<in># V. v_vote v = x#}"

definition weight_of :: "consensus_vote multiset \<Rightarrow> real" where
  "weight_of V = (\<Sum>v\<in>#V. v_weight v)"

lemma size_voting: "size (voting x (mset vs)) = count_votes x vs"
  unfolding voting_def count_votes_def by (metis mset_filter size_mset)

lemma weight_of_add: "weight_of (A + B) = weight_of A + weight_of B"
  by (simp add: weight_of_def)

lemma weight_of_nonneg: "\<forall>v\<in>#V. 0 \<le> v_weight v \<Longrightarrow> 0 \<le> weight_of V"
  by (induction V) (auto simp: weight_of_def)

lemma weight_split: "weight_of V = weight_of (voting ''yes'' V) + weight_of (V - voting ''yes'' V)"
proof -
  have "voting ''yes'' V + (V - voting ''yes'' V) = V" by (simp add: voting_def)
  then show ?thesis using weight_of_add [of "voting ''yes'' V" "V - voting ''yes'' V"] by simp
qed

lemma majority_accepts:
  "decide_majority vs = Accepted \<longleftrightarrow> size (voting ''no'' (mset vs)) < size (voting ''yes'' (mset vs))"
  by (simp add: decide_majority_def size_voting)

lemma weighted_accepts:
  "decide_weighted vs = Accepted \<longleftrightarrow>
     (let yes = weight_of (voting ''yes'' (mset vs)); rest = weight_of (mset vs - voting ''yes'' (mset vs))
      in 0 < yes + rest \<and> rest < yes \<or> yes + rest < 0 \<and> yes < rest)"
proof -
  have w: "sum_list (map v_weight xs) = weight_of (mset xs)" for xs
    by (induction xs) (simp_all add: weight_of_def)
  have y: "mset (filter (\<lambda>v. v_vote v = ''yes'') vs) = voting ''yes'' (mset vs)" by (simp add: voting_def)
  have half: "1 / 2 < y / (y + z) \<longleftrightarrow> 0 < y + z \<and> z < y \<or> y + z < 0 \<and> y < z" if "y + z \<noteq> 0" for y z :: real
  proof (cases "0 < y + z")
    case True
    then have "1 / 2 < y / (y + z) \<longleftrightarrow> 1 / 2 * (y + z) < y" by (rule pos_less_divide_eq)
    then show ?thesis using True by (auto simp: algebra_simps)
  next
    case False
    then have neg: "y + z < 0" using that by linarith
    then have "1 / 2 < y / (y + z) \<longleftrightarrow> y < 1 / 2 * (y + z)" by (rule neg_less_divide_eq)
    then show ?thesis using neg by (auto simp: algebra_simps)
  qed
  show ?thesis unfolding decide_weighted_def w y weight_split [of "mset vs"] Let_def using half by (simp split: if_splits)
qed

lemma confidence_accepts:
  "decide_confidence vs = Accepted \<longleftrightarrow>
     voting ''yes'' (mset vs) \<noteq> {#} \<and> 0 \<le> (\<Sum>v\<in>#voting ''yes'' (mset vs). v_confidence v - 6 / 10)"
proof -
  let ?ys = "filter (\<lambda>v. v_vote v = ''yes'') vs"
  have y: "voting ''yes'' (mset vs) = mset ?ys" by (simp add: voting_def)
  have "(\<Sum>v\<in>#mset ys. v_confidence v - 6 / 10) = sum_list (map v_confidence ys) - 6 / 10 * length ys" for ys
    by (induction ys) (simp_all add: field_simps)
  note sum = this [of ?ys]
  show ?thesis
  proof (cases "?ys = []")
    case True
    then show ?thesis unfolding decide_confidence_def y Let_def by simp
  next
    case False
    then have "vs \<noteq> []" and "0 < real (length ?ys)" by auto
    from this(2) have "6 / 10 \<le> sum_list (map v_confidence ?ys) / real (length ?ys) \<longleftrightarrow>
        6 / 10 * real (length ?ys) \<le> sum_list (map v_confidence ?ys)" by (rule pos_le_divide_eq)
    then show ?thesis using False \<open>vs \<noteq> []\<close> unfolding decide_confidence_def y Let_def sum
      by (simp del: mset_filter)
  qed
qed

lemma leader_accepts:
  assumes "distinct (map v_node_id vs)"
  shows "decide_leader l vs = Accepted \<longleftrightarrow> l \<noteq> [] \<and> (\<exists>v\<in>#voting ''yes'' (mset vs). v_node_id v = l)"
proof -
  have "find (\<lambda>v. v_node_id v = l) vs = Some v \<longleftrightarrow> v \<in> set vs \<and> v_node_id v = l" for v
    by (rule find_unique [OF assms])
  moreover have "find (\<lambda>v. v_node_id v = l) vs = None \<longleftrightarrow> (\<forall>v\<in>set vs. v_node_id v \<noteq> l)"
    by (auto simp: find_None_iff)
  ultimately show ?thesis unfolding decide_leader_def voting_def
    by (cases "find (\<lambda>v. v_node_id v = l) vs") (simp; metis option.sel)+
qed

definition approves :: "consensus_manager \<Rightarrow> consensus_type \<Rightarrow> consensus_vote multiset \<Rightarrow> bool" where
  "approves m t V =
     (let Y = voting ''yes'' V in
      case t of
        CT_LEADER \<Rightarrow> m_leader_id m \<noteq> [] \<and> (\<exists>v\<in>#Y. v_node_id v = m_leader_id m)
      | CT_WEIGHTED \<Rightarrow>
          0 < weight_of V \<and> weight_of (V - Y) < weight_of Y \<or> weight_of V < 0 \<and> weight_of Y < weight_of (V - Y)
      | CT_CONFIDENCE \<Rightarrow> Y \<noteq> {#} \<and> 0 \<le> (\<Sum>v\<in>#Y. v_confidence v - 6 / 10)
      | _ \<Rightarrow> size (voting ''no'' V) < size Y)"

lemma decide_accepts:
  assumes "distinct (map v_node_id vs)"
  shows "decide m t vs = Accepted \<longleftrightarrow>
    (t = CT_LEADER \<or> m_quorum_size m \<le> int (length vs)) \<and> approves m t (mset vs)"
  using leader_accepts [OF assms] weight_split [of "mset vs"]
  by (cases t) (simp_all add: decide_def approves_def decide_quorum_def majority_accepts weighted_accepts
      confidence_accepts Let_def)

lemma decide_lacks_quorum:
  "decide m t vs = NoQuorum \<longleftrightarrow> t \<noteq> CT_LEADER \<and> int (length vs) < m_quorum_size m"
  using decide_no_quorum [of m t vs] by (auto simp: decide_def)

lemma approves_turned:
  assumes "approves m t (add_mset v V)" and "t \<noteq> CT_CONFIDENCE" and "\<forall>u\<in>#add_mset v V. 0 \<le> v_weight u"
  shows "approves m t (add_mset (v\<lparr>v_vote := ''yes''\<rparr>) V)"
proof (cases "v_vote v = ''yes''")
  case False
  let ?v = "v\<lparr>v_vote := ''yes''\<rparr>" and ?Y = "voting ''yes'' V"
  have new: "voting ''yes'' (add_mset ?v V) = add_mset ?v ?Y" "voting ''no'' (add_mset ?v V) = voting ''no'' V"
    "voting ''yes'' (add_mset v V) = ?Y" "add_mset ?v V - add_mset ?v ?Y = V - ?Y"
    using False by (simp_all add: voting_def)
  have rest: "add_mset v V - ?Y = add_mset v (V - ?Y)" using False by (simp add: voting_def)
  have no: "size (voting ''no'' V) \<le> size (voting ''no'' (add_mset v V))" by (simp add: voting_def)
  have pos: "0 \<le> v_weight v" "0 \<le> weight_of V"
    using assms(3) weight_of_nonneg [of V] by simp_all
  have w: "weight_of (add_mset u U) = v_weight u + weight_of U" for u U by (simp add: weight_of_def)
  show ?thesis using assms(1,2) pos no unfolding approves_def Let_def new rest w
    by (cases t) auto
next
  case True
  then have "v\<lparr>v_vote := ''yes''\<rparr> = v" by (cases v) simp
  then show ?thesis using assms(1) by simp
qed

lemma hesitant_yes_loses:
  "decide (cm_init 1 l) CT_CONFIDENCE [sure, unsure\<lparr>v_vote := ''no''\<rparr>] = Accepted \<and>
   decide (cm_init 1 l) CT_CONFIDENCE [sure, unsure\<lparr>v_vote := ''yes''\<rparr>] = Rejected"
  if "v_vote sure = ''yes''" "v_confidence sure = 7 / 10" "v_confidence unsure = 1 / 10"
  using that by (simp add: decide_def decide_confidence_def cm_init_def)

text \<open>C10: A round of votes in which every node votes at most once is decided as follows, for each of
  the five types. The leader type accepts exactly when a leader is set and voted yes. The others
  report no quorum exactly when there are fewer votes than the quorum, and then accept exactly
  when yes votes outnumber no votes (majority, quorum), when the total weight is not zero and the yes
  votes weigh more than all others together (weighted; the comparison is reversed for a negative
  total), or when somebody voted yes and the confidences of the yes votes exceed six tenths on
  balance (confidence). So the order in which votes were collected does not matter, and with
  non-negative weights turning one vote to yes never loses an accepted proposal, except for the
  confidence type, where one hesitant yes more can lose it.\<close>

theorem consensus_outcome:
  assumes "distinct (map v_node_id vs)" and "run_consensus fresh now p (Some vs) ctype m = Inr (m', r)"
  shows "consensus_type_value (r_type r) = ctype \<and>
    (r_decision r = NoQuorum \<longleftrightarrow> r_type r \<noteq> CT_LEADER \<and> int (length vs) < m_quorum_size m) \<and>
    (r_decision r = Accepted \<longleftrightarrow>
       (r_type r = CT_LEADER \<or> m_quorum_size m \<le> int (length vs)) \<and> approves m (r_type r) (mset vs)) \<and>
    (mset ws = mset vs \<longrightarrow>
       (\<exists>n q. run_consensus fresh now p (Some ws) ctype m = Inr (n, q) \<and> r_decision q = r_decision r \<and>
          r_agreement q = r_agreement r \<and> r_confidence q = r_confidence r)) \<and>
    (r_decision r = Accepted \<and> r_type r \<noteq> CT_CONFIDENCE \<and> (\<forall>v\<in>set vs. 0 \<le> v_weight v) \<and> vs = us @ v # xs \<longrightarrow>
       (\<exists>n q. run_consensus fresh now p (Some (us @ v\<lparr>v_vote := ''yes''\<rparr> # xs)) ctype m = Inr (n, q) \<and>
          r_decision q = Accepted))"
proof -
  obtain t where t: "parse_consensus_type ctype = Inr t" and r: "r = make_result fresh now p t vs m"
    using assms(2) by (auto simp: run_consensus_def Let_def split: sum.splits)
  have run: "\<exists>n. run_consensus fresh now p (Some ys) ctype m = Inr (n, make_result fresh now p t ys m)" for ys
    by (simp add: run_consensus_def t Let_def)
  have dec: "r_decision (make_result fresh now p t ys m) = decide m t ys" "r_type (make_result fresh now p t ys m) = t" for ys
    by (simp_all add: make_result_def)
  have out: "r_decision r = decide m t vs" "r_type r = t" by (simp_all add: r dec)
  have "consensus_type_value t = ctype"
    using t by (auto simp: parse_consensus_type_def consensus_type_value_def split: if_splits)
  moreover have "\<exists>n q. run_consensus fresh now p (Some ws) ctype m = Inr (n, q) \<and> r_decision q = decide m t vs \<and>
      r_agreement q = r_agreement r \<and> r_confidence q = r_confidence r"
    if ws: "mset ws = mset vs"
  proof -
    have "decide m t ws = decide m t vs" using decide_perm [OF ws [symmetric] assms(1)] by simp
    moreover have "ws = [] \<longleftrightarrow> vs = []" using ws by (metis mset_zero_iff)
    ultimately show ?thesis using run [of ws] ws
      by (auto simp: r make_result_def count_votes_perm [OF ws] sum_list_perm [OF ws] mset_eq_length [OF ws])
  qed
  moreover have "\<exists>n q. run_consensus fresh now p (Some (us @ v\<lparr>v_vote := ''yes''\<rparr> # xs)) ctype m = Inr (n, q) \<and>
      r_decision q = Accepted"
    if a: "decide m t vs = Accepted" "t \<noteq> CT_CONFIDENCE" "\<forall>v\<in>set vs. 0 \<le> v_weight v" and vs: "vs = us @ v # xs"
  proof -
    let ?ys = "us @ v\<lparr>v_vote := ''yes''\<rparr> # xs"
    have "distinct (map v_node_id ?ys)" using assms(1) by (simp add: vs)
    moreover have "approves m t (mset ?ys)"
      using approves_turned [of m t v "mset us + mset xs"] a decide_accepts [OF assms(1), of m t] by (simp add: vs)
    ultimately have "decide m t ?ys = Accepted"
      using decide_accepts [of ?ys m t] decide_accepts [OF assms(1), of m t] a(1) by (simp add: vs)
    then show ?thesis using run [of ?ys] dec by auto
  qed
  ultimately show ?thesis
    unfolding out using decide_accepts [OF assms(1), of m t] decide_lacks_quorum [of m t vs] by blast
qed

text \<open>In every reachable state the quorum is at least one, the history holds at most 200
  rounds, and every recorded round is coherent: an accepted proposal had votes, a round reported
  without quorum really lacked it, and the agreement is a fraction. A new round is the last entry
  of the history.\<close>

theorem consensus_history_coherent:
  assumes "reach (\<lambda>m. \<exists>n l. m = cm_init n l) cm_step m"
    and "run_consensus fresh now p vs t m = Inr (m', r)"
  shows "1 \<le> m_quorum_size m \<and> length (m_history m') \<le> 200 \<and> list_all result_ok (m_history m') \<and>
         last (m_history m') = r"
proof -
  have "reach (\<lambda>m. \<exists>n l. m = cm_init n l) cm_step m'" using assms(1) cm_run [OF assms(2)] by (rule reach_step)
  from cm_machine.reach_inv [OF assms(1)] cm_machine.reach_inv [OF this] show ?thesis
    using run_consensus_cases(2) [OF assms(2)] by (simp add: last_n_def)
qed

text \<open>The quorum strategy decides exactly like the majority strategy, and the majority strategy
  compares the yes votes with the no votes only: one yes and nine abstentions are accepted,
  although the documentation asks for more than half of the votes.\<close>

theorem majority_ignores_abstentions:
  "decide m CT_QUORUM vs = decide m CT_MAJORITY vs \<and>
   decide (cm_init 10 l) CT_MAJORITY
     (\<lparr>v_node_id = ''n'', v_vote = ''yes'', v_weight = 1, v_confidence = 1, v_rationale = [], v_timestamp = []\<rparr> #
      replicate 9 \<lparr>v_node_id = ''a'', v_vote = ''abstain'', v_weight = 1, v_confidence = 1, v_rationale = [],
                   v_timestamp = []\<rparr>) = Accepted"
  by (simp add: decide_def decide_quorum_def decide_majority_def count_votes_def cm_init_def numeral_eq_Suc)

subsection \<open>Witnesses\<close>

definition demo_vote :: "string \<Rightarrow> string \<Rightarrow> consensus_vote" where
  "demo_vote i x = \<lparr>v_node_id = i, v_vote = x, v_weight = 1, v_confidence = 1, v_rationale = [], v_timestamp = []\<rparr>"

theorem consensus_outcome_witness:
  "\<exists>n q. run_consensus ''i'' ''t'' ''p''
      (Some [demo_vote ''a'' ''yes'', demo_vote ''b'' ''yes'', demo_vote ''c'' ''no'']) ''weighted'' (cm_init 2 ''a'') = Inr (n, q) \<and>
    r_decision q = Accepted"
proof -
  let ?vs = "[demo_vote ''c'' ''no'', demo_vote ''a'' ''yes'', demo_vote ''b'' ''yes'']"
  let ?ws = "[demo_vote ''a'' ''yes'', demo_vote ''b'' ''yes'', demo_vote ''c'' ''no'']"
  obtain m r where r: "run_consensus ''i'' ''t'' ''p'' (Some ?vs) ''weighted'' (cm_init 2 ''a'') = Inr (m, r)"
      and t: "r_type r = CT_WEIGHTED"
    by (simp add: run_consensus_def parse_consensus_type_def make_result_def Let_def)
  have "distinct (map v_node_id ?vs)" and "mset ?ws = mset ?vs" by (simp_all add: demo_vote_def)
  moreover have "approves (cm_init 2 ''a'') CT_WEIGHTED (mset ?vs)"
    by (simp add: approves_def Let_def voting_def weight_of_def demo_vote_def)
  moreover have "m_quorum_size (cm_init 2 ''a'') \<le> int (length ?vs)" by (simp add: cm_init_def)
  moreover note out = consensus_outcome [OF \<open>distinct (map v_node_id ?vs)\<close> r, of ?ws]
  have "r_decision r = Accepted \<longleftrightarrow>
      (r_type r = CT_LEADER \<or> m_quorum_size (cm_init 2 ''a'') \<le> int (length ?vs)) \<and>
      approves (cm_init 2 ''a'') (r_type r) (mset ?vs)"
    using out by blast
  ultimately have "r_decision r = Accepted" using t by simp
  then show ?thesis using out \<open>mset ?ws = mset ?vs\<close> by metis
qed

theorem consensus_history_coherent_witness:
  "\<exists>m' r. run_consensus ''i'' ''t'' ''p'' None ''majority'' (cm_init 1 []) = Inr (m', r) \<and> last (m_history m') = r"
proof -
  have "reach (\<lambda>m. \<exists>n l. m = cm_init n l) cm_step (cm_init 1 [])" by (rule reach_init) blast
  moreover obtain m' r where r: "run_consensus ''i'' ''t'' ''p'' None ''majority'' (cm_init 1 []) = Inr (m', r)"
    by (simp add: run_consensus_def parse_consensus_type_def Let_def)
  ultimately have "last (m_history m') = r" using consensus_history_coherent by blast
  with r show ?thesis by blast
qed

end
