(* ===== verification/Security.thy ===== *)
theory Security
  imports Prelude "HOL-Library.Sublist"
begin

text \<open>
  The security framework (\<open>core/security/rbac.py\<close>, \<open>tool_perms.py\<close>, \<open>approval.py\<close>,
  \<open>framework.py\<close> with \<open>domain/security.py\<close>): role-based access control, tool permissions, the
  approval gate, the audit log, workspace isolation and the facade that runs them in sequence. The
  state is that of the default components. Identifiers and times of audit entries are arguments;
  \<open>locate\<close> stands for \<open>str((base / safe_id).resolve())\<close>, which depends on the file system.
\<close>

subsection \<open>Data\<close>

datatype role = ADMIN | OPERATOR | AGENT | AUDITOR | GUEST

text \<open>Two principals are the same dictionary key when identifier and declared roles agree: the
  class defines only the hash, equality is that of the data model.\<close>

record principal =
  pr_id :: string
  pr_roles :: "role list"

record tool_request =
  tr_id :: string
  tr_principal :: principal
  tr_capability :: string
  tr_workspace :: string
  tr_detail :: string
  tr_requires_approval :: bool
  tr_created_at :: real

text \<open>The texts of the reasons that the code compares or reports, kept apart by constructor.\<close>

datatype sec_reason =
    UnknownCapability string
  | LacksPermission string
  | PendingApproval
  | RbacAllow
  | HumanDecision

record sec_decision =
  de_allowed :: bool
  de_reason :: sec_reason
  de_approved_by :: string

datatype audit_meta = MetaDetail string | MetaBy string | MetaReason sec_reason

record audit_entry =
  au_id :: string
  au_timestamp :: real
  au_principal :: string
  au_action :: string
  au_target :: string
  au_outcome :: string
  au_meta :: audit_meta

subsection \<open>Access control\<close>

definition PERMISSIONS :: "string set" where
  "PERMISSIONS =
     {''tool.terminal'', ''tool.git'', ''tool.docker'', ''tool.filesystem'', ''tool.browser'', ''memory.read'',
      ''memory.write'', ''provider.manage'', ''agent.compose'', ''security.audit'', ''mcp.server.create'',
      ''mcp.server.read'', ''mcp.server.update'', ''mcp.server.delete'', ''mcp.server.start'',
      ''mcp.server.stop'', ''mcp.server.restart'', ''mcp.server.reload'', ''mcp.tool.invoke'',
      ''mcp.tool.discover'', ''mcp.tool.read'', ''mcp.resource.read'', ''mcp.resource.subscribe'',
      ''mcp.prompt.get'', ''mcp.prompt.list'', ''mcp.session.manage'', ''mcp.session.read'',
      ''mcp.permissions.manage'', ''mcp.permissions.read'', ''mcp.health.read'', ''mcp.config.read'',
      ''mcp.config.update'', ''mcp.telemetry.read'', ''mcp.audit.read''}"

primrec default_grants :: "role \<Rightarrow> string set" where
  "default_grants ADMIN = PERMISSIONS"
| "default_grants OPERATOR =
     {''provider.manage'', ''agent.compose'', ''memory.read'', ''memory.write'', ''tool.browser'',
      ''tool.terminal'', ''tool.docker'', ''security.audit''}"
| "default_grants AGENT = {''memory.read'', ''memory.write'', ''tool.browser'', ''agent.compose''}"
| "default_grants AUDITOR = {''security.audit''}"
| "default_grants GUEST = {}"

record access_control =
  ac_roles :: "(principal, role set) dict"
  ac_grants :: "role \<Rightarrow> string set"

definition ac_init :: access_control where
  "ac_init = \<lparr>ac_roles = [], ac_grants = default_grants\<rparr>"

definition ac_assign :: "principal \<Rightarrow> role \<Rightarrow> access_control \<Rightarrow> access_control" where
  "ac_assign p r a = a\<lparr>ac_roles := dict_set (ac_roles a) p (insert r (dict_get_or (ac_roles a) p {}))\<rparr>"

definition ac_grant :: "role \<Rightarrow> string \<Rightarrow> access_control \<Rightarrow> access_control" where
  "ac_grant r x a = a\<lparr>ac_grants := (ac_grants a)(r := insert x (ac_grants a r))\<rparr>"

definition ac_is_allowed :: "access_control \<Rightarrow> principal \<Rightarrow> string \<Rightarrow> bool" where
  "ac_is_allowed a p x \<longleftrightarrow> (\<exists>r \<in> dict_get_or (ac_roles a) p (set (pr_roles p)). x \<in> ac_grants a r)"

subsection \<open>Tool permissions\<close>

definition cap_to_perm :: "(string, string) dict" where
  "cap_to_perm =
     [(''terminal'', ''tool.terminal''), (''git'', ''tool.git''), (''docker'', ''tool.docker''),
      (''filesystem'', ''tool.filesystem''), (''browser'', ''tool.browser''), (''memory'', ''memory.write''),
      (''reasoning'', ''agent.compose''), (''planning'', ''agent.compose''), (''coding'', ''agent.compose''),
      (''research'', ''agent.compose''), (''vision'', ''agent.compose'')]"

definition decision_for :: "(principal \<Rightarrow> string \<Rightarrow> bool) \<Rightarrow> principal \<Rightarrow> tool_request \<Rightarrow> sec_decision" where
  "decision_for is_allowed p rq =
     (case dict_get cap_to_perm (tr_capability rq) of
        None \<Rightarrow> \<lparr>de_allowed = False, de_reason = UnknownCapability (tr_capability rq), de_approved_by = []\<rparr>
      | Some perm \<Rightarrow>
          if \<not> is_allowed p perm
          then \<lparr>de_allowed = False, de_reason = LacksPermission perm, de_approved_by = []\<rparr>
          else if tr_requires_approval rq
          then \<lparr>de_allowed = False, de_reason = PendingApproval, de_approved_by = []\<rparr>
          else \<lparr>de_allowed = True, de_reason = RbacAllow, de_approved_by = []\<rparr>)"

subsection \<open>Audit log and approval gate\<close>

definition audit_record :: "audit_entry list \<Rightarrow> audit_entry \<Rightarrow> audit_entry list" where
  "audit_record es e = es @ [e]"

definition audit_query :: "string option \<Rightarrow> int \<Rightarrow> audit_entry list \<Rightarrow> audit_entry list" where
  "audit_query who limit es =
     (let rows = (if truthy who then filter (\<lambda>e. au_principal e = the who) es else es)
      in drop (clip_index (length rows) (- limit)) rows)"

datatype sec_event =
    SV_APPROVAL_REQUESTED tool_request
  | SV_APPROVAL_DECIDED string bool string
  | SV_TOOL_DENIED string string

record framework =
  fw_ac :: access_control
  fw_audit :: "audit_entry list"
  fw_pending :: "(string, tool_request) dict"
  fw_decisions :: "(string, sec_decision) dict"
  fw_cache :: "(string, string) dict"
  fw_published :: "sec_event list"

definition fw_init :: framework where
  "fw_init = \<lparr>fw_ac = ac_init, fw_audit = [], fw_pending = [], fw_decisions = [], fw_cache = [], fw_published = []\<rparr>"

definition fw_record :: "audit_entry \<Rightarrow> framework \<Rightarrow> framework" where
  "fw_record e s = s\<lparr>fw_audit := audit_record (fw_audit s) e\<rparr>"

definition fw_publish :: "sec_event \<Rightarrow> framework \<Rightarrow> framework" where
  "fw_publish ev s = s\<lparr>fw_published := fw_published s @ [ev]\<rparr>"

definition gate_request :: "string \<times> real \<Rightarrow> tool_request \<Rightarrow> framework \<Rightarrow> framework \<times> sec_decision" where
  "gate_request stamp rq s =
     (let s = s\<lparr>fw_pending := dict_set (fw_pending s) (tr_id rq) rq\<rparr>;
          s = fw_record \<lparr>au_id = fst stamp, au_timestamp = snd stamp, au_principal = pr_id (tr_principal rq),
                         au_action = ''approval.requested'', au_target = tr_capability rq,
                         au_outcome = ''pending'', au_meta = MetaDetail (tr_detail rq)\<rparr> s;
          s = fw_publish (SV_APPROVAL_REQUESTED rq) s
      in (s, \<lparr>de_allowed = False, de_reason = PendingApproval, de_approved_by = []\<rparr>))"

definition gate_decide :: "string \<times> real \<Rightarrow> string \<Rightarrow> bool \<Rightarrow> string \<Rightarrow> framework \<Rightarrow> framework" where
  "gate_decide stamp i approved who s =
     (let rq = dict_get (fw_pending s) i;
          s = s\<lparr>fw_pending := dict_del (fw_pending s) i,
                fw_decisions := dict_set (fw_decisions s) i
                  \<lparr>de_allowed = approved, de_reason = HumanDecision, de_approved_by = who\<rparr>\<rparr>;
          s = fw_record
                \<lparr>au_id = fst stamp, au_timestamp = snd stamp,
                 au_principal = (case rq of Some r \<Rightarrow> pr_id (tr_principal r) | None \<Rightarrow> i),
                 au_action = (if approved then ''approval.granted'' else ''approval.rejected''),
                 au_target = (case rq of Some r \<Rightarrow> tr_capability r | None \<Rightarrow> []),
                 au_outcome = (if approved then ''approved'' else ''rejected''), au_meta = MetaBy who\<rparr> s
      in fw_publish (SV_APPROVAL_DECIDED i approved who) s)"

definition gate_status :: "string \<Rightarrow> framework \<Rightarrow> sec_decision option" where
  "gate_status i s = dict_get (fw_decisions s) i"

subsection \<open>The facade\<close>

definition authorize ::
  "string \<times> real \<Rightarrow> string \<times> real \<Rightarrow> principal \<Rightarrow> tool_request \<Rightarrow> framework \<Rightarrow> framework \<times> sec_decision" where
  "authorize stamp1 stamp2 p rq s =
     (let d = decision_for (ac_is_allowed (fw_ac s)) p rq;
          (s, d) = (if de_reason d = PendingApproval then gate_request stamp1 rq s else (s, d));
          outcome = (if de_allowed d then ''allow''
                     else if de_reason d = PendingApproval then ''pending'' else ''deny'');
          s = fw_record
                \<lparr>au_id = fst stamp2, au_timestamp = snd stamp2, au_principal = pr_id p,
                 au_action = (if de_allowed d then ''tool.authorized'' else ''tool.denied''),
                 au_target = tr_capability rq, au_outcome = outcome, au_meta = MetaReason (de_reason d)\<rparr> s;
          s = (if \<not> de_allowed d \<and> outcome = ''deny''
               then fw_publish (SV_TOOL_DENIED (tr_capability rq) (pr_id p)) s else s)
      in (s, d))"

subsection \<open>Workspace isolation\<close>

text \<open>\<open>s.replace("..", "")\<close> and \<open>s.strip("/\\")\<close>.\<close>

fun drop_dots :: "string \<Rightarrow> string" where
  "drop_dots (x # y # xs) = (if x = CHR ''.'' \<and> y = CHR ''.'' then drop_dots xs else x # drop_dots (y # xs))"
| "drop_dots [x] = [x]"
| "drop_dots [] = []"

definition strip_slashes :: "string \<Rightarrow> string" where
  "strip_slashes s =
     (let sep = (\<lambda>c. c = CHR ''/'' \<or> c = CHR 0x5C) in rev (dropWhile sep (rev (dropWhile sep s))))"

definition safe_id :: "string \<Rightarrow> string" where
  "safe_id agent_id = strip_slashes (drop_dots agent_id)"

definition workspace_for ::
  "string \<Rightarrow> (string \<Rightarrow> string) \<Rightarrow> string \<Rightarrow> framework \<Rightarrow> (framework \<times> string) result" where
  "workspace_for base locate agent_id s =
     (case dict_get (fw_cache s) agent_id of
        Some w \<Rightarrow> Inr (s, w)
      | None \<Rightarrow>
          (let candidate = locate (safe_id agent_id) in
           if \<not> prefix base candidate then Inl (ValueError agent_id)
           else Inr (s\<lparr>fw_cache := dict_set (fw_cache s) agent_id candidate\<rparr>, candidate)))"

end
