(* ===== verification/Security_Laws.thy ===== *)
theory Security_Laws
  imports Security
begin

text \<open>
  What the security framework guarantees: the contracts of access control and of the audit log,
  when \<open>authorize\<close> allows, that decisions and pending approvals are always audited, how assigned and
  declared roles interact, and what the sanitising of agent identifiers achieves.
\<close>

subsection \<open>Contracts\<close>

text \<open>What the tool permissions rely on: more grants never take a permission away.\<close>

locale access_policy =
  fixes is_allowed :: "'a \<Rightarrow> principal \<Rightarrow> string \<Rightarrow> bool"
    and grant :: "role \<Rightarrow> string \<Rightarrow> 'a \<Rightarrow> 'a"
  assumes grant_mono: "is_allowed a p x \<Longrightarrow> is_allowed (grant r y a) p x"
begin

lemma decision_allowed_iff:
  "de_allowed (decision_for (is_allowed a) p rq) \<longleftrightarrow>
     (\<exists>perm. dict_get cap_to_perm (tr_capability rq) = Some perm \<and> is_allowed a p perm) \<and>
     \<not> tr_requires_approval rq"
  by (simp add: decision_for_def split: option.splits)

lemma decision_pending_iff:
  "de_reason (decision_for (is_allowed a) p rq) = PendingApproval \<longleftrightarrow>
     (\<exists>perm. dict_get cap_to_perm (tr_capability rq) = Some perm \<and> is_allowed a p perm) \<and>
     tr_requires_approval rq"
  by (simp add: decision_for_def split: option.splits)

lemma decision_mono:
  "de_allowed (decision_for (is_allowed a) p rq) \<Longrightarrow> de_allowed (decision_for (is_allowed (grant r y a)) p rq)"
  using grant_mono by (auto simp: decision_allowed_iff)

end

interpretation ac: access_policy ac_is_allowed ac_grant
proof unfold_locales
  show "ac_is_allowed (ac_grant r y a) p x" if "ac_is_allowed a p x" for a p x r y
    using that unfolding ac_is_allowed_def ac_grant_def by fastforce
qed

text \<open>A log that only grows at its end.\<close>

locale append_only =
  fixes record_entry :: "'l \<Rightarrow> 'e \<Rightarrow> 'l"
    and log_entries :: "'l \<Rightarrow> 'e list"
  assumes record_appends: "log_entries (record_entry l e) = log_entries l @ [e]"
begin

lemma record_many: "log_entries (foldl record_entry l es) = log_entries l @ es"
  by (induction es arbitrary: l) (simp_all add: record_appends)

lemma record_prefix: "prefix (log_entries l) (log_entries (foldl record_entry l es))"
  by (simp add: record_many)

end

interpretation audit: append_only audit_record "\<lambda>es. es"
  by unfold_locales (simp add: audit_record_def)

subsection \<open>The machine of all operations\<close>

inductive fw_step :: "framework \<Rightarrow> framework \<Rightarrow> bool" where
  fs_assign: "fw_step s (s\<lparr>fw_ac := ac_assign p r (fw_ac s)\<rparr>)"
| fs_grant: "fw_step s (s\<lparr>fw_ac := ac_grant r x (fw_ac s)\<rparr>)"
| fs_request: "fw_step s (fst (gate_request st rq s))"
| fs_decide: "fw_step s (gate_decide st i b who s)"
| fs_authorize: "fw_step s (fst (authorize st1 st2 p rq s))"
| fs_workspace: "workspace_for base locate i s = Inr (t, w) \<Longrightarrow> fw_step s t"

definition request_audited :: "audit_entry list \<Rightarrow> tool_request \<Rightarrow> bool" where
  "request_audited es rq \<longleftrightarrow>
     (\<exists>e \<in> set es. au_action e = ''approval.requested'' \<and> au_principal e = pr_id (tr_principal rq) \<and>
                   au_target e = tr_capability rq)"

definition decision_audited :: "audit_entry list \<Rightarrow> sec_decision \<Rightarrow> bool" where
  "decision_audited es d \<longleftrightarrow>
     de_reason d = HumanDecision \<and>
     (\<exists>e \<in> set es. au_action e = (if de_allowed d then ''approval.granted'' else ''approval.rejected'') \<and>
                   au_meta e = MetaBy (de_approved_by d))"

definition fw_ok :: "framework \<Rightarrow> bool" where
  "fw_ok s \<longleftrightarrow>
     (\<forall>i rq. dict_get (fw_pending s) i = Some rq \<longrightarrow> request_audited (fw_audit s) rq) \<and>
     (\<forall>i d. dict_get (fw_decisions s) i = Some d \<longrightarrow> decision_audited (fw_audit s) d)"

lemma audited_more [simp]:
  "request_audited (es @ fs) rq \<longleftrightarrow> request_audited es rq \<or> request_audited fs rq"
  "decision_audited (es @ fs) d \<longleftrightarrow> decision_audited es d \<or> decision_audited fs d"
  by (auto simp: request_audited_def decision_audited_def)

lemma gate_request_effect:
  "\<exists>e. fw_audit (fst (gate_request st rq s)) = fw_audit s @ [e] \<and> request_audited [e] rq \<and>
       fw_pending (fst (gate_request st rq s)) = dict_set (fw_pending s) (tr_id rq) rq \<and>
       fw_decisions (fst (gate_request st rq s)) = fw_decisions s"
  by (simp add: gate_request_def Let_def fw_record_def fw_publish_def audit_record_def request_audited_def)

lemma gate_decide_effect:
  "\<exists>e. fw_audit (gate_decide st i b who s) = fw_audit s @ [e] \<and>
       decision_audited [e] \<lparr>de_allowed = b, de_reason = HumanDecision, de_approved_by = who\<rparr> \<and>
       fw_pending (gate_decide st i b who s) = dict_del (fw_pending s) i \<and>
       fw_decisions (gate_decide st i b who s) =
         dict_set (fw_decisions s) i \<lparr>de_allowed = b, de_reason = HumanDecision, de_approved_by = who\<rparr>"
  by (simp add: gate_decide_def Let_def fw_record_def fw_publish_def audit_record_def decision_audited_def)

text \<open>\<open>authorize\<close> is the gate's request, when approval is pending, followed by its own record.\<close>

lemma authorize_effect:
  fixes s :: framework and p :: principal and rq :: tool_request and st1 st2 :: "string \<times> real"
  defines "d \<equiv> decision_for (ac_is_allowed (fw_ac s)) p rq"
  defines "s1 \<equiv> (if de_reason d = PendingApproval then fst (gate_request st1 rq s) else s)"
  shows "\<exists>e. fw_audit (fst (authorize st1 st2 p rq s)) = fw_audit s1 @ [e] \<and> au_principal e = pr_id p \<and>
       au_target e = tr_capability rq \<and>
       au_outcome e = (if de_allowed d then ''allow''
                       else if de_reason d = PendingApproval then ''pending'' else ''deny'') \<and>
       fw_pending (fst (authorize st1 st2 p rq s)) = fw_pending s1 \<and>
       fw_decisions (fst (authorize st1 st2 p rq s)) = fw_decisions s1 \<and>
       de_allowed (snd (authorize st1 st2 p rq s)) = de_allowed d"
proof -
  have g: "snd (gate_request st1 rq s) = \<lparr>de_allowed = False, de_reason = PendingApproval, de_approved_by = []\<rparr>"
    by (simp add: gate_request_def Let_def)
  have "\<not> de_allowed d" if "de_reason d = PendingApproval"
    using that by (auto simp: d_def decision_for_def split: option.splits if_splits)
  then show ?thesis
    unfolding authorize_def d_def [symmetric] s1_def
    by (simp add: Let_def case_prod_beta fw_record_def fw_publish_def audit_record_def g)
qed

lemma fw_ok_request: "fw_ok s \<Longrightarrow> fw_ok (fst (gate_request st rq s))"
  using gate_request_effect [of st rq s] by (auto simp: fw_ok_def split: if_splits)

lemma fw_ok_decide: "fw_ok s \<Longrightarrow> fw_ok (gate_decide st i b who s)"
  using gate_decide_effect [of st i b who s] by (auto simp: fw_ok_def split: if_splits)

lemma fw_ok_authorize: "fw_ok s \<Longrightarrow> fw_ok (fst (authorize st1 st2 p rq s))"
  using authorize_effect [where s = s and p = p and rq = rq and ?st1.0 = st1 and ?st2.0 = st2] fw_ok_request [of s st1 rq]
  by (auto simp: fw_ok_def split: if_splits)

interpretation fw_machine: invariant_machine "\<lambda>s. s = fw_init" fw_step fw_ok
proof unfold_locales
  show "fw_ok s" if "s = fw_init" for s using that by (simp add: fw_init_def fw_ok_def)
  show "fw_ok t" if "fw_ok s" "fw_step s t" for s t
    using that(2,1)
  proof (cases rule: fw_step.cases)
    case (fs_workspace base locate i w)
    then show ?thesis
      using that(1) by (auto simp: workspace_for_def Let_def fw_ok_def split: option.splits if_splits)
  qed (simp_all add: fw_ok_request fw_ok_decide fw_ok_authorize, simp_all add: fw_ok_def)
qed

lemma fw_step_audit: "fw_step s t \<Longrightarrow> prefix (fw_audit s) (fw_audit t)"
proof (induction rule: fw_step.induct)
  case (fs_request s st rq)
  then show ?case using gate_request_effect [of st rq s] by auto
next
  case (fs_decide s st i b who)
  then show ?case using gate_decide_effect [of st i b who s] by auto
next
  case (fs_authorize s st1 st2 p rq)
  then show ?case
    using authorize_effect [where s = s and p = p and rq = rq and ?st1.0 = st1 and ?st2.0 = st2] gate_request_effect [of st1 rq s] by (auto split: if_splits)
next
  case (fs_workspace base locate i s t w)
  then show ?case by (auto simp: workspace_for_def Let_def split: option.splits if_splits)
qed simp_all

subsection \<open>Sanitised identifiers\<close>

lemma hd_drop_dots: "drop_dots xs = CHR ''.'' # ys \<Longrightarrow> \<exists>zs. xs = CHR ''.'' # zs"
  by (induction xs rule: drop_dots.induct) (auto split: if_splits)

lemma drop_dots_no_dots: "\<not> sublist [CHR ''.'', CHR ''.''] (drop_dots xs)"
proof (induction xs rule: drop_dots.induct)
  case (1 x y xs)
  show ?case
  proof (cases "x = CHR ''.'' \<and> y = CHR ''.''")
    case True
    with 1 show ?thesis by simp
  next
    case False
    have "\<not> prefix [CHR ''.'', CHR ''.''] (x # drop_dots (y # xs))"
      using False hd_drop_dots [of "y # xs"] by (auto simp: prefix_def)
    with 1(2) False show ?thesis by (simp only: drop_dots.simps if_False sublist_Cons_right) simp
  qed
qed (simp_all add: sublist_Cons_right)

lemma sublist_strip: "sublist (strip_slashes s) s"
proof -
  let ?sep = "\<lambda>c. c = CHR ''/'' \<or> c = CHR 0x5C"
  have d: "suffix (dropWhile ?sep xs) xs" for xs by (rule suffix_dropWhile)
  have "prefix (rev (dropWhile ?sep (rev ys))) ys" for ys
    using d [of "rev ys"] by (simp add: suffix_to_prefix)
  then show ?thesis unfolding strip_slashes_def Let_def using d
    by (meson prefix_imp_sublist sublist_order.order_trans suffix_imp_sublist)
qed


lemma sublist_trans_dots: "sublist xs ys \<Longrightarrow> \<not> sublist ds ys \<Longrightarrow> \<not> sublist ds xs"
  by (meson sublist_order.order_trans)

lemma workspace_for_cached:
  "workspace_for base locate i s = Inr (t, w) \<Longrightarrow> dict_get (fw_cache t) i = Some w"
  by (auto simp: workspace_for_def Let_def split: option.splits if_splits)

lemma workspace_for_prefix:
  assumes "\<forall>j v. dict_get (fw_cache s) j = Some v \<longrightarrow> prefix base v" "workspace_for base locate i s = Inr (t, w)"
  shows "prefix base w" "\<forall>j v. dict_get (fw_cache t) j = Some v \<longrightarrow> prefix base v"
  using assms by (auto simp: workspace_for_def Let_def split: option.splits if_splits)

text \<open>The workspaces handed out by one framework, for a fixed base and file system.\<close>

fun workspaces_for :: "string \<Rightarrow> (string \<Rightarrow> string) \<Rightarrow> string list \<Rightarrow> framework \<Rightarrow> framework \<times> string result list" where
  "workspaces_for base locate [] s = (s, [])"
| "workspaces_for base locate (i # is) s =
     (case workspace_for base locate i s of
        Inl e \<Rightarrow> (let (t, ws) = workspaces_for base locate is s in (t, Inl e # ws))
      | Inr (s', w) \<Rightarrow> (let (t, ws) = workspaces_for base locate is s' in (t, Inr w # ws)))"

lemma workspaces_prefix:
  assumes "\<forall>j v. dict_get (fw_cache s) j = Some v \<longrightarrow> prefix base v"
  shows "\<forall>w. Inr w \<in> set (snd (workspaces_for base locate is s)) \<longrightarrow> prefix base w"
  using assms
proof (induction "is" arbitrary: s)
  case (Cons i "is")
  show ?case
  proof (cases "workspace_for base locate i s")
    case (Inl e)
    with Cons show ?thesis by (simp add: case_prod_beta)
  next
    case (Inr r)
    obtain s' w where r: "r = (s', w)" by fastforce
    note p = workspace_for_prefix [OF Cons.prems Inr [unfolded r]]
    show ?thesis using Cons.IH [OF p(2)] p(1) by (auto simp: Inr r case_prod_beta)
  qed
qed simp

subsection \<open>Properties\<close>

text \<open>C11: The pipeline allows a request exactly when its capability is a known one, access control
  grants the permission behind it, and no approval is required. Whatever the decision, the last
  audit entry names the caller, the capability and the outcome, and a refusal that is not pending
  is published.\<close>

theorem authorize_allows_exactly:
  "(de_allowed (snd (authorize st1 st2 p rq s)) \<longleftrightarrow>
      (\<exists>perm. dict_get cap_to_perm (tr_capability rq) = Some perm \<and> ac_is_allowed (fw_ac s) p perm) \<and>
      \<not> tr_requires_approval rq) \<and>
   (let e = last (fw_audit (fst (authorize st1 st2 p rq s))) in
      au_principal e = pr_id p \<and> au_target e = tr_capability rq \<and>
      (au_outcome e = ''allow'' \<longleftrightarrow> de_allowed (snd (authorize st1 st2 p rq s))) \<and>
      (au_outcome e = ''deny'' \<longleftrightarrow>
         last (SV_APPROVAL_REQUESTED rq # drop (length (fw_published s)) (fw_published (fst (authorize st1 st2 p rq s))))
         = SV_TOOL_DENIED (tr_capability rq) (pr_id p)))"
proof -
  let ?d = "decision_for (ac_is_allowed (fw_ac s)) p rq"
  have pub: "drop (length (fw_published s)) (fw_published (fst (authorize st1 st2 p rq s))) =
      (if de_reason ?d = PendingApproval then [SV_APPROVAL_REQUESTED rq]
       else if de_allowed ?d then [] else [SV_TOOL_DENIED (tr_capability rq) (pr_id p)])"
    by (simp add: authorize_def gate_request_def fw_record_def fw_publish_def Let_def)
  have "\<not> de_allowed ?d" if "de_reason ?d = PendingApproval"
    using that by (simp add: ac.decision_allowed_iff ac.decision_pending_iff)
  with authorize_effect [where s = s and p = p and rq = rq and ?st1.0 = st1 and ?st2.0 = st2] pub show ?thesis
    by (auto simp: ac.decision_allowed_iff Let_def split: if_splits)
qed

text \<open>C12: In every reachable state each pending approval has its request in the audit log and each
  decision on record was made by a human and logged with the name that made it; and whatever happens
  later, entries of the audit log are never changed or removed.\<close>

theorem security_log_complete:
  assumes "reach (\<lambda>s. s = fw_init) fw_step s" "fw_step\<^sup>*\<^sup>* s t"
  shows "(\<forall>i rq. dict_get (fw_pending t) i = Some rq \<longrightarrow> request_audited (fw_audit t) rq) \<and>
         (\<forall>i d. dict_get (fw_decisions t) i = Some d \<longrightarrow> decision_audited (fw_audit t) d) \<and>
         prefix (fw_audit s) (fw_audit t)"
proof -
  have "fw_ok t" using fw_machine.steps_inv [OF assms(2) fw_machine.reach_inv [OF assms(1)]] .
  moreover have "prefix (fw_audit s) (fw_audit t)"
    using assms(2) by (induction rule: rtranclp_induct) (auto dest: fw_step_audit intro: prefix_order.trans)
  ultimately show ?thesis by (simp add: fw_ok_def)
qed

text \<open>C13: A decision is read back by its request identifier, with the approver's name, the request is
  no longer pending and the other requests keep their status. The gate accepts a decision on an
  identifier that was never requested, and approving a request does not make a later
  authorisation of it succeed.\<close>

theorem approval_round_trip:
  "gate_status i (gate_decide st i b who s) =
     Some \<lparr>de_allowed = b, de_reason = HumanDecision, de_approved_by = who\<rparr> \<and>
   dict_get (fw_pending (gate_decide st i b who s)) i = None \<and>
   (\<forall>j. j \<noteq> i \<longrightarrow> gate_status j (gate_decide st i b who s) = gate_status j s \<and>
                  dict_get (fw_pending (gate_decide st i b who s)) j = dict_get (fw_pending s) j) \<and>
   de_allowed (snd (authorize st1 st2 p rq (gate_decide st i b who s))) = de_allowed (snd (authorize st1 st2 p rq s))"
proof -
  have ac: "fw_ac (gate_decide st i b who s) = fw_ac s"
    by (simp add: gate_decide_def fw_record_def fw_publish_def Let_def)
  have "de_allowed (snd (authorize st1 st2 p rq t)) = de_allowed (decision_for (ac_is_allowed (fw_ac t)) p rq)" for t
    using authorize_effect [where s = t and p = p and rq = rq and ?st1.0 = st1 and ?st2.0 = st2] by auto
  then show ?thesis using gate_decide_effect [of st i b who s] by (auto simp: gate_status_def ac)
qed

text \<open>A principal that was never assigned a role has the permissions of the roles it declares
  itself; the first assignment replaces them by the assigned role, later ones add to it, and an
  assignment is only seen by callers that present the same identifier and the same declared roles.\<close>

theorem assigned_roles_replace_declared:
  "(dict_get (ac_roles a) p = None \<longrightarrow>
      (ac_is_allowed a p x \<longleftrightarrow> (\<exists>r \<in> set (pr_roles p). x \<in> ac_grants a r)) \<and>
      (ac_is_allowed (ac_assign p r a) p x \<longleftrightarrow> x \<in> ac_grants a r)) \<and>
   (dict_get (ac_roles a) p \<noteq> None \<longrightarrow>
      (ac_is_allowed (ac_assign p r a) p x \<longleftrightarrow> ac_is_allowed a p x \<or> x \<in> ac_grants a r)) \<and>
   (q \<noteq> p \<longrightarrow> ac_is_allowed (ac_assign p r a) q x = ac_is_allowed a q x)"
  by (auto simp: ac_is_allowed_def ac_assign_def dict_get_or_def)

text \<open>Every workspace handed out starts with the text of the base directory whatever the file system
  answers, and the name placed under the base contains no parent reference; the sanitising is not
  injective, so two agents can be given the same workspace.\<close>

theorem workspace_names_sanitised:
  "(\<forall>w. Inr w \<in> set (snd (workspaces_for base locate is fw_init)) \<longrightarrow> prefix base w) \<and>
   \<not> sublist [CHR ''.'', CHR ''.''] (safe_id i) \<and>
   safe_id (''..'' @ CHR ''a'' # i) = safe_id (CHR ''a'' # i)"
proof -
  have "\<not> sublist [CHR ''.'', CHR ''.''] (safe_id i)"
    unfolding safe_id_def by (rule sublist_trans_dots [OF sublist_strip drop_dots_no_dots])
  moreover have "safe_id (''..'' @ CHR ''a'' # i) = safe_id (CHR ''a'' # i)" by (simp add: safe_id_def)
  moreover have "\<forall>w. Inr w \<in> set (snd (workspaces_for base locate is fw_init)) \<longrightarrow> prefix base w"
    by (rule workspaces_prefix) (simp add: fw_init_def)
  ultimately show ?thesis by blast
qed

subsection \<open>Witnesses\<close>

definition demo_request :: tool_request where
  "demo_request = \<lparr>tr_id = ''r1'', tr_principal = \<lparr>pr_id = ''u'', pr_roles = [ADMIN]\<rparr>, tr_capability = ''git'',
                   tr_workspace = [], tr_detail = [], tr_requires_approval = True, tr_created_at = 0\<rparr>"

theorem security_log_complete_witness:
  "request_audited (fw_audit (fst (gate_request (''e'', 0) demo_request fw_init))) demo_request \<and>
   prefix (fw_audit fw_init) (fw_audit (fst (gate_request (''e'', 0) demo_request fw_init)))"
proof -
  let ?t = "fst (gate_request (''e'', 0) demo_request fw_init)"
  have "reach (\<lambda>s. s = fw_init) fw_step fw_init" by (rule reach_init) (rule refl)
  moreover have "fw_step\<^sup>*\<^sup>* fw_init ?t" using fs_request by blast
  ultimately have "\<forall>i rq. dict_get (fw_pending ?t) i = Some rq \<longrightarrow> request_audited (fw_audit ?t) rq"
    "prefix (fw_audit fw_init) (fw_audit ?t)" using security_log_complete by blast+
  moreover have "dict_get (fw_pending ?t) ''r1'' = Some demo_request"
    by (simp add: gate_request_def fw_record_def fw_publish_def fw_init_def demo_request_def Let_def)
  ultimately show ?thesis by blast
qed

theorem approval_round_trip_witness:
  "gate_status ''r1'' (gate_decide (''e'', 1) ''r1'' True ''ann'' fw_init) =
     Some \<lparr>de_allowed = True, de_reason = HumanDecision, de_approved_by = ''ann''\<rparr> \<and>
   gate_status ''r2'' (gate_decide (''e'', 1) ''r1'' True ''ann'' fw_init) = None"
  using approval_round_trip [of "''r1''" "(''e'', 1)" True "''ann''" fw_init]
  by (auto simp: gate_status_def fw_init_def)

theorem assigned_roles_replace_declared_witness:
  "ac_is_allowed ac_init \<lparr>pr_id = ''u'', pr_roles = [ADMIN]\<rparr> ''tool.git'' \<and>
   \<not> ac_is_allowed (ac_assign \<lparr>pr_id = ''u'', pr_roles = [ADMIN]\<rparr> GUEST ac_init)
       \<lparr>pr_id = ''u'', pr_roles = [ADMIN]\<rparr> ''tool.git'' \<and>
   ac_is_allowed (ac_assign \<lparr>pr_id = ''u'', pr_roles = []\<rparr> GUEST ac_init) \<lparr>pr_id = ''u'', pr_roles = [ADMIN]\<rparr> ''tool.git''"
proof -
  let ?p = "\<lparr>pr_id = ''u'', pr_roles = [ADMIN]\<rparr>" and ?q = "\<lparr>pr_id = ''u'', pr_roles = []\<rparr>"
  have n: "dict_get (ac_roles ac_init) ?p = None" "?p \<noteq> ?q" by (simp_all add: ac_init_def)
  have g: "''tool.git'' \<in> ac_grants ac_init ADMIN" "''tool.git'' \<notin> ac_grants ac_init GUEST"
    by (simp_all add: ac_init_def PERMISSIONS_def)
  show ?thesis
    using assigned_roles_replace_declared [of ac_init ?p "''tool.git''" GUEST ?q]
      assigned_roles_replace_declared [of ac_init ?q "''tool.git''" GUEST ?p] n g by simp
qed

theorem workspace_names_sanitised_witness:
  "Inr ''/w/a'' \<in> set (snd (workspaces_for ''/w'' (\<lambda>x. ''/w/'' @ x) [''..a''] fw_init)) \<and> prefix ''/w'' ''/w/a''"
proof -
  have "Inr ''/w/a'' \<in> set (snd (workspaces_for ''/w'' (\<lambda>x. ''/w/'' @ x) [''..a''] fw_init))"
    by (simp add: workspace_for_def fw_init_def safe_id_def strip_slashes_def Let_def)
  then show ?thesis
    using workspace_names_sanitised [of "''/w''" "\<lambda>x. ''/w/'' @ x" "[''..a'']" "[]"] by blast
qed


end
