(* ===== verification/Interleaving.thy ===== *)
theory Interleaving
  imports Prelude
begin

text \<open>
  Concurrent tasks of one event loop, as \<open>asyncio.gather\<close> and worker tasks run them. A task is the
  list of its atomic actions; a schedule says which task acts next and what the clock shows then. The
  trace of a schedule is the sequence of actions it performs. Since every schedule is allowed, a
  statement about all schedules covers every interleaving at the points where tasks await.
\<close>

fun interleave :: "('k \<times> real) list \<Rightarrow> ('k, 'a list) dict \<Rightarrow> ('k \<times> real \<times> 'a) list \<times> ('k, 'a list) dict" where
  "interleave [] ts = ([], ts)"
| "interleave ((k, t) # sch) ts =
     (case dict_get ts k of
        Some (a # as) \<Rightarrow> (let (tr, rest) = interleave sch (dict_set ts k as) in ((k, t, a) # tr, rest))
      | _ \<Rightarrow> interleave sch ts)"

text \<open>The actions of one task in a trace.\<close>

definition proj :: "'k \<Rightarrow> ('k \<times> real \<times> 'a) list \<Rightarrow> 'a list" where
  "proj k tr = map (\<lambda>(_, _, a). a) (filter (\<lambda>(j, _). j = k) tr)"

lemma proj_simps [simp]:
  "proj k [] = []"
  "proj k ((j, t, a) # tr) = (if j = k then a # proj k tr else proj k tr)"
  by (simp_all add: proj_def)

definition finished :: "('k, 'a list) dict \<Rightarrow> bool" where
  "finished ts \<longleftrightarrow> list_all (\<lambda>(_, as). as = []) ts"

lemma interleave_proj:
  "dict_get ts k = Some as \<Longrightarrow> interleave sch ts = (tr, rest) \<Longrightarrow>
   \<exists>bs. dict_get rest k = Some bs \<and> as = proj k tr @ bs"
proof (induction sch ts arbitrary: as tr rest rule: interleave.induct)
  case (2 j t sch ts)
  show ?case
  proof (cases "\<exists>a as'. dict_get ts j = Some (a # as')")
    case True
    then obtain a as' where j: "dict_get ts j = Some (a # as')" by blast
    obtain tr' where tr: "interleave sch (dict_set ts j as') = (tr', rest)" "tr = (j, t, a) # tr'"
      using 2(5) j by (auto split: prod.splits)
    have "dict_get (dict_set ts j as') k = Some (if k = j then as' else as)" using 2(4) by simp
    from 2(3) [OF j refl this tr(1)] show ?thesis
      using 2(4) j tr(2) by (auto split: if_splits)
  next
    case False
    then have "interleave ((j, t) # sch) ts = interleave sch ts"
      by (auto split: option.splits list.splits)
    moreover have "dict_get ts j = None \<or> dict_get ts j = Some []"
      using False by (metis list.exhaust option.exhaust)
    ultimately show ?thesis using 2 by (metis)
  qed
qed auto

lemma interleave_keys:
  "interleave sch ts = (tr, rest) \<Longrightarrow> (k, t, a) \<in> set tr \<Longrightarrow> k \<in> fst ` set ts"
proof (induction sch ts arbitrary: tr rest rule: interleave.induct)
  case (2 j u sch ts)
  show ?case
  proof (cases "\<exists>b as'. dict_get ts j = Some (b # as')")
    case True
    then obtain b as' where j: "dict_get ts j = Some (b # as')" by blast
    then have jk: "j \<in> fst ` set ts" by (metis domI dom_map_of_conv_image_fst)
    obtain tr' where tr: "interleave sch (dict_set ts j as') = (tr', rest)" "tr = (j, u, b) # tr'"
      using 2(4) j by (auto split: prod.splits)
    show ?thesis using 2(3) [OF j refl tr(1)] 2(5) tr(2) jk by auto
  next
    case False
    then have e: "interleave ((j, u) # sch) ts = interleave sch ts"
      by (auto split: option.splits list.splits)
    have "dict_get ts j = None \<or> dict_get ts j = Some []"
      using False by (metis list.exhaust option.exhaust)
    then show ?thesis using 2(1,2) 2(4,5) e by metis
  qed
qed auto

lemma interleave_wf:
  "dict_wf ts \<Longrightarrow> interleave sch ts = (tr, rest) \<Longrightarrow> dict_wf rest \<and> fst ` set rest = fst ` set ts"
proof (induction sch ts arbitrary: tr rest rule: interleave.induct)
  case (2 j u sch ts)
  show ?case
  proof (cases "\<exists>b as'. dict_get ts j = Some (b # as')")
    case True
    then obtain b as' where j: "dict_get ts j = Some (b # as')" by blast
    then have jk: "j \<in> fst ` set ts" by (metis domI dom_map_of_conv_image_fst)
    obtain tr' where tr: "interleave sch (dict_set ts j as') = (tr', rest)"
      using 2(5) j by (auto split: prod.splits)
    show ?thesis using 2(3) [OF j refl _ tr] 2(4) jk by auto
  next
    case False
    then have e: "interleave ((j, u) # sch) ts = interleave sch ts"
      by (auto split: option.splits list.splits)
    have "dict_get ts j = None \<or> dict_get ts j = Some []"
      using False by (metis list.exhaust option.exhaust)
    then show ?thesis using 2(1,2) 2(4,5) e by metis
  qed
qed auto

text \<open>Every turn of a task performs its next action, so the actions left are known exactly.\<close>

lemma interleave_rest:
  "dict_get ts k = Some as \<Longrightarrow>
   dict_get (snd (interleave sch ts)) k = Some (drop (count_list (map fst sch) k) as)"
proof (induction sch ts arbitrary: as rule: interleave.induct)
  case (2 j t sch ts)
  show ?case
  proof (cases "\<exists>a as'. dict_get ts j = Some (a # as')")
    case True
    then obtain a as' where j: "dict_get ts j = Some (a # as')" by blast
    have "dict_get (dict_set ts j as') k = Some (if k = j then as' else as)" using 2(4) by simp
    from 2(3) [OF j refl this] show ?thesis using 2(4) j by (auto split: prod.splits)
  next
    case False
    then have e: "interleave ((j, t) # sch) ts = interleave sch ts"
      by (auto split: option.splits list.splits)
    from False consider "dict_get ts j = None" | "dict_get ts j = Some []" by (metis list.exhaust option.exhaust)
    then show ?thesis
    proof cases
      case 1
      then show ?thesis using 2(1) [OF 1 2(4)] 2(4) e by auto
    next
      case b: 2
      then show ?thesis using 2(2) [OF b refl 2(4)] 2(4) e by auto
    qed
  qed
qed auto

lemma finished_iff: "dict_wf ts \<Longrightarrow> finished ts \<longleftrightarrow> (\<forall>k as. dict_get ts k = Some as \<longrightarrow> as = [])"
  unfolding finished_def list_all_iff by (force simp: case_prod_beta)

lemma interleave_finished:
  assumes "dict_wf ts"
  shows "finished (snd (interleave sch ts)) \<longleftrightarrow>
         (\<forall>k as. dict_get ts k = Some as \<longrightarrow> length as \<le> count_list (map fst sch) k)"
proof -
  obtain tr rest where r: "interleave sch ts = (tr, rest)" by fastforce
  note wf = interleave_wf [OF assms r]
  have dom: "dict_get rest k = None \<longleftrightarrow> dict_get ts k = None" for k
    using wf by (simp add: map_of_eq_None_iff)
  have "dict_get rest k = Some (drop (count_list (map fst sch) k) as)" if "dict_get ts k = Some as" for k as
    using interleave_rest [OF that, of sch] r by simp
  then have "(\<forall>k as. dict_get rest k = Some as \<longrightarrow> as = []) \<longleftrightarrow>
      (\<forall>k as. dict_get ts k = Some as \<longrightarrow> drop (count_list (map fst sch) k) as = [])"
    using dom by (metis not_Some_eq option.inject)
  then show ?thesis using wf by (simp add: r finished_iff)
qed

lemma finished_proj:
  assumes "dict_wf ts" "interleave sch ts = (tr, rest)" "finished rest" "dict_get ts k = Some as"
  shows "proj k tr = as"
  using interleave_proj [OF assms(4,2)] interleave_wf [OF assms(1,2)] assms(3) by (auto simp: finished_iff)

lemma proj_no_key: "k \<notin> fst ` set tr \<Longrightarrow> proj k tr = []"
  by (force simp: proj_def filter_empty_conv)

text \<open>
  Tasks that leave the parts of the others alone: the part of a key without a task is unchanged by
  every interleaving. If moreover each action transforms its own part, the part of \<open>k\<close> after the
  trace is what the actions of \<open>k\<close> alone produce.
\<close>

locale separate_tasks =
  fixes exec :: "'k \<Rightarrow> real \<Rightarrow> 'a \<Rightarrow> 's \<Rightarrow> 's"
    and view :: "'k \<Rightarrow> 's \<Rightarrow> 'v"
  assumes exec_other: "j \<noteq> k \<Longrightarrow> view k (exec j t a s) = view k s"
begin

lemma trace_other: "k \<notin> fst ` set tr \<Longrightarrow> view k (fold (\<lambda>(j, t, a). exec j t a) tr s) = view k s"
  by (induction tr arbitrary: s) (auto simp: exec_other)

lemma interleaved_other:
  assumes "interleave sch ts = (tr, rest)" "k \<notin> fst ` set ts"
  shows "view k (fold (\<lambda>(j, t, a). exec j t a) tr s) = view k s"
  using interleave_keys [OF assms(1)] assms(2) by (intro trace_other) force

end

locale local_tasks = separate_tasks exec view
  for exec :: "'k \<Rightarrow> real \<Rightarrow> 'a \<Rightarrow> 's \<Rightarrow> 's" and view :: "'k \<Rightarrow> 's \<Rightarrow> 'v" +
  fixes local_exec :: "'a \<Rightarrow> 'v \<Rightarrow> 'v"
  assumes exec_own: "view k (exec k t a s) = local_exec a (view k s)"
begin

lemma trace_view:
  "view k (fold (\<lambda>(j, t, a). exec j t a) tr s) = fold local_exec (proj k tr) (view k s)"
proof (induction tr arbitrary: s)
  case (Cons x tr)
  obtain j t a where x: "x = (j, t, a)" by (cases x) auto
  show ?case using Cons exec_own exec_other by (cases "j = k") (auto simp: x)
qed simp

lemma interleaved_view:
  assumes "dict_wf ts" "interleave sch ts = (tr, rest)" "finished rest" "dict_get ts k = Some as"
  shows "view k (fold (\<lambda>(j, t, a). exec j t a) tr s) = fold local_exec as (view k s)"
  using finished_proj [OF assms] by (simp add: trace_view)

lemma sequential_view: "view k (fold (exec k t) as s) = fold local_exec as (view k s)"
  by (induction as arbitrary: s) (simp_all add: exec_own)

end

end
