(* ===== verification/Lifecycle.thy ===== *)
theory Lifecycle
  imports Interleaving
begin

text \<open>
  The lifecycle manager (\<open>core/lifecycle.py\<close>): service records with their state machine, startup of a
  phase with one concurrent task per service, ordered startup and reversed shutdown, health queries and
  the handling of failures. Services and hooks are supplied from outside: what a call of them does is
  an argument (\<open>behaviour\<close>), and the calls made are recorded in order. A call may return, raise or
  hang. The calls of startup and shutdown are awaited under \<open>wait_for\<close>, which turns a call that hangs
  into a \<open>TimeoutError\<close> (the service is assumed to obey its cancellation); that and a \<open>TimeoutError\<close>
  raised by the service itself are the same outcome \<open>TimedOut\<close>. The health queries, \<open>repair\<close> and
  \<open>restart\<close> are awaited without a limit: there a call that hangs keeps the operation from returning.
  Hooks are plain calls that would stop the whole event loop if they hung; they are assumed to
  return or raise. The event callback is assumed not to raise; an event records it only when a
  callback is set.
\<close>

subsection \<open>Data\<close>

datatype phase = CRITICAL | INFRASTRUCTURE | CORE | DOMAIN | OMNIROUTE | ADVANCED

definition PHASE_ORDER :: "phase list" where
  "PHASE_ORDER = [CRITICAL, INFRASTRUCTURE, CORE, DOMAIN, OMNIROUTE, ADVANCED]"

definition PHASE_REVERSE :: "phase list" where
  "PHASE_REVERSE = rev PHASE_ORDER"

datatype service_state = SS_INITIALIZING | SS_LOADING | SS_READY | SS_FAILED | SS_RECOVERING | SS_HEALTHY
  | SS_DEGRADED | SS_OFFLINE | SS_STOPPING | SS_STOPPED | SS_DISPOSED

primrec state_value :: "service_state \<Rightarrow> string" where
  "state_value SS_INITIALIZING = ''initializing''"
| "state_value SS_LOADING = ''loading''"
| "state_value SS_READY = ''ready''"
| "state_value SS_FAILED = ''failed''"
| "state_value SS_RECOVERING = ''recovering''"
| "state_value SS_HEALTHY = ''healthy''"
| "state_value SS_DEGRADED = ''degraded''"
| "state_value SS_OFFLINE = ''offline''"
| "state_value SS_STOPPING = ''stopping''"
| "state_value SS_STOPPED = ''stopped''"
| "state_value SS_DISPOSED = ''disposed''"

text \<open>An exception is a time-out or carries its message \<open>str(exc)\<close>.\<close>

datatype svc_exn = TimedOut | Raised string

datatype hook = NoHook | HookReturns | HookRaises svc_exn

text \<open>What an awaited call of a service does, and what \<open>asyncio.wait_for\<close> makes of it.\<close>

datatype service_call = Returns | Raises svc_exn | Hangs

primrec wait_for :: "service_call \<Rightarrow> svc_exn option" where
  "wait_for Returns = None"
| "wait_for (Raises e) = Some e"
| "wait_for Hangs = Some TimedOut"

text \<open>\<open>Health (Some s)\<close> is an answer with status \<open>s\<close>, \<open>Health None\<close> an empty one or one without status.\<close>

datatype health_answer = Health "string option" | HealthRaises svc_exn | HealthHangs

datatype repair_answer = Repaired bool | RepairRaises | RepairHangs

text \<open>What the calls into one service and its hooks do.\<close>

record behaviour =
  bh_before_start :: hook
  bh_after_start :: hook
  bh_before_stop :: hook
  bh_after_stop :: hook
  bh_on_error :: hook
  bh_initialize :: service_call
  bh_start :: service_call
  bh_health :: health_answer
  bh_stop :: service_call
  bh_dispose :: service_call
  bh_repair :: repair_answer
  bh_restart :: service_call

datatype svc_call = BeforeStart | AfterStart | BeforeStop | AfterStop | OnError | Initialize | Start | HealthCheck
  | Stop | Dispose | Repair | Restart

record service_record =
  sr_id :: string
  sr_phase :: phase
  sr_state :: service_state
  sr_started_at :: "real option"
  sr_stopped_at :: "real option"
  sr_failure_count :: int
  sr_last_error :: "string option"
  sr_last_health_check :: "real option"
  sr_event_bus_topic :: string
  sr_container_key :: string

datatype phase_error =
    HealthCheckFailed string svc_exn
  | StartupTimedOut string
  | StartupFailed string string
  | StopTimedOut string
  | StopFailed string string

record phase_result =
  ph_phase :: phase
  ph_success :: bool
  ph_started :: "string list"
  ph_failed :: "string list"
  ph_skipped :: "string list"
  ph_duration_ms :: real
  ph_errors :: "phase_error list"

record state_event =
  ev_topic :: string
  ev_service :: string
  ev_old :: service_state
  ev_new :: service_state
  ev_error :: "string option"
  ev_timestamp :: real

record lifecycle =
  lm_records :: "(string, service_record) dict"
  lm_phase_results :: "(phase, phase_result) dict"
  lm_running :: bool
  lm_stopped :: bool
  lm_current_phase :: "phase option"
  lm_current_state :: service_state
  lm_publisher :: bool
  lm_events :: "state_event list"
  lm_calls :: "(string \<times> svc_call) list"

definition lm_init :: "bool \<Rightarrow> lifecycle" where
  "lm_init publisher =
     \<lparr>lm_records = [], lm_phase_results = [], lm_running = False, lm_stopped = False, lm_current_phase = None,
      lm_current_state = SS_INITIALIZING, lm_publisher = publisher, lm_events = [], lm_calls = []\<rparr>"

subsection \<open>Registration and lookup\<close>

definition register_service :: "string \<Rightarrow> phase \<Rightarrow> string \<Rightarrow> lifecycle \<Rightarrow> lifecycle \<times> service_record" where
  "register_service i ph key m =
     (let r = \<lparr>sr_id = i, sr_phase = ph, sr_state = SS_INITIALIZING, sr_started_at = None, sr_stopped_at = None,
               sr_failure_count = 0, sr_last_error = None, sr_last_health_check = None,
               sr_event_bus_topic = ''service.'' @ i @ ''.state'', sr_container_key = key\<rparr>
      in (m\<lparr>lm_records := dict_set (lm_records m) i r\<rparr>, r))"

definition get_service :: "string \<Rightarrow> lifecycle \<Rightarrow> service_record option" where
  "get_service i m = dict_get (lm_records m) i"

definition get_services_by_phase :: "phase \<Rightarrow> lifecycle \<Rightarrow> service_record list" where
  "get_services_by_phase ph m = filter (\<lambda>r. sr_phase r = ph) (dict_values (lm_records m))"

definition get_services_by_state :: "service_state \<Rightarrow> lifecycle \<Rightarrow> service_record list" where
  "get_services_by_state st m = filter (\<lambda>r. sr_state r = st) (dict_values (lm_records m))"

subsection \<open>The state machine\<close>

definition enter_state :: "real \<Rightarrow> service_state \<Rightarrow> string option \<Rightarrow> service_record \<Rightarrow> service_record" where
  "enter_state now st err r =
     (let r = r\<lparr>sr_state := st\<rparr>;
          r = (if truthy err then r\<lparr>sr_last_error := err\<rparr> else r)
      in if st = SS_HEALTHY then r\<lparr>sr_started_at := Some now, sr_last_health_check := Some now\<rparr>
         else if st = SS_STOPPED then r\<lparr>sr_stopped_at := Some now\<rparr>
         else r)"

definition transition_to :: "real \<Rightarrow> string \<Rightarrow> service_state \<Rightarrow> string option \<Rightarrow> lifecycle \<Rightarrow> lifecycle" where
  "transition_to now i st err m =
     (case dict_get (lm_records m) i of
        None \<Rightarrow> m
      | Some r \<Rightarrow>
          m\<lparr>lm_records := dict_set (lm_records m) i (enter_state now st err r),
            lm_events := (if lm_publisher m
              then lm_events m @
                [\<lparr>ev_topic = sr_event_bus_topic r @ ''.'' @ state_value st, ev_service = i, ev_old = sr_state r,
                  ev_new = st, ev_error = err, ev_timestamp = now\<rparr>]
              else lm_events m)\<rparr>)"

definition call_service :: "string \<Rightarrow> svc_call \<Rightarrow> lifecycle \<Rightarrow> lifecycle" where
  "call_service i c m = m\<lparr>lm_calls := lm_calls m @ [(i, c)]\<rparr>"

subsection \<open>The actions of one boot or stop\<close>

text \<open>\<open>MarkDone\<close> and \<open>MarkFailed\<close> append to the lists of the phase result, \<open>Escape\<close> is an exception
  that leaves the task.\<close>

datatype action =
    Enter service_state "string option"
  | Call svc_call
  | MarkDone
  | MarkFailed
  | AddError phase_error
  | Escape svc_exn

text \<open>A block of statements performs actions and may end in an exception, which skips the rest.\<close>

fun seq_blocks :: "(action list \<times> svc_exn option) list \<Rightarrow> action list \<times> svc_exn option" where
  "seq_blocks [] = ([], None)"
| "seq_blocks ((as, Some e) # bs) = (as, Some e)"
| "seq_blocks ((as, None) # bs) = (let (as', e) = seq_blocks bs in (as @ as', e))"

primrec hook_block :: "svc_call \<Rightarrow> hook \<Rightarrow> action list \<times> svc_exn option" where
  "hook_block c NoHook = ([], None)"
| "hook_block c HookReturns = ([Call c], None)"
| "hook_block c (HookRaises e) = ([Call c], Some e)"

definition health_ok :: "string option \<Rightarrow> bool" where
  "health_ok s \<longleftrightarrow> s = Some ''healthy'' \<or> s = Some ''ok'' \<or> s = Some ''ready''"

definition health_actions :: "string \<Rightarrow> behaviour \<Rightarrow> action list" where
  "health_actions i b =
     Call HealthCheck #
     (case bh_health b of
        Health s \<Rightarrow> [Enter (if health_ok s then SS_HEALTHY else SS_DEGRADED) None]
      | HealthRaises e \<Rightarrow> [Enter SS_DEGRADED None, AddError (HealthCheckFailed i e)]
      | HealthHangs \<Rightarrow> [Enter SS_DEGRADED None, AddError (HealthCheckFailed i TimedOut)])"

definition boot_try :: "string \<Rightarrow> behaviour \<Rightarrow> action list \<times> svc_exn option" where
  "boot_try i b = seq_blocks
     [([Enter SS_INITIALIZING None], None),
      hook_block BeforeStart (bh_before_start b),
      ([Call Initialize], wait_for (bh_initialize b)),
      ([Enter SS_LOADING None], None),
      ([Call Start], wait_for (bh_start b)),
      ([Enter SS_READY None], None),
      (health_actions i b, None),
      hook_block AfterStart (bh_after_start b),
      ([MarkDone], None)]"

definition error_hook :: "behaviour \<Rightarrow> action list" where
  "error_hook b =
     (case hook_block OnError (bh_on_error b) of (as, None) \<Rightarrow> as | (as, Some e) \<Rightarrow> as @ [Escape e])"

definition boot_service :: "string \<Rightarrow> behaviour \<Rightarrow> action list" where
  "boot_service i b =
     (case boot_try i b of
        (as, None) \<Rightarrow> as
      | (as, Some TimedOut) \<Rightarrow>
          as @ [Enter SS_FAILED (Some ''startup timed out''), MarkFailed, AddError (StartupTimedOut i)] @ error_hook b
      | (as, Some (Raised x)) \<Rightarrow>
          as @ [Enter SS_FAILED (Some x), MarkFailed, AddError (StartupFailed i x)] @ error_hook b)"

definition stop_try :: "behaviour \<Rightarrow> action list \<times> svc_exn option" where
  "stop_try b = seq_blocks
     [([Enter SS_STOPPING None], None),
      hook_block BeforeStop (bh_before_stop b),
      ([Call Stop], wait_for (bh_stop b)),
      ([Enter SS_STOPPED None], None),
      ([Call Dispose], wait_for (bh_dispose b)),
      ([Enter SS_DISPOSED None], None),
      hook_block AfterStop (bh_after_stop b),
      ([MarkDone], None)]"

definition stop_service :: "string \<Rightarrow> behaviour \<Rightarrow> action list" where
  "stop_service i b =
     (case stop_try b of
        (as, None) \<Rightarrow> as
      | (as, Some TimedOut) \<Rightarrow>
          as @ [Enter SS_STOPPED (Some ''stop timed out, force-disposed''), Enter SS_DISPOSED None, MarkDone,
                AddError (StopTimedOut i)]
      | (as, Some (Raised x)) \<Rightarrow>
          as @ [Enter SS_FAILED (Some x), MarkFailed, AddError (StopFailed i x)])"

subsection \<open>Running a phase\<close>

text \<open>The local variables of \<open>start_phase\<close> and \<open>stop_phase\<close>.\<close>

record tally =
  ta_done :: "string list"
  ta_failed :: "string list"
  ta_errors :: "phase_error list"
  ta_escaped :: "svc_exn option"

definition empty_tally :: tally where
  "empty_tally = \<lparr>ta_done = [], ta_failed = [], ta_errors = [], ta_escaped = None\<rparr>"

primrec tally_action :: "string \<Rightarrow> action \<Rightarrow> tally \<Rightarrow> tally" where
  "tally_action i (Enter st err) a = a"
| "tally_action i (Call c) a = a"
| "tally_action i MarkDone a = a\<lparr>ta_done := ta_done a @ [i]\<rparr>"
| "tally_action i MarkFailed a = a\<lparr>ta_failed := ta_failed a @ [i]\<rparr>"
| "tally_action i (AddError e) a = a\<lparr>ta_errors := ta_errors a @ [e]\<rparr>"
| "tally_action i (Escape e) a = a\<lparr>ta_escaped := (if ta_escaped a = None then Some e else ta_escaped a)\<rparr>"

primrec manager_action :: "string \<Rightarrow> real \<Rightarrow> action \<Rightarrow> lifecycle \<Rightarrow> lifecycle" where
  "manager_action i t (Enter st err) m = transition_to t i st err m"
| "manager_action i t (Call c) m = call_service i c m"
| "manager_action i t MarkDone m = m"
| "manager_action i t MarkFailed m = m"
| "manager_action i t (AddError e) m = m"
| "manager_action i t (Escape e) m = m"

definition exec_action :: "string \<Rightarrow> real \<Rightarrow> action \<Rightarrow> lifecycle \<times> tally \<Rightarrow> lifecycle \<times> tally" where
  "exec_action i t act s = (manager_action i t act (fst s), tally_action i act (snd s))"

definition tally_result :: "phase \<Rightarrow> real \<Rightarrow> tally \<Rightarrow> phase_result" where
  "tally_result ph ms a =
     \<lparr>ph_phase = ph, ph_success = (ta_failed a = []), ph_started = ta_done a, ph_failed = ta_failed a, ph_skipped = [],
      ph_duration_ms = ms, ph_errors = ta_errors a\<rparr>"

definition put_result :: "phase_result \<Rightarrow> lifecycle \<Rightarrow> lifecycle" where
  "put_result r m = m\<lparr>lm_phase_results := dict_set (lm_phase_results m) (ph_phase r) r\<rparr>"

text \<open>
  \<open>start_phase\<close> gathers one task per service. The schedule is the order in which the event loop runs
  them, with the clock at each action, until \<open>gather\<close> returns or raises. The result is \<open>None\<close> while
  tasks are unfinished and none has raised: the call has then not returned yet. After an exception
  escapes from a task, \<open>gather\<close> raises it and the actions that remain are not followed further.
\<close>

record run_env =
  en_start :: real
  en_end :: real
  en_schedule :: "(string \<times> real) list"

definition boot_tasks :: "(string \<Rightarrow> behaviour) \<Rightarrow> service_record list \<Rightarrow> (string, action list) dict" where
  "boot_tasks beh rs = map (\<lambda>r. (sr_id r, boot_service (sr_id r) (beh (sr_id r)))) rs"

definition start_phase ::
  "(string \<Rightarrow> behaviour) \<Rightarrow> run_env \<Rightarrow> phase \<Rightarrow> lifecycle \<Rightarrow> (lifecycle \<times> (svc_exn + phase_result)) option" where
  "start_phase beh env ph m =
     (let services = get_services_by_phase ph m in
      if services = [] then
        (let r = tally_result ph 0 empty_tally in Some (put_result r m, Inr r))
      else
        (let m = m\<lparr>lm_current_phase := Some ph\<rparr>;
             (tr, rest) = interleave (en_schedule env) (boot_tasks beh services);
             (m, a) = fold (\<lambda>(i, t, act). exec_action i t act) tr (m, empty_tally)
         in case ta_escaped a of
              Some e \<Rightarrow> Some (m, Inl e)
            | None \<Rightarrow>
                if \<not> finished rest then None
                else
                  (let r = tally_result ph ((en_end env - en_start env) * 1000) a;
                       m = put_result r m;
                       m = m\<lparr>lm_current_state := (if ph_success r then SS_HEALTHY else SS_DEGRADED)\<rparr>
                   in Some (m, Inr r))))"

definition stop_one :: "(string \<Rightarrow> behaviour) \<Rightarrow> real \<Rightarrow> service_record \<Rightarrow> lifecycle \<times> tally \<Rightarrow> lifecycle \<times> tally" where
  "stop_one beh now r s = fold (exec_action (sr_id r) now) (stop_service (sr_id r) (beh (sr_id r))) s"

definition stop_phase ::
  "(string \<Rightarrow> behaviour) \<Rightarrow> real \<Rightarrow> real \<Rightarrow> phase \<Rightarrow> lifecycle \<Rightarrow> lifecycle \<times> phase_result" where
  "stop_phase beh t0 t1 ph m =
     (let services = get_services_by_phase ph m in
      if services = [] then
        (let r = tally_result ph 0 empty_tally in (put_result r m, r))
      else
        (let (m, a) = fold (stop_one beh t1) (rev services) (m, empty_tally);
             r = tally_result ph ((t1 - t0) * 1000) a
         in (put_result r m, r)))"

definition stop :: "(string \<Rightarrow> behaviour) \<Rightarrow> real \<Rightarrow> real \<Rightarrow> lifecycle \<Rightarrow> lifecycle \<times> phase_result list" where
  "stop beh t0 t1 m =
     (let m = m\<lparr>lm_running := False, lm_current_state := SS_STOPPING\<rparr>;
          (m, rs) = fold (\<lambda>ph (m, rs). let (m, r) = stop_phase beh t0 t1 ph m in (m, rs @ [r]))
                      PHASE_REVERSE (m, [])
      in (m\<lparr>lm_current_state := SS_STOPPED, lm_current_phase := None\<rparr>, rs))"

text \<open>The loop of \<open>start_all\<close>, one environment per phase; \<open>None\<close> while a phase has not returned.\<close>

fun start_loop ::
  "(string \<Rightarrow> behaviour) \<Rightarrow> bool \<Rightarrow> real \<times> real \<Rightarrow> phase list \<Rightarrow> run_env list \<Rightarrow> phase_result list \<Rightarrow> lifecycle \<Rightarrow>
   (lifecycle \<times> (svc_exn + phase_result list)) option" where
  "start_loop beh stop_on_failure ts [] envs rs m =
     Some (m\<lparr>lm_running := True, lm_current_state := SS_HEALTHY\<rparr>, Inr rs)"
| "start_loop beh stop_on_failure ts (ph # phs) [] rs m = None"
| "start_loop beh stop_on_failure ts (ph # phs) (env # envs) rs m =
     (case start_phase beh env ph m of
        None \<Rightarrow> None
      | Some (m, Inl e) \<Rightarrow> Some (m, Inl e)
      | Some (m, Inr r) \<Rightarrow>
          if \<not> ph_success r \<and> stop_on_failure
          then (let (m, _) = stop beh (fst ts) (snd ts) m in Some (m\<lparr>lm_running := False\<rparr>, Inr (rs @ [r])))
          else start_loop beh stop_on_failure ts phs envs (rs @ [r]) m)"

definition start_all ::
  "(string \<Rightarrow> behaviour) \<Rightarrow> real \<times> real \<Rightarrow> run_env list \<Rightarrow> phase list option \<Rightarrow> bool \<Rightarrow> lifecycle \<Rightarrow>
   (lifecycle \<times> (svc_exn + phase_result list)) option" where
  "start_all beh ts envs phases stop_on_failure m =
     (let phases = (case phases of None \<Rightarrow> PHASE_ORDER | Some ps \<Rightarrow> ps)
      in start_loop beh stop_on_failure ts phases envs [] (m\<lparr>lm_running := True\<rparr>))"

subsection \<open>Health and introspection\<close>

record health_summary =
  hs_running :: bool
  hs_current_phase :: "phase option"
  hs_current_state :: service_state
  hs_total :: nat
  hs_healthy :: nat
  hs_degraded :: nat
  hs_failed :: nat
  hs_offline :: nat

text \<open>A health check that hangs is awaited for ever: there is no answer (\<open>None\<close>).\<close>

definition count_health :: "health_answer \<Rightarrow> nat \<times> nat \<times> nat \<Rightarrow> (nat \<times> nat \<times> nat) option" where
  "count_health h = (\<lambda>(g, d, f).
     case h of Health s \<Rightarrow> Some (if health_ok s then (g + 1, d, f) else (g, d + 1, f))
     | HealthRaises e \<Rightarrow> Some (g, d, f + 1)
     | HealthHangs \<Rightarrow> None)"

definition lm_health :: "(string \<Rightarrow> behaviour) \<Rightarrow> lifecycle \<Rightarrow> health_summary option" where
  "lm_health beh m =
     (case fold (\<lambda>r acc. Option.bind acc (count_health (bh_health (beh (sr_id r))))) (dict_values (lm_records m))
        (Some (0, 0, 0)) of
        None \<Rightarrow> None
      | Some (g, d, f) \<Rightarrow> Some
          \<lparr>hs_running = lm_running m, hs_current_phase = lm_current_phase m, hs_current_state = lm_current_state m,
           hs_total = length (lm_records m), hs_healthy = g, hs_degraded = d, hs_failed = f, hs_offline = 0\<rparr>)"

record service_report =
  rp_service :: string
  rp_state :: service_state
  rp_health :: health_answer
  rp_started_at :: "real option"
  rp_failure_count :: int
  rp_last_error :: "svc_exn option"

text \<open>The report carries the recorded error, or the error of the health check when that raises; the
  start time is only in the first form.\<close>

definition service_health :: "(string \<Rightarrow> behaviour) \<Rightarrow> string \<Rightarrow> lifecycle \<Rightarrow> service_report option option" where
  "service_health beh i m =
     (case dict_get (lm_records m) i of
        None \<Rightarrow> Some None
      | Some r \<Rightarrow>
          (case bh_health (beh i) of
             Health s \<Rightarrow> Some (Some \<lparr>rp_service = i, rp_state = sr_state r, rp_health = Health s,
               rp_started_at = sr_started_at r, rp_failure_count = sr_failure_count r,
               rp_last_error = map_option Raised (sr_last_error r)\<rparr>)
           | HealthRaises e \<Rightarrow> Some (Some \<lparr>rp_service = i, rp_state = sr_state r, rp_health = HealthRaises e,
               rp_started_at = None, rp_failure_count = sr_failure_count r, rp_last_error = Some e\<rparr>)
           | HealthHangs \<Rightarrow> None))"

definition get_phase_result :: "phase \<Rightarrow> lifecycle \<Rightarrow> phase_result option" where
  "get_phase_result ph m = dict_get (lm_phase_results m) ph"

definition service_count_by_phase :: "lifecycle \<Rightarrow> (phase, int) dict" where
  "service_count_by_phase m =
     fold (\<lambda>r d. dict_set d (sr_phase r) (dict_get_or d (sr_phase r) 0 + 1)) (dict_values (lm_records m)) []"

definition state_summary :: "lifecycle \<Rightarrow> (service_state, string list) dict" where
  "state_summary m =
     fold (\<lambda>r d. dict_set d (sr_state r) (dict_get_or d (sr_state r) [] @ [sr_id r])) (dict_values (lm_records m)) []"

definition is_healthy :: "lifecycle \<Rightarrow> bool" where
  "is_healthy m \<longleftrightarrow> list_all (\<lambda>r. sr_state r = SS_HEALTHY \<or> sr_state r = SS_READY) (dict_values (lm_records m))"

definition is_running :: "lifecycle \<Rightarrow> bool" where
  "is_running m \<longleftrightarrow> lm_running m \<and> \<not> lm_stopped m"

subsection \<open>Failures\<close>

definition count_failure :: "string \<Rightarrow> lifecycle \<Rightarrow> lifecycle" where
  "count_failure i m =
     m\<lparr>lm_records := map (\<lambda>(k, r). (k, if k = i then r\<lparr>sr_failure_count := sr_failure_count r + 1\<rparr> else r)) (lm_records m)\<rparr>"

text \<open>The flag tells whether the operation returns; it does not when \<open>repair\<close> or \<open>restart\<close> hangs.\<close>

definition on_service_failure :: "behaviour \<Rightarrow> real \<Rightarrow> string \<Rightarrow> string \<Rightarrow> lifecycle \<Rightarrow> lifecycle \<times> bool" where
  "on_service_failure b now i err m =
     (if dict_get (lm_records m) i = None then (m, True)
      else
        (let m = transition_to now i SS_FAILED (Some err) (count_failure i m);
             m = call_service i Repair m;
             degraded = (\<lambda>m. (transition_to now i SS_DEGRADED (Some ''repair failed'') m, True))
         in case bh_repair b of
              Repaired True \<Rightarrow>
                (let m = call_service i Restart (transition_to now i SS_RECOVERING None m) in
                 case bh_restart b of
                   Returns \<Rightarrow> (transition_to now i SS_READY None m, True)
                 | Raises e \<Rightarrow> degraded m
                 | Hangs \<Rightarrow> (m, False))
            | RepairHangs \<Rightarrow> (m, False)
            | _ \<Rightarrow> degraded m))"


end
