(* ===== verification/Lifecycle_Laws.thy ===== *)
theory Lifecycle_Laws
  imports Lifecycle
begin

text \<open>
  What the lifecycle manager guarantees. Every boot touches its own service only, so the outcome of a
  phase does not depend on how its tasks interleave; it returns once every task had enough turns;
  startup with \<open>stop_on_failure\<close> is gated; shutdown reaches every service in reverse order.
\<close>

subsection \<open>What stays fixed\<close>

text \<open>No operation but registration changes which services there are, or their phases.\<close>

definition skeleton :: "lifecycle \<Rightarrow> (string \<times> string \<times> phase) list" where
  "skeleton m = map (\<lambda>(k, r). (k, sr_id r, sr_phase r)) (lm_records m)"

definition lm_ok :: "lifecycle \<Rightarrow> bool" where
  "lm_ok m \<longleftrightarrow> dict_wf (lm_records m) \<and> (\<forall>(k, r) \<in> set (lm_records m). sr_id r = k)"

definition phase_ids :: "phase \<Rightarrow> lifecycle \<Rightarrow> string list" where
  "phase_ids ph m = map sr_id (get_services_by_phase ph m)"

lemma lm_ok_skeleton: "lm_ok m \<longleftrightarrow> distinct (map fst (skeleton m)) \<and> (\<forall>(k, i, p) \<in> set (skeleton m). i = k)"
  by (auto simp: lm_ok_def skeleton_def case_prod_beta comp_def)

lemma phase_ids_skeleton: "phase_ids ph m = map (fst \<circ> snd) (filter (\<lambda>(k, i, p). p = ph) (skeleton m))"
  unfolding phase_ids_def get_services_by_phase_def skeleton_def by (induction "lm_records m" rule: list.induct; auto simp: filter_map comp_def case_prod_beta)

lemma map_dict_set:
  "dict_get d k = Some r \<Longrightarrow> f k r' = f k r \<Longrightarrow> map (\<lambda>(k, r). (k, f k r)) (dict_set d k r') = map (\<lambda>(k, r). (k, f k r)) d"
  by (induction d) (auto split: if_splits)

lemma enter_state_sel [simp]:
  "sr_id (enter_state t st err r) = sr_id r" "sr_phase (enter_state t st err r) = sr_phase r"
  "sr_state (enter_state t st err r) = st"
  by (simp_all add: enter_state_def Let_def)

lemma skeleton_transition [simp]: "skeleton (transition_to t i st err m) = skeleton m"
  by (auto simp: skeleton_def transition_to_def map_dict_set [where f = "\<lambda>k r. (sr_id r, sr_phase r)"] split: option.splits)

lemma skeleton_update [simp]:
  "skeleton (m\<lparr>lm_running := b\<rparr>) = skeleton m" "skeleton (m\<lparr>lm_current_state := st\<rparr>) = skeleton m"
  "skeleton (m\<lparr>lm_current_phase := p\<rparr>) = skeleton m" "skeleton (put_result r m) = skeleton m"
  "skeleton (call_service i c m) = skeleton m"
  by (simp_all add: skeleton_def put_result_def call_service_def)

lemma skeleton_action [simp]: "skeleton (manager_action i t a m) = skeleton m"
  by (cases a) simp_all

lemma skeleton_exec [simp]: "skeleton (fst (exec_action i t a s)) = skeleton (fst s)"
  by (simp add: exec_action_def)

lemma skeleton_trace [simp]: "skeleton (fst (fold (\<lambda>(i, t, a). exec_action i t a) tr s)) = skeleton (fst s)"
  by (induction tr arbitrary: s) (simp_all add: case_prod_beta)

lemma skeleton_fold [simp]: "skeleton (fst (fold (exec_action i t) as s)) = skeleton (fst s)"
  by (induction as arbitrary: s) simp_all

lemma skeleton_stop_one [simp]: "skeleton (fst (stop_one beh t r s)) = skeleton (fst s)"
  by (simp add: stop_one_def)

lemma skeleton_stop_many [simp]: "skeleton (fst (fold (stop_one beh t) rs s)) = skeleton (fst s)"
  by (induction rs arbitrary: s) simp_all

lemma skeleton_stop_phase [simp]: "skeleton (fst (stop_phase beh t0 t1 ph m)) = skeleton m"
  by (simp add: stop_phase_def Let_def case_prod_beta)

lemma skeleton_start_phase: "start_phase beh env ph m = Some (m', r) \<Longrightarrow> skeleton m' = skeleton m"
  by (auto simp: start_phase_def Let_def case_prod_beta split: if_splits option.splits)

subsection \<open>The view of one service\<close>

text \<open>Its state, how often it was counted as done and as failed, and the calls made to it.\<close>

type_synonym view_tuple = "service_state option \<times> nat \<times> nat \<times> svc_call list"

definition service_view :: "string \<Rightarrow> lifecycle \<times> tally \<Rightarrow> view_tuple" where
  "service_view i s =
     (map_option sr_state (dict_get (lm_records (fst s)) i), count_list (ta_done (snd s)) i,
      count_list (ta_failed (snd s)) i, map snd (filter (\<lambda>(j, _). j = i) (lm_calls (fst s))))"

primrec view_action :: "action \<Rightarrow> view_tuple \<Rightarrow> view_tuple" where
  "view_action (Enter st err) v = (map_option (\<lambda>_. st) (fst v), snd v)"
| "view_action (Call c) v = (case v of (st, d, f, cs) \<Rightarrow> (st, d, f, cs @ [c]))"
| "view_action MarkDone v = (case v of (st, d, f, cs) \<Rightarrow> (st, d + 1, f, cs))"
| "view_action MarkFailed v = (case v of (st, d, f, cs) \<Rightarrow> (st, d, f + 1, cs))"
| "view_action (AddError e) v = v"
| "view_action (Escape e) v = v"

lemma transition_to_get:
  "dict_get (lm_records (transition_to t i st err m)) j =
     (if j = i then map_option (enter_state t st err) (dict_get (lm_records m) i) else dict_get (lm_records m) j)"
  by (auto simp: transition_to_def split: option.splits)

lemma transition_to_sel [simp]:
  "lm_calls (transition_to t i st err m) = lm_calls m" "lm_running (transition_to t i st err m) = lm_running m"
  "lm_current_state (transition_to t i st err m) = lm_current_state m"
  by (simp_all add: transition_to_def split: option.splits)

lemma call_service_sel [simp]:
  "lm_records (call_service i c m) = lm_records m" "lm_calls (call_service i c m) = lm_calls m @ [(i, c)]"
  by (simp_all add: call_service_def)

interpretation records: separate_tasks exec_action "\<lambda>k s. dict_get (lm_records (fst s)) k"
proof unfold_locales
  show "dict_get (lm_records (fst (exec_action j t a s))) k = dict_get (lm_records (fst s)) k" if "j \<noteq> k" for j k t a s
    using that by (cases a) (simp_all add: exec_action_def transition_to_get)
qed

interpretation boot: local_tasks exec_action service_view view_action
proof unfold_locales
  show "service_view k (exec_action j t a s) = service_view k s" if "j \<noteq> k" for j k t a s
    using that by (cases a) (simp_all add: exec_action_def transition_to_get service_view_def)
  show "service_view k (exec_action k t a s) = view_action a (service_view k s)" for k t a s
    by (cases a) (simp_all add: exec_action_def transition_to_get service_view_def option.map_comp comp_def)
qed

subsection \<open>The outcome of one boot and one stop\<close>

definition raises :: "hook \<Rightarrow> bool" where
  "raises h \<longleftrightarrow> (\<exists>e. h = HookRaises e)"

lemma raises_simps [simp]: "\<not> raises NoHook" "\<not> raises HookReturns" "raises (HookRaises e)"
  by (simp_all add: raises_def)

definition boots :: "behaviour \<Rightarrow> bool" where
  "boots b \<longleftrightarrow> \<not> raises (bh_before_start b) \<and> bh_initialize b = Returns \<and> bh_start b = Returns \<and> \<not> raises (bh_after_start b)"

definition reports_healthy :: "behaviour \<Rightarrow> bool" where
  "reports_healthy b \<longleftrightarrow> (\<exists>s. bh_health b = Health s \<and> health_ok s)"

definition boot_outcome :: "behaviour \<Rightarrow> service_state" where
  "boot_outcome b = (if \<not> boots b then SS_FAILED else if reports_healthy b then SS_HEALTHY else SS_DEGRADED)"

definition hook_exn :: "hook \<Rightarrow> svc_exn option" where
  "hook_exn h = (case h of HookRaises e \<Rightarrow> Some e | _ \<Rightarrow> None)"

lemma hook_block_conv: "hook_block c h = (if h = NoHook then [] else [Call c], hook_exn h)"
  by (cases h) (simp_all add: hook_exn_def)

lemma hook_exn_None: "hook_exn h = None \<longleftrightarrow> \<not> raises h"
  by (cases h) (simp_all add: hook_exn_def)

definition orelse :: "svc_exn option \<Rightarrow> svc_exn option \<Rightarrow> svc_exn option" where
  "orelse a b = (case a of None \<Rightarrow> b | Some e \<Rightarrow> Some e)"

lemma seq_blocks_Cons: "seq_blocks ((as, e) # bs) = (as @ (if e = None then fst (seq_blocks bs) else []), orelse e (snd (seq_blocks bs)))"
  by (cases e) (simp_all add: orelse_def case_prod_beta)

lemma orelse_None [simp]: "orelse a b = None \<longleftrightarrow> a = None \<and> b = None"
  by (cases a) (simp_all add: orelse_def)

lemma wait_for_None [simp]: "wait_for c = None \<longleftrightarrow> c = Returns"
  by (cases c) simp_all

lemma boot_try_raises: "snd (boot_try i b) = None \<longleftrightarrow> boots b"
  by (auto simp: boot_try_def hook_block_conv seq_blocks_Cons hook_exn_None boots_def)

text \<open>What a list of actions does to the view: the last state entered, the marks, the calls.\<close>

definition marks :: "action \<Rightarrow> action list \<Rightarrow> nat" where
  "marks a as = count_list as a"

fun calls_of :: "action list \<Rightarrow> svc_call list" where
  "calls_of [] = []"
| "calls_of (Call c # as) = c # calls_of as"
| "calls_of (_ # as) = calls_of as"

fun final_state :: "service_state \<Rightarrow> action list \<Rightarrow> service_state" where
  "final_state st [] = st"
| "final_state st (Enter st' err # as) = final_state st' as"
| "final_state st (_ # as) = final_state st as"

lemma fold_view:
  "fold view_action as (Some st, d, f, cs) =
     (Some (final_state st as), d + marks MarkDone as, f + marks MarkFailed as, cs @ calls_of as)"
proof (induction as arbitrary: st d f cs)
  case (Cons a as)
  then show ?case by (cases a) (simp_all add: marks_def)
qed (simp add: marks_def)

lemma calls_of_append [simp]: "calls_of (as @ bs) = calls_of as @ calls_of bs"
proof (induction as)
  case (Cons a as)
  then show ?case by (cases a) simp_all
qed simp

lemma final_state_append [simp]: "final_state st (as @ bs) = final_state (final_state st as) bs"
proof (induction as arbitrary: st)
  case (Cons a as)
  then show ?case by (cases a) simp_all
qed simp

lemma marks_simps [simp]:
  "marks x [] = 0" "marks x (a # as) = (if a = x then Suc (marks x as) else marks x as)"
  "marks x (as @ bs) = marks x as + marks x bs"
  by (simp_all add: marks_def)

lemma boot_try_marks:
  "marks MarkFailed (fst (boot_try i b)) = 0" "marks MarkDone (fst (boot_try i b)) = (if boots b then 1 else 0)"
  by (simp_all add: boot_try_def hook_block_conv seq_blocks_Cons hook_exn_None boots_def health_actions_def
      split: health_answer.splits)

lemma boot_try_state: "boots b \<Longrightarrow> final_state st (fst (boot_try i b)) = (if reports_healthy b then SS_HEALTHY else SS_DEGRADED)"
  by (simp add: boot_try_def hook_block_conv seq_blocks_Cons hook_exn_None boots_def health_actions_def reports_healthy_def
      split: health_answer.splits)

lemma error_hook_quiet [simp]: "marks MarkDone (error_hook b) = 0" "marks MarkFailed (error_hook b) = 0" "final_state st (error_hook b) = st"
  by (simp_all add: error_hook_def hook_block_conv split: option.splits)

lemma boot_service_cases:
  "boots b \<Longrightarrow> boot_service i b = fst (boot_try i b)"
  "\<not> boots b \<Longrightarrow> \<exists>err x. boot_service i b = fst (boot_try i b) @ [Enter SS_FAILED (Some err), MarkFailed, AddError x] @ error_hook b"
  using boot_try_raises [of i b] by (auto simp: boot_service_def split: prod.splits option.splits svc_exn.splits)

lemma boot_service_view:
  "fold view_action (boot_service i b) (Some st, d, f, cs) =
     (Some (boot_outcome b), if boots b then d + 1 else d, if boots b then f else f + 1, cs @ calls_of (boot_service i b))"
proof (cases "boots b")
  case True
  then show ?thesis
    by (simp add: fold_view boot_service_cases(1) boot_try_marks boot_try_state boot_outcome_def)
next
  case False
  then obtain err x where "boot_service i b = fst (boot_try i b) @ [Enter SS_FAILED (Some err), MarkFailed, AddError x] @ error_hook b"
    using boot_service_cases(2) by blast
  then show ?thesis using False by (simp add: fold_view boot_try_marks boot_outcome_def)
qed

lemma length_boot_service: "length (boot_service i b) \<le> 15"
proof -
  have "length (fst (boot_try i b)) \<le> (if boots b then 11 else 10)"
    by (auto simp: boot_try_def hook_block_conv seq_blocks_Cons hook_exn_None boots_def health_actions_def
        split: health_answer.splits)
  moreover have "length (error_hook b) \<le> 2" by (simp add: error_hook_def hook_block_conv split: option.splits)
  ultimately show ?thesis
    using boot_service_cases [of b i] by (cases "boots b") auto
qed

subsection \<open>A phase under every schedule\<close>

lemma lm_okD: "lm_ok m \<Longrightarrow> (k, r) \<in> set (lm_records m) \<Longrightarrow> sr_id r = k \<and> dict_get (lm_records m) k = Some r"
  by (auto simp: lm_ok_def)

lemma mset_of_counts:
  assumes "distinct ys" "\<And>i. count_list xs i = (if i \<in> set ys \<and> P i then 1 else 0)"
  shows "mset xs = mset (filter P ys)"
  using assms distinct_count_atmost_1 [of "filter P ys"] by (intro multiset_eqI) (simp add: count_mset)

lemma phase_ids_mem:
  assumes "lm_ok m" shows "i \<in> set (phase_ids ph m) \<longleftrightarrow> (\<exists>r. dict_get (lm_records m) i = Some r \<and> sr_phase r = ph)"
proof -
  have "i \<in> set (phase_ids ph m) \<longleftrightarrow> (\<exists>k r. (k, r) \<in> set (lm_records m) \<and> sr_phase r = ph \<and> sr_id r = i)"
    unfolding phase_ids_def get_services_by_phase_def by force
  also have "\<dots> \<longleftrightarrow> (\<exists>r. (i, r) \<in> set (lm_records m) \<and> sr_phase r = ph)" using lm_okD [OF assms] by blast
  also have "\<dots> \<longleftrightarrow> (\<exists>r. dict_get (lm_records m) i = Some r \<and> sr_phase r = ph)"
    using assms by (auto simp: lm_ok_def map_of_eq_Some_iff)
  finally show ?thesis .
qed

lemma phase_ids_distinct: "lm_ok m \<Longrightarrow> distinct (phase_ids ph m)"
proof -
  assume ok: "lm_ok m"
  have e: "map (fst \<circ> snd) xs = map fst xs" if "\<forall>(k, i, p) \<in> set xs. i = k" for xs :: "(string \<times> string \<times> phase) list"
    using that by (induction xs) auto
  have "map (fst \<circ> snd) (filter (\<lambda>(k, i, p). p = ph) (skeleton m)) = map fst (filter (\<lambda>(k, i, p). p = ph) (skeleton m))"
    using ok by (intro e) (auto simp: lm_ok_skeleton)
  then show ?thesis using ok unfolding phase_ids_skeleton lm_ok_skeleton by (simp only: distinct_map_filter)
qed

lemma boot_tasks_keys: "dict_keys (boot_tasks beh (get_services_by_phase ph m)) = phase_ids ph m"
  by (simp add: boot_tasks_def phase_ids_def comp_def)

lemma boot_tasks_get:
  assumes "lm_ok m" shows "dict_get (boot_tasks beh (get_services_by_phase ph m)) i =
    (if i \<in> set (phase_ids ph m) then Some (boot_service i (beh i)) else None)"
proof -
  have "boot_tasks beh (get_services_by_phase ph m) = map (\<lambda>i. (i, boot_service i (beh i))) (phase_ids ph m)"
    by (simp add: boot_tasks_def phase_ids_def)
  then show ?thesis by (simp only: map_of_map_restrict restrict_map_def comp_def)
qed

lemma start_phase_returned:
  assumes "start_phase beh env ph m = Some (m', Inr r)" "get_services_by_phase ph m \<noteq> []"
  obtains tr rest a m1 where
    "interleave (en_schedule env) (boot_tasks beh (get_services_by_phase ph m)) = (tr, rest)" "finished rest"
    "fold (\<lambda>(i, t, act). exec_action i t act) tr (m\<lparr>lm_current_phase := Some ph\<rparr>, empty_tally) = (m1, a)"
    "r = tally_result ph ((en_end env - en_start env) * 1000) a"
    "lm_records m' = lm_records m1" "lm_calls m' = lm_calls m1"
    "lm_phase_results m' = dict_set (lm_phase_results m1) ph r"
    "lm_current_state m' = (if ph_success r then SS_HEALTHY else SS_DEGRADED)"
proof -
  obtain tr rest where i: "interleave (en_schedule env) (boot_tasks beh (get_services_by_phase ph m)) = (tr, rest)" by fastforce
  obtain m1 a where f: "fold (\<lambda>(i, t, act). exec_action i t act) tr (m\<lparr>lm_current_phase := Some ph\<rparr>, empty_tally) = (m1, a)"
    by fastforce
  show ?thesis
    using assms i f by (intro that [OF i _ f]) (auto simp: start_phase_def Let_def put_result_def tally_result_def split: option.splits if_splits)
qed

text \<open>What a returned phase did, seen from the service \<open>i\<close>.\<close>

definition phase_effect :: "(string \<Rightarrow> behaviour) \<Rightarrow> phase \<Rightarrow> lifecycle \<Rightarrow> lifecycle \<Rightarrow> phase_result \<Rightarrow> string \<Rightarrow> bool" where
  "phase_effect beh ph m m' r i \<longleftrightarrow>
     (if i \<in> set (phase_ids ph m)
      then (\<exists>rec'. dict_get (lm_records m') i = Some rec' \<and> sr_state rec' = boot_outcome (beh i)) \<and>
           map snd (filter (\<lambda>(j, _). j = i) (lm_calls m')) =
             map snd (filter (\<lambda>(j, _). j = i) (lm_calls m)) @ calls_of (boot_service i (beh i))
      else dict_get (lm_records m') i = dict_get (lm_records m) i) \<and>
     count_list (ph_started r) i = (if i \<in> set (phase_ids ph m) \<and> boots (beh i) then 1 else 0) \<and>
     count_list (ph_failed r) i = (if i \<in> set (phase_ids ph m) \<and> \<not> boots (beh i) then 1 else 0)"

lemma start_phase_effect:
  assumes ok: "lm_ok m" and s: "start_phase beh env ph m = Some (m', Inr r)"
  shows "phase_effect beh ph m m' r i"
proof (cases "get_services_by_phase ph m = []")
  case True
  then have "i \<notin> set (phase_ids ph m)" by (simp add: phase_ids_def)
  moreover have "m' = put_result r m" "r = tally_result ph 0 empty_tally"
    using s True by (auto simp: start_phase_def Let_def)
  ultimately show ?thesis by (simp add: phase_effect_def put_result_def tally_result_def empty_tally_def)
next
  case False
  then obtain tr rest a m1 where
    i: "interleave (en_schedule env) (boot_tasks beh (get_services_by_phase ph m)) = (tr, rest)" and fin: "finished rest"
    and f: "fold (\<lambda>(i, t, act). exec_action i t act) tr (m\<lparr>lm_current_phase := Some ph\<rparr>, empty_tally) = (m1, a)"
    and r: "r = tally_result ph ((en_end env - en_start env) * 1000) a"
    and m': "lm_records m' = lm_records m1" "lm_calls m' = lm_calls m1"
    using start_phase_returned [OF s] by metis
  let ?s0 = "(m\<lparr>lm_current_phase := Some ph\<rparr>, empty_tally)"
  have wf: "dict_wf (boot_tasks beh (get_services_by_phase ph m))"
    unfolding boot_tasks_keys by (rule phase_ids_distinct [OF ok])
  have keys: "i \<notin> fst ` set (boot_tasks beh (get_services_by_phase ph m))" if "i \<notin> set (phase_ids ph m)"
    using that boot_tasks_keys by (metis list.set_map)
  have own: "service_view i (m1, a) = fold view_action (boot_service i (beh i)) (service_view i ?s0)"
    if "i \<in> set (phase_ids ph m)"
    using boot.interleaved_view [OF wf i fin, of i] that f boot_tasks_get [OF ok] by metis
  have other: "service_view i (m1, a) = service_view i ?s0" "dict_get (lm_records m1) i = dict_get (lm_records m) i"
    if "i \<notin> set (phase_ids ph m)"
    using boot.interleaved_other [OF i keys [OF that], of ?s0] records.interleaved_other [OF i keys [OF that], of ?s0] f
    by simp_all
  show ?thesis
  proof (cases "i \<in> set (phase_ids ph m)")
    case True
    then obtain rec0 where "dict_get (lm_records m) i = Some rec0" "sr_phase rec0 = ph"
      using phase_ids_mem [OF ok] by blast
    with own [OF True] True show ?thesis
      by (auto simp: phase_effect_def service_view_def boot_service_view m' r tally_result_def empty_tally_def)
  next
    case False
    with other [OF False] show ?thesis
      by (simp add: phase_effect_def service_view_def m' r tally_result_def empty_tally_def)
  qed
qed

lemma start_phase_returns:
  assumes "lm_ok m" "\<forall>i \<in> set (phase_ids ph m). 15 \<le> count_list (map fst (en_schedule env)) i"
  shows "\<exists>m' r. start_phase beh env ph m = Some (m', r)"
proof -
  let ?ts = "boot_tasks beh (get_services_by_phase ph m)"
  have wf: "dict_wf ?ts" unfolding boot_tasks_keys by (rule phase_ids_distinct [OF assms(1)])
  have "finished (snd (interleave (en_schedule env) ?ts))"
    unfolding interleave_finished [OF wf] boot_tasks_get [OF assms(1)]
    using assms(2) length_boot_service by (metis option.distinct(1) option.inject order_trans)
  then show ?thesis
    by (auto simp: start_phase_def Let_def case_prod_beta split: option.splits)
qed

text \<open>An exception escapes only from an \<open>on_error\<close> hook that raises.\<close>

lemma boot_service_escape: "Escape e \<in> set (boot_service i b) \<Longrightarrow> \<not> boots b \<and> bh_on_error b = HookRaises e"
proof -
  have q: "Escape e \<notin> set (fst (boot_try i b))"
    by (auto simp: boot_try_def hook_block_conv seq_blocks_Cons health_actions_def split: health_answer.splits if_splits)
  have h: "Escape e \<in> set (error_hook b) \<Longrightarrow> bh_on_error b = HookRaises e"
    by (cases "bh_on_error b") (auto simp: error_hook_def)
  assume "Escape e \<in> set (boot_service i b)"
  then show ?thesis using q h boot_service_cases [of b i] by (cases "boots b") auto
qed

lemma trace_escape:
  "ta_escaped (snd (fold (\<lambda>(i, t, a). exec_action i t a) tr s)) = Some e \<Longrightarrow>
   ta_escaped (snd s) = Some e \<or> (\<exists>i t. (i, t, Escape e) \<in> set tr)"
proof (induction tr arbitrary: s)
  case (Cons x tr)
  obtain i t a where x: "x = (i, t, a)" by (cases x) auto
  have "ta_escaped (snd (exec_action i t a s)) = Some e \<Longrightarrow> ta_escaped (snd s) = Some e \<or> a = Escape e"
    by (cases a) (auto simp: exec_action_def split: if_splits)
  then show ?case using Cons.IH [of "exec_action i t a s"] Cons.prems by (auto simp: x)
qed simp

lemma proj_mem: "(i, t, a) \<in> set tr \<Longrightarrow> a \<in> set (proj i tr)"
  by (force simp: proj_def)

lemma start_phase_escape:
  assumes "lm_ok m" "start_phase beh env ph m = Some (m', Inl e)"
  shows "\<exists>i \<in> set (phase_ids ph m). \<not> boots (beh i) \<and> bh_on_error (beh i) = HookRaises e"
proof -
  let ?ts = "boot_tasks beh (get_services_by_phase ph m)"
  obtain tr rest where i: "interleave (en_schedule env) ?ts = (tr, rest)" by fastforce
  have "ta_escaped (snd (fold (\<lambda>(i, t, act). exec_action i t act) tr (m\<lparr>lm_current_phase := Some ph\<rparr>, empty_tally))) = Some e"
    using assms(2) i by (auto simp: start_phase_def Let_def case_prod_beta split: if_splits option.splits)
  from trace_escape [OF this] obtain k t where k: "(k, t, Escape e) \<in> set tr" by (auto simp: empty_tally_def)
  have "k \<in> set (phase_ids ph m)"
    using interleave_keys [OF i k] boot_tasks_keys [of beh ph m] by (metis list.set_map)
  then have "dict_get ?ts k = Some (boot_service k (beh k))" by (simp add: boot_tasks_get [OF assms(1)])
  then have "Escape e \<in> set (boot_service k (beh k))"
    using interleave_proj [OF _ i] proj_mem [OF k] by (metis UnI1 set_append)
  then show ?thesis using boot_service_escape \<open>k \<in> set (phase_ids ph m)\<close> by blast
qed

subsection \<open>Shutdown\<close>

definition stop_exn :: "behaviour \<Rightarrow> svc_exn option" where
  "stop_exn b = orelse (hook_exn (bh_before_stop b)) (orelse (wait_for (bh_stop b)) (orelse (wait_for (bh_dispose b)) (hook_exn (bh_after_stop b))))"

definition stop_outcome :: "behaviour \<Rightarrow> service_state" where
  "stop_outcome b = (case stop_exn b of Some (Raised x) \<Rightarrow> SS_FAILED | _ \<Rightarrow> SS_DISPOSED)"

lemma orelse_simps [simp]: "orelse None b = b" "orelse a None = a"
  by (simp_all add: orelse_def split: option.splits)

lemma stop_try_exn: "snd (stop_try b) = stop_exn b"
  by (simp add: stop_try_def hook_block_conv seq_blocks_Cons stop_exn_def)

lemma stop_try_done: "stop_exn b = None \<Longrightarrow> final_state st (fst (stop_try b)) = SS_DISPOSED"
  by (simp add: stop_try_def hook_block_conv seq_blocks_Cons stop_exn_def)

lemma stop_service_state: "final_state st (stop_service i b) = stop_outcome b"
  using stop_try_exn [of b] stop_try_done [of b st]
  by (auto simp: stop_service_def stop_outcome_def split: prod.splits option.splits svc_exn.splits)

text \<open>Which of the two calls of a shutdown a service receives.\<close>

primrec receives :: "svc_call \<Rightarrow> behaviour \<Rightarrow> bool" where
  "receives Stop b = (\<not> raises (bh_before_stop b))"
| "receives Dispose b = (\<not> raises (bh_before_stop b) \<and> bh_stop b = Returns)"

lemma stop_service_calls:
  assumes "c \<in> {Stop, Dispose}"
  shows "filter (\<lambda>x. x = c) (calls_of (stop_service i b)) = (if receives c b then [c] else [])"
proof -
  have "filter (\<lambda>x. x = c) (calls_of (fst (stop_try b))) = (if receives c b then [c] else [])"
    using assms by (auto simp: stop_try_def hook_block_conv seq_blocks_Cons hook_exn_None)
  then show ?thesis by (auto simp: stop_service_def split: prod.splits option.splits svc_exn.splits)
qed

text \<open>The calls that a run of actions appends, in order.\<close>

lemma exec_calls: "lm_calls (fst (fold (exec_action i t) as s)) = lm_calls (fst s) @ map (Pair i) (calls_of as)"
proof (induction as arbitrary: s)
  case (Cons a as)
  then show ?case by (cases a) (simp_all add: exec_action_def)
qed simp

lemma stop_one_get:
  "dict_get (lm_records (fst (stop_one beh t r s))) j =
     (if j = sr_id r then dict_get (lm_records (fst (stop_one beh t r s))) j else dict_get (lm_records (fst s)) j)"
proof -
  have "j \<noteq> i \<Longrightarrow> dict_get (lm_records (fst (fold (exec_action i t) as s))) j = dict_get (lm_records (fst s)) j" for i as
    by (induction as arbitrary: s) (simp_all add: records.exec_other)
  then show ?thesis by (simp add: stop_one_def)
qed

lemma stop_one_state:
  "dict_get (lm_records (fst s)) (sr_id r) = Some rec \<Longrightarrow>
   \<exists>rec'. dict_get (lm_records (fst (stop_one beh t r s))) (sr_id r) = Some rec' \<and> sr_state rec' = stop_outcome (beh (sr_id r))"
  using boot.sequential_view [of "sr_id r" t "stop_service (sr_id r) (beh (sr_id r))" s]
  by (auto simp: stop_one_def service_view_def fold_view stop_service_state)

definition stop_calls :: "(string \<Rightarrow> behaviour) \<Rightarrow> string list \<Rightarrow> (string \<times> svc_call) list" where
  "stop_calls beh is = concat (map (\<lambda>i. map (Pair i) (calls_of (stop_service i (beh i)))) is)"

lemma stop_many:
  assumes "distinct (map sr_id rs)" "\<forall>r \<in> set rs. dict_get (lm_records (fst s)) (sr_id r) \<noteq> None"
  shows "(\<forall>i. (i \<in> sr_id ` set rs \<longrightarrow>
            (\<exists>rec'. dict_get (lm_records (fst (fold (stop_one beh t) rs s))) i = Some rec' \<and> sr_state rec' = stop_outcome (beh i))) \<and>
          (i \<notin> sr_id ` set rs \<longrightarrow>
             dict_get (lm_records (fst (fold (stop_one beh t) rs s))) i = dict_get (lm_records (fst s)) i)) \<and>
         lm_calls (fst (fold (stop_one beh t) rs s)) = lm_calls (fst s) @ stop_calls beh (map sr_id rs)"
  using assms
proof (induction rs arbitrary: s)
  case (Cons r rs)
  let ?s = "stop_one beh t r s"
  have o: "dict_get (lm_records (fst ?s)) j = dict_get (lm_records (fst s)) j" if "j \<noteq> sr_id r" for j
    using stop_one_get [of beh t r s j] that by simp
  obtain rec where "dict_get (lm_records (fst s)) (sr_id r) = Some rec" using Cons.prems(2) by auto
  note own = stop_one_state [OF this, of beh t]
  have prem: "distinct (map sr_id rs)" "\<forall>r' \<in> set rs. dict_get (lm_records (fst ?s)) (sr_id r') \<noteq> None"
  proof -
    have "sr_id r' \<noteq> sr_id r" if "r' \<in> set rs" for r'
      using Cons.prems(1) imageI [OF that, of sr_id] by auto
    then show "\<forall>r' \<in> set rs. dict_get (lm_records (fst ?s)) (sr_id r') \<noteq> None" using Cons.prems(2) o by simp
  qed (use Cons.prems(1) in simp)
  have c: "lm_calls (fst ?s) = lm_calls (fst s) @ map (Pair (sr_id r)) (calls_of (stop_service (sr_id r) (beh (sr_id r))))"
    by (simp add: stop_one_def exec_calls)
  from Cons.IH [OF prem] own Cons.prems(1) o show ?case by (auto simp: stop_calls_def c)
qed (simp add: stop_calls_def)

lemma stop_phase_effect:
  assumes ok: "lm_ok m" and s: "stop_phase beh t0 t1 ph m = (m', r)"
  shows "(\<forall>i. (i \<in> set (phase_ids ph m) \<longrightarrow>
            (\<exists>rec'. dict_get (lm_records m') i = Some rec' \<and> sr_state rec' = stop_outcome (beh i))) \<and>
          (i \<notin> set (phase_ids ph m) \<longrightarrow> dict_get (lm_records m') i = dict_get (lm_records m) i)) \<and>
         lm_calls m' = lm_calls m @ stop_calls beh (rev (phase_ids ph m)) \<and> lm_running m' = lm_running m"
proof (cases "get_services_by_phase ph m = []")
  case True
  then show ?thesis using s by (auto simp: stop_phase_def Let_def put_result_def phase_ids_def stop_calls_def)
next
  case False
  let ?rs = "rev (get_services_by_phase ph m)"
  obtain m1 a where f: "fold (stop_one beh t1) ?rs (m, empty_tally) = (m1, a)" by fastforce
  have m': "lm_records m' = lm_records m1" "lm_calls m' = lm_calls m1" "lm_running m' = lm_running m1"
    using s False f by (auto simp: stop_phase_def Let_def put_result_def)
  have d: "distinct (map sr_id ?rs)"
    using phase_ids_distinct [OF ok, of ph] by (simp add: phase_ids_def rev_map [symmetric])
  have "\<forall>r \<in> set ?rs. dict_get (lm_records m) (sr_id r) \<noteq> None"
  proof
    fix r assume "r \<in> set ?rs"
    then have "sr_id r \<in> set (phase_ids ph m)" by (simp add: phase_ids_def)
    then show "dict_get (lm_records m) (sr_id r) \<noteq> None" using phase_ids_mem [OF ok] by auto
  qed
  moreover have run: "lm_running (fst (fold (stop_one beh t1) rs st)) = lm_running (fst st)" for rs st
  proof -
    have a: "lm_running (fst (exec_action i t a st)) = lm_running (fst st)" for i t a st
      by (cases a) (simp_all add: exec_action_def call_service_def)
    have "lm_running (fst (fold (exec_action i t) as st)) = lm_running (fst st)" for i t as st
      by (induction as arbitrary: st) (simp_all add: a)
    then show ?thesis by (induction rs arbitrary: st) (simp_all add: stop_one_def)
  qed
  ultimately show ?thesis
    using stop_many [OF d, of "(m, empty_tally)" beh t1] f run [of ?rs "(m, empty_tally)"]
    by (simp add: m' phase_ids_def rev_map)
qed

text \<open>The phases in turn: each one leaves the outcome of the earlier ones alone.\<close>

definition stop_fold :: "(string \<Rightarrow> behaviour) \<Rightarrow> real \<Rightarrow> real \<Rightarrow> phase list \<Rightarrow> lifecycle \<times> phase_result list \<Rightarrow> lifecycle \<times> phase_result list" where
  "stop_fold beh t0 t1 phs s = fold (\<lambda>ph (m, rs). let (m, r) = stop_phase beh t0 t1 ph m in (m, rs @ [r])) phs s"

lemma phase_ids_cong: "skeleton m = skeleton m' \<Longrightarrow> phase_ids ph m = phase_ids ph m'"
  by (simp add: phase_ids_skeleton)

lemma lm_ok_cong: "skeleton m = skeleton m' \<Longrightarrow> lm_ok m = lm_ok m'"
  by (simp add: lm_ok_skeleton)

lemma stop_fold_effect:
  assumes "lm_ok m" "distinct phs" "stop_fold beh t0 t1 phs (m, rs) = (m', rs')"
  shows "skeleton m' = skeleton m \<and> lm_running m' = lm_running m \<and>
         lm_calls m' = lm_calls m @ concat (map (\<lambda>ph. stop_calls beh (rev (phase_ids ph m))) phs) \<and>
         map ph_phase rs' = map ph_phase rs @ phs \<and>
         (\<forall>i. (\<forall>ph \<in> set phs. i \<notin> set (phase_ids ph m)) \<longrightarrow> dict_get (lm_records m') i = dict_get (lm_records m) i) \<and>
         (\<forall>ph \<in> set phs. \<forall>i \<in> set (phase_ids ph m).
            \<exists>rec'. dict_get (lm_records m') i = Some rec' \<and> sr_state rec' = stop_outcome (beh i))"
  using assms
proof (induction phs arbitrary: m rs)
  case (Cons ph phs)
  obtain m1 r where s: "stop_phase beh t0 t1 ph m = (m1, r)" by fastforce
  have sk: "skeleton m1 = skeleton m" using skeleton_stop_phase [of beh t0 t1 ph m] s by simp
  have ok: "lm_ok m1" using Cons.prems(1) lm_ok_cong [OF sk] by simp
  have ids: "phase_ids p m1 = phase_ids p m" for p by (rule phase_ids_cong [OF sk])
  have ph: "ph_phase r = ph" using s by (auto simp: stop_phase_def Let_def tally_result_def split: if_splits prod.splits)
  have rest: "stop_fold beh t0 t1 phs (m1, rs @ [r]) = (m', rs')" using Cons.prems(3) s by (simp add: stop_fold_def)
  have other: "i \<notin> set (phase_ids p m)" if "i \<in> set (phase_ids ph m)" "p \<in> set phs" for i p
    using that Cons.prems(2) phase_ids_mem [OF Cons.prems(1)] by fastforce
  note e = stop_phase_effect [OF Cons.prems(1) s]
  from Cons.IH [OF ok _ rest] Cons.prems(2) e other show ?case by (simp add: sk ids ph)
qed (auto simp: stop_fold_def)

lemma stop_effect:
  assumes "lm_ok m" "stop beh t0 t1 m = (m', rs)"
  shows "skeleton m' = skeleton m \<and> \<not> lm_running m' \<and> lm_current_state m' = SS_STOPPED \<and>
         lm_calls m' = lm_calls m @ concat (map (\<lambda>ph. stop_calls beh (rev (phase_ids ph m))) PHASE_REVERSE) \<and>
         map ph_phase rs = PHASE_REVERSE \<and>
         (\<forall>i r. dict_get (lm_records m) i = Some r \<longrightarrow>
            (\<exists>r'. dict_get (lm_records m') i = Some r' \<and> sr_state r' = stop_outcome (beh i)))"
proof -
  let ?m = "m\<lparr>lm_running := False, lm_current_state := SS_STOPPING\<rparr>"
  have sk: "skeleton ?m = skeleton m" by (simp add: skeleton_def)
  obtain m1 where f: "stop_fold beh t0 t1 PHASE_REVERSE (?m, []) = (m1, rs)"
    and m': "m' = m1\<lparr>lm_current_state := SS_STOPPED, lm_current_phase := None\<rparr>"
    using assms(2) unfolding stop_def stop_fold_def by (auto simp: Let_def split: prod.splits)
  have ok: "lm_ok ?m" using assms(1) lm_ok_cong [OF sk] by simp
  have "distinct PHASE_REVERSE" by (simp add: PHASE_REVERSE_def PHASE_ORDER_def)
  note e = stop_fold_effect [OF ok this f]
  have all: "p \<in> set PHASE_REVERSE" for p by (cases p) (simp_all add: PHASE_REVERSE_def PHASE_ORDER_def)
  have ids: "phase_ids p ?m = phase_ids p m" for p by (rule phase_ids_cong [OF sk])
  have "\<exists>r'. dict_get (lm_records m1) i = Some r' \<and> sr_state r' = stop_outcome (beh i)"
    if "dict_get (lm_records m) i = Some r" for i r
    using e all [of "sr_phase r"] phase_ids_mem [OF assms(1), of i "sr_phase r"] that by (auto simp: ids)
  then show ?thesis using e sk by (simp add: m' ids skeleton_def)
qed

subsection \<open>Startup of all phases\<close>

lemma start_phase_phase: "start_phase beh env ph m = Some (m', Inr r) \<Longrightarrow> ph_phase r = ph"
  by (auto simp: start_phase_def Let_def tally_result_def case_prod_beta split: if_splits option.splits)

lemma skeleton_keys: "fst ` set (skeleton m) = fst ` set (lm_records m)"
  by (force simp: skeleton_def)

lemma skeleton_get: "skeleton m' = skeleton m \<Longrightarrow> dict_get (lm_records m') i = None \<longleftrightarrow> dict_get (lm_records m) i = None"
  using skeleton_keys [of m] skeleton_keys [of m'] by (simp add: map_of_eq_None_iff)

lemma start_loop_effect:
  assumes "lm_ok m" "start_loop beh sof ts phs envs rs m = Some (m', Inr rs')"
  shows "skeleton m' = skeleton m \<and>
    (\<exists>new. rs' = rs @ new \<and> map ph_phase new = take (length new) phs \<and>
      (if sof \<and> \<not> list_all ph_success new
       then list_all ph_success (butlast new) \<and> \<not> lm_running m' \<and> lm_current_state m' = SS_STOPPED \<and>
            (\<forall>i r. dict_get (lm_records m') i = Some r \<longrightarrow> sr_state r = stop_outcome (beh i))
       else length new = length phs \<and> lm_running m' \<and> lm_current_state m' = SS_HEALTHY))"
  using assms
proof (induction beh sof ts phs envs rs m rule: start_loop.induct)
  case (3 beh sof ts ph phs env envs rs m)
  from "3.prems"(2) obtain m1 r where s: "start_phase beh env ph m = Some (m1, Inr r)"
    by (auto split: option.splits sum.splits)
  have sk: "skeleton m1 = skeleton m" by (rule skeleton_start_phase [OF s])
  have ok: "lm_ok m1" using "3.prems"(1) lm_ok_cong [OF sk] by simp
  note ph = start_phase_phase [OF s]
  show ?case
  proof (cases "\<not> ph_success r \<and> sof")
    case True
    obtain m2 x where st: "stop beh (fst ts) (snd ts) m1 = (m2, x)" by fastforce
    note e = stop_effect [OF ok st]
    have m': "m' = m2\<lparr>lm_running := False\<rparr>" "rs' = rs @ [r]" using "3.prems"(2) s st True by auto
    have "sr_state r' = stop_outcome (beh i)" if g: "dict_get (lm_records m2) i = Some r'" for i r'
    proof -
      have "dict_get (lm_records m1) i \<noteq> None" using skeleton_get [of m2 m1 i] e g by auto
      then obtain r1 where "dict_get (lm_records m1) i = Some r1" by blast
      then show ?thesis using e g by fastforce
    qed
    then show ?thesis using True e sk ph unfolding m' by (intro conjI exI [of _ "[r]"]) simp_all
  next
    case False
    then have l: "start_loop beh sof ts phs envs (rs @ [r]) m1 = Some (m', Inr rs')" using "3.prems"(2) s by auto
    obtain new where n: "rs' = (rs @ [r]) @ new" "map ph_phase new = take (length new) phs"
      "if sof \<and> \<not> list_all ph_success new
       then list_all ph_success (butlast new) \<and> \<not> lm_running m' \<and> lm_current_state m' = SS_STOPPED \<and>
            (\<forall>i r. dict_get (lm_records m') i = Some r \<longrightarrow> sr_state r = stop_outcome (beh i))
       else length new = length phs \<and> lm_running m' \<and> lm_current_state m' = SS_HEALTHY" and sk': "skeleton m' = skeleton m1"
      using "3.IH" [OF s refl refl False ok l] by blast
    show ?thesis using n sk sk' ph False by (intro conjI exI [of _ "r # new"]) (auto split: if_splits)
  qed
qed (auto simp: skeleton_def)

subsection \<open>The machine of all operations\<close>

inductive lm_step :: "lifecycle \<Rightarrow> lifecycle \<Rightarrow> bool" where
  ls_register: "lm_step m (fst (register_service i ph key m))"
| ls_start_phase: "start_phase beh env ph m = Some (m', r) \<Longrightarrow> lm_step m m'"
| ls_start_all: "start_all beh ts envs phs sof m = Some (m', r) \<Longrightarrow> lm_step m m'"
| ls_stop_phase: "stop_phase beh t0 t1 ph m = (m', r) \<Longrightarrow> lm_step m m'"
| ls_stop: "stop beh t0 t1 m = (m', rs) \<Longrightarrow> lm_step m m'"
| ls_failure: "lm_step m (fst (on_service_failure b now i err m))"

lemma skeleton_stop_fold: "skeleton (fst (stop_fold beh t0 t1 phs s)) = skeleton (fst s)"
  unfolding stop_fold_def by (induction phs arbitrary: s) (simp_all add: case_prod_beta)

lemma skeleton_stop: "skeleton (fst (stop beh t0 t1 m)) = skeleton m"
  using skeleton_stop_fold [of beh t0 t1 PHASE_REVERSE "(m\<lparr>lm_running := False, lm_current_state := SS_STOPPING\<rparr>, [])"]
  unfolding stop_def stop_fold_def by (simp add: Let_def case_prod_beta skeleton_def)

lemma skeleton_start_loop:
  "start_loop beh sof ts phs envs rs m = Some (m', r) \<Longrightarrow> skeleton m' = skeleton m"
proof (induction beh sof ts phs envs rs m rule: start_loop.induct)
  case (3 beh sof ts ph phs env envs rs m)
  obtain m1 x where s: "start_phase beh env ph m = Some (m1, x)"
    using "3.prems" by (auto split: option.splits)
  note sk = skeleton_start_phase [OF s]
  show ?case
  proof (cases x)
    case (Inl e)
    then show ?thesis using "3.prems" s sk by simp
  next
    case (Inr res)
    then show ?thesis
      using "3.prems" "3.IH" [OF s refl Inr] s sk skeleton_stop [of beh "fst ts" "snd ts" m1]
      by (auto simp: Let_def case_prod_beta split: if_splits)
  qed
qed (auto simp: skeleton_def)

lemma skeleton_count_failure [simp]: "skeleton (count_failure i m) = skeleton m"
  by (auto simp: skeleton_def count_failure_def)

lemma skeleton_failure: "skeleton (fst (on_service_failure b now i err m)) = skeleton m"
  by (simp add: on_service_failure_def Let_def split: repair_answer.splits service_call.splits bool.splits)

lemma register_ok: "lm_ok m \<Longrightarrow> lm_ok (fst (register_service i ph key m))"
  using set_dict_set_subset unfolding lm_ok_def register_service_def Let_def by fastforce

interpretation lm_machine: invariant_machine "\<lambda>m. \<exists>b. m = lm_init b" lm_step lm_ok
proof unfold_locales
  show "lm_ok m" if "\<exists>b. m = lm_init b" for m using that by (auto simp: lm_init_def lm_ok_def)
  show "lm_ok m'" if ok: "lm_ok m" and "lm_step m m'" for m m'
    using that(2)
  proof (cases rule: lm_step.cases)
    case (ls_register i ph key)
    then show ?thesis using register_ok [OF ok] by simp
  next
    case (ls_start_phase beh env ph r)
    then show ?thesis using ok lm_ok_cong [OF skeleton_start_phase] by blast
  next
    case (ls_start_all beh ts envs phs sof r)
    then have "skeleton m' = skeleton m"
      unfolding start_all_def Let_def by (auto dest!: skeleton_start_loop)
    then show ?thesis using ok lm_ok_cong by blast
  next
    case (ls_stop_phase beh t0 t1 ph r)
    then show ?thesis using ok lm_ok_cong skeleton_stop_phase [of beh t0 t1 ph m] by (metis fst_conv)
  next
    case (ls_stop beh t0 t1 rs)
    then show ?thesis using ok lm_ok_cong skeleton_stop [of beh t0 t1 m] by (metis fst_conv)
  next
    case (ls_failure b now i err)
    then show ?thesis using ok lm_ok_cong [OF skeleton_failure] by blast
  qed
qed

subsection \<open>Properties\<close>

text \<open>C14: However the event loop interleaves the boot tasks of a phase, once \<open>start_phase\<close> has returned
  every service of the phase is in the state its own behaviour determines (failed if a hook,
  \<open>initialize\<close> or \<open>start\<close> raised or timed out, else healthy or degraded by its health check), its calls were
  made in the order of the code, the other services are untouched, and the result lists every service
  exactly once, as started or as failed.\<close>

theorem phase_outcome_independent_of_schedule:
  assumes "reach (\<lambda>m. \<exists>b. m = lm_init b) lm_step m" "start_phase beh env ph m = Some (m', Inr r)"
  shows "(\<forall>i rec. get_service i m = Some rec \<longrightarrow>
            (if sr_phase rec = ph
             then (\<exists>rec'. get_service i m' = Some rec' \<and> sr_state rec' = boot_outcome (beh i)) \<and>
                  map snd (filter (\<lambda>(j, _). j = i) (lm_calls m')) =
                    map snd (filter (\<lambda>(j, _). j = i) (lm_calls m)) @ calls_of (boot_service i (beh i))
             else get_service i m' = Some rec)) \<and>
         mset (ph_started r) = mset (filter (\<lambda>i. boots (beh i)) (map sr_id (get_services_by_phase ph m))) \<and>
         mset (ph_failed r) = mset (filter (\<lambda>i. \<not> boots (beh i)) (map sr_id (get_services_by_phase ph m)))"
proof -
  note ok = lm_machine.reach_inv [OF assms(1)]
  note e = start_phase_effect [OF ok assms(2), unfolded phase_effect_def]
  note c = mset_of_counts [OF phase_ids_distinct [OF ok, of ph]]
  have "mset (ph_started r) = mset (filter (\<lambda>i. boots (beh i)) (phase_ids ph m))" using e by (intro c) simp
  moreover have "mset (ph_failed r) = mset (filter (\<lambda>i. \<not> boots (beh i)) (phase_ids ph m))" using e by (intro c) simp
  moreover have "if sr_phase rec = ph
             then (\<exists>rec'. get_service i m' = Some rec' \<and> sr_state rec' = boot_outcome (beh i)) \<and>
                  map snd (filter (\<lambda>(j, _). j = i) (lm_calls m')) =
                    map snd (filter (\<lambda>(j, _). j = i) (lm_calls m)) @ calls_of (boot_service i (beh i))
             else get_service i m' = Some rec" if g: "get_service i m = Some rec" for i rec
    using e [of i] phase_ids_mem [OF ok, of i ph] g by (auto simp: get_service_def split: if_splits)
  ultimately show ?thesis unfolding phase_ids_def by blast
qed

lemma filter_stop_calls:
  assumes "c \<in> {Stop, Dispose}"
  shows "filter (\<lambda>(i, x). x = c) (stop_calls beh is) = map (\<lambda>i. (i, c)) (filter (\<lambda>i. receives c (beh i)) is)"
proof (induction "is")
  case (Cons i "is")
  have "filter (\<lambda>(i, x). x = c) (map (Pair i) cs) = map (Pair i) (filter (\<lambda>x. x = c) cs)" for cs
    by (simp add: filter_map comp_def)
  then show ?case using Cons stop_service_calls [OF assms, of i "beh i"] by (simp add: stop_calls_def)
qed (simp add: stop_calls_def)

text \<open>C16: \<open>stop\<close> always completes and goes through every registered service, phase by phase in reverse
  order and within a phase in reverse order of registration. In this order, the services whose
  \<open>before_stop\<close> hook does not raise, and only they, are told to stop, and of them those that stop in
  time and without raising are disposed. Every service is recorded as failed when the first thing
  that went wrong was an exception other than a time-out, and as disposed otherwise: a service
  whose hook raised is recorded as failed or, for a \<open>TimeoutError\<close>, as disposed, and was not even
  told to stop.\<close>

theorem stop_calls_and_outcomes:
  assumes "reach (\<lambda>m. \<exists>b. m = lm_init b) lm_step m" "stop beh t0 t1 m = (m', rs)"
    and "order = concat (map (\<lambda>ph. rev (map sr_id (get_services_by_phase ph m))) PHASE_REVERSE)"
  shows "(\<forall>i rec. get_service i m = Some rec \<longrightarrow> i \<in> set order \<and>
            (\<exists>rec'. get_service i m' = Some rec' \<and> sr_state rec' = stop_outcome (beh i))) \<and>
         (\<exists>new. lm_calls m' = lm_calls m @ new \<and>
            filter (\<lambda>(i, c). c = Stop) new =
              map (\<lambda>i. (i, Stop)) (filter (\<lambda>i. \<forall>e. bh_before_stop (beh i) \<noteq> HookRaises e) order) \<and>
            filter (\<lambda>(i, c). c = Dispose) new =
              map (\<lambda>i. (i, Dispose))
                (filter (\<lambda>i. (\<forall>e. bh_before_stop (beh i) \<noteq> HookRaises e) \<and> bh_stop (beh i) = Returns) order)) \<and>
         (\<forall>i e. bh_before_stop (beh i) = HookRaises e \<longrightarrow>
            stop_outcome (beh i) = (if e = TimedOut then SS_DISPOSED else SS_FAILED)) \<and>
         \<not> is_running m' \<and> lm_current_state m' = SS_STOPPED"
proof -
  note ok = lm_machine.reach_inv [OF assms(1)]
  note e = stop_effect [OF ok assms(2)]
  have calls: "filter (\<lambda>(i, x). x = c) (concat (map (\<lambda>ph. stop_calls beh (rev (phase_ids ph m))) phs)) =
      map (\<lambda>i. (i, c)) (filter (\<lambda>i. receives c (beh i)) (concat (map (\<lambda>ph. rev (phase_ids ph m)) phs)))"
    if "c \<in> {Stop, Dispose}" for c phs
    by (induction phs) (simp_all add: filter_stop_calls [OF that])
  have all: "i \<in> set order" if "get_service i m = Some rec" for i rec
  proof -
    have "i \<in> set (phase_ids (sr_phase rec) m)"
      using phase_ids_mem [OF ok, of i "sr_phase rec"] that by (auto simp: get_service_def)
    moreover have "sr_phase rec \<in> set PHASE_REVERSE"
      by (cases "sr_phase rec") (simp_all add: PHASE_REVERSE_def PHASE_ORDER_def)
    ultimately show ?thesis by (auto simp: assms(3) phase_ids_def)
  qed
  have hook: "stop_outcome (beh i) = (if e = TimedOut then SS_DISPOSED else SS_FAILED)"
    if "bh_before_stop (beh i) = HookRaises e" for i e
    using that by (cases e) (simp_all add: stop_outcome_def stop_exn_def hook_exn_def orelse_def)
  obtain new where new: "lm_calls m' = lm_calls m @ new"
      "new = concat (map (\<lambda>ph. stop_calls beh (rev (phase_ids ph m))) PHASE_REVERSE)"
    using e by blast
  have "filter (\<lambda>(i, c). c = Stop) new =
      map (\<lambda>i. (i, Stop)) (filter (\<lambda>i. \<forall>e. bh_before_stop (beh i) \<noteq> HookRaises e) order)"
    using calls [of Stop PHASE_REVERSE] by (simp add: new(2) assms(3) phase_ids_def raises_def)
  moreover have "filter (\<lambda>(i, c). c = Dispose) new =
      map (\<lambda>i. (i, Dispose))
        (filter (\<lambda>i. (\<forall>e. bh_before_stop (beh i) \<noteq> HookRaises e) \<and> bh_stop (beh i) = Returns) order)"
    using calls [of Dispose PHASE_REVERSE] by (simp add: new(2) assms(3) phase_ids_def raises_def)
  ultimately show ?thesis using e all hook new(1) by (auto simp: get_service_def is_running_def)
qed

text \<open>C15: With \<open>stop_on_failure\<close>, startup is gated: the phases are started in order up to the first one that
  fails, and then everything is stopped; without failure, or without \<open>stop_on_failure\<close>, all phases are
  started and the manager reports itself running and healthy, even when services have failed.\<close>

theorem start_all_gates_phases:
  assumes "reach (\<lambda>m. \<exists>b. m = lm_init b) lm_step m" "start_all beh ts envs None sof m = Some (m', Inr rs)"
  shows "map ph_phase rs = take (length rs) PHASE_ORDER \<and>
         (if sof \<and> \<not> list_all ph_success rs
          then list_all ph_success (butlast rs) \<and> \<not> is_running m' \<and> lm_current_state m' = SS_STOPPED \<and>
               (\<forall>i rec. get_service i m' = Some rec \<longrightarrow> sr_state rec = stop_outcome (beh i))
          else length rs = 6 \<and> lm_running m' \<and> lm_current_state m' = SS_HEALTHY)"
proof -
  have ok: "lm_ok (m\<lparr>lm_running := True\<rparr>)"
    using lm_machine.reach_inv [OF assms(1)] by (simp add: lm_ok_def)
  have "start_loop beh sof ts PHASE_ORDER envs [] (m\<lparr>lm_running := True\<rparr>) = Some (m', Inr rs)"
    using assms(2) by (simp add: start_all_def)
  from start_loop_effect [OF ok this] show ?thesis
    by (auto simp: is_running_def get_service_def PHASE_ORDER_def split: if_splits)
qed

subsection \<open>Witnesses\<close>

definition demo_behaviour :: behaviour where
  "demo_behaviour =
     \<lparr>bh_before_start = NoHook, bh_after_start = NoHook, bh_before_stop = NoHook, bh_after_stop = NoHook, bh_on_error = NoHook,
      bh_initialize = Returns, bh_start = Raises (Raised ''no port''), bh_health = Health (Some ''ok''), bh_stop = Returns,
      bh_dispose = Returns, bh_repair = Repaired False, bh_restart = Returns\<rparr>"

definition demo_manager :: lifecycle where
  "demo_manager = fst (register_service ''db'' CORE ''k'' (lm_init True))"

definition demo_env :: run_env where
  "demo_env = \<lparr>en_start = 0, en_end = 1, en_schedule = replicate 15 (''db'', 0)\<rparr>"

lemma demo_manager_reach: "reach (\<lambda>m. \<exists>b. m = lm_init b) lm_step demo_manager"
proof -
  have "reach (\<lambda>m. \<exists>b. m = lm_init b) lm_step (lm_init True)" by (rule reach_init) blast
  then show ?thesis unfolding demo_manager_def by (rule reach_step) (rule ls_register)
qed

lemma demo_services: "map sr_id (get_services_by_phase ph demo_manager) = (if ph = CORE then [''db''] else [])"
  by (simp add: demo_manager_def register_service_def lm_init_def get_services_by_phase_def Let_def)

lemma demo_quiet: "\<not> boots demo_behaviour" "bh_on_error demo_behaviour = NoHook"
  by (simp_all add: demo_behaviour_def boots_def)

lemma demo_start_all:
  "case start_all (\<lambda>_. demo_behaviour) (0, 1) (replicate 6 demo_env) None True demo_manager of
     Some (m, Inr rs) \<Rightarrow> \<not> list_all ph_success rs
   | _ \<Rightarrow> False"
  by code_simp

theorem phase_outcome_independent_of_schedule_witness:
  "\<exists>m' r. start_phase (\<lambda>_. demo_behaviour) demo_env CORE demo_manager = Some (m', Inr r) \<and> mset (ph_failed r) = {#''db''#}"
proof -
  have "\<forall>i \<in> set (phase_ids CORE demo_manager). 15 \<le> count_list (map fst (en_schedule demo_env)) i"
    unfolding phase_ids_def demo_services by (simp add: demo_env_def numeral_eq_Suc)
  then obtain m' r0 where "start_phase (\<lambda>_. demo_behaviour) demo_env CORE demo_manager = Some (m', r0)"
    using start_phase_returns [OF lm_machine.reach_inv [OF demo_manager_reach]] by blast
  moreover have "\<nexists>e. r0 = Inl e"
    using start_phase_escape [OF lm_machine.reach_inv [OF demo_manager_reach]] calculation demo_quiet(2) by force
  ultimately obtain r where s: "start_phase (\<lambda>_. demo_behaviour) demo_env CORE demo_manager = Some (m', Inr r)"
    by (metis sum.exhaust)
  from phase_outcome_independent_of_schedule [OF demo_manager_reach s] s show ?thesis
    unfolding demo_services by (auto simp: demo_quiet)
qed

theorem stop_calls_and_outcomes_witness:
  "\<exists>m' rs rec. stop (\<lambda>_. demo_behaviour) 0 1 demo_manager = (m', rs) \<and> (''db'', Dispose) \<in> set (lm_calls m') \<and>
     get_service ''db'' m' = Some rec \<and> sr_state rec = SS_DISPOSED"
proof -
  obtain m' rs where s: "stop (\<lambda>_. demo_behaviour) 0 1 demo_manager = (m', rs)" by fastforce
  note c = stop_calls_and_outcomes [OF demo_manager_reach s refl]
  have quiet: "stop_outcome demo_behaviour = SS_DISPOSED" "bh_before_stop demo_behaviour = NoHook"
    "bh_stop demo_behaviour = Returns"
    by (simp_all add: stop_outcome_def stop_exn_def demo_behaviour_def hook_exn_def)
  obtain rec where db: "get_service ''db'' demo_manager = Some rec"
    by (simp add: demo_manager_def register_service_def get_service_def lm_init_def Let_def)
  obtain new where new: "lm_calls m' = lm_calls demo_manager @ new"
      "filter (\<lambda>(i, c). c = Dispose) new = map (\<lambda>i. (i, Dispose))
        (concat (map (\<lambda>ph. rev (map sr_id (get_services_by_phase ph demo_manager))) PHASE_REVERSE))"
    using c quiet by auto
  have "''db'' \<in> set (concat (map (\<lambda>ph. rev (map sr_id (get_services_by_phase ph demo_manager))) PHASE_REVERSE))"
    using c db by blast
  then have "(''db'', Dispose) \<in> set (filter (\<lambda>(i, c). c = Dispose) new)" unfolding new(2) by simp
  then have "(''db'', Dispose) \<in> set (lm_calls m')" using new(1) by simp
  then show ?thesis using c db s quiet(1) by metis
qed

theorem start_all_gates_phases_witness:
  "\<exists>m' rs. start_all (\<lambda>_. demo_behaviour) (0, 1) (replicate 6 demo_env) None True demo_manager = Some (m', Inr rs) \<and>
           lm_current_state m' = SS_STOPPED"
proof -
  obtain m' x where x: "start_all (\<lambda>_. demo_behaviour) (0, 1) (replicate 6 demo_env) None True demo_manager = Some (m', x)"
    using demo_start_all by (cases "start_all (\<lambda>_. demo_behaviour) (0, 1) (replicate 6 demo_env) None True demo_manager") auto
  then obtain rs where s: "start_all (\<lambda>_. demo_behaviour) (0, 1) (replicate 6 demo_env) None True demo_manager = Some (m', Inr rs)"
    and f: "\<not> list_all ph_success rs"
    using demo_start_all by (cases x) auto
  from start_all_gates_phases [OF demo_manager_reach s] f s show ?thesis by auto
qed


end
