(* ===== verification/Event_Bus.thy ===== *)
theory Event_Bus
  imports Prelude
begin

text \<open>
  The in-process event bus (\<open>adapters/bus/local.py\<close>, envelope in \<open>domain/events.py\<close>): subscriptions per
  topic, buffering before start, a bounded queue served by worker tasks, backpressure on publishers and
  a stop that may time out. Publishers, workers and handlers run concurrently, so the operations are
  split at the points where the code awaits; a publisher that waits for room in the queue is a caller
  with items left to put. A handler may publish too: then the running item carries the items its
  publication has still to put, and its call cannot complete before they are put. A handler awaits one
  publication at a time; apart from its publications it is opaque, its call completes after finitely many of
  them, and whether it raises is an argument of the completion. All tasks run in the loop the bus was started
  in. The lists \<open>b_sent\<close>, \<open>b_done\<close> and \<open>b_lost\<close> only observe what was handed out, completed and abandoned. A
  start that overlaps a stop in progress is left out.
\<close>

subsection \<open>Data\<close>

record event_envelope =
  ee_id :: string
  ee_type :: string
  ee_source :: string
  ee_topic :: string
  ee_timestamp :: real
  ee_payload :: pyval

type_synonym 'h item = "'h \<times> event_envelope"

text \<open>A running handler call: its item, and the items that its current publication has still to put.\<close>

type_synonym 'h run = "'h item \<times> 'h item list"

record 'h local_bus =
  b_topics :: "(string, (string, 'h) dict) dict"
  b_started :: bool
  b_stopping :: bool
  b_pending :: "event_envelope list"
  b_flushing :: "event_envelope list"
  b_capacity :: int
  b_worker_count :: nat
  b_queue :: "'h item list option"
  b_workers :: nat
  b_callers :: "'h item list list"
  b_inflight :: "'h run list"
  b_tasks :: "'h run list"
  b_errors :: "(string, int) dict"
  b_sent :: "'h item list"
  b_done :: "('h item \<times> bool) list"
  b_lost :: "'h item list"

definition bus_init :: "int \<Rightarrow> nat \<Rightarrow> 'h local_bus" where
  "bus_init queue_capacity worker_count =
     \<lparr>b_topics = [], b_started = False, b_stopping = False, b_pending = [], b_flushing = [],
      b_capacity = queue_capacity, b_worker_count = worker_count, b_queue = None, b_workers = 0, b_callers = [],
      b_inflight = [], b_tasks = [], b_errors = [], b_sent = [], b_done = [], b_lost = []\<rparr>"

subsection \<open>Subscriptions\<close>

definition subscribe :: "string \<Rightarrow> string \<Rightarrow> 'h \<Rightarrow> 'h local_bus \<Rightarrow> 'h local_bus \<times> string" where
  "subscribe fresh topic h b =
     (let sub_id = topic @ '':'' @ fresh
      in (b\<lparr>b_topics := dict_set (b_topics b) topic (dict_set (dict_get_or (b_topics b) topic []) sub_id h)\<rparr>, sub_id))"

text \<open>\<open>subscription_id.split(":", 1)[0]\<close>.\<close>

definition topic_of :: "string \<Rightarrow> string" where
  "topic_of sub_id = takeWhile (\<lambda>c. c \<noteq> CHR '':'') sub_id"

definition unsubscribe :: "string \<Rightarrow> 'h local_bus \<Rightarrow> 'h local_bus" where
  "unsubscribe sub_id b =
     (case dict_get (b_topics b) (topic_of sub_id) of
        None \<Rightarrow> b
      | Some hs \<Rightarrow> b\<lparr>b_topics := dict_set (b_topics b) (topic_of sub_id) (dict_del hs sub_id)\<rparr>)"

definition handlers_for :: "string \<Rightarrow> 'h local_bus \<Rightarrow> 'h list" where
  "handlers_for topic b = dict_values (dict_get_or (b_topics b) topic [])"

subsection \<open>Publishing\<close>

text \<open>Who publishes: a caller outside the bus, or the handler running at a position of a worker or task.\<close>

datatype publisher = Outside | Worker nat | Task nat

text \<open>The handler at that position is running and not already waiting in a publication.\<close>

primrec can_publish :: "publisher \<Rightarrow> 'h local_bus \<Rightarrow> bool" where
  "can_publish Outside b \<longleftrightarrow> True"
| "can_publish (Worker n) b \<longleftrightarrow> n < length (b_inflight b) \<and> snd (b_inflight b ! n) = []"
| "can_publish (Task n) b \<longleftrightarrow> n < length (b_tasks b) \<and> snd (b_tasks b ! n) = []"

text \<open>The publisher has the items to put, one after the other.\<close>

primrec begin_put :: "publisher \<Rightarrow> 'h item list \<Rightarrow> 'h local_bus \<Rightarrow> 'h local_bus" where
  "begin_put Outside items b = b\<lparr>b_callers := b_callers b @ [items]\<rparr>"
| "begin_put (Worker n) items b = b\<lparr>b_inflight := (b_inflight b)[n := (fst (b_inflight b ! n), items)]\<rparr>"
| "begin_put (Task n) items b = b\<lparr>b_tasks := (b_tasks b)[n := (fst (b_tasks b ! n), items)]\<rparr>"

definition dispatch :: "publisher \<Rightarrow> event_envelope \<Rightarrow> 'h local_bus \<Rightarrow> 'h local_bus" where
  "dispatch p e b =
     (let items = map (\<lambda>h. (h, e)) (handlers_for (ee_topic e) b) in
      if items = [] then b
      else if b_queue b \<noteq> None \<and> b_workers b \<noteq> 0
      then begin_put p items (b\<lparr>b_sent := b_sent b @ items\<rparr>)
      else b\<lparr>b_tasks := b_tasks b @ map (\<lambda>x. (x, [])) items, b_sent := b_sent b @ items\<rparr>)"

definition bus_publish :: "publisher \<Rightarrow> event_envelope \<Rightarrow> 'h local_bus \<Rightarrow> 'h local_bus" where
  "bus_publish p e b = (if \<not> b_started b then b\<lparr>b_pending := b_pending b @ [e]\<rparr> else dispatch p e b)"

text \<open>\<open>put_nowait\<close>, or the \<open>put\<close> that waits: it is possible when the queue has room, and a queue with a
  capacity of at most zero has no limit.\<close>

definition has_room :: "'h local_bus \<Rightarrow> bool" where
  "has_room b \<longleftrightarrow> (case b_queue b of None \<Rightarrow> False | Some q \<Rightarrow> b_capacity b \<le> 0 \<or> int (length q) < b_capacity b)"

definition without :: "nat \<Rightarrow> 'a list \<Rightarrow> 'a list" where
  "without n xs = take n xs @ drop (Suc n) xs"

text \<open>The first of the items waiting goes into the queue and the others wait on.\<close>

definition put_first ::
  "'h item list \<Rightarrow> ('h item list \<Rightarrow> 'h local_bus \<Rightarrow> 'h local_bus) \<Rightarrow> 'h local_bus \<Rightarrow> 'h local_bus option" where
  "put_first items keep b =
     (case items of
        [] \<Rightarrow> None
      | x # xs \<Rightarrow> if has_room b then Some (keep xs (b\<lparr>b_queue := map_option (\<lambda>q. q @ [x]) (b_queue b)\<rparr>)) else None)"

text \<open>The puts of the caller, of the worker and of the task at position \<open>n\<close>.\<close>

definition put_item :: "nat \<Rightarrow> 'h local_bus \<Rightarrow> 'h local_bus option" where
  "put_item n b =
     (if n < length (b_callers b)
      then put_first (b_callers b ! n)
             (\<lambda>xs b. b\<lparr>b_callers := (if xs = [] then without n (b_callers b) else (b_callers b)[n := xs])\<rparr>) b
      else None)"

definition put_from_worker :: "nat \<Rightarrow> 'h local_bus \<Rightarrow> 'h local_bus option" where
  "put_from_worker n b =
     (if n < length (b_inflight b)
      then put_first (snd (b_inflight b ! n)) (begin_put (Worker n)) b else None)"

definition put_from_task :: "nat \<Rightarrow> 'h local_bus \<Rightarrow> 'h local_bus option" where
  "put_from_task n b =
     (if n < length (b_tasks b)
      then put_first (snd (b_tasks b ! n)) (begin_put (Task n)) b else None)"

subsection \<open>Workers\<close>

definition take_item :: "'h local_bus \<Rightarrow> 'h local_bus option" where
  "take_item b =
     (case b_queue b of
        Some (x # q) \<Rightarrow>
          if length (b_inflight b) < b_workers b
          then Some (b\<lparr>b_queue := Some q, b_inflight := b_inflight b @ [(x, [])]\<rparr>) else None
      | _ \<Rightarrow> None)"

definition safe_dispatch :: "bool \<Rightarrow> 'h item \<Rightarrow> 'h local_bus \<Rightarrow> 'h local_bus" where
  "safe_dispatch raised x b =
     (let t = ee_topic (snd x);
          b = b\<lparr>b_done := b_done b @ [(x, raised)]\<rparr>
      in if raised then b\<lparr>b_errors := dict_set (b_errors b) t (dict_get_or (b_errors b) t 0 + 1)\<rparr> else b)"

definition complete_item :: "bool \<Rightarrow> nat \<Rightarrow> 'h local_bus \<Rightarrow> 'h local_bus option" where
  "complete_item raised n b =
     (if can_publish (Worker n) b
      then Some (safe_dispatch raised (fst (b_inflight b ! n)) (b\<lparr>b_inflight := without n (b_inflight b)\<rparr>)) else None)"

definition complete_task :: "bool \<Rightarrow> nat \<Rightarrow> 'h local_bus \<Rightarrow> 'h local_bus option" where
  "complete_task raised n b =
     (if can_publish (Task n) b
      then Some (safe_dispatch raised (fst (b_tasks b ! n)) (b\<lparr>b_tasks := without n (b_tasks b)\<rparr>)) else None)"

subsection \<open>Start and stop\<close>

definition bus_start :: "'h local_bus \<Rightarrow> 'h local_bus" where
  "bus_start b =
     (if b_started b then b
      else b\<lparr>b_started := True, b_queue := Some (case b_queue b of None \<Rightarrow> [] | Some q \<Rightarrow> q),
             b_workers := b_worker_count b, b_flushing := b_flushing b @ b_pending b, b_pending := []\<rparr>)"

text \<open>The loop of \<open>start\<close> over the buffered events, one event per step.\<close>

definition flush_next :: "'h local_bus \<Rightarrow> 'h local_bus option" where
  "flush_next b = (case b_flushing b of [] \<Rightarrow> None | e # es \<Rightarrow> Some (dispatch Outside e (b\<lparr>b_flushing := es\<rparr>)))"

definition stop_begin :: "'h local_bus \<Rightarrow> 'h local_bus" where
  "stop_begin b = (if \<not> b_started b then b else b\<lparr>b_started := False, b_pending := [], b_stopping := True\<rparr>)"

text \<open>After the queue was joined, or the time-out: the workers are cancelled with the handlers they run, and
  the queue is dropped with what is left in it. Callers that still wait for room never get it.\<close>

definition stop_workers :: "'h local_bus \<Rightarrow> 'h local_bus option" where
  "stop_workers b =
     (case b_queue b of
        None \<Rightarrow> None
      | Some q \<Rightarrow>
          if \<not> b_stopping b then None
          else Some (b\<lparr>b_workers := 0, b_queue := None, b_callers := [], b_inflight := [],
            b_lost := b_lost b @ concat (b_callers b) @ q @ map fst (b_inflight b) @ concat (map snd (b_inflight b))\<rparr>))"

text \<open>Then the tasks outside the queue are awaited.\<close>

definition stop_finish :: "'h local_bus \<Rightarrow> 'h local_bus option" where
  "stop_finish b =
     (if \<not> b_stopping b \<or> b_queue b \<noteq> None \<or> b_tasks b \<noteq> [] then None else Some (b\<lparr>b_stopping := False\<rparr>))"

end
