(* ===== verification/Event_Bus_Laws.thy ===== *)
theory Event_Bus_Laws
  imports Event_Bus
begin

text \<open>
  What the event bus guarantees: no item handed out is lost or delivered twice unless a stop abandons it,
  the queue respects its capacity, its tasks can go on unless every worker waits in a publication of the
  handler it runs, and subscriptions can be cancelled when the topic contains no colon.
\<close>

subsection \<open>The machine\<close>

text \<open>Steps that the tasks of the bus make on their own; publications of handlers come from outside.\<close>

inductive bus_work :: "'h local_bus \<Rightarrow> 'h local_bus \<Rightarrow> bool" where
  bw_put: "put_item n b = Some b' \<Longrightarrow> bus_work b b'"
| bw_put_worker: "put_from_worker n b = Some b' \<Longrightarrow> bus_work b b'"
| bw_put_task: "put_from_task n b = Some b' \<Longrightarrow> bus_work b b'"
| bw_take: "take_item b = Some b' \<Longrightarrow> bus_work b b'"
| bw_finish: "complete_item raised n b = Some b' \<Longrightarrow> bus_work b b'"
| bw_task: "complete_task raised n b = Some b' \<Longrightarrow> bus_work b b'"
| bw_flush: "flush_next b = Some b' \<Longrightarrow> bus_work b b'"

inductive bus_step :: "'h local_bus \<Rightarrow> 'h local_bus \<Rightarrow> bool" where
  bs_work: "bus_work b b' \<Longrightarrow> bus_step b b'"
| bs_publish: "can_publish p b \<Longrightarrow> bus_step b (bus_publish p e b)"
| bs_subscribe: "bus_step b (fst (subscribe fresh topic h b))"
| bs_unsubscribe: "bus_step b (unsubscribe i b)"
| bs_start: "\<not> b_stopping b \<Longrightarrow> bus_step b (bus_start b)"
| bs_stop: "bus_step b (stop_begin b)"
| bs_cancel: "stop_workers b = Some b' \<Longrightarrow> bus_step b b'"
| bs_stopped: "stop_finish b = Some b' \<Longrightarrow> bus_step b b'"

subsection \<open>The invariant\<close>

definition queued :: "'h local_bus \<Rightarrow> 'h item list" where
  "queued b = (case b_queue b of None \<Rightarrow> [] | Some q \<Rightarrow> q)"

text \<open>The items that running handlers hold: their own, and those they wait to put.\<close>

definition held :: "'h run list \<Rightarrow> 'h item list" where
  "held rs = map fst rs @ concat (map snd rs)"

definition conserved :: "'h local_bus \<Rightarrow> bool" where
  "conserved b \<longleftrightarrow>
     mset (b_sent b) = mset (concat (b_callers b)) + mset (queued b) + mset (held (b_inflight b)) +
                       mset (held (b_tasks b)) + mset (map fst (b_done b)) + mset (b_lost b)"

definition failures :: "string \<Rightarrow> ('h item \<times> bool) list \<Rightarrow> nat" where
  "failures t ds = length (filter (\<lambda>(x, raised). raised \<and> ee_topic (snd x) = t) ds)"

definition within_limits :: "'h local_bus \<Rightarrow> bool" where
  "within_limits b \<longleftrightarrow>
     (0 < b_capacity b \<longrightarrow> int (length (queued b)) \<le> b_capacity b) \<and> length (b_inflight b) \<le> b_workers b \<and>
     (\<forall>t. dict_get_or (b_errors b) t 0 = int (failures t (b_done b)))"

text \<open>Callers and queued items only exist while there are workers to serve them; a task waits for room only then,
  or for ever once the workers are cancelled.\<close>

definition served :: "'h local_bus \<Rightarrow> bool" where
  "served b \<longleftrightarrow>
     [] \<notin> set (b_callers b) \<and> (b_started b \<longrightarrow> b_queue b \<noteq> None \<and> b_workers b = b_worker_count b) \<and>
     (b_callers b \<noteq> [] \<or> queued b \<noteq> [] \<longrightarrow> b_queue b \<noteq> None \<and> 0 < b_workers b) \<and>
     (\<not> b_started b \<and> \<not> b_stopping b \<longrightarrow> b_queue b = None) \<and> (b_queue b = None \<longrightarrow> b_workers b = 0) \<and>
     (b_stopping b \<longrightarrow> \<not> b_started b) \<and>
     ((\<exists>r\<in>set (b_tasks b). snd r \<noteq> []) \<longrightarrow> 0 < b_workers b \<or> b_stopping b \<and> b_queue b = None)"

definition bus_ok :: "'h local_bus \<Rightarrow> bool" where
  "bus_ok b \<longleftrightarrow> conserved b \<and> within_limits b \<and> served b"

lemmas bus_ok_defs = bus_ok_def conserved_def within_limits_def served_def queued_def

lemma split_without: "n < length xs \<Longrightarrow> xs = take n xs @ xs ! n # drop (Suc n) xs"
  by (rule id_take_nth_drop)

lemma length_without: "n < length xs \<Longrightarrow> length (without n xs) = length xs - 1"
  by (simp add: without_def)

lemma set_without: "set (without n xs) \<subseteq> set xs"
  by (auto simp: without_def dest: in_set_takeD in_set_dropD)

lemma concat_split: "n < length xs \<Longrightarrow> mset (concat xs) = mset (xs ! n) + mset (concat (without n xs))"
proof -
  assume "n < length xs"
  then have "concat xs = concat (take n xs @ xs ! n # drop (Suc n) xs)" by (simp only: split_without [symmetric])
  then show ?thesis by (simp add: without_def)
qed

lemma concat_update: "n < length xs \<Longrightarrow> mset (concat (xs[n := y])) = mset y + mset (concat (without n xs))"
  by (simp add: upd_conv_take_nth_drop without_def)

lemma held_append: "mset (held (rs @ rs')) = mset (held rs) + mset (held rs')"
  by (simp add: held_def)

lemma held_single [simp]: "mset (held [r]) = add_mset (fst r) (mset (snd r))" "held [] = []"
  by (simp_all add: held_def)

lemma held_fresh: "mset (held (map (\<lambda>x. (x, [])) xs)) = mset xs"
  by (induction xs) (simp_all add: held_def)

lemma held_split: "n < length rs \<Longrightarrow> mset (held rs) = add_mset (fst (rs ! n)) (mset (snd (rs ! n)) + mset (held (without n rs)))"
proof -
  assume "n < length rs"
  then have "held rs = held (take n rs @ rs ! n # drop (Suc n) rs)" by (simp only: split_without [symmetric])
  then show ?thesis by (simp add: held_def without_def)
qed

lemma held_update: "n < length rs \<Longrightarrow> mset (held (rs[n := y])) = add_mset (fst y) (mset (snd y) + mset (held (without n rs)))"
  by (simp add: upd_conv_take_nth_drop held_def without_def)

text \<open>A put moves the first waiting item of a caller or of a running handler into the queue.\<close>

lemma put_first_cases:
  assumes "put_first items keep b = Some b'"
  obtains x xs q where "items = x # xs" "b_queue b = Some q" "b_capacity b \<le> 0 \<or> int (length q) < b_capacity b"
    "b' = keep xs (b\<lparr>b_queue := Some (q @ [x])\<rparr>)"
  using assms by (auto simp: put_first_def has_room_def split: if_splits list.splits option.splits)

lemma put_item_callers:
  assumes "put_item n b = Some b'"
  obtains x xs q where "n < length (b_callers b)" "b_callers b ! n = x # xs" "b_queue b = Some q"
    "b_capacity b \<le> 0 \<or> int (length q) < b_capacity b"
    "b' = b\<lparr>b_queue := Some (q @ [x]), b_callers := (if xs = [] then without n (b_callers b) else (b_callers b)[n := xs])\<rparr>"
  using assms by (auto simp: put_item_def split: if_splits elim!: put_first_cases)

lemma put_from_worker_cases:
  assumes "put_from_worker n b = Some b'"
  obtains i x xs q where "n < length (b_inflight b)" "b_inflight b ! n = (i, x # xs)" "b_queue b = Some q"
    "b_capacity b \<le> 0 \<or> int (length q) < b_capacity b"
    "b' = b\<lparr>b_queue := Some (q @ [x]), b_inflight := (b_inflight b)[n := (i, xs)]\<rparr>"
  using assms by (cases "b_inflight b ! n") (auto simp: put_from_worker_def split: if_splits elim!: put_first_cases)

lemma put_from_task_cases:
  assumes "put_from_task n b = Some b'"
  obtains i x xs q where "n < length (b_tasks b)" "b_tasks b ! n = (i, x # xs)" "b_queue b = Some q"
    "b_capacity b \<le> 0 \<or> int (length q) < b_capacity b"
    "b' = b\<lparr>b_queue := Some (q @ [x]), b_tasks := (b_tasks b)[n := (i, xs)]\<rparr>"
  using assms by (cases "b_tasks b ! n") (auto simp: put_from_task_def split: if_splits elim!: put_first_cases)

lemma bus_ok_put: "put_item n b = Some b' \<Longrightarrow> bus_ok b \<Longrightarrow> bus_ok b'"
proof (elim put_item_callers)
  fix x xs q
  assume ok: "bus_ok b" and n: "n < length (b_callers b)" "b_callers b ! n = x # xs" and q: "b_queue b = Some q"
    "b_capacity b \<le> 0 \<or> int (length q) < b_capacity b"
    and b': "b' = b\<lparr>b_queue := Some (q @ [x]), b_callers := (if xs = [] then without n (b_callers b) else (b_callers b)[n := xs])\<rparr>"
  have "conserved b'" using ok n q(1)
    by (simp add: bus_ok_def conserved_def queued_def b' concat_split [OF n(1)] concat_update [OF n(1)])
  moreover have "within_limits b'" using ok q by (simp add: bus_ok_def within_limits_def queued_def b') linarith
  moreover have "served b'"
  proof -
    have c: "b_callers b \<noteq> []" using n by auto
    have "[] \<notin> set (b_callers b')"
      using ok set_without [of n "b_callers b"] set_update_subset_insert [of "b_callers b" n xs]
      by (auto simp: bus_ok_def served_def b')
    then show ?thesis using ok q(1) c by (simp add: bus_ok_def served_def queued_def b')
  qed
  ultimately show ?thesis by (simp add: bus_ok_def)
qed

text \<open>The other two puts change the state in the same way, apart from where the items wait.\<close>

lemma bus_ok_moved:
  assumes ok: "bus_ok b" and q: "b_queue b = Some q" "b_capacity b \<le> 0 \<or> int (length q) < b_capacity b" "0 < b_workers b"
    and b': "b' = b\<lparr>b_queue := Some (q @ [x]), b_inflight := ws, b_tasks := ts\<rparr>"
    and run: "mset (held (b_inflight b)) + mset (held (b_tasks b)) = add_mset x (mset (held ws) + mset (held ts))"
      "length ws = length (b_inflight b)"
  shows "bus_ok b'"
proof -
  have "mset (b_sent b) = mset (concat (b_callers b)) + mset (queued b) +
      (mset (held (b_inflight b)) + mset (held (b_tasks b))) + mset (map fst (b_done b)) + mset (b_lost b)"
    using ok by (simp add: bus_ok_def conserved_def ac_simps)
  then have "conserved b'" unfolding run(1) by (simp add: conserved_def b' queued_def q(1) ac_simps)
  moreover have "within_limits b'" using ok q run(2) by (simp add: bus_ok_def within_limits_def queued_def b') linarith
  moreover have "served b'" using ok q by (simp add: bus_ok_def served_def queued_def b')
  ultimately show ?thesis by (simp add: bus_ok_def)
qed

lemma bus_ok_put_worker: "put_from_worker n b = Some b' \<Longrightarrow> bus_ok b \<Longrightarrow> bus_ok b'"
proof (elim put_from_worker_cases)
  fix i x xs q
  assume ok: "bus_ok b" and n: "n < length (b_inflight b)" "b_inflight b ! n = (i, x # xs)" and q: "b_queue b = Some q"
    "b_capacity b \<le> 0 \<or> int (length q) < b_capacity b"
    and b': "b' = b\<lparr>b_queue := Some (q @ [x]), b_inflight := (b_inflight b)[n := (i, xs)]\<rparr>"
  have "0 < b_workers b" using ok n(1) by (auto simp: bus_ok_def within_limits_def)
  then show ?thesis
    by (rule bus_ok_moved [OF ok q, where x = x and ws = "(b_inflight b)[n := (i, xs)]" and ts = "b_tasks b"])
      (simp_all add: b' held_split [OF n(1)] held_update [OF n(1)] n(2))
qed

lemma bus_ok_take: "take_item b = Some b' \<Longrightarrow> bus_ok b \<Longrightarrow> bus_ok b'"
  by (auto simp: take_item_def bus_ok_defs held_append split: option.splits list.splits if_splits)

lemma bus_ok_put_task: "put_from_task n b = Some b' \<Longrightarrow> bus_ok b \<Longrightarrow> bus_ok b'"
proof (elim put_from_task_cases)
  fix i x xs q
  assume ok: "bus_ok b" and n: "n < length (b_tasks b)" "b_tasks b ! n = (i, x # xs)" and q: "b_queue b = Some q"
    "b_capacity b \<le> 0 \<or> int (length q) < b_capacity b"
    and b': "b' = b\<lparr>b_queue := Some (q @ [x]), b_tasks := (b_tasks b)[n := (i, xs)]\<rparr>"
  have "(i, x # xs) \<in> set (b_tasks b)" using n by (metis nth_mem)
  then have "0 < b_workers b" using ok q(1) by (force simp: bus_ok_def served_def)
  then show ?thesis
    by (rule bus_ok_moved [OF ok q, where x = x and ws = "b_inflight b" and ts = "(b_tasks b)[n := (i, xs)]"])
      (simp_all add: b' held_split [OF n(1)] held_update [OF n(1)] n(2))
qed

lemma failures_snoc: "failures t (ds @ [(x, r)]) = failures t ds + (if r \<and> ee_topic (snd x) = t then 1 else 0)"
  by (simp add: failures_def)

lemma safe_dispatch_sel [simp]:
  "b_done (safe_dispatch r x b) = b_done b @ [(x, r)]" "b_topics (safe_dispatch r x b) = b_topics b"
  "b_started (safe_dispatch r x b) = b_started b" "b_stopping (safe_dispatch r x b) = b_stopping b"
  "b_queue (safe_dispatch r x b) = b_queue b" "b_workers (safe_dispatch r x b) = b_workers b"
  "b_worker_count (safe_dispatch r x b) = b_worker_count b" "b_capacity (safe_dispatch r x b) = b_capacity b"
  "b_callers (safe_dispatch r x b) = b_callers b" "b_inflight (safe_dispatch r x b) = b_inflight b"
  "b_tasks (safe_dispatch r x b) = b_tasks b" "b_sent (safe_dispatch r x b) = b_sent b"
  "b_lost (safe_dispatch r x b) = b_lost b" "b_flushing (safe_dispatch r x b) = b_flushing b"
  "dict_get_or (b_errors (safe_dispatch r x b)) t 0 =
     dict_get_or (b_errors b) t 0 + (if r \<and> ee_topic (snd x) = t then 1 else 0)"
  by (simp_all add: safe_dispatch_def Let_def)

text \<open>A completion moves one item from where it ran to the completed ones.\<close>

lemma bus_ok_complete:
  assumes ok: "bus_ok b" and b': "b' = safe_dispatch r x c"
    and c: "b_callers c = b_callers b" "b_queue c = b_queue b" "b_started c = b_started b" "b_stopping c = b_stopping b"
      "b_workers c = b_workers b" "b_worker_count c = b_worker_count b" "b_capacity c = b_capacity b"
      "b_errors c = b_errors b" "b_done c = b_done b" "b_sent c = b_sent b" "b_lost c = b_lost b"
    and run: "mset (held (b_inflight b)) + mset (held (b_tasks b)) =
        add_mset x (mset (held (b_inflight c)) + mset (held (b_tasks c)))"
      "length (b_inflight c) \<le> length (b_inflight b)" "set (b_tasks c) \<subseteq> set (b_tasks b)"
  shows "bus_ok b'"
proof -
  have q: "queued b' = queued b" by (simp add: queued_def b' c)
  have "mset (b_sent b) = mset (concat (b_callers b)) + mset (queued b) +
      (mset (held (b_inflight b)) + mset (held (b_tasks b))) + mset (map fst (b_done b)) + mset (b_lost b)"
    using ok by (simp add: bus_ok_def conserved_def ac_simps)
  then have "conserved b'" unfolding run(1) conserved_def q by (simp add: b' c ac_simps)
  moreover have "within_limits b'"
    using ok run(2) unfolding bus_ok_def within_limits_def q by (simp add: b' c failures_snoc)
  moreover have "served b'" using ok run(3) unfolding bus_ok_def served_def q by (auto simp: b' c)
  ultimately show ?thesis by (simp add: bus_ok_def)
qed

lemma bus_ok_finish: "complete_item r n b = Some b' \<Longrightarrow> bus_ok b \<Longrightarrow> bus_ok b'"
proof -
  assume f: "complete_item r n b = Some b'" and ok: "bus_ok b"
  then have n: "n < length (b_inflight b)" "snd (b_inflight b ! n) = []"
    and b': "b' = safe_dispatch r (fst (b_inflight b ! n)) (b\<lparr>b_inflight := without n (b_inflight b)\<rparr>)"
    by (simp_all add: complete_item_def split: if_splits)
  show ?thesis by (rule bus_ok_complete [OF ok b']) (simp_all add: held_split [OF n(1)] n(2) length_without [OF n(1)])
qed

lemma bus_ok_task: "complete_task r n b = Some b' \<Longrightarrow> bus_ok b \<Longrightarrow> bus_ok b'"
proof -
  assume f: "complete_task r n b = Some b'" and ok: "bus_ok b"
  then have n: "n < length (b_tasks b)" "snd (b_tasks b ! n) = []"
    and b': "b' = safe_dispatch r (fst (b_tasks b ! n)) (b\<lparr>b_tasks := without n (b_tasks b)\<rparr>)"
    by (simp_all add: complete_task_def split: if_splits)
  show ?thesis by (rule bus_ok_complete [OF ok b']) (simp_all add: held_split [OF n(1)] n(2) set_without)
qed

lemma held_begin: "n < length rs \<Longrightarrow> snd (rs ! n) = [] \<Longrightarrow> mset (held (rs[n := (fst (rs ! n), items)])) = mset items + mset (held rs)"
  by (simp add: held_update) (simp add: held_split)

lemma bus_ok_begin_put:
  assumes ok: "bus_ok b" and p: "can_publish p b" and w: "items \<noteq> []" "b_queue b \<noteq> None" "b_workers b \<noteq> 0"
  shows "bus_ok (begin_put p items (b\<lparr>b_sent := b_sent b @ items\<rparr>))"
  using p ok w by (cases p) (auto simp: bus_ok_def conserved_def within_limits_def served_def queued_def held_begin)

lemma bus_ok_dispatch: "bus_ok b \<Longrightarrow> can_publish p b \<Longrightarrow> bus_ok (dispatch p e b)"
proof -
  assume ok: "bus_ok b" and p: "can_publish p b"
  let ?items = "map (\<lambda>h. (h, e)) (handlers_for (ee_topic e) b)"
  let ?t = "b\<lparr>b_tasks := b_tasks b @ map (\<lambda>x. (x, [])) ?items, b_sent := b_sent b @ ?items\<rparr>"
  have "conserved ?t" using ok by (simp add: bus_ok_def conserved_def queued_def held_append held_fresh del: map_map)
  moreover have "within_limits ?t" using ok by (simp add: bus_ok_def within_limits_def queued_def)
  moreover have "served ?t" using ok unfolding bus_ok_def served_def queued_def by auto
  ultimately have "bus_ok ?t" by (simp add: bus_ok_def)
  then show ?thesis
    using ok bus_ok_begin_put [OF ok p, of ?items] unfolding dispatch_def Let_def by presburger
qed

lemma bus_ok_flush: "flush_next b = Some b' \<Longrightarrow> bus_ok b \<Longrightarrow> bus_ok b'"
proof -
  assume f: "flush_next b = Some b'" and ok: "bus_ok b"
  obtain e es where b': "b' = dispatch Outside e (b\<lparr>b_flushing := es\<rparr>)"
    using f by (auto simp: flush_next_def split: list.splits)
  have "bus_ok (b\<lparr>b_flushing := es\<rparr>)" using ok by (simp add: bus_ok_defs)
  then show ?thesis unfolding b' by (rule bus_ok_dispatch) simp
qed

lemmas bus_ok_steps = bus_ok_put bus_ok_put_worker bus_ok_put_task bus_ok_take bus_ok_finish bus_ok_task bus_ok_flush

lemma bus_ok_work: "bus_work b b' \<Longrightarrow> bus_ok b \<Longrightarrow> bus_ok b'"
  by (induction rule: bus_work.induct) (blast intro: bus_ok_steps)+

lemma bus_ok_cancel: "stop_workers b = Some b' \<Longrightarrow> bus_ok b \<Longrightarrow> bus_ok b'"
proof -
  assume "stop_workers b = Some b'" and ok: "bus_ok b"
  then have b': "b' = b\<lparr>b_workers := 0, b_queue := None, b_callers := [], b_inflight := [],
      b_lost := b_lost b @ concat (b_callers b) @ queued b @ held (b_inflight b)\<rparr>" and st: "b_stopping b"
    by (auto simp: stop_workers_def queued_def held_def split: if_splits option.splits)
  have "conserved b'" using ok by (simp add: bus_ok_def conserved_def b' queued_def)
  moreover have "within_limits b'" using ok by (simp add: bus_ok_def within_limits_def b' queued_def)
  moreover have "served b'" using ok st by (simp add: bus_ok_def served_def b' queued_def)
  ultimately show ?thesis by (simp add: bus_ok_def)
qed

lemma bus_ok_stopped: "stop_finish b = Some b' \<Longrightarrow> bus_ok b \<Longrightarrow> bus_ok b'"
  by (auto simp: stop_finish_def bus_ok_defs split: if_splits)

interpretation bus: invariant_machine "\<lambda>b. \<exists>c w. b = bus_init c w" bus_step bus_ok
proof unfold_locales
  show "bus_ok b" if "\<exists>c w. b = bus_init c w" for b :: "'a local_bus"
    using that by (auto simp: bus_init_def bus_ok_defs failures_def dict_get_or_def)
  show "bus_ok b'" if "bus_ok b" "bus_step b b'" for b b' :: "'a local_bus"
    using that(2,1)
  proof (cases rule: bus_step.cases)
    case bs_work
    then show ?thesis using that(1) by (blast intro: bus_ok_work)
  next
    case (bs_publish p e)
    have "bus_ok (b\<lparr>b_pending := b_pending b @ [e]\<rparr>)" using that(1) by (simp add: bus_ok_defs)
    then show ?thesis using bs_publish bus_ok_dispatch [OF that(1)] by (simp add: bus_publish_def)
  next
    case (bs_subscribe fresh topic h)
    then show ?thesis using that(1) by (simp add: subscribe_def Let_def bus_ok_defs)
  next
    case (bs_unsubscribe i)
    then show ?thesis using that(1) by (simp add: unsubscribe_def bus_ok_defs split: option.splits)
  next
    case bs_start
    then show ?thesis using that(1) by (auto simp: bus_start_def bus_ok_defs split: option.splits)
  next
    case bs_stop
    then show ?thesis using that(1) by (auto simp: stop_begin_def bus_ok_defs)
  next
    case bs_cancel
    then show ?thesis using that(1) by (blast intro: bus_ok_cancel)
  next
    case bs_stopped
    then show ?thesis using that(1) by (blast intro: bus_ok_stopped)
  qed
qed

subsection \<open>Progress\<close>

text \<open>The work left: an item needs a put, a take and a completion.\<close>

definition run_work :: "'h run list \<Rightarrow> nat" where
  "run_work rs = length rs + 3 * length (concat (map snd rs))"

definition work_left :: "'h local_bus \<Rightarrow> nat" where
  "work_left b =
     sum_list (map (\<lambda>e. 1 + 3 * length (handlers_for (ee_topic e) b)) (b_flushing b)) +
     3 * length (concat (b_callers b)) + 2 * length (queued b) + run_work (b_inflight b) + run_work (b_tasks b)"

definition quiescent :: "'h local_bus \<Rightarrow> bool" where
  "quiescent b \<longleftrightarrow> b_flushing b = [] \<and> b_callers b = [] \<and> queued b = [] \<and> b_inflight b = [] \<and> b_tasks b = []"

text \<open>Every worker runs a handler that waits for room, which only the workers could make.\<close>

definition workers_wait :: "'h local_bus \<Rightarrow> bool" where
  "workers_wait b \<longleftrightarrow>
     b_flushing b = [] \<and> (\<forall>r\<in>set (b_inflight b) \<union> set (b_tasks b). snd r \<noteq> []) \<and> \<not> has_room b \<and>
     (b_queue b = None \<or> length (b_inflight b) = b_workers b)"

lemma length_concat_split:
  "n < length xs \<Longrightarrow> length (concat xs) = length (xs ! n) + length (concat (without n xs))"
  "n < length xs \<Longrightarrow> length (concat (xs[n := y])) = length y + length (concat (without n xs))"
  by (metis concat_split size_mset size_union) (metis concat_update size_mset size_union)

lemma without_map: "map f (without n xs) = without n (map f xs)"
  by (simp add: without_def take_map drop_map)

lemma run_work_split: "n < length rs \<Longrightarrow> run_work rs = 1 + 3 * length (snd (rs ! n)) + run_work (without n rs)"
  using length_concat_split(1) [of n "map snd rs"] by (simp add: run_work_def length_without without_map)

lemma run_work_update: "n < length rs \<Longrightarrow> run_work (rs[n := y]) = 1 + 3 * length (snd y) + run_work (without n rs)"
  using length_concat_split(2) [of n "map snd rs" "snd y"] by (simp add: run_work_def length_without without_map map_update)

lemma run_work_fresh [simp]: "run_work (rs @ rs') = run_work rs + run_work rs'" "run_work (map (\<lambda>x. (f x, [])) xs) = length xs"
  "run_work [(x, [])] = 1"
  by (simp_all add: run_work_def comp_def map_replicate_const)

lemma work_put: "put_item n b = Some b' \<Longrightarrow> work_left b' < work_left b"
proof (elim put_item_callers)
  fix x xs q
  assume n: "n < length (b_callers b)" "b_callers b ! n = x # xs" and q: "b_queue b = Some q"
    and b': "b' = b\<lparr>b_queue := Some (q @ [x]), b_callers := (if xs = [] then without n (b_callers b) else (b_callers b)[n := xs])\<rparr>"
  have "length (concat (b_callers b)) = Suc (length (concat (b_callers b')))"
    using n by (simp add: b' length_concat_split(1) [OF n(1)] length_concat_split(2) [OF n(1)])
  then show ?thesis using q by (simp add: work_left_def b' queued_def handlers_for_def)
qed

lemma work_put_worker: "put_from_worker n b = Some b' \<Longrightarrow> work_left b' < work_left b"
  by (elim put_from_worker_cases)
    (simp add: work_left_def queued_def handlers_for_def run_work_update, simp add: run_work_split)

lemma work_put_task: "put_from_task n b = Some b' \<Longrightarrow> work_left b' < work_left b"
  by (elim put_from_task_cases)
    (simp add: work_left_def queued_def handlers_for_def run_work_update, simp add: run_work_split)

lemma work_take: "take_item b = Some b' \<Longrightarrow> work_left b' < work_left b"
  by (auto simp: take_item_def work_left_def queued_def handlers_for_def split: option.splits list.splits if_splits)

lemma work_finish: "complete_item r n b = Some b' \<Longrightarrow> work_left b' < work_left b"
  by (auto simp: complete_item_def work_left_def queued_def handlers_for_def run_work_split split: if_splits)

lemma work_task: "complete_task r n b = Some b' \<Longrightarrow> work_left b' < work_left b"
  by (auto simp: complete_task_def work_left_def queued_def handlers_for_def run_work_split split: if_splits)

lemma work_flush: "flush_next b = Some b' \<Longrightarrow> work_left b' < work_left b"
  by (auto simp: flush_next_def dispatch_def Let_def work_left_def queued_def handlers_for_def comp_def split: list.splits)

lemma work_decreases: "bus_work b b' \<Longrightarrow> work_left b' < work_left b"
  by (induction rule: bus_work.induct)
    (blast intro: work_put work_put_worker work_put_task work_take work_finish work_task work_flush)+

lemma work_bound: "(bus_work ^^ n) b b' \<Longrightarrow> n + work_left b' \<le> work_left b"
proof (induction n arbitrary: b')
  case (Suc n)
  then obtain c where "(bus_work ^^ n) b c" "bus_work c b'" by auto
  then show ?case using Suc.IH [of c] work_decreases [of c b'] by simp
qed simp

text \<open>A handler that does not wait can complete, and one that waits can put when there is room.\<close>

lemma run_moves:
  assumes "r \<in> set (b_inflight b) \<union> set (b_tasks b)" and "snd r = [] \<or> has_room b"
  shows "\<exists>b'. bus_work b b'"
proof -
  have put: "\<exists>b'. put_first items keep b = Some b'" if "items \<noteq> []" "has_room b" for items keep
    using that by (auto simp: put_first_def neq_Nil_conv)
  consider n where "n < length (b_inflight b)" "b_inflight b ! n = r" | n where "n < length (b_tasks b)" "b_tasks b ! n = r"
    using assms(1) by (auto simp: in_set_conv_nth)
  then show ?thesis
  proof cases
    case 1
    then show ?thesis
      using assms(2) put [of "snd r" "begin_put (Worker n)"] bw_finish [of False n b] bw_put_worker [of n b]
      by (cases "snd r = []") (auto simp: complete_item_def put_from_worker_def)
  next
    case 2
    then show ?thesis
      using assms(2) put [of "snd r" "begin_put (Task n)"] bw_task [of False n b] bw_put_task [of n b]
      by (cases "snd r = []") (auto simp: complete_task_def put_from_task_def)
  qed
qed

lemma work_enabled:
  assumes "bus_ok b" "\<not> quiescent b" "\<not> workers_wait b"
  shows "\<exists>b'. bus_work b b'"
proof (rule ccontr)
  assume stuck: "\<nexists>b'. bus_work b b'"
  have fl: "b_flushing b = []"
  proof (rule ccontr)
    assume "b_flushing b \<noteq> []"
    then have "\<exists>b'. flush_next b = Some b'" by (auto simp: flush_next_def neq_Nil_conv)
    then show False using stuck bw_flush by blast
  qed
  have waits: "snd r \<noteq> [] \<and> \<not> has_room b" if "r \<in> set (b_inflight b) \<union> set (b_tasks b)" for r
    using run_moves [OF that] stuck by blast
  have idle: "b_callers b = []" if "has_room b"
  proof (rule ccontr)
    assume "b_callers b \<noteq> []"
    then have "b_callers b ! 0 \<in> set (b_callers b)" by simp
    moreover have "[] \<notin> set (b_callers b)" using assms(1) by (simp add: bus_ok_def served_def)
    ultimately have "b_callers b ! 0 \<noteq> []" by metis
    then have "\<exists>b'. put_item 0 b = Some b'"
      using that \<open>b_callers b \<noteq> []\<close> by (auto simp: put_item_def put_first_def neq_Nil_conv)
    then show False using stuck bw_put by blast
  qed
  have full: "queued b = [] \<or> length (b_inflight b) = b_workers b"
  proof (rule ccontr)
    assume "\<not> ?thesis"
    then have "\<exists>b'. take_item b = Some b'"
      using assms(1) by (auto simp: take_item_def queued_def bus_ok_def within_limits_def split: option.splits list.splits)
    then show False using stuck bw_take by blast
  qed
  show False
  proof (cases "has_room b")
    case True
    then have "r \<notin> set (b_inflight b) \<union> set (b_tasks b)" for r using waits [of r] by auto
    then have "set (b_inflight b) \<union> set (b_tasks b) = {}" by (intro equals0I) metis
    then have none: "b_inflight b = []" "b_tasks b = []" by simp_all
    moreover have "queued b = []" using full none assms(1) by (auto simp: bus_ok_def served_def)
    ultimately show False using assms(2) fl idle [OF True] by (simp add: quiescent_def)
  next
    case False
    have "b_queue b = None \<or> length (b_inflight b) = b_workers b"
    proof (cases "b_queue b")
      case (Some q)
      have "q \<noteq> []" using False Some by (auto simp: has_room_def)
      then show ?thesis using full Some by (simp add: queued_def)
    qed simp
    then show False using assms(3) fl waits False by (simp add: workers_wait_def)
  qed
qed

lemma quiet_stuck: "quiescent b \<Longrightarrow> \<not> bus_work b b'"
  by (auto simp: quiescent_def queued_def put_item_def put_from_worker_def put_from_task_def take_item_def
      complete_item_def complete_task_def flush_next_def split: option.splits list.splits elim!: bus_work.cases)

lemma waiting_stuck: "workers_wait b \<Longrightarrow> \<not> bus_work b b'"
  by (auto simp: workers_wait_def put_item_def put_from_worker_def put_from_task_def put_first_def take_item_def
      complete_item_def complete_task_def flush_next_def split: option.splits list.splits if_splits elim!: bus_work.cases)

lemma stuck_iff: "bus_ok b \<Longrightarrow> (\<nexists>b'. bus_work b b') \<longleftrightarrow> quiescent b \<or> workers_wait b"
  using work_enabled [of b] quiet_stuck [of b] waiting_stuck [of b] by blast

lemma no_wait:
  assumes "bus_ok b" "\<not> b_stopping b" "workers_wait b" "b_capacity b \<le> 0 \<or> (\<forall>r\<in>set (b_inflight b). snd r = [])"
  shows "quiescent b"
proof (cases "b_queue b")
  case None
  then have "b_workers b = 0" "b_callers b = []" "\<not> (\<exists>r\<in>set (b_tasks b). snd r \<noteq> [])"
    using assms(1,2) by (auto simp: bus_ok_def served_def)
  moreover have "b_inflight b = []" using assms(1) calculation(1) by (simp add: bus_ok_def within_limits_def)
  moreover have "b_tasks b = []" using assms(3) calculation(3) by (cases "b_tasks b") (auto simp: workers_wait_def)
  ultimately show ?thesis using assms(3) None by (simp add: quiescent_def workers_wait_def queued_def)
next
  case (Some q)
  then have cap: "0 < b_capacity b" "q \<noteq> []" using assms(3) by (auto simp: workers_wait_def has_room_def)
  then have "b_inflight b = []" using assms(3,4) by (cases "b_inflight b") (auto simp: workers_wait_def)
  moreover have "0 < b_workers b" using assms(1) Some cap(2) by (simp add: bus_ok_def served_def queued_def)
  ultimately show ?thesis using assms(3) Some by (simp add: workers_wait_def)
qed

subsection \<open>Subscriptions\<close>

lemma topic_of_sub: "topic_of (topic @ '':'' @ fresh) = takeWhile (\<lambda>c. c \<noteq> CHR '':'') topic"
  by (induction topic) (simp_all add: topic_of_def)

lemma takeWhile_colon: "takeWhile (\<lambda>c. c \<noteq> CHR '':'') topic = topic \<longleftrightarrow> CHR '':'' \<notin> set topic"
  by (auto simp: takeWhile_eq_all_conv)

lemma dict_del_set: "k \<notin> fst ` set d \<Longrightarrow> dict_del (dict_set d k v) k = d"
  by (simp add: delete_update_same delete_idem)

subsection \<open>Properties\<close>

text \<open>C17: Conservation. In every reachable state each item handed out (an event for a subscriber of its topic)
  is in exactly one place: waiting in a publisher, outside or in a running handler, queued, in the hands of a
  worker or task, completed, or abandoned by a stop. The queue never exceeds its capacity, at most the
  configured number of handlers run in workers, and the error count of a topic is the number of its handler
  calls that raised.\<close>

theorem bus_conserves_items:
  assumes "reach (\<lambda>b. \<exists>c w. b = bus_init c w) bus_step b"
  shows "mset (b_sent b) = mset (concat (b_callers b)) + mset (queued b) + mset (held (b_inflight b)) +
                           mset (held (b_tasks b)) + mset (map fst (b_done b)) + mset (b_lost b) \<and>
         (0 < b_capacity b \<longrightarrow> int (length (queued b)) \<le> b_capacity b) \<and> length (b_inflight b) \<le> b_workers b \<and>
         (\<forall>t. dict_get_or (b_errors b) t 0 = int (length (filter (\<lambda>(x, raised). raised \<and> ee_topic (snd x) = t) (b_done b))))"
  using bus.reach_inv [OF assms] by (simp add: bus_ok_def conserved_def within_limits_def failures_def)

lemma publish_sends:
  "b_started b \<Longrightarrow> b_sent (bus_publish p e b) = b_sent b @ map (\<lambda>h. (h, e)) (handlers_for (ee_topic e) b)"
  by (cases p) (simp_all add: bus_publish_def dispatch_def Let_def)

text \<open>C18: When the bus stalls. Publishing on a started bus hands out one item per current subscriber of the
  topic. From any reachable state the tasks of the bus make only finitely many steps between two
  publications, at most the measure of the work left, and they are stuck exactly when nothing is waiting, so
  that every item handed out was completed or abandoned by a stop, or when every worker runs a handler that
  waits to publish into the full queue. The latter cannot happen, outside a stop, when the queue is unbounded
  or no handler of a worker is waiting in a publication.\<close>

theorem bus_stalls_exactly_when_workers_wait:
  assumes "reach (\<lambda>b. \<exists>c w. b = bus_init c w) bus_step b"
  shows "(b_started b \<longrightarrow>
            b_sent (bus_publish p e b) = b_sent b @ map (\<lambda>h. (h, e)) (handlers_for (ee_topic e) b)) \<and>
         (\<forall>n b'. (bus_work ^^ n) b b' \<longrightarrow> n \<le> work_left b) \<and>
         ((\<nexists>b'. bus_work b b') \<longleftrightarrow> quiescent b \<or> workers_wait b) \<and>
         (quiescent b \<longrightarrow> mset (b_sent b) = mset (map fst (b_done b)) + mset (b_lost b)) \<and>
         (\<not> b_stopping b \<and> workers_wait b \<and> \<not> quiescent b \<longrightarrow>
            0 < b_capacity b \<and> (\<exists>r\<in>set (b_inflight b). snd r \<noteq> []))"
proof -
  note ok = bus.reach_inv [OF assms]
  have "mset (b_sent b) = mset (map fst (b_done b)) + mset (b_lost b)" if "quiescent b"
    using that ok by (simp add: quiescent_def bus_ok_def conserved_def)
  moreover have "n \<le> work_left b" if "(bus_work ^^ n) b b'" for n b' using work_bound [OF that] by simp
  moreover have "0 < b_capacity b \<and> (\<exists>r\<in>set (b_inflight b). snd r \<noteq> [])"
    if "\<not> b_stopping b" "workers_wait b" "\<not> quiescent b"
    using no_wait [OF ok that(1,2)] that(3) by fastforce
  ultimately show ?thesis using stuck_iff [OF ok] publish_sends [of b p e] by blast
qed

text \<open>A subscription adds its handler after the others of the topic and leaves other topics alone. Cancelling it
  restores the handlers, unless the topic contains a colon: then nothing is cancelled.\<close>

theorem subscription_round_trip:
  assumes "subscribe fresh topic h b = (b', i)" "i \<notin> set (dict_keys (dict_get_or (b_topics b) topic []))"
  shows "handlers_for topic b' = handlers_for topic b @ [h] \<and>
         (\<forall>t. t \<noteq> topic \<longrightarrow> handlers_for t b' = handlers_for t b) \<and>
         handlers_for topic (unsubscribe i b') =
           (if CHR '':'' \<in> set topic then handlers_for topic b' else handlers_for topic b)"
proof -
  let ?d = "dict_get_or (b_topics b) topic []"
  have i: "i = topic @ '':'' @ fresh" and b': "b' = b\<lparr>b_topics := dict_set (b_topics b) topic (dict_set ?d i h)\<rparr>"
    using assms(1) by (auto simp: subscribe_def Let_def)
  have n: "dict_get ?d i = None" using assms(2) by (simp add: map_of_eq_None_iff)
  have new: "dict_set ?d i h = ?d @ [(i, h)]" by (rule dict_set_append [OF n])
  have undo: "dict_del (dict_set ?d i h) i = ?d" using assms(2) by (intro dict_del_set) simp
  have "handlers_for topic (unsubscribe i b') = (if CHR '':'' \<in> set topic then handlers_for topic b' else handlers_for topic b)"
  proof (cases "CHR '':'' \<in> set topic")
    case True
    then have "topic_of i \<noteq> topic" using takeWhile_colon [of topic] by (simp add: i topic_of_sub [simplified])
    then show ?thesis using True by (auto simp: unsubscribe_def handlers_for_def split: option.splits)
  next
    case False
    then have "topic_of i = topic" using takeWhile_colon [of topic] by (simp add: i topic_of_sub [simplified])
    then show ?thesis using False undo by (simp add: unsubscribe_def handlers_for_def b')
  qed
  then show ?thesis by (simp add: handlers_for_def b' new)
qed

subsection \<open>Witnesses\<close>

definition demo_event :: event_envelope where
  "demo_event = \<lparr>ee_id = ''e'', ee_type = ''t'', ee_source = ''s'', ee_topic = ''a.b'', ee_timestamp = 0, ee_payload = PNone\<rparr>"

definition demo_bus :: "nat local_bus" where
  "demo_bus = bus_start (fst (subscribe ''u'' ''a.b'' 7 (bus_init 1 2)))"

lemma demo_bus_reach: "reach (\<lambda>b. \<exists>c w. b = bus_init c w) bus_step demo_bus"
proof -
  have "reach (\<lambda>b. \<exists>c w. b = bus_init c w) bus_step (bus_init 1 2 :: nat local_bus)" by (rule reach_init) blast
  then have "reach (\<lambda>b. \<exists>c w. b = bus_init c w) bus_step (fst (subscribe ''u'' ''a.b'' (7::nat) (bus_init 1 2)))"
    by (rule reach_step) (rule bs_subscribe)
  then show ?thesis unfolding demo_bus_def by (rule reach_step) (rule bs_start, simp add: subscribe_def bus_init_def Let_def)
qed

theorem bus_conserves_items_witness: "length (queued demo_bus) \<le> 1 \<and> length (b_inflight demo_bus) \<le> b_workers demo_bus"
proof -
  have "b_capacity demo_bus = 1"
    by (simp add: demo_bus_def bus_start_def subscribe_def bus_init_def Let_def)
  then show ?thesis using bus_conserves_items [OF demo_bus_reach] by simp
qed

text \<open>One worker, room for one item and two subscribers that publish again on the topic: the worker waits in
  its first handler for room that only it could make.\<close>

definition crowded_bus :: "nat local_bus" where
  "crowded_bus = bus_start (fst (subscribe ''v'' ''a.b'' 8 (fst (subscribe ''u'' ''a.b'' 7 (bus_init 1 1)))))"

definition stuck_bus :: "nat local_bus" where
  "stuck_bus = bus_publish (Worker 0) demo_event
     (the (put_item 0 (the (take_item (the (put_item 0 (bus_publish Outside demo_event crowded_bus)))))))"

lemma crowded_parts:
  "b_callers (bus_publish Outside demo_event crowded_bus) = [[(7, demo_event), (8, demo_event)]]"
  "b_callers stuck_bus = []" "b_queue stuck_bus = Some [(8, demo_event)]"
  "b_inflight stuck_bus = [((7, demo_event), [(7, demo_event), (8, demo_event)])]" "b_tasks stuck_bus = []"
  "b_flushing stuck_bus = []" "b_capacity stuck_bus = 1" "b_workers stuck_bus = 1" "b_started stuck_bus"
  by code_simp+

lemma stuck_reach: "reach (\<lambda>b. \<exists>c w. b = bus_init c w) bus_step stuck_bus"
proof -
  let ?r = "reach (\<lambda>b. \<exists>c w. b = bus_init c w) bus_step"
  let ?b0 = "fst (subscribe ''v'' ''a.b'' (8::nat) (fst (subscribe ''u'' ''a.b'' 7 (bus_init 1 1))))"
  let ?b1 = "bus_publish Outside demo_event crowded_bus"
  let ?b2 = "the (put_item 0 ?b1)" and ?b3 = "the (take_item (the (put_item 0 ?b1)))"
  let ?b4 = "the (put_item 0 ?b3)"
  have "?r (bus_init 1 1 :: nat local_bus)" by (rule reach_init) blast
  then have "?r (fst (subscribe ''u'' ''a.b'' (7::nat) (bus_init 1 1)))" by (rule reach_step) (rule bs_subscribe)
  then have "?r ?b0" by (rule reach_step) (rule bs_subscribe)
  then have "?r crowded_bus"
    unfolding crowded_bus_def by (rule reach_step) (rule bs_start, simp add: subscribe_def bus_init_def Let_def)
  then have "?r ?b1" by (rule reach_step) (rule bs_publish, simp)
  moreover have "put_item 0 ?b1 = Some ?b2" "take_item ?b2 = Some ?b3" "put_item 0 ?b3 = Some ?b4" by code_simp+
  ultimately have "?r ?b4" by (metis reach_step bs_work bw_put bw_take)
  moreover have "can_publish (Worker 0) ?b4" by code_simp
  ultimately show ?thesis unfolding stuck_bus_def by (metis reach_step bs_publish)
qed

theorem bus_stalls_exactly_when_workers_wait_witness:
  "b_sent (bus_publish Outside demo_event demo_bus) = [(7, demo_event)] \<and>
   (\<nexists>b'. bus_work stuck_bus b') \<and> \<not> quiescent stuck_bus"
proof (intro conjI)
  have "b_started demo_bus" "b_sent demo_bus = []" "handlers_for ''a.b'' demo_bus = [7]"
    by (simp_all add: demo_bus_def bus_start_def subscribe_def bus_init_def Let_def handlers_for_def dict_get_or_def)
  then show "b_sent (bus_publish Outside demo_event demo_bus) = [(7, demo_event)]"
    using bus_stalls_exactly_when_workers_wait [OF demo_bus_reach, of Outside demo_event] by (auto simp: demo_event_def)
  have "workers_wait stuck_bus" by (simp add: workers_wait_def has_room_def crowded_parts)
  then show "\<nexists>b'. bus_work stuck_bus b'" using bus_stalls_exactly_when_workers_wait [OF stuck_reach] by blast
  show "\<not> quiescent stuck_bus" by (simp add: quiescent_def crowded_parts)
qed

theorem subscription_round_trip_witness:
  "handlers_for ''x'' (unsubscribe ''x:u'' (fst (subscribe ''u'' ''x'' (7::nat) (bus_init 1 2)))) = [] \<and>
   handlers_for ''x:y'' (unsubscribe ''x:y:u'' (fst (subscribe ''u'' ''x:y'' (7::nat) (bus_init 1 2)))) = [7]"
proof -
  have e: "handlers_for t (bus_init 1 2 :: nat local_bus) = []" for t
    by (simp add: handlers_for_def bus_init_def dict_get_or_def)
  have s: "subscribe ''u'' t (7::nat) (bus_init 1 2) = (fst (subscribe ''u'' t 7 (bus_init 1 2)), t @ '':u'')" for t
    by (simp add: subscribe_def Let_def)
  have k: "i \<notin> set (dict_keys (dict_get_or (b_topics (bus_init 1 2 :: nat local_bus)) t []))" for i t
    by (simp add: bus_init_def dict_get_or_def)
  show ?thesis
    using subscription_round_trip [OF s k, of "''x''"] subscription_round_trip [OF s k, of "''x:y''"]
    by (simp add: e)
qed

end
