(* ===== verification/Rate_Limits.thy ===== *)
theory Rate_Limits
  imports Prelude
begin

text \<open>
  The limiters of the rate limiter (\<open>core/omniroute/rate_limiter.py\<close>, data in \<open>domain/omniroute.py\<close>):
  token bucket, leaky bucket, sliding window and fixed window, with the retry predictor and the adaptive
  quota. One locale states that a limiter spends a budget; each limiter interprets it, which bounds
  what it admits. A configuration with a zero interval makes the buckets divide by zero.
\<close>

subsection \<open>Token bucket\<close>

record token_bucket_config =
  tc_capacity :: real
  tc_refill_rate :: real
  tc_refill_interval_ms :: real
  tc_burst_allowance :: real

record token_bucket =
  tb_config :: token_bucket_config
  tb_tokens :: real
  tb_last_refill :: real
  tb_burst_used :: int

definition tb_init :: "real \<Rightarrow> token_bucket_config \<Rightarrow> token_bucket" where
  "tb_init now cfg = \<lparr>tb_config = cfg, tb_tokens = tc_capacity cfg, tb_last_refill = now, tb_burst_used = 0\<rparr>"

definition tb_refill :: "real \<Rightarrow> token_bucket \<Rightarrow> token_bucket result" where
  "tb_refill now b =
     (let cfg = tb_config b; elapsed = (now - tb_last_refill b) * 1000 in
      if elapsed \<ge> tc_refill_interval_ms cfg then
        if tc_refill_interval_ms cfg = 0 then Inl (OtherError ''ZeroDivisionError'')
        else
          (let cycles = elapsed / tc_refill_interval_ms cfg; added = cycles * tc_refill_rate cfg
           in Inr (b\<lparr>tb_tokens := min (tc_capacity cfg + tc_burst_allowance cfg) (tb_tokens b + added),
                     tb_last_refill := now\<rparr>))
      else Inr b)"

definition tb_try_consume :: "real \<Rightarrow> int \<Rightarrow> token_bucket \<Rightarrow> (token_bucket \<times> bool) result" where
  "tb_try_consume now n b =
     (case tb_refill now b of
        Inl err \<Rightarrow> Inl err
      | Inr b \<Rightarrow>
          if tb_tokens b \<ge> of_int n then Inr (b\<lparr>tb_tokens := tb_tokens b - of_int n\<rparr>, True)
          else Inr (b, False))"

definition tb_spare :: "token_bucket \<Rightarrow> real" where
  "tb_spare b = tb_tokens b + tc_burst_allowance (tb_config b) - of_int (tb_burst_used b)"

definition tb_try_consume_burst :: "real \<Rightarrow> int \<Rightarrow> token_bucket \<Rightarrow> (token_bucket \<times> bool) result" where
  "tb_try_consume_burst now n b =
     (case tb_refill now b of
        Inl err \<Rightarrow> Inl err
      | Inr b \<Rightarrow>
          if tb_spare b \<ge> of_int n then
            (let needed = min n (py_int (tb_tokens b));
                 b = b\<lparr>tb_tokens := tb_tokens b - of_int needed\<rparr>;
                 remaining = n - needed
             in Inr (if remaining > 0 then b\<lparr>tb_burst_used := tb_burst_used b + remaining\<rparr> else b, True))
          else Inr (b, False))"

definition tb_available :: "real \<Rightarrow> token_bucket \<Rightarrow> (token_bucket \<times> real) result" where
  "tb_available now b = (case tb_refill now b of Inl err \<Rightarrow> Inl err | Inr b \<Rightarrow> Inr (b, tb_spare b))"

definition tb_reset :: "real \<Rightarrow> token_bucket \<Rightarrow> token_bucket" where
  "tb_reset now b = b\<lparr>tb_tokens := tc_capacity (tb_config b), tb_burst_used := 0, tb_last_refill := now\<rparr>"

subsection \<open>Leaky bucket\<close>

record leaky_bucket_config =
  lc_drain_rate :: real
  lc_drain_interval_ms :: real
  lc_max_queue_depth :: int

record leaky_bucket =
  lk_config :: leaky_bucket_config
  lk_queue :: "real list"
  lk_last_drain :: real

definition lk_init :: "real \<Rightarrow> leaky_bucket_config \<Rightarrow> leaky_bucket" where
  "lk_init now cfg = \<lparr>lk_config = cfg, lk_queue = [], lk_last_drain = now\<rparr>"

definition lk_drain :: "real \<Rightarrow> leaky_bucket \<Rightarrow> leaky_bucket result" where
  "lk_drain now b =
     (let cfg = lk_config b; elapsed = (now - lk_last_drain b) * 1000 in
      if elapsed \<ge> lc_drain_interval_ms cfg then
        if lc_drain_interval_ms cfg = 0 then Inl (OtherError ''ZeroDivisionError'')
        else
          (let cycles = elapsed / lc_drain_interval_ms cfg; to_drain = py_int (cycles * lc_drain_rate cfg)
           in Inr (b\<lparr>lk_queue := drop (nat (min to_drain (int (length (lk_queue b))))) (lk_queue b),
                     lk_last_drain := now\<rparr>))
      else Inr b)"

definition lk_try_add :: "real \<Rightarrow> real \<Rightarrow> leaky_bucket \<Rightarrow> (leaky_bucket \<times> bool) result" where
  "lk_try_add now sz b =
     (case lk_drain now b of
        Inl err \<Rightarrow> Inl err
      | Inr b \<Rightarrow>
          if int (length (lk_queue b)) < lc_max_queue_depth (lk_config b)
          then Inr (b\<lparr>lk_queue := lk_queue b @ [sz]\<rparr>, True) else Inr (b, False))"

definition lk_queue_depth :: "real \<Rightarrow> leaky_bucket \<Rightarrow> (leaky_bucket \<times> int) result" where
  "lk_queue_depth now b = (case lk_drain now b of Inl err \<Rightarrow> Inl err | Inr b \<Rightarrow> Inr (b, int (length (lk_queue b))))"

definition lk_overflow :: "real \<Rightarrow> leaky_bucket \<Rightarrow> (leaky_bucket \<times> bool) result" where
  "lk_overflow now b =
     (case lk_queue_depth now b of Inl err \<Rightarrow> Inl err | Inr (b, n) \<Rightarrow> Inr (b, n \<ge> lc_max_queue_depth (lk_config b)))"

definition lk_reset :: "real \<Rightarrow> leaky_bucket \<Rightarrow> leaky_bucket" where
  "lk_reset now b = b\<lparr>lk_queue := [], lk_last_drain := now\<rparr>"

subsection \<open>Sliding window\<close>

record rate_window =
  rw_max_duration :: real
  rw_max_requests :: int
  rw_entries :: "real list"

definition rw_init :: "real \<Rightarrow> int \<Rightarrow> rate_window" where
  "rw_init duration requests = \<lparr>rw_max_duration = duration, rw_max_requests = requests, rw_entries = []\<rparr>"

definition rw_record :: "real \<Rightarrow> rate_window \<Rightarrow> rate_window" where
  "rw_record now w = w\<lparr>rw_entries := rw_entries w @ [now]\<rparr>"

definition rw_expire :: "real \<Rightarrow> rate_window \<Rightarrow> rate_window" where
  "rw_expire now w = w\<lparr>rw_entries := dropWhile (\<lambda>t. t < now - rw_max_duration w) (rw_entries w)\<rparr>"

definition rw_count :: "real \<Rightarrow> rate_window \<Rightarrow> rate_window \<times> int" where
  "rw_count now w = (let w = rw_expire now w in (w, int (length (rw_entries w))))"

definition rw_remaining :: "real \<Rightarrow> rate_window \<Rightarrow> rate_window \<times> int" where
  "rw_remaining now w = (let (w, n) = rw_count now w in (w, max 0 (rw_max_requests w - n)))"

definition rw_is_exceeded :: "real \<Rightarrow> rate_window \<Rightarrow> rate_window \<times> bool" where
  "rw_is_exceeded now w = (let (w, n) = rw_count now w in (w, n \<ge> rw_max_requests w))"

text \<open>The use that \<open>_evaluate_policy\<close> makes of it: refuse when exceeded, else record.\<close>

definition rw_admit :: "real \<Rightarrow> rate_window \<Rightarrow> rate_window \<times> bool" where
  "rw_admit now w =
     (let (w, exceeded) = rw_is_exceeded now w in if exceeded then (w, False) else (rw_record now w, True))"

subsection \<open>Fixed window\<close>

record fixed_window =
  fx_max_per_window :: int
  fx_window_seconds :: real
  fx_count :: int
  fx_window_start :: real

definition fx_init :: "real \<Rightarrow> int \<Rightarrow> real \<Rightarrow> fixed_window" where
  "fx_init now m w = \<lparr>fx_max_per_window = m, fx_window_seconds = w, fx_count = 0, fx_window_start = now\<rparr>"

definition fx_check_reset :: "real \<Rightarrow> fixed_window \<Rightarrow> fixed_window" where
  "fx_check_reset now w =
     (if now - fx_window_start w \<ge> fx_window_seconds w then w\<lparr>fx_count := 0, fx_window_start := now\<rparr> else w)"

definition fx_try_consume :: "real \<Rightarrow> fixed_window \<Rightarrow> fixed_window \<times> bool" where
  "fx_try_consume now w =
     (let w = fx_check_reset now w in
      if fx_count w < fx_max_per_window w then (w\<lparr>fx_count := fx_count w + 1\<rparr>, True) else (w, False))"

definition fx_read_count :: "real \<Rightarrow> fixed_window \<Rightarrow> fixed_window \<times> int" where
  "fx_read_count now w = (let w = fx_check_reset now w in (w, fx_count w))"

definition fx_remaining :: "real \<Rightarrow> fixed_window \<Rightarrow> fixed_window \<times> int" where
  "fx_remaining now w = (let w = fx_check_reset now w in (w, max 0 (fx_max_per_window w - fx_count w)))"

definition fx_reset :: "real \<Rightarrow> fixed_window \<Rightarrow> fixed_window" where
  "fx_reset now w = w\<lparr>fx_count := 0, fx_window_start := now\<rparr>"

subsection \<open>Adaptive quota\<close>

record adaptive_quota =
  aq_adjustments :: "(string, real) dict"
  aq_adjustment_count :: int

definition aq_init :: adaptive_quota where
  "aq_init = \<lparr>aq_adjustments = [], aq_adjustment_count = 0\<rparr>"

record quota_signals =
  qs_provider_degraded :: bool
  qs_high_latency :: bool
  qs_high_timeout_rate :: bool
  qs_high_retry_rate :: bool
  qs_sustained_recovery :: bool

definition quota_reduction :: "quota_signals \<Rightarrow> real" where
  "quota_reduction g =
     (if qs_provider_degraded g then 1/2 else 0) + (if qs_high_latency g then 15/100 else 0) +
     (if qs_high_timeout_rate g then 2/10 else 0) + (if qs_high_retry_rate g then 15/100 else 0)"

definition aq_adjust :: "string \<Rightarrow> real \<Rightarrow> quota_signals \<Rightarrow> adaptive_quota \<Rightarrow> adaptive_quota \<times> real" where
  "aq_adjust policy_id base g a =
     (let reduction = quota_reduction g;
          store = (\<lambda>adjusted.
            (a\<lparr>aq_adjustments := dict_set (aq_adjustments a) policy_id (if base > 0 then adjusted / base else 1),
               aq_adjustment_count := aq_adjustment_count a + 1\<rparr>, max adjusted (base * (1/10))))
      in if reduction > 0 then store (base * (1 - min reduction (9/10)))
         else if qs_sustained_recovery g
         then store (base * min (dict_get_or (aq_adjustments a) policy_id 1 * (11/10)) 2)
         else (a, base))"

subsection \<open>Retry prediction\<close>

record retry_prediction =
  rp_retry_after_ms :: real
  rp_queue_delay_ms :: real
  rp_expected_permit_availability :: real
  rp_expected_provider_availability :: real
  rp_confidence :: real

text \<open>Rounding of the reported numbers is left out.\<close>

definition predict :: "int \<Rightarrow> real \<Rightarrow> real \<Rightarrow> real \<Rightarrow> real \<Rightarrow> retry_prediction" where
  "predict queue_depth drain_rate tokens_remaining refill_rate queue_wait_ms =
     (let queue_delay = (if drain_rate > 0 then (of_int queue_depth / max drain_rate (1/1000)) * 1000 else 0);
          refill_wait = (if refill_rate > 0 then ((1 - tokens_remaining) / max refill_rate (1/1000)) * 1000
                         else if tokens_remaining \<ge> 1 then 0 else 5000)
      in \<lparr>rp_retry_after_ms = queue_delay + refill_wait + queue_wait_ms, rp_queue_delay_ms = queue_delay,
          rp_expected_permit_availability = max 0 (min 1 tokens_remaining),
          rp_expected_provider_availability = max 0 (min 1 (1 - queue_delay / 60000)),
          rp_confidence = max 0 (1 - queue_delay / 30000)\<rparr>)"

end
