(* ===== verification/Rate_Limit_Laws.thy ===== *)
theory Rate_Limit_Laws
  imports Rate_Limits
begin

text \<open>
  What the limiters admit. A limiter that pays for every admission out of a budget admits at most the
  budget, over any sequence of calls; the four limiters differ in the budget.
\<close>

subsection \<open>Budgets\<close>

locale budgeted =
  fixes call :: "'i \<Rightarrow> 's \<Rightarrow> 's \<times> 'o"
    and valid :: "'i \<Rightarrow> bool"
    and ok :: "'s \<Rightarrow> bool"
    and cost :: "'o \<Rightarrow> real"
    and budget :: "'s \<Rightarrow> real"
  assumes budget_nonneg: "ok s \<Longrightarrow> 0 \<le> budget s"
    and call_ok: "ok s \<Longrightarrow> valid i \<Longrightarrow> ok (fst (call i s))"
    and call_pays: "ok s \<Longrightarrow> valid i \<Longrightarrow> cost (snd (call i s)) + budget (fst (call i s)) \<le> budget s"
begin

lemma run_pays:
  "ok s \<Longrightarrow> list_all valid is \<Longrightarrow>
   ok (fst (run_calls call is s)) \<and>
   sum_list (map cost (snd (run_calls call is s))) + budget (fst (run_calls call is s)) \<le> budget s"
proof (induction "is" arbitrary: s)
  case (Cons i "is")
  let ?s = "fst (call i s)"
  have "ok ?s" using Cons.prems call_ok by simp
  with Cons.IH [of ?s] Cons.prems call_pays [of s i] show ?case by (simp add: case_prod_beta)
qed simp

lemma run_within_budget:
  "ok s \<Longrightarrow> list_all valid is \<Longrightarrow> sum_list (map cost (snd (run_calls call is s))) \<le> budget s"
  using run_pays [of s "is"] budget_nonneg by force

end

lemma accrued_nonneg: "0 < i \<Longrightarrow> 0 \<le> r \<Longrightarrow> i \<le> e \<Longrightarrow> 0 \<le> e / i * (r :: real)"
  by simp

lemma accrued_split: "(u - l) * 1000 / i * r + (T - u) * 1000 / i * r = (T - l) * 1000 / i * (r :: real)"
proof -
  have "(u - l) * 1000 / i * r + (T - u) * 1000 / i * r = ((u - l) * 1000 + (T - u) * 1000) / i * r"
    by (simp only: add_divide_distrib distrib_right)
  then show ?thesis by (simp add: algebra_simps)
qed

subsection \<open>Token bucket\<close>

definition tc_ok :: "token_bucket_config \<Rightarrow> bool" where
  "tc_ok cfg \<longleftrightarrow> 0 \<le> tc_capacity cfg \<and> 0 \<le> tc_refill_rate cfg \<and> 0 < tc_refill_interval_ms cfg \<and> 0 \<le> tc_burst_allowance cfg"

definition tb_ok :: "token_bucket_config \<Rightarrow> real \<Rightarrow> token_bucket \<Rightarrow> bool" where
  "tb_ok cfg T b \<longleftrightarrow> tb_config b = cfg \<and> 0 \<le> tb_tokens b \<and> tb_tokens b \<le> tc_capacity cfg + tc_burst_allowance cfg \<and>
     tb_last_refill b \<le> T"

definition tb_budget :: "token_bucket_config \<Rightarrow> real \<Rightarrow> token_bucket \<Rightarrow> real" where
  "tb_budget cfg T b = tb_tokens b + (T - tb_last_refill b) * 1000 / tc_refill_interval_ms cfg * tc_refill_rate cfg"

text \<open>One call, answered by the number of tokens it was given; a call that raises is given none.\<close>

definition spent :: "nat result \<Rightarrow> real" where
  "spent r = (case r of Inl err \<Rightarrow> 0 | Inr n \<Rightarrow> real n)"

definition tb_call :: "real \<times> nat \<Rightarrow> token_bucket \<Rightarrow> token_bucket \<times> nat result" where
  "tb_call i b =
     (case tb_try_consume (fst i) (int (snd i)) b of
        Inl err \<Rightarrow> (b, Inl err)
      | Inr (b', ok) \<Rightarrow> (b', Inr (if ok then snd i else 0)))"

lemma tb_refill_spec:
  assumes "tc_ok cfg" "tb_ok cfg T b" "now \<le> T"
  obtains b' where "tb_refill now b = Inr b'" "tb_ok cfg T b'" "tb_budget cfg T b' \<le> tb_budget cfg T b"
proof -
  let ?i = "tc_refill_interval_ms cfg" and ?r = "tc_refill_rate cfg"
  have pos: "0 < ?i" "0 \<le> ?r" using assms(1) by (simp_all add: tc_ok_def)
  show ?thesis
  proof (cases "(now - tb_last_refill b) * 1000 \<ge> ?i")
    case True
    let ?added = "(now - tb_last_refill b) * 1000 / ?i * ?r"
    let ?b = "b\<lparr>tb_tokens := min (tc_capacity cfg + tc_burst_allowance cfg) (tb_tokens b + ?added), tb_last_refill := now\<rparr>"
    have a: "0 \<le> ?added" by (rule accrued_nonneg [OF pos True])
    have "tb_refill now b = Inr ?b" using True pos assms(2) by (simp add: tb_refill_def tb_ok_def Let_def)
    moreover have "tb_ok cfg T ?b" using assms a by (simp add: tb_ok_def tc_ok_def)
    moreover have "?added + (T - now) * 1000 / ?i * ?r = (T - tb_last_refill b) * 1000 / ?i * ?r"
      by (rule accrued_split)
    then have "tb_budget cfg T ?b \<le> tb_budget cfg T b" by (simp add: tb_budget_def)
    ultimately show ?thesis using that by blast
  next
    case False
    then have "tb_refill now b = Inr b" using assms(2) by (simp add: tb_refill_def tb_ok_def Let_def)
    then show ?thesis using that assms(2) by blast
  qed
qed

interpretation tb: budgeted tb_call "\<lambda>i. fst i \<le> T" "\<lambda>b. tc_ok cfg \<and> tb_ok cfg T b" spent "tb_budget cfg T" for cfg T
proof unfold_locales
  fix b assume ok: "tc_ok cfg \<and> tb_ok cfg T b"
  then show "0 \<le> tb_budget cfg T b"
    unfolding tb_budget_def tb_ok_def tc_ok_def by (intro add_nonneg_nonneg mult_nonneg_nonneg divide_nonneg_pos) simp_all
  fix i :: "real \<times> nat" assume i: "fst i \<le> T"
  obtain b' where b': "tb_refill (fst i) b = Inr b'" "tb_ok cfg T b'" "tb_budget cfg T b' \<le> tb_budget cfg T b"
    using ok i tb_refill_spec by blast
  show "tc_ok cfg \<and> tb_ok cfg T (fst (tb_call i b))"
    using ok b' by (auto simp: tb_call_def tb_try_consume_def tb_ok_def)
  show "spent (snd (tb_call i b)) + tb_budget cfg T (fst (tb_call i b)) \<le> tb_budget cfg T b"
    using b' by (auto simp: tb_call_def tb_try_consume_def tb_budget_def spent_def)
qed

subsection \<open>Leaky bucket\<close>

definition lc_ok :: "leaky_bucket_config \<Rightarrow> bool" where
  "lc_ok cfg \<longleftrightarrow> 0 \<le> lc_drain_rate cfg \<and> 0 < lc_drain_interval_ms cfg \<and> 0 \<le> lc_max_queue_depth cfg"

definition lk_ok :: "leaky_bucket_config \<Rightarrow> real \<Rightarrow> leaky_bucket \<Rightarrow> bool" where
  "lk_ok cfg T b \<longleftrightarrow> lk_config b = cfg \<and> int (length (lk_queue b)) \<le> lc_max_queue_depth cfg \<and> lk_last_drain b \<le> T"

definition lk_budget :: "leaky_bucket_config \<Rightarrow> real \<Rightarrow> leaky_bucket \<Rightarrow> real" where
  "lk_budget cfg T b =
     of_int (lc_max_queue_depth cfg - int (length (lk_queue b))) +
     (T - lk_last_drain b) * 1000 / lc_drain_interval_ms cfg * lc_drain_rate cfg"

definition lk_call :: "real \<Rightarrow> leaky_bucket \<Rightarrow> leaky_bucket \<times> nat result" where
  "lk_call now b =
     (case lk_try_add now 1 b of Inl err \<Rightarrow> (b, Inl err) | Inr (b', ok) \<Rightarrow> (b', Inr (if ok then 1 else 0)))"

lemma lk_drain_spec:
  assumes "lc_ok cfg" "lk_ok cfg T b" "now \<le> T"
  obtains b' where "lk_drain now b = Inr b'" "lk_ok cfg T b'" "lk_budget cfg T b' \<le> lk_budget cfg T b"
proof -
  let ?i = "lc_drain_interval_ms cfg" and ?r = "lc_drain_rate cfg"
  have pos: "0 < ?i" "0 \<le> ?r" using assms(1) by (simp_all add: lc_ok_def)
  show ?thesis
  proof (cases "(now - lk_last_drain b) * 1000 \<ge> ?i")
    case True
    let ?x = "(now - lk_last_drain b) * 1000 / ?i * ?r"
    let ?n = "nat (min (py_int ?x) (int (length (lk_queue b))))"
    let ?b = "b\<lparr>lk_queue := drop ?n (lk_queue b), lk_last_drain := now\<rparr>"
    have x: "0 \<le> ?x" by (rule accrued_nonneg [OF pos True])
    then have "real ?n \<le> ?x" by (simp add: py_int_def) linarith
    moreover have "real (length (lk_queue b)) - real (length (drop ?n (lk_queue b))) \<le> real ?n" by simp
    moreover have "?x + (T - now) * 1000 / ?i * ?r = (T - lk_last_drain b) * 1000 / ?i * ?r"
      by (rule accrued_split)
    moreover have "lk_budget cfg T ?b = of_int (lc_max_queue_depth cfg) - real (length (drop ?n (lk_queue b))) +
        (T - now) * 1000 / ?i * ?r" unfolding lk_budget_def by simp
    moreover have "lk_budget cfg T b = of_int (lc_max_queue_depth cfg) - real (length (lk_queue b)) +
        (T - lk_last_drain b) * 1000 / ?i * ?r" unfolding lk_budget_def by simp
    ultimately have "lk_budget cfg T ?b \<le> lk_budget cfg T b" by linarith
    moreover have "lk_drain now b = Inr ?b" using True pos assms(2) by (simp add: lk_drain_def lk_ok_def Let_def)
    moreover have "length (drop ?n (lk_queue b)) \<le> length (lk_queue b)" by simp
    then have "lk_ok cfg T ?b" using assms unfolding lk_ok_def by (simp del: length_drop)
    ultimately show ?thesis using that by blast
  next
    case False
    then have "lk_drain now b = Inr b" using assms(2) by (simp add: lk_drain_def lk_ok_def Let_def)
    then show ?thesis using that assms(2) by blast
  qed
qed

interpretation lk: budgeted lk_call "\<lambda>now. now \<le> T" "\<lambda>b. lc_ok cfg \<and> lk_ok cfg T b" spent "lk_budget cfg T" for cfg T
proof unfold_locales
  fix b assume ok: "lc_ok cfg \<and> lk_ok cfg T b"
  then show "0 \<le> lk_budget cfg T b"
    unfolding lk_budget_def lk_ok_def lc_ok_def by (intro add_nonneg_nonneg mult_nonneg_nonneg divide_nonneg_pos) simp_all
  fix now assume "now \<le> T"
  then obtain b' where b': "lk_drain now b = Inr b'" "lk_ok cfg T b'" "lk_budget cfg T b' \<le> lk_budget cfg T b"
    using ok lk_drain_spec by blast
  show "lc_ok cfg \<and> lk_ok cfg T (fst (lk_call now b))"
    using ok b' by (auto simp: lk_call_def lk_try_add_def lk_ok_def)
  show "spent (snd (lk_call now b)) + lk_budget cfg T (fst (lk_call now b)) \<le> lk_budget cfg T b"
    using b' by (auto simp: lk_call_def lk_try_add_def lk_budget_def spent_def)
qed

subsection \<open>Windows\<close>

definition admitted :: "bool \<Rightarrow> real" where
  "admitted r = (if r then 1 else 0)"

text \<open>Entries of a sliding window from the instant \<open>a\<close> on.\<close>

definition since :: "real \<Rightarrow> rate_window \<Rightarrow> nat" where
  "since a w = length (filter (\<lambda>t. a \<le> t) (rw_entries w))"

lemma since_expire: "now - rw_max_duration w \<le> a \<Longrightarrow> since a (rw_expire now w) = since a w"
proof -
  assume c: "now - rw_max_duration w \<le> a"
  have "filter (\<lambda>t. a \<le> t) (dropWhile (\<lambda>t. t < now - rw_max_duration w) xs) = filter (\<lambda>t. a \<le> t) xs" for xs
    using c by (induction xs) auto
  then show ?thesis by (simp add: since_def rw_expire_def)
qed

interpretation rw: budgeted rw_admit "\<lambda>now. a \<le> now \<and> now \<le> a + d"
  "\<lambda>w. 0 \<le> m \<and> rw_max_duration w = d \<and> rw_max_requests w = m \<and> int (since a w) \<le> m" admitted
  "\<lambda>w. of_int (m - int (since a w))" for a d m
proof unfold_locales
  fix w :: rate_window assume w: "0 \<le> m \<and> rw_max_duration w = d \<and> rw_max_requests w = m \<and> int (since a w) \<le> m"
  then show "0 \<le> (of_int (m - int (since a w)) :: real)" by simp
  fix now assume now: "a \<le> now \<and> now \<le> a + d"
  let ?w = "rw_expire now w"
  have e: "since a ?w = since a w" using w now by (intro since_expire) linarith
  have le: "since a ?w \<le> length (rw_entries ?w)" by (simp add: since_def)
  have rec: "since a (rw_record now ?w) = Suc (since a w)" using now e by (simp add: since_def rw_record_def)
  have sel: "rw_max_duration ?w = d" "rw_max_requests ?w = m" using w by (simp_all add: rw_expire_def)
  have adm: "rw_admit now w = (if int (length (rw_entries ?w)) \<ge> m then (?w, False) else (rw_record now ?w, True))"
    by (simp add: rw_admit_def rw_is_exceeded_def rw_count_def Let_def sel)
  show "0 \<le> m \<and> rw_max_duration (fst (rw_admit now w)) = d \<and> rw_max_requests (fst (rw_admit now w)) = m \<and>
      int (since a (fst (rw_admit now w))) \<le> m"
    using w sel e le rec unfolding adm by (simp add: rw_record_def)
  show "admitted (snd (rw_admit now w)) + of_int (m - int (since a (fst (rw_admit now w)))) \<le> of_int (m - int (since a w))"
    using e rec unfolding adm by (simp add: admitted_def)
qed

definition fx_ok :: "int \<Rightarrow> real \<Rightarrow> fixed_window \<Rightarrow> bool" where
  "fx_ok m d w \<longleftrightarrow> fx_max_per_window w = m \<and> fx_window_seconds w = d \<and> 0 \<le> fx_count w \<and> fx_count w \<le> m"

lemma fx_ok_consume: "fx_ok m d w \<Longrightarrow> fx_ok m d (fst (fx_try_consume t w))"
  by (simp add: fx_ok_def fx_try_consume_def fx_check_reset_def Let_def)

definition fx_budget :: "real \<Rightarrow> int \<Rightarrow> fixed_window \<Rightarrow> real" where
  "fx_budget a m w = of_int (m - fx_count w) + (if fx_window_start w < a then of_int m else 0)"

interpretation fx: budgeted fx_try_consume "\<lambda>now. a \<le> now \<and> now < a + d"
  "fx_ok m d" admitted "fx_budget a m" for a d m
proof unfold_locales
  fix w assume w: "fx_ok m d w"
  then show "0 \<le> fx_budget a m w" by (simp add: fx_budget_def fx_ok_def)
  fix now assume now: "a \<le> now \<and> now < a + d"
  show "fx_ok m d (fst (fx_try_consume now w))" using w by (rule fx_ok_consume)
  show "admitted (snd (fx_try_consume now w)) + fx_budget a m (fst (fx_try_consume now w)) \<le> fx_budget a m w"
    using w now by (simp add: fx_try_consume_def fx_check_reset_def Let_def admitted_def fx_budget_def fx_ok_def)
qed

text \<open>What earlier calls can have left behind.\<close>

lemma rw_admit_sel:
  "rw_max_duration (fst (rw_admit t w)) = rw_max_duration w" "rw_max_requests (fst (rw_admit t w)) = rw_max_requests w"
  "set (rw_entries (fst (rw_admit t w))) \<subseteq> insert t (set (rw_entries w))"
  by (auto simp: rw_admit_def rw_is_exceeded_def rw_count_def rw_expire_def rw_record_def Let_def dest: set_dropWhileD)

lemma rw_run_sel:
  "rw_max_duration (fst (run_calls rw_admit ts w)) = rw_max_duration w"
  "rw_max_requests (fst (run_calls rw_admit ts w)) = rw_max_requests w"
  "set (rw_entries (fst (run_calls rw_admit ts w))) \<subseteq> set ts \<union> set (rw_entries w)"
proof -
  have "rw_max_duration (fst (run_calls rw_admit ts w)) = rw_max_duration w \<and>
    rw_max_requests (fst (run_calls rw_admit ts w)) = rw_max_requests w \<and>
    set (rw_entries (fst (run_calls rw_admit ts w))) \<subseteq> set ts \<union> set (rw_entries w)"
  proof (induction ts arbitrary: w)
    case (Cons t ts)
    from Cons.IH [of "fst (rw_admit t w)"] rw_admit_sel [of t w] show ?case by (auto simp: case_prod_beta)
  qed simp
  then show "rw_max_duration (fst (run_calls rw_admit ts w)) = rw_max_duration w"
    "rw_max_requests (fst (run_calls rw_admit ts w)) = rw_max_requests w"
    "set (rw_entries (fst (run_calls rw_admit ts w))) \<subseteq> set ts \<union> set (rw_entries w)" by simp_all
qed

lemma fx_ok_run: "fx_ok m d w \<Longrightarrow> fx_ok m d (fst (run_calls fx_try_consume ts w))"
  by (induction ts arbitrary: w) (simp_all add: fx_ok_consume case_prod_beta)

subsection \<open>Properties\<close>

text \<open>Whatever requests arrive up to the instant \<open>T\<close>, in any order and for any amounts, a token bucket
  hands out at most its capacity plus what the refill rate yields over the elapsed time, and a leaky
  bucket accepts at most its depth plus what drains in that time.\<close>

theorem bucket_admissions_bounded:
  assumes "tc_ok cfg" "lc_ok lcfg" "t0 \<le> T" "list_all (\<lambda>(t, n). t \<le> T) calls" "list_all (\<lambda>t. t \<le> T) arrivals"
  shows "sum_list (map spent (snd (run_calls tb_call calls (tb_init t0 cfg)))) \<le>
           tc_capacity cfg + (T - t0) * 1000 / tc_refill_interval_ms cfg * tc_refill_rate cfg \<and>
         sum_list (map spent (snd (run_calls lk_call arrivals (lk_init t0 lcfg)))) \<le>
           of_int (lc_max_queue_depth lcfg) + (T - t0) * 1000 / lc_drain_interval_ms lcfg * lc_drain_rate lcfg"
proof -
  have a: "tc_ok cfg \<and> tb_ok cfg T (tb_init t0 cfg)" using assms by (simp add: tb_ok_def tb_init_def tc_ok_def)
  have b: "lc_ok lcfg \<and> lk_ok lcfg T (lk_init t0 lcfg)" using assms by (simp add: lk_ok_def lk_init_def lc_ok_def)
  have c: "list_all (\<lambda>i. fst i \<le> T) calls" using assms(4) by (simp add: list_all_iff case_prod_beta)
  show ?thesis
    using tb.run_within_budget [OF a c] lk.run_within_budget [OF b assms(5)]
    by (simp add: tb_budget_def tb_init_def lk_budget_def lk_init_def)
qed

text \<open>In any span no longer than its duration the sliding window admits at most its limit, whatever was
  admitted before; the fixed window admits up to twice its limit, and there are calls that reach this.\<close>

theorem window_admissions_bounded:
  assumes "0 \<le> m" "list_all (\<lambda>t. a \<le> t \<and> t \<le> a + d) ts" "list_all (\<lambda>t. a \<le> t \<and> t < a + d) us"
    and "list_all (\<lambda>t. t < a) before"
  shows "sum_list (map admitted (snd (run_calls rw_admit ts (fst (run_calls rw_admit before (rw_init d m)))))) \<le> of_int m \<and>
         sum_list (map admitted (snd (run_calls fx_try_consume us (fst (run_calls fx_try_consume before (fx_init t0 m d))))))
           \<le> 2 * of_int m \<and>
         snd (run_calls fx_try_consume [9, 10] (fx_init 0 1 10)) = [True, True]"
proof -
  let ?w = "fst (run_calls rw_admit before (rw_init d m))"
  let ?f = "fst (run_calls fx_try_consume before (fx_init t0 m d))"
  note sel = rw_run_sel [of before "rw_init d m"]
  have "set (rw_entries ?w) \<subseteq> set before" using sel(3) by (simp add: rw_init_def)
  then have z: "since a ?w = 0" using assms(4) by (force simp: since_def list_all_iff filter_empty_conv)
  then have "0 \<le> m \<and> rw_max_duration ?w = d \<and> rw_max_requests ?w = m \<and> int (since a ?w) \<le> m"
    using sel(1,2) assms(1) by (simp add: rw_init_def)
  from rw.run_within_budget [OF this assms(2)] z
  have "sum_list (map admitted (snd (run_calls rw_admit ts ?w))) \<le> of_int m" by simp
  moreover have ok: "fx_ok m d ?f" by (rule fx_ok_run) (use assms(1) in \<open>simp add: fx_ok_def fx_init_def\<close>)
  have "fx_budget a m ?f \<le> 2 * of_int m" using ok assms(1) by (simp add: fx_budget_def fx_ok_def)
  with fx.run_within_budget [OF ok assms(3)]
  have "sum_list (map admitted (snd (run_calls fx_try_consume us ?f))) \<le> 2 * of_int m" by linarith
  ultimately show ?thesis by (simp add: fx_try_consume_def fx_check_reset_def fx_init_def)
qed

subsection \<open>Witnesses\<close>

theorem bucket_admissions_bounded_witness:
  "sum_list (map spent (snd (run_calls tb_call [(0, 3), (0, 4), (1, 2)]
     (tb_init 0 \<lparr>tc_capacity = 5, tc_refill_rate = 1, tc_refill_interval_ms = 1000, tc_burst_allowance = 0\<rparr>)))) \<le> 6"
  using bucket_admissions_bounded [of "\<lparr>tc_capacity = 5, tc_refill_rate = 1, tc_refill_interval_ms = 1000, tc_burst_allowance = 0\<rparr>"
      "\<lparr>lc_drain_rate = 1, lc_drain_interval_ms = 1000, lc_max_queue_depth = 3\<rparr>" 0 1 "[(0, 3), (0, 4), (1, 2)]" "[]"]
  by (simp add: tc_ok_def lc_ok_def)

theorem window_admissions_bounded_witness:
  "sum_list (map admitted (snd (run_calls rw_admit [5, 6, 7] (fst (run_calls rw_admit [1] (rw_init 10 2)))))) \<le> 2"
  using window_admissions_bounded [of 2 5 10 "[5, 6, 7]" "[]" "[1]" 0] by simp

end
