(* ===== verification/Permits.thy ===== *)
theory Permits
  imports Prelude
begin

text \<open>
  The permit manager of the rate limiter (\<open>core/omniroute/rate_limiter.py\<close>, data in
  \<open>domain/omniroute.py\<close>): reservations with their lifecycle, the bounded audit log and the counts.
  The laws say which changes of status are possible, and that the counts partition the reservations.
\<close>

subsection \<open>Data\<close>

datatype quota_scope = QS_GLOBAL | QS_PROVIDER | QS_MODEL | QS_WORKSPACE | QS_ORGANIZATION | QS_USER | QS_AGENT

datatype permit_status = PS_Reserved | PS_Granted | PS_Committed | PS_Released | PS_RolledBack | PS_Expired

record permit_key =
  pk_policy_id :: string
  pk_scope :: quota_scope
  pk_scope_id :: string
  pk_provider :: string
  pk_model :: string

record permit_reservation =
  pe_id :: string
  pe_key :: permit_key
  pe_count :: int
  pe_status :: permit_status
  pe_ttl_seconds :: real
  pe_created_at :: real
  pe_expires_at :: real
  pe_committed_at :: "real option"
  pe_released_at :: "real option"

record permit_audit_record =
  pa_action :: permit_status
  pa_key :: permit_key
  pa_count :: int
  pa_timestamp :: real

record permit_grant =
  pg_reservation_id :: string
  pg_key :: permit_key
  pg_count :: int
  pg_granted :: bool

record permit_release =
  pl_reservation_id :: string
  pl_policy_id :: string
  pl_count :: int
  pl_released :: bool

record permit_manager =
  pm_reservations :: "(string, permit_reservation) dict"
  pm_audit_log :: "permit_audit_record list"

definition MAX_RECORDS :: nat where
  "MAX_RECORDS = 10000"

definition pm_init :: permit_manager where
  "pm_init = \<lparr>pm_reservations = [], pm_audit_log = []\<rparr>"

subsection \<open>Operations\<close>

definition pm_audit :: "permit_audit_record \<Rightarrow> permit_manager \<Rightarrow> permit_manager" where
  "pm_audit r m = m\<lparr>pm_audit_log := deque_append MAX_RECORDS (pm_audit_log m) r\<rparr>"

definition pm_store :: "real \<Rightarrow> int \<Rightarrow> permit_reservation \<Rightarrow> permit_manager \<Rightarrow> permit_manager" where
  "pm_store now n r m =
     pm_audit \<lparr>pa_action = pe_status r, pa_key = pe_key r, pa_count = n, pa_timestamp = now\<rparr>
       (m\<lparr>pm_reservations := dict_set (pm_reservations m) (pe_id r) r\<rparr>)"

definition pm_reserve ::
  "string \<Rightarrow> real \<Rightarrow> permit_key \<Rightarrow> int \<Rightarrow> real \<Rightarrow> permit_manager \<Rightarrow> permit_manager \<times> permit_reservation" where
  "pm_reserve fresh now key n ttl m =
     (let r = \<lparr>pe_id = fresh, pe_key = key, pe_count = n, pe_status = PS_Reserved, pe_ttl_seconds = ttl,
               pe_created_at = now, pe_expires_at = now + ttl, pe_committed_at = None, pe_released_at = None\<rparr>
      in (pm_store now n r m, r))"

definition pm_expire :: "real \<Rightarrow> string \<Rightarrow> permit_manager \<Rightarrow> permit_manager" where
  "pm_expire now i m =
     (case dict_get (pm_reservations m) i of
        None \<Rightarrow> m
      | Some r \<Rightarrow> pm_store now (pe_count r) (r\<lparr>pe_status := PS_Expired\<rparr>) m)"

definition pm_grant :: "real \<Rightarrow> string \<Rightarrow> permit_manager \<Rightarrow> permit_manager \<times> permit_grant option" where
  "pm_grant now i m =
     (case dict_get (pm_reservations m) i of
        None \<Rightarrow> (m, None)
      | Some r \<Rightarrow>
          if pe_status r \<noteq> PS_Reserved then (m, None)
          else if now > pe_expires_at r then (pm_expire now i m, None)
          else (pm_store now (pe_count r) (r\<lparr>pe_status := PS_Granted, pe_committed_at := Some now\<rparr>) m,
                Some \<lparr>pg_reservation_id = i, pg_key = pe_key r, pg_count = pe_count r, pg_granted = True\<rparr>))"

definition pm_release :: "real \<Rightarrow> string \<Rightarrow> int \<Rightarrow> permit_manager \<Rightarrow> permit_manager \<times> permit_release option" where
  "pm_release now i n m =
     (case dict_get (pm_reservations m) i of
        None \<Rightarrow> (m, None)
      | Some r \<Rightarrow>
          if pe_status r \<notin> {PS_Granted, PS_Committed} then (m, None)
          else (pm_store now n (r\<lparr>pe_status := PS_Released, pe_released_at := Some now\<rparr>) m,
                Some \<lparr>pl_reservation_id = i, pl_policy_id = pk_policy_id (pe_key r), pl_count = n, pl_released = True\<rparr>))"

definition pm_rollback :: "real \<Rightarrow> string \<Rightarrow> permit_manager \<Rightarrow> permit_manager \<times> bool" where
  "pm_rollback now i m =
     (case dict_get (pm_reservations m) i of
        None \<Rightarrow> (m, False)
      | Some r \<Rightarrow>
          if pe_status r \<notin> {PS_Reserved, PS_Granted} then (m, False)
          else (pm_store now (pe_count r) (r\<lparr>pe_status := PS_RolledBack\<rparr>) m, True))"

definition stale :: "real \<Rightarrow> permit_reservation \<Rightarrow> bool" where
  "stale now r \<longleftrightarrow> pe_status r = PS_Reserved \<and> now > pe_expires_at r"

definition pm_expire_stale :: "real \<Rightarrow> permit_manager \<Rightarrow> permit_manager \<times> int" where
  "pm_expire_stale now m =
     fold (\<lambda>(i, r) (m, n). if stale now r then (pm_expire now i m, n + 1) else (m, n)) (pm_reservations m) (m, 0)"

record permit_snapshot =
  sn_total :: int
  sn_active :: int
  sn_granted :: int
  sn_released :: int
  sn_rolled_back :: int
  sn_expired :: int
  sn_pending :: int

definition count_status :: "permit_status set \<Rightarrow> permit_manager \<Rightarrow> int" where
  "count_status S m = int (length (filter (\<lambda>r. pe_status r \<in> S) (dict_values (pm_reservations m))))"

definition pm_snapshot :: "permit_manager \<Rightarrow> permit_snapshot" where
  "pm_snapshot m =
     \<lparr>sn_total = int (length (pm_reservations m)), sn_active = count_status {PS_Reserved} m,
      sn_granted = count_status {PS_Granted} m, sn_released = count_status {PS_Released} m,
      sn_rolled_back = count_status {PS_RolledBack} m, sn_expired = count_status {PS_Expired} m,
      sn_pending = count_status {PS_Reserved, PS_Granted} m\<rparr>"

subsection \<open>Lifecycle\<close>

text \<open>The possible changes of status.\<close>

inductive status_step :: "permit_status \<Rightarrow> permit_status \<Rightarrow> bool" where
  st_grant: "status_step PS_Reserved PS_Granted"
| st_release: "status_step PS_Granted PS_Released"
| st_roll_reserved: "status_step PS_Reserved PS_RolledBack"
| st_roll_granted: "status_step PS_Granted PS_RolledBack"
| st_expire: "status_step PS_Reserved PS_Expired"

inductive_simps status_step_simps [simp]:
  "status_step PS_Reserved s" "status_step PS_Granted s" "status_step PS_Committed s" "status_step PS_Released s"
  "status_step PS_RolledBack s" "status_step PS_Expired s"

text \<open>Operations on existing reservations; a reservation under a fresh identifier.\<close>

inductive pm_step :: "permit_manager \<Rightarrow> permit_manager \<Rightarrow> bool" where
  ps_reserve: "dict_get (pm_reservations m) fresh = None \<Longrightarrow> pm_step m (fst (pm_reserve fresh now key n ttl m))"
| ps_grant: "pm_step m (fst (pm_grant now i m))"
| ps_release: "pm_step m (fst (pm_release now i n m))"
| ps_rollback: "pm_step m (fst (pm_rollback now i m))"
| ps_expire: "pm_step m (fst (pm_expire_stale now m))"

definition pm_ok :: "permit_manager \<Rightarrow> bool" where
  "pm_ok m \<longleftrightarrow> dict_wf (pm_reservations m) \<and> length (pm_audit_log m) \<le> MAX_RECORDS \<and>
     (\<forall>i r. dict_get (pm_reservations m) i = Some r \<longrightarrow> pe_id r = i \<and> pe_status r \<noteq> PS_Committed)"

text \<open>What a step may do to the reservation \<open>i\<close>: only its status and time stamps change, along the lifecycle.\<close>

definition permit_moves :: "permit_manager \<Rightarrow> permit_manager \<Rightarrow> string \<Rightarrow> bool" where
  "permit_moves m m' i \<longleftrightarrow>
     (\<forall>r. dict_get (pm_reservations m) i = Some r \<longrightarrow>
        (\<exists>r'. dict_get (pm_reservations m') i = Some r' \<and> status_step\<^sup>=\<^sup>= (pe_status r) (pe_status r') \<and>
              pe_key r' = pe_key r \<and> pe_count r' = pe_count r \<and> pe_expires_at r' = pe_expires_at r))"

lemma pm_store_sel [simp]:
  "pm_reservations (pm_store now n r m) = dict_set (pm_reservations m) (pe_id r) r"
  "length (pm_audit_log (pm_store now n r m)) \<le> MAX_RECORDS"
  by (simp_all add: pm_store_def pm_audit_def length_deque_append)

lemma pm_ok_store: "pm_ok m \<Longrightarrow> pe_status r \<noteq> PS_Committed \<Longrightarrow> pm_ok (pm_store now n r m)"
  by (simp add: pm_ok_def)

lemma pm_okD: "pm_ok m \<Longrightarrow> dict_get (pm_reservations m) i = Some r \<Longrightarrow> pe_id r = i"
  by (simp add: pm_ok_def)

lemma moves_refl [simp]: "permit_moves m m i"
  by (simp add: permit_moves_def)

text \<open>One stored change of an existing reservation.\<close>

lemma store_moves:
  assumes "pm_ok m" "dict_get (pm_reservations m) j = Some r" "pe_id r' = pe_id r" "status_step (pe_status r) (pe_status r')"
    "pe_key r' = pe_key r" "pe_count r' = pe_count r" "pe_expires_at r' = pe_expires_at r"
  shows "pm_ok (pm_store now n r' m) \<and> permit_moves m (pm_store now n r' m) i"
proof -
  have "pe_status r' \<noteq> PS_Committed" using assms(4) by (auto elim: status_step.cases)
  then have "pm_ok (pm_store now n r' m)" by (rule pm_ok_store [OF assms(1)])
  then show ?thesis using assms pm_okD [OF assms(1,2)] by (auto simp: permit_moves_def)
qed

lemma expire_moves:
  "pm_ok m \<Longrightarrow> dict_get (pm_reservations m) j = Some r \<Longrightarrow> pe_status r = PS_Reserved \<Longrightarrow>
   pm_ok (pm_expire now j m) \<and> permit_moves m (pm_expire now j m) i"
  by (simp add: pm_expire_def store_moves)

lemma grant_moves: "pm_ok m \<Longrightarrow> pm_ok (fst (pm_grant now j m)) \<and> permit_moves m (fst (pm_grant now j m)) i"
  by (auto simp: pm_grant_def store_moves expire_moves split: option.splits)

lemma release_moves: "pm_ok m \<Longrightarrow> pm_ok (fst (pm_release now j n m)) \<and> permit_moves m (fst (pm_release now j n m)) i"
  by (auto simp: pm_release_def store_moves pm_ok_def [of m] split: option.splits)

lemma rollback_moves: "pm_ok m \<Longrightarrow> pm_ok (fst (pm_rollback now j m)) \<and> permit_moves m (fst (pm_rollback now j m)) i"
  by (auto simp: pm_rollback_def store_moves split: option.splits)

definition expire_loop :: "real \<Rightarrow> (string \<times> permit_reservation) list \<Rightarrow> permit_manager \<times> int \<Rightarrow> permit_manager \<times> int" where
  "expire_loop now xs s = fold (\<lambda>(i, r) (m, n). if stale now r then (pm_expire now i m, n + 1) else (m, n)) xs s"

lemma pm_expire_get:
  "pm_ok m \<Longrightarrow> dict_get (pm_reservations (pm_expire now j m)) i =
     (if i = j then map_option (\<lambda>r. r\<lparr>pe_status := PS_Expired\<rparr>) (dict_get (pm_reservations m) j)
      else dict_get (pm_reservations m) i)"
  using pm_okD [of m j] by (auto simp: pm_expire_def split: option.splits)

lemma expire_loop_spec:
  assumes "pm_ok m" "dict_wf xs" "\<forall>(i, r) \<in> set xs. dict_get (pm_reservations m) i = Some r"
    and "expire_loop now xs (m, n) = (m', n')"
  shows "pm_ok m' \<and> n' = n + int (length (filter (\<lambda>(i, r). stale now r) xs)) \<and>
         (\<forall>i. dict_get (pm_reservations m') i =
            (case dict_get xs i of
               None \<Rightarrow> dict_get (pm_reservations m) i
             | Some r \<Rightarrow> Some (if stale now r then r\<lparr>pe_status := PS_Expired\<rparr> else r)))"
  using assms
proof (induction xs arbitrary: m n)
  case (Cons x xs)
  obtain j r where x: "x = (j, r)" by fastforce
  have g: "dict_get (pm_reservations m) j = Some r" using Cons.prems(3) x by auto
  have fresh: "dict_get xs j = None" using Cons.prems(2) x by (simp add: map_of_eq_None_iff)
  have rest: "\<forall>(i, r) \<in> set xs. i \<noteq> j \<and> dict_get (pm_reservations m) i = Some r" using Cons.prems(2,3) x by force
  show ?case
  proof (cases "stale now r")
    case True
    let ?m = "pm_expire now j m"
    have ok: "pm_ok ?m" using expire_moves [OF Cons.prems(1) g] True by (simp add: stale_def)
    have "\<forall>(i, r) \<in> set xs. dict_get (pm_reservations ?m) i = Some r"
      using rest by (simp add: pm_expire_get [OF Cons.prems(1)] case_prod_beta)
    moreover have "expire_loop now xs (?m, n + 1) = (m', n')" using Cons.prems(4) True by (simp add: x expire_loop_def)
    ultimately show ?thesis
      using Cons.IH [OF ok, of "n + 1"] Cons.prems(2) True g fresh
      by (auto simp: x pm_expire_get [OF Cons.prems(1)] split: option.splits)
  next
    case False
    have "\<forall>(i, r) \<in> set xs. dict_get (pm_reservations m) i = Some r" using rest by auto
    moreover have "expire_loop now xs (m, n) = (m', n')" using Cons.prems(4) False by (simp add: x expire_loop_def)
    ultimately show ?thesis
      using Cons.IH [OF Cons.prems(1), of n] Cons.prems(2) False g fresh by (auto simp: x split: option.splits)
  qed
qed (simp add: expire_loop_def)

lemma expire_stale_spec:
  assumes "pm_ok m" "pm_expire_stale now m = (m', n)"
  shows "pm_ok m' \<and> n = int (length (filter (\<lambda>(i, r). stale now r) (pm_reservations m))) \<and>
         (\<forall>i. dict_get (pm_reservations m') i =
            map_option (\<lambda>r. if stale now r then r\<lparr>pe_status := PS_Expired\<rparr> else r) (dict_get (pm_reservations m) i))"
proof -
  have "expire_loop now (pm_reservations m) (m, 0) = (m', n)" using assms(2) by (simp add: pm_expire_stale_def expire_loop_def)
  moreover have "dict_wf (pm_reservations m)" "\<forall>(i, r) \<in> set (pm_reservations m). dict_get (pm_reservations m) i = Some r"
    using assms(1) by (auto simp: pm_ok_def)
  ultimately show ?thesis
    using expire_loop_spec [OF assms(1)] by (fastforce split: option.splits)
qed

lemma expire_stale_moves:
  "pm_ok m \<Longrightarrow> pm_ok (fst (pm_expire_stale now m)) \<and> permit_moves m (fst (pm_expire_stale now m)) i"
  using expire_stale_spec [of m now] by (cases "pm_expire_stale now m") (auto simp: permit_moves_def stale_def)

lemma reserve_moves:
  "pm_ok m \<Longrightarrow> dict_get (pm_reservations m) fresh = None \<Longrightarrow>
   pm_ok (fst (pm_reserve fresh now key n ttl m)) \<and> permit_moves m (fst (pm_reserve fresh now key n ttl m)) i"
  by (auto simp: pm_reserve_def Let_def pm_ok_store permit_moves_def)

lemma pm_step_moves: "pm_step m m' \<Longrightarrow> pm_ok m \<Longrightarrow> pm_ok m' \<and> permit_moves m m' i"
proof (induction rule: pm_step.induct)
  case (ps_reserve m fresh now key n ttl)
  then show ?case using reserve_moves by blast
qed (simp_all add: grant_moves release_moves rollback_moves expire_stale_moves)

interpretation pm_machine: invariant_machine "\<lambda>m. m = pm_init" pm_step pm_ok
  by unfold_locales (auto simp: pm_init_def pm_ok_def MAX_RECORDS_def dest: pm_step_moves)

lemma count_status_insert:
  assumes "x \<notin> S" shows "count_status (insert x S) m = count_status {x} m + count_status S m"
proof -
  have h: "length (filter (\<lambda>r. pe_status r \<in> insert x S) rs) =
      length (filter (\<lambda>r. pe_status r \<in> {x}) rs) + length (filter (\<lambda>r. pe_status r \<in> S) rs)" for rs
    using assms by (induction rs) auto
  show ?thesis unfolding count_status_def h of_nat_add ..
qed

lemma count_status_all:
  assumes "pm_ok m"
  shows "count_status {PS_Reserved, PS_Granted, PS_Released, PS_RolledBack, PS_Expired} m = int (length (pm_reservations m))"
proof -
  have "pe_status r \<in> {PS_Reserved, PS_Granted, PS_Released, PS_RolledBack, PS_Expired}" if mem: "r \<in> set (dict_values (pm_reservations m))" for r
  proof -
    obtain i where "dict_get (pm_reservations m) i = Some r"
      using mem assms set_dict_values [of "pm_reservations m" r] unfolding pm_ok_def by blast
    then have "pe_status r \<noteq> PS_Committed" using assms by (auto simp: pm_ok_def)
    then show ?thesis by (cases "pe_status r") simp_all
  qed
  then show ?thesis by (simp add: count_status_def filter_True)
qed

subsection \<open>Properties\<close>

text \<open>In every reachable state, whatever is done next, a reservation keeps its key, amount and deadline and its
  status moves at most one edge along the lifecycle: from reserved to granted, rolled back or expired,
  from granted to released or rolled back, and nowhere else; in particular a granted permit never
  expires. A grant succeeds only for a reserved permit before its deadline.\<close>

theorem permit_lifecycle:
  assumes "reach (\<lambda>m. m = pm_init) pm_step m" "pm_step m m'" "dict_get (pm_reservations m) i = Some r"
  shows "(\<exists>r'. dict_get (pm_reservations m') i = Some r' \<and> pe_key r' = pe_key r \<and> pe_count r' = pe_count r \<and>
               pe_expires_at r' = pe_expires_at r \<and> (pe_status r' = pe_status r \<or> status_step (pe_status r) (pe_status r'))) \<and>
         (snd (pm_grant now i m) \<noteq> None \<longleftrightarrow> pe_status r = PS_Reserved \<and> now \<le> pe_expires_at r) \<and>
         (snd (pm_release now i n m) \<noteq> None \<longleftrightarrow> pe_status r = PS_Granted)"
proof -
  have ok: "pm_ok m" by (rule pm_machine.reach_inv [OF assms(1)])
  have "pe_status r \<noteq> PS_Committed" using ok assms(3) by (simp add: pm_ok_def)
  then have "(snd (pm_grant now i m) \<noteq> None \<longleftrightarrow> pe_status r = PS_Reserved \<and> now \<le> pe_expires_at r) \<and>
      (snd (pm_release now i n m) \<noteq> None \<longleftrightarrow> pe_status r = PS_Granted)"
    by (auto simp: pm_grant_def pm_release_def assms(3))
  then show ?thesis using pm_step_moves [OF assms(2) ok, of i] assms(3) by (fastforce simp: permit_moves_def)
qed

text \<open>In every reachable state the counts of the snapshot partition the reservations, the pending ones are the
  reserved and the granted, the audit log is bounded, and expiring stale reservations counts exactly the
  reserved ones whose deadline has passed and leaves no such reservation.\<close>

theorem permit_counts_partition:
  assumes "reach (\<lambda>m. m = pm_init) pm_step m"
  shows "(let s = pm_snapshot m in
            sn_total s = sn_active s + sn_granted s + sn_released s + sn_rolled_back s + sn_expired s \<and>
            sn_pending s = sn_active s + sn_granted s) \<and>
         length (pm_audit_log m) \<le> MAX_RECORDS \<and>
         snd (pm_expire_stale now m) = int (length (filter (\<lambda>(i, r). stale now r) (pm_reservations m))) \<and>
         (\<nexists>i r. dict_get (pm_reservations (fst (pm_expire_stale now m))) i = Some r \<and> stale now r)"
proof -
  have ok: "pm_ok m" by (rule pm_machine.reach_inv [OF assms])
  have "count_status {PS_Reserved, PS_Granted, PS_Released, PS_RolledBack, PS_Expired} m =
      count_status {PS_Reserved} m + count_status {PS_Granted} m + count_status {PS_Released} m +
      count_status {PS_RolledBack} m + count_status {PS_Expired} m"
    by (simp add: count_status_insert [of _ "insert _ _"])
  moreover have "count_status {PS_Reserved, PS_Granted} m = count_status {PS_Reserved} m + count_status {PS_Granted} m"
    by (simp add: count_status_insert [of _ "insert _ _"])
  ultimately have c: "let s = pm_snapshot m in
      sn_total s = sn_active s + sn_granted s + sn_released s + sn_rolled_back s + sn_expired s \<and>
      sn_pending s = sn_active s + sn_granted s"
    using count_status_all [OF ok] by (simp add: pm_snapshot_def Let_def)
  obtain m' n where e: "pm_expire_stale now m = (m', n)" by fastforce
  have "\<nexists>i r. dict_get (pm_reservations m') i = Some r \<and> stale now r"
    using expire_stale_spec [OF ok e] by (auto simp: stale_def split: if_splits)
  moreover have "length (pm_audit_log m) \<le> MAX_RECORDS" using ok by (simp add: pm_ok_def)
  ultimately show ?thesis using c expire_stale_spec [OF ok e] unfolding e fst_conv snd_conv by blast
qed

subsection \<open>Witnesses\<close>

definition demo_key :: permit_key where
  "demo_key = \<lparr>pk_policy_id = ''p'', pk_scope = QS_GLOBAL, pk_scope_id = [], pk_provider = ''a'', pk_model = ''b''\<rparr>"

definition demo_permits :: permit_manager where
  "demo_permits = fst (pm_reserve ''r'' 0 demo_key 1 30 pm_init)"

lemma demo_permits_reach: "reach (\<lambda>m. m = pm_init) pm_step demo_permits"
proof -
  have "reach (\<lambda>m. m = pm_init) pm_step pm_init" by (rule reach_init) (rule refl)
  then show ?thesis unfolding demo_permits_def by (rule reach_step) (rule ps_reserve, simp add: pm_init_def)
qed

theorem permit_lifecycle_witness:
  "snd (pm_grant 5 ''r'' demo_permits) \<noteq> None \<and> snd (pm_grant 31 ''r'' demo_permits) = None"
proof -
  obtain r where r: "dict_get (pm_reservations demo_permits) ''r'' = Some r" "pe_status r = PS_Reserved" "pe_expires_at r = 30"
    by (simp add: demo_permits_def pm_reserve_def Let_def)
  have s: "pm_step demo_permits (fst (pm_rollback 0 ''r'' demo_permits))" by (rule ps_rollback)
  show ?thesis
    using permit_lifecycle [OF demo_permits_reach s r(1), of 5] permit_lifecycle [OF demo_permits_reach s r(1), of 31] r
    by auto
qed

theorem permit_counts_partition_witness:
  "sn_pending (pm_snapshot demo_permits) = sn_active (pm_snapshot demo_permits) + sn_granted (pm_snapshot demo_permits) \<and>
   sn_active (pm_snapshot demo_permits) = 1"
  using permit_counts_partition [OF demo_permits_reach, of 0]
  by (simp add: Let_def demo_permits_def pm_reserve_def pm_snapshot_def count_status_def pm_init_def)


end
