(* ===== verification/Container.thy ===== *)
theory Container
  imports Prelude
begin

text \<open>
  The dependency-injection container of \<open>core/container.py\<close>: registrations with three lifetimes,
  aliases, child scopes, and resolution with dependency declarations, constructor slots, caches and
  cycle detection.

  A container with its ancestors is a list, the container itself first and its parent next; the
  methods that fall back to \<open>self._parent\<close> recurse on the tail. A factory is foreign code: it is a
  function of the number of factory calls made so far (so that two calls may give two instances)
  and of the keyword arguments, and it either raises or returns a value. It is taken not to call
  back into the container. A container's methods run under its lock, one at a time.
  Exceptions carry the key they are about; the rest of their text is left out.
\<close>

subsection \<open>Registrations\<close>

datatype lifetime = SINGLETON | TRANSIENT | SCOPED

datatype reg_status = REGISTERED | RESOLVING | RESOLVED | FAILED

text \<open>A Python type: its identity and its \<open>__name__\<close>.\<close>

datatype py_type = PyType (type_id: nat) (type_name: string)

text \<open>The annotation of a parameter: none, one with a \<open>__name__\<close>, or one without (such as a union).\<close>

datatype hint = No_Hint | Hint_Named string | Hint_Unnamed

text \<open>A parameter of a factory's signature; no default is \<open>inspect.Parameter.empty\<close>.\<close>

record 'v parameter =
  pa_name :: string
  pa_default :: "'v option"
  pa_hint :: hint

text \<open>A callable: whether reflection on it works, its signature, and what calling it does.\<close>

record 'v factory =
  fa_reflects :: bool
  fa_parameters :: "'v parameter list"
  fa_call :: "nat \<Rightarrow> (string, 'v) dict \<Rightarrow> string + 'v"

text \<open>What \<open>register\<close> is given: something callable, or any other object.\<close>

datatype 'v provider = Callable "'v factory" | Object 'v

type_synonym 'v ctor_slot = "string \<times> 'v option \<times> string option"

record 'v registration =
  rg_interface :: py_type
  rg_factory :: "'v factory"
  rg_lifetime :: lifetime
  rg_name :: "string option"
  rg_depends_on :: "py_type list option"
  rg_singleton_instance :: "'v option"
  rg_status :: reg_status
  rg_resolving_in :: "nat list"
  rg_registered_at :: real
  rg_description :: "string option"
  rg_tags :: "string set"
  rg_compiled_params :: "'v ctor_slot list"

definition name_key :: "py_type \<Rightarrow> string option \<Rightarrow> string" where
  "name_key t name =
     (case name of
        None \<Rightarrow> type_name t
      | Some x \<Rightarrow> if x = [] then type_name t else type_name t @ '':'' @ x)"

definition rg_key :: "('v, 'a) registration_scheme \<Rightarrow> string" where
  "rg_key reg = name_key (rg_interface reg) (rg_name reg)"

definition rg_deps :: "('v, 'a) registration_scheme \<Rightarrow> string list" where
  "rg_deps reg = map type_name (case rg_depends_on reg of None \<Rightarrow> [] | Some ts \<Rightarrow> ts)"

datatype container_error =
    CyclicDependencyError string
  | MissingDependencyError string
  | DuplicateRegistrationError string
  | ResolutionError string

record 'v container =
  ct_registrations :: "(string, 'v registration) dict"
  ct_singletons :: "(string, 'v) dict"
  ct_scoped :: "(string, 'v) dict"
  ct_aliases :: "(string, string) dict"
  ct_resolve_counter :: nat
  ct_started :: bool

definition ct_init :: "'v container" where
  "ct_init = \<lparr>ct_registrations = [], ct_singletons = [], ct_scoped = [], ct_aliases = [],
     ct_resolve_counter = 0, ct_started = False\<rparr>"

type_synonym 'v chain = "'v container list"

definition create_scope :: "'v chain \<Rightarrow> 'v chain" where
  "create_scope cs = ct_init # cs"

subsection \<open>Registering\<close>

text \<open>
  The loop over the signature: \<open>self\<close> is skipped and an annotation without \<open>__name__\<close> raises; the
  slots compiled before the exception are kept, and the flag tells whether the loop ended.
\<close>

fun compile_slots :: "'v parameter list \<Rightarrow> 'v ctor_slot list \<times> bool" where
  "compile_slots [] = ([], True)"
| "compile_slots (p # ps) =
     (if pa_name p = ''self'' then compile_slots ps
      else case pa_hint p of
          Hint_Unnamed \<Rightarrow> ([], False)
        | No_Hint \<Rightarrow>
            (let (xs, ok) = compile_slots ps in ((pa_name p, pa_default p, None) # xs, ok))
        | Hint_Named h \<Rightarrow>
            (let (xs, ok) = compile_slots ps in ((pa_name p, pa_default p, Some h) # xs, ok)))"

definition instance_factory :: "'v \<Rightarrow> 'v factory" where
  "instance_factory v = \<lparr>fa_reflects = True, fa_parameters = [], fa_call = (\<lambda>_ _. Inr v)\<rparr>"

definition make_registration ::
  "real \<Rightarrow> py_type \<Rightarrow> 'v provider \<Rightarrow> bool \<Rightarrow> lifetime option \<Rightarrow> string option \<Rightarrow> py_type list option \<Rightarrow>
   string option \<Rightarrow> string set \<Rightarrow> 'v registration" where
  "make_registration now interface prov singleton lifetime name depends_on description tags =
     (let lt = (case lifetime of Some l \<Rightarrow> l | None \<Rightarrow> if singleton then SINGLETON else TRANSIENT);
          (fac, lt) = (case prov of Callable f \<Rightarrow> (f, lt) | Object v \<Rightarrow> (instance_factory v, SINGLETON))
      in \<lparr>rg_interface = interface, rg_factory = fac, rg_lifetime = lt, rg_name = name,
          rg_depends_on = depends_on, rg_singleton_instance = None, rg_status = REGISTERED,
          rg_resolving_in = [], rg_registered_at = now, rg_description = description,
          rg_tags = tags,
          rg_compiled_params =
            (if fa_reflects fac then fst (compile_slots (fa_parameters fac)) else [])\<rparr>)"

text \<open>
  A key that is taken is refused, unless a name is given and the existing registration has it too.
\<close>

definition add_registration ::
  "'v registration \<Rightarrow> 'v container \<Rightarrow> 'v container \<times> (container_error + 'v registration)" where
  "add_registration reg c =
     (let key = rg_key reg;
          refused = (case dict_get (ct_registrations c) key of
                       None \<Rightarrow> False
                     | Some old \<Rightarrow> \<not> (truthy (rg_name reg) \<and> rg_name old = rg_name reg))
      in if refused then (c, Inl (DuplicateRegistrationError key))
         else (c\<lparr>ct_registrations := dict_set (ct_registrations c) key reg\<rparr>, Inr reg))"

definition ct_register ::
  "real \<Rightarrow> py_type \<Rightarrow> 'v provider \<Rightarrow> bool \<Rightarrow> lifetime option \<Rightarrow> string option \<Rightarrow> py_type list option \<Rightarrow>
   string option \<Rightarrow> string set \<Rightarrow> 'v container \<Rightarrow>
   'v container \<times> (container_error + 'v registration)" where
  "ct_register now interface prov singleton lifetime name depends_on description tags c =
     add_registration
       (make_registration now interface prov singleton lifetime name depends_on description tags) c"

definition ct_register_instance ::
  "real \<Rightarrow> py_type \<Rightarrow> 'v provider \<Rightarrow> string option \<Rightarrow> string option \<Rightarrow> string set \<Rightarrow> 'v container \<Rightarrow>
   'v container \<times> (container_error + 'v registration)" where
  "ct_register_instance now interface obj name description tags c =
     ct_register now interface obj True None name None description tags c"

definition ct_alias :: "string \<Rightarrow> string \<Rightarrow> 'v container \<Rightarrow> 'v container \<times> (container_error + unit)" where
  "ct_alias alias target c =
     (if target \<notin> set (dict_keys (ct_registrations c)) then (c, Inl (MissingDependencyError target))
      else (c\<lparr>ct_aliases := dict_set (ct_aliases c) alias target\<rparr>, Inr ()))"

subsection \<open>Resolving\<close>

fun resolve_key :: "string \<Rightarrow> 'v chain \<Rightarrow> string" where
  "resolve_key key [] = key"
| "resolve_key key (c # ps) =
     (if key \<in> set (dict_keys (ct_registrations c)) then key
      else case dict_get (ct_aliases c) key of
          Some target \<Rightarrow> target
        | None \<Rightarrow> if ps \<noteq> [] then resolve_key key ps else key)"

text \<open>
  The state of a resolution is the chain and the number of factory calls made; an outcome is
  missing only when the fuel of \<open>resolve_fuel\<close> below runs out.
\<close>

type_synonym 'v rstate = "'v chain \<times> nat"
type_synonym ('v, 'r) outcome = "('v rstate \<times> (container_error + 'r)) option"
type_synonym 'v resolver = "string \<Rightarrow> 'v rstate \<Rightarrow> ('v, 'v) outcome"

text \<open>The loop over the declared dependencies, keyed by type name.\<close>

fun resolve_deps ::
  "'v resolver \<Rightarrow> string list \<Rightarrow> (string, 'v) dict \<Rightarrow> 'v rstate \<Rightarrow> ('v, (string, 'v) dict) outcome" where
  "resolve_deps res [] acc s = Some (s, Inr acc)"
| "resolve_deps res (d # ds) acc s =
     (case res d s of
        None \<Rightarrow> None
      | Some (s', Inl e) \<Rightarrow> Some (s', Inl e)
      | Some (s', Inr v) \<Rightarrow> resolve_deps res ds (dict_set acc d v) s')"

text \<open>
  The loop over the constructor's slots: a resolved dependency of that name, else the default, else
  the annotated type; a type that is not registered leaves the parameter out.
\<close>

fun fill_slots ::
  "'v resolver \<Rightarrow> (string, 'v) dict \<Rightarrow> 'v ctor_slot list \<Rightarrow> (string, 'v) dict \<Rightarrow> 'v rstate \<Rightarrow>
   ('v, (string, 'v) dict) outcome" where
  "fill_slots res deps [] params s = Some (s, Inr params)"
| "fill_slots res deps ((p, dflt, h) # slots) params s =
     (case dict_get deps p of
        Some v \<Rightarrow> fill_slots res deps slots (dict_set params p v) s
      | None \<Rightarrow>
         (case dflt of
            Some v \<Rightarrow> fill_slots res deps slots (dict_set params p v) s
          | None \<Rightarrow>
             if truthy h then
               (case res (the h) s of
                  None \<Rightarrow> None
                | Some (s', Inr v) \<Rightarrow> fill_slots res deps slots (dict_set params p v) s'
                | Some (s', Inl (MissingDependencyError k)) \<Rightarrow> fill_slots res deps slots params s'
                | Some (s', Inl e) \<Rightarrow> Some (s', Inl e))
             else fill_slots res deps slots params s))"

text \<open>
  The slots used: those compiled at registration, or a second reflection when there are none, in
  which a failure is no longer swallowed.
\<close>

definition rg_slots :: "'v registration \<Rightarrow> 'v ctor_slot list option" where
  "rg_slots reg =
     (if rg_compiled_params reg \<noteq> [] then Some (rg_compiled_params reg)
      else if \<not> fa_reflects (rg_factory reg) then None
      else (let (xs, ok) = compile_slots (fa_parameters (rg_factory reg)) in
            if ok then Some xs else None))"

text \<open>The body of the \<open>try\<close> block: the value, or whatever exception ends it.\<close>

datatype build_error = Container_Raised container_error | Other_Raised

definition construct ::
  "'v resolver \<Rightarrow> 'v registration \<Rightarrow> 'v rstate \<Rightarrow> ('v rstate \<times> (build_error + 'v)) option" where
  "construct res reg s =
     (case rg_slots reg of
        None \<Rightarrow> Some (s, Inl Other_Raised)
      | Some slots \<Rightarrow>
         (case resolve_deps res (rg_deps reg) [] s of
            None \<Rightarrow> None
          | Some (s1, Inl e) \<Rightarrow> Some (s1, Inl (Container_Raised e))
          | Some (s1, Inr deps) \<Rightarrow>
             (case fill_slots res deps slots [] s1 of
                None \<Rightarrow> None
              | Some (s2, Inl e) \<Rightarrow> Some (s2, Inl (Container_Raised e))
              | Some ((cs, w), Inr params) \<Rightarrow>
                 (case fa_call (rg_factory reg) w params of
                    Inl e \<Rightarrow> Some ((cs, Suc w), Inl Other_Raised)
                  | Inr v \<Rightarrow> Some ((cs, Suc w), Inr v)))))"

definition upd_registration ::
  "string \<Rightarrow> ('v registration \<Rightarrow> 'v registration) \<Rightarrow> 'v container \<Rightarrow> 'v container" where
  "upd_registration key f c =
     (case dict_get (ct_registrations c) key of
        None \<Rightarrow> c
      | Some reg \<Rightarrow> c\<lparr>ct_registrations := dict_set (ct_registrations c) key (f reg)\<rparr>)"

definition enter_registration :: "nat \<Rightarrow> string \<Rightarrow> 'v container \<Rightarrow> 'v container" where
  "enter_registration rid key =
     upd_registration key (\<lambda>reg. reg\<lparr>rg_resolving_in := List.insert rid (rg_resolving_in reg)\<rparr>)"

definition leave_registration :: "nat \<Rightarrow> string \<Rightarrow> 'v container \<Rightarrow> 'v container" where
  "leave_registration rid key =
     upd_registration key (\<lambda>reg. reg\<lparr>rg_resolving_in := removeAll rid (rg_resolving_in reg)\<rparr>)"

definition cached :: "'v container \<Rightarrow> 'v chain \<Rightarrow> string \<Rightarrow> lifetime \<Rightarrow> 'v option" where
  "cached c ps key lt =
     (case lt of
        SINGLETON \<Rightarrow>
          (case dict_get (ct_singletons c) key of
             Some v \<Rightarrow> Some v
           | None \<Rightarrow> (case ps of [] \<Rightarrow> None | p # _ \<Rightarrow> dict_get (ct_singletons p) key))
      | SCOPED \<Rightarrow> dict_get (ct_scoped c) key
      | TRANSIENT \<Rightarrow> None)"

definition store_instance :: "string \<Rightarrow> lifetime \<Rightarrow> 'v \<Rightarrow> 'v container \<Rightarrow> 'v container" where
  "store_instance key lt v c =
     (case lt of
        SINGLETON \<Rightarrow>
          upd_registration key
            (\<lambda>reg. reg\<lparr>rg_singleton_instance := Some v, rg_status := RESOLVED\<rparr>)
            (c\<lparr>ct_singletons := dict_set (ct_singletons c) key v\<rparr>)
      | SCOPED \<Rightarrow> c\<lparr>ct_scoped := dict_set (ct_scoped c) key v\<rparr>
      | TRANSIENT \<Rightarrow> c)"

text \<open>
  What follows the \<open>try\<close> block, on the container itself: a cycle is passed on, any other exception
  marks the registration and is wrapped, a value is cached; the \<open>finally\<close> clause runs in each case.
\<close>

definition conclude ::
  "nat \<Rightarrow> string \<Rightarrow> lifetime \<Rightarrow> build_error + 'v \<Rightarrow> 'v container \<Rightarrow>
   'v container \<times> (container_error + 'v)" where
  "conclude rid key lt r c =
     (case r of
        Inl (Container_Raised (CyclicDependencyError k)) \<Rightarrow>
          (leave_registration rid key c, Inl (CyclicDependencyError k))
      | Inl _ \<Rightarrow>
          (leave_registration rid key (upd_registration key (\<lambda>reg. reg\<lparr>rg_status := FAILED\<rparr>) c),
           Inl (ResolutionError key))
      | Inr v \<Rightarrow> (store_instance key lt v (leave_registration rid key c), Inr v))"

fun resolve_fuel :: "nat \<Rightarrow> nat \<Rightarrow> string list \<Rightarrow> string \<Rightarrow> 'v rstate \<Rightarrow> ('v, 'v) outcome" where
  "resolve_fuel 0 rid visited key s = None"
| "resolve_fuel (Suc n) rid visited key ([], w) =
     Some (([], w), Inl (MissingDependencyError key))"
| "resolve_fuel (Suc n) rid visited key (c # ps, w) =
     (case dict_get (ct_registrations c) key of
        None \<Rightarrow>
          if ps \<noteq> [] then
            (case resolve_fuel n rid visited key (ps, w) of
               None \<Rightarrow> None
             | Some ((ps', w'), r) \<Rightarrow> Some ((c # ps', w'), r))
          else Some ((c # ps, w), Inl (MissingDependencyError key))
      | Some reg \<Rightarrow>
          if key \<in> set visited then Some ((c # ps, w), Inl (CyclicDependencyError key))
          else if rid \<in> set (rg_resolving_in reg)
          then Some ((c # ps, w), Inl (CyclicDependencyError key))
          else
            (case cached c ps key (rg_lifetime reg) of
               Some v \<Rightarrow> Some ((c # ps, w), Inr v)
             | None \<Rightarrow>
                (case construct (\<lambda>k s. resolve_fuel n rid (key # visited) k s) reg
                        (enter_registration rid key c # ps, w) of
                   None \<Rightarrow> None
                 | Some (([], w'), r) \<Rightarrow> None
                 | Some ((c' # ps', w'), r) \<Rightarrow>
                    (case conclude rid key (rg_lifetime reg) r c' of
                       (c'', r') \<Rightarrow> Some ((c'' # ps', w'), r')))))"

text \<open>
  A nested call either moves to the parent or puts one more registered key under construction, so
  the depth is below the number of containers plus the number of registrations.
\<close>

definition resolve_depth :: "'v chain \<Rightarrow> nat" where
  "resolve_depth cs = Suc (length cs + length (concat (map ct_registrations cs)))"

definition ct_resolve_inner :: "nat \<Rightarrow> string \<Rightarrow> 'v rstate \<Rightarrow> ('v, 'v) outcome" where
  "ct_resolve_inner rid key s = resolve_fuel (resolve_depth (fst s)) rid [] key s"

text \<open>The counter of the container that is asked gives the identity of the chain of calls.\<close>

definition bump :: "'v chain \<Rightarrow> 'v chain" where
  "bump cs = (case cs of [] \<Rightarrow> [] | c # ps \<Rightarrow> c\<lparr>ct_resolve_counter := Suc (ct_resolve_counter c)\<rparr> # ps)"

definition next_id :: "'v chain \<Rightarrow> nat" where
  "next_id cs = (case cs of [] \<Rightarrow> 0 | c # _ \<Rightarrow> Suc (ct_resolve_counter c))"

definition ct_resolve :: "py_type \<Rightarrow> string option \<Rightarrow> 'v rstate \<Rightarrow> ('v, 'v) outcome" where
  "ct_resolve interface name s =
     (case s of (cs, w) \<Rightarrow>
        ct_resolve_inner (next_id cs) (resolve_key (name_key interface name) cs) (bump cs, w))"

definition ct_try_resolve :: "py_type \<Rightarrow> string option \<Rightarrow> 'v rstate \<Rightarrow> ('v rstate \<times> 'v option) option" where
  "ct_try_resolve interface name s =
     (case ct_resolve interface name s of
        None \<Rightarrow> None
      | Some (s', Inl _) \<Rightarrow> Some (s', None)
      | Some (s', Inr v) \<Rightarrow> Some (s', Some v))"

definition offers :: "py_type \<Rightarrow> string \<times> 'v registration \<Rightarrow> bool" where
  "offers interface kr \<longleftrightarrow>
     rg_interface (snd kr) = interface \<or>
     take (length (type_name interface) + 1) (fst kr) = type_name interface @ '':''"

fun resolve_each :: "string list \<Rightarrow> 'v rstate \<Rightarrow> ('v rstate \<times> 'v list) option" where
  "resolve_each [] s = Some (s, [])"
| "resolve_each (k # ks) (cs, w) =
     (case ct_resolve_inner (next_id cs) k (bump cs, w) of
        None \<Rightarrow> None
      | Some (s', r) \<Rightarrow>
         (case resolve_each ks s' of
            None \<Rightarrow> None
          | Some (s'', vs) \<Rightarrow> Some (s'', (case r of Inl _ \<Rightarrow> vs | Inr v \<Rightarrow> v # vs))))"

definition ct_resolve_all :: "py_type \<Rightarrow> 'v rstate \<Rightarrow> ('v rstate \<times> 'v list) option" where
  "ct_resolve_all interface s =
     (case s of
        ([], w) \<Rightarrow> Some (s, [])
      | (c # ps, w) \<Rightarrow> resolve_each (map fst (filter (offers interface) (ct_registrations c))) s)"

subsection \<open>Scopes and inspection\<close>

definition ct_clear_scoped :: "'v container \<Rightarrow> 'v container" where
  "ct_clear_scoped c = c\<lparr>ct_scoped := []\<rparr>"

definition ct_list_registrations :: "'v container \<Rightarrow> 'v registration list" where
  "ct_list_registrations c = dict_values (ct_registrations c)"

fun ct_is_registered :: "string \<Rightarrow> 'v chain \<Rightarrow> bool" where
  "ct_is_registered key [] = False"
| "ct_is_registered key (c # ps) =
     (key \<in> set (dict_keys (ct_registrations c)) \<or> ct_is_registered key ps)"

fun ct_get_registration :: "string \<Rightarrow> 'v chain \<Rightarrow> 'v registration option" where
  "ct_get_registration key [] = None"
| "ct_get_registration key (c # ps) =
     (case dict_get (ct_registrations c) key of
        Some reg \<Rightarrow> Some reg
      | None \<Rightarrow> ct_get_registration key ps)"

definition registration_count :: "'v container \<Rightarrow> nat" where
  "registration_count c = length (ct_registrations c)"

definition singleton_count :: "'v container \<Rightarrow> nat" where
  "singleton_count c = length (ct_singletons c)"

definition ct_reset :: "'v container \<Rightarrow> 'v container" where
  "ct_reset c = c\<lparr>ct_registrations := [], ct_singletons := [], ct_scoped := [], ct_aliases := [],
     ct_started := False\<rparr>"

definition dependency_graph :: "'v container \<Rightarrow> (string, string list) dict" where
  "dependency_graph c = map (\<lambda>(key, reg). (key, rg_deps reg)) (ct_registrations c)"

end
