(* ===== verification/Dependency_Search.thy ===== *)
theory Dependency_Search
  imports Graph Prelude
begin

text \<open>
  The depth-first search of \<open>CircularDependencyChecker.check\<close> in \<open>core/di_validator.py\<close> over a
  dictionary of adjacency lists, and the proof that it finds a cycle exactly when there is one.
\<close>

subsection \<open>The search\<close>

definition neighbours :: "('a, 'a list) dict \<Rightarrow> 'a \<Rightarrow> 'a list" where
  "neighbours g u = dict_get_or g u []"

definition arcs :: "('a, 'a list) dict \<Rightarrow> 'a rel" where
  "arcs g = {(u, v). v \<in> set (neighbours g u)}"

text \<open>The nodes of the graph: its keys and everything they list.\<close>

definition nodes_of :: "('a, 'a list) dict \<Rightarrow> 'a set" where
  "nodes_of g = set (dict_keys g) \<union> \<Union> (set ` snd ` set g)"

text \<open>The cycle reported when \<open>v\<close> is met again: the path from \<open>v\<close> on, and \<open>v\<close> once more.\<close>

definition cycle_from :: "'a list \<Rightarrow> 'a \<Rightarrow> 'a list" where
  "cycle_from path v = dropWhile (\<lambda>u. u \<noteq> v) path @ [v]"

text \<open>
  \<open>dfs g us path V\<close> runs the loop over the neighbours \<open>us\<close> of the last node of \<open>path\<close>, with \<open>V\<close> the
  visited nodes; the call \<open>_dfs(u, ...)\<close> is the loop over \<open>graph.get(u, [])\<close> with \<open>u\<close> visited and
  pushed on the path. A node that is neither visited nor a node of the graph cannot occur: the
  neighbours searched all are nodes of the graph.
\<close>

function dfs :: "('a, 'a list) dict \<Rightarrow> 'a list \<Rightarrow> 'a list \<Rightarrow> 'a set \<Rightarrow> 'a set \<times> 'a list option" where
  "dfs g [] path V = (V, None)"
| "dfs g (u # us) path V =
     (if u \<notin> V then
        (case dfs g (neighbours g u) (path @ [u]) (insert u V) of
           (V', Some cyc) \<Rightarrow> (V', Some cyc)
         | (V', None) \<Rightarrow> dfs g us path V')
      else if u \<in> set path then (V, Some (cycle_from path u))
      else dfs g us path V)"
  by pat_completeness auto

lemma neighbours_nodes: "set (neighbours g u) \<subseteq> nodes_of g"
proof (cases "map_of g u")
  case (Some us)
  then have "(u, us) \<in> set g" by (rule map_of_SomeD)
  then show ?thesis using Some by (force simp: neighbours_def dict_get_or_def nodes_of_def)
qed (simp add: neighbours_def dict_get_or_def)

lemma dfs_partial_mono: "dfs_dom (g, us, path, V) \<Longrightarrow> V \<subseteq> fst (dfs g us path V)"
proof (induction rule: dfs.pinduct)
  case (1 g path V)
  then show ?case by (simp add: dfs.psimps)
next
  case (2 g u us path V)
  obtain W r where w: "dfs g (neighbours g u) (path @ [u]) (insert u V) = (W, r)" by force
  show ?case
  proof (cases "u \<in> V")
    case True
    then show ?thesis using 2 by (simp add: dfs.psimps)
  next
    case False
    then have "V \<subseteq> W" using "2.IH"(1) w by simp
    moreover have "W \<subseteq> fst (dfs g us path W)" if "r = None"
      using "2.IH"(2) [OF False w [symmetric] that] .
    ultimately show ?thesis using False w 2(1) by (cases r) (auto simp: dfs.psimps)
  qed
qed

lemma finite_nodes_of [simp]: "finite (nodes_of g)"
  by (simp add: nodes_of_def)

lemma dfs_total: "All dfs_dom"
proof (relation "measures [\<lambda>(g, us, path, V). card (nodes_of g \<union> set us - V), \<lambda>(g, us, path, V). length us]")
  fix g :: "('a, 'a list) dict" and u us path and V :: "'a set"
  assume new: "u \<notin> V"
  have "nodes_of g \<union> set (neighbours g u) - insert u V \<subset> nodes_of g \<union> set (u # us) - V"
    using new neighbours_nodes [of g u] by auto
  then have "card (nodes_of g \<union> set (neighbours g u) - insert u V) < card (nodes_of g \<union> set (u # us) - V)"
    by (intro psubset_card_mono) simp_all
  then show "((g, neighbours g u, path @ [u], insert u V), g, u # us, path, V)
      \<in> measures [\<lambda>(g, us, path, V). card (nodes_of g \<union> set us - V), \<lambda>(g, us, path, V). length us]"
    by simp
next
  fix g :: "('a, 'a list) dict" and u us path and V V' :: "'a set" and b
  assume "u \<notin> V" and r: "(V', b) = dfs g (neighbours g u) (path @ [u]) (insert u V)"
    and "b = None" and d: "dfs_dom (g, neighbours g u, path @ [u], insert u V)"
  have "V \<subseteq> V'" using dfs_partial_mono [OF d] r by (metis fst_conv insert_subset)
  then have "card (nodes_of g \<union> set us - V') \<le> card (nodes_of g \<union> set (u # us) - V)"
    by (intro card_mono) auto
  then show "((g, us, path, V'), g, u # us, path, V)
      \<in> measures [\<lambda>(g, us, path, V). card (nodes_of g \<union> set us - V), \<lambda>(g, us, path, V). length us]"
    by auto
next
  fix g :: "('a, 'a list) dict" and u us path and V :: "'a set"
  have "card (nodes_of g \<union> set us - V) \<le> card (nodes_of g \<union> set (u # us) - V)"
    by (intro card_mono) auto
  then show "((g, us, path, V), g, u # us, path, V)
      \<in> measures [\<lambda>(g, us, path, V). card (nodes_of g \<union> set us - V), \<lambda>(g, us, path, V). length us]"
    by auto
qed auto

termination dfs
  by (rule dfs_total)

lemma dfs_mono: "V \<subseteq> fst (dfs g us path V)"
  by (rule dfs_partial_mono) (rule dfs_total [rule_format])

subsection \<open>A reported cycle is one\<close>

fun walk :: "'a rel \<Rightarrow> 'a list \<Rightarrow> bool" where
  "walk R [] \<longleftrightarrow> True"
| "walk R [u] \<longleftrightarrow> True"
| "walk R (u # v # us) \<longleftrightarrow> (u, v) \<in> R \<and> walk R (v # us)"

definition closed_walk :: "'a rel \<Rightarrow> 'a list \<Rightarrow> bool" where
  "closed_walk R p \<longleftrightarrow> 2 \<le> length p \<and> hd p = last p \<and> walk R p"

lemma walk_snoc: "walk R p \<Longrightarrow> p \<noteq> [] \<Longrightarrow> (last p, v) \<in> R \<Longrightarrow> walk R (p @ [v])"
  by (induction R p rule: walk.induct) auto

lemma walk_append: "walk R (p @ q) \<Longrightarrow> walk R q"
  by (induction p) (auto elim: walk.elims)

lemma walk_trancl: "walk R (u # p) \<Longrightarrow> p \<noteq> [] \<Longrightarrow> (u, last p) \<in> R\<^sup>+"
proof (induction p arbitrary: u)
  case (Cons v p)
  then show ?case by (cases p) (auto intro: trancl_into_trancl2)
qed simp

lemma closed_walk_cyclic: "closed_walk R p \<Longrightarrow> \<not> acyclic R"
proof (cases p)
  case (Cons u us)
  assume c: "closed_walk R p"
  then have "us \<noteq> []" using Cons by (auto simp: closed_walk_def)
  then have "(u, u) \<in> R\<^sup>+" using c walk_trancl [of R u us] Cons
    by (metis closed_walk_def last_ConsR list.sel(1))
  then show ?thesis by (auto simp: acyclic_def)
qed (simp add: closed_walk_def)

text \<open>The path is a walk, and the nodes still to search follow its last node.\<close>

definition on_path :: "'a rel \<Rightarrow> 'a list \<Rightarrow> 'a list \<Rightarrow> bool" where
  "on_path R path us \<longleftrightarrow> walk R path \<and> (path \<noteq> [] \<longrightarrow> (\<forall>u\<in>set us. (last path, u) \<in> R))"

lemma on_path_push: "on_path (arcs g) path (u # us) \<Longrightarrow> on_path (arcs g) (path @ [u]) (neighbours g u)"
  by (cases "path = []") (auto simp: on_path_def arcs_def intro: walk_snoc)

lemma cycle_from_closed:
  assumes "on_path R path (u # us)" and "u \<in> set path"
  shows "closed_walk R (cycle_from path u)"
proof -
  obtain xs ys where p: "path = xs @ u # ys" and n: "u \<notin> set xs"
    using assms(2) by (meson split_list_first)
  have "dropWhile (\<lambda>v. v \<noteq> u) path = u # ys"
    using n unfolding p by (induction xs) auto
  then have c: "cycle_from path u = (u # ys) @ [u]" by (simp add: cycle_from_def)
  have "walk R (u # ys)" using assms(1) walk_append [of R xs "u # ys"] by (simp add: on_path_def p)
  moreover have "(last (u # ys), u) \<in> R" using assms(1) by (auto simp: on_path_def p)
  ultimately have "walk R ((u # ys) @ [u])" by (intro walk_snoc) simp_all
  then show ?thesis by (simp add: c closed_walk_def)
qed

lemma dfs_sound:
  "dfs g us path V = (V', Some cyc) \<Longrightarrow> on_path (arcs g) path us \<Longrightarrow> closed_walk (arcs g) cyc"
proof (induction g us path V arbitrary: V' rule: dfs.induct)
  case (2 g u us path V)
  have tl: "on_path (arcs g) path us" using "2.prems"(2) by (auto simp: on_path_def)
  show ?case
  proof (cases "u \<in> V")
    case True
    then show ?thesis using "2.prems" "2.IH"(3) tl
      by (auto simp: cycle_from_closed split: if_splits)
  next
    case False
    obtain W r where w: "dfs g (neighbours g u) (path @ [u]) (insert u V) = (W, r)" by force
    show ?thesis
    proof (cases r)
      case None
      then show ?thesis using "2.prems"(1) "2.IH"(2) [OF False w [symmetric] None _ tl] False w
        by simp
    next
      case (Some c)
      then show ?thesis using "2.prems" "2.IH"(1) [OF False, of W] False w
        by (simp add: on_path_push)
    qed
  qed
qed simp

subsection \<open>A cycle is reported\<close>

text \<open>
  The nodes that are visited and not on the path are done: their successors are done too, and none
  of them lies on a cycle.
\<close>

definition finished_nodes :: "'a rel \<Rightarrow> 'a set \<Rightarrow> bool" where
  "finished_nodes R S \<longleftrightarrow> R `` S \<subseteq> S \<and> (\<forall>u\<in>S. (u, u) \<notin> R\<^sup>+)"

lemma finished_reaches:
  assumes "finished_nodes R S" and "u \<in> S" and "(u, v) \<in> R\<^sup>+"
  shows "v \<in> S"
  using assms(3,2)
proof (induction rule: trancl_induct)
  case (base y)
  then show ?case using assms(1) by (auto simp: finished_nodes_def)
next
  case (step y z)
  then show ?case using assms(1) by (auto simp: finished_nodes_def)
qed

lemma finished_insert:
  assumes fin: "finished_nodes R S" and out: "R `` {u} \<subseteq> S" and new: "u \<notin> S"
  shows "finished_nodes R (insert u S)"
proof -
  have "(u, u) \<notin> R\<^sup>+"
  proof
    assume "(u, u) \<in> R\<^sup>+"
    then obtain v where "(u, v) \<in> R" and "v = u \<or> (v, u) \<in> R\<^sup>+" by (auto elim: converse_tranclE)
    then show False using out new finished_reaches [OF fin, of v u] by blast
  qed
  then show ?thesis using fin out by (auto simp: finished_nodes_def)
qed

lemma dfs_complete:
  "dfs g us path V = (V', None) \<Longrightarrow> set path \<subseteq> V \<Longrightarrow> finished_nodes (arcs g) (V - set path) \<Longrightarrow>
   finished_nodes (arcs g) (V' - set path) \<and> set us \<subseteq> V' - set path"
proof (induction g us path V arbitrary: V' rule: dfs.induct)
  case (2 g u us path V)
  show ?case
  proof (cases "u \<in> V")
    case True
    then have out: "u \<notin> set path" and r: "dfs g us path V = (V', None)"
      using "2.prems"(1) by (auto split: if_splits)
    have "u \<in> V' - set path" using True out dfs_mono [of V g us path] r by auto
    then show ?thesis using "2.IH"(3) [OF _ out r "2.prems"(2,3)] True by simp
  next
    case False
    then obtain W where w: "dfs g (neighbours g u) (path @ [u]) (insert u V) = (W, None)"
        and r: "dfs g us path W = (V', None)"
      using "2.prems"(1) by (auto split: prod.splits option.splits)
    have out: "u \<notin> set path" using False "2.prems"(2) by auto
    have le: "insert u V \<subseteq> W" using dfs_mono [of "insert u V" g "neighbours g u" "path @ [u]"] w by simp
    have e: "insert u V - set (path @ [u]) = V - set path" using False by auto
    have h: "finished_nodes (arcs g) (W - set (path @ [u])) \<and>
        set (neighbours g u) \<subseteq> W - set (path @ [u])"
    proof (rule "2.IH"(1) [OF False w])
      show "set (path @ [u]) \<subseteq> insert u V" using "2.prems"(2) by auto
      show "finished_nodes (arcs g) (insert u V - set (path @ [u]))" unfolding e by (rule "2.prems"(3))
    qed
    have "finished_nodes (arcs g) (insert u (W - set (path @ [u])))"
      using h by (intro finished_insert) (auto simp: arcs_def)
    moreover have "insert u (W - set (path @ [u])) = W - set path" using le out by auto
    ultimately have "finished_nodes (arcs g) (V' - set path) \<and> set us \<subseteq> V' - set path"
      using "2.IH"(2) [OF False w [symmetric] refl r] "2.prems"(2) le by (metis insert_subset order_trans)
    moreover have "u \<in> V'" using le dfs_mono [of W g us path] r by auto
    ultimately show ?thesis using out by simp
  qed
qed simp

text \<open>The whole search: the loop over the keys of the graph, with nothing visited.\<close>

definition find_cycle :: "('a, 'a list) dict \<Rightarrow> 'a list option" where
  "find_cycle g = snd (dfs g (dict_keys g) [] {})"

lemma find_cycle_sound: "find_cycle g = Some cyc \<Longrightarrow> closed_walk (arcs g) cyc"
  by (cases "dfs g (dict_keys g) [] {}") (auto simp: find_cycle_def on_path_def dest: dfs_sound)

lemma arcs_from_keys: "(u, v) \<in> arcs g \<Longrightarrow> u \<in> set (dict_keys g)"
  by (cases "map_of g u") (auto simp: arcs_def neighbours_def dict_get_or_def domI simp flip: dom_map_of_conv_image_fst)

lemma find_cycle_complete:
  assumes "find_cycle g = None"
  shows "acyclic (arcs g)"
proof -
  obtain V where r: "dfs g (dict_keys g) [] {} = (V, None)"
    using assms by (cases "dfs g (dict_keys g) [] {}") (auto simp: find_cycle_def)
  have "finished_nodes (arcs g) V" and "set (dict_keys g) \<subseteq> V"
    using dfs_complete [OF r] by (auto simp: finished_nodes_def)
  then have "(u, u) \<notin> (arcs g)\<^sup>+" for u
    by (meson arcs_from_keys finished_nodes_def converse_tranclE subset_eq)
  then show ?thesis by (simp add: acyclic_def)
qed

lemma find_cycle_iff: "find_cycle g = None \<longleftrightarrow> acyclic (arcs g)"
  by (metis closed_walk_cyclic find_cycle_complete find_cycle_sound not_None_eq)

end
