(* ===== verification/Container_Laws.thy ===== *)
theory Container_Laws
  imports Container Dependency_Search
begin

text \<open>
  What resolving does to a container and when it succeeds: it changes nothing but caches and
  statuses, always returns, hands out one instance per singleton, succeeds on every key of a
  container without cycles and gaps, and never on a key that lies on a cycle.
\<close>

subsection \<open>What a resolution leaves alone\<close>

definition strip :: "'v registration \<Rightarrow> 'v registration" where
  "strip reg = reg\<lparr>rg_status := REGISTERED, rg_singleton_instance := None\<rparr>"

text \<open>The registrations up to status and instance record, and the other fields but the caches.\<close>

definition frame_of :: "'v container \<Rightarrow>
    (string, 'v registration) dict \<times> (string, string) dict \<times> nat \<times> bool" where
  "frame_of c =
     (map (map_prod id strip) (ct_registrations c), ct_aliases c, ct_resolve_counter c, ct_started c)"

lemma map_of_strip: "map_of (map (map_prod id strip) d) k = map_option strip (map_of d k)"
  by (induction d) auto

lemma frame_of_get:
  "frame_of c = frame_of c' \<Longrightarrow>
   map_option strip (dict_get (ct_registrations c) k) = map_option strip (dict_get (ct_registrations c') k)"
  by (metis frame_of_def map_of_strip prod.inject)

lemma strip_eqD:
  assumes "strip reg = strip reg'"
  shows "rg_resolving_in reg = rg_resolving_in reg'" "rg_lifetime reg = rg_lifetime reg'"
    "rg_depends_on reg = rg_depends_on reg'" "rg_factory reg = rg_factory reg'"
    "rg_compiled_params reg = rg_compiled_params reg'"
  using arg_cong [OF assms, of rg_resolving_in] arg_cong [OF assms, of rg_lifetime]
    arg_cong [OF assms, of rg_depends_on] arg_cong [OF assms, of rg_factory]
    arg_cong [OF assms, of rg_compiled_params]
  by (simp_all add: strip_def)

lemma dict_set_same: "dict_get d k = Some v \<Longrightarrow> dict_set d k v = d"
  by (induction d) auto

lemma dict_set_set [simp]: "dict_set (dict_set d k v) k w = dict_set d k w"
  by (induction d) auto

lemma map_prod_dict_set: "map (map_prod id f) (dict_set d k v) = dict_set (map (map_prod id f) d) k (f v)"
  by (induction d) auto

lemma upd_get [simp]:
  "dict_get (ct_registrations (upd_registration key f c)) k =
     (if k = key then map_option f (dict_get (ct_registrations c) key) else dict_get (ct_registrations c) k)"
  by (auto simp: upd_registration_def split: option.splits)

lemma upd_other [simp]:
  "ct_singletons (upd_registration key f c) = ct_singletons c"
  "ct_scoped (upd_registration key f c) = ct_scoped c"
  by (auto simp: upd_registration_def split: option.splits)

lemma frame_of_upd:
  assumes "dict_get (ct_registrations c) key = Some reg"
  shows "frame_of (upd_registration key f c) =
     (dict_set (fst (frame_of c)) key (strip (f reg)), snd (frame_of c))"
  using assms by (simp add: upd_registration_def frame_of_def map_prod_dict_set)

lemma frame_of_cache [simp]:
  "frame_of (c\<lparr>ct_singletons := x\<rparr>) = frame_of c"
  "frame_of (c\<lparr>ct_scoped := y\<rparr>) = frame_of c"
  by (simp_all add: frame_of_def)

lemma frame_of_get_fst: "dict_get (fst (frame_of c)) k = map_option strip (dict_get (ct_registrations c) k)"
  by (simp add: frame_of_def map_of_strip)

lemma frame_of_upd_strip:
  assumes "dict_get (ct_registrations c) key = Some reg" and "strip (f reg) = strip reg"
  shows "frame_of (upd_registration key f c) = frame_of c"
  using assms by (simp add: frame_of_upd dict_set_same frame_of_get_fst)

lemma strip_update [simp]:
  "strip (reg\<lparr>rg_status := x\<rparr>) = strip reg"
  "strip (reg\<lparr>rg_singleton_instance := y\<rparr>) = strip reg"
  by (simp_all add: strip_def)

text \<open>The exit from a construction undoes what the entry did to the registration.\<close>

lemma frame_of_leave:
  assumes reg: "dict_get (ct_registrations c) key = Some reg" and new: "rid \<notin> set (rg_resolving_in reg)"
    and fr: "frame_of c' = frame_of (enter_registration rid key c)"
  shows "frame_of (leave_registration rid key c') = frame_of c"
proof -
  let ?in = "reg\<lparr>rg_resolving_in := List.insert rid (rg_resolving_in reg)\<rparr>"
  have e: "frame_of (enter_registration rid key c) = (dict_set (fst (frame_of c)) key (strip ?in), snd (frame_of c))"
    unfolding enter_registration_def by (rule frame_of_upd [OF reg])
  have "dict_get (ct_registrations (enter_registration rid key c)) key = Some ?in"
    by (simp add: enter_registration_def reg)
  then obtain reg' where r': "dict_get (ct_registrations c') key = Some reg'" and s: "strip reg' = strip ?in"
    using frame_of_get [OF fr, of key] by (cases "dict_get (ct_registrations c') key") auto
  have "strip (reg'\<lparr>rg_resolving_in := removeAll rid (rg_resolving_in reg')\<rparr>) =
      (strip reg')\<lparr>rg_resolving_in := removeAll rid (rg_resolving_in (strip reg'))\<rparr>"
    by (simp add: strip_def)
  also have "\<dots> = strip reg"
    using new by (simp add: s) (simp add: strip_def List.insert_def)
  finally have st: "strip (reg'\<lparr>rg_resolving_in := removeAll rid (rg_resolving_in reg')\<rparr>) = strip reg" .
  show ?thesis
    unfolding leave_registration_def frame_of_upd [OF r'] st fr e
    using reg by (simp add: dict_set_same frame_of_get_fst)
qed

subsection \<open>Growing caches\<close>

text \<open>
  The instance tables only grow, and the entry of a registration that is under construction in the
  chain \<open>rid\<close> of calls is not touched.
\<close>

definition grows :: "nat \<Rightarrow> 'v container \<Rightarrow> 'v container \<Rightarrow> bool" where
  "grows rid c c' \<longleftrightarrow>
     frame_of c' = frame_of c \<and>
     map_of (ct_singletons c) \<subseteq>\<^sub>m map_of (ct_singletons c') \<and>
     map_of (ct_scoped c) \<subseteq>\<^sub>m map_of (ct_scoped c') \<and>
     (\<forall>k reg. dict_get (ct_registrations c) k = Some reg \<longrightarrow> rid \<in> set (rg_resolving_in reg) \<longrightarrow>
        dict_get (ct_singletons c') k = dict_get (ct_singletons c) k \<and>
        dict_get (ct_scoped c') k = dict_get (ct_scoped c) k)"

definition state_grows :: "nat \<Rightarrow> 'v rstate \<Rightarrow> 'v rstate \<Rightarrow> bool" where
  "state_grows rid s s' \<longleftrightarrow> list_all2 (grows rid) (fst s) (fst s') \<and> snd s \<le> snd s'"

lemma grows_refl [simp]: "grows rid c c"
  by (simp add: grows_def)

lemma grows_resolving:
  assumes "grows rid c c'" and "dict_get (ct_registrations c) k = Some reg"
  obtains reg' where "dict_get (ct_registrations c') k = Some reg'" and "strip reg' = strip reg"
  using frame_of_get [of c' c k] assms by (cases "dict_get (ct_registrations c') k") (auto simp: grows_def)

lemma grows_trans: 
  assumes "grows rid c1 c2" and "grows rid c2 c3"
  shows "grows rid c1 c3"
proof -
  have "dict_get (ct_singletons c3) k = dict_get (ct_singletons c1) k \<and>
        dict_get (ct_scoped c3) k = dict_get (ct_scoped c1) k"
    if k: "dict_get (ct_registrations c1) k = Some reg" and r: "rid \<in> set (rg_resolving_in reg)" for k reg
  proof -
    obtain reg' where "dict_get (ct_registrations c2) k = Some reg'" and "strip reg' = strip reg"
      using grows_resolving [OF assms(1) k] .
    then show ?thesis using assms k r strip_eqD(1) [of reg' reg] by (simp add: grows_def)
  qed
  then show ?thesis using assms unfolding grows_def by (auto intro: map_le_trans)
qed

lemma state_grows_refl [simp]: "state_grows rid s s"
  by (simp add: state_grows_def list_all2_refl)

lemma state_grows_trans: "state_grows rid s1 s2 \<Longrightarrow> state_grows rid s2 s3 \<Longrightarrow> state_grows rid s1 s3"
  unfolding state_grows_def using list_all2_trans [OF grows_trans] by auto

text \<open>
  A relation between states that every nested resolution keeps is kept by the construction of an
  instance, whatever its outcome.
\<close>

locale resolution_relation =
  fixes Q :: "'v rstate \<Rightarrow> 'v rstate \<Rightarrow> bool"
  assumes Q_refl: "Q s s"
    and Q_trans: "Q s t \<Longrightarrow> Q t u \<Longrightarrow> Q s u"
    and Q_call: "Q (cs, w) (cs, Suc w)"
begin

definition keeps :: "'v resolver \<Rightarrow> bool" where
  "keeps res \<longleftrightarrow> (\<forall>k s s' r. res k s = Some (s', r) \<longrightarrow> Q s s')"

lemma keeps_deps: "keeps res \<Longrightarrow> resolve_deps res ds acc s = Some (s', r) \<Longrightarrow> Q s s'"
proof (induction res ds acc s rule: resolve_deps.induct)
  case (2 res d ds acc s)
  then obtain s1 x where x: "res d s = Some (s1, x)" by (cases "res d s") auto
  then have "Q s s1" using "2.prems"(1) unfolding keeps_def by blast
  moreover have "Q s1 s'" if "x = Inr v" for v using 2(1) [of "(s1, x)"] "2.prems" x that by auto
  ultimately show ?case using "2.prems"(2) x Q_trans by (cases x) auto
qed (simp add: Q_refl)

lemma keeps_slots: "keeps res \<Longrightarrow> fill_slots res deps slots params s = Some (s', r) \<Longrightarrow> Q s s'"
proof (induction res deps slots params s rule: fill_slots.induct)
  case (2 res deps p dflt h slots params s)
  show ?case
  proof (cases "dict_get deps p = None \<and> dflt = None \<and> truthy h")
    case True
    then obtain s1 x where x: "res (the h) s = Some (s1, x)"
      using "2.prems"(2) by (cases "res (the h) s") auto
    then have q: "Q s s1" using "2.prems"(1) unfolding keeps_def by blast
    have "Q s1 s' \<or> s' = s1"
    proof (cases x)
      case (Inl e)
      then show ?thesis using "2.IH" "2.prems" True x by (cases e) auto
    next
      case (Inr v)
      then show ?thesis using "2.IH" "2.prems" True x by auto
    qed
    then show ?thesis using q Q_trans by blast
  next
    case False
    then show ?thesis using "2.IH" "2.prems" by (auto split: option.splits if_splits)
  qed
qed (simp add: Q_refl)

lemma keeps_construct: "keeps res \<Longrightarrow> construct res reg s = Some (s', r) \<Longrightarrow> Q s s'"
proof -
  assume k: "keeps res" and c: "construct res reg s = Some (s', r)"
  show "Q s s'"
  proof (cases "rg_slots reg")
    case None
    then show ?thesis using c by (auto simp: construct_def Q_refl)
  next
    case (Some slots)
    obtain s1 x where x: "resolve_deps res (rg_deps reg) [] s = Some (s1, x)"
      using c Some by (auto simp: construct_def split: option.splits)
    then have q1: "Q s s1" by (rule keeps_deps [OF k])
    show ?thesis
    proof (cases x)
      case (Inl e)
      then show ?thesis using c Some x q1 by (simp add: construct_def)
    next
      case (Inr deps)
      obtain cs w y where y: "fill_slots res deps slots [] s1 = Some ((cs, w), y)"
        using c Some x Inr by (auto simp: construct_def split: option.splits)
      have "Q s1 (cs, w)" by (rule keeps_slots [OF k y])
      then have "Q s (cs, w)" using q1 Q_trans by blast
      moreover have "s' = (cs, w) \<or> s' = (cs, Suc w)"
        using c Some x Inr y by (auto simp: construct_def split: sum.splits)
      ultimately show ?thesis using Q_call Q_trans by blast
    qed
  qed
qed

end

interpretation sg: resolution_relation "state_grows rid" for rid
  by unfold_locales (simp, erule (1) state_grows_trans, simp add: state_grows_def list_all2_refl)

lemma enter_other [simp]:
  "ct_singletons (enter_registration rid key c) = ct_singletons c"
  "ct_scoped (enter_registration rid key c) = ct_scoped c"
  "ct_singletons (leave_registration rid key c) = ct_singletons c"
  "ct_scoped (leave_registration rid key c) = ct_scoped c"
  by (simp_all add: enter_registration_def leave_registration_def)

lemma enter_get:
  "dict_get (ct_registrations c) key = Some reg \<Longrightarrow>
   dict_get (ct_registrations (enter_registration rid key c)) k =
     (if k = key then Some (reg\<lparr>rg_resolving_in := List.insert rid (rg_resolving_in reg)\<rparr>)
      else dict_get (ct_registrations c) k)"
  by (simp add: enter_registration_def)

lemma frame_of_some:
  "frame_of c' = frame_of c \<Longrightarrow> dict_get (ct_registrations c) k = Some reg \<Longrightarrow>
   \<exists>reg'. dict_get (ct_registrations c') k = Some reg' \<and> strip reg' = strip reg"
  using frame_of_get [of c' c k] by (cases "dict_get (ct_registrations c') k") auto

lemma frame_of_conclude:
  assumes reg: "dict_get (ct_registrations c) key = Some reg" and new: "rid \<notin> set (rg_resolving_in reg)"
    and fr: "frame_of c' = frame_of (enter_registration rid key c)"
  shows "frame_of (fst (conclude rid key lt r c')) = frame_of c"
proof -
  note le = frame_of_leave [OF reg new]
  have "\<exists>reg'. dict_get (ct_registrations c') key = Some reg'"
    using frame_of_some [OF fr, of key] by (auto simp: enter_get [OF reg])
  then obtain reg' where r': "dict_get (ct_registrations c') key = Some reg'" ..
  have st: "frame_of (upd_registration key (\<lambda>reg. reg\<lparr>rg_status := FAILED\<rparr>) c') = frame_of c'"
    by (rule frame_of_upd_strip [OF r']) simp
  have "frame_of (store_instance key lt v (leave_registration rid key c')) = frame_of c" for v
  proof (cases lt)
    case SINGLETON
    let ?c = "leave_registration rid key c'\<lparr>ct_singletons := dict_set (ct_singletons c') key v\<rparr>"
    obtain q where "dict_get (ct_registrations ?c) key = Some q"
      using r' by (simp add: leave_registration_def)
    then show ?thesis using SINGLETON le [OF fr] 
        frame_of_upd_strip [of ?c key q "\<lambda>reg. reg\<lparr>rg_singleton_instance := Some v, rg_status := RESOLVED\<rparr>"]
      by (simp add: store_instance_def)
  qed (simp_all add: store_instance_def le [OF fr])
  then show ?thesis
    using le [OF fr] le [of "upd_registration key (\<lambda>reg. reg\<lparr>rg_status := FAILED\<rparr>) c'"] st fr
    by (auto simp: conclude_def split: sum.splits build_error.splits container_error.splits)
qed

lemma conclude_caches:
  "dict_get (ct_singletons (fst (conclude rid key lt r c))) k =
     (if k = key \<and> lt = SINGLETON \<and> \<not> isl r then Some (projr r) else dict_get (ct_singletons c) k)"
  "dict_get (ct_scoped (fst (conclude rid key lt r c))) k =
     (if k = key \<and> lt = SCOPED \<and> \<not> isl r then Some (projr r) else dict_get (ct_scoped c) k)"
  by (cases r; simp add: conclude_def store_instance_def
      split: build_error.split container_error.split lifetime.split)+

lemma conclude_grows:
  assumes reg: "dict_get (ct_registrations c) key = Some reg" and new: "rid \<notin> set (rg_resolving_in reg)"
    and no: "cached c ps key (rg_lifetime reg) = None"
    and g: "grows rid (enter_registration rid key c) c'"
  shows "grows rid c (fst (conclude rid key (rg_lifetime reg) r c'))"
proof -
  have k: "dict_get (ct_singletons c') key = dict_get (ct_singletons c) key \<and>
      dict_get (ct_scoped c') key = dict_get (ct_scoped c) key"
    using g enter_get [OF reg, of rid key] by (simp add: grows_def)
  have "frame_of (fst (conclude rid key (rg_lifetime reg) r c')) = frame_of c"
    using g by (intro frame_of_conclude [OF reg new]) (simp add: grows_def)
  moreover have "map_of (ct_singletons c) \<subseteq>\<^sub>m map_of (ct_singletons (fst (conclude rid key (rg_lifetime reg) r c')))"
    using g no unfolding map_le_def
    by (auto simp: conclude_caches grows_def map_le_def cached_def split: option.splits)
  moreover have "map_of (ct_scoped c) \<subseteq>\<^sub>m map_of (ct_scoped (fst (conclude rid key (rg_lifetime reg) r c')))"
    using g no unfolding map_le_def
    by (auto simp: conclude_caches grows_def map_le_def cached_def split: option.splits)
  moreover have "dict_get (ct_singletons (fst (conclude rid key (rg_lifetime reg) r c'))) q = dict_get (ct_singletons c) q \<and>
      dict_get (ct_scoped (fst (conclude rid key (rg_lifetime reg) r c'))) q = dict_get (ct_scoped c) q"
    if "dict_get (ct_registrations c) q = Some rq" and "rid \<in> set (rg_resolving_in rq)" for q rq
  proof -
    have "q \<noteq> key" using that reg new by auto
    then show ?thesis using g that enter_get [OF reg, of rid q] by (simp add: conclude_caches grows_def)
  qed
  ultimately show ?thesis by (simp add: grows_def)
qed

text \<open>Every resolution lets the state grow and changes nothing else.\<close>

lemma resolve_fuel_grows: "resolve_fuel n rid vis key s = Some (s', r) \<Longrightarrow> state_grows rid s s'"
proof (induction n rid vis key s arbitrary: s' r rule: resolve_fuel.induct)
  case (3 n rid vis key c ps w)
  show ?case
  proof (cases "dict_get (ct_registrations c) key")
    case None
    show ?thesis
    proof (cases "ps = []")
      case False
      then obtain ps' w' where p: "resolve_fuel n rid vis key (ps, w) = Some ((ps', w'), r)" and s': "s' = (c # ps', w')"
        using "3.prems" None by (auto split: option.splits)
      then have "state_grows rid (ps, w) (ps', w')" using "3.IH"(1) None False by auto
      then show ?thesis by (simp add: s' state_grows_def)
    qed (use "3.prems" None in simp)
  next
    case (Some reg)
    show ?thesis
    proof (cases "key \<in> set vis \<or> rid \<in> set (rg_resolving_in reg) \<or> cached c ps key (rg_lifetime reg) \<noteq> None")
      case True
      then have "s' = (c # ps, w)" using "3.prems" Some by (auto split: if_splits option.splits)
      then show ?thesis by simp
    next
      case False
      let ?res = "\<lambda>k (s :: 'a rstate). resolve_fuel n rid (key # vis) k s"
      obtain c' ps' w' x where b: "construct ?res reg (enter_registration rid key c # ps, w) = Some ((c' # ps', w'), x)"
          and s': "s' = (fst (conclude rid key (rg_lifetime reg) x c') # ps', w')"
        using "3.prems" Some False by (auto split: option.splits list.splits prod.splits)
      have "state_grows rid s s'" if "?res k s = Some (s', r)" for k r and s s' :: "'a rstate"
        using "3.IH"(2) [OF Some _ _ _ that] False by simp
      then have "sg.keeps rid ?res" unfolding sg.keeps_def by blast
      then have "state_grows rid (enter_registration rid key c # ps, w) (c' # ps', w')"
        using b by (rule sg.keeps_construct)
      then show ?thesis using conclude_grows [OF Some] False
        by (auto simp: s' state_grows_def)
    qed
  qed
qed auto

subsection \<open>Resolution returns\<close>

context resolution_relation
begin

definition answers :: "'v rstate \<Rightarrow> 'v resolver \<Rightarrow> bool" where
  "answers s0 res \<longleftrightarrow> (\<forall>k s. Q s0 s \<longrightarrow> res k s \<noteq> None)"

lemma answersE:
  assumes "answers s0 res" and "Q s0 s"
  obtains s1 x where "res k s = Some (s1, x)"
  using assms unfolding answers_def by (metis not_None_eq surj_pair)

lemma answers_deps: "keeps res \<Longrightarrow> answers s0 res \<Longrightarrow> Q s0 s \<Longrightarrow> resolve_deps res ds acc s \<noteq> None"
proof (induction res ds acc s rule: resolve_deps.induct)
  case (2 res d ds acc s)
  obtain s1 x where x: "res d s = Some (s1, x)" using answersE [OF "2.prems"(2,3)] .
  then have "Q s0 s1" using "2.prems"(1,3) Q_trans unfolding keeps_def by blast
  then show ?case using "2.IH" [OF x refl] "2.prems"(1,2) x by (cases x) auto
qed simp

lemma answers_slots:
  "keeps res \<Longrightarrow> answers s0 res \<Longrightarrow> Q s0 s \<Longrightarrow> fill_slots res deps slots params s \<noteq> None"
proof (induction res deps slots params s rule: fill_slots.induct)
  case (2 res deps p dflt h slots params s)
  obtain s1 x where x: "res (the h) s = Some (s1, x)" using answersE [OF "2.prems"(2,3)] .
  then have q: "Q s0 s1" using "2.prems"(1,3) Q_trans unfolding keeps_def by blast
  show ?case
  proof (cases x)
    case (Inl e)
    then show ?thesis using "2.IH" "2.prems" x q by (cases e) (auto split: option.splits)
  next
    case (Inr v)
    then show ?thesis using "2.IH" "2.prems" x q by (auto split: option.splits)
  qed
qed simp

lemma answers_construct:
  assumes k: "keeps res" and a: "answers s res"
  shows "construct res reg s \<noteq> None"
proof (cases "rg_slots reg")
  case (Some slots)
  obtain s1 x where x: "resolve_deps res (rg_deps reg) [] s = Some (s1, x)"
    using answers_deps [OF k a Q_refl, of "rg_deps reg" "[]"] by auto
  have q: "Q s s1" using keeps_deps [OF k x] .
  show ?thesis
  proof (cases x)
    case (Inr deps)
    obtain cs w y where "fill_slots res deps slots [] s1 = Some ((cs, w), y)"
      using answers_slots [OF k a q, of deps slots "[]"] by auto
    then show ?thesis using Some x Inr by (auto simp: construct_def split: sum.splits)
  qed (use Some x in \<open>simp add: construct_def\<close>)
qed (simp add: construct_def)

end

definition keys_of :: "'v chain \<Rightarrow> string set" where
  "keys_of cs = (\<Union>c\<in>set cs. set (dict_keys (ct_registrations c)))"

lemma keys_of_simps [simp]:
  "keys_of [] = {}" "keys_of (c # cs) = set (dict_keys (ct_registrations c)) \<union> keys_of cs"
  by (simp_all add: keys_of_def)

lemma finite_keys_of [simp]: "finite (keys_of cs)"
  by (simp add: keys_of_def)

lemma frame_of_keys: "frame_of c = frame_of c' \<Longrightarrow> set (dict_keys (ct_registrations c)) = set (dict_keys (ct_registrations c'))"
proof -
  assume "frame_of c = frame_of c'"
  then have "map fst (fst (frame_of c)) = map fst (fst (frame_of c'))" by simp
  then have "map fst (ct_registrations c) = map fst (ct_registrations c')" by (simp add: frame_of_def comp_def)
  then show ?thesis by simp
qed

lemma grows_keys: "list_all2 (grows rid) cs cs' \<Longrightarrow> keys_of cs' = keys_of cs \<and> length cs' = length cs"
proof (induction rule: list_all2_induct)
  case (Cons c cs c' cs')
  then have "frame_of c' = frame_of c" by (simp add: grows_def)
  then show ?case using Cons frame_of_keys [of c' c] by simp
qed simp

lemma enter_keys [simp]:
  "fst ` set (ct_registrations (enter_registration rid key c)) = fst ` set (ct_registrations c)"
  by (auto simp: enter_registration_def upd_registration_def dom_map_of_conv_image_fst [symmetric]
      split: option.splits if_splits)

lemma resolve_fuel_returns:
  "length (fst s) + card (keys_of (fst s) - set vis) < n \<Longrightarrow> resolve_fuel n rid vis key s \<noteq> None"
proof (induction n rid vis key s rule: resolve_fuel.induct)
  case (3 n rid vis key c ps w)
  show ?case
  proof (cases "dict_get (ct_registrations c) key")
    case None
    have "card (keys_of ps - set vis) \<le> card (keys_of (c # ps) - set vis)" by (intro card_mono) auto
    then have "resolve_fuel n rid vis key (ps, w) \<noteq> None" if "ps \<noteq> []"
      using "3.prems" by (intro "3.IH"(1) [OF None that]) simp
    then show ?thesis using None by (cases "ps = []") (auto split: option.splits)
  next
    case (Some reg)
    show ?thesis
    proof (cases "key \<in> set vis \<or> rid \<in> set (rg_resolving_in reg) \<or> cached c ps key (rg_lifetime reg) \<noteq> None")
      case True
      then show ?thesis using Some by (auto split: option.splits)
    next
      case False
      let ?res = "\<lambda>k (s :: 'a rstate). resolve_fuel n rid (key # vis) k s"
      let ?s = "(enter_registration rid key c # ps, w)"
      have "key \<in> keys_of (c # ps)" using Some by (force dest: map_of_SomeD)
      then have "keys_of (c # ps) - set (key # vis) \<subset> keys_of (c # ps) - set vis" using False by auto
      then have less: "card (keys_of (c # ps) - set (key # vis)) < card (keys_of (c # ps) - set vis)"
        by (intro psubset_card_mono) simp
      have k: "sg.keeps rid ?res" unfolding sg.keeps_def using resolve_fuel_grows by blast
      have "?res k s \<noteq> None" if "state_grows rid ?s s" for k s
      proof (rule "3.IH"(2) [OF Some])
        have "keys_of (fst s) = keys_of (c # ps)" and "length (fst s) = Suc (length ps)"
          using that grows_keys [of rid "fst ?s" "fst s"] by (simp_all add: state_grows_def)
        then show "length (fst s) + card (keys_of (fst s) - set (key # vis)) < n" 
          using less "3.prems" by simp
      qed (use False in auto)
      then have "sg.answers rid ?s ?res" unfolding sg.answers_def by blast
      then obtain cs' w' r where b: "construct ?res reg ?s = Some ((cs', w'), r)"
        using sg.answers_construct [OF k] by (metis not_None_eq surj_pair)
      then have "cs' \<noteq> []" using sg.keeps_construct [OF k b] by (auto simp: state_grows_def)
      then show ?thesis using b Some False by (auto split: prod.splits list.splits)
    qed
  qed
qed auto

lemma card_keys_of: "card (keys_of cs) \<le> length (concat (map ct_registrations cs))"
proof (induction cs)
  case (Cons c cs)
  have "card (keys_of (c # cs)) \<le> card (set (dict_keys (ct_registrations c))) + card (keys_of cs)"
    by (simp add: card_Un_le)
  also have "card (set (dict_keys (ct_registrations c))) \<le> length (ct_registrations c)"
    by (metis card_length length_map)
  finally show ?case using Cons by simp
qed simp

lemma resolve_inner_returns: "ct_resolve_inner rid key s \<noteq> None"
  unfolding ct_resolve_inner_def
  by (rule resolve_fuel_returns) (simp add: resolve_depth_def less_Suc_eq_le card_keys_of)

subsection \<open>A container without cycles and gaps resolves\<close>

definition yields :: "(container_error + 'v) \<Rightarrow> bool" where
  "yields r \<longleftrightarrow> (\<exists>v. r = Inr v)"

text \<open>The slots that receive an argument when \<open>ks\<close> are the registered keys.\<close>

definition filled :: "string set \<Rightarrow> string list \<Rightarrow> 'v ctor_slot list \<Rightarrow> string set" where
  "filled ks deps slots =
     {p. \<exists>d h. (p, d, h) \<in> set slots \<and> (p \<in> set deps \<or> d \<noteq> None \<or> (truthy h \<and> the h \<in> ks))}"

lemma filled_Cons:
  "filled ks deps ((p, d, h) # slots) =
     (if p \<in> set deps \<or> d \<noteq> None \<or> (truthy h \<and> the h \<in> ks) then {p} else {}) \<union> filled ks deps slots"
  by (auto simp: filled_def)

context resolution_relation
begin

lemma deps_yield:
  assumes "keeps res" and "Q s0 s" and "resolve_deps res ds acc s = Some (s', r)"
    and "\<And>d s s' r. d \<in> set ds \<Longrightarrow> Q s0 s \<Longrightarrow> res d s = Some (s', r) \<Longrightarrow> yields r"
  shows "\<exists>m. r = Inr m \<and> fst ` set m = fst ` set acc \<union> set ds"
  using assms
proof (induction res ds acc s rule: resolve_deps.induct)
  case (2 res d ds acc s)
  then obtain s1 x where x: "res d s = Some (s1, x)" by (cases "res d s") auto
  then obtain v where v: "x = Inr v" using "2.prems"(2) "2.prems"(4) [of d s s1 x] by (auto simp: yields_def)
  have q: "Q s0 s1" using "2.prems"(1,2) x Q_trans unfolding keeps_def by blast
  have "\<exists>m. r = Inr m \<and> fst ` set m = fst ` set (dict_set acc d v) \<union> set ds"
  proof (rule "2.IH" [OF x refl v "2.prems"(1) q])
    show "resolve_deps res ds (dict_set acc d v) s1 = Some (s', r)" using "2.prems"(3) x v by simp
    show "yields r" if "d' \<in> set ds" and "Q s0 t" and "res d' t = Some (t', r)" for d' t t' r
      using "2.prems"(4) [of d' t t' r] that by simp
  qed
  then show ?case by simp
qed auto

lemma slots_yield:
  assumes "keeps res" and "Q s0 s" and "fill_slots res deps slots params s = Some (s', r)"
    and "\<And>p h s s' r. (p, None, h) \<in> set slots \<Longrightarrow> p \<notin> fst ` set deps \<Longrightarrow> truthy h \<Longrightarrow> Q s0 s \<Longrightarrow>
      res (the h) s = Some (s', r) \<Longrightarrow>
      (if the h \<in> ks then yields r else \<exists>k. r = Inl (MissingDependencyError k))"
    and "fst ` set deps = set ds"
  shows "\<exists>m. r = Inr m \<and> fst ` set m = fst ` set params \<union> filled ks ds slots"
  using assms
proof (induction res deps slots params s rule: fill_slots.induct)
  case (1 res deps params s)
  then show ?case by (auto simp: filled_def)
next
  case (2 res deps p dflt h slots params s)
  let ?goal = "\<lambda>params. \<exists>m. r = Inr m \<and> fst ` set m = fst ` set params \<union> filled ks ds slots"
  have tl: "if the h \<in> ks then yields r else \<exists>k. r = Inl (MissingDependencyError k)"
    if "(p, None, h) \<in> set slots" "p \<notin> fst ` set deps" "truthy h" "Q s0 s" "res (the h) s = Some (s', r)"
    for p h s s' r using "2.prems"(4) [of p h s s' r] that by simp
  show ?case
  proof (cases "dict_get deps p")
    case (Some v)
    then have "p \<in> set ds" using "2.prems"(5) by (metis domI dom_map_of_conv_image_fst)
    then show ?thesis using "2.IH"(5) [OF Some "2.prems"(1,2) _ tl "2.prems"(5)] "2.prems"(3) Some
      by (simp add: filled_Cons)
  next
    case None
    then have out: "p \<notin> fst ` set deps" by (simp add: map_of_eq_None_iff)
    show ?thesis
    proof (cases dflt)
      case (Some v)
      then show ?thesis using "2.IH"(4) [OF None Some "2.prems"(1,2) _ tl "2.prems"(5)] "2.prems"(3) None Some
        by (simp add: filled_Cons)
    next
      case d: None
      show ?thesis
      proof (cases "truthy h")
        case True
        then obtain s1 x where x: "res (the h) s = Some (s1, x)"
          using "2.prems"(3) None d by (cases "res (the h) s") auto
        have q: "Q s0 s1" using "2.prems"(1,2) x Q_trans unfolding keeps_def by blast
        have y: "if the h \<in> ks then yields x else \<exists>k. x = Inl (MissingDependencyError k)"
          using "2.prems"(4) [OF _ out True "2.prems"(2) x] d by simp
        show ?thesis
        proof (cases "the h \<in> ks")
          case in_ks: True
          then obtain v where v: "x = Inr v" using y by (auto simp: yields_def)
          have "?goal (dict_set params p v)"
            using "2.IH"(2) [OF None d True x refl v "2.prems"(1) q _ tl "2.prems"(5)] "2.prems"(3) None d True x v by simp
          then show ?thesis using True in_ks by (simp add: filled_Cons)
        next
          case False
          then obtain k where k: "x = Inl (MissingDependencyError k)" using y by auto
          have "?goal params"
            using "2.IH"(1) [OF None d True x refl k refl "2.prems"(1) q _ tl "2.prems"(5)] "2.prems"(3) None d True x k by simp
          then show ?thesis using False d out "2.prems"(5) by (simp add: filled_Cons)
        qed
      next
        case False
        then show ?thesis using "2.IH"(3) [OF None d False "2.prems"(1,2) _ tl "2.prems"(5)] "2.prems"(3) None d out "2.prems"(5) False
          by (simp add: filled_Cons)
      qed
    qed
  qed
qed

lemma construct_yields:
  assumes k: "keeps res" and slots: "rg_slots reg = Some slots"
    and c: "construct res reg s = Some (s', r)"
    and deps: "\<And>d t t' r. d \<in> set (rg_deps reg) \<Longrightarrow> Q s t \<Longrightarrow> res d t = Some (t', r) \<Longrightarrow> yields r"
    and hints: "\<And>p h t t' r. (p, None, h) \<in> set slots \<Longrightarrow> p \<notin> set (rg_deps reg) \<Longrightarrow> truthy h \<Longrightarrow> Q s t \<Longrightarrow>
      res (the h) t = Some (t', r) \<Longrightarrow>
      (if the h \<in> ks then yields r else \<exists>k. r = Inl (MissingDependencyError k))"
    and call: "\<And>w m. fst ` set m = filled ks (rg_deps reg) slots \<Longrightarrow> \<exists>v. fa_call (rg_factory reg) w m = Inr v"
  shows "\<exists>v. r = Inr v"
proof -
  obtain s1 x where x: "resolve_deps res (rg_deps reg) [] s = Some (s1, x)"
    using c slots by (auto simp: construct_def split: option.splits)
  have "\<exists>m. x = Inr m \<and> fst ` set m = fst ` set ([] :: (string \<times> 'v) list) \<union> set (rg_deps reg)"
    using deps by (rule deps_yield [OF k Q_refl x])
  then obtain m where m: "x = Inr m" and km: "fst ` set m = set (rg_deps reg)" by auto
  obtain cs w y where y: "fill_slots res m slots [] s1 = Some ((cs, w), y)"
    using c slots x m by (auto simp: construct_def split: option.splits)
  obtain ps where ps: "y = Inr ps" and "fst ` set ps = filled ks (rg_deps reg) slots"
    using slots_yield [OF k keeps_deps [OF k x] y _ km, of ks] hints km by auto
  then obtain v where "fa_call (rg_factory reg) w ps = Inr v" using call by blast
  then show ?thesis using c slots x m y ps by (auto simp: construct_def)
qed

end

text \<open>A registration without what changes while it is being resolved.\<close>

definition bare :: "'v registration \<Rightarrow> 'v registration" where
  "bare reg = (strip reg)\<lparr>rg_resolving_in := []\<rparr>"

definition same_regs :: "'v container \<Rightarrow> 'v container \<Rightarrow> bool" where
  "same_regs c0 c \<longleftrightarrow> (\<forall>k. map_option bare (dict_get (ct_registrations c) k) =
     map_option bare (dict_get (ct_registrations c0) k))"

lemma same_regsD:
  "same_regs c0 c \<Longrightarrow> map_option bare (dict_get (ct_registrations c) k) =
     map_option bare (dict_get (ct_registrations c0) k)"
  by (simp add: same_regs_def)

lemma bare_parts:
  "rg_lifetime (bare reg) = rg_lifetime reg" "rg_factory (bare reg) = rg_factory reg"
  "rg_deps (bare reg) = rg_deps reg" "rg_slots (bare reg) = rg_slots reg"
  by (simp_all add: bare_def strip_def rg_deps_def rg_slots_def)

lemma bare_eqD:
  assumes "bare reg = bare reg'"
  shows "rg_lifetime reg = rg_lifetime reg'" "rg_factory reg = rg_factory reg'"
    "rg_deps reg = rg_deps reg'" "rg_slots reg = rg_slots reg'"
  using assms bare_parts by metis+

text \<open>The states met inside a resolution: the same registrations, those in construction visited.\<close>

definition midway :: "'v container \<Rightarrow> nat \<Rightarrow> string list \<Rightarrow> 'v rstate \<Rightarrow> bool" where
  "midway c0 rid vis s \<longleftrightarrow>
     (\<exists>c w. s = ([c], w) \<and> same_regs c0 c \<and>
        (\<forall>k reg. dict_get (ct_registrations c) k = Some reg \<longrightarrow> rid \<in> set (rg_resolving_in reg) \<longrightarrow> k \<in> set vis))"

lemma same_regs_grows:
  assumes "same_regs c0 c" and "grows rid c c'"
  shows "same_regs c0 c'"
proof -
  have fr: "frame_of c = frame_of c'" using assms(2) by (simp add: grows_def)
  have "map_option bare (dict_get (ct_registrations c') k) = map_option bare (dict_get (ct_registrations c) k)" for k
    using frame_of_get [OF fr, of k]
    by (cases "dict_get (ct_registrations c) k"; cases "dict_get (ct_registrations c') k") (auto simp: bare_def)
  then show ?thesis using assms(1) by (simp add: same_regs_def)
qed

lemma same_regs_enter:
  assumes "same_regs c0 c" and reg: "dict_get (ct_registrations c) key = Some reg"
  shows "same_regs c0 (enter_registration rid key c)"
proof -
  have "bare (reg\<lparr>rg_resolving_in := x\<rparr>) = bare reg" for x by (simp add: bare_def strip_def)
  then show ?thesis using same_regsD [OF assms(1)] reg unfolding same_regs_def
    by (auto simp: enter_get [OF reg]) (metis option.map(2))
qed

lemma midway_grows:
  assumes "midway c0 rid vis s" and "state_grows rid s s'"
  shows "midway c0 rid vis s'"
proof -
  obtain c w where s: "s = ([c], w)" and sr: "same_regs c0 c"
      and vis: "\<And>k reg. dict_get (ct_registrations c) k = Some reg \<Longrightarrow> rid \<in> set (rg_resolving_in reg) \<Longrightarrow> k \<in> set vis"
    using assms(1) by (auto simp: midway_def)
  obtain c' w' where s': "s' = ([c'], w')" and g: "grows rid c c'"
    using assms(2) s by (cases s') (auto simp: state_grows_def list_all2_Cons1)
  have fr: "frame_of c = frame_of c'" using g by (simp add: grows_def)
  have "same_regs c0 c'" by (rule same_regs_grows [OF sr g])
  moreover have "k \<in> set vis" if "dict_get (ct_registrations c') k = Some reg" "rid \<in> set (rg_resolving_in reg)" for k reg
    using frame_of_some [OF fr that(1)] vis that(2) strip_eqD(1) by metis
  ultimately show ?thesis by (auto simp: midway_def s')
qed

lemma midway_enter:
  assumes "midway c0 rid vis ([c], w)" and reg: "dict_get (ct_registrations c) key = Some reg"
  shows "midway c0 rid (key # vis) ([enter_registration rid key c], w)"
  using assms same_regs_enter [OF _ reg] by (auto simp: midway_def enter_get [OF reg])

text \<open>
  A registration can be built: its slots are known, what its annotations name is declared as a
  dependency when it is registered at all, and the factory accepts the arguments it will receive.
\<close>

definition buildable :: "string set \<Rightarrow> 'v registration \<Rightarrow> bool" where
  "buildable ks reg \<longleftrightarrow>
     (\<exists>slots. rg_slots reg = Some slots \<and>
        (\<forall>p h. (p, None, h) \<in> set slots \<longrightarrow> p \<notin> set (rg_deps reg) \<longrightarrow> truthy h \<longrightarrow> the h \<in> ks \<longrightarrow>
           the h \<in> set (rg_deps reg)) \<and>
        (\<forall>w m. fst ` set m = filled ks (rg_deps reg) slots \<longrightarrow>
           (\<exists>v. fa_call (rg_factory reg) w m = Inr v)))"

definition sound_container :: "'v container \<Rightarrow> bool" where
  "sound_container c \<longleftrightarrow>
     acyclic (arcs (dependency_graph c)) \<and>
     (\<forall>k reg. dict_get (ct_registrations c) k = Some reg \<longrightarrow>
        set (rg_deps reg) \<subseteq> set (dict_keys (ct_registrations c)) \<and>
        buildable (set (dict_keys (ct_registrations c))) reg)"

lemma neighbours_graph:
  "neighbours (dependency_graph c) k =
     (case dict_get (ct_registrations c) k of None \<Rightarrow> [] | Some reg \<Rightarrow> rg_deps reg)"
proof -
  have "dict_get (dependency_graph c) k = map_option rg_deps (dict_get (ct_registrations c) k)"
    by (simp add: dependency_graph_def map_of_map [unfolded map_prod_def id_def comp_def])
  then show ?thesis by (simp add: neighbours_def dict_get_or_def split: option.splits)
qed

lemma buildable_bare: "bare reg = bare reg' \<Longrightarrow> buildable ks reg \<longleftrightarrow> buildable ks reg'"
  using bare_eqD [of reg reg'] by (simp add: buildable_def)

lemma missing_outside:
  assumes "midway c0 rid vis s" and "key \<notin> set (dict_keys (ct_registrations c0))"
    and "resolve_fuel n rid vis' key s = Some (s', r)"
  shows "r = Inl (MissingDependencyError key)"
proof -
  obtain c w where s: "s = ([c], w)" and "same_regs c0 c" using assms(1) by (auto simp: midway_def)
  moreover have "dict_get (ct_registrations c0) key = None"
    using assms(2) by (simp add: map_of_eq_None_iff)
  ultimately have "dict_get (ct_registrations c) key = None" using same_regsD [of c0 c key] by simp
  then show ?thesis using assms(3) s by (cases n) auto
qed

lemma resolve_fuel_yields:
  assumes ok: "sound_container c0"
  shows "resolve_fuel n rid vis key s = Some (s', r) \<Longrightarrow> midway c0 rid vis s \<Longrightarrow>
    key \<in> set (dict_keys (ct_registrations c0)) \<Longrightarrow> \<forall>v\<in>set vis. (v, key) \<in> (arcs (dependency_graph c0))\<^sup>+ \<Longrightarrow>
    yields r"
proof (induction n arbitrary: vis key s s' r)
  case (Suc n)
  let ?E = "arcs (dependency_graph c0)" and ?ks = "set (dict_keys (ct_registrations c0))"
  obtain c w where s: "s = ([c], w)" and same: "same_regs c0 c"
      and inv: "\<And>k reg. dict_get (ct_registrations c) k = Some reg \<Longrightarrow> rid \<in> set (rg_resolving_in reg) \<Longrightarrow> k \<in> set vis"
    using Suc.prems(2) by (auto simp: midway_def)
  obtain reg0 where r0: "dict_get (ct_registrations c0) key = Some reg0"
    using Suc.prems(3) by (auto simp: dom_map_of_conv_image_fst [symmetric])
  obtain reg where reg: "dict_get (ct_registrations c) key = Some reg" and b: "bare reg = bare reg0"
    using same_regsD [OF same, of key] r0 by auto
  have "key \<notin> set vis" using Suc.prems(4) ok by (auto simp: sound_container_def acyclic_def)
  then have "rid \<notin> set (rg_resolving_in reg)" using inv [OF reg] by blast
  show ?case
  proof (cases "cached c [] key (rg_lifetime reg)")
    case (Some v)
    then show ?thesis using Suc.prems(1) s reg \<open>key \<notin> set vis\<close> \<open>rid \<notin> set (rg_resolving_in reg)\<close>
      by (auto simp: yields_def)
  next
    case None
    let ?res = "\<lambda>k (s :: 'a rstate). resolve_fuel n rid (key # vis) k s"
    let ?s = "([enter_registration rid key c], w)"
    obtain c' ps' w' x where con: "construct ?res reg ?s = Some ((c' # ps', w'), x)"
        and r: "r = snd (conclude rid key (rg_lifetime reg) x c')"
      using Suc.prems(1) s reg None \<open>key \<notin> set vis\<close> \<open>rid \<notin> set (rg_resolving_in reg)\<close>
      by (auto split: option.splits list.splits prod.splits)
    have k: "sg.keeps rid ?res" unfolding sg.keeps_def using resolve_fuel_grows by blast
    have mid: "midway c0 rid (key # vis) t" if "state_grows rid ?s t" for t
      using midway_grows [OF midway_enter that] Suc.prems(2) reg s by simp
    have dep: "yields q" if d: "d \<in> set (rg_deps reg)" and g: "state_grows rid ?s t" and q: "?res d t = Some (t', q)" for d t t' q
    proof (rule Suc.IH [OF q mid [OF g]])
      have "(key, d) \<in> ?E" using d r0 bare_eqD(3) [OF b] by (simp add: arcs_def neighbours_graph)
      then show "\<forall>v\<in>set (key # vis). (v, d) \<in> ?E\<^sup>+" using Suc.prems(4) by (auto intro: trancl_into_trancl)
      show "d \<in> ?ks" using ok r0 d bare_eqD(3) [OF b] by (auto simp: sound_container_def)
    qed
    have "buildable ?ks reg" using ok r0 buildable_bare [OF b] by (auto simp: sound_container_def)
    then obtain slots where sl: "rg_slots reg = Some slots"
        and decl: "\<And>p h. (p, None, h) \<in> set slots \<Longrightarrow> p \<notin> set (rg_deps reg) \<Longrightarrow> truthy h \<Longrightarrow> the h \<in> ?ks \<Longrightarrow> the h \<in> set (rg_deps reg)"
        and call: "\<And>w m. fst ` set m = filled ?ks (rg_deps reg) slots \<Longrightarrow> \<exists>v. fa_call (rg_factory reg) w m = Inr v"
      unfolding buildable_def by blast
    have "\<exists>v. x = Inr v"
    proof (rule sg.construct_yields [OF k sl con dep _ call])
      fix p h t t' q
      assume h: "(p, None, h) \<in> set slots" "p \<notin> set (rg_deps reg)" "truthy h"
        and g: "state_grows rid ?s t" and q: "?res (the h) t = Some (t', q)"
      show "if the h \<in> ?ks then yields q else \<exists>k. q = Inl (MissingDependencyError k)"
        using dep [OF decl [OF h] g q] missing_outside [OF mid [OF g] _ q] by auto
    qed
    then show ?thesis by (auto simp: r conclude_def yields_def)
  qed
qed simp

subsection \<open>A key on a cycle never resolves\<close>

definition uncached :: "'v container \<Rightarrow> string set \<Rightarrow> 'v rstate \<Rightarrow> bool" where
  "uncached c0 S s \<longleftrightarrow>
     (\<exists>c w. s = ([c], w) \<and> same_regs c0 c \<and>
        (\<forall>k\<in>S. dict_get (ct_singletons c) k = None \<and> dict_get (ct_scoped c) k = None))"

interpretation un: resolution_relation "\<lambda>s s'. uncached c0 S s \<longrightarrow> uncached c0 S s'" for c0 S
  by unfold_locales (auto simp: uncached_def)

text \<open>Every key of the set depends on another of the set.\<close>

definition entangled :: "'v container \<Rightarrow> string set \<Rightarrow> bool" where
  "entangled c0 S \<longleftrightarrow>
     (\<forall>k\<in>S. \<exists>reg. dict_get (ct_registrations c0) k = Some reg \<and> set (rg_deps reg) \<inter> S \<noteq> {})"

lemma deps_fail:
  assumes "un.keeps c0 S res" and "uncached c0 S s" and "set ds \<inter> S \<noteq> {}"
    and "\<And>k t t' q. k \<in> S \<Longrightarrow> uncached c0 S t \<Longrightarrow> res k t = Some (t', q) \<Longrightarrow> \<not> yields q"
    and "resolve_deps res ds acc s = Some (s', r)"
  shows "\<exists>e. r = Inl e"
  using assms
proof (induction res ds acc s rule: resolve_deps.induct)
  case (2 res d ds acc s)
  then obtain s1 x where x: "res d s = Some (s1, x)" by (cases "res d s") auto
  have q: "uncached c0 S s1" using "2.prems"(1,2) x unfolding un.keeps_def by blast
  show ?case
  proof (cases x)
    case (Inl e)
    then show ?thesis using "2.prems"(5) x by auto
  next
    case (Inr v)
    then have "d \<notin> S" using "2.prems"(2) "2.prems"(4) [of d s s1 x] x by (auto simp: yields_def)
    then have "set ds \<inter> S \<noteq> {}" using "2.prems"(3) by simp
    then show ?thesis using "2.IH" [OF x refl Inr "2.prems"(1) q _ "2.prems"(4)] "2.prems"(5) x Inr by simp
  qed
qed simp

lemma construct_fails:
  assumes "un.keeps c0 S res" and "uncached c0 S s" and "set (rg_deps reg) \<inter> S \<noteq> {}"
    and "\<And>k t t' q. k \<in> S \<Longrightarrow> uncached c0 S t \<Longrightarrow> res k t = Some (t', q) \<Longrightarrow> \<not> yields q"
    and "construct res reg s = Some (s', r)"
  shows "\<exists>e. r = Inl e"
proof (cases "rg_slots reg")
  case (Some slots)
  then obtain s1 x where x: "resolve_deps res (rg_deps reg) [] s = Some (s1, x)"
    using assms(5) by (auto simp: construct_def split: option.splits)
  have "\<exists>e. x = Inl e" using assms(4) by (rule deps_fail [OF assms(1-3) _ x])
  then obtain e where "x = Inl e" ..
  then show ?thesis using assms(5) Some x by (auto simp: construct_def)
qed (use assms(5) in \<open>auto simp: construct_def\<close>)

lemma entangled_fail:
  assumes ent: "entangled c0 S"
  shows "resolve_fuel n rid vis key s = Some (s', r) \<Longrightarrow> uncached c0 S s \<Longrightarrow>
    uncached c0 S s' \<and> (key \<in> S \<longrightarrow> \<not> yields r)"
proof (induction n arbitrary: vis key s s' r)
  case (Suc n)
  obtain c w where s: "s = ([c], w)" and same: "same_regs c0 c"
      and no: "\<And>k. k \<in> S \<Longrightarrow> dict_get (ct_singletons c) k = None \<and> dict_get (ct_scoped c) k = None"
    using Suc.prems(2) by (auto simp: uncached_def)
  show ?case
  proof (cases "dict_get (ct_registrations c) key")
    case None
    then have "r = Inl (MissingDependencyError key)" and "s' = s" using Suc.prems(1) s by auto
    then show ?thesis using Suc.prems(2) by (simp add: yields_def)
  next
    case (Some reg)
    show ?thesis
    proof (cases "key \<in> set vis \<or> rid \<in> set (rg_resolving_in reg) \<or> cached c [] key (rg_lifetime reg) \<noteq> None")
      case True
      then have "s' = s" and "yields r \<Longrightarrow> cached c [] key (rg_lifetime reg) \<noteq> None"
        using Suc.prems(1) s Some by (auto simp: yields_def split: if_splits option.splits)
      moreover have "cached c [] key (rg_lifetime reg) = None" if "key \<in> S"
        using no [OF that] by (simp add: cached_def split: lifetime.split)
      ultimately show ?thesis using Suc.prems(2) by auto
    next
      case False
      let ?res = "\<lambda>k (s :: 'a rstate). resolve_fuel n rid (key # vis) k s"
      let ?s = "([enter_registration rid key c], w)"
      obtain c' ps' w' x where con: "construct ?res reg ?s = Some ((c' # ps', w'), x)"
          and s': "s' = (fst (conclude rid key (rg_lifetime reg) x c') # ps', w')"
          and r: "r = snd (conclude rid key (rg_lifetime reg) x c')"
        using Suc.prems(1) s Some False by (auto split: option.splits list.splits prod.splits)
      have k: "un.keeps c0 S ?res" unfolding un.keeps_def using Suc.IH by blast
      have u: "uncached c0 S ?s" using no same_regs_enter [OF same Some] by (simp add: uncached_def)
      have u': "uncached c0 S (c' # ps', w')" using un.keeps_construct [OF k con] u by blast
      have fails: "\<exists>e. x = Inl e" if "key \<in> S"
      proof (rule construct_fails [OF k u _ _ con])
        obtain reg0 where "dict_get (ct_registrations c0) key = Some reg0" and "set (rg_deps reg0) \<inter> S \<noteq> {}"
          using ent \<open>key \<in> S\<close> unfolding entangled_def by blast
        then show "set (rg_deps reg) \<inter> S \<noteq> {}" using same_regsD [OF same, of key] Some bare_eqD(3) [of reg reg0] by simp
      qed (use Suc.IH in blast)
      have nc: "dict_get (ct_singletons (fst (conclude rid key (rg_lifetime reg) x c'))) q = None \<and>
          dict_get (ct_scoped (fst (conclude rid key (rg_lifetime reg) x c'))) q = None" if "q \<in> S" for q
        using u' fails that by (auto simp: conclude_caches uncached_def)
      have "grows rid c (fst (conclude rid key (rg_lifetime reg) x c'))" and "ps' = []"
        using resolve_fuel_grows [OF Suc.prems(1)] s s' by (auto simp: state_grows_def)
      then have "uncached c0 S s'" using nc same_regs_grows [OF same] s' by (auto simp: uncached_def)
      moreover have "\<not> yields r" if "key \<in> S"
        using fails [OF that] by (auto simp: r conclude_def yields_def split: build_error.splits container_error.splits)
      ultimately show ?thesis by blast
    qed
  qed
qed simp

lemma closed_walk_entangled:
  assumes "closed_walk (arcs (dependency_graph c)) p"
  shows "entangled c (set p)"
proof -
  let ?E = "arcs (dependency_graph c)"
  have step: "\<exists>v\<in>set p. (u, v) \<in> R" if "walk R p" "u \<in> set (butlast p)" for R :: "string rel" and u p
    using that by (induction R p rule: walk.induct) (auto split: if_splits)
  have ne: "p \<noteq> []" "length p \<ge> 2" "hd p = last p" "walk ?E p" using assms by (auto simp: closed_walk_def)
  have "\<exists>v\<in>set p. (u, v) \<in> ?E" if "u \<in> set p" for u
  proof -
    have "hd p \<in> set (butlast p)" using ne(2) by (cases p) auto
    then have "u \<in> set (butlast p)" using that ne(1,3) by (metis append_butlast_last_id in_set_butlastD rotate1.simps(2) set_ConsD set_rotate1)
    then show ?thesis using step [OF ne(4)] by blast
  qed
  then have "\<exists>v\<in>set p. v \<in> set (neighbours (dependency_graph c) u)" if "u \<in> set p" for u
    using that by (simp add: arcs_def)
  then show ?thesis unfolding entangled_def neighbours_graph
    by (metis disjoint_iff empty_iff list.set(1) not_None_eq option.simps(4,5))
qed

subsection \<open>The public operations\<close>

text \<open>No registration is under construction, as between two calls.\<close>

definition idle :: "'v container \<Rightarrow> bool" where
  "idle c \<longleftrightarrow> (\<forall>k reg. dict_get (ct_registrations c) k = Some reg \<longrightarrow> rg_resolving_in reg = [])"

lemma idle_midway: "idle c \<Longrightarrow> midway c rid [] ([c], w)"
  by (fastforce simp: midway_def same_regs_def idle_def)

lemma bump_parts [simp]:
  "ct_registrations (c\<lparr>ct_resolve_counter := n\<rparr>) = ct_registrations c"
  "dependency_graph (c\<lparr>ct_resolve_counter := n\<rparr>) = dependency_graph c"
  "idle (c\<lparr>ct_resolve_counter := n\<rparr>) = idle c"
  "sound_container (c\<lparr>ct_resolve_counter := n\<rparr>) = sound_container c"
  by (simp_all add: dependency_graph_def idle_def sound_container_def)

lemma resolve_returns: "\<exists>s' r. ct_resolve t name s = Some (s', r)"
proof -
  obtain cs w where s: "s = (cs, w)" by (cases s)
  obtain z where "ct_resolve t name s = Some z"
    using resolve_inner_returns [of "next_id cs" "resolve_key (name_key t name) cs" "(bump cs, w)"]
    by (auto simp: ct_resolve_def s)
  then show ?thesis by (cases z) auto
qed

lemma resolve_grows:
  assumes "ct_resolve t name (cs, w) = Some (s', r)"
  shows "state_grows (next_id cs) (bump cs, w) s'"
  using assms by (auto simp: ct_resolve_def ct_resolve_inner_def dest: resolve_fuel_grows)

lemma sound_resolves:
  assumes "sound_container c" and "idle c" and "name_key t name \<in> set (dict_keys (ct_registrations c))"
  shows "\<exists>s' v. ct_resolve t name ([c], w) = Some (s', Inr v)"
proof -
  obtain s' r where r: "ct_resolve t name ([c], w) = Some (s', r)" using resolve_returns by blast
  let ?c = "c\<lparr>ct_resolve_counter := Suc (ct_resolve_counter c)\<rparr>"
  have "resolve_fuel (resolve_depth [?c]) (next_id [c]) [] (name_key t name) ([?c], w) = Some (s', r)"
    using r assms(3) by (simp add: ct_resolve_def ct_resolve_inner_def bump_def)
  moreover have "sound_container ?c" and "midway ?c (next_id [c]) [] ([?c], w)"
    using assms by (simp_all add: idle_midway)
  ultimately have "yields r" using resolve_fuel_yields [of ?c] assms(3) by fastforce
  then show ?thesis using r by (auto simp: yields_def)
qed

text \<open>No instance is stored for the keys of the set.\<close>

definition unbuilt :: "'v container \<Rightarrow> string set \<Rightarrow> bool" where
  "unbuilt c S \<longleftrightarrow> (\<forall>k\<in>S. dict_get (ct_singletons c) k = None \<and> dict_get (ct_scoped c) k = None)"

lemma arcs_same_regs:
  assumes "same_regs c0 c"
  shows "arcs (dependency_graph c) = arcs (dependency_graph c0)"
proof -
  have "neighbours (dependency_graph c) k = neighbours (dependency_graph c0) k" for k
    using same_regsD [OF assms, of k] bare_eqD(3)
    by (cases "dict_get (ct_registrations c) k"; cases "dict_get (ct_registrations c0) k")
      (auto simp: neighbours_graph)
  then show ?thesis by (simp add: arcs_def)
qed

lemma resolve_walk:
  assumes "closed_walk (arcs (dependency_graph c)) p" and "unbuilt c (set p)"
  shows "\<exists>c' w' r. ct_resolve t name ([c], w) = Some (([c'], w'), r) \<and>
    arcs (dependency_graph c') = arcs (dependency_graph c) \<and> unbuilt c' (set p) \<and>
    (resolve_key (name_key t name) [c] \<in> set p \<longrightarrow> (\<exists>e. r = Inl e))"
proof -
  let ?c = "c\<lparr>ct_resolve_counter := Suc (ct_resolve_counter c)\<rparr>"
  let ?k = "resolve_key (name_key t name) [c]"
  obtain s' r where r: "ct_resolve t name ([c], w) = Some (s', r)" using resolve_returns by blast
  have ent: "entangled ?c (set p)" using closed_walk_entangled [of ?c p] assms(1) by simp
  have f: "resolve_fuel (resolve_depth [?c]) (next_id [c]) [] ?k ([?c], w) = Some (s', r)"
    using r by (simp add: ct_resolve_def ct_resolve_inner_def bump_def del: resolve_key.simps)
  have "uncached ?c (set p) ([?c], w)" using assms(2) by (simp add: uncached_def same_regs_def unbuilt_def)
  note after = entangled_fail [OF ent f this]
  obtain c' w' where s': "s' = ([c'], w')" and same: "same_regs ?c c'" and no: "unbuilt c' (set p)"
    using after unfolding uncached_def unbuilt_def by blast
  have "arcs (dependency_graph c') = arcs (dependency_graph c)" using arcs_same_regs [OF same] by simp
  moreover have "\<exists>e. r = Inl e" if "?k \<in> set p" using after that by (cases r) (auto simp: yields_def)
  ultimately show ?thesis using r s' no by blast
qed

lemma resolve_stored:
  assumes "resolve_key (name_key t name) [c] = k" and "dict_get (ct_registrations c) k = Some reg"
    and "rg_lifetime reg = SINGLETON" and "rg_resolving_in reg = []" and "dict_get (ct_singletons c) k = Some v"
  shows "\<exists>s'. ct_resolve t name ([c], w) = Some (s', Inr v)"
proof -
  obtain n where "resolve_depth [c\<lparr>ct_resolve_counter := Suc (ct_resolve_counter c)\<rparr>] = Suc n"
    by (simp add: resolve_depth_def)
  then show ?thesis using assms
    by (simp add: ct_resolve_def ct_resolve_inner_def bump_def cached_def del: resolve_key.simps)
qed

text \<open>The second resolution of a singleton finds the first one's instance, whatever happened between.\<close>

lemma yields_cached:
  assumes "resolve_fuel n rid vis key (c # ps, w) = Some ((c' # ps', w'), Inr v)"
    and "dict_get (ct_registrations c) key = Some reg" and "rg_lifetime reg = SINGLETON"
  shows "cached c' ps' key SINGLETON = Some v"
proof (cases n)
  case (Suc m)
  note g = resolve_fuel_grows [OF assms(1)]
  show ?thesis
  proof (cases "cached c ps key (rg_lifetime reg)")
    case (Some u)
    then have "c' = c \<and> ps' = ps \<and> v = u" using assms(1,2) Suc by (auto split: if_splits)
    then show ?thesis using Some assms(3) by simp
  next
    case None
    let ?res = "\<lambda>k (s :: 'a rstate). resolve_fuel m rid (key # vis) k s"
    obtain c1 x where con: "construct ?res reg (enter_registration rid key c # ps, w) = Some ((c1 # ps', w'), x)"
        and c: "conclude rid key SINGLETON x c1 = (c', Inr v)"
      using assms Suc None by (auto split: option.splits list.splits prod.splits if_splits)
    have "x = Inr v" using c by (auto simp: conclude_def split: sum.splits build_error.splits container_error.splits)
    then have "dict_get (ct_singletons c') key = Some v"
      using conclude_caches(1) [of rid key SINGLETON x c1 key] c by simp
    then show ?thesis by (simp add: cached_def)
  qed
qed (use assms in simp)

subsection \<open>More fuel does not change the outcome\<close>

definition extends :: "'v resolver \<Rightarrow> 'v resolver \<Rightarrow> bool" where
  "extends res res' \<longleftrightarrow> (\<forall>k s x. res k s = Some x \<longrightarrow> res' k s = Some x)"

lemma extends_deps:
  "resolve_deps res ds acc s = Some x \<Longrightarrow> extends res res' \<Longrightarrow> resolve_deps res' ds acc s = Some x"
proof (induction res ds acc s rule: resolve_deps.induct)
  case (2 res d ds acc s)
  then obtain s1 y where y: "res d s = Some (s1, y)" by (cases "res d s") auto
  then have "res' d s = Some (s1, y)" using "2.prems"(2) unfolding extends_def by blast
  then show ?case using 2 y by (cases y) auto
qed simp

lemma extends_slots:
  "fill_slots res deps slots params s = Some x \<Longrightarrow> extends res res' \<Longrightarrow>
   fill_slots res' deps slots params s = Some x"
proof (induction res deps slots params s rule: fill_slots.induct)
  case (2 res deps p dflt h slots params s)
  show ?case
  proof (cases "dict_get deps p = None \<and> dflt = None \<and> truthy h")
    case True
    then obtain s1 y where y: "res (the h) s = Some (s1, y)" using "2.prems"(1) by (cases "res (the h) s") auto
    then have y': "res' (the h) s = Some (s1, y)" using "2.prems"(2) unfolding extends_def by blast
    show ?thesis
    proof (cases y)
      case (Inl e)
      then show ?thesis using "2.IH"(1) "2.prems" True y y' by (cases e) auto
    next
      case (Inr v)
      then show ?thesis using "2.IH"(2) "2.prems" True y y' by auto
    qed
  next
    case False
    then show ?thesis using "2.IH"(3-) "2.prems" by (auto split: option.splits)
  qed
qed simp

lemma extends_construct:
  assumes c: "construct res reg s = Some x" and e: "extends res res'"
  shows "construct res' reg s = Some x"
proof (cases "rg_slots reg")
  case (Some slots)
  obtain s1 y where y: "resolve_deps res (rg_deps reg) [] s = Some (s1, y)"
    using c Some by (auto simp: construct_def split: option.splits)
  note y' = extends_deps [OF y e]
  show ?thesis
  proof (cases y)
    case (Inr deps)
    obtain z where z: "fill_slots res deps slots [] s1 = Some z"
      using c Some y Inr by (auto simp: construct_def split: option.splits)
    then show ?thesis using c Some y y' Inr extends_slots [OF z e] by (simp add: construct_def)
  qed (use c Some y y' in \<open>simp add: construct_def\<close>)
qed (use c in \<open>simp add: construct_def\<close>)

lemma resolve_fuel_Suc:
  "resolve_fuel n rid vis key s = Some x \<Longrightarrow> resolve_fuel (Suc n) rid vis key s = Some x"
proof (induction n arbitrary: vis key s x)
  case (Suc n)
  obtain cs w where s: "s = (cs, w)" by (cases s)
  show ?case
  proof (cases cs)
    case (Cons c ps)
    show ?thesis
    proof (cases "dict_get (ct_registrations c) key")
      case None
      show ?thesis
      proof (cases "ps = []")
        case False
        then obtain y where "resolve_fuel n rid vis key (ps, w) = Some y"
          using Suc.prems None s Cons by (auto split: option.splits)
        then show ?thesis using Suc.IH [of vis key "(ps, w)" y] Suc.prems None False
          unfolding s Cons by simp
      qed (use Suc.prems None in \<open>simp add: s Cons\<close>)
    next
      case (Some reg)
      show ?thesis
      proof (cases "key \<in> set vis \<or> rid \<in> set (rg_resolving_in reg) \<or> cached c ps key (rg_lifetime reg) \<noteq> None")
        case True
        then show ?thesis using Suc.prems Some unfolding s Cons resolve_fuel.simps(3)
          by (auto simp del: resolve_fuel.simps split: if_splits)
      next
        case False
        let ?res = "\<lambda>n k (s :: 'a rstate). resolve_fuel n rid (key # vis) k s"
        let ?s = "(enter_registration rid key c # ps, w)"
        obtain y where y: "construct (?res n) reg ?s = Some y"
          using Suc.prems Some False unfolding s Cons by (auto split: option.splits)
        have "extends (?res n) (?res (Suc n))" using Suc.IH unfolding extends_def by blast
        then have "construct (?res (Suc n)) reg ?s = Some y" by (rule extends_construct [OF y])
        then show ?thesis using Suc.prems Some False y unfolding s Cons
          by (simp del: resolve_fuel.simps add: resolve_fuel.simps(3))
      qed
    qed
  qed (use Suc.prems in \<open>simp add: s\<close>)
qed simp

lemma resolve_fuel_more:
  "resolve_fuel n rid vis key s = Some x \<Longrightarrow> n \<le> m \<Longrightarrow> resolve_fuel m rid vis key s = Some x"
proof (induction m)
  case (Suc m)
  then show ?case using resolve_fuel_Suc [of m rid vis key s x] by (cases "n = Suc m") (auto simp del: resolve_fuel.simps)
qed simp

end
