(* ===== verification/Container_Steps.thy ===== *)
theory Container_Steps
  imports Container_Laws
begin

text \<open>
  The container as a state machine: its public calls as steps on a chain of containers, the
  well-formedness that every reachable chain has, and the life of a singleton across calls.
\<close>

subsection \<open>Invariants kept by a resolution\<close>

locale container_invariant =
  fixes I :: "'v container \<Rightarrow> bool"
  assumes I_enter: "I c \<Longrightarrow> dict_get (ct_registrations c) key = Some reg \<Longrightarrow> I (enter_registration rid key c)"
    and I_conclude: "I c \<Longrightarrow> dict_get (ct_registrations c) key = Some reg \<Longrightarrow>
      I (fst (conclude rid key lt r c))"
    and I_bump: "I c \<Longrightarrow> I (c\<lparr>ct_resolve_counter := n\<rparr>)"

sublocale container_invariant \<subseteq> inv: resolution_relation "\<lambda>s s'. list_all I (fst s) \<longrightarrow> list_all I (fst s')"
  by unfold_locales auto

context container_invariant
begin

lemma resolve_fuel_inv:
  "resolve_fuel n rid vis key s = Some (s', r) \<Longrightarrow> list_all I (fst s) \<Longrightarrow> list_all I (fst s')"
proof (induction n rid vis key s arbitrary: s' r rule: resolve_fuel.induct)
  case (3 n rid vis key c ps w)
  show ?case
  proof (cases "dict_get (ct_registrations c) key")
    case None
    show ?thesis
    proof (cases "ps = []")
      case False
      then obtain ps' w' where p: "resolve_fuel n rid vis key (ps, w) = Some ((ps', w'), r)" and s': "s' = (c # ps', w')"
        using "3.prems" None by (auto split: option.splits)
      then show ?thesis using "3.IH"(1) [OF None False p] "3.prems"(2) by simp
    qed (use "3.prems" None in auto)
  next
    case (Some reg)
    show ?thesis
    proof (cases "key \<in> set vis \<or> rid \<in> set (rg_resolving_in reg) \<or> cached c ps key (rg_lifetime reg) \<noteq> None")
      case True
      then have "s' = (c # ps, w)" using "3.prems" Some by (auto split: if_splits option.splits)
      then show ?thesis using "3.prems"(2) by simp
    next
      case False
      let ?res = "\<lambda>k (s :: 'v rstate). resolve_fuel n rid (key # vis) k s"
      let ?s = "(enter_registration rid key c # ps, w)"
      obtain c' ps' w' x where b: "construct ?res reg ?s = Some ((c' # ps', w'), x)"
          and s': "s' = (fst (conclude rid key (rg_lifetime reg) x c') # ps', w')"
        using "3.prems" Some False by (auto split: option.splits list.splits prod.splits)
      have "list_all I (fst t)" if "?res k s = Some (t, q)" "list_all I (fst s)" for k q and s t :: "'v rstate"
        using "3.IH"(2) [OF Some _ _ _ that] False by simp
      then have k: "inv.keeps ?res" unfolding inv.keeps_def by blast
      have i: "list_all I (c' # ps')" using inv.keeps_construct [OF k b] "3.prems"(2) I_enter [OF _ Some] by simp
      have "sg.keeps rid ?res" unfolding sg.keeps_def using resolve_fuel_grows by blast
      then have "grows rid (enter_registration rid key c) c'"
        using sg.keeps_construct [OF _ b] by (auto simp: state_grows_def)
      then obtain reg' where "dict_get (ct_registrations c') key = Some reg'"
        using enter_get [OF Some, of rid key] by (metis grows_resolving)
      then show ?thesis using i I_conclude by (auto simp: s')
    qed
  qed
qed auto

lemma resolve_inv: "ct_resolve t name (cs, w) = Some (s', r) \<Longrightarrow> list_all I cs \<Longrightarrow> list_all I (fst s')"
  unfolding ct_resolve_def ct_resolve_inner_def prod.case
  by (erule resolve_fuel_inv) (auto simp: bump_def I_bump split: list.splits)

lemma resolve_each_inv: "resolve_each ks s = Some (s', vs) \<Longrightarrow> list_all I (fst s) \<Longrightarrow> list_all I (fst s')"
proof (induction ks s arbitrary: s' vs rule: resolve_each.induct)
  case (2 k ks cs w)
  then obtain s1 r vs1 where r: "ct_resolve_inner (next_id cs) k (bump cs, w) = Some (s1, r)"
      and e: "resolve_each ks s1 = Some (s', vs1)" by (auto split: option.splits)
  have "list_all I (bump cs)" using "2.prems"(2) by (auto simp: bump_def I_bump split: list.splits)
  then have "list_all I (fst s1)" using resolve_fuel_inv [OF r [unfolded ct_resolve_inner_def]] by simp
  then show ?case using "2.IH" [OF r refl e] by blast
qed simp

end

subsection \<open>Well-formed containers\<close>

definition tables_ok :: "'v container \<Rightarrow> bool" where
  "tables_ok c \<longleftrightarrow>
     dict_wf (ct_registrations c) \<and> dict_wf (ct_singletons c) \<and> dict_wf (ct_scoped c) \<and>
     dom (map_of (ct_singletons c)) \<union> dom (map_of (ct_scoped c)) \<union> ran (map_of (ct_aliases c))
       \<subseteq> dom (map_of (ct_registrations c)) \<and>
     (\<forall>k reg. dict_get (ct_registrations c) k = Some reg \<longrightarrow>
        rg_key reg = k \<and>
        (\<forall>v. rg_singleton_instance reg = Some v \<longrightarrow> dict_get (ct_singletons c) k = Some v))"

lemma dom_dict_set [simp]: "dom (map_of (dict_set d k v)) = insert k (dom (map_of d))"
  by (simp add: update_conv')

lemma upd_tables:
  assumes "tables_ok c" and reg: "dict_get (ct_registrations c) key = Some reg"
    and "rg_key (f reg) = rg_key reg"
    and "\<And>v. rg_singleton_instance (f reg) = Some v \<Longrightarrow> dict_get (ct_singletons c) key = Some v"
  shows "tables_ok (upd_registration key f c)"
  using assms reg domI [of "map_of (ct_registrations c)" key reg] unfolding tables_ok_def upd_registration_def
  by (simp add: insert_absorb del: map_of_eq_Some_iff)

lemma store_tables:
  assumes ok: "tables_ok c" and reg: "dict_get (ct_registrations c) key = Some reg"
  shows "tables_ok (store_instance key lt v c)"
proof (cases lt)
  case SINGLETON
  let ?d = "dict_set (ct_singletons c) key v" 
    and ?r = "reg\<lparr>rg_singleton_instance := Some v, rg_status := RESOLVED\<rparr>"
  have e: "store_instance key lt v c =
      c\<lparr>ct_singletons := ?d, ct_registrations := dict_set (ct_registrations c) key ?r\<rparr>"
    using reg by (simp add: SINGLETON store_instance_def upd_registration_def)
  have "rg_key ?r = key" using ok reg by (simp add: tables_ok_def rg_key_def)
  then show ?thesis using ok reg domI [of "map_of (ct_registrations c)" key reg]
    unfolding e tables_ok_def by (simp add: insert_absorb)
next
  case SCOPED
  then show ?thesis using ok reg domI [of "map_of (ct_registrations c)" key reg] unfolding tables_ok_def store_instance_def by simp
qed (use ok in \<open>simp add: store_instance_def\<close>)

lemma tables_instance:
  "tables_ok c \<Longrightarrow> dict_get (ct_registrations c) key = Some reg \<Longrightarrow>
   rg_singleton_instance reg = Some v \<Longrightarrow> dict_get (ct_singletons c) key = Some v"
  by (simp add: tables_ok_def)

lemma leave_tables:
  assumes "tables_ok c" and "dict_get (ct_registrations c) key = Some reg"
  shows "tables_ok (leave_registration rid key c)"
    and "\<exists>reg'. dict_get (ct_registrations (leave_registration rid key c)) key = Some reg'"
  unfolding leave_registration_def
  using assms by (auto intro!: upd_tables simp: rg_key_def tables_instance)

lemma fail_tables:
  assumes "tables_ok c" and "dict_get (ct_registrations c) key = Some reg"
  shows "tables_ok (upd_registration key (\<lambda>reg. reg\<lparr>rg_status := FAILED\<rparr>) c)"
  using assms by (auto intro!: upd_tables simp: rg_key_def tables_instance)

interpretation tab: container_invariant tables_ok
proof
  fix c :: "'v container" and key reg rid lt r n
  assume ok: "tables_ok c"
  show "tables_ok (c\<lparr>ct_resolve_counter := n\<rparr>)" using ok by (simp add: tables_ok_def)
  assume reg: "dict_get (ct_registrations c) key = Some reg"
  show "tables_ok (enter_registration rid key c)"
    using ok reg by (auto intro!: upd_tables simp: enter_registration_def rg_key_def tables_instance)
  have "tables_ok (leave_registration rid key (upd_registration key (\<lambda>reg. reg\<lparr>rg_status := FAILED\<rparr>) c))"
    using leave_tables(1) [OF fail_tables [OF ok reg]] reg by simp
  then show "tables_ok (fst (conclude rid key lt r c))"
    using leave_tables [OF ok reg, of rid] store_tables
    by (auto simp: conclude_def split: sum.splits build_error.splits container_error.splits)
qed

subsection \<open>Steps\<close>

text \<open>
  The calls that change a chain, all but \<open>reset\<close>: operations of the container at its head or of one
  of its ancestors, and the creation of a scope below it.
\<close>

inductive ct_op :: "'v rstate \<Rightarrow> 'v rstate \<Rightarrow> bool" where
  op_resolve: "ct_resolve t name s = Some (s', r) \<Longrightarrow> ct_op s s'"
| op_resolve_all: "ct_resolve_all t s = Some (s', vs) \<Longrightarrow> ct_op s s'"
| op_register:
    "ct_op (c # ps, w) (fst (ct_register now t prov sg lt name deps descr tags c) # ps, w)"
| op_alias: "ct_op (c # ps, w) (fst (ct_alias a target c) # ps, w)"
| op_clear_scoped: "ct_op (c # ps, w) (ct_clear_scoped c # ps, w)"
| op_parent: "ct_op (ps, w) (ps', w') \<Longrightarrow> ct_op (c # ps, w) (c # ps', w')"

inductive ct_call :: "'v rstate \<Rightarrow> 'v rstate \<Rightarrow> bool" where
  call_op: "ct_op s s' \<Longrightarrow> ct_call s s'"
| call_scope: "ct_call (cs, w) (create_scope cs, w)"

inductive ct_step :: "'v rstate \<Rightarrow> 'v rstate \<Rightarrow> bool" where
  step_call: "ct_call s s' \<Longrightarrow> ct_step s s'"
| step_reset: "ct_step (pre @ c # ps, w) (pre @ ct_reset c # ps, w)"

definition container_ok :: "'v container \<Rightarrow> bool" where
  "container_ok c \<longleftrightarrow> tables_ok c \<and> idle c"

lemma container_ok_init [simp]: "container_ok ct_init"
  by (simp add: container_ok_def tables_ok_def idle_def ct_init_def)

lemma make_registration_fresh:
  "rg_resolving_in (make_registration now t prov sg lt name deps descr tags) = []"
  "rg_singleton_instance (make_registration now t prov sg lt name deps descr tags) = None"
  by (auto simp: make_registration_def Let_def split: provider.split)

lemma container_ok_register:
  assumes "container_ok c"
  shows "container_ok (fst (ct_register now t prov sg lt name deps descr tags c))"
proof -
  let ?reg = "make_registration now t prov sg lt name deps descr tags"
  have "container_ok (c\<lparr>ct_registrations := dict_set (ct_registrations c) (rg_key ?reg) ?reg\<rparr>)"
    using assms make_registration_fresh [of now t prov sg lt name deps descr tags]
    unfolding container_ok_def tables_ok_def idle_def by auto
  then show ?thesis using assms
    by (auto simp: ct_register_def add_registration_def Let_def split: option.splits)
qed

lemma container_ok_alias:
  assumes "container_ok c"
  shows "container_ok (fst (ct_alias a target c))"
proof (cases "target \<in> set (dict_keys (ct_registrations c))")
  case True
  then have "target \<in> dom (map_of (ct_registrations c))" by (simp add: dom_map_of_conv_image_fst)
  then show ?thesis using assms True
    unfolding container_ok_def tables_ok_def idle_def ct_alias_def
    by (auto simp: update_conv' ran_def split: if_splits)
qed (use assms in \<open>simp add: ct_alias_def\<close>)

lemma idle_grows:
  assumes "list_all2 (grows rid) cs cs'" and "list_all idle cs"
  shows "list_all idle cs'"
  using assms
proof (induction rule: list_all2_induct)
  case (Cons c cs c' cs')
  have "rg_resolving_in reg = []" if "dict_get (ct_registrations c') k = Some reg" for k reg
  proof -
    have "frame_of c = frame_of c'" using Cons.hyps by (simp add: grows_def)
    from frame_of_some [OF this that] obtain reg0 where "dict_get (ct_registrations c) k = Some reg0"
      and "strip reg0 = strip reg" by blast
    then show ?thesis using Cons.prems strip_eqD(1) [of reg0 reg] by (simp add: idle_def)
  qed
  then show ?case using Cons by (auto simp: idle_def)
qed simp

lemma list_all_bump: "list_all idle cs \<Longrightarrow> list_all idle (bump cs)"
  by (auto simp: bump_def split: list.splits)

lemma resolve_each_grows:
  "resolve_each ks s = Some (s', vs) \<Longrightarrow> list_all idle (fst s) \<Longrightarrow> list_all idle (fst s')"
proof (induction ks s arbitrary: s' vs rule: resolve_each.induct)
  case (2 k ks cs w)
  then obtain s1 r vs1 where r: "ct_resolve_inner (next_id cs) k (bump cs, w) = Some (s1, r)"
      and e: "resolve_each ks s1 = Some (s', vs1)" by (auto split: option.splits)
  have "list_all2 (grows (next_id cs)) (bump cs) (fst s1)"
    using resolve_fuel_grows [OF r [unfolded ct_resolve_inner_def]] by (simp add: state_grows_def)
  then have "list_all idle (fst s1)" using "2.prems"(2) by (auto intro: idle_grows list_all_bump)
  then show ?case using "2.IH" [OF r refl e] by blast
qed simp

lemma container_ok_split: "list_all container_ok cs \<longleftrightarrow> list_all tables_ok cs \<and> list_all idle cs"
  by (induction cs) (auto simp: container_ok_def)

lemma container_ok_op: "ct_op s s' \<Longrightarrow> list_all container_ok (fst s) \<Longrightarrow> list_all container_ok (fst s')"
proof (induction rule: ct_op.induct)
  case (op_resolve t name s s' r)
  obtain cs w where s: "s = (cs, w)" by (cases s)
  have "list_all idle (fst s')"
    using resolve_grows [of t name cs w s' r] op_resolve unfolding s state_grows_def container_ok_split
    by (auto intro: idle_grows list_all_bump)
  then show ?case using op_resolve tab.resolve_inv unfolding s container_ok_split by fastforce
next
  case (op_resolve_all t s s' vs)
  then show ?case
    unfolding ct_resolve_all_def container_ok_split
    by (auto split: list.splits prod.splits dest: tab.resolve_each_inv resolve_each_grows)
next
  case (op_clear_scoped c ps w)
  then show ?case by (auto simp: container_ok_def ct_clear_scoped_def tables_ok_def idle_def)
qed (auto simp: container_ok_register container_ok_alias)

lemma container_ok_call: "ct_call s s' \<Longrightarrow> list_all container_ok (fst s) \<Longrightarrow> list_all container_ok (fst s')"
  by (induction rule: ct_call.induct) (auto simp: container_ok_op create_scope_def)

lemma container_ok_step: "ct_step s s' \<Longrightarrow> list_all container_ok (fst s) \<Longrightarrow> list_all container_ok (fst s')"
proof (induction rule: ct_step.induct)
  case (step_reset pre c ps w)
  then show ?case by (simp add: container_ok_def tables_ok_def idle_def ct_reset_def)
qed (rule container_ok_call)

interpretation ctm: invariant_machine "\<lambda>s. s = ([ct_init], 0)" ct_step "\<lambda>s. list_all container_ok (fst s)"
  by unfold_locales (auto dest: container_ok_step)

text \<open>The root container, at the end of the chain, never loses an instance to a call.\<close>

lemma grows_last:
  "list_all2 (grows rid) cs cs' \<Longrightarrow> cs \<noteq> [] \<Longrightarrow>
   map_of (ct_singletons (last cs)) \<subseteq>\<^sub>m map_of (ct_singletons (last cs'))"
  by (induction rule: list_all2_induct) (auto simp: grows_def)

lemma bump_last [simp]:
  "bump cs = [] \<longleftrightarrow> cs = []" "cs \<noteq> [] \<Longrightarrow> ct_singletons (last (bump cs)) = ct_singletons (last cs)"
  by (auto simp: bump_def split: list.splits)

lemma resolve_each_last:
  "resolve_each ks s = Some (s', vs) \<Longrightarrow> fst s \<noteq> [] \<Longrightarrow>
   fst s' \<noteq> [] \<and> map_of (ct_singletons (last (fst s))) \<subseteq>\<^sub>m map_of (ct_singletons (last (fst s')))"
proof (induction ks s arbitrary: s' vs rule: resolve_each.induct)
  case (2 k ks cs w)
  then obtain s1 r vs1 where r: "ct_resolve_inner (next_id cs) k (bump cs, w) = Some (s1, r)"
      and e: "resolve_each ks s1 = Some (s', vs1)" by (auto split: option.splits)
  have g: "list_all2 (grows (next_id cs)) (bump cs) (fst s1)"
    using resolve_fuel_grows [OF r [unfolded ct_resolve_inner_def]] by (simp add: state_grows_def)
  have ne: "fst s1 \<noteq> []" using g "2.prems"(2) by auto
  have "map_of (ct_singletons (last cs)) \<subseteq>\<^sub>m map_of (ct_singletons (last (fst s1)))"
    using grows_last [OF g] "2.prems"(2) by simp
  then show ?case using "2.IH" [OF r refl e ne] map_le_trans by auto
qed simp

lemma op_empty: "ct_op s s' \<Longrightarrow> fst s = [] \<Longrightarrow> fst s' = []"
proof (induction rule: ct_op.induct)
  case (op_resolve t name s s' r)
  then show ?case by (cases s) (auto simp: ct_resolve_def ct_resolve_inner_def resolve_depth_def bump_def)
next
  case (op_resolve_all t s s' vs)
  then show ?case by (cases s) (auto simp: ct_resolve_all_def)
qed auto

lemma op_last:
  "ct_op s s' \<Longrightarrow> fst s \<noteq> [] \<Longrightarrow>
   fst s' \<noteq> [] \<and> map_of (ct_singletons (last (fst s))) \<subseteq>\<^sub>m map_of (ct_singletons (last (fst s')))"
proof (induction rule: ct_op.induct)
  case (op_resolve t name s s' r)
  obtain cs w where s: "s = (cs, w)" by (cases s)
  have g: "list_all2 (grows (next_id cs)) (bump cs) (fst s')"
    using resolve_grows [OF op_resolve(1) [unfolded s]] by (simp add: state_grows_def)
  then have "fst s' \<noteq> []" using op_resolve(2) s by auto
  then show ?case using grows_last [OF g] op_resolve(2) s by simp
next
  case (op_resolve_all t s s' vs)
  then obtain c ps w where s: "s = (c # ps, w)" by (cases s) (auto simp: neq_Nil_conv)
  then show ?case using resolve_each_last [of _ s s' vs] op_resolve_all unfolding ct_resolve_all_def by simp
next
  case (op_parent ps w ps' w' c)
  then show ?case by (cases "ps = []") (auto dest: op_empty)
qed (auto simp: ct_register_def add_registration_def Let_def ct_alias_def ct_clear_scoped_def
    split: option.splits if_splits)

lemma call_last:
  "ct_call s s' \<Longrightarrow> fst s \<noteq> [] \<Longrightarrow>
   fst s' \<noteq> [] \<and> map_of (ct_singletons (last (fst s))) \<subseteq>\<^sub>m map_of (ct_singletons (last (fst s')))"
  by (induction rule: ct_call.induct) (auto simp: op_last create_scope_def)

lemma calls_last:
  "ct_call\<^sup>*\<^sup>* s s' \<Longrightarrow> fst s \<noteq> [] \<Longrightarrow>
   fst s' \<noteq> [] \<and> map_of (ct_singletons (last (fst s))) \<subseteq>\<^sub>m map_of (ct_singletons (last (fst s')))"
  by (induction rule: rtranclp_induct) (use call_last map_le_trans in fastforce)+

subsection \<open>A sample container\<close>

definition bus_type :: py_type where "bus_type = PyType 0 ''EventBus''"
definition manager_type :: py_type where "manager_type = PyType 1 ''ProviderManager''"

definition bus_factory :: "nat factory" where
  "bus_factory = \<lparr>fa_reflects = True, fa_parameters = [], fa_call = (\<lambda>w _. Inr w)\<rparr>"

definition manager_factory :: "nat factory" where
  "manager_factory = \<lparr>fa_reflects = True,
     fa_parameters = [\<lparr>pa_name = ''bus'', pa_default = None, pa_hint = Hint_Named ''EventBus''\<rparr>],
     fa_call = (\<lambda>w m. case dict_get m ''bus'' of None \<Rightarrow> Inl ''TypeError'' | Some b \<Rightarrow> Inr (10 * w + b))\<rparr>"

definition sample_container :: "nat container" where
  "sample_container =
     fst (ct_register 1 manager_type (Callable manager_factory) True None None (Some [bus_type]) None {}
       (fst (ct_register 0 bus_type (Callable bus_factory) True None None None None {} ct_init)))"

definition outcome_view :: "('v, 'r) outcome \<Rightarrow> (nat \<times> (container_error + 'r) \<times> (string, 'v) dict list) option" where
  "outcome_view x = map_option (\<lambda>((cs, w), r). (w, r, map ct_singletons cs)) x"

lemma sample_eval:
  "outcome_view (ct_resolve manager_type None ([sample_container], 3)) =
     Some (5, Inr 43, [[(''EventBus'', 3), (''ProviderManager'', 43)]])"
  by code_simp

subsection \<open>Properties\<close>

lemma resolve_depth_bump [simp]: "resolve_depth (bump cs) = resolve_depth cs"
  by (cases cs) (simp_all add: resolve_depth_def bump_def)

text \<open>C25: Resolving always returns: a call on any chain of containers ends with an instance or an
  error, the depth of nested calls stays below the number of containers plus the number of
  registrations, and more depth gives the same outcome. It changes nothing but the instance tables,
  which only grow, and the status and instance notes of registrations: the registrations
  themselves (the sets of resolutions in progress included), aliases and counters are as before.\<close>

theorem resolution_always_returns:
  "\<exists>s' r. ct_resolve t name (cs, w) = Some (s', r) \<and>
     resolve_fuel (resolve_depth cs + n) (next_id cs) [] (resolve_key (name_key t name) cs) (bump cs, w) = Some (s', r) \<and>
     list_all2 (\<lambda>c c'. frame_of c' = frame_of c \<and>
        map_of (ct_singletons c) \<subseteq>\<^sub>m map_of (ct_singletons c') \<and>
        map_of (ct_scoped c) \<subseteq>\<^sub>m map_of (ct_scoped c')) (bump cs) (fst s') \<and>
     w \<le> snd s'"
proof -
  obtain s' r where r: "ct_resolve t name (cs, w) = Some (s', r)" using resolve_returns by blast
  have g: "state_grows (next_id cs) (bump cs, w) s'" by (rule resolve_grows [OF r])
  then have "list_all2 (\<lambda>c c'. frame_of c' = frame_of c \<and>
      map_of (ct_singletons c) \<subseteq>\<^sub>m map_of (ct_singletons c') \<and>
      map_of (ct_scoped c) \<subseteq>\<^sub>m map_of (ct_scoped c')) (bump cs) (fst s')"
    unfolding state_grows_def by (auto elim!: list_all2_mono simp: grows_def)
  moreover have "resolve_fuel (resolve_depth cs) (next_id cs) [] (resolve_key (name_key t name) cs) (bump cs, w) = Some (s', r)"
    using r by (simp add: ct_resolve_def ct_resolve_inner_def)
  ultimately show ?thesis using r g resolve_fuel_more by (fastforce simp: state_grows_def)
qed

text \<open>C26: In every chain of containers that calls can produce, each container's tables fit together:
  keys are distinct and are the keys of their registrations, instances and alias targets belong to
  registered keys, the instance noted in a registration is the one in the singleton table, and no
  registration is marked as being resolved.\<close>

theorem reachable_containers_well_formed:
  "reach (\<lambda>s. s = ([ct_init], 0)) ct_step s \<Longrightarrow> list_all container_ok (fst s)"
  by (rule ctm.reach_inv)

lemma sample_reachable: "reach (\<lambda>s. s = ([ct_init], 0)) ct_step ([ct_init, sample_container], 0)"
proof -
  let ?r = "reach (\<lambda>s. s = ([ct_init], 0)) ct_step"
  have "?r ([ct_init], 0)" by (rule reach_init) simp
  then have "?r ([fst (ct_register 0 bus_type (Callable bus_factory) True None None None None {} ct_init)], 0)"
    by (rule reach_step) (intro step_call call_op op_register)
  then have "?r ([sample_container], 0)" unfolding sample_container_def
    by (rule reach_step) (intro step_call call_op op_register)
  then show ?thesis
    by (rule reach_step) (use call_scope [of "[sample_container]" 0] in \<open>auto simp: create_scope_def intro: step_call\<close>)
qed

theorem reachable_containers_well_formed_witness:
  "list_all container_ok [ct_init, sample_container] \<and> registration_count sample_container = 2"
proof
  show "list_all container_ok [ct_init, sample_container]"
    using reachable_containers_well_formed [OF sample_reachable] by simp
  show "registration_count sample_container = 2" by code_simp
qed

text \<open>A singleton is built once. When a root container has resolved a singleton, then after any
  further calls, on it, on scopes below it and by them, a resolution of the same key gives the same
  instance without calling a factory, as long as the key is registered as a singleton. This holds
  also when a named registration has been replaced in between: the replaced factory's instance is
  still served.\<close>

theorem singleton_instance_shared:
  assumes "container_ok c" and "dict_get (ct_registrations c) (name_key t name) = Some reg"
    and "rg_lifetime reg = SINGLETON"
    and "ct_resolve t name ([c], w) = Some (([c1], w1), Inr v)"
    and "ct_call\<^sup>*\<^sup>* ([c1], w1) (cs @ [c2], w2)"
    and "dict_get (ct_registrations c2) (name_key t name) = Some reg2" and "rg_lifetime reg2 = SINGLETON"
  shows "ct_resolve t name ([c2], w2) = Some ((bump [c2], w2), Inr v)"
proof -
  let ?k = "name_key t name" and ?c = "c\<lparr>ct_resolve_counter := Suc (ct_resolve_counter c)\<rparr>"
  have in_c: "?k \<in> set (dict_keys (ct_registrations c))" and in_c2: "?k \<in> set (dict_keys (ct_registrations c2))"
    using assms(2,6) by (force dest: map_of_SomeD)+
  have f: "resolve_fuel (resolve_depth [?c]) (next_id [c]) [] ?k ([?c], w) = Some (([c1], w1), Inr v)"
    using assms(4) in_c by (simp add: ct_resolve_def ct_resolve_inner_def bump_def)
  have "dict_get (ct_singletons c1) ?k = Some v"
    using yields_cached [OF f _ assms(3)] assms(2) by (simp add: cached_def split: option.splits)
  then have v: "dict_get (ct_singletons c2) ?k = Some v"
    using calls_last [OF assms(5)] by (simp add: map_le_def) (metis domI)
  have ok1: "list_all container_ok (fst ([c1], w1))"
    using container_ok_op [OF op_resolve [OF assms(4)]] assms(1) by simp
  have "list_all container_ok (fst (cs @ [c2], w2))"
    using assms(5) ok1 by (rule rtranclp_induct) (auto intro: container_ok_call)
  then have "rg_resolving_in reg2 = []" using assms(6) by (simp add: container_ok_def idle_def)
  then show ?thesis using in_c2 assms(6,7) v
    by (simp add: ct_resolve_def ct_resolve_inner_def resolve_depth_def bump_def cached_def)
qed

definition named_reg :: "nat registration" where
  "named_reg = make_registration 0 bus_type (Callable bus_factory) True None (Some ''a'') None None {}"

definition late_reg :: "nat registration" where
  "late_reg = make_registration 9 bus_type (Object 99) True None (Some ''a'') None None {}"

definition named_container :: "nat container" where
  "named_container = ct_init\<lparr>ct_registrations := [(''EventBus:a'', named_reg)]\<rparr>"

definition resolved_container :: "nat container" where
  "resolved_container = ct_init\<lparr>ct_resolve_counter := 1, ct_singletons := [(''EventBus:a'', 3)],
     ct_registrations := [(''EventBus:a'', named_reg\<lparr>rg_singleton_instance := Some 3, rg_status := RESOLVED\<rparr>)]\<rparr>"

definition replaced_container :: "nat container" where
  "replaced_container = resolved_container\<lparr>ct_registrations := [(''EventBus:a'', late_reg)]\<rparr>"

lemma named_facts:
  "name_key bus_type (Some ''a'') = ''EventBus:a''" "rg_key named_reg = ''EventBus:a''" "rg_key late_reg = ''EventBus:a''"
  "rg_resolving_in named_reg = []" "rg_lifetime named_reg = SINGLETON" "rg_lifetime late_reg = SINGLETON"
  "rg_singleton_instance named_reg = None" "rg_slots named_reg = Some []" "rg_deps named_reg = []"
  "rg_name named_reg = Some ''a''" "rg_name late_reg = Some ''a''" "rg_factory named_reg = bus_factory"
  by (simp_all add: named_reg_def late_reg_def make_registration_def bus_type_def bus_factory_def
      instance_factory_def name_key_def rg_key_def rg_slots_def rg_deps_def)

lemma named_steps:
  "container_ok named_container"
  "ct_resolve bus_type (Some ''a'') ([named_container], 3) = Some (([resolved_container], 4), Inr 3)"
  "fst (ct_register 9 bus_type (Object 99) True None (Some ''a'') None None {} resolved_container) = replaced_container"
proof -
  show "container_ok named_container"
    by (simp add: container_ok_def tables_ok_def idle_def named_container_def ct_init_def named_facts)
  show "ct_resolve bus_type (Some ''a'') ([named_container], 3) = Some (([resolved_container], 4), Inr 3)"
    by (simp add: named_container_def resolved_container_def ct_init_def ct_resolve_def ct_resolve_inner_def
        resolve_depth_def bump_def next_id_def named_facts cached_def construct_def enter_registration_def
        leave_registration_def upd_registration_def conclude_def store_instance_def bus_factory_def)
  show "fst (ct_register 9 bus_type (Object 99) True None (Some ''a'') None None {} resolved_container) = replaced_container"
    by (simp add: ct_register_def late_reg_def [symmetric] add_registration_def named_facts
        resolved_container_def replaced_container_def ct_init_def Let_def)
qed

theorem singleton_instance_shared_witness:
  "ct_resolve bus_type (Some ''a'') ([replaced_container], 4) = Some ((bump [replaced_container], 4), Inr 3) \<and>
   fa_call (rg_factory late_reg) 4 [] = Inr 99"
proof
  have "ct_call ([resolved_container], 4) ([replaced_container], 4)"
    unfolding named_steps(3) [symmetric] by (intro call_op op_register)
  then have "ct_call\<^sup>*\<^sup>* ([resolved_container], 4) ([] @ [replaced_container], 4)" by simp
  from singleton_instance_shared [OF named_steps(1) _ _ named_steps(2) this, of named_reg late_reg]
  show "ct_resolve bus_type (Some ''a'') ([replaced_container], 4) = Some ((bump [replaced_container], 4), Inr 3)"
    by (simp add: named_facts named_container_def replaced_container_def)
  show "fa_call (rg_factory late_reg) 4 [] = Inr 99"
    by (simp add: late_reg_def make_registration_def instance_factory_def)
qed

end
