(* ===== verification/Di_Validator.thy ===== *)
theory Di_Validator
  imports Container_Steps
begin

text \<open>
  The validation pipeline of \<open>core/di_validator.py\<close>: its fifteen checkers and their aggregation.

  What the checkers ask of running services (their metadata, capabilities and configuration), of the
  operating system and of the interpreter are arguments, gathered in the record \<open>checked\<close>; an
  answer is an exception's text or a value. Log lines and the duration of the run are left out.
\<close>

subsection \<open>Text\<close>

definition in_quotes :: "string \<Rightarrow> string" where
  "in_quotes s = [CHR 0x27] @ s @ [CHR 0x27]"

definition is_digit :: "char \<Rightarrow> bool" where
  "is_digit ch \<longleftrightarrow> 48 \<le> (of_char ch :: nat) \<and> (of_char ch :: nat) \<le> 57"

definition is_ascii_alnum :: "char \<Rightarrow> bool" where
  "is_ascii_alnum ch \<longleftrightarrow>
     is_digit ch \<or> 65 \<le> (of_char ch :: nat) \<and> (of_char ch :: nat) \<le> 90 \<or>
     97 \<le> (of_char ch :: nat) \<and> (of_char ch :: nat) \<le> 122"

fun decimal :: "nat \<Rightarrow> string" where
  "decimal n = (if n < 10 then [char_of (48 + n)] else decimal (n div 10) @ [char_of (48 + n mod 10)])"

declare decimal.simps [simp del]

definition int_text :: "int \<Rightarrow> string" where
  "int_text i = (if i < 0 then ''-'' @ decimal (nat (- i)) else decimal (nat i))"

text \<open>
  \<open>int(text)\<close>: surrounding blanks, a sign, and digits that single underscores may separate, at
  most 4300 of them (the interpreter's limit, which counts neither the sign nor the underscores).
\<close>

definition is_blank :: "char \<Rightarrow> bool" where
  "is_blank ch \<longleftrightarrow> ch = CHR '' '' \<or> (of_char ch :: nat) \<in> {9, 10, 11, 12, 13, 28, 29, 30, 31, 133, 160}"

definition strip_blanks :: "string \<Rightarrow> string" where
  "strip_blanks s = rev (dropWhile is_blank (rev (dropWhile is_blank s)))"

text \<open>The flag tells whether the last character was a digit: underscores stand between digits.\<close>

fun digits_value :: "bool \<Rightarrow> nat \<Rightarrow> string \<Rightarrow> nat option" where
  "digits_value after acc [] = (if after then Some acc else None)"
| "digits_value after acc (ch # cs) =
     (if is_digit ch then digits_value True (10 * acc + (of_char ch - 48)) cs
      else if ch = CHR ''_'' \<and> after then digits_value False acc cs
      else None)"

definition parse_int :: "string \<Rightarrow> int option" where
  "parse_int s =
     (if 4300 < length (filter is_digit s) then None
      else case strip_blanks s of
        [] \<Rightarrow> None
      | ch # cs \<Rightarrow>
          if ch = CHR ''-'' then map_option (\<lambda>n. - int n) (digits_value False 0 cs)
          else if ch = CHR ''+'' then map_option int (digits_value False 0 cs)
          else map_option int (digits_value False 0 (ch # cs)))"

subsection \<open>Results\<close>

record validation_check =
  vc_name :: string
  vc_status :: string
  vc_service_id :: "string option"
  vc_details :: string
  vc_suggestion :: "string option"

record validation_report =
  vr_passed :: "validation_check list"
  vr_failed :: "validation_check list"
  vr_warnings :: "validation_check list"
  vr_total_checks :: nat

definition vr_init :: validation_report where
  "vr_init = \<lparr>vr_passed = [], vr_failed = [], vr_warnings = [], vr_total_checks = 0\<rparr>"

definition vr_success :: "validation_report \<Rightarrow> bool" where
  "vr_success r \<longleftrightarrow> length (vr_failed r) = 0"

definition vr_merge :: "validation_report \<Rightarrow> validation_report \<Rightarrow> validation_report" where
  "vr_merge r q = \<lparr>vr_passed = vr_passed r @ vr_passed q, vr_failed = vr_failed r @ vr_failed q,
     vr_warnings = vr_warnings r @ vr_warnings q, vr_total_checks = vr_total_checks r + vr_total_checks q\<rparr>"

abbreviation passes :: "string \<Rightarrow> string \<Rightarrow> validation_check" where
  "passes name details \<equiv> \<lparr>vc_name = name, vc_status = ''passed'', vc_service_id = None,
     vc_details = details, vc_suggestion = None\<rparr>"

abbreviation fails :: "string \<Rightarrow> string \<Rightarrow> string option \<Rightarrow> validation_check" where
  "fails name details sugg \<equiv> \<lparr>vc_name = name, vc_status = ''failed'', vc_service_id = None,
     vc_details = details, vc_suggestion = sugg\<rparr>"

abbreviation warns :: "string \<Rightarrow> string \<Rightarrow> string option \<Rightarrow> validation_check" where
  "warns name details sugg \<equiv> \<lparr>vc_name = name, vc_status = ''warning'', vc_service_id = None,
     vc_details = details, vc_suggestion = sugg\<rparr>"

subsection \<open>What is checked\<close>

text \<open>
  A required type of a capability: its printed form, and its \<open>__name__\<close> if it has one (asking
  \<open>is_registered\<close> about an object without one raises).
\<close>

type_synonym requirement = "string \<times> string option"

record service_answers =
  sa_metadata :: "string + (string \<times> string list)"
  sa_capabilities :: "string + requirement list list"
  sa_configuration :: "string + bool"

record 'v checked =
  ck_chain :: "'v chain"
  ck_lifecycle :: "(string, service_answers) dict option"
  ck_registrations :: "'v registration list"
  ck_environ :: "string \<Rightarrow> string option"
  ck_write_error :: "string \<Rightarrow> string option"
  ck_socket_error :: "string option"
  ck_port_in_use :: "int \<Rightarrow> string + bool"
  ck_python :: "nat \<times> nat"

definition ck_regs :: "'v checked \<Rightarrow> 'v registration list" where
  "ck_regs ck =
     (if ck_registrations ck \<noteq> [] then ck_registrations ck
      else case ck_chain ck of [] \<Rightarrow> [] | c # _ \<Rightarrow> ct_list_registrations c)"

definition ck_graph :: "'v checked \<Rightarrow> (string, string list) dict" where
  "ck_graph ck = (case ck_chain ck of [] \<Rightarrow> [] | c # _ \<Rightarrow> dependency_graph c)"

definition ck_services :: "'v checked \<Rightarrow> (string, service_answers) dict" where
  "ck_services ck = (case ck_lifecycle ck of None \<Rightarrow> [] | Some d \<Rightarrow> d)"

definition ck_env :: "'v checked \<Rightarrow> string \<Rightarrow> string \<Rightarrow> string" where
  "ck_env ck name dflt = (case ck_environ ck name of None \<Rightarrow> dflt | Some x \<Rightarrow> x)"

subsection \<open>The checkers\<close>

definition circular_dependency_check :: "'v checked \<Rightarrow> string + validation_check" where
  "circular_dependency_check ck = Inr
     (case find_cycle (ck_graph ck) of
        Some cyc \<Rightarrow> fails ''circular_dependency''
          (''Cyclic dependency detected: '' @ py_join '' -> '' cyc)
          (Some ''Break the cycle by removing or reordering one of the depends_on declarations in the chain above.'')
      | None \<Rightarrow> passes ''circular_dependency'' ''No cycles detected'')"

definition missing_of :: "'v chain \<Rightarrow> 'v registration \<Rightarrow> string list" where
  "missing_of cs reg =
     map (\<lambda>d. in_quotes (rg_key reg) @ '' depends on '' @ in_quotes d @ '' but '' @ in_quotes d @ '' is not registered'')
       (filter (\<lambda>d. \<not> ct_is_registered d cs) (rg_deps reg))"

definition missing_dependency_check :: "'v checked \<Rightarrow> string + validation_check" where
  "missing_dependency_check ck = Inr
     (let missing = concat (map (missing_of (ck_chain ck)) (ck_regs ck)) in
      if missing \<noteq> [] then fails ''missing_dependency'' (py_join ''; '' missing)
        (Some ''Register the missing service before starting, or remove the depends_on declaration.'')
      else passes ''missing_dependency'' ''All dependencies satisfied'')"

text \<open>Lists collected by key, in order of first appearance, and those with several entries.\<close>

definition collect :: "(string \<times> string) list \<Rightarrow> (string, string list) dict" where
  "collect xs = fold (\<lambda>(k, x) d. dict_set d k (dict_get_or d k [] @ [x])) xs []"

definition several_text :: "(string, string list) dict \<Rightarrow> string" where
  "several_text d = py_join ''; '' (map (\<lambda>(k, v). k @ '': '' @ py_join '', '' v) d)"

definition duplicate_registration_check :: "'v checked \<Rightarrow> string + validation_check" where
  "duplicate_registration_check ck = Inr
     (let seen = collect (map (\<lambda>reg. (type_name (rg_interface reg), or_else (rg_name reg) ''(default)'')) (ck_regs ck));
          dups = filter (\<lambda>(k, v). 1 < length v) seen
      in if dups \<noteq> [] then passes ''duplicate_registration'' (''Named duplicates found (ok): '' @ several_text dups)
         else passes ''duplicate_registration'' ''No duplicate registrations'')"

text \<open>
  The pattern \<open>^\d+\.\d+\.\d+[a-zA-Z0-9]*$\<close>; the dollar sign also matches before a final newline.
\<close>

definition semver_tail :: "string \<Rightarrow> bool" where
  "semver_tail s \<longleftrightarrow>
     (let t = (if s \<noteq> [] \<and> last s = CHR 0x0A then butlast s else s)
      in t \<noteq> [] \<and> is_digit (hd t) \<and> list_all is_ascii_alnum t)"

definition semver_number :: "(string \<Rightarrow> bool) \<Rightarrow> string \<Rightarrow> bool" where
  "semver_number rest s \<longleftrightarrow>
     takeWhile is_digit s \<noteq> [] \<and>
     (case dropWhile is_digit s of [] \<Rightarrow> False | ch # cs \<Rightarrow> ch = CHR ''.'' \<and> rest cs)"

definition semver_match :: "string \<Rightarrow> bool" where
  "semver_match s \<longleftrightarrow> semver_number (semver_number semver_tail) s"

definition version_error :: "string \<times> service_answers \<Rightarrow> string list" where
  "version_error sr =
     (case sa_metadata (snd sr) of
        Inl e \<Rightarrow> [in_quotes (fst sr) @ '': metadata error: '' @ e]
      | Inr (ver, _) \<Rightarrow>
          if ver \<noteq> [] \<and> \<not> semver_match ver
          then [in_quotes (fst sr) @ '': invalid version '' @ in_quotes ver] else [])"

definition invalid_version_check :: "'v checked \<Rightarrow> string + validation_check" where
  "invalid_version_check ck = Inr
     (let errors = concat (map version_error (ck_services ck)) in
      if errors \<noteq> [] then fails ''invalid_version'' (py_join ''; '' errors)
        (Some (''Use semantic versioning (e.g. '' @ in_quotes ''1.0.0'' @ '', '' @ in_quotes ''2.1.0-alpha'' @ '').''))
      else passes ''invalid_version'' ''All versions valid'')"

text \<open>A requirement without a name raises, which ends the loop over that service's capabilities.\<close>

fun unmet :: "'v chain \<Rightarrow> string \<Rightarrow> requirement list \<Rightarrow> string list" where
  "unmet cs sid [] = []"
| "unmet cs sid ((shown, None) # rs) = []"
| "unmet cs sid ((shown, Some t) # rs) =
     (if ct_is_registered t cs then unmet cs sid rs
      else (in_quotes sid @ '' declares capability requiring '' @ in_quotes shown @ '' but '' @ in_quotes shown @
            '' is not registered'') # unmet cs sid rs)"

definition capability_mismatch_check :: "'v checked \<Rightarrow> string + validation_check" where
  "capability_mismatch_check ck = Inr
     (if ck_lifecycle ck = None then passes ''capability_mismatch'' ''No lifecycle to check''
      else let warnings_list = concat (map (\<lambda>(sid, a). case sa_capabilities a of
                   Inl _ \<Rightarrow> [] | Inr caps \<Rightarrow> unmet (ck_chain ck) sid (concat caps)) (ck_services ck))
           in if warnings_list \<noteq> [] then warns ''capability_mismatch'' (py_join ''; '' warnings_list)
                (Some ''Register missing capabilities or remove capability requirements.'')
              else passes ''capability_mismatch'' ''All capabilities satisfied'')"

definition port_conflict_check :: "'v checked \<Rightarrow> string + validation_check" where
  "port_conflict_check ck = Inr
     (let services = collect (map (\<lambda>reg. (type_name (rg_interface reg), rg_key reg)) (ck_regs ck));
          conflicts = filter (\<lambda>(k, v). 1 < length v) services
      in if conflicts \<noteq> [] then warns ''port_conflict''
           (''Multiple services implement same interface: '' @ several_text conflicts)
           (Some ''Use named registrations with resolve_all() if multiple implementations are intentional.'')
         else passes ''port_conflict'' ''No port conflicts'')"

definition configuration_error_of :: "string \<times> service_answers \<Rightarrow> string list" where
  "configuration_error_of sr =
     (case sa_configuration (snd sr) of
        Inl e \<Rightarrow> [in_quotes (fst sr) @ '': configuration() error: '' @ e]
      | Inr is_dict \<Rightarrow> if is_dict then [] else [in_quotes (fst sr) @ '': configuration() must return a dict''])"

definition configuration_check :: "'v checked \<Rightarrow> string + validation_check" where
  "configuration_check ck = Inr
     (let errors = concat (map configuration_error_of (ck_services ck)) in
      if errors \<noteq> [] then fails ''configuration_error'' (py_join ''; '' errors) None
      else passes ''configuration_error'' ''Configuration valid'')"

fun claim_resources ::
  "string \<Rightarrow> string list \<Rightarrow> (string, string) dict \<Rightarrow> (string, string) dict \<times> string list" where
  "claim_resources sid [] claimed = (claimed, [])"
| "claim_resources sid (r # rs) claimed =
     (case dict_get claimed r of
        Some other \<Rightarrow>
          (let (claimed', ws) = claim_resources sid rs claimed in
           (claimed', (''Resource '' @ in_quotes r @ '' claimed by both '' @ in_quotes other @ '' and '' @ in_quotes sid) # ws))
      | None \<Rightarrow> claim_resources sid rs (dict_set claimed r sid))"

fun claim_all :: "(string, service_answers) dict \<Rightarrow> (string, string) dict \<Rightarrow> string list" where
  "claim_all [] claimed = []"
| "claim_all ((sid, a) # ss) claimed =
     (case sa_metadata a of
        Inl _ \<Rightarrow> claim_all ss claimed
      | Inr (_, resources) \<Rightarrow>
          (let (claimed', ws) = claim_resources sid resources claimed in ws @ claim_all ss claimed'))"

definition resource_conflict_check :: "'v checked \<Rightarrow> string + validation_check" where
  "resource_conflict_check ck = Inr
     (let warnings_list = claim_all (ck_services ck) [] in
      if warnings_list \<noteq> [] then warns ''resource_conflict'' (py_join ''; '' warnings_list)
        (Some ''Configure services to use different resource paths.'')
      else passes ''resource_conflict'' ''No resource conflicts'')"

definition critical_dirs :: "string list" where
  "critical_dirs = [''AGENTIC_OS_CACHE_DIR'', ''AGENTIC_OS_DB_DIR'', ''AGENTIC_OS_CONFIG_DIR'',
     ''AGENTIC_OS_LOG_DIR'', ''AGENTIC_OS_WORKSPACE_DIR'']"

definition filesystem_permissions_check :: "'v checked \<Rightarrow> string + validation_check" where
  "filesystem_permissions_check ck = Inr
     (let dirs = filter (\<lambda>d. d \<noteq> []) (map (\<lambda>x. ck_env ck x []) critical_dirs);
          warnings_list = concat (map (\<lambda>d. case ck_write_error ck d of
              None \<Rightarrow> [] | Some e \<Rightarrow> [''Directory '' @ in_quotes d @ '' is not writable: '' @ e]) dirs)
      in if warnings_list \<noteq> [] then warns ''filesystem_permissions'' (py_join ''; '' warnings_list)
           (Some ''Check directory permissions or set AGENTIC_OS_*_DIR to writable paths.'')
         else passes ''filesystem_permissions'' ''All directories writable'')"

text \<open>
  The port check opens a socket and connects it. Errors of the operating system become warnings; a
  port outside the range is refused by \<open>connect_ex\<close> with an \<open>OverflowError\<close>, which the check does
  not catch, once the socket could be opened.
\<close>

definition network_conflict_check :: "'v checked \<Rightarrow> string + validation_check" where
  "network_conflict_check ck =
     (case parse_int (ck_env ck ''AGENTIC_OS_PORT'' ''8000'') of
        None \<Rightarrow> Inl ''ValueError''
      | Some port \<Rightarrow>
          if ck_socket_error ck = None \<and> \<not> (0 \<le> port \<and> port \<le> 65535)
          then Inl ''connect_ex(): port must be 0-65535.''
          else Inr
          (let warnings_list = (case ck_socket_error ck of
                 Some e \<Rightarrow> [''Port check error: '' @ e]
               | None \<Rightarrow>
                   (case ck_port_in_use ck port of
                      Inl e \<Rightarrow> [''Port check error: '' @ e]
                    | Inr True \<Rightarrow> [''HTTP port '' @ int_text port @ '' is already in use'']
                    | Inr False \<Rightarrow> []))
           in if warnings_list \<noteq> [] then warns ''network_conflict'' (py_join ''; '' warnings_list)
                (Some ''Set AGENTIC_OS_PORT to an available port.'')
              else passes ''network_conflict'' ''Ports available''))"

definition environment_variable_check :: "'v checked \<Rightarrow> string + validation_check" where
  "environment_variable_check ck = Inr
     (let missing = filter (\<lambda>v. ck_env ck v [] = []) [''PATH''] in
      if missing \<noteq> [] then fails ''environment_variable''
        (''Missing required environment variables: '' @ py_join '', '' missing)
        (Some ''Set these environment variables before starting.'')
      else passes ''environment_variable'' ''Required env vars set'')"

definition database_migration_check :: "'v checked \<Rightarrow> string + validation_check" where
  "database_migration_check ck = Inr (passes ''database_migration'' ''No pending migrations'')"

definition plugin_conflict_check :: "'v checked \<Rightarrow> string + validation_check" where
  "plugin_conflict_check ck = Inr (passes ''plugin_conflict'' ''No plugin conflicts'')"

definition runtime_conflict_check :: "'v checked \<Rightarrow> string + validation_check" where
  "runtime_conflict_check ck = Inr
     (case ck_python ck of (major, minor) \<Rightarrow>
        if major < 3 \<or> major = 3 \<and> minor < 10 then warns ''runtime_conflict''
          (''Python '' @ decimal major @ ''.'' @ decimal minor @ '' detected, 3.10+ recommended'') None
        else passes ''runtime_conflict'' ''Runtimes available'')"

definition provider_conflict_check :: "'v checked \<Rightarrow> string + validation_check" where
  "provider_conflict_check ck = Inr (passes ''provider_conflict'' ''No provider conflicts'')"

subsection \<open>The pipeline\<close>

type_synonym 'v checker = "string \<times> ('v checked \<Rightarrow> string + validation_check)"

definition default_checkers :: "'v checker list" where
  "default_checkers =
     [(''circular_dependency'', circular_dependency_check),
      (''missing_dependency'', missing_dependency_check),
      (''duplicate_registration'', duplicate_registration_check),
      (''invalid_version'', invalid_version_check),
      (''capability_mismatch'', capability_mismatch_check),
      (''port_conflict'', port_conflict_check),
      (''configuration_error'', configuration_check),
      (''resource_conflict'', resource_conflict_check),
      (''filesystem_permissions'', filesystem_permissions_check),
      (''network_conflict'', network_conflict_check),
      (''environment_variable'', environment_variable_check),
      (''database_migration'', database_migration_check),
      (''plugin_conflict'', plugin_conflict_check),
      (''runtime_conflict'', runtime_conflict_check),
      (''provider_conflict'', provider_conflict_check)]"

definition add_checker :: "'v checker \<Rightarrow> 'v checker list \<Rightarrow> 'v checker list" where
  "add_checker ch chs = chs @ [ch]"

definition run_checker :: "'v checked \<Rightarrow> 'v checker \<Rightarrow> validation_check" where
  "run_checker ck ch =
     (case snd ch ck of
        Inl e \<Rightarrow> fails (fst ch) (''Checker raised exception: '' @ e) None
      | Inr result \<Rightarrow> result)"

definition file_result :: "validation_check \<Rightarrow> validation_report \<Rightarrow> validation_report" where
  "file_result result r =
     (let r = r\<lparr>vr_total_checks := vr_total_checks r + 1\<rparr> in
      if vc_status result = ''passed'' then r\<lparr>vr_passed := vr_passed r @ [result]\<rparr>
      else if vc_status result = ''failed'' then r\<lparr>vr_failed := vr_failed r @ [result]\<rparr>
      else r\<lparr>vr_warnings := vr_warnings r @ [result]\<rparr>)"

definition validate :: "'v checker list \<Rightarrow> 'v checked \<Rightarrow> validation_report" where
  "validate chs ck = fold (\<lambda>ch. file_result (run_checker ck ch)) chs vr_init"

definition validate_and_raise :: "'v checker list \<Rightarrow> 'v checked \<Rightarrow> string + validation_report" where
  "validate_and_raise chs ck =
     (let report = validate chs ck in
      if \<not> vr_success report then
        Inl (''Kernel validation FAILED ('' @ decimal (length (vr_failed report)) @ '' checks):'' @ [CHR 0x0A] @
             py_join [CHR 0x0A] (map (\<lambda>c. ''  ['' @ vc_name c @ ''] '' @ vc_details c) (vr_failed report)))
      else Inr report)"


end
