(* ===== verification/Di_Validator_Laws.thy ===== *)
theory Di_Validator_Laws
  imports Di_Validator
begin

text \<open>
  What the validation accepts, and what its verdict says about the container: a container that is
  accepted resolves its services, one with a reported cycle does not.
\<close>

subsection \<open>The report\<close>

lemma validate_snoc: "validate (chs @ [ch]) ck = file_result (run_checker ck ch) (validate chs ck)"
  by (simp add: validate_def)

lemma validate_parts:
  "vr_passed (validate chs ck) = filter (\<lambda>r. vc_status r = ''passed'') (map (run_checker ck) chs)"
  "vr_failed (validate chs ck) = filter (\<lambda>r. vc_status r = ''failed'') (map (run_checker ck) chs)"
  "vr_total_checks (validate chs ck) = length chs"
  by (induction chs rule: rev_induct)
    (simp_all add: validate_def vr_init_def file_result_def Let_def)

lemma success_iff:
  "vr_success (validate chs ck) \<longleftrightarrow> (\<forall>ch\<in>set chs. vc_status (run_checker ck ch) \<noteq> ''failed'')"
  by (auto simp: vr_success_def validate_parts filter_empty_conv)

text \<open>The checkers that can fail, and when they do not.\<close>

lemma circular_ok: "vc_status (run_checker ck (n, circular_dependency_check)) \<noteq> ''failed'' \<longleftrightarrow> acyclic (arcs (ck_graph ck))"
  by (simp add: run_checker_def circular_dependency_check_def find_cycle_iff [symmetric] split: option.split)

lemma missing_ok:
  "vc_status (run_checker ck (n, missing_dependency_check)) \<noteq> ''failed'' \<longleftrightarrow>
   (\<forall>reg\<in>set (ck_regs ck). \<forall>d\<in>set (rg_deps reg). ct_is_registered d (ck_chain ck))"
  by (auto simp: run_checker_def missing_dependency_check_def missing_of_def Let_def filter_empty_conv)

lemma configuration_error_of_Nil: "configuration_error_of sa = [] \<longleftrightarrow> sa_configuration (snd sa) = Inr True"
  by (cases "sa_configuration (snd sa)") (auto simp: configuration_error_of_def)

lemma configuration_ok:
  "vc_status (run_checker ck (n, configuration_check)) \<noteq> ''failed'' \<longleftrightarrow>
   (\<forall>sa\<in>set (ck_services ck). sa_configuration (snd sa) = Inr True)"
  by (simp add: run_checker_def configuration_check_def configuration_error_of_Nil Let_def)

lemma network_ok:
  "vc_status (run_checker ck (n, network_conflict_check)) \<noteq> ''failed'' \<longleftrightarrow>
   (\<exists>port. parse_int (ck_env ck ''AGENTIC_OS_PORT'' ''8000'') = Some port \<and>
      (ck_socket_error ck = None \<longrightarrow> 0 \<le> port \<and> port \<le> 65535))"
  by (auto simp: run_checker_def network_conflict_check_def Let_def split: option.split)

lemma environment_ok:
  "vc_status (run_checker ck (n, environment_variable_check)) \<noteq> ''failed'' \<longleftrightarrow> ck_env ck ''PATH'' [] \<noteq> []"
  by (simp add: run_checker_def environment_variable_check_def Let_def)

lemma other_checks_ok:
  "vc_status (run_checker ck (n, duplicate_registration_check)) \<noteq> ''failed''"
  "vc_status (run_checker ck (n, capability_mismatch_check)) \<noteq> ''failed''"
  "vc_status (run_checker ck (n, port_conflict_check)) \<noteq> ''failed''"
  "vc_status (run_checker ck (n, resource_conflict_check)) \<noteq> ''failed''"
  "vc_status (run_checker ck (n, filesystem_permissions_check)) \<noteq> ''failed''"
  "vc_status (run_checker ck (n, database_migration_check)) \<noteq> ''failed''"
  "vc_status (run_checker ck (n, plugin_conflict_check)) \<noteq> ''failed''"
  "vc_status (run_checker ck (n, runtime_conflict_check)) \<noteq> ''failed''"
  "vc_status (run_checker ck (n, provider_conflict_check)) \<noteq> ''failed''"
  by (simp_all add: run_checker_def duplicate_registration_check_def capability_mismatch_check_def
      port_conflict_check_def resource_conflict_check_def filesystem_permissions_check_def
      database_migration_check_def plugin_conflict_check_def runtime_conflict_check_def
      provider_conflict_check_def Let_def case_prod_beta)

subsection \<open>Version numbers\<close>

definition is_version :: "string \<Rightarrow> bool" where
  "is_version s \<longleftrightarrow> (\<exists>a b t nl. s = a @ ''.'' @ b @ ''.'' @ t @ nl \<and>
     a \<noteq> [] \<and> list_all is_digit a \<and> b \<noteq> [] \<and> list_all is_digit b \<and>
     t \<noteq> [] \<and> is_digit (hd t) \<and> list_all is_ascii_alnum t \<and> (nl = [] \<or> nl = [CHR 0x0A]))"

lemma not_digit [simp]: "\<not> is_digit (CHR ''.'')"
  by (simp add: is_digit_def)

lemma newline_not_alnum [simp]: "\<not> is_ascii_alnum (CHR 0x0A)"
  by (simp add: is_ascii_alnum_def is_digit_def)

lemma semver_number_iff:
  "semver_number rest s \<longleftrightarrow> (\<exists>a u. s = a @ ''.'' @ u \<and> a \<noteq> [] \<and> list_all is_digit a \<and> rest u)"
proof
  assume "semver_number rest s"
  then obtain u where u: "dropWhile is_digit s = CHR ''.'' # u" and "rest u" "takeWhile is_digit s \<noteq> []"
    by (auto simp: semver_number_def split: list.splits)
  moreover have "s = takeWhile is_digit s @ ''.'' @ u" using u by (metis append_Cons append_Nil takeWhile_dropWhile_id)
  moreover have "list_all is_digit (takeWhile is_digit s)" by (auto simp: list_all_iff dest: set_takeWhileD)
  ultimately show "\<exists>a u. s = a @ ''.'' @ u \<and> a \<noteq> [] \<and> list_all is_digit a \<and> rest u" by blast
next
  assume "\<exists>a u. s = a @ ''.'' @ u \<and> a \<noteq> [] \<and> list_all is_digit a \<and> rest u"
  then obtain a u where s: "s = a @ ''.'' @ u" and a: "a \<noteq> []" "\<forall>x\<in>set a. is_digit x" and "rest u"
    by (auto simp: list_all_iff)
  have "takeWhile is_digit s = a" and "dropWhile is_digit s = CHR ''.'' # u"
    using a(2) by (simp_all add: s takeWhile_append2 dropWhile_append2)
  then show "semver_number rest s" using a(1) \<open>rest u\<close> by (simp add: semver_number_def)
qed

lemma semver_tail_iff:
  "semver_tail s \<longleftrightarrow> (\<exists>t nl. s = t @ nl \<and> t \<noteq> [] \<and> is_digit (hd t) \<and> list_all is_ascii_alnum t \<and>
     (nl = [] \<or> nl = [CHR 0x0A]))"
proof (cases "s \<noteq> [] \<and> last s = CHR 0x0A")
  case True
  then have s: "s = butlast s @ [CHR 0x0A]" by (metis append_butlast_last_id)
  have "\<not> list_all is_ascii_alnum s" using True by (metis last_in_set list_all_iff newline_not_alnum)
  then show ?thesis using True s unfolding semver_tail_def Let_def
    by (auto simp: butlast_append)
next
  case False
  then show ?thesis unfolding semver_tail_def Let_def by auto
qed

lemma semver_match_iff: "semver_match s \<longleftrightarrow> is_version s"
  unfolding semver_match_def semver_number_iff semver_tail_iff is_version_def
  by (auto simp: append_assoc) blast+

lemma version_error_Nil:
  "version_error sa = [] \<longleftrightarrow>
   (\<exists>ver rs. sa_metadata (snd sa) = Inr (ver, rs) \<and> (ver = [] \<or> is_version ver))"
  unfolding semver_match_iff [symmetric]
  by (cases "sa_metadata (snd sa)") (auto simp: version_error_def split: if_splits)

lemma version_ok:
  "vc_status (run_checker ck (n, invalid_version_check)) \<noteq> ''failed'' \<longleftrightarrow>
   (\<forall>sa\<in>set (ck_services ck). \<exists>ver rs. sa_metadata (snd sa) = Inr (ver, rs) \<and> (ver = [] \<or> is_version ver))"
  by (simp add: run_checker_def invalid_version_check_def version_error_Nil Let_def)

subsection \<open>Properties\<close>

lemma default_success_iff:
  "vr_success (validate default_checkers ck) \<longleftrightarrow>
     acyclic (arcs (ck_graph ck)) \<and>
     (\<forall>reg\<in>set (ck_regs ck). \<forall>d\<in>set (rg_deps reg). ct_is_registered d (ck_chain ck)) \<and>
     (\<forall>sa\<in>set (ck_services ck).
        (\<exists>ver rs. sa_metadata (snd sa) = Inr (ver, rs) \<and> (ver = [] \<or> is_version ver)) \<and>
        sa_configuration (snd sa) = Inr True) \<and>
     (\<exists>port. parse_int (ck_env ck ''AGENTIC_OS_PORT'' ''8000'') = Some port \<and>
        (ck_socket_error ck = None \<longrightarrow> 0 \<le> port \<and> port \<le> 65535)) \<and>
     ck_env ck ''PATH'' [] \<noteq> []"
  unfolding success_iff default_checkers_def list.set ball_simps
    circular_ok missing_ok version_ok configuration_ok network_ok environment_ok
  using other_checks_ok [of ck] by blast

text \<open>C22: The fifteen default checks accept exactly the kernels in which the declared dependencies of
  the container form no cycle, every declared dependency is registered there or in an ancestor,
  every service reports its metadata with no version or one of three numbers and a plain
  alphanumeric suffix, its configuration is a dictionary, the port setting is a
  number, from 0 to 65535 whenever a socket can be opened at all, and the search path is set. A rejected cycle is reported with its nodes in order. Each check is counted
  once, and the raising variant raises exactly on rejection.\<close>

theorem validation_accepts_exactly:
  "(vr_success (validate default_checkers ck) \<longleftrightarrow>
      acyclic (arcs (ck_graph ck)) \<and>
      (\<forall>reg\<in>set (ck_regs ck). \<forall>d\<in>set (rg_deps reg). ct_is_registered d (ck_chain ck)) \<and>
      (\<forall>sa\<in>set (ck_services ck).
         (\<exists>ver rs. sa_metadata (snd sa) = Inr (ver, rs) \<and> (ver = [] \<or> is_version ver)) \<and>
         sa_configuration (snd sa) = Inr True) \<and>
      (\<exists>port. parse_int (ck_env ck ''AGENTIC_OS_PORT'' ''8000'') = Some port \<and>
        (ck_socket_error ck = None \<longrightarrow> 0 \<le> port \<and> port \<le> 65535)) \<and>
      ck_env ck ''PATH'' [] \<noteq> []) \<and>
   (find_cycle (ck_graph ck) = Some cyc \<longrightarrow>
      closed_walk (arcs (ck_graph ck)) cyc \<and>
      vc_details (hd (vr_failed (validate default_checkers ck))) =
        ''Cyclic dependency detected: '' @ py_join '' -> '' cyc) \<and>
   vr_total_checks (validate default_checkers ck) = 15 \<and>
   (validate_and_raise default_checkers ck =
      Inr (validate default_checkers ck) \<longleftrightarrow> vr_success (validate default_checkers ck))"
proof -
  have "vc_details (hd (vr_failed (validate default_checkers ck))) =
      ''Cyclic dependency detected: '' @ py_join '' -> '' cyc" if "find_cycle (ck_graph ck) = Some cyc"
    using that by (simp add: validate_parts default_checkers_def run_checker_def circular_dependency_check_def)
  moreover have "vr_total_checks (validate default_checkers ck) = 15"
    by (simp add: validate_parts default_checkers_def)
  moreover have "validate_and_raise default_checkers ck = Inr (validate default_checkers ck) \<longleftrightarrow>
      vr_success (validate default_checkers ck)" by (simp add: validate_and_raise_def Let_def)
  ultimately show ?thesis using default_success_iff [of ck] find_cycle_sound [of "ck_graph ck" cyc] by blast
qed

definition quiet_services :: "(string, service_answers) dict" where
  "quiet_services = [(''api'', \<lparr>sa_metadata = Inr (''1.2.0rc1'', []), sa_capabilities = Inr [],
     sa_configuration = Inr True\<rparr>)]"

definition sample_checked :: "nat container \<Rightarrow> nat checked" where
  "sample_checked c = \<lparr>ck_chain = [c], ck_lifecycle = Some quiet_services, ck_registrations = [],
     ck_environ = (\<lambda>x. if x = ''PATH'' then Some ''/bin'' else None), ck_write_error = (\<lambda>_. None),
     ck_socket_error = None, ck_port_in_use = (\<lambda>_. Inr False), ck_python = (3, 12)\<rparr>"

definition cyclic_container :: "nat container" where
  "cyclic_container =
     fst (ct_register 1 manager_type (Callable manager_factory) True None None (Some [bus_type]) None {}
       (fst (ct_register 0 bus_type (Callable bus_factory) True None None (Some [manager_type]) None {} ct_init)))"

lemma sample_validates: "vr_success (validate default_checkers (sample_checked sample_container))"
  by code_simp

lemma cyclic_found: "find_cycle (dependency_graph cyclic_container) = Some [''EventBus'', ''ProviderManager'', ''EventBus'']"
  by code_simp

theorem validation_accepts_exactly_witness:
  "acyclic (arcs (dependency_graph sample_container)) \<and>
   closed_walk (arcs (dependency_graph cyclic_container)) [''EventBus'', ''ProviderManager'', ''EventBus''] \<and>
   \<not> semver_match ''2.1.0-alpha''"
proof (intro conjI)
  show "acyclic (arcs (dependency_graph sample_container))"
    using validation_accepts_exactly [of "sample_checked sample_container"] sample_validates
    by (simp add: ck_graph_def sample_checked_def)
  show "closed_walk (arcs (dependency_graph cyclic_container)) [''EventBus'', ''ProviderManager'', ''EventBus'']"
    using validation_accepts_exactly [of "sample_checked cyclic_container"] cyclic_found
    by (simp add: ck_graph_def sample_checked_def)
  show "\<not> semver_match ''2.1.0-alpha''" by code_simp
qed

lemma root_regs: "ck_chain ck = [c] \<Longrightarrow> ck_registrations ck = [] \<Longrightarrow> set (ck_regs ck) = snd ` set (ct_registrations c)"
  by (simp add: ck_regs_def ct_list_registrations_def)

lemma is_registered_root: "ct_is_registered k [c] \<longleftrightarrow> k \<in> set (dict_keys (ct_registrations c))"
  by simp

text \<open>C23: What validation is for. In a root container that passes the default checks, with no
  resolution in progress, and whose factories accept the arguments they will receive (a registered
  type that a parameter is annotated with being a declared dependency), every registered service
  resolves to an instance.\<close>

theorem validated_services_resolve:
  assumes "vr_success (validate default_checkers ck)" and "ck_chain ck = [c]" and "ck_registrations ck = []"
    and "container_ok c"
    and "\<forall>reg\<in>set (ct_list_registrations c). buildable (set (dict_keys (ct_registrations c))) reg"
    and "ct_is_registered (name_key t name) [c]"
  shows "\<exists>s' v. ct_resolve t name ([c], w) = Some (s', Inr v)"
proof (rule sound_resolves)
  have reg: "reg \<in> snd ` set (ct_registrations c)" if "dict_get (ct_registrations c) k = Some reg" for k reg
    using that by (force dest: map_of_SomeD)
  note ok = assms(1) [unfolded default_success_iff root_regs [OF assms(2,3)] assms(2) is_registered_root]
  have "acyclic (arcs (dependency_graph c))" using ok by (simp add: ck_graph_def assms(2))
  moreover have "set (rg_deps reg) \<subseteq> set (dict_keys (ct_registrations c))"
    if "dict_get (ct_registrations c) k = Some reg" for k reg using ok reg [OF that] by blast
  moreover have "buildable (set (dict_keys (ct_registrations c))) reg"
    if "dict_get (ct_registrations c) k = Some reg" for k reg
    using assms(5) reg [OF that] by (auto simp: ct_list_registrations_def)
  ultimately show "sound_container c" unfolding sound_container_def by blast
  show "idle c" using assms(4) by (simp add: container_ok_def)
  show "name_key t name \<in> set (dict_keys (ct_registrations c))" using assms(6) by simp
qed

lemma sample_regs:
  "ct_registrations sample_container =
     [(''EventBus'', make_registration 0 bus_type (Callable bus_factory) True None None None None {}),
      (''ProviderManager'', make_registration 1 manager_type (Callable manager_factory) True None None (Some [bus_type]) None {})]"
  by (simp add: sample_container_def ct_register_def add_registration_def Let_def rg_key_def name_key_def
      make_registration_def bus_type_def manager_type_def ct_init_def)

lemma sample_buildable:
  "\<forall>reg\<in>set (ct_list_registrations sample_container).
     buildable (set (dict_keys (ct_registrations sample_container))) reg"
proof -
  let ?bus = "make_registration 0 bus_type (Callable bus_factory) True None None None None {}"
  let ?man = "make_registration 1 manager_type (Callable manager_factory) True None None (Some [bus_type]) None {}"
  have bus: "rg_slots ?bus = Some []" "rg_deps ?bus = []" "rg_factory ?bus = bus_factory"
    by (simp_all add: make_registration_def rg_slots_def rg_deps_def bus_factory_def)
  have man: "rg_slots ?man = Some [(''bus'', None, Some ''EventBus'')]" "rg_deps ?man = [''EventBus'']"
      "rg_factory ?man = manager_factory"
    by (simp_all add: make_registration_def rg_slots_def rg_deps_def manager_factory_def bus_type_def)
  have "\<exists>v. fa_call bus_factory w m = Inr v" for w m by (simp add: bus_factory_def)
  then have "buildable ks ?bus" for ks by (simp add: buildable_def bus)
  moreover have "buildable {''EventBus'', ''ProviderManager''} ?man"
  proof -
    have "\<exists>v. fa_call manager_factory w m = Inr v" if "fst ` set m = {''bus''}" for w m
    proof -
      have "''bus'' \<in> dom (map_of m)" using that by (simp add: dom_map_of_conv_image_fst)
      then obtain b where "dict_get m ''bus'' = Some b" by blast
      then show ?thesis by (simp add: manager_factory_def)
    qed
    then show ?thesis by (simp add: buildable_def man filled_def)
  qed
  ultimately show ?thesis unfolding ct_list_registrations_def sample_regs by simp
qed

lemma sample_ok: "container_ok sample_container"
  using ctm.reach_inv [OF sample_reachable] by simp

theorem validated_services_resolve_witness:
  "\<exists>s' v. ct_resolve manager_type None ([sample_container], 0) = Some (s', Inr v)"
proof (rule validated_services_resolve [OF sample_validates])
  show "ct_is_registered (name_key manager_type None) [sample_container]" by code_simp
qed (simp_all add: sample_checked_def sample_ok sample_buildable del: set_map)

definition mutual_factory :: "string \<Rightarrow> nat factory" where
  "mutual_factory other = \<lparr>fa_reflects = True,
     fa_parameters = [\<lparr>pa_name = ''peer'', pa_default = None, pa_hint = Hint_Named other\<rparr>],
     fa_call = (\<lambda>w _. Inr w)\<rparr>"

definition annotated_container :: "nat container" where
  "annotated_container =
     fst (ct_register 1 manager_type (Callable (mutual_factory ''EventBus'')) True None None None None {}
       (fst (ct_register 0 bus_type (Callable (mutual_factory ''ProviderManager'')) True None None None None {} ct_init)))"

lemma annotated_passes:
  "vr_success (validate default_checkers (sample_checked annotated_container))"
  "outcome_view (ct_resolve bus_type None ([annotated_container], 0)) = Some (0, Inl (CyclicDependencyError ''EventBus''), [[]])"
  by code_simp+

text \<open>C24: Take any cycle of declared dependencies in a container that has stored an instance for none of
  its services. Resolving a service on the cycle, by its own name or through an alias, raises, and
  resolving anything at all, on the cycle or not, stores no instance for a service on the cycle and
  keeps the cycle: so every sequence of resolutions leaves the services of the cycle unresolvable.
  The condition on stored instances is needed: a singleton whose instance is stored (built before
  the registration that closed the cycle) is still served. The search of the validation sees
  declared dependencies only: two services whose constructors are annotated with each other's
  types, with nothing declared, pass all checks and still raise on resolution.\<close>

theorem cyclic_services_never_resolve:
  "(closed_walk (arcs (dependency_graph c)) cyc \<and> unbuilt c (set cyc) \<longrightarrow>
      (\<exists>c' w' r. ct_resolve t name ([c], w) = Some (([c'], w'), r) \<and>
         closed_walk (arcs (dependency_graph c')) cyc \<and> unbuilt c' (set cyc) \<and>
         (resolve_key (name_key t name) [c] \<in> set cyc \<longrightarrow> (\<exists>e. r = Inl e)))) \<and>
   (dict_get (ct_registrations c) (resolve_key (name_key t name) [c]) = Some reg \<and>
    rg_lifetime reg = SINGLETON \<and> rg_resolving_in reg = [] \<and>
    dict_get (ct_singletons c) (resolve_key (name_key t name) [c]) = Some v \<longrightarrow>
      (\<exists>s'. ct_resolve t name ([c], w) = Some (s', Inr v))) \<and>
   vr_success (validate default_checkers (sample_checked annotated_container)) \<and>
   (\<exists>s'. ct_resolve bus_type None ([annotated_container], 0) = Some (s', Inl (CyclicDependencyError ''EventBus'')))"
proof (intro conjI impI)
  assume "closed_walk (arcs (dependency_graph c)) cyc \<and> unbuilt c (set cyc)"
  then show "\<exists>c' w' r. ct_resolve t name ([c], w) = Some (([c'], w'), r) \<and>
      closed_walk (arcs (dependency_graph c')) cyc \<and> unbuilt c' (set cyc) \<and>
      (resolve_key (name_key t name) [c] \<in> set cyc \<longrightarrow> (\<exists>e. r = Inl e))"
    using resolve_walk [of c cyc t name w] by metis
next
  assume "dict_get (ct_registrations c) (resolve_key (name_key t name) [c]) = Some reg \<and>
    rg_lifetime reg = SINGLETON \<and> rg_resolving_in reg = [] \<and>
    dict_get (ct_singletons c) (resolve_key (name_key t name) [c]) = Some v"
  then show "\<exists>s'. ct_resolve t name ([c], w) = Some (s', Inr v)"
    using resolve_stored [OF refl, of c t name reg v w] by blast
next
  show "\<exists>s'. ct_resolve bus_type None ([annotated_container], 0) = Some (s', Inl (CyclicDependencyError ''EventBus''))"
    using annotated_passes(2) by (auto simp: outcome_view_def)
qed (rule annotated_passes(1))

theorem cyclic_services_never_resolve_witness:
  "closed_walk (arcs (dependency_graph cyclic_container)) [''EventBus'', ''ProviderManager'', ''EventBus''] \<and>
   (\<exists>c' w' e. ct_resolve bus_type None ([cyclic_container], 0) = Some (([c'], w'), Inl e) \<and>
      (\<exists>s' e'. ct_resolve manager_type None ([c'], w') = Some (s', Inl e'))) \<and>
   (\<exists>s'. ct_resolve bus_type None ([cyclic_container\<lparr>ct_singletons := [(''EventBus'', 7)]\<rparr>], 0) = Some (s', Inr 7))"
proof -
  let ?cyc = "[''EventBus'', ''ProviderManager'', ''EventBus'']"
  have cyc: "closed_walk (arcs (dependency_graph cyclic_container)) ?cyc"
    using find_cycle_sound [OF cyclic_found] .
  have "unbuilt cyclic_container (set ?cyc)" by (simp add: unbuilt_def) code_simp
  moreover have "resolve_key (name_key bus_type None) [cyclic_container] = ''EventBus''" by code_simp
  ultimately obtain c' w' e where c': "ct_resolve bus_type None ([cyclic_container], 0) = Some (([c'], w'), Inl e)"
      and cyc': "closed_walk (arcs (dependency_graph c')) ?cyc \<and> unbuilt c' (set ?cyc)"
    using cyclic_services_never_resolve [of cyclic_container ?cyc bus_type None 0] cyc by fastforce
  have "resolve_key (name_key manager_type None)
      (fst (fst (the (ct_resolve bus_type None ([cyclic_container], 0))))) = ''ProviderManager''" by code_simp
  then have "resolve_key (name_key manager_type None) [c'] = ''ProviderManager''" by (simp only: c' option.sel fst_conv)
  then have "\<exists>s' e'. ct_resolve manager_type None ([c'], w') = Some (s', Inl e')"
    using cyclic_services_never_resolve [of c' ?cyc manager_type None w'] cyc' by fastforce
  moreover have "\<exists>s'. ct_resolve bus_type None ([cyclic_container\<lparr>ct_singletons := [(''EventBus'', 7)]\<rparr>], 0) = Some (s', Inr 7)"
  proof -
    let ?c = "cyclic_container\<lparr>ct_singletons := [(''EventBus'', 7)]\<rparr>"
    have "map_option (\<lambda>reg. (rg_lifetime reg, rg_resolving_in reg)) (dict_get (ct_registrations ?c) ''EventBus'') = Some (SINGLETON, [])"
      by code_simp
    then obtain reg where "dict_get (ct_registrations ?c) ''EventBus'' = Some reg" "rg_lifetime reg = SINGLETON" "rg_resolving_in reg = []"
      by blast
    moreover have "resolve_key (name_key bus_type None) [?c] = ''EventBus''" by code_simp
    moreover have "dict_get (ct_singletons ?c) ''EventBus'' = Some 7" by simp
    ultimately show ?thesis
      using cyclic_services_never_resolve [of ?c _ bus_type None 0 reg 7] by simp
  qed
  ultimately show ?thesis using c' cyc by blast
qed

end
