(* ===== verification/Rate_Engine.thy ===== *)
theory Rate_Engine
  imports Rate_Limits Permits Scheduler_Queues
begin

text \<open>
  The engine of the rate limiter (\<open>core/omniroute/rate_limiter.py\<close>, data in \<open>domain/omniroute.py\<close>):
  its queue manager, the runtime state of a policy, and the engine's operations on policies, requests,
  permits and statistics.

  Each operation runs under the engine's lock and reads the clock once. An exception (a zero interval of
  a bucket, a priority without a queue) leaves the engine with what was changed before it. Events are
  recorded when a bus is attached. Rounding, evaluation times and the free-form metadata of policies are
  left out.
\<close>

subsection \<open>Queue manager\<close>

record rate_entry =
  re_id :: string
  re_provider :: string
  re_model :: string
  re_priority :: priority_level
  re_arrived_at :: real
  re_size :: int

record queue_manager =
  qm_priority_queues :: "(priority_level, rate_entry list) dict"
  qm_wfq_queues :: "(string, rate_entry list) dict"
  qm_rr_queues :: "(string, rate_entry list) dict"
  qm_overflow_count :: int
  qm_total_queued :: int
  qm_total_dequeued :: int
  qm_total_wait_ms :: real

text \<open>There is no queue for the level \<open>BACKGROUND\<close>.\<close>

definition queue_levels :: "priority_level list" where
  "queue_levels = [CRITICAL, HIGH, NORMAL, LOW, BULK]"

definition qm_init :: queue_manager where
  "qm_init = \<lparr>qm_priority_queues = map (\<lambda>l. (l, [])) queue_levels, qm_wfq_queues = [], qm_rr_queues = [],
     qm_overflow_count = 0, qm_total_queued = 0, qm_total_dequeued = 0, qm_total_wait_ms = 0\<rparr>"

definition level_value :: "priority_level \<Rightarrow> string" where
  "level_value l = (case l of CRITICAL \<Rightarrow> ''critical'' | HIGH \<Rightarrow> ''high'' | NORMAL \<Rightarrow> ''normal''
     | LOW \<Rightarrow> ''low'' | BULK \<Rightarrow> ''bulk'' | BACKGROUND \<Rightarrow> ''background'')"

definition put_priority :: "rate_entry \<Rightarrow> queue_manager \<Rightarrow> queue_manager result" where
  "put_priority x q =
     (case dict_get (qm_priority_queues q) (re_priority x) of
        None \<Rightarrow> Inl (KeyError (level_value (re_priority x)))
      | Some xs \<Rightarrow> Inr (q\<lparr>qm_priority_queues := dict_set (qm_priority_queues q) (re_priority x) (xs @ [x])\<rparr>))"

definition qm_enqueue :: "string \<Rightarrow> string \<Rightarrow> rate_entry \<Rightarrow> queue_manager \<Rightarrow> queue_manager result" where
  "qm_enqueue queue_type group_key x q =
     (let stored =
        (if queue_type = ''priority'' then put_priority x q
         else if queue_type = ''wfq'' \<and> group_key \<noteq> [] then
           Inr (q\<lparr>qm_wfq_queues := dict_set (qm_wfq_queues q) group_key (dict_get_or (qm_wfq_queues q) group_key [] @ [x])\<rparr>)
         else if queue_type = ''rr'' \<and> group_key \<noteq> [] then
           Inr (q\<lparr>qm_rr_queues := dict_set (qm_rr_queues q) group_key (dict_get_or (qm_rr_queues q) group_key [] @ [x])\<rparr>)
         else put_priority x q)
      in case stored of Inl e \<Rightarrow> Inl e | Inr q \<Rightarrow> Inr (q\<lparr>qm_total_queued := qm_total_queued q + 1\<rparr>))"

fun pop_level :: "priority_level list \<Rightarrow> queue_manager \<Rightarrow> queue_manager \<times> rate_entry option" where
  "pop_level [] q = (q, None)"
| "pop_level (l # ls) q =
     (case dict_get_or (qm_priority_queues q) l [] of
        x # xs \<Rightarrow> (q\<lparr>qm_priority_queues := dict_set (qm_priority_queues q) l xs\<rparr>, Some x)
      | [] \<Rightarrow> pop_level ls q)"

fun pop_rr :: "string list \<Rightarrow> queue_manager \<Rightarrow> queue_manager \<times> rate_entry option" where
  "pop_rr [] q = (q, None)"
| "pop_rr (k # ks) q =
     (case dict_get_or (qm_rr_queues q) k [] of
        x # xs \<Rightarrow>
          (q\<lparr>qm_rr_queues := (if xs = [] then dict_del (qm_rr_queues q) k else dict_set (qm_rr_queues q) k xs)\<rparr>, Some x)
      | [] \<Rightarrow> pop_rr ks q)"

text \<open>An emptied fair queue stays in its table: its deletion asks for a queue that is both non-empty and of length zero.\<close>

definition pop_wfq :: "string \<Rightarrow> queue_manager \<Rightarrow> queue_manager \<times> rate_entry option" where
  "pop_wfq k q =
     (case dict_get_or (qm_wfq_queues q) k [] of
        x # xs \<Rightarrow> (q\<lparr>qm_wfq_queues := dict_set (qm_wfq_queues q) k xs\<rparr>, Some x)
      | [] \<Rightarrow> (q, None))"

definition qm_dequeue :: "real \<Rightarrow> string \<Rightarrow> string \<Rightarrow> queue_manager \<Rightarrow> queue_manager \<times> rate_entry option" where
  "qm_dequeue now queue_type group_key q =
     (let (q, entry) =
        (if queue_type = ''priority'' then pop_level queue_levels q
         else if queue_type = ''wfq'' \<and> group_key \<in> set (dict_keys (qm_wfq_queues q)) then pop_wfq group_key q
         else if queue_type = ''rr'' then pop_rr (dict_keys (qm_rr_queues q)) q
         else (q, None))
      in case entry of
           None \<Rightarrow> (q, None)
         | Some x \<Rightarrow>
             (q\<lparr>qm_total_dequeued := qm_total_dequeued q + 1,
                qm_total_wait_ms := qm_total_wait_ms q + (now - re_arrived_at x) * 1000\<rparr>, Some x))"

definition qm_peek :: "string \<Rightarrow> queue_manager \<Rightarrow> rate_entry option" where
  "qm_peek queue_type q = (if queue_type = ''priority'' then snd (pop_level queue_levels q) else None)"

definition qm_queues :: "queue_manager \<Rightarrow> rate_entry list list" where
  "qm_queues q = dict_values (qm_priority_queues q) @ dict_values (qm_wfq_queues q) @ dict_values (qm_rr_queues q)"

definition qm_total_depth :: "queue_manager \<Rightarrow> int" where
  "qm_total_depth q = int (sum_list (map length (qm_queues q)))"

definition active_queues :: "queue_manager \<Rightarrow> int" where
  "active_queues q = int (length (filter (\<lambda>xs. xs \<noteq> []) (qm_queues q)))"

record rate_queue_statistics =
  qt_total_queued :: int
  qt_active_queues :: int
  qt_average_wait_ms :: real
  qt_max_wait_ms :: real
  qt_queue_depth :: int
  qt_overflow_count :: int
  qt_priority_distribution :: "(string, int) dict"

definition qm_statistics :: "queue_manager \<Rightarrow> rate_queue_statistics" where
  "qm_statistics q =
     \<lparr>qt_total_queued = qm_total_queued q, qt_active_queues = active_queues q,
      qt_average_wait_ms = qm_total_wait_ms q / of_int (max (qm_total_dequeued q) 1),
      qt_max_wait_ms = qm_total_wait_ms q, qt_queue_depth = qm_total_depth q,
      qt_overflow_count = qm_overflow_count q,
      qt_priority_distribution = map (\<lambda>(l, xs). (level_value l, int (length xs))) (qm_priority_queues q)\<rparr>"

subsection \<open>Policies and decisions\<close>

record sliding_window_counter =
  sw_window_duration_s :: real
  sw_max_requests :: int

record rate_limit_policy =
  rl_id :: string
  rl_name :: string
  rl_description :: string
  rl_enabled :: bool
  rl_order :: int
  rl_scope :: quota_scope
  rl_scope_id :: string
  rl_algorithm :: string
  rl_token_bucket :: token_bucket_config
  rl_leaky_bucket :: leaky_bucket_config
  rl_sliding_window :: sliding_window_counter
  rl_max_burst :: int
  rl_queue_max_size :: int
  rl_priority :: priority_level
  rl_created_at :: real
  rl_updated_at :: real

record rate_limit_decision =
  rd_approved :: bool
  rd_rejected :: bool
  rd_queued :: bool
  rd_delayed :: bool
  rd_reason :: string
  rd_policy_id :: string
  rd_algorithm :: string
  rd_retry_after_ms :: real
  rd_estimated_wait_ms :: real
  rd_queue_position :: int
  rd_tokens_remaining :: real

definition no_decision :: rate_limit_decision where
  "no_decision = \<lparr>rd_approved = False, rd_rejected = False, rd_queued = False, rd_delayed = False,
     rd_reason = [], rd_policy_id = [], rd_algorithm = [], rd_retry_after_ms = 0,
     rd_estimated_wait_ms = 0, rd_queue_position = 0, rd_tokens_remaining = 0\<rparr>"

record policy_state =
  po_policy :: rate_limit_policy
  po_token_bucket :: token_bucket
  po_leaky_bucket :: leaky_bucket
  po_sliding_windows :: "(string, rate_window) dict"
  po_fixed_window :: fixed_window
  po_request_count :: int
  po_approved_count :: int
  po_rejected_count :: int
  po_queued_count :: int
  po_delayed_count :: int
  po_burst_count :: int
  po_current_adjustment :: real

definition WINDOW_DURATIONS :: "(string, real) dict" where
  "WINDOW_DURATIONS = [(''5s'', 5), (''30s'', 30), (''1m'', 60), (''5m'', 300), (''15m'', 900),
     (''1h'', 3600), (''24h'', 86400), (''lifetime'', 315360000)]"

definition po_init :: "real \<Rightarrow> rate_limit_policy \<Rightarrow> policy_state" where
  "po_init now p =
     \<lparr>po_policy = p, po_token_bucket = tb_init now (rl_token_bucket p),
      po_leaky_bucket = lk_init now (rl_leaky_bucket p),
      po_sliding_windows = map (\<lambda>(w, d). (w, rw_init d (sw_max_requests (rl_sliding_window p)))) WINDOW_DURATIONS,
      po_fixed_window = fx_init now (sw_max_requests (rl_sliding_window p)) (sw_window_duration_s (rl_sliding_window p)),
      po_request_count = 0, po_approved_count = 0, po_rejected_count = 0, po_queued_count = 0,
      po_delayed_count = 0, po_burst_count = 0, po_current_adjustment = 1\<rparr>"

subsection \<open>One policy\<close>

text \<open>
  The parts of the engine that evaluating one policy can change: the policy's state, the queues and
  the number of bursts.
\<close>

type_synonym policy_work = "policy_state \<times> queue_manager \<times> int"

record rate_request =
  rr_provider :: string
  rr_model :: string
  rr_scope_id :: string
  rr_priority :: priority_level
  rr_now :: real
  rr_stamp :: string

definition request_entry :: "rate_request \<Rightarrow> rate_entry" where
  "request_entry r = \<lparr>re_id = rr_provider r @ '':'' @ rr_model r @ '':'' @ rr_stamp r, re_provider = rr_provider r,
     re_model = rr_model r, re_priority = rr_priority r, re_arrived_at = rr_now r, re_size = 1\<rparr>"

definition room_to_queue :: "policy_state \<Rightarrow> queue_manager \<Rightarrow> bool" where
  "room_to_queue st q \<longleftrightarrow>
     rl_queue_max_size (po_policy st) > 0 \<and> qm_total_depth q < rl_queue_max_size (po_policy st)"

text \<open>The prediction from the bucket, with what it says is available.\<close>

definition bucket_retry :: "real \<Rightarrow> queue_manager \<Rightarrow> policy_state \<Rightarrow> (policy_state \<times> real \<times> real) result" where
  "bucket_retry now q st =
     (case tb_available now (po_token_bucket st) of
        Inl e \<Rightarrow> Inl e
      | Inr (b, avail) \<Rightarrow>
          Inr (st\<lparr>po_token_bucket := b\<rparr>,
               rp_retry_after_ms (predict (qm_total_depth q) 10 avail (tc_refill_rate (rl_token_bucket (po_policy st))) 0),
               avail))"

definition try_burst :: "real \<Rightarrow> policy_state \<Rightarrow> (policy_state \<times> bool) result" where
  "try_burst now st =
     (if rl_max_burst (po_policy st) > 0 then
        (case tb_try_consume_burst now 1 (po_token_bucket st) of
           Inl e \<Rightarrow> Inl e
         | Inr (b, ok) \<Rightarrow> Inr (st\<lparr>po_token_bucket := b\<rparr>, ok))
      else Inr (st, False))"

abbreviation pass_decision :: "string \<Rightarrow> rate_limit_decision" where
  "pass_decision algo \<equiv> no_decision\<lparr>rd_approved := True, rd_algorithm := algo\<rparr>"

definition evaluate_token :: "rate_request \<Rightarrow> policy_work \<Rightarrow> policy_work \<times> rate_limit_decision result" where
  "evaluate_token r pw =
     (case pw of (st, q, burst) \<Rightarrow>
        (case tb_try_consume (rr_now r) 1 (po_token_bucket st) of
           Inl e \<Rightarrow> ((st, q, burst), Inl e)
         | Inr (b, ok) \<Rightarrow>
             (let st = st\<lparr>po_token_bucket := b\<rparr> in
              if ok then ((st, q, burst), Inr (pass_decision ''token_bucket''))
              else
                (case try_burst (rr_now r) st of
                   Inl e \<Rightarrow> ((st, q, burst), Inl e)
                 | Inr (st, bursting) \<Rightarrow>
                     if bursting then
                       (let st = st\<lparr>po_burst_count := po_burst_count st + 1\<rparr>; burst = burst + 1 in
                        case bucket_retry (rr_now r) q st of
                          Inl e \<Rightarrow> ((st, q, burst), Inl e)
                        | Inr (st, retry, avail) \<Rightarrow>
                            ((st, q, burst),
                             Inr ((pass_decision ''token_bucket'')\<lparr>rd_delayed := True, rd_reason := ''burst consumed'',
                                  rd_retry_after_ms := retry, rd_tokens_remaining := avail\<rparr>)))
                     else if room_to_queue st q then
                       (let queue_pos = qm_total_depth q + 1 in
                        case qm_enqueue ''priority'' [] (request_entry r) q of
                          Inl e \<Rightarrow> ((st, q, burst), Inl e)
                        | Inr q \<Rightarrow>
                            (case bucket_retry (rr_now r) q st of
                               Inl e \<Rightarrow> ((st, q, burst), Inl e)
                             | Inr (st, retry, avail) \<Rightarrow>
                                 ((st, q, burst),
                                  Inr (no_decision\<lparr>rd_queued := True, rd_reason := ''token bucket empty'',
                                       rd_retry_after_ms := retry, rd_estimated_wait_ms := retry,
                                       rd_queue_position := queue_pos, rd_tokens_remaining := avail\<rparr>))))
                     else
                       (case bucket_retry (rr_now r) q st of
                          Inl e \<Rightarrow> ((st, q, burst), Inl e)
                        | Inr (st, retry, avail) \<Rightarrow>
                            ((st, q, burst),
                             Inr (no_decision\<lparr>rd_rejected := True, rd_reason := ''token bucket empty'',
                                  rd_retry_after_ms := retry, rd_tokens_remaining := avail\<rparr>)))))))"

definition evaluate_leaky :: "rate_request \<Rightarrow> policy_work \<Rightarrow> policy_work \<times> rate_limit_decision result" where
  "evaluate_leaky r pw =
     (case pw of (st, q, burst) \<Rightarrow>
        (case lk_try_add (rr_now r) 1 (po_leaky_bucket st) of
           Inl e \<Rightarrow> ((st, q, burst), Inl e)
         | Inr (b, ok) \<Rightarrow>
             (let st = st\<lparr>po_leaky_bucket := b\<rparr> in
              if ok then ((st, q, burst), Inr (pass_decision ''leaky_bucket''))
              else if room_to_queue st q then
                (let queue_pos = qm_total_depth q + 1 in
                 case qm_enqueue ''priority'' [] (request_entry r) q of
                   Inl e \<Rightarrow> ((st, q, burst), Inl e)
                 | Inr q \<Rightarrow>
                     (case lk_queue_depth (rr_now r) (po_leaky_bucket st) of
                        Inl e \<Rightarrow> ((st, q, burst), Inl e)
                      | Inr (b, depth) \<Rightarrow>
                          (let retry = rp_retry_after_ms (predict depth (lc_drain_rate (rl_leaky_bucket (po_policy st))) 0 0 0)
                           in ((st\<lparr>po_leaky_bucket := b\<rparr>, q, burst),
                               Inr (no_decision\<lparr>rd_queued := True, rd_reason := ''leaky bucket full'',
                                    rd_retry_after_ms := retry, rd_estimated_wait_ms := retry,
                                    rd_queue_position := queue_pos\<rparr>)))))
              else ((st, q, burst),
                    Inr (no_decision\<lparr>rd_rejected := True, rd_reason := ''leaky bucket overflow'',
                         rd_retry_after_ms := 5000\<rparr>)))))"

definition evaluate_sliding :: "rate_request \<Rightarrow> policy_work \<Rightarrow> policy_work \<times> rate_limit_decision result" where
  "evaluate_sliding r pw =
     (case pw of (st, q, burst) \<Rightarrow>
        (case dict_get (po_sliding_windows st) ''1m'' of
           None \<Rightarrow> ((st, q, burst), Inr (pass_decision ''sliding_window''))
         | Some win \<Rightarrow>
             (let (win, ok) = rw_admit (rr_now r) win;
                  st = st\<lparr>po_sliding_windows := dict_set (po_sliding_windows st) ''1m'' win\<rparr>
              in ((st, q, burst),
                  Inr (if ok then pass_decision ''sliding_window''
                       else no_decision\<lparr>rd_rejected := True, rd_reason := ''sliding window exceeded'',
                              rd_retry_after_ms := rp_retry_after_ms (predict (qm_total_depth q) 10 0 0 0)\<rparr>)))))"

definition evaluate_fixed :: "rate_request \<Rightarrow> policy_work \<Rightarrow> policy_work \<times> rate_limit_decision result" where
  "evaluate_fixed r pw =
     (case pw of (st, q, burst) \<Rightarrow>
        (let (w, ok) = fx_try_consume (rr_now r) (po_fixed_window st);
             st = st\<lparr>po_fixed_window := w\<rparr>
         in ((st, q, burst),
             Inr (if ok then pass_decision ''fixed_window''
                  else no_decision\<lparr>rd_rejected := True, rd_reason := ''fixed window exceeded'',
                         rd_retry_after_ms := sw_window_duration_s (rl_sliding_window (po_policy st)) * 1000\<rparr>))))"

definition evaluate_policy :: "rate_request \<Rightarrow> policy_work \<Rightarrow> policy_work \<times> rate_limit_decision result" where
  "evaluate_policy r pw =
     (let algo = rl_algorithm (po_policy (fst pw)) in
      if algo = ''token_bucket'' then evaluate_token r pw
      else if algo = ''leaky_bucket'' then evaluate_leaky r pw
      else if algo = ''sliding_window'' then evaluate_sliding r pw
      else if algo = ''fixed_window'' then evaluate_fixed r pw
      else (pw, Inr (pass_decision algo)))"

subsection \<open>The engine\<close>

datatype rate_event =
    RE_PolicyCreated string string quota_scope string
  | RE_PolicyUpdated string string
  | RE_PolicyDeleted string
  | RE_Approved string quota_scope
  | RE_Rejected string string real
  | RE_BucketEmpty string real
  | RE_QuotaExceeded string
  | RE_QueueOverflow string int
  | RE_PermitReserved string string string int real
  | RE_PermitGranted string string string
  | RE_PermitReleased string int
  | RE_PermitRolledBack string

record quota_usage =
  qu_policy_id :: string
  qu_scope :: quota_scope
  qu_scope_id :: string
  qu_request_count :: int
  qu_approved_count :: int
  qu_rejected_count :: int
  qu_queued_count :: int
  qu_delayed_count :: int
  qu_burst_count :: int
  qu_queue_depth :: int
  qu_last_request :: "real option"

record rate_engine =
  en_has_bus :: bool
  en_queue_manager :: queue_manager
  en_permit_manager :: permit_manager
  en_adaptive_quota :: adaptive_quota
  en_policies :: "(string, policy_state) dict"
  en_usage :: "(string, quota_usage) dict"
  en_total_requests :: int
  en_total_approved :: int
  en_total_rejected :: int
  en_total_queued :: int
  en_total_delayed :: int
  en_burst_detected :: int
  en_quota_exceeded :: int
  en_throttling :: "(string, bool) dict"
  en_started :: bool
  en_start_time :: real
  en_request_timestamps :: "real list"
  en_events :: "rate_event list"

definition en_init :: "bool \<Rightarrow> rate_engine" where
  "en_init has_bus = \<lparr>en_has_bus = has_bus, en_queue_manager = qm_init, en_permit_manager = pm_init,
     en_adaptive_quota = aq_init, en_policies = [], en_usage = [], en_total_requests = 0,
     en_total_approved = 0, en_total_rejected = 0, en_total_queued = 0, en_total_delayed = 0,
     en_burst_detected = 0, en_quota_exceeded = 0, en_throttling = [], en_started = False,
     en_start_time = 0, en_request_timestamps = [], en_events = []\<rparr>"

definition en_publish :: "rate_event \<Rightarrow> rate_engine \<Rightarrow> rate_engine" where
  "en_publish ev e = (if en_has_bus e then e\<lparr>en_events := en_events e @ [ev]\<rparr> else e)"

definition en_start :: "real \<Rightarrow> rate_engine \<Rightarrow> rate_engine" where
  "en_start now e = e\<lparr>en_started := True, en_start_time := now\<rparr>"

definition en_stop :: "rate_engine \<Rightarrow> rate_engine" where
  "en_stop e = e\<lparr>en_started := False\<rparr>"

definition en_dispose :: "rate_engine \<Rightarrow> rate_engine" where
  "en_dispose e = (en_stop e)\<lparr>en_policies := [], en_usage := [], en_total_requests := 0, en_total_approved := 0,
     en_total_rejected := 0, en_total_queued := 0, en_total_delayed := 0, en_burst_detected := 0,
     en_quota_exceeded := 0, en_throttling := []\<rparr>"

subsubsection \<open>Policies\<close>

definition en_create_policy :: "real \<Rightarrow> rate_limit_policy \<Rightarrow> rate_engine \<Rightarrow> rate_engine \<times> rate_limit_policy" where
  "en_create_policy now p e =
     (en_publish (RE_PolicyCreated (rl_id p) (rl_name p) (rl_scope p) (rl_algorithm p))
        (e\<lparr>en_policies := dict_set (en_policies e) (rl_id p) (po_init now p)\<rparr>), p)"

definition en_update_policy :: "real \<Rightarrow> rate_limit_policy \<Rightarrow> rate_engine \<Rightarrow> rate_engine \<times> rate_limit_policy option" where
  "en_update_policy now p e =
     (case dict_get (en_policies e) (rl_id p) of
        None \<Rightarrow> (e, None)
      | Some _ \<Rightarrow>
          (en_publish (RE_PolicyUpdated (rl_id p) (rl_name p))
             (e\<lparr>en_policies := dict_set (en_policies e) (rl_id p) (po_init now p)\<rparr>), Some p))"

definition en_delete_policy :: "string \<Rightarrow> rate_engine \<Rightarrow> rate_engine \<times> bool" where
  "en_delete_policy i e =
     (if i \<notin> set (dict_keys (en_policies e)) then (e, False)
      else (en_publish (RE_PolicyDeleted i) (e\<lparr>en_policies := dict_del (en_policies e) i\<rparr>), True))"

definition en_get_policy :: "string \<Rightarrow> rate_engine \<Rightarrow> rate_limit_policy option" where
  "en_get_policy i e = map_option po_policy (dict_get (en_policies e) i)"

definition en_list_policies :: "quota_scope option \<Rightarrow> rate_engine \<Rightarrow> rate_limit_policy list" where
  "en_list_policies scope e =
     (let ps = map po_policy (dict_values (en_policies e)) in
      case scope of None \<Rightarrow> ps | Some s \<Rightarrow> filter (\<lambda>p. rl_scope p = s) ps)"

text \<open>Both switches rebuild the policy, with a new update time, and its runtime state.\<close>

definition switch_policy :: "bool \<Rightarrow> real \<Rightarrow> string \<Rightarrow> rate_engine \<Rightarrow> rate_engine \<times> bool" where
  "switch_policy on now i e =
     (case dict_get (en_policies e) i of
        None \<Rightarrow> (e, False)
      | Some st \<Rightarrow>
          (e\<lparr>en_policies := dict_set (en_policies e) i
               (po_init now ((po_policy st)\<lparr>rl_enabled := on, rl_updated_at := now\<rparr>))\<rparr>, True))"

definition en_enable_policy :: "real \<Rightarrow> string \<Rightarrow> rate_engine \<Rightarrow> rate_engine \<times> bool" where
  "en_enable_policy = switch_policy True"

definition en_disable_policy :: "real \<Rightarrow> string \<Rightarrow> rate_engine \<Rightarrow> rate_engine \<times> bool" where
  "en_disable_policy = switch_policy False"

subsubsection \<open>Requests\<close>

definition scope_value :: "quota_scope \<Rightarrow> string" where
  "scope_value s = (case s of QS_GLOBAL \<Rightarrow> ''global'' | QS_PROVIDER \<Rightarrow> ''provider'' | QS_MODEL \<Rightarrow> ''model''
     | QS_WORKSPACE \<Rightarrow> ''workspace'' | QS_ORGANIZATION \<Rightarrow> ''organization'' | QS_USER \<Rightarrow> ''user'' | QS_AGENT \<Rightarrow> ''agent'')"

definition policy_matches :: "rate_request \<Rightarrow> rate_limit_policy \<Rightarrow> bool" where
  "policy_matches r p \<longleftrightarrow>
     rl_enabled p \<and>
     (case rl_scope p of
        QS_GLOBAL \<Rightarrow> True
      | QS_PROVIDER \<Rightarrow> rl_scope_id p = rr_provider r
      | QS_MODEL \<Rightarrow> rl_scope_id p = rr_model r
      | QS_WORKSPACE \<Rightarrow> rr_scope_id r \<noteq> [] \<and> rl_scope_id p = rr_scope_id r
      | QS_USER \<Rightarrow> rr_scope_id r \<noteq> [] \<and> rl_scope_id p = rr_scope_id r
      | _ \<Rightarrow> False)"

definition find_matching_policies :: "rate_request \<Rightarrow> rate_engine \<Rightarrow> string list" where
  "find_matching_policies r e =
     map fst (sort_key (\<lambda>(i, st). - rl_order (po_policy st))
       (filter (\<lambda>(i, st). policy_matches r (po_policy st)) (en_policies e)))"

definition usage_key :: "quota_scope \<Rightarrow> string \<Rightarrow> string" where
  "usage_key s i = (if i \<noteq> [] then scope_value s @ '':'' @ i else scope_value s)"

definition update_usage :: "string \<Rightarrow> real \<Rightarrow> rate_limit_policy \<Rightarrow> rate_engine \<Rightarrow> rate_engine" where
  "update_usage action now p e =
     (let key = usage_key (rl_scope p) (rl_scope_id p);
          u = (case dict_get (en_usage e) key of
                 Some u \<Rightarrow> u
               | None \<Rightarrow> \<lparr>qu_policy_id = rl_id p, qu_scope = rl_scope p, qu_scope_id = rl_scope_id p,
                    qu_request_count = 0, qu_approved_count = 0, qu_rejected_count = 0, qu_queued_count = 0,
                    qu_delayed_count = 0, qu_burst_count = 0, qu_queue_depth = 0, qu_last_request = None\<rparr>)
      in e\<lparr>en_usage := dict_set (en_usage e) key
             (u\<lparr>qu_request_count := qu_request_count u + 1,
                qu_approved_count := qu_approved_count u + (if action = ''approved'' then 1 else 0),
                qu_rejected_count := qu_rejected_count u + (if action = ''rejected'' then 1 else 0),
                qu_queued_count := qu_queued_count u + (if action = ''queued'' then 1 else 0),
                qu_queue_depth := qm_total_depth (en_queue_manager e), qu_last_request := Some now\<rparr>)\<rparr>)"

definition publish_rejected :: "rate_limit_policy \<Rightarrow> rate_limit_decision \<Rightarrow> rate_engine \<Rightarrow> rate_engine" where
  "publish_rejected p d e =
     (let e = en_publish (RE_Rejected (rl_id p) (rd_reason d) (rd_retry_after_ms d)) e;
          e = (if rd_reason d = ''token bucket empty'' then en_publish (RE_BucketEmpty (rl_id p) (rd_retry_after_ms d)) e else e);
          e = (if rd_reason d \<in> {''sliding window exceeded'', ''fixed window exceeded''}
               then en_publish (RE_QuotaExceeded (rl_id p)) e else e)
      in if rd_queued d \<and> qm_total_depth (en_queue_manager e) \<ge> 100
         then en_publish (RE_QueueOverflow (rl_id p) (qm_total_depth (en_queue_manager e))) e else e)"

definition upd_state :: "string \<Rightarrow> (policy_state \<Rightarrow> policy_state) \<Rightarrow> rate_engine \<Rightarrow> rate_engine" where
  "upd_state i f e =
     (case dict_get (en_policies e) i of
        None \<Rightarrow> e
      | Some st \<Rightarrow> e\<lparr>en_policies := dict_set (en_policies e) i (f st)\<rparr>)"

definition put_work :: "string \<Rightarrow> policy_work \<Rightarrow> rate_engine \<Rightarrow> rate_engine" where
  "put_work i pw e = (case pw of (st, q, burst) \<Rightarrow>
     e\<lparr>en_policies := dict_set (en_policies e) i st, en_queue_manager := q, en_burst_detected := burst\<rparr>)"

text \<open>What follows the evaluation of one policy: the final decision, or nothing when the next one is asked.\<close>

definition settle :: "rate_request \<Rightarrow> string \<Rightarrow> rate_limit_policy \<Rightarrow> rate_limit_decision \<Rightarrow> rate_engine \<Rightarrow>
    rate_engine \<times> rate_limit_decision option" where
  "settle r i p d e =
     (if rd_queued d then
        (update_usage ''queued'' (rr_now r) p
           (upd_state i (\<lambda>st. st\<lparr>po_queued_count := po_queued_count st + 1\<rparr>)
              (e\<lparr>en_total_queued := en_total_queued e + 1\<rparr>)),
         Some (no_decision\<lparr>rd_queued := True, rd_policy_id := rl_id p, rd_algorithm := rl_algorithm p,
                 rd_estimated_wait_ms := rd_estimated_wait_ms d, rd_queue_position := rd_queue_position d\<rparr>))
      else
        (let e = (if rd_delayed d
                  then upd_state i (\<lambda>st. st\<lparr>po_delayed_count := po_delayed_count st + 1\<rparr>)
                         (e\<lparr>en_total_delayed := en_total_delayed e + 1\<rparr>)
                  else e)
         in if \<not> rd_approved d then
              (publish_rejected p d
                 (update_usage ''rejected'' (rr_now r) p (e\<lparr>en_total_rejected := en_total_rejected e + 1\<rparr>)),
               Some (no_decision\<lparr>rd_rejected := True, rd_reason := rd_reason d, rd_policy_id := rl_id p,
                       rd_algorithm := rl_algorithm p, rd_retry_after_ms := rd_retry_after_ms d,
                       rd_tokens_remaining := rd_tokens_remaining d\<rparr>))
            else (e, None)))"

fun evaluate_loop :: "rate_request \<Rightarrow> string list \<Rightarrow> rate_engine \<Rightarrow> rate_engine \<times> rate_limit_decision option result" where
  "evaluate_loop r [] e = (e, Inr None)"
| "evaluate_loop r (i # is) e =
     (case dict_get (en_policies e) i of
        None \<Rightarrow> evaluate_loop r is e
      | Some st \<Rightarrow>
          if \<not> rl_enabled (po_policy st) then evaluate_loop r is e
          else
            (case evaluate_policy r (st, en_queue_manager e, en_burst_detected e) of
               (pw, Inl err) \<Rightarrow> (put_work i pw e, Inl err)
             | (pw, Inr d) \<Rightarrow>
                 (case settle r i (po_policy st) d (put_work i pw e) of
                    (e', Some final) \<Rightarrow> (e', Inr (Some final))
                  | (e', None) \<Rightarrow> evaluate_loop r is e')))"

definition approve_all :: "string list \<Rightarrow> rate_engine \<Rightarrow> rate_engine" where
  "approve_all is e =
     fold (\<lambda>i. upd_state i (\<lambda>st. st\<lparr>po_approved_count := po_approved_count st + 1,
                                     po_request_count := po_request_count st + 1\<rparr>)) is
       (e\<lparr>en_total_approved := en_total_approved e + 1\<rparr>)"

text \<open>Matching policies stay stored during the loop, so the case of a missing first policy cannot occur.\<close>

definition en_evaluate :: "rate_request \<Rightarrow> rate_engine \<Rightarrow> rate_engine \<times> rate_limit_decision result" where
  "en_evaluate r e =
     (if \<not> en_started e then (e, Inr (no_decision\<lparr>rd_approved := True, rd_reason := ''engine not started''\<rparr>))
      else
        (let e = e\<lparr>en_request_timestamps := deque_append 1000 (en_request_timestamps e) (rr_now r),
                   en_total_requests := en_total_requests e + 1\<rparr>;
             is = find_matching_policies r e
         in case is of
              [] \<Rightarrow> (e, Inr (no_decision\<lparr>rd_approved := True, rd_reason := ''no applicable policies''\<rparr>))
            | i # _ \<Rightarrow>
                (case evaluate_loop r is e of
                   (e, Inl err) \<Rightarrow> (e, Inl err)
                 | (e, Inr (Some d)) \<Rightarrow> (e, Inr d)
                 | (e, Inr None) \<Rightarrow>
                     (case dict_get (en_policies e) i of
                        None \<Rightarrow> (e, Inl (KeyError i))
                      | Some st \<Rightarrow>
                          (en_publish (RE_Approved (rl_id (po_policy st)) (rl_scope (po_policy st))) (approve_all is e),
                           Inr (no_decision\<lparr>rd_approved := True, rd_reason := ''all policies passed'',
                                  rd_algorithm := rl_algorithm (po_policy st)\<rparr>))))))"

subsubsection \<open>Permits\<close>

definition reserve_policy :: "string \<Rightarrow> rate_engine \<Rightarrow> rate_limit_policy option" where
  "reserve_policy policy_id e =
     (let given = (if policy_id \<noteq> [] then en_get_policy policy_id e else None) in
      case given of
        Some p \<Rightarrow> Some p
      | None \<Rightarrow> List.find (\<lambda>p. rl_enabled p \<and> rl_scope p = QS_GLOBAL) (map po_policy (dict_values (en_policies e))))"

definition en_reserve ::
  "string \<Rightarrow> real \<Rightarrow> string \<Rightarrow> string \<Rightarrow> string \<Rightarrow> int \<Rightarrow> real \<Rightarrow> rate_engine \<Rightarrow>
   rate_engine \<times> permit_reservation option" where
  "en_reserve fresh now provider model policy_id n ttl e =
     (case reserve_policy policy_id e of
        None \<Rightarrow> (e, None)
      | Some p \<Rightarrow>
          (case pm_reserve fresh now \<lparr>pk_policy_id = rl_id p, pk_scope = rl_scope p, pk_scope_id = rl_scope_id p,
                  pk_provider = provider, pk_model = model\<rparr> n ttl (en_permit_manager e) of
             (m, res) \<Rightarrow>
               (en_publish (RE_PermitReserved (pe_id res) provider model n ttl) (e\<lparr>en_permit_manager := m\<rparr>), Some res)))"

text \<open>A refused grant or release is reported as such, with the other fields at their defaults.\<close>

definition no_key :: permit_key where
  "no_key = \<lparr>pk_policy_id = [], pk_scope = QS_GLOBAL, pk_scope_id = [], pk_provider = [], pk_model = []\<rparr>"

definition en_grant :: "real \<Rightarrow> string \<Rightarrow> rate_engine \<Rightarrow> rate_engine \<times> permit_grant" where
  "en_grant now i e =
     (case pm_grant now i (en_permit_manager e) of
        (m, None) \<Rightarrow>
          (e\<lparr>en_permit_manager := m\<rparr>, \<lparr>pg_reservation_id = i, pg_key = no_key, pg_count = 1, pg_granted = False\<rparr>)
      | (m, Some g) \<Rightarrow>
          (en_publish (RE_PermitGranted i (pk_provider (pg_key g)) (pk_model (pg_key g))) (e\<lparr>en_permit_manager := m\<rparr>), g))"

definition en_release :: "real \<Rightarrow> string \<Rightarrow> int \<Rightarrow> rate_engine \<Rightarrow> rate_engine \<times> permit_release" where
  "en_release now i n e =
     (case pm_release now i n (en_permit_manager e) of
        (m, None) \<Rightarrow>
          (e\<lparr>en_permit_manager := m\<rparr>, \<lparr>pl_reservation_id = i, pl_policy_id = [], pl_count = 1, pl_released = False\<rparr>)
      | (m, Some l) \<Rightarrow> (en_publish (RE_PermitReleased i n) (e\<lparr>en_permit_manager := m\<rparr>), l))"

definition en_rollback :: "real \<Rightarrow> string \<Rightarrow> rate_engine \<Rightarrow> rate_engine \<times> bool" where
  "en_rollback now i e =
     (case pm_rollback now i (en_permit_manager e) of
        (m, ok) \<Rightarrow>
          (let e = e\<lparr>en_permit_manager := m\<rparr> in (if ok then en_publish (RE_PermitRolledBack i) e else e, ok)))"

text \<open>The first enabled token-bucket policy pays, whatever its scope.\<close>

definition en_consume :: "real \<Rightarrow> string \<Rightarrow> string \<Rightarrow> int \<Rightarrow> rate_engine \<Rightarrow> rate_engine \<times> bool result" where
  "en_consume now provider model n e =
     (case List.find (\<lambda>(i, st). rl_enabled (po_policy st) \<and> rl_algorithm (po_policy st) = ''token_bucket'') (en_policies e) of
        None \<Rightarrow> (e, Inr True)
      | Some (i, st) \<Rightarrow>
          (case tb_try_consume now n (po_token_bucket st) of
             Inl err \<Rightarrow> (e, Inl err)
           | Inr (b, ok) \<Rightarrow>
               (e\<lparr>en_policies := dict_set (en_policies e) i (st\<lparr>po_token_bucket := b\<rparr>)\<rparr>, Inr ok)))"

subsubsection \<open>Prediction and reports\<close>

text \<open>The last bucket of each kind decides; reading the available tokens refills the bucket.\<close>

fun predict_loop :: "real \<Rightarrow> string list \<Rightarrow> real \<times> real \<times> real \<Rightarrow> rate_engine \<Rightarrow> rate_engine \<times> (real \<times> real \<times> real) result" where
  "predict_loop now [] acc e = (e, Inr acc)"
| "predict_loop now (i # is) (drain_rate, tokens, refill_rate) e =
     (case dict_get (en_policies e) i of
        None \<Rightarrow> predict_loop now is (drain_rate, tokens, refill_rate) e
      | Some st \<Rightarrow>
          if rl_algorithm (po_policy st) = ''token_bucket'' then
            (case tb_available now (po_token_bucket st) of
               Inl err \<Rightarrow> (e, Inl err)
             | Inr (b, avail) \<Rightarrow>
                 predict_loop now is (drain_rate, avail, tc_refill_rate (rl_token_bucket (po_policy st)))
                   (upd_state i (\<lambda>st. st\<lparr>po_token_bucket := b\<rparr>) e))
          else if rl_algorithm (po_policy st) = ''leaky_bucket'' then
            predict_loop now is (lc_drain_rate (rl_leaky_bucket (po_policy st)), tokens, refill_rate) e
          else predict_loop now is (drain_rate, tokens, refill_rate) e)"

definition en_predict_retry :: "real \<Rightarrow> string \<Rightarrow> string \<Rightarrow> rate_engine \<Rightarrow> rate_engine \<times> retry_prediction result" where
  "en_predict_retry now provider model e =
     (case predict_loop now (dict_keys (en_policies e)) (10, 0, 10) e of
        (e, Inl err) \<Rightarrow> (e, Inl err)
      | (e, Inr (drain_rate, tokens, refill_rate)) \<Rightarrow>
          (e, Inr (predict (qm_total_depth (en_queue_manager e)) drain_rate tokens refill_rate 0)))"

definition uptime_seconds :: "real \<Rightarrow> rate_engine \<Rightarrow> real" where
  "uptime_seconds now e = (if en_start_time e > 0 then max (now - en_start_time e) 1 else 1)"

record permit_statistics =
  ps_total_requests :: int
  ps_approved :: int
  ps_rejected :: int
  ps_queued :: int
  ps_delayed :: int
  ps_burst_count :: int
  ps_reservations :: permit_snapshot
  ps_queue_overflow_count :: int
  ps_quota_exceeded_count :: int

definition en_statistics :: "rate_engine \<Rightarrow> permit_statistics" where
  "en_statistics e =
     \<lparr>ps_total_requests = en_total_requests e, ps_approved = en_total_approved e, ps_rejected = en_total_rejected e,
      ps_queued = en_total_queued e, ps_delayed = en_total_delayed e, ps_burst_count = en_burst_detected e,
      ps_reservations = pm_snapshot (en_permit_manager e),
      ps_queue_overflow_count = qm_overflow_count (en_queue_manager e), ps_quota_exceeded_count = en_quota_exceeded e\<rparr>"

record rate_limit_metrics =
  rm_requests_per_second :: real
  rm_permits_per_second :: real
  rm_queue_depth :: int
  rm_average_wait_ms :: real
  rm_average_retry_delay_ms :: real
  rm_burst_count :: int
  rm_quota_utilization_pct :: real
  rm_reservation_count :: int
  rm_forecast_accuracy_pct :: real
  rm_adaptive_adjustments :: int
  rm_token_utilization_pct :: real

definition quota_utilization :: "rate_engine \<Rightarrow> real" where
  "quota_utilization e =
     (if en_total_requests e > 0
      then of_int (en_total_approved e) / of_int (max (en_total_requests e) 1) * 100 else 100)"

definition en_metrics :: "real \<Rightarrow> rate_engine \<Rightarrow> rate_limit_metrics" where
  "en_metrics now e =
     (let recent = filter (\<lambda>t. t > now - 60) (en_request_timestamps e);
          wait = qt_average_wait_ms (qm_statistics (en_queue_manager e))
      in \<lparr>rm_requests_per_second = (if recent \<noteq> [] then real (length recent) / 60 else 0),
          rm_permits_per_second = of_int (en_total_approved e) / max (uptime_seconds now e) 1,
          rm_queue_depth = qm_total_depth (en_queue_manager e), rm_average_wait_ms = wait,
          rm_average_retry_delay_ms = wait * (1/2), rm_burst_count = en_burst_detected e,
          rm_quota_utilization_pct = quota_utilization e,
          rm_reservation_count = sn_active (pm_snapshot (en_permit_manager e)),
          rm_forecast_accuracy_pct = 85, rm_adaptive_adjustments = aq_adjustment_count (en_adaptive_quota e),
          rm_token_utilization_pct = 100 - quota_utilization e\<rparr>)"

record quota_forecast =
  qf_policy_id :: string
  qf_next_hour :: real
  qf_today :: real
  qf_remaining :: real
  qf_at_risk :: bool
  qf_recommendation :: string

definition forecast_of :: "real \<Rightarrow> rate_engine \<Rightarrow> policy_state \<Rightarrow> quota_forecast" where
  "forecast_of now e st =
     (let hourly = of_int (po_request_count st) / max (uptime_seconds now e) 1 * 3600;
          remaining = max 0 (py_int (tc_capacity (rl_token_bucket (po_policy st)) * po_current_adjustment st) - po_request_count st);
          at_risk = remaining < 10
      in \<lparr>qf_policy_id = rl_id (po_policy st), qf_next_hour = hourly, qf_today = hourly * 24,
          qf_remaining = of_int remaining, qf_at_risk = at_risk,
          qf_recommendation = (if at_risk then ''reduce request rate'' else ''ok'')\<rparr>)"

record rate_limit_forecast =
  rf_provider_forecasts :: "(string, quota_forecast) dict"
  rf_model_forecasts :: "(string, quota_forecast) dict"
  rf_workspace_forecasts :: "(string, quota_forecast) dict"
  rf_at_risk_providers :: "string list"
  rf_at_risk_models :: "string list"

definition add_forecast :: "real \<Rightarrow> rate_engine \<Rightarrow> policy_state \<Rightarrow> rate_limit_forecast \<Rightarrow> rate_limit_forecast" where
  "add_forecast now e st f =
     (let fc = forecast_of now e st; i = rl_scope_id (po_policy st) in
      case rl_scope (po_policy st) of
        QS_PROVIDER \<Rightarrow>
          f\<lparr>rf_provider_forecasts := dict_set (rf_provider_forecasts f) i fc,
            rf_at_risk_providers := rf_at_risk_providers f @ (if qf_at_risk fc then [i] else [])\<rparr>
      | QS_MODEL \<Rightarrow>
          f\<lparr>rf_model_forecasts := dict_set (rf_model_forecasts f) i fc,
            rf_at_risk_models := rf_at_risk_models f @ (if qf_at_risk fc then [i] else [])\<rparr>
      | QS_WORKSPACE \<Rightarrow> f\<lparr>rf_workspace_forecasts := dict_set (rf_workspace_forecasts f) i fc\<rparr>
      | _ \<Rightarrow> f)"

definition en_forecast :: "real \<Rightarrow> rate_engine \<Rightarrow> rate_limit_forecast" where
  "en_forecast now e =
     fold (add_forecast now e) (dict_values (en_policies e))
       \<lparr>rf_provider_forecasts = [], rf_model_forecasts = [], rf_workspace_forecasts = [],
        rf_at_risk_providers = [], rf_at_risk_models = []\<rparr>"

definition en_queue_state :: "rate_engine \<Rightarrow> rate_queue_statistics" where
  "en_queue_state e = qm_statistics (en_queue_manager e)"

definition en_quota_state :: "quota_scope \<Rightarrow> string \<Rightarrow> rate_engine \<Rightarrow> quota_usage option" where
  "en_quota_state s i e = dict_get (en_usage e) (scope_value s @ '':'' @ i)"

definition en_provider_state :: "string \<Rightarrow> rate_engine \<Rightarrow> rate_limit_policy list \<times> bool \<times> int" where
  "en_provider_state provider e =
     (filter (\<lambda>p. rl_scope p = QS_PROVIDER \<and> rl_scope_id p = provider) (map po_policy (dict_values (en_policies e))),
      dict_get_or (en_throttling e) provider False, qm_total_depth (en_queue_manager e))"

definition en_health :: "real \<Rightarrow> rate_engine \<Rightarrow> bool \<times> real \<times> int \<times> int \<times> int \<times> int \<times> int \<times> int \<times> int" where
  "en_health now e = (en_started e, now - en_start_time e, int (length (en_policies e)), en_total_requests e,
     en_total_approved e, en_total_rejected e, en_total_queued e, en_total_delayed e, en_burst_detected e)"


end
