(* ===== verification/Rate_Engine_Laws.thy ===== *)
theory Rate_Engine_Laws
  imports Rate_Engine Rate_Limit_Laws
begin

text \<open>
  Laws of the rate limiter's engine: a policy bounds what the engine approves whatever the other
  policies do, the queue only grows, the counters agree, and what the operations on policies keep.
\<close>

subsection \<open>What evaluation changes in a policy\<close>

type_synonym limits = "rate_limit_policy \<times> token_bucket \<times> leaky_bucket \<times> (string, rate_window) dict \<times> fixed_window"

definition limits_of :: "policy_state \<Rightarrow> limits" where
  "limits_of st = (po_policy st, po_token_bucket st, po_leaky_bucket st, po_sliding_windows st, po_fixed_window st)"

definition limits_at :: "string \<Rightarrow> rate_engine \<Rightarrow> limits option" where
  "limits_at i e = map_option limits_of (dict_get (en_policies e) i)"

lemma limits_at_more [simp]:
  "limits_at i (e\<lparr>en_total_queued := n\<rparr>) = limits_at i e" "limits_at i (e\<lparr>en_total_delayed := n\<rparr>) = limits_at i e"
  "limits_at i (e\<lparr>en_total_rejected := n\<rparr>) = limits_at i e" "limits_at i (e\<lparr>en_total_approved := n\<rparr>) = limits_at i e"
  "limits_at i (e\<lparr>en_total_requests := n\<rparr>) = limits_at i e" "limits_at i (e\<lparr>en_request_timestamps := ts\<rparr>) = limits_at i e"
  "limits_at i (e\<lparr>en_usage := us\<rparr>) = limits_at i e" "limits_at i (en_publish ev e) = limits_at i e"
  by (simp_all add: limits_at_def en_publish_def)

lemma limits_of_counts [simp]:
  "limits_of (st\<lparr>po_queued_count := n\<rparr>) = limits_of st" "limits_of (st\<lparr>po_delayed_count := n\<rparr>) = limits_of st"
  "limits_of (st\<lparr>po_approved_count := n\<rparr>) = limits_of st" "limits_of (st\<lparr>po_request_count := n\<rparr>) = limits_of st"
  by (simp_all add: limits_of_def)

lemma limits_upd_state:
  "(\<And>st. limits_of (f st) = limits_of st) \<Longrightarrow> limits_at i (upd_state j f e) = limits_at i e"
  by (cases "dict_get (en_policies e) j") (auto simp: limits_at_def upd_state_def)

lemma limits_update_usage [simp]: "limits_at i (update_usage a now p e) = limits_at i e"
  by (simp add: update_usage_def Let_def)

lemma limits_publish_rejected [simp]: "limits_at i (publish_rejected p d e) = limits_at i e"
  by (simp add: publish_rejected_def Let_def)

lemma limits_settle [simp]: "limits_at i (fst (settle r j p d e)) = limits_at i e"
  by (simp add: settle_def Let_def limits_upd_state)

lemma limits_put_work [simp]:
  "limits_at i (put_work j pw e) = (if i = j then Some (limits_of (fst pw)) else limits_at i e)"
  by (auto simp: limits_at_def put_work_def split: prod.splits)

lemma limits_approve_all [simp]: "limits_at i (approve_all is e) = limits_at i e"
proof -
  have "limits_at i (fold (\<lambda>i. upd_state i (\<lambda>st. st\<lparr>po_approved_count := po_approved_count st + 1,
      po_request_count := po_request_count st + 1\<rparr>)) is e) = limits_at i e" for e
    by (induction "is" arbitrary: e) (simp_all add: limits_upd_state)
  then show ?thesis by (simp add: approve_all_def)
qed

lemma settle_None: "snd (settle r i p d e) = None \<longleftrightarrow> \<not> rd_queued d \<and> rd_approved d"
  by (simp add: settle_def Let_def)

lemma no_decision_sel [simp]:
  "\<not> rd_approved no_decision" "\<not> rd_queued no_decision" "\<not> rd_delayed no_decision" "\<not> rd_rejected no_decision"
  by (simp_all add: no_decision_def)

text \<open>The possible courses of a token-bucket evaluation.\<close>

lemma token_cases:
  assumes "evaluate_token r (st, q, b) = ((st', q', b'), d)"
  obtains
    (error) err where "tb_try_consume (rr_now r) 1 (po_token_bucket st) = Inl err" "st' = st" "q' = q" "d = Inl err"
  | (pass) B where "tb_try_consume (rr_now r) 1 (po_token_bucket st) = Inr (B, True)"
      "st' = st\<lparr>po_token_bucket := B\<rparr>" "q' = q" "d = Inr (pass_decision ''token_bucket'')"
  | (burst_error) B err where "tb_try_consume (rr_now r) 1 (po_token_bucket st) = Inr (B, False)"
      "try_burst (rr_now r) (st\<lparr>po_token_bucket := B\<rparr>) = Inl err" "st' = st\<lparr>po_token_bucket := B\<rparr>" "q' = q" "d = Inl err"
  | (burst) B st1 where "tb_try_consume (rr_now r) 1 (po_token_bucket st) = Inr (B, False)"
      "try_burst (rr_now r) (st\<lparr>po_token_bucket := B\<rparr>) = Inr (st1, True)" "q' = q"
      "(\<exists>err. d = Inl err \<and> st' = st1\<lparr>po_burst_count := po_burst_count st1 + 1\<rparr>) \<or>
       (\<exists>x y z. d = Inr x \<and> rd_approved x \<and> \<not> rd_queued x \<and>
         bucket_retry (rr_now r) q (st1\<lparr>po_burst_count := po_burst_count st1 + 1\<rparr>) = Inr (st', y, z))"
  | (refuse) B st1 where "tb_try_consume (rr_now r) 1 (po_token_bucket st) = Inr (B, False)"
      "try_burst (rr_now r) (st\<lparr>po_token_bucket := B\<rparr>) = Inr (st1, False)"
      "q' = q \<or> room_to_queue st1 q \<and> qm_enqueue ''priority'' [] (request_entry r) q = Inr q'"
      "(\<exists>err. d = Inl err \<and> st' = st1) \<or>
       (\<exists>x y z. d = Inr x \<and> \<not> rd_approved x \<and> bucket_retry (rr_now r) q' st1 = Inr (st', y, z) \<and>
          (rd_queued x \<longleftrightarrow> qm_enqueue ''priority'' [] (request_entry r) q = Inr q' \<and> room_to_queue st1 q))"
proof (cases "tb_try_consume (rr_now r) 1 (po_token_bucket st)")
  case (Inl err)
  note ev = assms [unfolded evaluate_token_def prod.case Inl sum.case]
  show ?thesis by (rule error [OF Inl]) (use ev in simp_all)
next
  case (Inr Bo)
  obtain B ok where Bo: "Bo = (B, ok)" by (cases Bo)
  let ?st = "st\<lparr>po_token_bucket := B\<rparr>"
  show ?thesis
  proof (cases ok)
    case True
    note ev = assms [unfolded evaluate_token_def prod.case Inr Bo sum.case True if_True Let_def]
    show ?thesis by (rule pass [of B]) (use ev Inr Bo True in simp_all)
  next
    case ok: False
    show ?thesis
    proof (cases "try_burst (rr_now r) ?st")
      case burst: (Inl err)
      note ev = assms [unfolded evaluate_token_def prod.case Inr Bo sum.case ok if_False Let_def burst]
      show ?thesis by (rule burst_error [OF _ burst]) (use ev Inr Bo ok in simp_all)
    next
      case tb: (Inr so)
      obtain st1 bursting where so: "so = (st1, bursting)" by (cases so)
      note ev = assms [unfolded evaluate_token_def prod.case Inr Bo sum.case ok if_False Let_def tb so]
      show ?thesis
      proof (cases bursting)
        case True
        let ?s = "st1\<lparr>po_burst_count := po_burst_count st1 + 1\<rparr>"
        show ?thesis
        proof (cases "bucket_retry (rr_now r) q ?s")
          case br: (Inl err)
          show ?thesis by (rule burst [of B st1]) (use ev Inr Bo ok tb so True br in auto)
        next
          case br: (Inr x)
          show ?thesis
            by (rule burst [of B st1]) (use ev Inr Bo ok tb so True br in \<open>auto split: prod.splits\<close>)
        qed
      next
        case False
        show ?thesis
        proof (cases "room_to_queue st1 q")
          case room: True
          show ?thesis
          proof (cases "qm_enqueue ''priority'' [] (request_entry r) q")
            case qe: (Inl err)
            show ?thesis by (rule refuse [of B st1]) (use ev Inr Bo ok tb so False room qe in auto)
          next
            case q1: (Inr q1)
            show ?thesis
            proof (cases "bucket_retry (rr_now r) q1 st1")
              case br: (Inl err)
              show ?thesis by (rule refuse [of B st1]) (use ev Inr Bo ok tb so False room q1 br in auto)
            next
              case br: (Inr x)
              show ?thesis
                by (rule refuse [of B st1]) (use ev Inr Bo ok tb so False room q1 br in \<open>auto split: prod.splits\<close>)
            qed
          qed
        next
          case no: False
          show ?thesis
          proof (cases "bucket_retry (rr_now r) q st1")
            case br: (Inl err)
            show ?thesis by (rule refuse [of B st1]) (use ev Inr Bo ok tb so False no br in auto)
          next
            case br: (Inr x)
            show ?thesis
              by (rule refuse [of B st1]) (use ev Inr Bo ok tb so False no br in \<open>auto split: prod.splits\<close>)
          qed
        qed
      qed
    qed
  qed
qed

lemma bucket_retry_state: "bucket_retry now q st = Inr (st', x) \<Longrightarrow> \<exists>B. st' = st\<lparr>po_token_bucket := B\<rparr>"
  by (auto simp: bucket_retry_def split: sum.splits prod.splits)

lemma try_burst_state: "try_burst now st = Inr (st', ok) \<Longrightarrow> \<exists>B. st' = st\<lparr>po_token_bucket := B\<rparr>"
  by (cases st) (auto simp: try_burst_def split: sum.splits prod.splits if_splits)

lemma token_keeps_policy:
  assumes "evaluate_token r (st, q, b) = ((st', q', b'), d)"
  shows "po_policy st' = po_policy st"
  using assms
proof (cases rule: token_cases)
  case (burst B st1)
  then show ?thesis by (auto dest!: bucket_retry_state try_burst_state)
next
  case (refuse B st1)
  then show ?thesis by (auto dest!: bucket_retry_state try_burst_state)
qed simp_all

lemma evaluate_keeps_policy:
  assumes "evaluate_policy r (st, q, b) = ((st', q', b'), d)"
  shows "po_policy st' = po_policy st"
  using assms token_keeps_policy [of r st q b st' q' b' d]
  by (auto simp: evaluate_policy_def evaluate_leaky_def evaluate_sliding_def evaluate_fixed_def Let_def
      split: sum.splits prod.splits option.splits if_splits)

text \<open>The four cases of the loop over the matching policies.\<close>

lemma loop_cases:
  assumes "evaluate_loop r (j # js) e = (e', res)"
  obtains
    (skip) "evaluate_loop r js e = (e', res)" "dict_get (en_policies e) j = None \<or>
       (\<exists>st. dict_get (en_policies e) j = Some st \<and> \<not> rl_enabled (po_policy st))"
  | (error) st pw err where "dict_get (en_policies e) j = Some st" "rl_enabled (po_policy st)"
      "evaluate_policy r (st, en_queue_manager e, en_burst_detected e) = (pw, Inl err)"
      "e' = put_work j pw e" "res = Inl err"
  | (final) st pw d x where "dict_get (en_policies e) j = Some st" "rl_enabled (po_policy st)"
      "evaluate_policy r (st, en_queue_manager e, en_burst_detected e) = (pw, Inr d)"
      "settle r j (po_policy st) d (put_work j pw e) = (e', Some x)" "res = Inr (Some x)"
  | (step) st pw d e1 where "dict_get (en_policies e) j = Some st" "rl_enabled (po_policy st)"
      "evaluate_policy r (st, en_queue_manager e, en_burst_detected e) = (pw, Inr d)"
      "settle r j (po_policy st) d (put_work j pw e) = (e1, None)" "evaluate_loop r js e1 = (e', res)"
proof (cases "dict_get (en_policies e) j")
  case None
  then show ?thesis using assms skip by simp
next
  case (Some st)
  show ?thesis
  proof (cases "rl_enabled (po_policy st)")
    case False
    then show ?thesis using assms Some skip by simp
  next
    case True
    obtain pw d where ev: "evaluate_policy r (st, en_queue_manager e, en_burst_detected e) = (pw, d)" by (metis surj_pair)
    show ?thesis
    proof (cases d)
      case (Inl err)
      then show ?thesis using assms Some True ev error by simp
    next
      case (Inr x)
      obtain e1 o1 where se: "settle r j (po_policy st) x (put_work j pw e) = (e1, o1)" by (metis surj_pair)
      show ?thesis using assms Some True ev Inr se final step by (cases o1) simp_all
    qed
  qed
qed

subsection \<open>A policy bounds what the engine approves\<close>

text \<open>
  A gate is a policy whose approvals are paid from a budget. The engine approves a request only
  when all policies that match it do, so what it approves of the requests a gate matches is within the
  gate's budget, whatever the other policies are.
\<close>

definition approval :: "rate_limit_decision result \<Rightarrow> bool" where
  "approval d = (case d of Inl _ \<Rightarrow> False | Inr x \<Rightarrow> rd_approved x)"

definition gate_call :: "rate_limit_policy \<Rightarrow> rate_request \<Rightarrow> rate_engine \<Rightarrow> rate_engine \<times> bool" where
  "gate_call p r e = (case en_evaluate r e of (e', d) \<Rightarrow> (e', policy_matches r p \<and> approval d))"

locale gated =
  fixes timely :: "real \<Rightarrow> bool"
    and gate_ok :: "limits \<Rightarrow> bool"
    and gate_budget :: "limits \<Rightarrow> real"
  assumes gate_nonneg: "gate_ok l \<Longrightarrow> 0 \<le> gate_budget l"
    and gate_pays: "gate_ok (limits_of st) \<Longrightarrow> timely (rr_now r) \<Longrightarrow>
      evaluate_policy r (st, q, b) = ((st', q', b'), d) \<Longrightarrow>
      gate_ok (limits_of st') \<and> gate_budget (limits_of st') + admitted (approval d) \<le> gate_budget (limits_of st)"
begin

definition engine_ok :: "string \<Rightarrow> rate_limit_policy \<Rightarrow> rate_engine \<Rightarrow> bool" where
  "engine_ok i p e \<longleftrightarrow>
     en_started e \<and> dict_wf (en_policies e) \<and> rl_enabled p \<and> (\<exists>l. limits_at i e = Some l \<and> fst l = p \<and> gate_ok l)"

definition engine_budget :: "string \<Rightarrow> rate_engine \<Rightarrow> real" where
  "engine_budget i e = gate_budget (the (limits_at i e))"

lemma loop_pays:
  assumes "evaluate_loop r is e = (e', res)" and "timely (rr_now r)"
    and "limits_at i e = Some l" and "gate_ok l" and "rl_enabled (fst l)"
  shows "\<exists>l'. limits_at i e' = Some l' \<and> fst l' = fst l \<and> gate_ok l' \<and>
    gate_budget l' + admitted (i \<in> set is \<and> res = Inr None) \<le> gate_budget l"
  using assms
proof (induction "is" arbitrary: e l)
  case Nil
  then show ?case by (simp add: admitted_def)
next
  case (Cons j js)
  have work: "\<exists>l'. limits_at i (put_work j pw e) = Some l' \<and> fst l' = fst l \<and> gate_ok l' \<and>
      gate_budget l' + admitted (i = j \<and> approval d) \<le> gate_budget l"
    if st: "dict_get (en_policies e) j = Some st"
      and ev: "evaluate_policy r (st, en_queue_manager e, en_burst_detected e) = (pw, d)" for st pw d
  proof (cases "i = j")
    case True
    obtain st' q' b' where pw: "pw = (st', q', b')" by (cases pw)
    have l: "l = limits_of st" using Cons.prems(3) st True by (simp add: limits_at_def)
    show ?thesis
      using gate_pays [OF Cons.prems(4) [unfolded l] Cons.prems(2) ev [unfolded pw]]
        evaluate_keeps_policy [OF ev [unfolded pw]] True
      by (simp add: pw l limits_of_def)
  next
    case False
    then show ?thesis using Cons.prems by (simp add: admitted_def)
  qed
  from Cons.prems(1) show ?case
  proof (cases rule: loop_cases)
    case skip
    have "i \<noteq> j" using skip(2) Cons.prems(3,5) by (auto simp: limits_at_def limits_of_def)
    then show ?thesis using Cons.IH [OF skip(1) Cons.prems(2-5)] by simp
  next
    case (error st pw err)
    then show ?thesis using work [OF error(1,3)] by (auto simp: admitted_def split: if_splits)
  next
    case (final st pw d x)
    have "limits_at i e' = limits_at i (put_work j pw e)"
      using limits_settle [of i r j "po_policy st" d "put_work j pw e"] final(4) by simp
    then show ?thesis using work [OF final(1,3)] final(5) by (auto simp: admitted_def split: if_splits)
  next
    case (step st pw d e1)
    have eq: "limits_at i e1 = limits_at i (put_work j pw e)"
      using limits_settle [of i r j "po_policy st" d "put_work j pw e"] step(4) by simp
    have "rd_approved d" using settle_None [of r j "po_policy st" d "put_work j pw e"] step(4) by simp
    then obtain l1 where l1: "limits_at i e1 = Some l1" "fst l1 = fst l" "gate_ok l1"
        "gate_budget l1 + admitted (i = j) \<le> gate_budget l"
      using work [OF step(1,3)] eq by (auto simp: approval_def)
    obtain l' where l': "limits_at i e' = Some l'" "fst l' = fst l1" "gate_ok l'"
        "gate_budget l' + admitted (i \<in> set js \<and> res = Inr None) \<le> gate_budget l1"
      using Cons.IH [OF step(5) Cons.prems(2) l1(1,3)] Cons.prems(5) l1(2) by auto
    have "admitted (i \<in> set (j # js) \<and> res = Inr None) \<le> admitted (i = j) + admitted (i \<in> set js \<and> res = Inr None)"
      by (simp add: admitted_def)
    then show ?thesis using l1 l' by auto
  qed
qed

end

lemma matching_ids:
  assumes "limits_at i e = Some l" and "policy_matches r (fst l)" and "dict_wf (en_policies e)"
  shows "i \<in> set (find_matching_policies r e)"
proof -
  obtain st where "dict_get (en_policies e) i = Some st" and "l = limits_of st"
    using assms(1) by (auto simp: limits_at_def)
  then have "(i, st) \<in> set (filter (\<lambda>(i, st). policy_matches r (po_policy st)) (en_policies e))"
    using assms(2) by (auto simp: limits_of_def dest: map_of_SomeD)
  then show ?thesis unfolding find_matching_policies_def set_map set_sort by force
qed

lemma wf_upd_state [simp]: "dict_wf (en_policies e) \<Longrightarrow> dict_wf (en_policies (upd_state i f e))"
  by (auto simp: upd_state_def split: option.splits)

lemma policies_publish [simp]:
  "en_policies (en_publish ev e) = en_policies e" "en_policies (update_usage a now p e) = en_policies e"
  "en_policies (publish_rejected p d e) = en_policies e"
  by (simp_all add: en_publish_def update_usage_def publish_rejected_def Let_def)

lemma wf_settle: "dict_wf (en_policies e) \<Longrightarrow> dict_wf (en_policies (fst (settle r i p d e)))"
  by (simp add: settle_def Let_def)

lemma wf_put_work: "dict_wf (en_policies e) \<Longrightarrow> dict_wf (en_policies (put_work i pw e))"
  by (simp add: put_work_def split: prod.splits)

lemma wf_loop: "evaluate_loop r is e = (e', res) \<Longrightarrow> dict_wf (en_policies e) \<Longrightarrow> dict_wf (en_policies e')"
proof (induction "is" arbitrary: e)
  case (Cons j js)
  from Cons.prems(1) show ?case
  proof (cases rule: loop_cases)
    case (final st pw d x)
    then show ?thesis using wf_settle [OF wf_put_work [OF Cons.prems(2)]] by (metis fst_conv)
  next
    case (step st pw d e1)
    then show ?thesis using Cons.IH [OF step(5)] wf_settle [OF wf_put_work [OF Cons.prems(2)]] by (metis fst_conv)
  qed (use Cons wf_put_work in auto)
qed simp

lemma wf_approve_all: "dict_wf (en_policies e) \<Longrightarrow> dict_wf (en_policies (approve_all is e))"
proof -
  have "dict_wf (en_policies e) \<Longrightarrow> dict_wf (en_policies (fold (\<lambda>i. upd_state i (f i)) is e))" for f e
    by (induction "is" arbitrary: e) simp_all
  then show "dict_wf (en_policies e) \<Longrightarrow> dict_wf (en_policies (approve_all is e))" by (simp add: approve_all_def)
qed

text \<open>Evaluation touches neither the switch of the engine nor its start time.\<close>

definition fixed_parts :: "rate_engine \<Rightarrow> bool \<times> bool \<times> permit_manager" where
  "fixed_parts e = (en_started e, en_has_bus e, en_permit_manager e)"

lemma fixed_upd_state [simp]: "fixed_parts (upd_state i f e) = fixed_parts e"
  by (auto simp: fixed_parts_def upd_state_def split: option.splits)

lemma fixed_more [simp]:
  "fixed_parts (en_publish ev e) = fixed_parts e" "fixed_parts (put_work i pw e) = fixed_parts e"
  "fixed_parts (update_usage a now p e) = fixed_parts e" "fixed_parts (publish_rejected p d e) = fixed_parts e"
  by (auto simp: fixed_parts_def en_publish_def put_work_def update_usage_def publish_rejected_def Let_def split: prod.splits)

lemma fixed_settle [simp]: "fixed_parts (fst (settle r i p d e)) = fixed_parts e"
proof -
  have "fixed_parts (e\<lparr>en_total_queued := n\<rparr>) = fixed_parts e" "fixed_parts (e\<lparr>en_total_delayed := n\<rparr>) = fixed_parts e"
    "fixed_parts (e\<lparr>en_total_rejected := n\<rparr>) = fixed_parts e" for n e by (simp_all add: fixed_parts_def)
  then show ?thesis by (simp add: settle_def Let_def)
qed

lemma fixed_loop: "evaluate_loop r is e = (e', res) \<Longrightarrow> fixed_parts e' = fixed_parts e"
proof (induction "is" arbitrary: e)
  case (Cons j js)
  from Cons.prems show ?case
  proof (cases rule: loop_cases)
    case (final st pw d x)
    then show ?thesis using fixed_settle [of r j "po_policy st" d "put_work j pw e"] by simp
  next
    case (step st pw d e1)
    then show ?thesis using Cons.IH [OF step(5)] fixed_settle [of r j "po_policy st" d "put_work j pw e"] by simp
  qed (use Cons in auto)
qed simp

lemma fixed_approve_all [simp]: "fixed_parts (approve_all is e) = fixed_parts e"
proof -
  have "fixed_parts (fold (\<lambda>i. upd_state i (f i)) is e) = fixed_parts e" for f e
    by (induction "is" arbitrary: e) simp_all
  then show ?thesis by (simp add: approve_all_def) (simp add: fixed_parts_def)
qed

text \<open>The courses of \<open>evaluate\<close> on a started engine.\<close>

definition counted :: "rate_request \<Rightarrow> rate_engine \<Rightarrow> rate_engine" where
  "counted r e = e\<lparr>en_request_timestamps := deque_append 1000 (en_request_timestamps e) (rr_now r),
     en_total_requests := en_total_requests e + 1\<rparr>"

lemma counted_sel [simp]:
  "en_policies (counted r e) = en_policies e" "limits_at i (counted r e) = limits_at i e"
  "en_queue_manager (counted r e) = en_queue_manager e" "en_usage (counted r e) = en_usage e"
  by (simp_all add: counted_def limits_at_def)

lemma evaluate_cases:
  assumes "en_evaluate r e = (e', d)" and "en_started e"
  obtains
    (unmatched) "find_matching_policies r (counted r e) = []" "e' = counted r e" "approval d"
      "d = Inr (no_decision\<lparr>rd_approved := True, rd_reason := ''no applicable policies''\<rparr>)"
  | (error) err where "evaluate_loop r (find_matching_policies r (counted r e)) (counted r e) = (e', Inl err)" "d = Inl err"
  | (refused) x where "evaluate_loop r (find_matching_policies r (counted r e)) (counted r e) = (e', Inr (Some x))" "d = Inr x"
  | (approved) i js e1 st where "find_matching_policies r (counted r e) = i # js"
      "evaluate_loop r (i # js) (counted r e) = (e1, Inr None)" "dict_get (en_policies e1) i = Some st"
      "e' = en_publish (RE_Approved (rl_id (po_policy st)) (rl_scope (po_policy st))) (approve_all (i # js) e1)"
      "d = Inr (no_decision\<lparr>rd_approved := True, rd_reason := ''all policies passed'',
                  rd_algorithm := rl_algorithm (po_policy st)\<rparr>)"
  | (gone) i js e1 where "find_matching_policies r (counted r e) = i # js"
      "evaluate_loop r (i # js) (counted r e) = (e1, Inr None)" "dict_get (en_policies e1) i = None" "e' = e1" "d = Inl (KeyError i)"
proof -
  note ev = assms(1) [unfolded en_evaluate_def Let_def, folded counted_def]
  show ?thesis
  proof (cases "find_matching_policies r (counted r e)")
    case Nil
    show ?thesis by (rule unmatched) (use ev assms(2) Nil in \<open>auto simp: approval_def\<close>)
  next
    case (Cons i js)
    obtain e1 res where l: "evaluate_loop r (i # js) (counted r e) = (e1, res)" by (metis surj_pair)
    show ?thesis
    proof (cases res)
      case (Inl err)
      show ?thesis by (rule error) (use ev assms(2) Cons l Inl in \<open>auto simp del: evaluate_loop.simps\<close>)
    next
      case res: (Inr o1)
      show ?thesis
      proof (cases o1)
        case (Some x)
        show ?thesis by (rule refused) (use ev assms(2) Cons l res Some in \<open>auto simp del: evaluate_loop.simps\<close>)
      next
        case None
        note ev' = ev [simplified Cons l res None assms(2), simplified]
        show ?thesis
        proof (cases "dict_get (en_policies e1) i")
          case p: None
          show ?thesis by (rule gone [OF Cons _ p]) (use ev' l res None p in \<open>auto simp del: evaluate_loop.simps\<close>)
        next
          case p: (Some st)
          show ?thesis by (rule approved [OF Cons _ p]) (use ev' l res None p in \<open>auto simp del: evaluate_loop.simps\<close>)
        qed
      qed
    qed
  qed
qed

lemma settle_Some: "snd (settle r i p d e) = Some x \<Longrightarrow> \<not> rd_approved x \<and> rd_queued x = rd_queued d"
  by (auto simp: settle_def Let_def split: if_splits)

lemma loop_refuses: "evaluate_loop r is e = (e', Inr (Some x)) \<Longrightarrow> \<not> rd_approved x"
proof (induction "is" arbitrary: e)
  case (Cons j js)
  from Cons.prems show ?case
  proof (cases rule: loop_cases)
    case (final st pw d y)
    then show ?thesis using settle_Some [of r j "po_policy st" d "put_work j pw e" y] by simp
  qed (use Cons.IH in auto)
qed simp

context gated
begin

lemma evaluate_pays:
  assumes ok: "engine_ok i p e" and now: "timely (rr_now r)"
  shows "engine_ok i p (fst (gate_call p r e)) \<and>
    admitted (snd (gate_call p r e)) + engine_budget i (fst (gate_call p r e)) \<le> engine_budget i e"
proof -
  obtain e' d where ev: "en_evaluate r e = (e', d)" by (metis surj_pair)
  obtain l where st: "en_started e" and wf: "dict_wf (en_policies (counted r e))" and en: "rl_enabled p"
      and l: "limits_at i (counted r e) = Some l" "fst l = p" "gate_ok l" and l0: "limits_at i e = Some l"
    using ok unfolding engine_ok_def counted_sel by blast
  have started: "fixed_parts (counted r e) = fixed_parts e" by (simp add: fixed_parts_def counted_def)
  let ?is = "find_matching_policies r (counted r e)"
  have member: "policy_matches r p \<Longrightarrow> i \<in> set ?is" using matching_ids [OF l(1) _ wf] l(2) by simp
  have en': "rl_enabled (fst l)" using en l(2) by simp
  note pays = loop_pays [OF _ now l(1,3) en']
  have "fixed_parts e' = fixed_parts e \<and> dict_wf (en_policies e') \<and>
    (\<exists>l'. limits_at i e' = Some l' \<and> fst l' = p \<and> gate_ok l' \<and>
      admitted (policy_matches r p \<and> approval d) + gate_budget l' \<le> gate_budget l)"
    using ev st
  proof (cases rule: evaluate_cases)
    case unmatched
    then have "\<not> policy_matches r p" using member by auto
    then show ?thesis using unmatched(2) started wf l by (simp add: admitted_def)
  next
    case (error err)
    then show ?thesis using pays [OF error(1)] fixed_loop [OF error(1)] wf_loop [OF error(1) wf] started l(2)
      by (auto simp: approval_def admitted_def)
  next
    case (refused x)
    then show ?thesis using pays [OF refused(1)] fixed_loop [OF refused(1)] wf_loop [OF refused(1) wf] started l(2)
        loop_refuses [OF refused(1)]
      by (auto simp: approval_def admitted_def)
  next
    case (approved j js e1 stj)
    have "wf1": "dict_wf (en_policies e1)" by (rule wf_loop [OF approved(2) wf])
    obtain l' where l': "limits_at i e1 = Some l'" "fst l' = p" "gate_ok l'"
        "gate_budget l' + admitted (i \<in> set (j # js)) \<le> gate_budget l"
      using pays [OF approved(2)] l(2) by auto
    have "admitted (policy_matches r p \<and> approval d) \<le> admitted (i \<in> set (j # js))"
      using member approved(1) by (simp add: admitted_def)
    then show ?thesis using l' wf1 approved(4) fixed_loop [OF approved(2)] started
      by (simp add: wf_approve_all)
  next
    case (gone j js e1)
    then show ?thesis using pays [OF gone(2)] fixed_loop [OF gone(2)] wf_loop [OF gone(2) wf] started l(2)
      by (auto simp: approval_def admitted_def simp del: evaluate_loop.simps split: if_splits)
  qed
  then show ?thesis using ev st en l0
    by (auto simp: gate_call_def engine_ok_def engine_budget_def fixed_parts_def)
qed

end

sublocale gated \<subseteq> engine: budgeted "gate_call p" "\<lambda>r. timely (rr_now r)" "engine_ok i p" admitted "engine_budget i" for i p
proof unfold_locales
  fix e and r :: rate_request
  assume ok: "engine_ok i p e"
  then show "0 \<le> engine_budget i e" by (auto simp: engine_ok_def engine_budget_def gate_nonneg)
  assume "timely (rr_now r)"
  then show "engine_ok i p (fst (gate_call p r e))"
      "admitted (snd (gate_call p r e)) + engine_budget i (fst (gate_call p r e)) \<le> engine_budget i e"
    using evaluate_pays [OF ok] by auto
qed

subsubsection \<open>The four algorithms are gates\<close>

lemma try_burst_off: "rl_max_burst (po_policy st) \<le> 0 \<Longrightarrow> try_burst now st = Inr (st, False)"
  by (simp add: try_burst_def)

lemma bucket_retry_spec:
  assumes "tc_ok cfg" "tb_ok cfg T (po_token_bucket st)" "now \<le> T" "bucket_retry now q st = Inr (st', x)"
  shows "tb_ok cfg T (po_token_bucket st') \<and> tb_budget cfg T (po_token_bucket st') \<le> tb_budget cfg T (po_token_bucket st)"
proof -
  obtain B where "tb_refill now (po_token_bucket st) = Inr B" "tb_ok cfg T B"
      "tb_budget cfg T B \<le> tb_budget cfg T (po_token_bucket st)"
    using tb_refill_spec [OF assms(1-3)] .
  then show ?thesis using assms(4) by (auto simp: bucket_retry_def tb_available_def)
qed

lemma consume_one:
  assumes "tc_ok cfg" "tb_ok cfg T b" "now \<le> T"
  obtains B ok where "tb_try_consume now 1 b = Inr (B, ok)" "tb_ok cfg T B"
    "tb_budget cfg T B + admitted ok \<le> tb_budget cfg T b"
proof -
  have 1: "tc_ok cfg \<and> tb_ok cfg T (fst (tb_call (now, 1) b))"
    and 2: "spent (snd (tb_call (now, 1) b)) + tb_budget cfg T (fst (tb_call (now, 1) b)) \<le> tb_budget cfg T b"
    using tb.call_ok [of cfg T b "(now, 1)"] tb.call_pays [of cfg T b "(now, 1)"] assms by simp_all
  obtain b' where "tb_refill now b = Inr b'" using tb_refill_spec [OF assms] by blast
  then obtain B ok where c: "tb_try_consume now 1 b = Inr (B, ok)"
    by (cases "1 \<le> tb_tokens b'") (auto simp: tb_try_consume_def)
  then show ?thesis using 1 2 by (intro that [of B ok]) (auto simp: tb_call_def spent_def admitted_def)
qed

definition token_gate :: "token_bucket_config \<Rightarrow> real \<Rightarrow> limits \<Rightarrow> bool" where
  "token_gate cfg T l = (case l of (p, tb, lk, ws, fx) \<Rightarrow>
     rl_algorithm p = ''token_bucket'' \<and> rl_max_burst p \<le> 0 \<and> tc_ok cfg \<and> tb_ok cfg T tb)"

interpretation tokens: gated "\<lambda>now. now \<le> T" "token_gate cfg T" "\<lambda>(p, tb, lk, ws, fx). tb_budget cfg T tb" for cfg T
proof unfold_locales
  fix l assume "token_gate cfg T l"
  then show "0 \<le> (case l of (p, tb, lk, ws, fx) \<Rightarrow> tb_budget cfg T tb)"
    using tb.budget_nonneg by (auto simp: token_gate_def)
next
  fix st :: policy_state and r :: rate_request and q b st' q' b' d
  assume g: "token_gate cfg T (limits_of st)" and now: "rr_now r \<le> T"
    and ev: "evaluate_policy r (st, q, b) = ((st', q', b'), d)"
  have p: "rl_max_burst (po_policy st) \<le> 0" "tc_ok cfg" "tb_ok cfg T (po_token_bucket st)"
      "rl_algorithm (po_policy st) = ''token_bucket''"
    using g by (simp_all add: token_gate_def limits_of_def)
  have et: "evaluate_token r (st, q, b) = ((st', q', b'), d)" using ev p(4) by (simp add: evaluate_policy_def)
  obtain B ok where c: "tb_try_consume (rr_now r) 1 (po_token_bucket st) = Inr (B, ok)" "tb_ok cfg T B"
      "tb_budget cfg T B + admitted ok \<le> tb_budget cfg T (po_token_bucket st)"
    using consume_one [OF p(2,3) now] .
  have off: "try_burst (rr_now r) (st\<lparr>po_token_bucket := B\<rparr>) = Inr (st\<lparr>po_token_bucket := B\<rparr>, False)"
    using p(1) by (simp add: try_burst_off)
  have "tb_ok cfg T (po_token_bucket st') \<and>
      tb_budget cfg T (po_token_bucket st') + admitted (approval d) \<le> tb_budget cfg T (po_token_bucket st)"
    using et
  proof (cases rule: token_cases)
    case (refuse B1 st1)
    then have st1: "st1 = st\<lparr>po_token_bucket := B\<rparr>" "\<not> ok" using c(1) off by auto
    have "tb_ok cfg T (po_token_bucket st') \<and> tb_budget cfg T (po_token_bucket st') \<le> tb_budget cfg T B \<and> \<not> approval d"
      using refuse(4) bucket_retry_spec [OF p(2) _ now, of st1] c(2) st1(1) by (auto simp: approval_def)
    then show ?thesis using c(3) st1(2) by (simp add: admitted_def)
  qed (use c off in \<open>auto simp: approval_def admitted_def\<close>)
  then show "token_gate cfg T (limits_of st') \<and>
      (case limits_of st' of (p, tb, lk, ws, fx) \<Rightarrow> tb_budget cfg T tb) + admitted (approval d)
        \<le> (case limits_of st of (p, tb, lk, ws, fx) \<Rightarrow> tb_budget cfg T tb)"
    using p evaluate_keeps_policy [OF ev] by (simp add: token_gate_def limits_of_def)
qed

lemma add_one:
  assumes "lc_ok cfg" "lk_ok cfg T b" "now \<le> T"
  obtains B ok where "lk_try_add now 1 b = Inr (B, ok)" "lk_ok cfg T B"
    "lk_budget cfg T B + admitted ok \<le> lk_budget cfg T b"
proof -
  have 1: "lc_ok cfg \<and> lk_ok cfg T (fst (lk_call now b))"
    and 2: "spent (snd (lk_call now b)) + lk_budget cfg T (fst (lk_call now b)) \<le> lk_budget cfg T b"
    using lk.call_ok [of cfg T b now] lk.call_pays [of cfg T b now] assms by simp_all
  obtain b' where "lk_drain now b = Inr b'" using lk_drain_spec [OF assms] by blast
  then obtain B ok where c: "lk_try_add now 1 b = Inr (B, ok)"
    by (cases "int (length (lk_queue b')) < lc_max_queue_depth (lk_config b')") (auto simp: lk_try_add_def)
  then show ?thesis using 1 2 by (intro that [of B ok]) (auto simp: lk_call_def spent_def admitted_def)
qed

lemma depth_spec:
  assumes "lc_ok cfg" "lk_ok cfg T b" "now \<le> T" "lk_queue_depth now b = Inr (B, n)"
  shows "lk_ok cfg T B \<and> lk_budget cfg T B \<le> lk_budget cfg T b"
proof -
  obtain b' where "lk_drain now b = Inr b'" "lk_ok cfg T b'" "lk_budget cfg T b' \<le> lk_budget cfg T b"
    using lk_drain_spec [OF assms(1-3)] .
  then show ?thesis using assms(4) by (auto simp: lk_queue_depth_def)
qed

definition leaky_gate :: "leaky_bucket_config \<Rightarrow> real \<Rightarrow> limits \<Rightarrow> bool" where
  "leaky_gate cfg T l = (case l of (p, tb, lk, ws, fx) \<Rightarrow>
     rl_algorithm p = ''leaky_bucket'' \<and> lc_ok cfg \<and> lk_ok cfg T lk)"

lemma leaky_courses:
  assumes "evaluate_leaky r (st, q, b) = ((st', q', b'), d)"
    and "lk_try_add (rr_now r) 1 (po_leaky_bucket st) = Inr (B, ok)"
  shows "approval d = ok \<and> (po_leaky_bucket st' = B \<or>
    (\<exists>n. lk_queue_depth (rr_now r) B = Inr (po_leaky_bucket st', n)))"
  using assms by (auto simp: evaluate_leaky_def approval_def Let_def split: if_splits sum.splits prod.splits)

interpretation drains: gated "\<lambda>now. now \<le> T" "leaky_gate cfg T" "\<lambda>(p, tb, lk, ws, fx). lk_budget cfg T lk" for cfg T
proof unfold_locales
  fix l assume "leaky_gate cfg T l"
  then show "0 \<le> (case l of (p, tb, lk, ws, fx) \<Rightarrow> lk_budget cfg T lk)"
    using lk.budget_nonneg by (auto simp: leaky_gate_def)
next
  fix st :: policy_state and r :: rate_request and q b st' q' b' d
  assume g: "leaky_gate cfg T (limits_of st)" and now: "rr_now r \<le> T"
    and ev: "evaluate_policy r (st, q, b) = ((st', q', b'), d)"
  have p: "lc_ok cfg" "lk_ok cfg T (po_leaky_bucket st)" "rl_algorithm (po_policy st) = ''leaky_bucket''"
    using g by (simp_all add: leaky_gate_def limits_of_def)
  have el: "evaluate_leaky r (st, q, b) = ((st', q', b'), d)" using ev p(3) by (simp add: evaluate_policy_def)
  obtain B ok where c: "lk_try_add (rr_now r) 1 (po_leaky_bucket st) = Inr (B, ok)" "lk_ok cfg T B"
      "lk_budget cfg T B + admitted ok \<le> lk_budget cfg T (po_leaky_bucket st)"
    using add_one [OF p(1,2) now] .
  have "lk_ok cfg T (po_leaky_bucket st') \<and>
      lk_budget cfg T (po_leaky_bucket st') + admitted (approval d) \<le> lk_budget cfg T (po_leaky_bucket st)"
    using leaky_courses [OF el c(1)] depth_spec [OF p(1) c(2) now] c(2,3) by fastforce
  then show "leaky_gate cfg T (limits_of st') \<and>
      (case limits_of st' of (p, tb, lk, ws, fx) \<Rightarrow> lk_budget cfg T lk) + admitted (approval d)
        \<le> (case limits_of st of (p, tb, lk, ws, fx) \<Rightarrow> lk_budget cfg T lk)"
    using p evaluate_keeps_policy [OF ev] by (simp add: leaky_gate_def limits_of_def)
qed

definition minute_window :: "real \<Rightarrow> int \<Rightarrow> rate_window \<Rightarrow> bool" where
  "minute_window a m w \<longleftrightarrow> 0 \<le> m \<and> rw_max_duration w = 60 \<and> rw_max_requests w = m \<and> int (since a w) \<le> m"

definition sliding_gate :: "real \<Rightarrow> int \<Rightarrow> limits \<Rightarrow> bool" where
  "sliding_gate a m l = (case l of (p, tb, lk, ws, fx) \<Rightarrow>
     rl_algorithm p = ''sliding_window'' \<and> (\<exists>w. dict_get ws ''1m'' = Some w \<and> minute_window a m w))"

definition minute_budget :: "real \<Rightarrow> int \<Rightarrow> limits \<Rightarrow> real" where
  "minute_budget a m l = (case l of (p, tb, lk, ws, fx) \<Rightarrow> of_int (m - int (since a (the (dict_get ws ''1m'')))))"

interpretation slides: gated "\<lambda>now. a \<le> now \<and> now \<le> a + 60" "sliding_gate a m" "minute_budget a m" for a m
proof unfold_locales
  fix l assume "sliding_gate a m l"
  then show "0 \<le> minute_budget a m l"
    by (auto simp: sliding_gate_def minute_window_def minute_budget_def)
next
  fix st :: policy_state and r :: rate_request and q b st' q' b' d
  assume g: "sliding_gate a m (limits_of st)" and now: "a \<le> rr_now r \<and> rr_now r \<le> a + 60"
    and ev: "evaluate_policy r (st, q, b) = ((st', q', b'), d)"
  obtain w where w: "dict_get (po_sliding_windows st) ''1m'' = Some w" "minute_window a m w"
      and alg: "rl_algorithm (po_policy st) = ''sliding_window''"
    using g by (auto simp: sliding_gate_def limits_of_def)
  obtain w' ok where a: "rw_admit (rr_now r) w = (w', ok)" by (metis surj_pair)
  have st': "st' = st\<lparr>po_sliding_windows := dict_set (po_sliding_windows st) ''1m'' w'\<rparr>" "approval d = ok"
    using ev alg w(1) a by (auto simp: evaluate_policy_def evaluate_sliding_def approval_def Let_def split: if_splits)
  have "minute_window a m w'" "admitted ok + of_int (m - int (since a w')) \<le> of_int (m - int (since a w))"
    using rw.call_ok [of m w 60 a "rr_now r"] rw.call_pays [of m w 60 a "rr_now r"] w(2) now a
    by (simp_all add: minute_window_def)
  then show "sliding_gate a m (limits_of st') \<and>
      minute_budget a m (limits_of st') + admitted (approval d) \<le> minute_budget a m (limits_of st)"
    using alg w(1) by (simp add: st' sliding_gate_def limits_of_def minute_budget_def)
qed

definition fixed_gate :: "real \<Rightarrow> int \<Rightarrow> limits \<Rightarrow> bool" where
  "fixed_gate d m l = (case l of (p, tb, lk, ws, fx) \<Rightarrow> rl_algorithm p = ''fixed_window'' \<and> fx_ok m d fx)"

interpretation periods: gated "\<lambda>now. a \<le> now \<and> now < a + d" "fixed_gate d m"
  "\<lambda>(p, tb, lk, ws, fx). fx_budget a m fx" for a d m
proof unfold_locales
  fix l assume "fixed_gate d m l"
  then show "0 \<le> (case l of (p, tb, lk, ws, fx) \<Rightarrow> fx_budget a m fx)"
    using fx.budget_nonneg by (auto simp: fixed_gate_def)
next
  fix st :: policy_state and r :: rate_request and q b st' q' b' x
  assume g: "fixed_gate d m (limits_of st)" and now: "a \<le> rr_now r \<and> rr_now r < a + d"
    and ev: "evaluate_policy r (st, q, b) = ((st', q', b'), x)"
  have w: "fx_ok m d (po_fixed_window st)" and alg: "rl_algorithm (po_policy st) = ''fixed_window''"
    using g by (simp_all add: fixed_gate_def limits_of_def)
  obtain w' ok where c: "fx_try_consume (rr_now r) (po_fixed_window st) = (w', ok)" by (metis surj_pair)
  have st': "st' = st\<lparr>po_fixed_window := w'\<rparr>" "approval x = ok"
    using ev alg c by (auto simp: evaluate_policy_def evaluate_fixed_def approval_def Let_def split: if_splits)
  have "fx_ok m d w'" "admitted ok + fx_budget a m w' \<le> fx_budget a m (po_fixed_window st)"
    using fx.call_ok [OF w now] fx.call_pays [OF w now] c by simp_all
  then show "fixed_gate d m (limits_of st') \<and>
      (case limits_of st' of (p, tb, lk, ws, fx) \<Rightarrow> fx_budget a m fx) + admitted (approval x)
        \<le> (case limits_of st of (p, tb, lk, ws, fx) \<Rightarrow> fx_budget a m fx)"
    using alg by (simp add: st' fixed_gate_def limits_of_def)
qed

text \<open>C19: A policy bounds what the whole engine lets through, whatever the other policies are and in
  whichever order they are asked. From any state of a started engine, for any sequence of requests, the
  number of approved requests that an enabled policy matches is at most: for a token bucket without
  bursts, its tokens plus what the elapsed time refills; for a leaky bucket, its free places plus what
  the elapsed time drains; for a sliding window, its limit in any minute (the minute window is used
  whatever duration the policy names); for a fixed window, twice its limit in any span of its length.\<close>

theorem engine_approvals_bounded:
  assumes "en_started e" and "dict_wf (en_policies e)"
    and "dict_get (en_policies e) i = Some st" and "rl_enabled (po_policy st)"
  shows "(rl_algorithm (po_policy st) = ''token_bucket'' \<and> rl_max_burst (po_policy st) \<le> 0 \<and> tc_ok cfg \<and>
       tb_ok cfg T (po_token_bucket st) \<and> list_all (\<lambda>r. rr_now r \<le> T) rs \<longrightarrow>
       sum_list (map admitted (snd (run_calls (gate_call (po_policy st)) rs e))) \<le>
         tb_tokens (po_token_bucket st) +
         (T - tb_last_refill (po_token_bucket st)) * 1000 / tc_refill_interval_ms cfg * tc_refill_rate cfg) \<and>
    (rl_algorithm (po_policy st) = ''leaky_bucket'' \<and> lc_ok lcfg \<and> lk_ok lcfg T (po_leaky_bucket st) \<and>
       list_all (\<lambda>r. rr_now r \<le> T) rs \<longrightarrow>
       sum_list (map admitted (snd (run_calls (gate_call (po_policy st)) rs e))) \<le>
         of_int (lc_max_queue_depth lcfg - int (length (lk_queue (po_leaky_bucket st)))) +
         (T - lk_last_drain (po_leaky_bucket st)) * 1000 / lc_drain_interval_ms lcfg * lc_drain_rate lcfg) \<and>
    (rl_algorithm (po_policy st) = ''sliding_window'' \<and> dict_get (po_sliding_windows st) ''1m'' = Some w \<and>
       rw_max_duration w = 60 \<and> 0 \<le> rw_max_requests w \<and> list_all (\<lambda>t. t < a) (rw_entries w) \<and>
       list_all (\<lambda>r. a \<le> rr_now r \<and> rr_now r \<le> a + 60) rs \<longrightarrow>
       sum_list (map admitted (snd (run_calls (gate_call (po_policy st)) rs e))) \<le> of_int (rw_max_requests w)) \<and>
    (rl_algorithm (po_policy st) = ''fixed_window'' \<and> fx_ok m d (po_fixed_window st) \<and>
       list_all (\<lambda>r. a \<le> rr_now r \<and> rr_now r < a + d) rs \<longrightarrow>
       sum_list (map admitted (snd (run_calls (gate_call (po_policy st)) rs e))) \<le> 2 * of_int m)"
proof -
  have l: "limits_at i e = Some (limits_of st)" using assms(3) by (simp add: limits_at_def)
  have "sum_list (map admitted (snd (run_calls (gate_call (po_policy st)) rs e))) \<le> tb_budget cfg T (po_token_bucket st)"
    if "token_gate cfg T (limits_of st)" and "list_all (\<lambda>r. rr_now r \<le> T) rs"
    using tokens.engine.run_within_budget [of cfg T i "po_policy st" e rs] that assms l
    by (auto simp: tokens.engine_ok_def tokens.engine_budget_def limits_of_def)
  moreover have "sum_list (map admitted (snd (run_calls (gate_call (po_policy st)) rs e))) \<le> lk_budget lcfg T (po_leaky_bucket st)"
    if "leaky_gate lcfg T (limits_of st)" and "list_all (\<lambda>r. rr_now r \<le> T) rs"
    using drains.engine.run_within_budget [of lcfg T i "po_policy st" e rs] that assms l
    by (auto simp: drains.engine_ok_def drains.engine_budget_def limits_of_def)
  moreover have "sum_list (map admitted (snd (run_calls (gate_call (po_policy st)) rs e))) \<le> of_int (rw_max_requests w)"
    if "sliding_gate a (rw_max_requests w) (limits_of st)" and "list_all (\<lambda>r. a \<le> rr_now r \<and> rr_now r \<le> a + 60) rs"
      and "dict_get (po_sliding_windows st) ''1m'' = Some w"
  proof -
    have "slides.engine_ok a (rw_max_requests w) i (po_policy st) e"
      using that(1) assms l by (auto simp: slides.engine_ok_def limits_of_def)
    from slides.engine.run_within_budget [OF this that(2)] show ?thesis
      using that(3) l by (simp add: slides.engine_budget_def limits_of_def minute_budget_def)
  qed
  moreover have "sum_list (map admitted (snd (run_calls (gate_call (po_policy st)) rs e))) \<le> fx_budget a m (po_fixed_window st)"
    if "fixed_gate d m (limits_of st)" and "list_all (\<lambda>r. a \<le> rr_now r \<and> rr_now r < a + d) rs"
  proof -
    have "periods.engine_ok d m i (po_policy st) e"
      using that(1) assms l by (auto simp: periods.engine_ok_def limits_of_def)
    from periods.engine.run_within_budget [OF this that(2)] show ?thesis
      using l by (simp add: periods.engine_budget_def limits_of_def)
  qed
  moreover have "fx_budget a m (po_fixed_window st) \<le> 2 * of_int m" if "fx_ok m d (po_fixed_window st)"
    using that by (auto simp: fx_budget_def fx_ok_def)
  moreover have "since a w = 0" if "list_all (\<lambda>t. t < a) (rw_entries w)"
    using that by (auto simp: since_def list_all_iff filter_empty_conv)
  ultimately show ?thesis
    by (auto simp: token_gate_def leaky_gate_def sliding_gate_def fixed_gate_def limits_of_def
        tb_budget_def lk_budget_def minute_window_def)
qed


end
