(* ===== verification/Rate_Engine_Steps.thy ===== *)
theory Rate_Engine_Steps
  imports Rate_Engine_Laws
begin

text \<open>
  The rate limiter's engine as a state machine: the invariant that ties counters, usage table and
  queues together, the queue that is never served, and the operations on policies.
\<close>

subsection \<open>Queues\<close>

definition queue_ok :: "queue_manager \<Rightarrow> bool" where
  "queue_ok q \<longleftrightarrow> dict_keys (qm_priority_queues q) = queue_levels \<and> qm_wfq_queues q = [] \<and> qm_rr_queues q = [] \<and>
     qm_total_dequeued q = 0 \<and> qm_total_depth q = qm_total_queued q"

lemma queue_ok_init [simp]: "queue_ok qm_init"
  by (simp add: queue_ok_def qm_init_def queue_levels_def qm_total_depth_def qm_queues_def)

lemma length_sum_append:
  "dict_get d k = Some xs \<Longrightarrow>
   sum_list (map length (dict_values (dict_set d k (xs @ [x])))) = Suc (sum_list (map length (dict_values d)))"
  by (induction d) auto

lemma keys_dict_set_present: "dict_get d k = Some v \<Longrightarrow> map fst (dict_set d k w) = map fst d"
  by (induction d) auto

lemma enqueue_priority:
  assumes "qm_enqueue ''priority'' g x q = Inr q'"
  shows "\<exists>xs. dict_get (qm_priority_queues q) (re_priority x) = Some xs \<and>
    q' = q\<lparr>qm_priority_queues := dict_set (qm_priority_queues q) (re_priority x) (xs @ [x]),
           qm_total_queued := qm_total_queued q + 1\<rparr>"
  using assms by (auto simp: qm_enqueue_def put_priority_def Let_def split: option.splits)

lemma enqueue_ok:
  assumes "qm_enqueue ''priority'' g x q = Inr q'" and "queue_ok q"
  shows "queue_ok q' \<and> qm_total_depth q' = qm_total_depth q + 1 \<and> re_priority x \<noteq> BACKGROUND"
proof -
  obtain xs where xs: "dict_get (qm_priority_queues q) (re_priority x) = Some xs"
      and q': "q' = q\<lparr>qm_priority_queues := dict_set (qm_priority_queues q) (re_priority x) (xs @ [x]),
           qm_total_queued := qm_total_queued q + 1\<rparr>"
    using enqueue_priority [OF assms(1)] by blast
  have d: "qm_total_depth q' = qm_total_depth q + 1"
    using length_sum_append [OF xs] assms(2) by (simp add: q' qm_total_depth_def qm_queues_def queue_ok_def)
  have "re_priority x \<in> set (dict_keys (qm_priority_queues q))"
    using xs by (force dest: map_of_SomeD)
  then have "re_priority x \<noteq> BACKGROUND" using assms(2) by (auto simp: queue_ok_def queue_levels_def)
  then show ?thesis using d assms(2) keys_dict_set_present [OF xs] by (simp add: queue_ok_def q')
qed

lemma enqueue_moves: "qm_enqueue ''priority'' g x q = Inr q' \<Longrightarrow> q' \<noteq> q"
  using enqueue_priority [of g x q q'] by (auto dest!: arg_cong [of _ _ qm_total_queued])

lemma room_same: "po_policy st' = po_policy st \<Longrightarrow> room_to_queue st' q = room_to_queue st q"
  by (simp add: room_to_queue_def)

text \<open>Evaluating a policy leaves the queues alone or puts the request in; the decision says which.\<close>

lemma policy_queue:
  assumes ev: "evaluate_policy r (st, q, b) = ((st', q', b'), d)"
  shows "q' = q \<and> (\<forall>x. d = Inr x \<longrightarrow> \<not> rd_queued x) \<or>
    room_to_queue st q \<and> qm_enqueue ''priority'' [] (request_entry r) q = Inr q' \<and>
      (\<forall>x. d = Inr x \<longrightarrow> rd_queued x \<and> \<not> rd_approved x)"
proof (cases "rl_algorithm (po_policy st) = ''token_bucket''")
  case True
  then have "evaluate_token r (st, q, b) = ((st', q', b'), d)" using ev by (simp add: evaluate_policy_def)
  then show ?thesis
  proof (cases rule: token_cases)
    case (refuse B st1)
    have "room_to_queue st1 q = room_to_queue st q"
      using refuse(2) by (auto intro!: room_same dest!: try_burst_state)
    then show ?thesis using refuse(3,4) enqueue_moves by auto
  qed auto
next
  case False
  then show ?thesis using ev
    by (auto simp: evaluate_policy_def evaluate_leaky_def evaluate_sliding_def evaluate_fixed_def Let_def room_to_queue_def
        split: sum.splits prod.splits option.splits if_splits)
qed

subsection \<open>Counters\<close>

lemma token_keeps_counts:
  assumes "evaluate_token r (st, q, b) = ((st', q', b'), d)"
  shows "po_approved_count st' = po_approved_count st \<and> po_request_count st' = po_request_count st"
  using assms
proof (cases rule: token_cases)
  case (burst B st1)
  then show ?thesis by (auto dest!: bucket_retry_state try_burst_state)
next
  case (refuse B st1)
  then show ?thesis by (auto dest!: bucket_retry_state try_burst_state)
qed simp_all

lemma evaluate_keeps_counts:
  assumes "evaluate_policy r (st, q, b) = ((st', q', b'), d)"
  shows "po_approved_count st' = po_approved_count st \<and> po_request_count st' = po_request_count st"
  using assms token_keeps_counts [of r st q b st' q' b' d]
  by (auto simp: evaluate_policy_def evaluate_leaky_def evaluate_sliding_def evaluate_fixed_def Let_def
      split: sum.splits prod.splits option.splits if_splits)

definition policies_ok :: "rate_engine \<Rightarrow> bool" where
  "policies_ok e \<longleftrightarrow> dict_wf (en_policies e) \<and>
     (\<forall>i st. dict_get (en_policies e) i = Some st \<longrightarrow>
        rl_id (po_policy st) = i \<and> po_approved_count st = po_request_count st)"

definition usage_ok :: "rate_engine \<Rightarrow> bool" where
  "usage_ok e \<longleftrightarrow>
     (\<forall>k u. dict_get (en_usage e) k = Some u \<longrightarrow>
        k = usage_key (qu_scope u) (qu_scope_id u) \<and> qu_approved_count u = 0 \<and>
        0 \<le> qu_rejected_count u \<and> 0 \<le> qu_queued_count u \<and>
        qu_request_count u = qu_rejected_count u + qu_queued_count u)"

definition totals :: "rate_engine \<Rightarrow> int \<times> int \<times> int \<times> int" where
  "totals e = (en_total_requests e, en_total_approved e, en_total_rejected e, en_total_queued e)"

lemma totals_set [simp]:
  "totals (e\<lparr>en_total_queued := n\<rparr>) = (case totals e of (a, b, c, d) \<Rightarrow> (a, b, c, n))"
  "totals (e\<lparr>en_total_rejected := n\<rparr>) = (case totals e of (a, b, c, d) \<Rightarrow> (a, b, n, d))"
  "totals (e\<lparr>en_total_delayed := n\<rparr>) = totals e"
  by (simp_all add: totals_def)

lemma upd_state_parts [simp]:
  "totals (upd_state i f e) = totals e" "en_queue_manager (upd_state i f e) = en_queue_manager e"
  "en_usage (upd_state i f e) = en_usage e"
  by (auto simp: upd_state_def totals_def split: option.splits)

lemma publish_parts [simp]:
  "totals (en_publish ev e) = totals e" "en_queue_manager (en_publish ev e) = en_queue_manager e"
  "en_usage (en_publish ev e) = en_usage e"
  "totals (publish_rejected p d e) = totals e" "en_queue_manager (publish_rejected p d e) = en_queue_manager e"
  "en_usage (publish_rejected p d e) = en_usage e"
  by (simp_all add: en_publish_def publish_rejected_def totals_def Let_def)

lemma usage_parts [simp]:
  "totals (update_usage a now p e) = totals e" "en_queue_manager (update_usage a now p e) = en_queue_manager e"
  by (simp_all add: update_usage_def totals_def Let_def)

lemma work_parts [simp]:
  "totals (put_work i pw e) = totals e" "en_queue_manager (put_work i pw e) = fst (snd pw)"
  "en_usage (put_work i pw e) = en_usage e"
  by (auto simp: put_work_def totals_def split: prod.splits)

lemma policies_upd_state:
  assumes "policies_ok e"
    and "\<And>st. rl_id (po_policy (f st)) = rl_id (po_policy st)"
    and "\<And>st. po_approved_count st = po_request_count st \<Longrightarrow> po_approved_count (f st) = po_request_count (f st)"
  shows "policies_ok (upd_state i f e)"
  using assms unfolding policies_ok_def upd_state_def
  by (auto simp del: map_of_eq_Some_iff split: option.splits if_splits)

lemma policies_ok_cong: "en_policies e' = en_policies e \<Longrightarrow> policies_ok e' = policies_ok e"
  by (simp add: policies_ok_def)

lemma usage_ok_cong: "en_usage e' = en_usage e \<Longrightarrow> usage_ok e' = usage_ok e"
  by (simp add: usage_ok_def)

lemma usage_ok_update:
  assumes "usage_ok e" and "a = ''queued'' \<or> a = ''rejected''"
  shows "usage_ok (update_usage a now p e)"
  using assms unfolding usage_ok_def update_usage_def Let_def
  by (auto split: if_splits option.splits)

lemma settle_parts:
  assumes "settle r i p d e = (e', o1)" and "policies_ok e" and "usage_ok e"
  shows "policies_ok e' \<and> usage_ok e' \<and> en_queue_manager e' = en_queue_manager e \<and>
    totals e' = (en_total_requests e, en_total_approved e,
       en_total_rejected e + (if \<not> rd_queued d \<and> \<not> rd_approved d then 1 else 0),
       en_total_queued e + (if rd_queued d then 1 else 0))"
proof -
  have eqs: "policies_ok (e\<lparr>en_total_queued := n\<rparr>) = policies_ok e" "policies_ok (e\<lparr>en_total_delayed := n\<rparr>) = policies_ok e"
    "policies_ok (e\<lparr>en_total_rejected := n\<rparr>) = policies_ok e" "usage_ok (e\<lparr>en_total_queued := n\<rparr>) = usage_ok e"
    "usage_ok (e\<lparr>en_total_delayed := n\<rparr>) = usage_ok e" "usage_ok (e\<lparr>en_total_rejected := n\<rparr>) = usage_ok e"
    "policies_ok (update_usage a now p e) = policies_ok e" "policies_ok (publish_rejected p d e) = policies_ok e"
    "usage_ok (publish_rejected p d e) = usage_ok e" "usage_ok (upd_state i f e) = usage_ok e"
    for n a now d f e by (simp_all add: policies_ok_def usage_ok_def)
  define e2 where "e2 = (if rd_delayed d
      then upd_state i (\<lambda>st. st\<lparr>po_delayed_count := po_delayed_count st + 1\<rparr>) (e\<lparr>en_total_delayed := en_total_delayed e + 1\<rparr>)
      else e)"
  have e2: "policies_ok e2" "usage_ok e2" "totals e2 = totals e" "en_queue_manager e2 = en_queue_manager e"
    using assms(2,3) unfolding e2_def by (auto simp: eqs intro!: policies_upd_state)
  have r2: "en_total_rejected e2 = en_total_rejected e" using e2(3) by (simp add: totals_def)
  have q: "policies_ok (upd_state i (\<lambda>st. st\<lparr>po_queued_count := po_queued_count st + 1\<rparr>) (e\<lparr>en_total_queued := en_total_queued e + 1\<rparr>))"
    using assms(2) by (intro policies_upd_state) (simp_all add: eqs)
  note se = assms(1) [unfolded settle_def Let_def, folded e2_def]
  show ?thesis
  proof (cases "rd_queued d")
    case True
    then show ?thesis using se q assms(3) by (auto simp: eqs usage_ok_update totals_def [of e])
  next
    case False
    then show ?thesis using se e2 by (auto simp: eqs usage_ok_update r2 totals_def [of e] split: if_splits)
  qed
qed

lemma work_ok:
  assumes "dict_get (en_policies e) i = Some st" and "policies_ok e" and "usage_ok e"
    and "evaluate_policy r (st, en_queue_manager e, en_burst_detected e) = (pw, d)"
  shows "policies_ok (put_work i pw e) \<and> usage_ok (put_work i pw e)"
proof -
  obtain st' q' b' where pw: "pw = (st', q', b')" by (cases pw)
  have "po_policy st' = po_policy st" and "po_approved_count st' = po_approved_count st \<and> po_request_count st' = po_request_count st"
    using evaluate_keeps_policy evaluate_keeps_counts assms(4) by (simp_all add: pw)
  then have "policies_ok (put_work i pw e)"
    using assms(1,2) unfolding policies_ok_def by (auto simp: pw put_work_def simp del: map_of_eq_Some_iff split: if_splits)
  then show ?thesis using assms(3) by (simp add: usage_ok_def)
qed

definition refusal :: "rate_limit_decision option result \<Rightarrow> int" where
  "refusal res = (case res of Inr (Some _) \<Rightarrow> 1 | _ \<Rightarrow> 0)"

lemma loop_inv:
  assumes "evaluate_loop r is e = (e', res)" and "policies_ok e" and "usage_ok e" and "queue_ok (en_queue_manager e)"
  shows "policies_ok e' \<and> usage_ok e' \<and> queue_ok (en_queue_manager e') \<and>
    en_total_requests e' = en_total_requests e \<and> en_total_approved e' = en_total_approved e \<and>
    en_total_rejected e \<le> en_total_rejected e' \<and> en_total_queued e \<le> en_total_queued e' \<and>
    en_total_rejected e' + en_total_queued e' = en_total_rejected e + en_total_queued e + refusal res \<and>
    en_total_queued e' + qm_total_depth (en_queue_manager e) \<le> en_total_queued e + qm_total_depth (en_queue_manager e')"
  using assms
proof (induction "is" arbitrary: e)
  case Nil
  then show ?case by (auto simp: refusal_def)
next
  case (Cons j js)
  have work: "queue_ok (fst (snd pw)) \<and>
      qm_total_depth (fst (snd pw)) = qm_total_depth (en_queue_manager e) + (if fst (snd pw) = en_queue_manager e then 0 else 1) \<and>
      (\<forall>x. d = Inr x \<longrightarrow> rd_queued x \<longrightarrow> fst (snd pw) \<noteq> en_queue_manager e) \<and>
      (\<forall>x. d = Inr x \<longrightarrow> rd_queued x \<longrightarrow> \<not> rd_approved x)"
    if "evaluate_policy r (st, en_queue_manager e, en_burst_detected e) = (pw, d)" for st pw d
  proof -
    obtain st' q' b' where pw: "pw = (st', q', b')" by (cases pw)
    show ?thesis using policy_queue [OF that [unfolded pw]] enqueue_ok [of "[]" "request_entry r" "en_queue_manager e" q']
        enqueue_moves [of "[]" "request_entry r" "en_queue_manager e" q'] Cons.prems(4)
      by (auto simp: pw)
  qed
  from Cons.prems(1) show ?case
  proof (cases rule: loop_cases)
    case skip
    then show ?thesis using Cons.IH [OF skip(1) Cons.prems(2-4)] by simp
  next
    case (error st pw err)
    then show ?thesis using work [OF error(3)] work_ok [OF error(1) Cons.prems(2,3) error(3)]
      by (auto simp: refusal_def put_work_def split: prod.splits)
  next
    case (final st pw d x)
    note w = work [OF final(3)]
    have "rd_queued d \<or> \<not> rd_approved d"
      using settle_None [of r j "po_policy st" d "put_work j pw e"] final(4) by auto
    moreover have "totals (put_work j pw e) = totals e" by simp
    ultimately show ?thesis using settle_parts [OF final(4)] work_ok [OF final(1) Cons.prems(2,3) final(3)] w final(5)
      by (auto simp: totals_def refusal_def split: if_splits)
  next
    case (step st pw d e1)
    note w = work [OF step(3)]
    have n: "\<not> rd_queued d" "rd_approved d"
      using settle_None [of r j "po_policy st" d "put_work j pw e"] step(4) by auto
    have p: "policies_ok e1 \<and> usage_ok e1 \<and> en_queue_manager e1 = fst (snd pw) \<and> totals e1 = totals e"
      using settle_parts [OF step(4)] work_ok [OF step(1) Cons.prems(2,3) step(3)] n
      by (auto simp: totals_def put_work_def split: prod.splits)
    then show ?thesis using Cons.IH [OF step(5)] w by (auto simp: totals_def split: if_splits)
  qed
qed

text \<open>The invariant of the engine.\<close>

definition rate_engine_inv :: "rate_engine \<Rightarrow> bool" where
  "rate_engine_inv e \<longleftrightarrow> policies_ok e \<and> usage_ok e \<and> queue_ok (en_queue_manager e) \<and>
     0 \<le> en_total_approved e \<and> 0 \<le> en_total_rejected e \<and> 0 \<le> en_total_queued e \<and>
     en_total_approved e + en_total_rejected e + en_total_queued e \<le> en_total_requests e \<and>
     en_total_queued e \<le> qm_total_depth (en_queue_manager e)"

lemma approve_all_ok:
  assumes "policies_ok e"
  shows "policies_ok (approve_all is e)" "usage_ok (approve_all is e) = usage_ok e"
    "en_queue_manager (approve_all is e) = en_queue_manager e"
    "totals (approve_all is e) = (en_total_requests e, en_total_approved e + 1, en_total_rejected e, en_total_queued e)"
proof -
  let ?f = "\<lambda>i. upd_state i (\<lambda>st. st\<lparr>po_approved_count := po_approved_count st + 1, po_request_count := po_request_count st + 1\<rparr>)"
  have a: "policies_ok e \<Longrightarrow> policies_ok (fold ?f is e)" for e
  proof (induction "is" arbitrary: e)
    case (Cons j js)
    have "policies_ok (?f j e)" using Cons.prems by (rule policies_upd_state) simp_all
    then show ?case using Cons.IH by simp
  qed simp
  have b: "en_usage (fold ?f is e) = en_usage e \<and> en_queue_manager (fold ?f is e) = en_queue_manager e \<and>
      totals (fold ?f is e) = totals e" for e
    by (induction "is" arbitrary: e) auto
  have "policies_ok (e\<lparr>en_total_approved := n\<rparr>)" for n using assms by (simp add: policies_ok_def)
  then show "policies_ok (approve_all is e)" unfolding approve_all_def by (rule a)
  show "usage_ok (approve_all is e) = usage_ok e" "en_queue_manager (approve_all is e) = en_queue_manager e"
      "totals (approve_all is e) = (en_total_requests e, en_total_approved e + 1, en_total_rejected e, en_total_queued e)"
    using b by (simp_all add: approve_all_def usage_ok_def) (simp add: totals_def)
qed

lemma evaluate_inv:
  assumes inv: "rate_engine_inv e" and ev: "en_evaluate r e = (e', d)"
  shows "rate_engine_inv e' \<and> qm_total_depth (en_queue_manager e) \<le> qm_total_depth (en_queue_manager e')"
proof (cases "en_started e")
  case False
  then show ?thesis using assms by (simp add: en_evaluate_def)
next
  case True
  have c: "policies_ok (counted r e)" "usage_ok (counted r e)" "queue_ok (en_queue_manager (counted r e))"
    using inv by (simp_all add: rate_engine_inv_def policies_ok_def usage_ok_def)
  have t: "en_total_requests (counted r e) = en_total_requests e + 1" "en_total_approved (counted r e) = en_total_approved e"
    "en_total_rejected (counted r e) = en_total_rejected e" "en_total_queued (counted r e) = en_total_queued e"
    by (simp_all add: counted_def)
  from ev True show ?thesis
  proof (cases rule: evaluate_cases)
    case unmatched
    then show ?thesis using inv c t by (simp add: rate_engine_inv_def)
  next
    case (error err)
    then show ?thesis using inv t loop_inv [OF error(1) c] by (auto simp: rate_engine_inv_def refusal_def)
  next
    case (refused x)
    then show ?thesis using inv t loop_inv [OF refused(1) c] by (auto simp: rate_engine_inv_def refusal_def)
  next
    case (approved i js e1 st)
    have l: "policies_ok e1 \<and> usage_ok e1 \<and> queue_ok (en_queue_manager e1) \<and>
      en_total_requests e1 = en_total_requests e + 1 \<and> en_total_approved e1 = en_total_approved e \<and>
      en_total_rejected e1 = en_total_rejected e \<and> en_total_queued e1 = en_total_queued e \<and>
      qm_total_depth (en_queue_manager e) \<le> qm_total_depth (en_queue_manager e1)"
      using loop_inv [OF approved(2) c] t by (auto simp: refusal_def)
    have "totals e' = totals (approve_all (i # js) e1)" "en_queue_manager e' = en_queue_manager e1" "policies_ok e'" "usage_ok e'"
      using l approve_all_ok [of e1 "i # js"] unfolding approved(4)
      by (simp_all add: policies_ok_def usage_ok_def)
    then show ?thesis using l inv approve_all_ok(4) [of e1 "i # js"] by (auto simp: rate_engine_inv_def totals_def)
  next
    case (gone i js e1)
    then show ?thesis using inv t loop_inv [OF gone(2) c] by (auto simp: rate_engine_inv_def refusal_def)
  qed
qed

subsection \<open>Steps\<close>

inductive en_step :: "rate_engine \<Rightarrow> rate_engine \<Rightarrow> bool" where
  step_evaluate: "en_evaluate r e = (e', d) \<Longrightarrow> en_step e e'"
| step_create: "en_step e (fst (en_create_policy now p e))"
| step_update: "en_step e (fst (en_update_policy now p e))"
| step_delete: "en_step e (fst (en_delete_policy i e))"
| step_enable: "en_step e (fst (en_enable_policy now i e))"
| step_disable: "en_step e (fst (en_disable_policy now i e))"
| step_reserve: "en_step e (fst (en_reserve fresh now provider model i n ttl e))"
| step_grant: "en_step e (fst (en_grant now i e))"
| step_release: "en_step e (fst (en_release now i n e))"
| step_rollback: "en_step e (fst (en_rollback now i e))"
| step_consume: "en_step e (fst (en_consume now provider model n e))"
| step_predict: "en_step e (fst (en_predict_retry now provider model e))"
| step_start: "en_step e (en_start now e)"
| step_stop: "en_step e (en_stop e)"
| step_dispose: "en_step e (en_dispose e)"

definition same_books :: "rate_engine \<Rightarrow> rate_engine \<Rightarrow> bool" where
  "same_books e e' \<longleftrightarrow> totals e' = totals e \<and> en_usage e' = en_usage e \<and> en_queue_manager e' = en_queue_manager e"

lemma same_books_inv: "same_books e e' \<Longrightarrow> policies_ok e' \<Longrightarrow> rate_engine_inv e \<Longrightarrow> rate_engine_inv e'"
  by (simp add: same_books_def rate_engine_inv_def totals_def usage_ok_def)

lemma same_books_refl [simp]: "same_books e e"
  by (simp add: same_books_def)

lemma same_books_more [simp]:
  "same_books e (en_publish ev e') = same_books e e'" "same_books e (e'\<lparr>en_policies := ps\<rparr>) = same_books e e'"
  "same_books e (e'\<lparr>en_permit_manager := m\<rparr>) = same_books e e'" "same_books e (upd_state i f e') = same_books e e'"
  "same_books (upd_state i f e) e' = same_books e e'"
  by (simp_all add: same_books_def) (simp_all add: totals_def)

lemma policies_ok_more [simp]:
  "policies_ok (en_publish ev e) = policies_ok e" "policies_ok (e\<lparr>en_permit_manager := m\<rparr>) = policies_ok e"
  by (simp_all add: policies_ok_def)

lemma policies_ok_put:
  "policies_ok e \<Longrightarrow> rl_id (po_policy st) = i \<Longrightarrow> po_approved_count st = po_request_count st \<Longrightarrow>
   policies_ok (e\<lparr>en_policies := dict_set (en_policies e) i st\<rparr>)"
  by (auto simp: policies_ok_def simp del: map_of_eq_Some_iff split: if_splits)

lemma po_init_sel [simp]:
  "po_policy (po_init now p) = p" "po_approved_count (po_init now p) = 0" "po_request_count (po_init now p) = 0"
  by (simp_all add: po_init_def)

lemma policies_ok_get:
  "policies_ok e \<Longrightarrow> dict_get (en_policies e) i = Some st \<Longrightarrow> rl_id (po_policy st) = i \<and> po_approved_count st = po_request_count st"
  by (simp add: policies_ok_def)

lemma crud_books:
  "same_books e (fst (en_create_policy now p e))" "same_books e (fst (en_update_policy now p e))"
  "same_books e (fst (en_delete_policy i e))" "same_books e (fst (switch_policy on now i e))"
  by (simp_all add: en_create_policy_def en_update_policy_def en_delete_policy_def switch_policy_def split: option.splits)

lemma crud_ok:
  assumes "policies_ok e"
  shows "policies_ok (fst (en_create_policy now p e))" "policies_ok (fst (en_update_policy now p e))"
    "policies_ok (fst (en_delete_policy i e))" "policies_ok (fst (switch_policy on now i e))"
proof -
  show "policies_ok (fst (en_create_policy now p e))"
    using assms by (simp add: en_create_policy_def policies_ok_put)
  show "policies_ok (fst (en_update_policy now p e))"
    using assms by (auto simp: en_update_policy_def policies_ok_put split: option.splits)
  show "policies_ok (fst (en_delete_policy i e))"
    using assms by (auto simp: en_delete_policy_def policies_ok_def simp del: map_of_eq_Some_iff split: if_splits)
  show "policies_ok (fst (switch_policy on now i e))"
    using assms policies_ok_get [OF assms] by (auto simp: switch_policy_def policies_ok_put split: option.splits)
qed

lemma permit_ops:
  "same_books e (fst (en_reserve fresh now provider model i n ttl e)) \<and>
     en_policies (fst (en_reserve fresh now provider model i n ttl e)) = en_policies e"
  "same_books e (fst (en_grant now i e)) \<and> en_policies (fst (en_grant now i e)) = en_policies e"
  "same_books e (fst (en_release now i n e)) \<and> en_policies (fst (en_release now i n e)) = en_policies e"
  "same_books e (fst (en_rollback now i e)) \<and> en_policies (fst (en_rollback now i e)) = en_policies e"
  by (auto simp: en_reserve_def en_grant_def en_release_def en_rollback_def Let_def split: option.splits prod.splits)

lemma consume_ops:
  assumes "policies_ok e"
  shows "same_books e (fst (en_consume now provider model n e)) \<and> policies_ok (fst (en_consume now provider model n e))"
proof (cases "List.find (\<lambda>(i, st). rl_enabled (po_policy st) \<and> rl_algorithm (po_policy st) = ''token_bucket'') (en_policies e)")
  case (Some ist)
  obtain i st where pair: "ist = (i, st)" by (cases ist)
  have "(i, st) \<in> set (en_policies e)" using Some by (auto simp: pair find_Some_iff in_set_conv_nth)
  then have "dict_get (en_policies e) i = Some st" using assms by (simp add: policies_ok_def)
  then show ?thesis using Some assms policies_ok_get [OF assms]
    by (auto simp: pair en_consume_def policies_ok_put split: sum.splits prod.splits)
qed (use assms in \<open>simp add: en_consume_def\<close>)

lemma predict_ops:
  assumes "policies_ok e"
  shows "same_books e (fst (predict_loop now is acc e)) \<and> policies_ok (fst (predict_loop now is acc e))"
  using assms
proof (induction now "is" acc e rule: predict_loop.induct)
  case (2 now i "is" drain_rate tokens refill_rate e)
  have "policies_ok (upd_state i (\<lambda>st. st\<lparr>po_token_bucket := b\<rparr>) e)" for b
    using "2.prems" by (rule policies_upd_state) simp_all
  then show ?case using 2 by (auto split: option.splits sum.splits prod.splits)
qed simp

lemma step_inv_depth:
  assumes "en_step e e'" and "rate_engine_inv e"
  shows "rate_engine_inv e' \<and> qm_total_depth (en_queue_manager e) \<le> qm_total_depth (en_queue_manager e')"
proof -
  have ok: "policies_ok e" using assms(2) by (simp add: rate_engine_inv_def)
  have quiet: "rate_engine_inv e'' \<and> qm_total_depth (en_queue_manager e) \<le> qm_total_depth (en_queue_manager e'')"
    if "same_books e e''" and "policies_ok e''" for e''
    using same_books_inv [OF that assms(2)] that(1) by (simp add: same_books_def)
  have keep: "policies_ok e''" if "en_policies e'' = en_policies e" for e''
    using ok that by (simp add: policies_ok_def)
  from assms(1) show ?thesis
  proof (cases rule: en_step.cases)
    case (step_evaluate r d)
    then show ?thesis using evaluate_inv [OF assms(2)] by blast
  next
    case (step_enable now i)
    then show ?thesis using quiet crud_books(4) crud_ok(4) [OF ok] by (simp add: en_enable_policy_def)
  next
    case (step_disable now i)
    then show ?thesis using quiet crud_books(4) crud_ok(4) [OF ok] by (simp add: en_disable_policy_def)
  next
    case (step_predict now provider model)
    have "fst (en_predict_retry now provider model e) = fst (predict_loop now (dict_keys (en_policies e)) (10, 0, 10) e)"
      by (simp add: en_predict_retry_def split: prod.split sum.split)
    then show ?thesis using quiet predict_ops [OF ok] step_predict by metis
  next
    case (step_start now)
    then show ?thesis using quiet keep by (simp add: en_start_def same_books_def totals_def)
  next
    case step_stop
    then show ?thesis using quiet keep by (simp add: en_stop_def same_books_def totals_def)
  next
    case step_dispose
    have "0 \<le> qm_total_depth (en_queue_manager e)" by (simp add: qm_total_depth_def)
    then show ?thesis using assms(2)
      by (simp add: step_dispose en_dispose_def en_stop_def rate_engine_inv_def policies_ok_def usage_ok_def)
  qed (simp_all only: quiet keep permit_ops consume_ops [OF ok] crud_books crud_ok [OF ok])
qed

lemma init_inv: "rate_engine_inv (en_init has_bus)"
  using queue_ok_init
  by (simp add: rate_engine_inv_def en_init_def policies_ok_def usage_ok_def qm_total_depth_def)

interpretation enm: invariant_machine "\<lambda>e. \<exists>has_bus. e = en_init has_bus" en_step rate_engine_inv
  by unfold_locales (auto simp: init_inv dest: step_inv_depth)

lemma steps_depth:
  "en_step\<^sup>*\<^sup>* e e' \<Longrightarrow> rate_engine_inv e \<Longrightarrow>
   rate_engine_inv e' \<and> qm_total_depth (en_queue_manager e) \<le> qm_total_depth (en_queue_manager e')"
proof (induction rule: rtranclp_induct)
  case (step y z)
  then show ?case using step_inv_depth by force
qed simp

subsection \<open>Properties\<close>

lemma loop_queued:
  assumes "evaluate_loop r is e = (e', Inr (Some x))" and "rd_queued x" and "queue_ok (en_queue_manager e)"
  shows "rr_priority r \<noteq> BACKGROUND \<and> qm_total_depth (en_queue_manager e') = qm_total_depth (en_queue_manager e) + 1 \<and>
    (\<exists>i l. limits_at i e = Some l \<and> qm_total_depth (en_queue_manager e) < rl_queue_max_size (fst l))"
  using assms
proof (induction "is" arbitrary: e)
  case (Cons j js)
  from Cons.prems(1) show ?case
  proof (cases rule: loop_cases)
    case skip
    then show ?thesis using Cons.IH [OF skip(1) Cons.prems(2,3)] by simp
  next
    case (final st pw d y)
    obtain st' q' b' where pw: "pw = (st', q', b')" by (cases pw)
    have q: "rd_queued d" using settle_Some [of r j "po_policy st" d "put_work j pw e" y] final(4,5) Cons.prems(2) by simp
    then have room: "room_to_queue st (en_queue_manager e)"
        and en: "qm_enqueue ''priority'' [] (request_entry r) (en_queue_manager e) = Inr q'"
      using policy_queue [OF final(3) [unfolded pw]] by auto
    have "en_queue_manager e' = q'"
      using final(4) q by (auto simp: settle_def pw)
    then show ?thesis using enqueue_ok [OF en Cons.prems(3)] room final(1)
      by (auto simp: request_entry_def room_to_queue_def limits_at_def limits_of_def)
  next
    case (step st pw d e1)
    obtain st' q' b' where pw: "pw = (st', q', b')" by (cases pw)
    have n: "\<not> rd_queued d" "rd_approved d"
      using settle_None [of r j "po_policy st" d "put_work j pw e"] step(4) by auto
    then have q: "q' = en_queue_manager e" using policy_queue [OF step(3) [unfolded pw]] by auto
    have "en_queue_manager (fst (settle r j (po_policy st) d (put_work j pw e))) = q'"
      using n by (simp add: settle_def pw)
    then have q1: "en_queue_manager e1 = en_queue_manager e" using step(4) q by simp
    have lim: "limits_at i e1 = (if i = j then Some (limits_of st') else limits_at i e)" for i
      using limits_settle [of i r j "po_policy st" d "put_work j pw e", unfolded step(4) fst_conv limits_put_work]
      by (simp add: pw)
    obtain i l where r: "rr_priority r \<noteq> BACKGROUND" "qm_total_depth (en_queue_manager e') = qm_total_depth (en_queue_manager e) + 1"
        and l: "limits_at i e1 = Some l" "qm_total_depth (en_queue_manager e) < rl_queue_max_size (fst l)"
      using Cons.IH [OF step(5) Cons.prems(2)] Cons.prems(3) q1 by auto
    have "\<exists>l0. limits_at i e = Some l0 \<and> fst l0 = fst l"
      using lim [of i] l(1) step(1) evaluate_keeps_policy [OF step(3) [unfolded pw]]
      by (cases "i = j") (auto simp: limits_at_def limits_of_def)
    then show ?thesis using r l(2) by (metis (no_types))
  qed auto
qed simp

text \<open>C20: The engine's queue is never served. No operation takes a request out of it, so its length only
  grows, also over a dispose; a request can be queued only while some stored policy's queue limit
  is above the length of the one queue that all policies share, and a background request is never
  queued (there is no queue for that level).\<close>

theorem queued_requests_never_served:
  assumes "reach (\<lambda>e. \<exists>has_bus. e = en_init has_bus) en_step e" and "en_step\<^sup>*\<^sup>* e e'"
  shows "qm_total_depth (en_queue_manager e) \<le> qm_total_depth (en_queue_manager e') \<and>
    (en_evaluate r e' = (e'', Inr x) \<and> rd_queued x \<longrightarrow>
      rr_priority r \<noteq> BACKGROUND \<and>
      qm_total_depth (en_queue_manager e'') = qm_total_depth (en_queue_manager e') + 1 \<and>
      (\<exists>i p. en_get_policy i e' = Some p \<and> qm_total_depth (en_queue_manager e) < rl_queue_max_size p))"
proof -
  have inv: "rate_engine_inv e" by (rule enm.reach_inv [OF assms(1)])
  have d: "rate_engine_inv e'" "qm_total_depth (en_queue_manager e) \<le> qm_total_depth (en_queue_manager e')"
    using steps_depth [OF assms(2) inv] by simp_all
  have "rr_priority r \<noteq> BACKGROUND \<and> qm_total_depth (en_queue_manager e'') = qm_total_depth (en_queue_manager e') + 1 \<and>
      (\<exists>i p. en_get_policy i e' = Some p \<and> qm_total_depth (en_queue_manager e') < rl_queue_max_size p)"
    if ev: "en_evaluate r e' = (e'', Inr x)" and q: "rd_queued x"
  proof -
    have st: "en_started e'" using ev q by (auto simp: en_evaluate_def split: if_splits)
    from ev st show ?thesis
    proof (cases rule: evaluate_cases)
      case (refused y)
      have ok: "queue_ok (en_queue_manager (counted r e'))" using d(1) by (simp add: rate_engine_inv_def)
      show ?thesis using loop_queued [OF refused(1) _ ok] refused(2) q
        by (auto simp: en_get_policy_def limits_at_def limits_of_def)
    qed (use q in auto)
  qed
  then show ?thesis using d(2) by fastforce
qed

text \<open>C21: In every reachable state of the engine the requests counted as approved, rejected or queued are
  among those counted, every queued decision has its entry in the queue, the usage table holds refused
  requests only (its approvals are always zero), and the usage of the global scope without an
  identifier is never found under the key it is asked for.\<close>

theorem engine_books_agree:
  assumes "reach (\<lambda>e. \<exists>has_bus. e = en_init has_bus) en_step e"
  shows "en_total_approved e + en_total_rejected e + en_total_queued e \<le> en_total_requests e \<and>
    0 \<le> en_total_approved e \<and> 0 \<le> en_total_rejected e \<and> 0 \<le> en_total_queued e \<and>
    en_total_queued e \<le> qm_total_depth (en_queue_manager e) \<and>
    (\<forall>k u. dict_get (en_usage e) k = Some u \<longrightarrow>
       qu_approved_count u = 0 \<and> qu_request_count u = qu_rejected_count u + qu_queued_count u) \<and>
    en_quota_state QS_GLOBAL [] e = None"
proof -
  have inv: "rate_engine_inv e" by (rule enm.reach_inv [OF assms])
  have "usage_key s i \<noteq> ''global:''" for s i
    by (cases s) (auto simp: usage_key_def scope_value_def)
  moreover have "k = usage_key (qu_scope u) (qu_scope_id u)" if "dict_get (en_usage e) k = Some u" for k u
    using inv that by (simp add: rate_engine_inv_def usage_ok_def)
  ultimately have "dict_get (en_usage e) ''global:'' \<noteq> Some u" for u by metis
  then have "en_quota_state QS_GLOBAL [] e = None"
    by (cases "dict_get (en_usage e) ''global:''") (auto simp: en_quota_state_def scope_value_def)
  then show ?thesis using inv unfolding rate_engine_inv_def usage_ok_def by blast
qed

text \<open>Policies are read back as they were stored: after creating or updating, looking a policy up gives
  it; after deleting, nothing; the other policies are untouched, and updating or deleting an unknown
  one changes nothing. Switching a policy on or off keeps all its settings but forgets its past: its
  limiters start full, so switching an exhausted policy on grants its whole capacity anew.\<close>

theorem policy_round_trip:
  "en_get_policy (rl_id p) (fst (en_create_policy now p e)) = Some p \<and>
   (en_get_policy (rl_id p) e \<noteq> None \<longrightarrow>
      en_get_policy (rl_id p) (fst (en_update_policy now p e)) = Some p \<and> snd (en_update_policy now p e) = Some p) \<and>
   (en_get_policy (rl_id p) e = None \<longrightarrow> en_update_policy now p e = (e, None)) \<and>
   en_get_policy i (fst (en_delete_policy i e)) = None \<and>
   (snd (en_delete_policy i e) \<longleftrightarrow> en_get_policy i e \<noteq> None) \<and>
   en_delete_policy i (fst (en_delete_policy i e)) = (fst (en_delete_policy i e), False) \<and>
   (en_get_policy i e = Some q \<longrightarrow>
      (\<exists>st. dict_get (en_policies (fst (en_enable_policy now i e))) i = Some st \<and>
         po_policy st = q\<lparr>rl_enabled := True, rl_updated_at := now\<rparr> \<and>
         tb_tokens (po_token_bucket st) = tc_capacity (rl_token_bucket q) \<and>
         lk_queue (po_leaky_bucket st) = [] \<and> fx_count (po_fixed_window st) = 0) \<and>
      en_get_policy i (fst (en_disable_policy now i e)) = Some (q\<lparr>rl_enabled := False, rl_updated_at := now\<rparr>)) \<and>
   (j \<noteq> rl_id p \<and> j \<noteq> i \<longrightarrow>
      en_get_policy j (fst (en_create_policy now p e)) = en_get_policy j e \<and>
      en_get_policy j (fst (en_update_policy now p e)) = en_get_policy j e \<and>
      en_get_policy j (fst (en_delete_policy i e)) = en_get_policy j e \<and>
      en_get_policy j (fst (en_enable_policy now i e)) = en_get_policy j e)"
proof -
  have mem: "k \<in> set (dict_keys (en_policies e)) \<longleftrightarrow> dict_get (en_policies e) k \<noteq> None" for k
    by (simp add: map_of_eq_None_iff)
  have del: "dict_get (en_policies (fst (en_delete_policy i e))) k = (if k = i then None else dict_get (en_policies e) k)" for k
    using mem [of i] by (auto simp: en_delete_policy_def)
  have again: "i \<notin> set (dict_keys (en_policies (fst (en_delete_policy i e))))"
    using del [of i] by (simp add: map_of_eq_None_iff)
  show ?thesis
    using again mem [of i]
    by (auto simp: en_get_policy_def del en_create_policy_def en_update_policy_def en_enable_policy_def en_disable_policy_def
        switch_policy_def po_init_def tb_init_def lk_init_def fx_init_def en_delete_policy_def split: option.splits)
qed

subsection \<open>Witnesses\<close>

definition small_policy :: rate_limit_policy where
  "small_policy = \<lparr>rl_id = ''p'', rl_name = ''one'', rl_description = [], rl_enabled = True, rl_order = 0,
     rl_scope = QS_GLOBAL, rl_scope_id = [], rl_algorithm = ''token_bucket'',
     rl_token_bucket = \<lparr>tc_capacity = 1, tc_refill_rate = 1, tc_refill_interval_ms = 1000, tc_burst_allowance = 0\<rparr>,
     rl_leaky_bucket = \<lparr>lc_drain_rate = 1, lc_drain_interval_ms = 1000, lc_max_queue_depth = 3\<rparr>,
     rl_sliding_window = \<lparr>sw_window_duration_s = 60, sw_max_requests = 2\<rparr>, rl_max_burst = 0,
     rl_queue_max_size = 1, rl_priority = NORMAL, rl_created_at = 0, rl_updated_at = 0\<rparr>"

definition small_request :: "priority_level \<Rightarrow> rate_request" where
  "small_request l = \<lparr>rr_provider = ''openai'', rr_model = ''m'', rr_scope_id = [], rr_priority = l, rr_now = 0, rr_stamp = ''0''\<rparr>"

definition small_engine :: rate_engine where
  "small_engine = en_start 0 (fst (en_create_policy 0 small_policy (en_init False)))"

text \<open>The first request passes, the second is queued, the third rejected; a background request raises.\<close>

lemma small_run:
  "snd (en_evaluate (small_request NORMAL) small_engine) =
     Inr (no_decision\<lparr>rd_approved := True, rd_reason := ''all policies passed'', rd_algorithm := ''token_bucket''\<rparr>)"
  "map_sum id rd_queued (snd (en_evaluate (small_request NORMAL) (fst (en_evaluate (small_request NORMAL) small_engine)))) = Inr True"
  "qm_total_depth (en_queue_manager (fst (en_evaluate (small_request NORMAL) (fst (en_evaluate (small_request NORMAL) small_engine))))) = 1"
  "map_sum id rd_rejected (snd (en_evaluate (small_request NORMAL)
     (fst (en_evaluate (small_request NORMAL) (fst (en_evaluate (small_request NORMAL) small_engine)))))) = Inr True"
  "map_sum id rd_queued (snd (en_evaluate (small_request BACKGROUND) (fst (en_evaluate (small_request NORMAL) small_engine)))) =
     Inl (KeyError ''background'')"
  by code_simp+

lemma small_reach: "reach (\<lambda>e. \<exists>has_bus. e = en_init has_bus) en_step small_engine"
proof -
  let ?r = "reach (\<lambda>e. \<exists>has_bus. e = en_init has_bus) en_step"
  have "?r (en_init False)" by (rule reach_init) blast
  then have "?r (fst (en_create_policy 0 small_policy (en_init False)))" by (rule reach_step) (rule step_create)
  then show ?thesis unfolding small_engine_def by (rule reach_step) (rule step_start)
qed

definition once :: "rate_engine \<Rightarrow> rate_engine" where
  "once e = fst (en_evaluate (small_request NORMAL) e)"

lemma step_once: "en_step e (once e)"
  unfolding once_def by (rule step_evaluate) (rule surjective_pairing)

lemma once_steps: "en_step\<^sup>*\<^sup>* e (once e)" "en_step\<^sup>*\<^sup>* e (once (once e))"
  using step_once by (auto intro: rtranclp.rtrancl_into_rtrancl)

theorem queued_requests_never_served_witness:
  "qm_total_depth (en_queue_manager small_engine) \<le> qm_total_depth (en_queue_manager (once small_engine)) \<and>
   (\<exists>i p. en_get_policy i (once small_engine) = Some p \<and> 0 < rl_queue_max_size p)"
proof -
  obtain e2 x where ev: "en_evaluate (small_request NORMAL) (once small_engine) = (e2, Inr x)" and q: "rd_queued x"
    using small_run(2) by (cases "en_evaluate (small_request NORMAL) (once small_engine)"; cases "snd (en_evaluate (small_request NORMAL) (once small_engine))")
      (auto simp: once_def)
  have "qm_total_depth (en_queue_manager small_engine) = 0" by code_simp
  then show ?thesis
    using queued_requests_never_served [OF small_reach once_steps(1), of "small_request NORMAL" e2 x] ev q by auto
qed

theorem engine_books_agree_witness:
  "en_total_approved (once (once small_engine)) + en_total_queued (once (once small_engine)) \<le> 2 \<and>
   en_quota_state QS_GLOBAL [] (once (once small_engine)) = None \<and>
   map_option qu_queued_count (dict_get (en_usage (once (once small_engine))) ''global'') = Some 1"
proof -
  have r: "reach (\<lambda>e. \<exists>has_bus. e = en_init has_bus) en_step (once (once small_engine))"
    using reach_step [OF reach_step [OF small_reach step_once] step_once] .
  have "en_total_requests (once (once small_engine)) = 2" "en_total_rejected (once (once small_engine)) = 0"
      "map_option qu_queued_count (dict_get (en_usage (once (once small_engine))) ''global'') = Some 1"
    by code_simp+
  then show ?thesis using engine_books_agree [OF r] by auto
qed

theorem policy_round_trip_witness:
  "en_get_policy ''p'' (fst (en_create_policy 0 small_policy (en_init True))) = Some small_policy \<and>
   (\<exists>st. dict_get (en_policies (fst (en_enable_policy 0 ''p'' (once small_engine)))) ''p'' = Some st \<and>
      tb_tokens (po_token_bucket st) = 1) \<and>
   map_option (\<lambda>st. tb_tokens (po_token_bucket st)) (dict_get (en_policies (once small_engine)) ''p'') = Some 0"
proof -
  have p: "en_get_policy ''p'' (once small_engine) = Some small_policy" by code_simp
  have i: "rl_id small_policy = ''p''" and c: "tc_capacity (rl_token_bucket small_policy) = 1" by (simp_all add: small_policy_def)
  have t: "map_option (\<lambda>st. tb_tokens (po_token_bucket st)) (dict_get (en_policies (once small_engine)) ''p'') = Some 0" by code_simp
  have "\<exists>st. dict_get (en_policies (fst (en_enable_policy 0 ''p'' (once small_engine)))) ''p'' = Some st \<and>
      tb_tokens (po_token_bucket st) = tc_capacity (rl_token_bucket small_policy)"
    using policy_round_trip [of small_policy 0 "once small_engine" "''p''" small_policy] p by blast
  then show ?thesis using policy_round_trip [of small_policy 0 "en_init True"] i c t by simp
qed

theorem engine_approvals_bounded_witness:
  "sum_list (map admitted (snd (run_calls (gate_call small_policy) [small_request NORMAL, small_request LOW] small_engine))) \<le> 1"
proof -
  let ?st = "po_init 0 small_policy"
  have e: "en_started small_engine" "dict_wf (en_policies small_engine)" "dict_get (en_policies small_engine) ''p'' = Some ?st"
      "rl_enabled (po_policy ?st)"
    by (simp_all add: small_engine_def en_start_def en_create_policy_def en_publish_def en_init_def small_policy_def)
  show ?thesis
    using engine_approvals_bounded [OF e, of "rl_token_bucket small_policy" 0 "[small_request NORMAL, small_request LOW]"]
    by (simp add: po_init_def tb_init_def small_policy_def small_request_def tc_ok_def tb_ok_def)
qed

end
