(* ===== verification/Omni_Domain.thy ===== *)
theory Omni_Domain
  imports Prelude
begin

text \<open>
  Data of the routing layer (\<open>domain/omniroute.py\<close>): providers, models and requests, the events the
  engines publish, and stable sorting in descending order.
\<close>

subsection \<open>Providers, models, requests\<close>

datatype provider_status = PD_DISCOVERED | PD_REGISTERED | PD_CONNECTED | PD_FAILED | PD_REMOVED

record omni_provider =
  pv_id :: string
  pv_name :: string
  pv_kind :: string
  pv_base_url :: string
  pv_api_key_ref :: string
  pv_enabled :: bool
  pv_capabilities :: "string list"
  pv_models :: "string list"
  pv_latency_ms :: real
  pv_cost_per_1k_input :: real
  pv_cost_per_1k_output :: real
  pv_context_window :: int
  pv_supports_streaming :: bool
  pv_supports_reasoning :: bool
  pv_supports_vision :: bool
  pv_supports_tools :: bool
  pv_status :: provider_status
  pv_priority :: int
  pv_fallback_order :: int
  pv_rate_limit :: int
  pv_version :: string
  pv_healthy :: bool
  pv_last_health_check :: "real option"
  pv_error_message :: string
  pv_metadata :: "(string, pyval) dict"
  pv_created_at :: real
  pv_updated_at :: real

text \<open>The default values of the fields; the identifier and the two times are made when the object is.\<close>

definition new_provider :: "string \<Rightarrow> real \<Rightarrow> omni_provider" where
  "new_provider uid now =
     \<lparr>pv_id = uid, pv_name = [], pv_kind = [], pv_base_url = [], pv_api_key_ref = [], pv_enabled = True,
      pv_capabilities = [], pv_models = [], pv_latency_ms = 0, pv_cost_per_1k_input = 0,
      pv_cost_per_1k_output = 0, pv_context_window = 0, pv_supports_streaming = True,
      pv_supports_reasoning = False, pv_supports_vision = False, pv_supports_tools = False,
      pv_status = PD_DISCOVERED, pv_priority = 0, pv_fallback_order = 0, pv_rate_limit = 0, pv_version = [],
      pv_healthy = False, pv_last_health_check = None, pv_error_message = [], pv_metadata = [],
      pv_created_at = now, pv_updated_at = now\<rparr>"

record omni_model =
  md_id :: string
  md_model_id :: string
  md_provider :: string
  md_provider_id :: string
  md_display_name :: string
  md_model_family :: string
  md_context_window :: int
  md_max_output_tokens :: int
  md_input_cost_per_1k :: real
  md_output_cost_per_1k :: real
  md_capabilities :: "string list"
  md_supports_streaming :: bool
  md_supports_reasoning :: bool
  md_supports_vision :: bool
  md_supports_tools :: bool
  md_is_default :: bool
  md_latency_ms :: real
  md_quality_score :: real
  md_throughput :: real
  md_tokenizer :: string
  md_healthy :: bool
  md_enabled :: bool
  md_tags :: "string list"
  md_version :: string
  md_aliases :: "string list"
  md_input_modalities :: "string list"
  md_output_modalities :: "string list"
  md_discovered_at :: real
  md_metadata :: "(string, pyval) dict"

definition new_model :: "string \<Rightarrow> real \<Rightarrow> omni_model" where
  "new_model uid now =
     \<lparr>md_id = uid, md_model_id = [], md_provider = [], md_provider_id = [], md_display_name = [],
      md_model_family = [], md_context_window = 0, md_max_output_tokens = 4096, md_input_cost_per_1k = 0,
      md_output_cost_per_1k = 0, md_capabilities = [], md_supports_streaming = True,
      md_supports_reasoning = False, md_supports_vision = False, md_supports_tools = False,
      md_is_default = False, md_latency_ms = 0, md_quality_score = 1 / 2, md_throughput = 0,
      md_tokenizer = [], md_healthy = False, md_enabled = True, md_tags = [], md_version = [],
      md_aliases = [], md_input_modalities = [], md_output_modalities = [], md_discovered_at = now,
      md_metadata = []\<rparr>"

record routing_request =
  rq_task_type :: string
  rq_required_capabilities :: "string list"
  rq_preferred_provider :: string
  rq_preferred_model :: string
  rq_budget_limit :: real
  rq_max_latency_ms :: real
  rq_quality_weight :: real
  rq_cost_weight :: real
  rq_latency_weight :: real
  rq_streaming_required :: bool
  rq_vision_required :: bool
  rq_reasoning_required :: bool
  rq_tools_required :: bool
  rq_minimum_context :: int
  rq_workspace :: string
  rq_organization :: string
  rq_agent :: string
  rq_tags :: "string list"
  rq_priority :: int
  rq_source :: string
  rq_request_id :: string
  rq_user_id :: string
  rq_mission_id :: string
  rq_workflow_id :: string

definition new_request :: "string \<Rightarrow> routing_request" where
  "new_request uid =
     \<lparr>rq_task_type = ''chat'', rq_required_capabilities = [], rq_preferred_provider = [],
      rq_preferred_model = [], rq_budget_limit = 0, rq_max_latency_ms = 0, rq_quality_weight = 1,
      rq_cost_weight = 1, rq_latency_weight = 1, rq_streaming_required = False,
      rq_vision_required = False, rq_reasoning_required = False, rq_tools_required = False,
      rq_minimum_context = 0, rq_workspace = [], rq_organization = [], rq_agent = [], rq_tags = [],
      rq_priority = 0, rq_source = ''unknown'', rq_request_id = uid, rq_user_id = [],
      rq_mission_id = [], rq_workflow_id = []\<rparr>"

subsection \<open>Events\<close>

text \<open>A topic with its payload. Timings that are measured while publishing are left out of payloads.\<close>

datatype payload = Txt string | Num real | Flag bool | Texts "string list"

type_synonym omni_event = "string \<times> (string \<times> payload) list"

subsection \<open>Python idioms\<close>

text \<open>\<open>a or b\<close> for the types of the fields: the first value unless it is empty or zero.\<close>

definition list_or :: "'a list \<Rightarrow> 'a list \<Rightarrow> 'a list" where
  "list_or xs ys = (if xs = [] then ys else xs)"

definition num_or :: "'a::zero \<Rightarrow> 'a \<Rightarrow> 'a" where
  "num_or x y = (if x = 0 then y else x)"

lemma list_or_simps [simp]: "list_or [] ys = ys" "xs \<noteq> [] \<Longrightarrow> list_or xs ys = xs" "list_or xs xs = xs"
  by (simp_all add: list_or_def)

lemma num_or_simps [simp]: "num_or 0 y = y" "x \<noteq> 0 \<Longrightarrow> num_or x y = x" "num_or x x = x"
  by (simp_all add: num_or_def)

text \<open>\<open>xs.sort(key=f, reverse=True)\<close>: descending, equal keys in their old order.\<close>

definition sort_desc :: "('a \<Rightarrow> 'b::linordered_ab_group_add) \<Rightarrow> 'a list \<Rightarrow> 'a list" where
  "sort_desc f xs = sort_key (\<lambda>x. - f x) xs"

lemma set_sort_desc [simp]: "set (sort_desc f xs) = set xs"
  by (simp add: sort_desc_def)

lemma length_sort_desc [simp]: "length (sort_desc f xs) = length xs"
  by (simp add: sort_desc_def)

lemma mset_sort_desc [simp]: "mset (sort_desc f xs) = mset xs"
  by (simp add: sort_desc_def)

lemma sort_desc_Nil [simp]: "sort_desc f xs = [] \<longleftrightarrow> xs = []"
  by (metis length_0_conv length_sort_desc)

lemma sorted_sort_desc: "sorted_wrt (\<lambda>x y. f y \<le> f x) (sort_desc f xs)"
proof -
  have "sorted (map (\<lambda>x. - f x) (sort_desc f xs))" by (simp add: sort_desc_def)
  then show ?thesis by (simp add: sorted_map)
qed

lemma hd_sort_desc:
  assumes "x \<in> set xs"
  shows "f x \<le> f (hd (sort_desc f xs))"
proof (cases "sort_desc f xs")
  case (Cons a l)
  then have "x \<in> insert a (set l)" using assms set_sort_desc [of f xs] by simp
  then show ?thesis using sorted_sort_desc [of f xs] Cons by auto
qed (use assms in simp)

lemma sort_desc_stable: "filter (\<lambda>x. f x = k) (sort_desc f xs) = filter (\<lambda>x. f x = k) xs"
  using sort_key_stable [of "\<lambda>x. - f x" "- k" xs] by (simp add: sort_desc_def)

end
