(* ===== verification/Provider_Registry.thy ===== *)
theory Provider_Registry
  imports Omni_Domain
begin

text \<open>
  The provider registry (\<open>core/omniroute/provider_registry.py\<close>): the table of providers with their
  sliding rate buckets. Operations run under the registry's lock; what they publish is recorded in the
  order of the calls when a bus is attached. Every change rebuilds the stored object without passing its
  times on, so both times are those of the last change.
\<close>

subsection \<open>Rate buckets\<close>

record rate_bucket =
  bk_limit :: int
  bk_window_seconds :: real
  bk_tokens :: "real list"

definition new_bucket :: "int \<Rightarrow> rate_bucket" where
  "new_bucket limit = \<lparr>bk_limit = limit, bk_window_seconds = 60, bk_tokens = []\<rparr>"

definition bk_prune :: "real \<Rightarrow> rate_bucket \<Rightarrow> rate_bucket" where
  "bk_prune now b = b\<lparr>bk_tokens := filter (\<lambda>t. t > now - bk_window_seconds b) (bk_tokens b)\<rparr>"

definition bk_consume :: "real \<Rightarrow> int \<Rightarrow> rate_bucket \<Rightarrow> rate_bucket \<times> bool" where
  "bk_consume now weight b =
     (let b = bk_prune now b in
      if int (length (bk_tokens b)) + weight > bk_limit b then (b, False)
      else (b\<lparr>bk_tokens := bk_tokens b @ replicate (nat weight) now\<rparr>, True))"

definition bk_remaining :: "real \<Rightarrow> rate_bucket \<Rightarrow> rate_bucket \<times> int" where
  "bk_remaining now b =
     (let b = bk_prune now b in (b, max 0 (bk_limit b - int (length (bk_tokens b)))))"

subsection \<open>The registry\<close>

record provider_registry =
  pr_has_bus :: bool
  pr_providers :: "(string, omni_provider) dict"
  pr_rate_buckets :: "(string, rate_bucket) dict"
  pr_started :: bool
  pr_events :: "omni_event list"

definition pr_init :: "bool \<Rightarrow> provider_registry" where
  "pr_init has_bus = \<lparr>pr_has_bus = has_bus, pr_providers = [], pr_rate_buckets = [], pr_started = False, pr_events = []\<rparr>"

definition pr_publish :: "omni_event \<Rightarrow> provider_registry \<Rightarrow> provider_registry" where
  "pr_publish ev r = (if pr_has_bus r then r\<lparr>pr_events := pr_events r @ [ev]\<rparr> else r)"

definition pr_start :: "provider_registry \<Rightarrow> provider_registry" where
  "pr_start r = r\<lparr>pr_started := True\<rparr>"

definition pr_stop :: "provider_registry \<Rightarrow> provider_registry" where
  "pr_stop r = r\<lparr>pr_started := False, pr_providers := [], pr_rate_buckets := []\<rparr>"

definition pr_health_check :: "provider_registry \<Rightarrow> string \<times> bool \<times> int" where
  "pr_health_check r =
     (if pr_started r then ''healthy'' else ''stopped'', pr_started r, int (length (pr_providers r)))"

text \<open>Storing an object built without its times.\<close>

definition put_provider :: "real \<Rightarrow> string \<Rightarrow> omni_provider \<Rightarrow> provider_registry \<Rightarrow> provider_registry" where
  "put_provider now k p r =
     r\<lparr>pr_providers := dict_set (pr_providers r) k (p\<lparr>pv_created_at := now, pv_updated_at := now\<rparr>)\<rparr>"

definition pr_register :: "real \<Rightarrow> string \<Rightarrow> omni_provider \<Rightarrow> provider_registry \<Rightarrow> provider_registry \<times> string" where
  "pr_register now fresh p r =
     (let i = list_or (pv_id p) fresh in
      if i \<in> set (dict_keys (pr_providers r)) then (r, i)
      else
        (let r = put_provider now i (p\<lparr>pv_id := i, pv_status := PD_REGISTERED, pv_last_health_check := None,
                                       pv_error_message := []\<rparr>) r;
             r = (if pv_rate_limit p > 0
                  then r\<lparr>pr_rate_buckets := dict_set (pr_rate_buckets r) i (new_bucket (pv_rate_limit p))\<rparr> else r)
         in (pr_publish (''provider.registered'',
               [(''provider_id'', Txt i), (''name'', Txt (pv_name p)), (''kind'', Txt (pv_kind p))]) r, i)))"

definition pr_get :: "string \<Rightarrow> provider_registry \<Rightarrow> omni_provider option" where
  "pr_get i r = dict_get (pr_providers r) i"

definition pr_get_by_name :: "string \<Rightarrow> provider_registry \<Rightarrow> omni_provider option" where
  "pr_get_by_name n r = find (\<lambda>p. pv_name p = n) (dict_values (pr_providers r))"

definition merge_provider :: "omni_provider \<Rightarrow> omni_provider \<Rightarrow> omni_provider" where
  "merge_provider p old =
     p\<lparr>pv_name := list_or (pv_name p) (pv_name old), pv_kind := list_or (pv_kind p) (pv_kind old),
       pv_base_url := list_or (pv_base_url p) (pv_base_url old),
       pv_api_key_ref := list_or (pv_api_key_ref p) (pv_api_key_ref old),
       pv_capabilities := list_or (pv_capabilities p) (pv_capabilities old),
       pv_models := list_or (pv_models p) (pv_models old),
       pv_latency_ms := num_or (pv_latency_ms p) (pv_latency_ms old),
       pv_cost_per_1k_input := num_or (pv_cost_per_1k_input p) (pv_cost_per_1k_input old),
       pv_cost_per_1k_output := num_or (pv_cost_per_1k_output p) (pv_cost_per_1k_output old),
       pv_context_window := num_or (pv_context_window p) (pv_context_window old),
       pv_priority := num_or (pv_priority p) (pv_priority old),
       pv_fallback_order := num_or (pv_fallback_order p) (pv_fallback_order old),
       pv_rate_limit := num_or (pv_rate_limit p) (pv_rate_limit old),
       pv_version := list_or (pv_version p) (pv_version old),
       pv_last_health_check :=
         (case pv_last_health_check p of None \<Rightarrow> pv_last_health_check old | Some t \<Rightarrow> Some t),
       pv_error_message := list_or (pv_error_message p) (pv_error_message old),
       pv_metadata := list_or (pv_metadata p) (pv_metadata old)\<rparr>"

definition pr_update :: "real \<Rightarrow> omni_provider \<Rightarrow> provider_registry \<Rightarrow> provider_registry \<times> omni_provider option" where
  "pr_update now p r =
     (case dict_get (pr_providers r) (pv_id p) of
        None \<Rightarrow> (r, None)
      | Some old \<Rightarrow>
          (let r = put_provider now (pv_id p) (merge_provider p old) r
           in (r, dict_get (pr_providers r) (pv_id p))))"

definition pr_delete :: "string \<Rightarrow> provider_registry \<Rightarrow> provider_registry \<times> bool" where
  "pr_delete i r =
     (if i \<notin> set (dict_keys (pr_providers r)) then (r, False)
      else (pr_publish (''provider.failed'', [(''provider_id'', Txt i), (''reason'', Txt ''deleted'')])
              (r\<lparr>pr_providers := dict_del (pr_providers r) i, pr_rate_buckets := dict_del (pr_rate_buckets r) i\<rparr>),
            True))"

definition has_capability :: "string \<Rightarrow> string list \<Rightarrow> bool" where
  "has_capability cap cs \<longleftrightarrow> py_lower cap \<in> set (map py_lower cs)"

text \<open>An optional filter: no filter when its argument is \<open>None\<close>.\<close>

definition opt_filter :: "'b option \<Rightarrow> ('b \<Rightarrow> 'a \<Rightarrow> bool) \<Rightarrow> 'a list \<Rightarrow> 'a list" where
  "opt_filter v P xs = (case v of None \<Rightarrow> xs | Some b \<Rightarrow> filter (P b) xs)"

definition pr_list_providers ::
  "string option \<Rightarrow> bool \<Rightarrow> bool \<Rightarrow> string option \<Rightarrow> provider_registry \<Rightarrow> omni_provider list" where
  "pr_list_providers kind enabled_only healthy_only capability r =
     opt_filter capability (\<lambda>c p. has_capability c (pv_capabilities p))
       (filter (\<lambda>p. healthy_only \<longrightarrow> pv_healthy p)
         (filter (\<lambda>p. enabled_only \<longrightarrow> pv_enabled p)
           (opt_filter kind (\<lambda>k p. pv_kind p = k) (dict_values (pr_providers r)))))"

definition pr_count :: "provider_registry \<Rightarrow> int" where
  "pr_count r = int (length (pr_providers r))"

definition pr_set_health :: "real \<Rightarrow> string \<Rightarrow> bool \<Rightarrow> string \<Rightarrow> provider_registry \<Rightarrow> provider_registry \<times> bool" where
  "pr_set_health now i healthy err r =
     (case dict_get (pr_providers r) i of
        None \<Rightarrow> (r, False)
      | Some p \<Rightarrow>
          (pr_publish (if healthy then ''provider.health'' else ''provider.failed'',
             [(''provider_id'', Txt i), (''name'', Txt (pv_name p)), (''healthy'', Flag healthy), (''error'', Txt err)])
             (put_provider now i (p\<lparr>pv_status := (if healthy then PD_CONNECTED else PD_FAILED), pv_healthy := healthy,
                                    pv_last_health_check := Some now, pv_error_message := err\<rparr>) r),
           True))"

definition pr_is_healthy :: "string \<Rightarrow> provider_registry \<Rightarrow> bool" where
  "pr_is_healthy i r = (case dict_get (pr_providers r) i of None \<Rightarrow> False | Some p \<Rightarrow> pv_healthy p)"

definition pr_list_unhealthy :: "provider_registry \<Rightarrow> omni_provider list" where
  "pr_list_unhealthy r = filter (\<lambda>p. \<not> pv_healthy p) (dict_values (pr_providers r))"

definition pr_providers_for_capability :: "string \<Rightarrow> provider_registry \<Rightarrow> omni_provider list" where
  "pr_providers_for_capability cap r =
     filter (\<lambda>p. pv_enabled p \<and> has_capability cap (pv_capabilities p)) (dict_values (pr_providers r))"

text \<open>The setters: rebuild a stored provider with one field changed.\<close>

definition change_provider ::
  "real \<Rightarrow> string \<Rightarrow> (omni_provider \<Rightarrow> omni_provider) \<Rightarrow> provider_registry \<Rightarrow> provider_registry \<times> bool" where
  "change_provider now i f r =
     (case dict_get (pr_providers r) i of
        None \<Rightarrow> (r, False)
      | Some p \<Rightarrow> (put_provider now i (f p) r, True))"

definition pr_set_capabilities :: "real \<Rightarrow> string \<Rightarrow> string list \<Rightarrow> provider_registry \<Rightarrow> provider_registry \<times> bool" where
  "pr_set_capabilities now i caps r = change_provider now i (pv_capabilities_update (\<lambda>_. caps)) r"

definition pr_set_cost_metadata ::
  "real \<Rightarrow> string \<Rightarrow> real option \<Rightarrow> real option \<Rightarrow> provider_registry \<Rightarrow> provider_registry \<times> bool" where
  "pr_set_cost_metadata now i cin cout r =
     change_provider now i
       (\<lambda>p. p\<lparr>pv_cost_per_1k_input := (case cin of None \<Rightarrow> pv_cost_per_1k_input p | Some c \<Rightarrow> c),
              pv_cost_per_1k_output := (case cout of None \<Rightarrow> pv_cost_per_1k_output p | Some c \<Rightarrow> c)\<rparr>) r"

definition pr_set_rate_limit :: "real \<Rightarrow> string \<Rightarrow> int \<Rightarrow> provider_registry \<Rightarrow> provider_registry \<times> bool" where
  "pr_set_rate_limit now i limit r =
     (case change_provider now i (pv_rate_limit_update (\<lambda>_. limit)) r of
        (r, False) \<Rightarrow> (r, False)
      | (r, True) \<Rightarrow> (r\<lparr>pr_rate_buckets := dict_set (pr_rate_buckets r) i (new_bucket limit)\<rparr>, True))"

definition pr_consume_rate :: "real \<Rightarrow> string \<Rightarrow> int \<Rightarrow> provider_registry \<Rightarrow> provider_registry \<times> bool" where
  "pr_consume_rate now i weight r =
     (case dict_get (pr_rate_buckets r) i of
        None \<Rightarrow> (r, True)
      | Some b \<Rightarrow>
          (let (b, ok) = bk_consume now weight b
           in (r\<lparr>pr_rate_buckets := dict_set (pr_rate_buckets r) i b\<rparr>, ok)))"

definition pr_rate_limit_remaining :: "real \<Rightarrow> string \<Rightarrow> provider_registry \<Rightarrow> provider_registry \<times> int" where
  "pr_rate_limit_remaining now i r =
     (case dict_get (pr_rate_buckets r) i of
        None \<Rightarrow> (r, -1)
      | Some b \<Rightarrow>
          (let (b, n) = bk_remaining now b
           in (r\<lparr>pr_rate_buckets := dict_set (pr_rate_buckets r) i b\<rparr>, n)))"

subsection \<open>Discovery\<close>

text \<open>A discovered provider: a dictionary with optional entries.\<close>

record found_provider =
  fp_name :: "string option"
  fp_kind :: "string option"
  fp_base_url :: "string option"
  fp_api_key_ref :: "string option"
  fp_enabled :: "bool option"
  fp_capabilities :: "string list option"
  fp_models :: "string list option"
  fp_latency_ms :: "real option"
  fp_cost_per_1k_input :: "real option"
  fp_cost_per_1k_output :: "real option"
  fp_context_window :: "int option"
  fp_supports_streaming :: "bool option"
  fp_supports_reasoning :: "bool option"
  fp_supports_vision :: "bool option"
  fp_supports_tools :: "bool option"
  fp_priority :: "int option"
  fp_fallback_order :: "int option"
  fp_rate_limit :: "int option"
  fp_version :: "string option"

definition opt_or :: "'a option \<Rightarrow> 'a \<Rightarrow> 'a" where
  "opt_or v d = (case v of None \<Rightarrow> d | Some x \<Rightarrow> x)"

lemma opt_or_simps [simp]: "opt_or None d = d" "opt_or (Some x) d = x"
  by (simp_all add: opt_or_def)

definition found_new :: "string \<Rightarrow> real \<Rightarrow> found_provider \<Rightarrow> omni_provider" where
  "found_new uid now e =
     (new_provider uid now)\<lparr>pv_name := opt_or (fp_name e) [], pv_kind := opt_or (fp_kind e) ''unknown'',
       pv_base_url := opt_or (fp_base_url e) [], pv_api_key_ref := opt_or (fp_api_key_ref e) [],
       pv_capabilities := opt_or (fp_capabilities e) [], pv_models := opt_or (fp_models e) [],
       pv_enabled := opt_or (fp_enabled e) True, pv_rate_limit := opt_or (fp_rate_limit e) 0,
       pv_version := opt_or (fp_version e) [], pv_supports_streaming := opt_or (fp_supports_streaming e) False,
       pv_supports_reasoning := opt_or (fp_supports_reasoning e) False,
       pv_supports_vision := opt_or (fp_supports_vision e) False,
       pv_supports_tools := opt_or (fp_supports_tools e) False\<rparr>"

definition found_again :: "found_provider \<Rightarrow> omni_provider \<Rightarrow> omni_provider" where
  "found_again e p =
     p\<lparr>pv_name := opt_or (fp_name e) [], pv_kind := opt_or (fp_kind e) (pv_kind p),
       pv_base_url := opt_or (fp_base_url e) (pv_base_url p),
       pv_api_key_ref := opt_or (fp_api_key_ref e) (pv_api_key_ref p),
       pv_enabled := opt_or (fp_enabled e) (pv_enabled p),
       pv_capabilities := opt_or (fp_capabilities e) (pv_capabilities p),
       pv_models := opt_or (fp_models e) (pv_models p), pv_latency_ms := opt_or (fp_latency_ms e) (pv_latency_ms p),
       pv_cost_per_1k_input := opt_or (fp_cost_per_1k_input e) (pv_cost_per_1k_input p),
       pv_cost_per_1k_output := opt_or (fp_cost_per_1k_output e) (pv_cost_per_1k_output p),
       pv_context_window := opt_or (fp_context_window e) (pv_context_window p),
       pv_supports_streaming := opt_or (fp_supports_streaming e) (pv_supports_streaming p),
       pv_supports_reasoning := opt_or (fp_supports_reasoning e) (pv_supports_reasoning p),
       pv_supports_vision := opt_or (fp_supports_vision e) (pv_supports_vision p),
       pv_supports_tools := opt_or (fp_supports_tools e) (pv_supports_tools p),
       pv_priority := opt_or (fp_priority e) (pv_priority p),
       pv_fallback_order := opt_or (fp_fallback_order e) (pv_fallback_order p),
       pv_rate_limit := opt_or (fp_rate_limit e) (pv_rate_limit p),
       pv_version := opt_or (fp_version e) (pv_version p)\<rparr>"

text \<open>Each entry comes with the identifier made for it; the counts are registered and updated.\<close>

definition sync_one :: "real \<Rightarrow> found_provider \<times> string \<Rightarrow> provider_registry \<times> int \<times> int \<Rightarrow> provider_registry \<times> int \<times> int" where
  "sync_one now x acc =
     (case (x, acc) of ((e, uid), (r, registered, updated)) \<Rightarrow>
        (case pr_get_by_name (opt_or (fp_name e) []) r of
           None \<Rightarrow> (fst (pr_register now uid (found_new uid now e) r), registered + 1, updated)
         | Some p \<Rightarrow> (fst (pr_update now (found_again e p) r), registered, updated + 1)))"

definition pr_sync_from_discovery ::
  "real \<Rightarrow> (found_provider \<times> string) list \<Rightarrow> provider_registry \<Rightarrow> provider_registry \<times> int \<times> int" where
  "pr_sync_from_discovery now es r = fold (sync_one now) es (r, 0, 0)"

end
