(* ===== verification/Model_Registry.thy ===== *)
theory Model_Registry
  imports Provider_Registry "HOL-Library.Product_Lexorder"
begin

text \<open>
  The model registry (\<open>core/omniroute/model_registry.py\<close>). Registration asks the provider registry, if
  one is attached, whether the model's provider exists and is enabled. Operations run under the lock;
  latency totals are left out. As in the provider registry, every change rebuilds the stored object and
  so sets its discovery time anew.
\<close>

record model_registry =
  mr_has_bus :: bool
  mr_models :: "(string, omni_model) dict"
  mr_defaults :: "(string, string) dict"
  mr_started :: bool
  mr_start_time :: real
  mr_registration_count :: int
  mr_search_count :: int
  mr_sync_count :: int
  mr_events :: "omni_event list"

definition mr_init :: "bool \<Rightarrow> model_registry" where
  "mr_init has_bus = \<lparr>mr_has_bus = has_bus, mr_models = [], mr_defaults = [], mr_started = False, mr_start_time = 0,
     mr_registration_count = 0, mr_search_count = 0, mr_sync_count = 0, mr_events = []\<rparr>"

definition mr_publish :: "omni_event \<Rightarrow> model_registry \<Rightarrow> model_registry" where
  "mr_publish ev r = (if mr_has_bus r then r\<lparr>mr_events := mr_events r @ [ev]\<rparr> else r)"

definition mr_start :: "real \<Rightarrow> model_registry \<Rightarrow> model_registry" where
  "mr_start now r = r\<lparr>mr_started := True, mr_start_time := now\<rparr>"

definition mr_stop :: "model_registry \<Rightarrow> model_registry" where
  "mr_stop r = r\<lparr>mr_started := False, mr_models := [], mr_defaults := []\<rparr>"

definition mr_health_check :: "real \<Rightarrow> model_registry \<Rightarrow> string \<times> bool \<times> int \<times> real" where
  "mr_health_check now r =
     (if mr_started r then ''healthy'' else ''stopped'', mr_started r, int (length (mr_models r)),
      if mr_started r then now - mr_start_time r else 0)"

text \<open>Registered, healthy and disabled models, and the counters.\<close>

definition mr_metrics :: "model_registry \<Rightarrow> int \<times> int \<times> int \<times> int \<times> int \<times> int" where
  "mr_metrics r =
     (int (length (mr_models r)), int (length (filter md_healthy (dict_values (mr_models r)))),
      int (length (filter (\<lambda>m. \<not> md_enabled m) (dict_values (mr_models r)))),
      mr_registration_count r, mr_search_count r, mr_sync_count r)"

definition put_model :: "real \<Rightarrow> string \<Rightarrow> omni_model \<Rightarrow> model_registry \<Rightarrow> model_registry" where
  "put_model now k m r = r\<lparr>mr_models := dict_set (mr_models r) k (m\<lparr>md_discovered_at := now\<rparr>)\<rparr>"

subsection \<open>Registration and changes\<close>

definition validate_provider :: "provider_registry \<Rightarrow> string \<Rightarrow> string option" where
  "validate_provider pr i =
     (case pr_get i pr of
        None \<Rightarrow> None
      | Some p \<Rightarrow> if pv_enabled p then Some (pv_name p) else None)"

text \<open>
  The name of the provider, when there is something to validate: an exception stands for a provider
  that is missing or disabled.
\<close>

definition provider_name_for :: "provider_registry option \<Rightarrow> omni_model \<Rightarrow> string option result" where
  "provider_name_for pr m =
     (case pr of
        Some reg \<Rightarrow>
          if md_provider_id m = [] then Inr None
          else (case validate_provider reg (md_provider_id m) of
                  None \<Rightarrow> Inl (ValueError (md_provider_id m))
                | Some n \<Rightarrow> Inr (Some n))
      | None \<Rightarrow> Inr None)"

definition mr_register_model ::
  "provider_registry option \<Rightarrow> real \<Rightarrow> string \<Rightarrow> omni_model \<Rightarrow> model_registry \<Rightarrow> model_registry \<times> string result" where
  "mr_register_model pr now fresh m r =
     (let i = list_or (md_id m) fresh in
      if i \<in> set (dict_keys (mr_models r)) then (r, Inr i)
      else
        (case provider_name_for pr m of
           Inl e \<Rightarrow> (r, Inl e)
         | Inr pn \<Rightarrow>
             (let m' = m\<lparr>md_id := i, md_provider := or_else pn (md_provider m),
                         md_display_name := list_or (md_display_name m) (md_model_id m), md_is_default := False\<rparr>;
                  r = put_model now i m' r;
                  r = r\<lparr>mr_registration_count := mr_registration_count r + 1\<rparr>
              in (mr_publish (''model.registered'',
                    [(''model_id'', Txt i), (''model_name'', Txt (md_model_id m')),
                     (''provider_id'', Txt (md_provider_id m')), (''provider'', Txt (md_provider m'))]) r, Inr i))))"

definition mr_unregister_model :: "string \<Rightarrow> model_registry \<Rightarrow> model_registry \<times> bool" where
  "mr_unregister_model i r =
     (case dict_get (mr_models r) i of
        None \<Rightarrow> (r, False)
      | Some m \<Rightarrow>
          (let r = r\<lparr>mr_models := dict_del (mr_models r) i\<rparr>;
               r = (if dict_get (mr_defaults r) (md_provider_id m) = Some i
                    then r\<lparr>mr_defaults := dict_del (mr_defaults r) (md_provider_id m)\<rparr> else r)
           in (mr_publish (''model.removed'',
                 [(''model_id'', Txt i), (''model_name'', Txt (md_model_id m)),
                  (''provider_id'', Txt (md_provider_id m))]) r, True)))"

definition merge_model :: "omni_model \<Rightarrow> omni_model \<Rightarrow> omni_model" where
  "merge_model m old =
     m\<lparr>md_model_id := list_or (md_model_id m) (md_model_id old),
       md_provider := list_or (md_provider m) (md_provider old),
       md_provider_id := list_or (md_provider_id m) (md_provider_id old),
       md_display_name := list_or (md_display_name m) (md_display_name old),
       md_model_family := list_or (md_model_family m) (md_model_family old),
       md_context_window := num_or (md_context_window m) (md_context_window old),
       md_max_output_tokens := num_or (md_max_output_tokens m) (md_max_output_tokens old),
       md_input_cost_per_1k := num_or (md_input_cost_per_1k m) (md_input_cost_per_1k old),
       md_output_cost_per_1k := num_or (md_output_cost_per_1k m) (md_output_cost_per_1k old),
       md_capabilities := list_or (md_capabilities m) (md_capabilities old),
       md_latency_ms := num_or (md_latency_ms m) (md_latency_ms old),
       md_quality_score := (if md_quality_score m \<noteq> 1 / 2 then md_quality_score m else md_quality_score old),
       md_throughput := num_or (md_throughput m) (md_throughput old),
       md_tokenizer := list_or (md_tokenizer m) (md_tokenizer old),
       md_tags := list_or (md_tags m) (md_tags old), md_version := list_or (md_version m) (md_version old),
       md_aliases := list_or (md_aliases m) (md_aliases old),
       md_input_modalities := list_or (md_input_modalities m) (md_input_modalities old),
       md_output_modalities := list_or (md_output_modalities m) (md_output_modalities old),
       md_metadata := list_or (md_metadata m) (md_metadata old)\<rparr>"

definition mr_update_model :: "real \<Rightarrow> omni_model \<Rightarrow> model_registry \<Rightarrow> model_registry \<times> omni_model option" where
  "mr_update_model now m r =
     (case dict_get (mr_models r) (md_id m) of
        None \<Rightarrow> (r, None)
      | Some old \<Rightarrow>
          (let m' = merge_model m old;
               r = put_model now (md_id m) m' r
           in (mr_publish (''model.updated'',
                 [(''model_id'', Txt (md_id m)), (''model_name'', Txt (md_model_id m')),
                  (''provider_id'', Txt (md_provider_id m'))]) r,
               dict_get (mr_models r) (md_id m))))"

definition mr_get_model :: "string \<Rightarrow> model_registry \<Rightarrow> omni_model option" where
  "mr_get_model i r = dict_get (mr_models r) i"

definition mr_get_model_by_name :: "string \<Rightarrow> model_registry \<Rightarrow> omni_model option" where
  "mr_get_model_by_name n r =
     find (\<lambda>m. md_display_name m = n \<or> md_model_id m = n \<or> n \<in> set (md_aliases m)) (dict_values (mr_models r))"

definition mr_set_model_health :: "real \<Rightarrow> string \<Rightarrow> bool \<Rightarrow> string \<Rightarrow> model_registry \<Rightarrow> model_registry \<times> bool" where
  "mr_set_model_health now i healthy err r =
     (case dict_get (mr_models r) i of
        None \<Rightarrow> (r, False)
      | Some m \<Rightarrow>
          (mr_publish (''model.health'',
             [(''model_id'', Txt i), (''model_name'', Txt (md_model_id m)), (''healthy'', Flag healthy), (''error'', Txt err)])
             (put_model now i (m\<lparr>md_healthy := healthy\<rparr>) r), True))"

definition mr_count :: "model_registry \<Rightarrow> int" where
  "mr_count r = int (length (mr_models r))"

subsection \<open>Default models\<close>

definition mr_default_model :: "string \<Rightarrow> model_registry \<Rightarrow> omni_model option" where
  "mr_default_model pid r =
     (case dict_get (mr_defaults r) pid of
        None \<Rightarrow> find (\<lambda>m. md_provider_id m = pid \<and> md_is_default m) (dict_values (mr_models r))
      | Some i \<Rightarrow> dict_get (mr_models r) i)"

definition mr_set_default :: "real \<Rightarrow> string \<Rightarrow> model_registry \<Rightarrow> model_registry \<times> bool" where
  "mr_set_default now i r =
     (case dict_get (mr_models r) i of
        None \<Rightarrow> (r, False)
      | Some m \<Rightarrow>
          (let pid = md_provider_id m;
               r = (case dict_get (mr_defaults r) pid of
                      None \<Rightarrow> r
                    | Some old \<Rightarrow>
                        if old \<noteq> [] \<and> old \<noteq> i then
                          (case dict_get (mr_models r) old of
                             None \<Rightarrow> r
                           | Some om \<Rightarrow> put_model now old (om\<lparr>md_is_default := False\<rparr>) r)
                        else r);
               r = put_model now i (m\<lparr>md_is_default := True\<rparr>) r;
               r = r\<lparr>mr_defaults := dict_set (mr_defaults r) pid i\<rparr>
           in (mr_publish (''model.default_changed'',
                 [(''model_id'', Txt i), (''model_name'', Txt (md_model_id m)), (''provider_id'', Txt pid)]) r, True)))"

subsection \<open>Lists and search\<close>

definition of_provider :: "string \<Rightarrow> omni_model \<Rightarrow> bool" where
  "of_provider p m \<longleftrightarrow> md_provider_id m = p \<or> md_provider m = p"

definition mr_list_models ::
  "string option \<Rightarrow> string option \<Rightarrow> string option \<Rightarrow> bool \<Rightarrow> bool \<Rightarrow> model_registry \<Rightarrow> omni_model list" where
  "mr_list_models provider family capability enabled_only healthy_only r =
     filter (\<lambda>m. healthy_only \<longrightarrow> md_healthy m)
       (filter (\<lambda>m. enabled_only \<longrightarrow> md_enabled m)
         (opt_filter capability (\<lambda>c m. has_capability c (md_capabilities m))
           (opt_filter family (\<lambda>f m. md_model_family m = f)
             (opt_filter provider of_provider (dict_values (mr_models r))))))"

definition mr_list_by_provider :: "string \<Rightarrow> model_registry \<Rightarrow> omni_model list" where
  "mr_list_by_provider i r = mr_list_models (Some i) None None False False r"

definition mr_list_by_capability :: "string \<Rightarrow> model_registry \<Rightarrow> omni_model list" where
  "mr_list_by_capability c r = mr_list_models None None (Some c) False False r"

record model_query =
  mq_provider :: "string option"
  mq_family :: "string option"
  mq_capability :: "string option"
  mq_min_context :: "int option"
  mq_max_cost_input :: "real option"
  mq_max_cost_output :: "real option"
  mq_max_latency_ms :: "real option"
  mq_min_quality :: "real option"
  mq_enabled_only :: bool
  mq_healthy_only :: bool
  mq_supports_streaming :: "bool option"
  mq_supports_reasoning :: "bool option"
  mq_supports_vision :: "bool option"
  mq_supports_tools :: "bool option"
  mq_tag :: "string option"
  mq_modality :: "string option"
  mq_limit :: int

definition new_query :: model_query where
  "new_query = \<lparr>mq_provider = None, mq_family = None, mq_capability = None, mq_min_context = None,
     mq_max_cost_input = None, mq_max_cost_output = None, mq_max_latency_ms = None, mq_min_quality = None,
     mq_enabled_only = True, mq_healthy_only = False, mq_supports_streaming = None,
     mq_supports_reasoning = None, mq_supports_vision = None, mq_supports_tools = None, mq_tag = None,
     mq_modality = None, mq_limit = 50\<rparr>"

definition has_modality :: "string \<Rightarrow> omni_model \<Rightarrow> bool" where
  "has_modality x m \<longleftrightarrow>
     py_lower x \<in> set (map py_lower (md_input_modalities m)) \<or> py_lower x \<in> set (map py_lower (md_output_modalities m))"

text \<open>The filters of a search, one after the other in the order of the code.\<close>

definition search_filters :: "model_query \<Rightarrow> omni_model list \<Rightarrow> omni_model list" where
  "search_filters q ms =
     (let ms = opt_filter (mq_provider q) of_provider ms;
          ms = opt_filter (mq_family q) (\<lambda>f m. md_model_family m = f) ms;
          ms = opt_filter (mq_capability q) (\<lambda>c m. has_capability c (md_capabilities m)) ms;
          ms = opt_filter (mq_min_context q) (\<lambda>c m. md_context_window m \<ge> c) ms;
          ms = opt_filter (mq_max_cost_input q) (\<lambda>c m. md_input_cost_per_1k m \<le> c \<or> md_input_cost_per_1k m = 0) ms;
          ms = opt_filter (mq_max_cost_output q) (\<lambda>c m. md_output_cost_per_1k m \<le> c \<or> md_output_cost_per_1k m = 0) ms;
          ms = opt_filter (mq_max_latency_ms q) (\<lambda>c m. md_latency_ms m \<le> c \<or> md_latency_ms m = 0) ms;
          ms = opt_filter (mq_min_quality q) (\<lambda>c m. md_quality_score m \<ge> c) ms;
          ms = (if mq_enabled_only q then filter md_enabled ms else ms);
          ms = (if mq_healthy_only q then filter md_healthy ms else ms);
          ms = opt_filter (mq_supports_streaming q) (\<lambda>b m. md_supports_streaming m = b) ms;
          ms = opt_filter (mq_supports_reasoning q) (\<lambda>b m. md_supports_reasoning m = b) ms;
          ms = opt_filter (mq_supports_vision q) (\<lambda>b m. md_supports_vision m = b) ms;
          ms = opt_filter (mq_supports_tools q) (\<lambda>b m. md_supports_tools m = b) ms;
          ms = opt_filter (mq_tag q) (\<lambda>t m. t \<in> set (md_tags m)) ms
      in opt_filter (mq_modality q) has_modality ms)"

definition mr_search :: "model_query \<Rightarrow> model_registry \<Rightarrow> model_registry \<times> omni_model list" where
  "mr_search q r =
     (r\<lparr>mr_search_count := mr_search_count r + 1\<rparr>,
      py_slice 0 (mq_limit q)
        (sort_key (\<lambda>m. (- md_quality_score m, md_latency_ms m)) (search_filters q (dict_values (mr_models r)))))"

definition mr_best_models ::
  "string \<Rightarrow> real \<Rightarrow> real option \<Rightarrow> real option \<Rightarrow> int \<Rightarrow> model_registry \<Rightarrow> model_registry \<times> omni_model list" where
  "mr_best_models capability min_quality max_cost max_latency top_k r =
     mr_search (new_query\<lparr>mq_capability := Some capability, mq_min_quality := Some min_quality,
       mq_max_cost_input := max_cost, mq_max_cost_output := max_cost, mq_max_latency_ms := max_latency,
       mq_enabled_only := True, mq_healthy_only := True, mq_limit := top_k\<rparr>) r"

definition mr_compatible_models :: "string set \<Rightarrow> int \<Rightarrow> model_registry \<Rightarrow> omni_model list" where
  "mr_compatible_models features min_context r =
     (let fs = py_lower ` features;
          ms = filter md_enabled (dict_values (mr_models r));
          ms = (if min_context > 0 then filter (\<lambda>m. md_context_window m \<ge> min_context) ms else ms);
          ms = (if ''streaming'' \<in> fs then filter md_supports_streaming ms else ms);
          ms = (if ''reasoning'' \<in> fs then filter md_supports_reasoning ms else ms);
          ms = (if ''vision'' \<in> fs then filter md_supports_vision ms else ms);
          ms = (if ''tools'' \<in> fs then filter md_supports_tools ms else ms)
      in sort_key (\<lambda>m. (- md_quality_score m, md_context_window m)) ms)"

subsection \<open>Discovery\<close>

record found_model =
  fm_model_id :: "string option"
  fm_provider_id :: "string option"
  fm_provider :: "string option"
  fm_display_name :: "string option"
  fm_model_family :: "string option"
  fm_context_window :: "int option"
  fm_max_output_tokens :: "int option"
  fm_input_cost_per_1k :: "real option"
  fm_output_cost_per_1k :: "real option"
  fm_capabilities :: "string list option"
  fm_supports_streaming :: "bool option"
  fm_supports_reasoning :: "bool option"
  fm_supports_vision :: "bool option"
  fm_supports_tools :: "bool option"
  fm_latency_ms :: "real option"
  fm_quality_score :: "real option"
  fm_throughput :: "real option"
  fm_tokenizer :: "string option"
  fm_healthy :: "bool option"
  fm_enabled :: "bool option"
  fm_tags :: "string list option"
  fm_version :: "string option"
  fm_aliases :: "string list option"
  fm_input_modalities :: "string list option"
  fm_output_modalities :: "string list option"
  fm_metadata :: "(string, pyval) dict option"

text \<open>The fields that both branches read in the same way: the entry, or the value of a given model.\<close>

definition found_over :: "found_model \<Rightarrow> omni_model \<Rightarrow> omni_model" where
  "found_over e m =
     m\<lparr>md_provider := opt_or (fm_provider e) (md_provider m),
       md_display_name := opt_or (fm_display_name e) (md_display_name m),
       md_model_family := opt_or (fm_model_family e) (md_model_family m),
       md_context_window := opt_or (fm_context_window e) (md_context_window m),
       md_max_output_tokens := opt_or (fm_max_output_tokens e) (md_max_output_tokens m),
       md_input_cost_per_1k := opt_or (fm_input_cost_per_1k e) (md_input_cost_per_1k m),
       md_output_cost_per_1k := opt_or (fm_output_cost_per_1k e) (md_output_cost_per_1k m),
       md_capabilities := opt_or (fm_capabilities e) (md_capabilities m),
       md_supports_streaming := opt_or (fm_supports_streaming e) (md_supports_streaming m),
       md_supports_reasoning := opt_or (fm_supports_reasoning e) (md_supports_reasoning m),
       md_supports_vision := opt_or (fm_supports_vision e) (md_supports_vision m),
       md_supports_tools := opt_or (fm_supports_tools e) (md_supports_tools m),
       md_latency_ms := opt_or (fm_latency_ms e) (md_latency_ms m),
       md_quality_score := opt_or (fm_quality_score e) (md_quality_score m),
       md_throughput := opt_or (fm_throughput e) (md_throughput m),
       md_tokenizer := opt_or (fm_tokenizer e) (md_tokenizer m), md_healthy := opt_or (fm_healthy e) (md_healthy m),
       md_enabled := opt_or (fm_enabled e) (md_enabled m), md_tags := opt_or (fm_tags e) (md_tags m),
       md_version := opt_or (fm_version e) (md_version m), md_aliases := opt_or (fm_aliases e) (md_aliases m),
       md_input_modalities := opt_or (fm_input_modalities e) (md_input_modalities m),
       md_output_modalities := opt_or (fm_output_modalities e) (md_output_modalities m)\<rparr>"

text \<open>For a new model the defaults apply, with streaming off and the identifier as its display name.\<close>

definition found_model_new :: "string \<Rightarrow> real \<Rightarrow> found_model \<Rightarrow> omni_model" where
  "found_model_new uid now e =
     found_over e ((new_model uid now)\<lparr>md_model_id := opt_or (fm_model_id e) [],
       md_provider_id := opt_or (fm_provider_id e) [], md_display_name := opt_or (fm_model_id e) [],
       md_supports_streaming := False\<rparr>)"

definition found_model_again :: "found_model \<Rightarrow> omni_model \<Rightarrow> omni_model" where
  "found_model_again e m = (found_over e m)\<lparr>md_metadata := opt_or (fm_metadata e) (md_metadata m)\<rparr>"

text \<open>An exception of a registration ends the synchronisation; what was done before it stays.\<close>

fun mr_sync_entries ::
  "provider_registry option \<Rightarrow> real \<Rightarrow> (found_model \<times> string) list \<Rightarrow> model_registry \<times> int \<times> int \<Rightarrow>
   model_registry \<times> (int \<times> int) result" where
  "mr_sync_entries pr now [] (r, registered, updated) = (r, Inr (registered, updated))"
| "mr_sync_entries pr now ((e, uid) # es) (r, registered, updated) =
     (case find (\<lambda>m. md_model_id m = opt_or (fm_model_id e) [] \<and> md_provider_id m = opt_or (fm_provider_id e) [])
             (dict_values (mr_models r)) of
        None \<Rightarrow>
          (case mr_register_model pr now uid (found_model_new uid now e) r of
             (r, Inl err) \<Rightarrow> (r, Inl err)
           | (r, Inr _) \<Rightarrow> mr_sync_entries pr now es (r, registered + 1, updated))
      | Some m \<Rightarrow> mr_sync_entries pr now es (fst (mr_update_model now (found_model_again e m) r), registered, updated + 1))"

definition mr_sync_from_discovery ::
  "provider_registry option \<Rightarrow> real \<Rightarrow> (found_model \<times> string) list \<Rightarrow> model_registry \<Rightarrow>
   model_registry \<times> (int \<times> int) result" where
  "mr_sync_from_discovery pr now es r =
     mr_sync_entries pr now es (r\<lparr>mr_sync_count := mr_sync_count r + 1\<rparr>, 0, 0)"

end
