(* ===== verification/Registry_Laws.thy ===== *)
theory Registry_Laws
  imports Model_Registry Rate_Limit_Laws
begin

text \<open>
  What the two registries guarantee: identifiers are the keys of the tables, rate buckets belong to
  providers and never hold more than their limit, the rate of a provider is bounded over every window, and
  each provider has at most one default model.
\<close>

subsection \<open>Providers\<close>

definition bucket_ok :: "rate_bucket \<Rightarrow> bool" where
  "bucket_ok b \<longleftrightarrow> bk_window_seconds b = 60 \<and> length (bk_tokens b) \<le> nat (bk_limit b)"

definition providers_ok :: "provider_registry \<Rightarrow> bool" where
  "providers_ok r \<longleftrightarrow>
     dict_wf (pr_providers r) \<and> (\<forall>x\<in>set (pr_providers r). pv_id (snd x) = fst x) \<and>
     fst ` set (pr_rate_buckets r) \<subseteq> fst ` set (pr_providers r) \<and> (\<forall>x\<in>set (pr_rate_buckets r). bucket_ok (snd x))"

lemma bucket_ok_new [simp]: "bucket_ok (new_bucket limit)"
  by (simp add: bucket_ok_def new_bucket_def)

lemma bucket_ok_prune: "bucket_ok b \<Longrightarrow> bucket_ok (bk_prune now b)"
  by (auto simp: bucket_ok_def bk_prune_def intro: order_trans [OF length_filter_le])

lemma bucket_ok_consume: "bucket_ok b \<Longrightarrow> bucket_ok (fst (bk_consume now w b))"
  using bucket_ok_prune [of b now] by (auto simp: bk_consume_def bucket_ok_def Let_def)

lemma bucket_ok_remaining: "bucket_ok b \<Longrightarrow> bucket_ok (fst (bk_remaining now b))"
  by (simp add: bk_remaining_def Let_def bucket_ok_prune)

lemma providers_ok_publish [simp]: "providers_ok (pr_publish ev r) = providers_ok r"
  by (simp add: pr_publish_def providers_ok_def)

lemma providers_ok_put:
  "providers_ok r \<Longrightarrow> pv_id p = k \<Longrightarrow> providers_ok (put_provider now k p r)"
  using ball_dict_set [of "pr_providers r" "\<lambda>x. pv_id (snd x) = fst x" k "p\<lparr>pv_created_at := now, pv_updated_at := now\<rparr>"]
  by (simp add: providers_ok_def put_provider_def subset_insertI2)

lemma providers_ok_bucket:
  assumes "providers_ok r" and "bucket_ok b" and "i \<in> fst ` set (pr_providers r)"
  shows "providers_ok (r\<lparr>pr_rate_buckets := dict_set (pr_rate_buckets r) i b\<rparr>)"
  using assms ball_dict_set [of "pr_rate_buckets r" "\<lambda>x. bucket_ok (snd x)" i b] by (auto simp: providers_ok_def)

lemma stored_id: "providers_ok r \<Longrightarrow> dict_get (pr_providers r) i = Some p \<Longrightarrow> pv_id p = i"
  using ball_dict_get [of "pr_providers r" "\<lambda>x. pv_id (snd x) = fst x" i p] by (simp add: providers_ok_def)

lemma put_keys [simp]: "i \<in> fst ` set (pr_providers (put_provider now i p r))"
  by (simp add: put_provider_def)

lemma providers_ok_register: "providers_ok r \<Longrightarrow> providers_ok (fst (pr_register now fresh p r))"
  by (auto simp: pr_register_def Let_def intro!: providers_ok_bucket providers_ok_put)

lemma providers_ok_update: "providers_ok r \<Longrightarrow> providers_ok (fst (pr_update now p r))"
  by (auto simp: pr_update_def Let_def merge_provider_def intro!: providers_ok_put split: option.split)

lemma providers_ok_change:
  assumes "providers_ok r" and "\<And>p. pv_id (f p) = pv_id p"
  shows "providers_ok (fst (change_provider now i f r))"
  using assms stored_id [OF assms(1)] by (auto simp: change_provider_def intro!: providers_ok_put split: option.split)

lemma keys_del: "fst ` set (dict_del d i) = fst ` set d - {i}"
  by (simp add: delete_keys flip: set_map)

lemma providers_ok_delete:
  assumes "providers_ok r"
  shows "providers_ok (fst (pr_delete i r))"
proof -
  have "providers_ok (r\<lparr>pr_providers := dict_del (pr_providers r) i, pr_rate_buckets := dict_del (pr_rate_buckets r) i\<rparr>)"
    using assms ball_dict_del [of "pr_providers r" "\<lambda>x. pv_id (snd x) = fst x" i]
      ball_dict_del [of "pr_rate_buckets r" "\<lambda>x. bucket_ok (snd x)" i]
    by (simp add: providers_ok_def keys_del Diff_mono)
  then show ?thesis using assms by (simp add: pr_delete_def)
qed

lemma providers_ok_health: "providers_ok r \<Longrightarrow> providers_ok (fst (pr_set_health now i h err r))"
  using stored_id [of r i] by (auto simp: pr_set_health_def intro!: providers_ok_put split: option.split)

lemma providers_ok_rate_limit:
  assumes "providers_ok r"
  shows "providers_ok (fst (pr_set_rate_limit now i limit r))"
proof -
  have ok: "providers_ok (fst (change_provider now i (pv_rate_limit_update (\<lambda>_. limit)) r))"
    by (rule providers_ok_change [OF assms]) simp
  have "i \<in> fst ` set (pr_providers r')" if "change_provider now i f r = (r', True)" for r' f
    using that by (auto simp: change_provider_def split: option.splits)
  then show ?thesis using ok
    by (auto simp: pr_set_rate_limit_def split: prod.split bool.split intro!: providers_ok_bucket)
qed

lemma bucket_keys: "providers_ok r \<Longrightarrow> dict_get (pr_rate_buckets r) i = Some b \<Longrightarrow>
    bucket_ok b \<and> i \<in> fst ` set (pr_providers r)"
proof -
  assume ok: "providers_ok r" and "dict_get (pr_rate_buckets r) i = Some b"
  then have "(i, b) \<in> set (pr_rate_buckets r)" by (simp add: map_of_SomeD)
  then show ?thesis using ok by (force simp: providers_ok_def)
qed

lemma providers_ok_rates:
  assumes "providers_ok r"
  shows "providers_ok (fst (pr_consume_rate now i w r))" "providers_ok (fst (pr_rate_limit_remaining now i r))"
  using assms bucket_keys [OF assms, of i] bucket_ok_consume [of _ now w] bucket_ok_remaining [of _ now]
  by (auto simp: pr_consume_rate_def pr_rate_limit_remaining_def case_prod_beta Let_def
      split: option.split intro!: providers_ok_bucket)

lemma providers_ok_sync: "providers_ok r \<Longrightarrow> providers_ok (fst (pr_sync_from_discovery now es r))"
proof -
  have step: "providers_ok (fst acc) \<Longrightarrow> providers_ok (fst (sync_one now x acc))" for x acc
    by (auto simp: sync_one_def providers_ok_register providers_ok_update split: prod.split option.split)
  have "providers_ok (fst acc) \<Longrightarrow> providers_ok (fst (fold (sync_one now) es acc))" for acc
    by (induction es arbitrary: acc) (simp_all add: step)
  then show "providers_ok r \<Longrightarrow> ?thesis" by (simp add: pr_sync_from_discovery_def)
qed

lemma providers_ok_setters:
  "providers_ok r \<Longrightarrow> providers_ok (fst (pr_set_capabilities now i caps r))"
  "providers_ok r \<Longrightarrow> providers_ok (fst (pr_set_cost_metadata now i cin cout r))"
  by (simp_all add: pr_set_capabilities_def pr_set_cost_metadata_def providers_ok_change)

lemma providers_ok_start_stop [simp]:
  "providers_ok (pr_start r) = providers_ok r" "providers_ok (pr_stop r)" "providers_ok (pr_init bus)"
  by (simp_all add: providers_ok_def pr_start_def pr_stop_def pr_init_def)

subsection \<open>The rate of a provider\<close>

definition rate_call :: "string \<Rightarrow> real \<times> int \<Rightarrow> provider_registry \<Rightarrow> provider_registry \<times> int" where
  "rate_call i c r = (let (r, ok) = pr_consume_rate (fst c) i (snd c) r in (r, if ok then snd c else 0))"

abbreviation recent :: "real \<Rightarrow> rate_bucket \<Rightarrow> nat" where
  "recent a b \<equiv> length (filter (\<lambda>t. a \<le> t) (bk_tokens b))"

definition has_bucket :: "string \<Rightarrow> real \<Rightarrow> int \<Rightarrow> provider_registry \<Rightarrow> bool" where
  "has_bucket i a m r \<longleftrightarrow>
     (case dict_get (pr_rate_buckets r) i of None \<Rightarrow> False
      | Some b \<Rightarrow> bk_limit b = m \<and> bk_window_seconds b = 60 \<and> int (recent a b) \<le> m)"

definition rate_left :: "string \<Rightarrow> real \<Rightarrow> int \<Rightarrow> provider_registry \<Rightarrow> real" where
  "rate_left i a m r =
     (case dict_get (pr_rate_buckets r) i of None \<Rightarrow> 0 | Some b \<Rightarrow> of_int m - of_nat (recent a b))"

lemma recent_prune: "now < a + 60 \<Longrightarrow> bk_window_seconds b = 60 \<Longrightarrow> recent a (bk_prune now b) = recent a b"
  by (auto simp: bk_prune_def filter_filter intro!: arg_cong [of _ _ length] filter_cong)

lemma recent_le: "recent a b \<le> length (bk_tokens b)"
  by (rule length_filter_le)

lemma bk_consume_recent:
  assumes "bk_window_seconds b = 60" and "a \<le> now" "now < a + 60" and "0 \<le> w" and "int (recent a b) \<le> bk_limit b"
  shows "bk_limit (fst (bk_consume now w b)) = bk_limit b \<and> bk_window_seconds (fst (bk_consume now w b)) = 60 \<and>
    int (recent a (fst (bk_consume now w b))) = int (recent a b) + (if snd (bk_consume now w b) then w else 0) \<and>
    int (recent a (fst (bk_consume now w b))) \<le> bk_limit b"
  using assms recent_prune [OF assms(3,1)] recent_le [of a "bk_prune now b"]
  by (auto simp: bk_consume_def Let_def bk_prune_def)

interpretation provider_rate: budgeted "rate_call i" "\<lambda>c. a \<le> fst c \<and> fst c < a + 60 \<and> 0 \<le> snd c" "has_bucket i a m"
  of_int "rate_left i a m" for i a m
proof
  fix r assume "has_bucket i a m r"
  then show "0 \<le> rate_left i a m r" by (simp add: has_bucket_def rate_left_def split: option.splits)
next
  fix r and c :: "real \<times> int" assume ok: "has_bucket i a m r" and c: "a \<le> fst c \<and> fst c < a + 60 \<and> 0 \<le> snd c"
  then obtain b where b: "dict_get (pr_rate_buckets r) i = Some b" "bk_limit b = m" "bk_window_seconds b = 60" "int (recent a b) \<le> m"
    by (auto simp: has_bucket_def split: option.splits)
  have "int (recent a b) \<le> bk_limit b" using b by simp
  note new = bk_consume_recent [OF b(3) _ _ _ this, of "fst c" "snd c"]
  have call: "rate_call i c r = (r\<lparr>pr_rate_buckets := dict_set (pr_rate_buckets r) i (fst (bk_consume (fst c) (snd c) b))\<rparr>,
      if snd (bk_consume (fst c) (snd c) b) then snd c else 0)"
    by (simp add: rate_call_def pr_consume_rate_def b case_prod_beta Let_def)
  show "has_bucket i a m (fst (rate_call i c r))" using new c b by (simp add: call has_bucket_def)
  show "of_int (snd (rate_call i c r)) + rate_left i a m (fst (rate_call i c r)) \<le> rate_left i a m r"
    using new c b by (auto simp: call rate_left_def split: if_splits)
qed

subsection \<open>Models\<close>

text \<open>
  The table of defaults and the flags of the models agree. This is kept only as long as updates leave the
  provider and the flag of a model alone.
\<close>

definition flagged :: "model_registry \<Rightarrow> string \<Rightarrow> string \<Rightarrow> bool" where
  "flagged r pid i \<longleftrightarrow> (\<exists>m. dict_get (mr_models r) i = Some m \<and> md_provider_id m = pid \<and> md_is_default m)"

definition defaults_agree :: "model_registry \<Rightarrow> bool" where
  "defaults_agree r \<longleftrightarrow> (\<forall>pid i. dict_get (mr_defaults r) pid = Some i \<longleftrightarrow> flagged r pid i)"

definition models_ok :: "bool \<Rightarrow> model_registry \<Rightarrow> bool" where
  "models_ok strict r \<longleftrightarrow>
     dict_wf (mr_models r) \<and> (\<forall>i m. dict_get (mr_models r) i = Some m \<longrightarrow> md_id m = i \<and> i \<noteq> []) \<and>
     (strict \<longrightarrow> defaults_agree r)"

lemma models_ok_fields [simp]:
  "models_ok strict (mr_publish ev r) = models_ok strict r" "models_ok strict (mr_start now r) = models_ok strict r"
  "models_ok strict (mr_stop r)" "models_ok strict (mr_init bus)"
  "models_ok strict (r\<lparr>mr_registration_count := n\<rparr>) = models_ok strict r"
  "models_ok strict (r\<lparr>mr_search_count := n\<rparr>) = models_ok strict r"
  "models_ok strict (r\<lparr>mr_sync_count := n\<rparr>) = models_ok strict r"
  by (simp_all add: models_ok_def defaults_agree_def flagged_def mr_publish_def mr_start_def mr_stop_def mr_init_def)

definition same_place :: "omni_model \<Rightarrow> omni_model \<Rightarrow> bool" where
  "same_place m m' \<longleftrightarrow> md_provider_id m' = md_provider_id m \<and> md_is_default m' = md_is_default m"

lemma flagged_put [simp]:
  "flagged (put_model now k m r) pid i =
     (if i = k then md_provider_id m = pid \<and> md_is_default m else flagged r pid i)"
  by (simp add: flagged_def put_model_def)

lemma flagged_stored: "dict_get (mr_models r) i = Some m \<Longrightarrow> flagged r pid i \<longleftrightarrow> md_provider_id m = pid \<and> md_is_default m"
  by (simp add: flagged_def)

lemma flagged_unique: "flagged r p i \<Longrightarrow> flagged r q i \<Longrightarrow> p = q"
  by (auto simp: flagged_def)

lemma flagged_missing: "dict_get (mr_models r) i = None \<Longrightarrow> \<not> flagged r pid i"
  by (simp add: flagged_def)

lemma defaults_put [simp]: "mr_defaults (put_model now k m r) = mr_defaults r"
  by (simp add: put_model_def)

lemma models_ok_put:
  assumes "models_ok strict r" and "md_id m = k" "k \<noteq> []"
    and "strict \<Longrightarrow> defaults_agree r \<Longrightarrow> defaults_agree (put_model now k m r)"
  shows "models_ok strict (put_model now k m r)"
  using assms by (auto simp: models_ok_def put_model_def)

lemma models_ok_id: "models_ok strict r \<Longrightarrow> dict_get (mr_models r) i = Some m \<Longrightarrow> md_id m = i \<and> i \<noteq> []"
  by (simp add: models_ok_def)

lemma models_ok_replace:
  assumes "models_ok strict r" and "dict_get (mr_models r) i = Some m" and "md_id m' = i"
    and "strict \<longrightarrow> same_place m m'"
  shows "models_ok strict (put_model now i m' r)"
  using assms models_ok_id [OF assms(1,2)]
  by (intro models_ok_put) (auto simp: defaults_agree_def same_place_def flagged_stored [OF assms(2)])

lemma models_ok_add:
  assumes "models_ok strict r" and "dict_get (mr_models r) i = None" and "md_id m = i" "i \<noteq> []" and "\<not> md_is_default m"
  shows "models_ok strict (put_model now i m r)"
  using assms by (intro models_ok_put) (auto simp: defaults_agree_def flagged_missing)

lemma models_ok_register:
  assumes "models_ok strict r" and "fresh \<noteq> []"
  shows "models_ok strict (fst (mr_register_model pr now fresh m r))"
  using assms
  by (auto simp: mr_register_model_def Let_def list_or_def dict_get_None_iff split: sum.split intro!: models_ok_add)

lemma models_ok_update:
  assumes "models_ok strict r"
    and "strict \<longrightarrow> (\<forall>old. dict_get (mr_models r) (md_id m) = Some old \<longrightarrow> same_place old (merge_model m old))"
  shows "models_ok strict (fst (mr_update_model now m r))"
proof (cases "dict_get (mr_models r) (md_id m)")
  case (Some old)
  have "models_ok strict (put_model now (md_id m) (merge_model m old) r)"
    using assms(2) Some by (intro models_ok_replace [OF assms(1) Some]) (simp_all add: merge_model_def)
  then show ?thesis using Some by (simp add: mr_update_model_def Let_def)
qed (simp add: mr_update_model_def assms(1))

lemma models_ok_unregister:
  assumes "models_ok strict r"
  shows "models_ok strict (fst (mr_unregister_model i r))"
proof (cases "dict_get (mr_models r) i")
  case (Some m)
  let ?d = "if dict_get (mr_defaults r) (md_provider_id m) = Some i
    then dict_del (mr_defaults r) (md_provider_id m) else mr_defaults r"
  let ?r = "r\<lparr>mr_models := dict_del (mr_models r) i, mr_defaults := ?d\<rparr>"
  have gone: "flagged ?r pid j \<longleftrightarrow> j \<noteq> i \<and> flagged r pid j" for pid j
    by (simp add: flagged_def)
  have "defaults_agree ?r" if agree: "defaults_agree r"
  proof -
    have only: "pid = md_provider_id m" if "dict_get (mr_defaults r) pid = Some i" for pid
      using agree that by (simp add: defaults_agree_def flagged_stored [OF Some])
    have keep: "dict_get ?d pid = Some j \<longleftrightarrow> j \<noteq> i \<and> dict_get (mr_defaults r) pid = Some j" for pid j
      using only [of pid] by (cases "pid = md_provider_id m") auto
    have d: "mr_defaults ?r = ?d" by simp
    have "dict_get (mr_defaults ?r) pid = Some j \<longleftrightarrow> flagged ?r pid j" for pid j
      unfolding d keep gone using agree by (simp add: defaults_agree_def)
    then show ?thesis unfolding defaults_agree_def by blast
  qed
  then have "models_ok strict ?r" using assms by (simp add: models_ok_def)
  moreover have "fst (mr_unregister_model i r) = mr_publish (''model.removed'',
                 [(''model_id'', Txt i), (''model_name'', Txt (md_model_id m)),
                  (''provider_id'', Txt (md_provider_id m))]) ?r"
    by (simp add: mr_unregister_model_def Some Let_def)
  ultimately show ?thesis by simp
qed (simp add: mr_unregister_model_def assms)

lemma models_ok_health: "models_ok strict r \<Longrightarrow> models_ok strict (fst (mr_set_model_health now i h err r))"
  using models_ok_id [of strict r i]
  by (auto simp: mr_set_model_health_def same_place_def split: option.split intro!: models_ok_replace)

lemma found_stored:
  assumes "models_ok strict r" and "find P (dict_values (mr_models r)) = Some m"
  shows "dict_get (mr_models r) (md_id m) = Some m"
proof -
  have "m \<in> set (dict_values (mr_models r))" using assms(2) by (auto simp: find_Some_iff)
  then obtain k where "dict_get (mr_models r) k = Some m"
    using assms(1) by (auto simp: models_ok_def set_dict_values simp del: set_map)
  then show ?thesis using models_ok_id [OF assms(1)] by auto
qed

lemma found_place: "same_place m (merge_model (found_model_again e m) m)"
  by (simp add: same_place_def merge_model_def found_model_again_def found_over_def list_or_def)

lemma models_ok_sync_entries:
  "models_ok strict r \<Longrightarrow> [] \<notin> snd ` set es \<Longrightarrow> models_ok strict (fst (mr_sync_entries pr now es (r, a, b)))"
proof (induction es arbitrary: r a b)
  case (Cons x es)
  obtain e uid where x: "x = (e, uid)" by (cases x)
  show ?case
  proof (cases "find (\<lambda>m. md_model_id m = opt_or (fm_model_id e) [] \<and> md_provider_id m = opt_or (fm_provider_id e) [])
      (dict_values (mr_models r))")
    case None
    have "models_ok strict (fst (mr_register_model pr now uid (found_model_new uid now e) r))"
      using Cons.prems by (intro models_ok_register) (auto simp: x)
    then show ?thesis using None Cons by (auto simp: x split: prod.split sum.split)
  next
    case (Some m)
    have "md_id (found_model_again e m) = md_id m" by (simp add: found_model_again_def found_over_def)
    then have "models_ok strict (fst (mr_update_model now (found_model_again e m) r))"
      using found_stored [OF Cons.prems(1) Some] by (intro models_ok_update Cons.prems) (simp add: found_place)
    then show ?thesis using Some Cons by (simp add: x)
  qed
qed simp

lemma models_ok_set_default:
  assumes "models_ok strict r"
  shows "models_ok strict (fst (mr_set_default now i r))"
proof (cases "dict_get (mr_models r) i")
  case (Some m)
  define pid where "pid = md_provider_id m"
  define r1 where "r1 = (case dict_get (mr_defaults r) pid of None \<Rightarrow> r
    | Some old \<Rightarrow> if old \<noteq> [] \<and> old \<noteq> i then
        (case dict_get (mr_models r) old of None \<Rightarrow> r
         | Some om \<Rightarrow> put_model now old (om\<lparr>md_is_default := False\<rparr>) r) else r)"
  define r2 where "r2 = (put_model now i (m\<lparr>md_is_default := True\<rparr>) r1)\<lparr>mr_defaults := dict_set (mr_defaults r) pid i\<rparr>"
  have d1: "mr_defaults r1 = mr_defaults r" by (simp add: r1_def split: option.split)
  have base: "models_ok False r1" "models_ok False r2"
  proof -
    have weak: "models_ok False r" using assms by (simp add: models_ok_def)
    then show r1: "models_ok False r1"
      using models_ok_id [OF weak] by (auto simp: r1_def split: option.split intro!: models_ok_put)
    have "models_ok False (put_model now i (m\<lparr>md_is_default := True\<rparr>) r1)"
      using models_ok_id [OF weak Some] r1 by (intro models_ok_put) auto
    then show "models_ok False r2" by (simp add: r2_def models_ok_def)
  qed
  have "defaults_agree r2" if agree: "defaults_agree r"
  proof -
    have f1: "flagged r1 p j \<longleftrightarrow> flagged r p j \<and> (dict_get (mr_defaults r) pid = Some j \<longrightarrow> j = i)" if "j \<noteq> i" for p j
    proof (cases "dict_get (mr_defaults r) pid")
      case None
      then show ?thesis by (simp add: r1_def)
    next
      case (Some old)
      then have "flagged r pid old" using agree by (simp add: defaults_agree_def)
      then obtain om where om: "dict_get (mr_models r) old = Some om" by (auto simp: flagged_def)
      then have "old \<noteq> []" using models_ok_id [OF assms] by blast
      with Some om have "r1 = (if old = i then r else put_model now old (om\<lparr>md_is_default := False\<rparr>) r)"
        by (simp add: r1_def)
      then show ?thesis using Some that by simp
    qed
    have f2: "flagged r2 p j \<longleftrightarrow> (if j = i then p = pid else flagged r1 p j)" for p j
      by (auto simp: r2_def flagged_def put_model_def pid_def)
    show ?thesis
      using agree f1 Some unfolding defaults_agree_def f2
      by (auto simp: r2_def flagged_stored [OF Some] pid_def dest: flagged_unique)
  qed
  then have "models_ok strict r2" using base(2) assms by (simp add: models_ok_def)
  moreover have "fst (mr_set_default now i r) = mr_publish (''model.default_changed'',
      [(''model_id'', Txt i), (''model_name'', Txt (md_model_id m)), (''provider_id'', Txt pid)]) r2"
    unfolding mr_set_default_def Some option.case Let_def fst_conv pid_def [symmetric] r1_def [symmetric]
    by (simp add: r2_def d1)
  ultimately show ?thesis by simp
qed (simp add: mr_set_default_def assms)

subsection \<open>The machine of both registries\<close>

text \<open>
  Every operation of both registries. With \<open>strict\<close>, updates leave the provider and the default flag of a
  model alone; fresh identifiers are not empty.
\<close>

inductive registry_step ::
  "bool \<Rightarrow> provider_registry \<times> model_registry \<Rightarrow> provider_registry \<times> model_registry \<Rightarrow> bool" for strict where
  add_provider: "registry_step strict (p, m) (fst (pr_register now uid x p), m)"
| update_provider: "registry_step strict (p, m) (fst (pr_update now x p), m)"
| delete_provider: "registry_step strict (p, m) (fst (pr_delete i p), m)"
| provider_health: "registry_step strict (p, m) (fst (pr_set_health now i h err p), m)"
| provider_capabilities: "registry_step strict (p, m) (fst (pr_set_capabilities now i caps p), m)"
| provider_costs: "registry_step strict (p, m) (fst (pr_set_cost_metadata now i cin cout p), m)"
| provider_limit: "registry_step strict (p, m) (fst (pr_set_rate_limit now i limit p), m)"
| provider_rate: "registry_step strict (p, m) (fst (pr_consume_rate now i w p), m)"
| provider_rate_left: "registry_step strict (p, m) (fst (pr_rate_limit_remaining now i p), m)"
| sync_providers: "registry_step strict (p, m) (fst (pr_sync_from_discovery now es p), m)"
| start_providers: "registry_step strict (p, m) (pr_start p, m)"
| stop_providers: "registry_step strict (p, m) (pr_stop p, m)"
| add_model: "fresh \<noteq> [] \<Longrightarrow> registry_step strict (p, m) (p, fst (mr_register_model pr now fresh x m))"
| update_a_model: "(\<And>old. strict \<Longrightarrow> dict_get (mr_models m) (md_id x) = Some old \<Longrightarrow> same_place old (merge_model x old)) \<Longrightarrow>
    registry_step strict (p, m) (p, fst (mr_update_model now x m))"
| remove_model: "registry_step strict (p, m) (p, fst (mr_unregister_model i m))"
| model_health: "registry_step strict (p, m) (p, fst (mr_set_model_health now i h err m))"
| choose_default: "registry_step strict (p, m) (p, fst (mr_set_default now i m))"
| search_models: "registry_step strict (p, m) (p, fst (mr_search q m))"
| sync_models: "[] \<notin> snd ` set fs \<Longrightarrow> registry_step strict (p, m) (p, fst (mr_sync_from_discovery pr now fs m))"
| start_models: "registry_step strict (p, m) (p, mr_start now m)"
| stop_models: "registry_step strict (p, m) (p, mr_stop m)"

definition new_registries :: "provider_registry \<times> model_registry \<Rightarrow> bool" where
  "new_registries x \<longleftrightarrow> (\<exists>b b'. x = (pr_init b, mr_init b'))"

definition registries_ok :: "bool \<Rightarrow> provider_registry \<times> model_registry \<Rightarrow> bool" where
  "registries_ok strict x \<longleftrightarrow> providers_ok (fst x) \<and> models_ok strict (snd x)"

lemmas providers_kept = providers_ok_register providers_ok_update providers_ok_delete providers_ok_health
  providers_ok_setters providers_ok_rate_limit providers_ok_rates providers_ok_sync

lemmas models_kept = models_ok_register models_ok_update models_ok_unregister models_ok_health models_ok_set_default

lemma models_ok_search: "models_ok strict (fst (mr_search q m)) = models_ok strict m"
  by (simp add: mr_search_def)

lemma models_ok_sync:
  "models_ok strict m \<Longrightarrow> [] \<notin> snd ` set fs \<Longrightarrow> models_ok strict (fst (mr_sync_from_discovery pr now fs m))"
  unfolding mr_sync_from_discovery_def by (rule models_ok_sync_entries) simp_all

interpretation registries: invariant_machine new_registries "registry_step strict" "registries_ok strict" for strict
proof
  fix x assume "new_registries x"
  then show "registries_ok strict x" by (auto simp: new_registries_def registries_ok_def)
next
  fix x y assume ok: "registries_ok strict x" and "registry_step strict x y"
  from this(2,1) show "registries_ok strict y"
    by cases (simp_all add: registries_ok_def providers_kept models_kept models_ok_search models_ok_sync)
qed

lemma default_flagged:
  assumes ok: "models_ok True m"
  shows "{x \<in> set (dict_values (mr_models m)). md_provider_id x = pid \<and> md_is_default x} = set_option (mr_default_model pid m)"
proof -
  have wf: "dict_wf (mr_models m)" and agree: "dict_get (mr_defaults m) pid = Some i \<longleftrightarrow> flagged m pid i" for i
    using ok by (simp_all add: models_ok_def defaults_agree_def)
  have stored: "x \<in> set (dict_values (mr_models m)) \<longleftrightarrow> (\<exists>i. dict_get (mr_models m) i = Some x)" for x
    using wf by (rule set_dict_values)
  show ?thesis
  proof (cases "dict_get (mr_defaults m) pid")
    case None
    then have "x \<notin> set (dict_values (mr_models m))" if "md_provider_id x = pid" "md_is_default x" for x
      using agree that unfolding stored flagged_def by auto
    moreover from this have "find (\<lambda>x. md_provider_id x = pid \<and> md_is_default x) (dict_values (mr_models m)) = None"
      unfolding find_None_iff by blast
    ultimately show ?thesis using None by (auto simp: mr_default_model_def simp del: set_map)
  next
    case (Some i)
    then obtain x where x: "dict_get (mr_models m) i = Some x" "md_provider_id x = pid" "md_is_default x"
      using agree by (auto simp: flagged_def)
    have "y = x" if "dict_get (mr_models m) j = Some y" "md_provider_id y = pid" "md_is_default y" for j y
      using agree [of j] that x Some by (auto simp: flagged_def)
    then have "{y. (\<exists>j. dict_get (mr_models m) j = Some y) \<and> md_provider_id y = pid \<and> md_is_default y} = {x}"
      using x by blast
    then show ?thesis using Some x by (simp add: mr_default_model_def stored del: set_map)
  qed
qed

text \<open>C39: In every state the operations of the two registries lead to, a provider is stored under its identifier,
  rate buckets belong to stored providers and hold no more than their limit, and a model is stored under
  its identifier. As long as updates leave the provider and the default flag of a model alone, the
  flagged models of a provider are the one \<open>default_model\<close> returns, or none.\<close>

theorem registries_coherent:
  assumes "reach new_registries (registry_step strict) (p, m)"
  shows "(\<forall>x\<in>set (pr_providers p). pv_id (snd x) = fst x) \<and>
    fst ` set (pr_rate_buckets p) \<subseteq> fst ` set (pr_providers p) \<and>
    (\<forall>x\<in>set (pr_rate_buckets p). length (bk_tokens (snd x)) \<le> nat (bk_limit (snd x))) \<and>
    (\<forall>i x. mr_get_model i m = Some x \<longrightarrow> md_id x = i) \<and>
    (strict \<longrightarrow> (\<forall>pid. {x \<in> set (dict_values (mr_models m)). md_provider_id x = pid \<and> md_is_default x} =
       set_option (mr_default_model pid m)))"
proof -
  have ok: "providers_ok p" "models_ok strict m"
    using registries.reach_inv [OF assms] by (simp_all add: registries_ok_def)
  have "length (bk_tokens (snd x)) \<le> nat (bk_limit (snd x))" if "x \<in> set (pr_rate_buckets p)" for x
    using ok(1) that by (simp add: providers_ok_def bucket_ok_def)
  then show ?thesis
    using ok default_flagged [of m] by (simp add: providers_ok_def models_ok_def mr_get_model_def del: set_map)
qed

lemma rate_start:
  assumes "providers_ok r" and "dict_get (pr_rate_buckets r) i = Some b" and "0 \<le> bk_limit b"
  shows "has_bucket i a (bk_limit b) r"
proof -
  have "recent a b \<le> nat (bk_limit b)"
    using bucket_keys [OF assms(1,2)] order_trans [OF recent_le] by (simp add: bucket_ok_def)
  then show ?thesis using bucket_keys [OF assms(1,2)] assms(2,3) by (simp add: has_bucket_def bucket_ok_def)
qed

text \<open>C40: From any reachable state, the weights that \<open>consume_rate\<close> admits for a provider at times within one minute
  from \<open>a\<close> on sum up to at most the limit of its bucket less the tokens taken since \<open>a\<close>.\<close>

theorem provider_rate_bounded:
  assumes "reach new_registries (registry_step strict) (p, m)" and "dict_get (pr_rate_buckets p) i = Some b"
    and "0 \<le> bk_limit b" and "list_all (\<lambda>c. a \<le> fst c \<and> fst c < a + 60 \<and> 0 \<le> snd c) cs"
  shows "sum_list (map real_of_int (snd (run_calls (rate_call i) cs p))) \<le>
    of_int (bk_limit b) - of_nat (length (filter (\<lambda>t. a \<le> t) (bk_tokens b)))"
proof -
  have "providers_ok p" using registries.reach_inv [OF assms(1)] by (simp add: registries_ok_def)
  then have "has_bucket i a (bk_limit b) p" using assms(2,3) by (rule rate_start)
  from provider_rate.run_within_budget [OF this assms(4)] assms(2) show ?thesis by (simp add: rate_left_def)
qed

subsection \<open>Examples\<close>

definition ex_provider :: omni_provider where
  "ex_provider = (new_provider ''p'' 0)\<lparr>pv_name := ''Acme'', pv_rate_limit := 2\<rparr>"

definition ex_providers :: provider_registry where
  "ex_providers = fst (pr_register 0 ''u'' ex_provider (pr_init True))"

definition ex_models :: model_registry where
  "ex_models = fst (mr_set_default 1 ''b'' (fst (mr_set_default 1 ''a'' (fst (mr_register_model (Some ex_providers) 1 ''b''
     ((new_model [] 0)\<lparr>md_provider_id := ''p''\<rparr>) (fst (mr_register_model (Some ex_providers) 1 ''a''
     ((new_model [] 0)\<lparr>md_provider_id := ''p''\<rparr>) (mr_init True))))))))"

lemma ex_registries: "reach new_registries (registry_step True) (ex_providers, ex_models)"
proof -
  have "reach new_registries (registry_step True) (pr_init True, mr_init True)"
    by (rule reach_init) (auto simp: new_registries_def)
  then have "reach new_registries (registry_step True) (ex_providers, mr_init True)"
    unfolding ex_providers_def by (rule reach_step) (rule add_provider)
  then show ?thesis
    unfolding ex_models_def
    apply -
    apply (rule reach_step [rotated])
     apply (rule choose_default)
    apply (rule reach_step [rotated])
     apply (rule choose_default)
    apply (rule reach_step [rotated])
     apply (rule add_model)
     apply simp
    apply (rule reach_step [rotated])
     apply (rule add_model)
     apply simp
    apply assumption
    done
qed

lemma ex_state:
  "map_option md_id (mr_default_model ''p'' ex_models) = Some ''b''"
  "map md_is_default (dict_values (mr_models ex_models)) = [False, True]"
  "dict_get (pr_rate_buckets ex_providers) ''p'' = Some (new_bucket 2)"
  by code_simp+

theorem registries_coherent_witness:
  "{x \<in> set (dict_values (mr_models ex_models)). md_provider_id x = ''p'' \<and> md_is_default x} =
     set_option (mr_default_model ''p'' ex_models) \<and> map_option md_id (mr_default_model ''p'' ex_models) = Some ''b'' \<and>
   map md_is_default (dict_values (mr_models ex_models)) = [False, True]"
  using registries_coherent [OF ex_registries] ex_state by blast

theorem provider_rate_bounded_witness:
  "sum_list (map real_of_int (snd (run_calls (rate_call ''p'') [(5, 1), (5, 2), (7, 1), (9, 1)] ex_providers))) \<le> 2 \<and>
   snd (run_calls (rate_call ''p'') [(5, 1), (5, 2), (7, 1), (9, 1)] ex_providers) = [1, 0, 1, 0]"
proof
  show "sum_list (map real_of_int (snd (run_calls (rate_call ''p'') [(5, 1), (5, 2), (7, 1), (9, 1)] ex_providers))) \<le> 2"
    using provider_rate_bounded [OF ex_registries ex_state(3), of 5 "[(5, 1), (5, 2), (7, 1), (9, 1)]"]
    by (simp add: new_bucket_def)
  show "snd (run_calls (rate_call ''p'') [(5, 1), (5, 2), (7, 1), (9, 1)] ex_providers) = [1, 0, 1, 0]"
    by code_simp
qed

end
