(* ===== verification/Budgets.thy ===== *)
theory Budgets
  imports Omni_Domain "HOL-Library.Product_Lexorder"
begin

text \<open>
  The budget engine (\<open>core/omniroute/budgets.py\<close>, data in \<open>domain/omniroute.py\<close>): cost prediction, usage
  per policy, policies with their index by scope, evaluation of candidates, reservations, overrides and
  reports.

  An operation runs under the engine's lock; what it publishes and audits after the lock is recorded in
  the order of the operations. Events of tasks that are only scheduled are kept apart. The clock gives
  the instant, the date in UTC, which is stored, and the local date, which spending is compared with.
  Evaluation times are left out; messages that quote numbers are constructors.
\<close>

subsection \<open>Data\<close>

datatype budget_scope =
    BG_GLOBAL | BG_ORGANIZATION | BG_WORKSPACE | BG_AGENT | BG_USER | BG_SESSION | BG_REQUEST
  | BG_PROVIDER | BG_MODEL

definition budget_scope_value :: "budget_scope \<Rightarrow> string" where
  "budget_scope_value sc =
     (case sc of BG_GLOBAL \<Rightarrow> ''global'' | BG_ORGANIZATION \<Rightarrow> ''organization'' | BG_WORKSPACE \<Rightarrow> ''workspace''
      | BG_AGENT \<Rightarrow> ''agent'' | BG_USER \<Rightarrow> ''user'' | BG_SESSION \<Rightarrow> ''session'' | BG_REQUEST \<Rightarrow> ''request''
      | BG_PROVIDER \<Rightarrow> ''provider'' | BG_MODEL \<Rightarrow> ''model'')"

type_synonym date = "int \<times> int \<times> int"

record budget_clock =
  ck_now :: real
  ck_utc :: date
  ck_today :: date

record budget_policy =
  bg_id :: string
  bg_scope :: budget_scope
  bg_scope_id :: string
  bg_enabled :: bool
  bg_priority :: int
  bg_max_spend_total :: real
  bg_max_spend_daily :: real
  bg_max_spend_monthly :: real
  bg_max_spend_per_request :: real
  bg_max_spend_burst :: real
  bg_soft_limit :: real
  bg_hard_limit :: real
  bg_warning_threshold :: real
  bg_currency :: string

record budget_reservation =
  rv_id :: string
  rv_policy_id :: string
  rv_scope :: budget_scope
  rv_scope_id :: string
  rv_provider :: string
  rv_model :: string
  rv_estimated_cost :: real
  rv_max_cost :: real
  rv_timestamp :: real
  rv_expires_at :: "real option"
  rv_committed :: bool
  rv_rolled_back :: bool
  rv_released :: bool

record budget_usage =
  us_policy_id :: string
  us_scope :: budget_scope
  us_scope_id :: string
  us_total_spent :: real
  us_daily_spent :: real
  us_monthly_spent :: real
  us_request_count :: int
  us_daily_request_count :: int
  us_monthly_request_count :: int
  us_provider_spend :: "(string, real) dict"
  us_model_spend :: "(string, real) dict"
  us_active_reservations :: real
  us_last_updated :: date

definition new_usage :: "budget_clock \<Rightarrow> string \<Rightarrow> budget_usage" where
  "new_usage ck i =
     \<lparr>us_policy_id = i, us_scope = BG_GLOBAL, us_scope_id = [], us_total_spent = 0, us_daily_spent = 0,
      us_monthly_spent = 0, us_request_count = 0, us_daily_request_count = 0, us_monthly_request_count = 0,
      us_provider_spend = [], us_model_spend = [], us_active_reservations = 0, us_last_updated = ck_utc ck\<rparr>"

datatype budget_reason =
    NoReason
  | OverRequestLimit real real
  | OverHardLimit real real string
  | OverPerRequest real real
  | OverTotal real real real
  | OverDaily real real
  | OverMonthly real real

datatype budget_warning = ApproachingLimit string real

record budget_result =
  br_approved :: bool
  br_rejected :: bool
  br_reason :: budget_reason
  br_estimated_cost :: real
  br_max_cost :: real
  br_remaining_budget :: "real option"
  br_reservation_id :: string
  br_effective_policy_id :: string
  br_effective_scope :: budget_scope
  br_warnings :: "budget_warning list"
  br_overrides_applied :: "string set"

record budget_statistics =
  bs_total_evaluations :: int
  bs_approvals :: int
  bs_rejections :: int
  bs_reservation_count :: int
  bs_active_reservations :: int
  bs_commits :: int
  bs_rollbacks :: int
  bs_cost_saved :: real
  bs_provider_spend :: "(string, real) dict"
  bs_model_spend :: "(string, real) dict"
  bs_limit_hits :: "(string, int) dict"
  bs_warnings_issued :: int

definition new_statistics :: budget_statistics where
  "new_statistics = \<lparr>bs_total_evaluations = 0, bs_approvals = 0, bs_rejections = 0, bs_reservation_count = 0,
     bs_active_reservations = 0, bs_commits = 0, bs_rollbacks = 0, bs_cost_saved = 0, bs_provider_spend = [],
     bs_model_spend = [], bs_limit_hits = [], bs_warnings_issued = 0\<rparr>"

record budget_audit_record =
  ba_action :: string
  ba_policy_id :: string
  ba_provider :: string
  ba_model :: string
  ba_amount :: real
  ba_reservation_id :: string
  ba_reason :: string

record budget_override =
  ov_id :: string
  ov_policy_id :: string
  ov_reason :: string
  ov_overridden_limits :: "(string, real) dict"
  ov_expires_at :: "real option"
  ov_applied_by :: string

record budget_decision =
  bd_approved :: bool
  bd_rejected :: bool
  bd_reason :: string
  bd_filtered_candidates :: "string list"
  bd_results :: "budget_result list"
  bd_reservations :: "string list"
  bd_emergency_mode :: bool

subsection \<open>Cost prediction\<close>

record cost_estimate =
  ce_estimated_cost :: real
  ce_max_cost :: real
  ce_expected_cost :: real
  ce_input_cost :: real
  ce_output_cost :: real
  ce_reasoning_cost :: real
  ce_vision_cost :: real
  ce_tool_cost :: real
  ce_cache_savings :: real
  ce_streaming_discount :: real

text \<open>
  A request has no attributes for expected tokens, images or tool calls, so \<open>getattr\<close> always gives its
  default.
\<close>

definition estimate_input_tokens :: "routing_request \<Rightarrow> int" where
  "estimate_input_tokens rq = max 0 500"

definition estimate_output_tokens :: "routing_request \<Rightarrow> int" where
  "estimate_output_tokens rq = max 0 200"

definition estimate_reasoning_tokens :: "routing_request \<Rightarrow> int" where
  "estimate_reasoning_tokens rq =
     (if rq_reasoning_required rq then py_int (of_int (estimate_output_tokens rq) * (3 / 2 - 1)) else 0)"

definition estimate_vision_tokens :: "routing_request \<Rightarrow> int" where
  "estimate_vision_tokens rq = (if rq_vision_required rq then max 1 1 * 258 else 0)"

definition estimate_tool_tokens :: "routing_request \<Rightarrow> int" where
  "estimate_tool_tokens rq = (if rq_tools_required rq then max 2 1 * 100 else 0)"

definition cost_of :: "int \<Rightarrow> real \<Rightarrow> real" where
  "cost_of tokens per_1k = (of_int tokens / 1000) * per_1k"

definition estimate_cost :: "omni_model \<Rightarrow> routing_request \<Rightarrow> cost_estimate" where
  "estimate_cost m rq =
     (let input = cost_of (estimate_input_tokens rq) (md_input_cost_per_1k m);
          output = cost_of (estimate_output_tokens rq) (md_output_cost_per_1k m);
          reasoning = cost_of (estimate_reasoning_tokens rq) (md_output_cost_per_1k m);
          vision = cost_of (estimate_vision_tokens rq) (md_input_cost_per_1k m);
          tool = cost_of (estimate_tool_tokens rq) (md_input_cost_per_1k m);
          cache_input = of_int (estimate_input_tokens rq) * (3 / 10);
          cache_savings = (cache_input / 1000) * md_input_cost_per_1k m * (1 / 2);
          streaming = (if rq_streaming_required rq \<and> md_supports_streaming m
                       then (output + reasoning) * (1 - 85 / 100) else 0);
          max_cost = input + output + reasoning + vision + tool;
          total = max_cost - (cache_savings + streaming)
      in \<lparr>ce_estimated_cost = max 0 total, ce_max_cost = max_cost, ce_expected_cost = max 0 total,
          ce_input_cost = input, ce_output_cost = output, ce_reasoning_cost = reasoning,
          ce_vision_cost = vision, ce_tool_cost = tool, ce_cache_savings = cache_savings,
          ce_streaming_discount = streaming\<rparr>)"

subsection \<open>Usage\<close>

record usage_tracker =
  ut_usage :: "(string, budget_usage) dict"
  ut_spend_log :: "(string \<times> real \<times> real) list"

definition get_usage :: "budget_clock \<Rightarrow> string \<Rightarrow> usage_tracker \<Rightarrow> budget_usage" where
  "get_usage ck i t = dict_get_or (ut_usage t) i (new_usage ck i)"

definition add_spend :: "string \<Rightarrow> real \<Rightarrow> (string, real) dict \<Rightarrow> (string, real) dict" where
  "add_spend k amount d = (if k = [] then d else dict_set d k (dict_get_or d k 0 + amount))"

text \<open>The new usage of a policy that has some already, with the daily and monthly resets.\<close>

definition spend_more :: "budget_clock \<Rightarrow> real \<Rightarrow> string \<Rightarrow> string \<Rightarrow> budget_usage \<Rightarrow> budget_usage" where
  "spend_more ck amount provider model u =
     (let (y, m, d) = us_last_updated u; (ty, tm, td) = ck_today ck;
          new_day = (us_last_updated u < ck_today ck);
          new_month = (m \<noteq> tm \<or> y \<noteq> ty)
      in u\<lparr>us_total_spent := us_total_spent u + amount,
           us_daily_spent := (if new_day then 0 else us_daily_spent u) + amount,
           us_monthly_spent := (if new_month then 0 else us_monthly_spent u) + amount,
           us_request_count := us_request_count u + 1,
           us_daily_request_count := (if new_day then 0 else us_daily_request_count u) + 1,
           us_monthly_request_count := (if new_month then 0 else us_monthly_request_count u) + 1,
           us_provider_spend := add_spend provider amount (us_provider_spend u),
           us_model_spend := add_spend model amount (us_model_spend u),
           us_last_updated := ck_utc ck\<rparr>)"

definition first_spend :: "budget_clock \<Rightarrow> string \<Rightarrow> real \<Rightarrow> string \<Rightarrow> string \<Rightarrow> budget_usage" where
  "first_spend ck i amount provider model =
     (new_usage ck i)\<lparr>us_total_spent := amount, us_daily_spent := amount, us_monthly_spent := amount,
        us_request_count := 1, us_daily_request_count := 1, us_monthly_request_count := 1,
        us_provider_spend := (if provider = [] then [] else [(provider, amount)]),
        us_model_spend := (if model = [] then [] else [(model, amount)])\<rparr>"

definition record_spend :: "budget_clock \<Rightarrow> string \<Rightarrow> real \<Rightarrow> string \<Rightarrow> string \<Rightarrow> usage_tracker \<Rightarrow> usage_tracker" where
  "record_spend ck i amount provider model t =
     (let u = (case dict_get (ut_usage t) i of
                 Some u \<Rightarrow> spend_more ck amount provider model u
               | None \<Rightarrow> first_spend ck i amount provider model)
      in t\<lparr>ut_usage := dict_set (ut_usage t) i u, ut_spend_log := ut_spend_log t @ [(i, amount, ck_now ck)]\<rparr>)"

definition add_reservation :: "budget_clock \<Rightarrow> string \<Rightarrow> real \<Rightarrow> usage_tracker \<Rightarrow> usage_tracker" where
  "add_reservation ck i amount t =
     (let u = get_usage ck i t
      in t\<lparr>ut_usage := dict_set (ut_usage t) i (u\<lparr>us_active_reservations := us_active_reservations u + amount\<rparr>)\<rparr>)"

definition remove_reservation :: "budget_clock \<Rightarrow> string \<Rightarrow> real \<Rightarrow> usage_tracker \<Rightarrow> usage_tracker" where
  "remove_reservation ck i amount t =
     (let u = get_usage ck i t
      in if us_active_reservations u > 0
         then t\<lparr>ut_usage := dict_set (ut_usage t) i (u\<lparr>us_active_reservations := us_active_reservations u - amount\<rparr>)\<rparr>
         else t)"

subsection \<open>The engine\<close>

record budget_engine =
  be_has_bus :: bool
  be_started :: bool
  be_policies :: "(string, budget_policy) dict"
  be_policies_by_scope :: "(string, string list) dict"
  be_reservations :: "(string, budget_reservation) dict"
  be_overrides :: "(string, budget_override) dict"
  be_audit_log :: "budget_audit_record list"
  be_usage_tracker :: usage_tracker
  be_emergency_mode :: bool
  be_stats :: budget_statistics
  be_start_time :: real
  be_events :: "omni_event list"
  be_scheduled :: "omni_event list"

definition be_init :: "bool \<Rightarrow> budget_engine" where
  "be_init has_bus = \<lparr>be_has_bus = has_bus, be_started = False, be_policies = [], be_policies_by_scope = [],
     be_reservations = [], be_overrides = [], be_audit_log = [],
     be_usage_tracker = \<lparr>ut_usage = [], ut_spend_log = []\<rparr>, be_emergency_mode = False,
     be_stats = new_statistics, be_start_time = 0, be_events = [], be_scheduled = []\<rparr>"

definition be_publish :: "omni_event \<Rightarrow> budget_engine \<Rightarrow> budget_engine" where
  "be_publish ev e = (if be_has_bus e then e\<lparr>be_events := be_events e @ [ev]\<rparr> else e)"

definition be_publish_blocking :: "omni_event \<Rightarrow> budget_engine \<Rightarrow> budget_engine" where
  "be_publish_blocking ev e = (if be_has_bus e then e\<lparr>be_scheduled := be_scheduled e @ [ev]\<rparr> else e)"

definition MAX_AUDIT :: nat where
  "MAX_AUDIT = 10000"

definition be_add_audit :: "budget_audit_record \<Rightarrow> budget_engine \<Rightarrow> budget_engine" where
  "be_add_audit rec e = e\<lparr>be_audit_log := deque_append MAX_AUDIT (be_audit_log e) rec\<rparr>"

definition audit_of :: "string \<Rightarrow> string \<Rightarrow> string \<Rightarrow> string \<Rightarrow> real \<Rightarrow> string \<Rightarrow> budget_audit_record" where
  "audit_of action rid provider model amount request_id =
     \<lparr>ba_action = action, ba_policy_id = [], ba_provider = provider, ba_model = model, ba_amount = amount,
      ba_reservation_id = rid, ba_reason = request_id\<rparr>"

definition be_start :: "real \<Rightarrow> budget_engine \<Rightarrow> budget_engine" where
  "be_start now e = e\<lparr>be_started := True, be_start_time := now\<rparr>"

definition be_stop :: "budget_engine \<Rightarrow> budget_engine" where
  "be_stop e = e\<lparr>be_started := False\<rparr>"

definition be_dispose :: "budget_engine \<Rightarrow> budget_engine" where
  "be_dispose e = (be_stop e)\<lparr>be_policies := [], be_policies_by_scope := [], be_reservations := [],
     be_overrides := [], be_audit_log := [], be_usage_tracker := \<lparr>ut_usage = [], ut_spend_log = []\<rparr>,
     be_stats := new_statistics\<rparr>"

abbreviation upd_tracker :: "(usage_tracker \<Rightarrow> usage_tracker) \<Rightarrow> budget_engine \<Rightarrow> budget_engine" where
  "upd_tracker f e \<equiv> e\<lparr>be_usage_tracker := f (be_usage_tracker e)\<rparr>"

abbreviation upd_stats :: "(budget_statistics \<Rightarrow> budget_statistics) \<Rightarrow> budget_engine \<Rightarrow> budget_engine" where
  "upd_stats f e \<equiv> e\<lparr>be_stats := f (be_stats e)\<rparr>"

subsection \<open>Policies\<close>

definition scope_key :: "budget_scope \<Rightarrow> string \<Rightarrow> string" where
  "scope_key sc i = budget_scope_value sc @ '':'' @ i"

abbreviation policy_key :: "budget_policy \<Rightarrow> string" where
  "policy_key p \<equiv> scope_key (bg_scope p) (bg_scope_id p)"

definition policy_event :: "string \<Rightarrow> string \<Rightarrow> omni_event" where
  "policy_event topic i = (topic, [(''policy_id'', Txt i)])"

text \<open>
  The index of a scope is sorted by the priorities of the stored policies; an identifier in it that is
  no longer stored is a \<open>KeyError\<close>, after the policy and its index entry were stored.
\<close>

definition be_create_policy :: "budget_policy \<Rightarrow> budget_engine \<Rightarrow> budget_engine \<times> budget_policy result" where
  "be_create_policy p e =
     (let ps = dict_set (be_policies e) (bg_id p) p;
          ids = dict_get_or (be_policies_by_scope e) (policy_key p) [] @ [bg_id p];
          e = e\<lparr>be_policies := ps, be_policies_by_scope := dict_set (be_policies_by_scope e) (policy_key p) ids\<rparr>
      in case find (\<lambda>i. i \<notin> set (dict_keys ps)) ids of
           Some i \<Rightarrow> (e, Inl (KeyError i))
         | None \<Rightarrow>
             (let sorted_ids = sort_desc (\<lambda>i. bg_priority (the (dict_get ps i))) ids;
                  e = e\<lparr>be_policies_by_scope := dict_set (be_policies_by_scope e) (policy_key p) sorted_ids\<rparr>
              in (be_publish (policy_event ''budget.policy_created'' (bg_id p)) e, Inr p)))"

definition be_update_policy :: "string \<Rightarrow> budget_policy \<Rightarrow> budget_engine \<Rightarrow> budget_engine \<times> budget_policy option" where
  "be_update_policy i p e =
     (if i \<notin> set (dict_keys (be_policies e)) then (e, None)
      else (be_publish (policy_event ''budget.policy_updated'' i) (e\<lparr>be_policies := dict_set (be_policies e) i p\<rparr>), Some p))"

text \<open>Looking a missing scope up in the index creates an empty entry for it.\<close>

definition be_delete_policy :: "string \<Rightarrow> budget_engine \<Rightarrow> budget_engine \<times> bool" where
  "be_delete_policy i e =
     (case dict_get (be_policies e) i of
        None \<Rightarrow> (e, False)
      | Some p \<Rightarrow>
          (let idx = be_policies_by_scope e;
               ids = dict_get_or idx (policy_key p) [];
               idx = (if i \<in> set ids
                      then (if remove1 i ids = [] then dict_del idx (policy_key p)
                            else dict_set idx (policy_key p) (remove1 i ids))
                      else dict_set idx (policy_key p) ids)
           in (be_publish (policy_event ''budget.policy_deleted'' i)
                 (e\<lparr>be_policies := dict_del (be_policies e) i, be_policies_by_scope := idx\<rparr>), True)))"

definition be_get_policy :: "string \<Rightarrow> budget_engine \<Rightarrow> budget_policy option" where
  "be_get_policy i e = dict_get (be_policies e) i"

definition be_list_policies :: "budget_scope option \<Rightarrow> string option \<Rightarrow> budget_engine \<Rightarrow> budget_policy list" where
  "be_list_policies sc i e =
     (case sc of
        Some s \<Rightarrow>
          List.map_filter (dict_get (be_policies e))
            (dict_get_or (be_policies_by_scope e) (scope_key s (or_else i [])) [])
      | None \<Rightarrow> dict_values (be_policies e))"

subsection \<open>Evaluation\<close>

definition request_keys :: "routing_request \<Rightarrow> string list" where
  "request_keys rq =
     [scope_key BG_GLOBAL [], scope_key BG_ORGANIZATION (rq_organization rq),
      scope_key BG_WORKSPACE (rq_workspace rq), scope_key BG_USER (rq_user_id rq),
      scope_key BG_AGENT (rq_agent rq), scope_key BG_SESSION (rq_mission_id rq)]"

definition collect_policy ::
  "budget_engine \<Rightarrow> string \<Rightarrow> (string, budget_policy) dict \<Rightarrow> (string, budget_policy) dict" where
  "collect_policy e i d =
     (case dict_get (be_policies e) i of
        None \<Rightarrow> d
      | Some p \<Rightarrow> if bg_enabled p then dict_set d i p else d)"

definition resolve_applicable_policies :: "routing_request \<Rightarrow> budget_engine \<Rightarrow> budget_policy list" where
  "resolve_applicable_policies rq e =
     dict_values
       (fold (collect_policy e)
          (concat (map (\<lambda>k. dict_get_or (be_policies_by_scope e) k []) (request_keys rq))) [])"

definition find_active_override :: "real \<Rightarrow> string \<Rightarrow> budget_engine \<Rightarrow> budget_override option" where
  "find_active_override now i e =
     find (\<lambda>ov. ov_policy_id ov = i \<and> \<not> (case ov_expires_at ov of None \<Rightarrow> False | Some t \<Rightarrow> t < now))
       (dict_values (be_overrides e))"

text \<open>The limits in force: those of the policy, or of its active override where that names them.\<close>

record spend_limits =
  li_total :: real
  li_daily :: real
  li_monthly :: real
  li_per_request :: real
  li_hard :: real
  li_soft :: real

definition spend_limits_of :: "budget_policy \<Rightarrow> budget_override option \<Rightarrow> spend_limits" where
  "spend_limits_of p ov =
     (let o_limit = (\<lambda>k d. case ov of None \<Rightarrow> d | Some x \<Rightarrow> dict_get_or (ov_overridden_limits x) k d)
      in \<lparr>li_total = o_limit ''max_spend_total'' (bg_max_spend_total p),
          li_daily = o_limit ''max_spend_daily'' (bg_max_spend_daily p),
          li_monthly = bg_max_spend_monthly p, li_per_request = bg_max_spend_per_request p,
          li_hard = o_limit ''hard_limit'' (bg_hard_limit p), li_soft = bg_soft_limit p\<rparr>)"

definition be_record_limit_hit :: "string \<Rightarrow> budget_engine \<Rightarrow> budget_engine" where
  "be_record_limit_hit sc e =
     upd_stats (\<lambda>s. s\<lparr>bs_limit_hits := dict_set (bs_limit_hits s) sc (dict_get_or (bs_limit_hits s) sc 0 + 1)\<rparr>) e"

definition over_limit :: "real \<Rightarrow> real \<Rightarrow> bool" where
  "over_limit limit amount \<longleftrightarrow> limit > 0 \<and> amount > limit"

text \<open>The checks of one policy in their order: the first limit that is exceeded.\<close>

definition exceeded :: "spend_limits \<Rightarrow> budget_usage \<Rightarrow> string \<Rightarrow> real \<Rightarrow> budget_reason option" where
  "exceeded l u pid cost =
     (if over_limit (li_hard l) cost then Some (OverHardLimit cost (li_hard l) pid)
      else if over_limit (li_per_request l) cost then Some (OverPerRequest cost (li_per_request l))
      else if over_limit (li_total l) (us_total_spent u + cost)
           then Some (OverTotal (li_total l) (us_total_spent u) cost)
      else if over_limit (li_daily l) (us_daily_spent u + cost) then Some (OverDaily (li_daily l) (us_daily_spent u))
      else if over_limit (li_monthly l) (us_monthly_spent u + cost)
           then Some (OverMonthly (li_monthly l) (us_monthly_spent u))
      else None)"

text \<open>A total, daily or monthly limit is counted and announced when it is hit.\<close>

definition note_hit :: "budget_policy \<Rightarrow> budget_reason \<Rightarrow> budget_engine \<Rightarrow> budget_engine" where
  "note_hit p rsn e =
     (let sc = budget_scope_value (bg_scope p);
          hit = (\<lambda>args. be_publish_blocking (''budget.limit_reached'',
                          [(''policy_id'', Txt (bg_id p)), (''scope'', Txt sc)] @ args) (be_record_limit_hit sc e))
      in case rsn of
           OverTotal limit spent cost \<Rightarrow>
             hit [(''total_spent'', Num spent), (''limit'', Num limit), (''estimated_cost'', Num cost)]
         | OverDaily limit spent \<Rightarrow> hit [(''daily_spent'', Num spent), (''daily_limit'', Num limit)]
         | OverMonthly limit spent \<Rightarrow> hit [(''monthly_spent'', Num spent), (''monthly_limit'', Num limit)]
         | _ \<Rightarrow> e)"

text \<open>The soft limit only warns, by the share of the hard limit or else of the total limit.\<close>

definition soft_warning :: "budget_policy \<Rightarrow> spend_limits \<Rightarrow> budget_usage \<Rightarrow> real \<Rightarrow> real option" where
  "soft_warning p l u cost =
     (let eff = (if li_hard l > 0 then li_hard l else li_total l) in
      if li_soft l > 0 \<and> eff > 0 \<and> (us_total_spent u + cost) / eff \<ge> bg_warning_threshold p
      then Some ((us_total_spent u + cost) / eff) else None)"

record policy_scan =
  sn_engine :: budget_engine
  sn_warnings :: "budget_warning list"
  sn_overrides :: "string set"
  sn_remaining :: "real option"
  sn_policy_id :: string
  sn_scope :: budget_scope

definition min_inf :: "real option \<Rightarrow> real \<Rightarrow> real option" where
  "min_inf a b = (case a of None \<Rightarrow> Some b | Some x \<Rightarrow> Some (min x b))"

definition warn :: "budget_policy \<Rightarrow> real option \<Rightarrow> policy_scan \<Rightarrow> policy_scan" where
  "warn p ratio s =
     (case ratio of
        None \<Rightarrow> s
      | Some x \<Rightarrow>
          (let sc = budget_scope_value (bg_scope p)
           in s\<lparr>sn_warnings := sn_warnings s @ [ApproachingLimit sc x],
                sn_engine := be_publish_blocking (''budget.warning'',
                    [(''policy_id'', Txt (bg_id p)), (''scope'', Txt sc), (''usage_ratio'', Num x),
                     (''warning_threshold'', Num (bg_warning_threshold p))])
                  (upd_stats (\<lambda>b. b\<lparr>bs_warnings_issued := bs_warnings_issued b + 1\<rparr>) (sn_engine s))\<rparr>))"

text \<open>The body of the loop over the policies, and the loop.\<close>

definition check_policy ::
  "budget_clock \<Rightarrow> real \<Rightarrow> budget_policy \<Rightarrow> policy_scan \<Rightarrow> budget_engine \<times> (budget_reason + policy_scan)" where
  "check_policy ck cost p s =
     (let ov = find_active_override (ck_now ck) (bg_id p) (sn_engine s);
          s = s\<lparr>sn_overrides := (if ov = None then sn_overrides s else insert (bg_id p) (sn_overrides s))\<rparr>;
          l = spend_limits_of p ov;
          u = get_usage ck (bg_id p) (be_usage_tracker (sn_engine s))
      in case exceeded l u (bg_id p) cost of
           Some rsn \<Rightarrow> (note_hit p rsn (sn_engine s), Inl rsn)
         | None \<Rightarrow>
             (let s = warn p (soft_warning p l u cost) s;
                  s = s\<lparr>sn_remaining :=
                          (if li_total l > 0
                           then min_inf (sn_remaining s) (li_total l - us_total_spent u - us_active_reservations u)
                           else sn_remaining s),
                        sn_policy_id := bg_id p, sn_scope := bg_scope p\<rparr>
              in (sn_engine s, Inr s)))"

fun scan_policies ::
  "budget_clock \<Rightarrow> real \<Rightarrow> budget_policy list \<Rightarrow> policy_scan \<Rightarrow> budget_engine \<times> (budget_reason + policy_scan)" where
  "scan_policies ck cost [] s = (sn_engine s, Inr s)"
| "scan_policies ck cost (p # ps) s =
     (case check_policy ck cost p s of
        (e, Inl rsn) \<Rightarrow> (e, Inl rsn)
      | (e, Inr s) \<Rightarrow> scan_policies ck cost ps s)"

definition rejected_result :: "budget_reason \<Rightarrow> cost_estimate \<Rightarrow> budget_result" where
  "rejected_result rsn est =
     \<lparr>br_approved = False, br_rejected = True, br_reason = rsn, br_estimated_cost = ce_estimated_cost est,
      br_max_cost = ce_max_cost est, br_remaining_budget = Some 0, br_reservation_id = [],
      br_effective_policy_id = [], br_effective_scope = BG_GLOBAL, br_warnings = [], br_overrides_applied = {}\<rparr>"

definition RESERVATION_TTL :: real where
  "RESERVATION_TTL = 30"

definition put_reservation :: "budget_reservation \<Rightarrow> budget_engine \<Rightarrow> budget_engine" where
  "put_reservation rv e = e\<lparr>be_reservations := dict_set (be_reservations e) (rv_id rv) rv\<rparr>"

text \<open>The reservation of an approved candidate, on the last policy that was checked.\<close>

definition candidate_reservation ::
  "budget_clock \<Rightarrow> string \<Rightarrow> omni_provider \<Rightarrow> omni_model \<Rightarrow> cost_estimate \<Rightarrow> policy_scan \<Rightarrow> budget_reservation" where
  "candidate_reservation ck uid p m est s =
     \<lparr>rv_id = uid, rv_policy_id = sn_policy_id s, rv_scope = sn_scope s, rv_scope_id = [],
      rv_provider = pv_name p, rv_model = md_model_id m, rv_estimated_cost = ce_estimated_cost est,
      rv_max_cost = ce_max_cost est, rv_timestamp = ck_now ck,
      rv_expires_at = Some (ck_now ck + RESERVATION_TTL), rv_committed = False,
      rv_rolled_back = False, rv_released = False\<rparr>"

definition reserve_candidate ::
  "budget_clock \<Rightarrow> string \<Rightarrow> omni_provider \<Rightarrow> omni_model \<Rightarrow> cost_estimate \<Rightarrow> policy_scan \<Rightarrow> budget_engine \<times> budget_result" where
  "reserve_candidate ck uid p m est s =
     (let cost = ce_estimated_cost est;
          e = put_reservation (candidate_reservation ck uid p m est s) (sn_engine s);
          e = (if sn_policy_id s = [] then e else upd_tracker (add_reservation ck (sn_policy_id s) cost) e);
          e = be_publish_blocking (''budget.reserved'',
                [(''reservation_id'', Txt uid), (''policy_id'', Txt (sn_policy_id s)), (''estimated_cost'', Num cost)]) e
      in (e, \<lparr>br_approved = True, br_rejected = False, br_reason = NoReason, br_estimated_cost = cost,
              br_max_cost = ce_max_cost est, br_remaining_budget = sn_remaining s, br_reservation_id = uid,
              br_effective_policy_id = sn_policy_id s, br_effective_scope = sn_scope s,
              br_warnings = sn_warnings s, br_overrides_applied = sn_overrides s\<rparr>))"

definition start_scan :: "budget_engine \<Rightarrow> policy_scan" where
  "start_scan e = \<lparr>sn_engine = e, sn_warnings = [], sn_overrides = {}, sn_remaining = None, sn_policy_id = [],
     sn_scope = BG_GLOBAL\<rparr>"

definition evaluate_candidate ::
  "budget_clock \<Rightarrow> routing_request \<Rightarrow> budget_policy list \<Rightarrow> string \<Rightarrow> omni_provider \<Rightarrow> omni_model \<Rightarrow> budget_engine \<Rightarrow>
   budget_engine \<times> budget_result" where
  "evaluate_candidate ck rq ps uid p m e =
     (let est = estimate_cost m rq; cost = ce_estimated_cost est in
      if over_limit (rq_budget_limit rq) cost
      then (e, rejected_result (OverRequestLimit cost (rq_budget_limit rq)) est)
      else
        (case scan_policies ck cost ps (start_scan e) of
           (e, Inl rsn) \<Rightarrow> (e, rejected_result rsn est)
         | (e, Inr s) \<Rightarrow> reserve_candidate ck uid p m est s))"

subsection \<open>Reservations\<close>

definition is_open :: "budget_reservation \<Rightarrow> bool" where
  "is_open rv \<longleftrightarrow> \<not> rv_committed rv \<and> \<not> rv_rolled_back rv \<and> \<not> rv_released rv"

definition free_funds :: "budget_clock \<Rightarrow> budget_reservation \<Rightarrow> budget_engine \<Rightarrow> budget_engine" where
  "free_funds ck rv e =
     (if rv_policy_id rv = [] then e
      else upd_tracker (remove_reservation ck (rv_policy_id rv) (rv_estimated_cost rv)) e)"

definition close_released :: "budget_reservation \<Rightarrow> budget_reservation" where
  "close_released rv =
     rv\<lparr>rv_expires_at := None, rv_committed := False, rv_rolled_back := False, rv_released := True\<rparr>"

definition has_expired :: "real \<Rightarrow> budget_reservation \<Rightarrow> bool" where
  "has_expired now rv \<longleftrightarrow>
     is_open rv \<and> (case rv_expires_at rv of None \<Rightarrow> False | Some t \<Rightarrow> t < now)"

definition expire_reservation :: "budget_clock \<Rightarrow> string \<Rightarrow> budget_engine \<Rightarrow> budget_engine" where
  "expire_reservation ck i e =
     (case dict_get (be_reservations e) i of
        None \<Rightarrow> e
      | Some rv \<Rightarrow>
          free_funds ck rv (e\<lparr>be_reservations := dict_set (be_reservations e) i (close_released rv)\<rparr>))"

definition cleanup_expired :: "budget_clock \<Rightarrow> budget_engine \<Rightarrow> budget_engine" where
  "cleanup_expired ck e =
     fold (expire_reservation ck)
       (map fst (filter (\<lambda>(i, rv). has_expired (ck_now ck) rv) (be_reservations e))) e"

definition be_reserve ::
  "budget_clock \<Rightarrow> string \<Rightarrow> string \<Rightarrow> string \<Rightarrow> real \<Rightarrow> real \<Rightarrow> budget_scope \<Rightarrow> string \<Rightarrow> budget_engine \<Rightarrow>
   budget_engine \<times> budget_reservation" where
  "be_reserve ck uid provider model cost max_cost sc sid e =
     (let rv = \<lparr>rv_id = uid, rv_policy_id = [], rv_scope = sc, rv_scope_id = sid, rv_provider = provider,
                rv_model = model, rv_estimated_cost = cost, rv_max_cost = max_cost,
                rv_timestamp = ck_now ck, rv_expires_at = Some (ck_now ck + RESERVATION_TTL),
                rv_committed = False, rv_rolled_back = False, rv_released = False\<rparr>;
          e = put_reservation rv (cleanup_expired ck e);
          e = be_publish (''budget.reserved'',
                [(''reservation_id'', Txt uid), (''provider'', Txt provider), (''estimated_cost'', Num cost)]) e
      in (be_add_audit (audit_of ''reserve'' uid provider model cost []) e, rv))"

definition settle_event :: "string \<Rightarrow> string \<Rightarrow> budget_reservation \<Rightarrow> omni_event" where
  "settle_event topic i rv =
     (topic, [(''reservation_id'', Txt i), (''policy_id'', Txt (rv_policy_id rv)), (''amount'', Num (rv_estimated_cost rv))])"

definition be_commit :: "budget_clock \<Rightarrow> string \<Rightarrow> budget_engine \<Rightarrow> budget_engine \<times> bool" where
  "be_commit ck i e =
     (case dict_get (be_reservations e) i of
        None \<Rightarrow> (e, False)
      | Some rv \<Rightarrow>
          if \<not> is_open rv then (e, False)
          else
            (let cost = rv_estimated_cost rv;
                 e = e\<lparr>be_reservations := dict_set (be_reservations e) i (rv\<lparr>rv_committed := True\<rparr>)\<rparr>;
                 e = (if rv_policy_id rv = [] then e
                      else upd_tracker
                             (\<lambda>t. record_spend ck (rv_policy_id rv) cost (rv_provider rv) (rv_model rv)
                                    (remove_reservation ck (rv_policy_id rv) cost t)) e);
                 e = upd_stats (\<lambda>s. s\<lparr>bs_commits := bs_commits s + 1,
                       bs_provider_spend := dict_set (bs_provider_spend s) (rv_provider rv)
                         (dict_get_or (bs_provider_spend s) (rv_provider rv) 0 + cost),
                       bs_model_spend := dict_set (bs_model_spend s) (rv_model rv)
                         (dict_get_or (bs_model_spend s) (rv_model rv) 0 + cost)\<rparr>) e;
                 e = be_publish (settle_event ''budget.committed'' i rv) e
             in (be_add_audit (audit_of ''commit'' i [] [] cost []) e, True)))"

text \<open>A released reservation can still be rolled back.\<close>

definition be_rollback :: "budget_clock \<Rightarrow> string \<Rightarrow> budget_engine \<Rightarrow> budget_engine \<times> bool" where
  "be_rollback ck i e =
     (case dict_get (be_reservations e) i of
        None \<Rightarrow> (e, False)
      | Some rv \<Rightarrow>
          if rv_committed rv \<or> rv_rolled_back rv then (e, False)
          else
            (let rv' = rv\<lparr>rv_expires_at := None, rv_committed := False, rv_rolled_back := True, rv_released := False\<rparr>;
                 e = free_funds ck rv (e\<lparr>be_reservations := dict_set (be_reservations e) i rv'\<rparr>);
                 e = upd_stats (\<lambda>s. s\<lparr>bs_rollbacks := bs_rollbacks s + 1,
                                       bs_cost_saved := bs_cost_saved s + rv_estimated_cost rv\<rparr>) e;
                 e = be_publish (settle_event ''budget.rollback'' i rv) e
             in (be_add_audit (audit_of ''rollback'' i [] [] (rv_estimated_cost rv) []) e, True)))"

text \<open>A committed or rolled back reservation can still be released.\<close>

definition be_release :: "budget_clock \<Rightarrow> string \<Rightarrow> budget_engine \<Rightarrow> budget_engine \<times> bool" where
  "be_release ck i e =
     (case dict_get (be_reservations e) i of
        None \<Rightarrow> (e, False)
      | Some rv \<Rightarrow>
          if rv_released rv then (e, False)
          else
            (let e = free_funds ck rv (e\<lparr>be_reservations := dict_set (be_reservations e) i (close_released rv)\<rparr>);
                 e = be_publish (''budget.released'',
                       [(''reservation_id'', Txt i), (''policy_id'', Txt (rv_policy_id rv))]) e
             in (be_add_audit (audit_of ''release'' i [] [] (rv_estimated_cost rv) []) e, True)))"

subsection \<open>Evaluation of all candidates\<close>

text \<open>A candidate is a provider and a model, with the identifier made for its reservation.\<close>

type_synonym budget_candidate = "omni_provider \<times> omni_model \<times> string"

fun evaluate_candidates ::
  "budget_clock \<Rightarrow> routing_request \<Rightarrow> budget_policy list \<Rightarrow> budget_candidate list \<Rightarrow> budget_engine \<Rightarrow>
   budget_engine \<times> budget_result list" where
  "evaluate_candidates ck rq ps [] e = (e, [])"
| "evaluate_candidates ck rq ps ((p, m, uid) # cs) e =
     (let (e, r) = evaluate_candidate ck rq ps uid p m e;
          (e, rs) = evaluate_candidates ck rq ps cs e
      in (e, r # rs))"

definition candidate_name :: "omni_provider \<Rightarrow> omni_model \<Rightarrow> string" where
  "candidate_name p m = pv_name p @ ''/'' @ md_model_id m"

definition count_evaluation :: "budget_result list \<Rightarrow> budget_engine \<Rightarrow> budget_engine" where
  "count_evaluation rs e =
     upd_stats (\<lambda>s. s\<lparr>bs_total_evaluations := bs_total_evaluations s + 1,
       bs_approvals := bs_approvals s + int (length (filter br_approved rs)),
       bs_rejections := bs_rejections s + int (length (filter br_rejected rs)),
       bs_reservation_count := bs_reservation_count s + int (length (filter br_approved rs)),
       bs_active_reservations := int (length (be_reservations e))\<rparr>) e"

definition be_evaluate ::
  "budget_clock \<Rightarrow> budget_candidate list \<Rightarrow> routing_request \<Rightarrow> budget_engine \<Rightarrow> budget_engine \<times> budget_decision" where
  "be_evaluate ck cs rq e =
     (let e = cleanup_expired ck e in
      if be_emergency_mode e then
        (upd_stats (\<lambda>s. s\<lparr>bs_total_evaluations := bs_total_evaluations s + 1, bs_rejections := bs_rejections s + 1,
                           bs_active_reservations := int (length (be_reservations e))\<rparr>) e,
         \<lparr>bd_approved = False, bd_rejected = True, bd_reason = ''Emergency mode: all spending blocked'',
          bd_filtered_candidates = [], bd_results = [], bd_reservations = [], bd_emergency_mode = True\<rparr>)
      else
        (let (e, rs) = evaluate_candidates ck rq (resolve_applicable_policies rq e) cs e;
             ok = list_ex br_approved rs;
             e = count_evaluation rs e;
             d = \<lparr>bd_approved = ok, bd_rejected = (\<not> ok),
                  bd_reason = (if ok then [] else ''All candidates exceed budget limits''),
                  bd_filtered_candidates =
                    map (\<lambda>((p, m, uid), r). candidate_name p m) (filter (\<lambda>(c, r). \<not> br_approved r) (zip cs rs)),
                  bd_results = rs, bd_reservations = map br_reservation_id (filter br_approved rs),
                  bd_emergency_mode = False\<rparr>;
             e = be_publish
                   (if ok
                    then (''budget.approved'', [(''request_id'', Txt (rq_request_id rq)),
                            (''approved_count'', Num (of_nat (length (filter br_approved rs)))),
                            (''total_candidates'', Num (of_nat (length cs)))])
                    else (''budget.rejected'', [(''request_id'', Txt (rq_request_id rq)),
                            (''reason'', Txt ''All candidates exceed budget limits'')])) e
         in (be_add_audit (audit_of ''evaluate'' [] [] [] 0 (rq_request_id rq)) e, d)))"

subsection \<open>Overrides, emergency mode, reports\<close>

definition be_apply_override :: "budget_override \<Rightarrow> budget_engine \<Rightarrow> budget_engine \<times> bool" where
  "be_apply_override ov e =
     (be_publish (''budget.override'',
        [(''override_id'', Txt (ov_id ov)), (''policy_id'', Txt (ov_policy_id ov)), (''reason'', Txt (ov_reason ov))])
        (e\<lparr>be_overrides := dict_set (be_overrides e) (ov_id ov) ov\<rparr>), True)"

definition be_remove_override :: "string \<Rightarrow> budget_engine \<Rightarrow> budget_engine \<times> bool" where
  "be_remove_override i e =
     (if i \<notin> set (dict_keys (be_overrides e)) then (e, False)
      else (e\<lparr>be_overrides := dict_del (be_overrides e) i\<rparr>, True))"

definition be_set_emergency_mode :: "bool \<Rightarrow> budget_engine \<Rightarrow> budget_engine" where
  "be_set_emergency_mode active e = e\<lparr>be_emergency_mode := active\<rparr>"

record budget_snapshot =
  bn_policies :: "budget_policy list"
  bn_usage :: "budget_usage list"
  bn_active_reservations :: "budget_reservation list"
  bn_statistics :: budget_statistics
  bn_emergency_mode :: bool

definition be_snapshot :: "budget_clock \<Rightarrow> budget_engine \<Rightarrow> budget_engine \<times> budget_snapshot" where
  "be_snapshot ck e =
     (let e = cleanup_expired ck e
      in (e, \<lparr>bn_policies = dict_values (be_policies e), bn_usage = dict_values (ut_usage (be_usage_tracker e)),
              bn_active_reservations = filter is_open (dict_values (be_reservations e)),
              bn_statistics = be_stats e, bn_emergency_mode = be_emergency_mode e\<rparr>))"

definition be_statistics :: "budget_engine \<Rightarrow> budget_statistics" where
  "be_statistics e = be_stats e"

definition be_usage :: "budget_clock \<Rightarrow> string \<Rightarrow> budget_engine \<Rightarrow> budget_usage" where
  "be_usage ck i e = get_usage ck i (be_usage_tracker e)"

definition be_read_audit_log :: "int \<Rightarrow> int \<Rightarrow> budget_engine \<Rightarrow> budget_audit_record list" where
  "be_read_audit_log limit offset e =
     (let n = int (length (be_audit_log e)); first = min offset n
      in py_slice first (min (first + limit) n) (rev (be_audit_log e)))"

record budget_metrics =
  bm_statistics :: budget_statistics
  bm_policies_count :: int
  bm_reservations_count :: int
  bm_overrides_count :: int
  bm_emergency_mode :: bool
  bm_uptime_seconds :: real

definition be_metrics :: "real \<Rightarrow> budget_engine \<Rightarrow> budget_metrics" where
  "be_metrics now e =
     \<lparr>bm_statistics = be_stats e, bm_policies_count = int (length (be_policies e)),
      bm_reservations_count = int (length (be_reservations e)),
      bm_overrides_count = int (length (be_overrides e)), bm_emergency_mode = be_emergency_mode e,
      bm_uptime_seconds = (if be_start_time e > 0 then now - be_start_time e else 0)\<rparr>"

subsection \<open>Forecast\<close>

text \<open>An unlimited amount is \<open>None\<close>, as it is for the remaining budget of a result.\<close>

datatype forecast_warning = ShortRunway real | DailyAlmostSpent

record budget_forecast =
  bf_projected_daily_spend :: real
  bf_projected_monthly_spend :: real
  bf_remaining_daily_budget :: "real option"
  bf_remaining_monthly_budget :: "real option"
  bf_estimated_days_remaining :: int
  bf_estimated_runway_days :: "real option"
  bf_provider_forecast :: "(string, real) dict"
  bf_model_forecast :: "(string, real) dict"
  bf_at_risk :: bool
  bf_warnings :: "forecast_warning list"

definition left_of :: "real \<Rightarrow> real \<Rightarrow> real option" where
  "left_of limit spent = (if limit > 0 then Some (max 0 (limit - spent)) else None)"

definition sum_spends :: "(string, real) dict list \<Rightarrow> (string, real) dict" where
  "sum_spends ds = fold (\<lambda>(k, x) d. dict_set d k (dict_get_or d k 0 + x)) (concat ds) []"

text \<open>
  The length of the month is read off a date whose day was just replaced by one, so it is one; the
  expression is written out as the code has it.
\<close>

definition days_in_month :: "date \<Rightarrow> int" where
  "days_in_month d = (let (y, m, _) = d; (_, _, first) = (y, m + 1, 1 :: int) in first)"

definition be_forecast :: "budget_clock \<Rightarrow> budget_engine \<Rightarrow> budget_forecast" where
  "be_forecast ck e =
     (let us = dict_values (ut_usage (be_usage_tracker e));
          total_daily = sum_list (map us_daily_spent us);
          glob = find (\<lambda>p. bg_scope p = BG_GLOBAL \<and> bg_enabled p) (dict_values (be_policies e));
          rest = (\<lambda>limit spent. case glob of None \<Rightarrow> Some 0
                    | Some p \<Rightarrow> left_of (limit p) (spent (get_usage ck (bg_id p) (be_usage_tracker e))));
          rest_daily = rest bg_max_spend_daily us_daily_spent;
          rest_monthly = rest bg_max_spend_monthly us_monthly_spent;
          (_, _, day) = ck_utc ck;
          avg_daily = total_daily / of_int (max 1 day);
          runway = (case rest_monthly of None \<Rightarrow> None
                    | Some x \<Rightarrow> if x > 0 then Some (x / max (1 / 1000) avg_daily) else Some 0);
          at_risk = (case (rest_monthly, runway) of (Some x, Some y) \<Rightarrow> x > 0 \<and> y < 7 | _ \<Rightarrow> False)
      in \<lparr>bf_projected_daily_spend = avg_daily,
          bf_projected_monthly_spend = avg_daily * of_int (days_in_month (ck_utc ck)),
          bf_remaining_daily_budget = rest_daily, bf_remaining_monthly_budget = rest_monthly,
          bf_estimated_days_remaining = max 1 (days_in_month (ck_utc ck) - day),
          bf_estimated_runway_days = runway, bf_provider_forecast = sum_spends (map us_provider_spend us),
          bf_model_forecast = sum_spends (map us_model_spend us), bf_at_risk = at_risk,
          bf_warnings =
            (case runway of Some y \<Rightarrow> if at_risk then [ShortRunway y] else [] | None \<Rightarrow> []) @
            (case rest_daily of
               Some x \<Rightarrow> if total_daily > 0 \<and> x < total_daily * (2 / 10) then [DailyAlmostSpent] else []
             | None \<Rightarrow> [])\<rparr>)"

end
