(* ===== verification/Budget_Laws.thy ===== *)
theory Budget_Laws
  imports Budgets
begin

text \<open>
  What the budget engine guarantees: when exactly a candidate is approved, that the books of a policy
  agree with the log of spending and with the open reservations, and where a limit does not limit.
\<close>

subsection \<open>What publishing and counting leave alone\<close>

definition core :: "budget_engine \<Rightarrow>
    (string, budget_policy) dict \<times> (string, string list) dict \<times> (string, budget_reservation) dict \<times>
    (string, budget_override) dict \<times> usage_tracker \<times> bool" where
  "core e = (be_policies e, be_policies_by_scope e, be_reservations e, be_overrides e, be_usage_tracker e,
     be_emergency_mode e)"

lemma core_publish [simp]:
  "core (be_publish ev e) = core e" "core (be_publish_blocking ev e) = core e"
  "core (be_add_audit rec e) = core e" "core (be_record_limit_hit sc e) = core e"
  "core (e\<lparr>be_stats := st\<rparr>) = core e" "core (note_hit p rsn e) = core e" "core (count_evaluation rs e) = core e"
  by (simp_all add: core_def be_publish_def be_publish_blocking_def be_add_audit_def be_record_limit_hit_def
      note_hit_def count_evaluation_def Let_def split: budget_reason.splits)

lemma coreD:
  assumes "core e = core e'"
  shows "be_policies e = be_policies e'" "be_policies_by_scope e = be_policies_by_scope e'"
    "be_reservations e = be_reservations e'" "be_overrides e = be_overrides e'"
    "be_usage_tracker e = be_usage_tracker e'" "be_emergency_mode e = be_emergency_mode e'"
  using assms by (simp_all add: core_def)

lemma core_warn [simp]: "core (sn_engine (warn p r s)) = core (sn_engine s)"
  by (cases r) (simp_all add: warn_def Let_def)

lemma find_override_core: "core e = core e' \<Longrightarrow> find_active_override now i e = find_active_override now i e'"
  by (simp add: find_active_override_def core_def)

subsection \<open>When a candidate is approved\<close>

text \<open>One policy with the limits in force and the usage recorded so far.\<close>

definition admits :: "budget_clock \<Rightarrow> budget_engine \<Rightarrow> real \<Rightarrow> budget_policy \<Rightarrow> bool" where
  "admits ck e cost p \<longleftrightarrow>
     (let l = spend_limits_of p (find_active_override (ck_now ck) (bg_id p) e); u = get_usage ck (bg_id p) (be_usage_tracker e)
      in \<not> over_limit (li_hard l) cost \<and> \<not> over_limit (li_per_request l) cost \<and>
         \<not> over_limit (li_total l) (us_total_spent u + cost) \<and>
         \<not> over_limit (li_daily l) (us_daily_spent u + cost) \<and>
         \<not> over_limit (li_monthly l) (us_monthly_spent u + cost))"

lemma exceeded_None:
  "exceeded l u i cost = None \<longleftrightarrow>
     \<not> over_limit (li_hard l) cost \<and> \<not> over_limit (li_per_request l) cost \<and>
     \<not> over_limit (li_total l) (us_total_spent u + cost) \<and>
     \<not> over_limit (li_daily l) (us_daily_spent u + cost) \<and> \<not> over_limit (li_monthly l) (us_monthly_spent u + cost)"
  by (auto simp: exceeded_def)

lemma admits_iff_not_exceeded:
  "admits ck e cost p \<longleftrightarrow>
     exceeded (spend_limits_of p (find_active_override (ck_now ck) (bg_id p) e)) (get_usage ck (bg_id p) (be_usage_tracker e))
       (bg_id p) cost = None"
  by (simp add: admits_def exceeded_None Let_def)

lemma admits_core: "core e = core e' \<Longrightarrow> admits ck e cost p = admits ck e' cost p"
  using find_override_core [of e e'] coreD [of e e'] by (simp add: admits_def)

lemma check_policy_cases:
  obtains
    (over) e' rsn where "check_policy ck cost p s = (e', Inl rsn)" "core e' = core (sn_engine s)"
      "\<not> admits ck (sn_engine s) cost p"
  | (within) s' where "check_policy ck cost p s = (sn_engine s', Inr s')" "core (sn_engine s') = core (sn_engine s)"
      "admits ck (sn_engine s) cost p" "sn_policy_id s' = bg_id p"
proof (cases "exceeded (spend_limits_of p (find_active_override (ck_now ck) (bg_id p) (sn_engine s)))
               (get_usage ck (bg_id p) (be_usage_tracker (sn_engine s))) (bg_id p) cost")
  case None
  then have "\<exists>s'. check_policy ck cost p s = (sn_engine s', Inr s') \<and> core (sn_engine s') = core (sn_engine s) \<and>
      sn_policy_id s' = bg_id p"
    by (simp add: check_policy_def Let_def)
  moreover have "admits ck (sn_engine s) cost p" using None by (simp add: admits_iff_not_exceeded)
  ultimately show thesis using that(2) by blast
next
  case (Some rsn)
  then have "\<not> admits ck (sn_engine s) cost p" by (simp add: admits_iff_not_exceeded)
  moreover have "check_policy ck cost p s = (note_hit p rsn (sn_engine s), Inl rsn)"
    using Some by (simp add: check_policy_def Let_def)
  ultimately show thesis using that(1) by simp
qed

text \<open>The scan of the policies: it ends with success exactly if all of them admit the cost.\<close>

lemma scan_policies_cases:
  obtains
    (over) e' rsn where "scan_policies ck cost ps s = (e', Inl rsn)" "core e' = core (sn_engine s)"
      "\<not> (\<forall>p\<in>set ps. admits ck (sn_engine s) cost p)"
  | (within) s' where "scan_policies ck cost ps s = (sn_engine s', Inr s')" "core (sn_engine s') = core (sn_engine s)"
      "\<forall>p\<in>set ps. admits ck (sn_engine s) cost p"
      "sn_policy_id s' = (if ps = [] then sn_policy_id s else bg_id (last ps))"
proof (induction ps arbitrary: s thesis)
  case (Cons p ps)
  show thesis
  proof (cases rule: check_policy_cases [of ck cost p s])
    case (over e' rsn)
    then show thesis using Cons.prems(1) by simp
  next
    case (within s1)
    note first = within
    show thesis
    proof (rule Cons.IH [of s1], goal_cases)
      case (1 e' rsn)
      then show thesis using Cons.prems(1) [of e' rsn] first admits_core [OF first(2)] by simp
    next
      case (2 s')
      then show thesis using Cons.prems(2) [of s'] first admits_core [OF first(2)] by simp
    qed
  qed
qed simp

lemma reserve_candidate_approved [simp]: "br_approved (snd (reserve_candidate ck uid p m est s))"
  by (simp add: reserve_candidate_def Let_def)

lemma evaluate_candidate_cases:
  obtains
    (rejected) e' rsn where "evaluate_candidate ck rq ps uid p m e = (e', rejected_result rsn (estimate_cost m rq))"
      "core e' = core e"
      "over_limit (rq_budget_limit rq) (ce_estimated_cost (estimate_cost m rq)) \<or>
       \<not> (\<forall>q\<in>set ps. admits ck e (ce_estimated_cost (estimate_cost m rq)) q)"
  | (approved) s where "evaluate_candidate ck rq ps uid p m e = reserve_candidate ck uid p m (estimate_cost m rq) s"
      "core (sn_engine s) = core e" "sn_policy_id s = (if ps = [] then [] else bg_id (last ps))"
      "\<not> over_limit (rq_budget_limit rq) (ce_estimated_cost (estimate_cost m rq))"
      "\<forall>q\<in>set ps. admits ck e (ce_estimated_cost (estimate_cost m rq)) q"
proof -
  let ?c = "ce_estimated_cost (estimate_cost m rq)"
  show thesis
  proof (cases "over_limit (rq_budget_limit rq) ?c")
    case True
    then show thesis
      using rejected [of e "OverRequestLimit ?c (rq_budget_limit rq)"] by (simp add: evaluate_candidate_def Let_def)
  next
    case False
    have st: "sn_engine (start_scan e) = e" "sn_policy_id (start_scan e) = []" by (simp_all add: start_scan_def)
    show thesis
    proof (cases rule: scan_policies_cases [of ck ?c ps "start_scan e"])
      case (over e' rsn)
      then show thesis using rejected [of e' rsn] False st by (simp add: evaluate_candidate_def Let_def)
    next
      case (within s)
      then show thesis using approved [of s] False st by (simp add: evaluate_candidate_def Let_def)
    qed
  qed
qed

subsection \<open>Reservations do not change what is spent\<close>

definition spent_of :: "usage_tracker \<Rightarrow> string \<Rightarrow> real \<times> real \<times> real" where
  "spent_of t i = (case dict_get (ut_usage t) i of None \<Rightarrow> (0, 0, 0)
     | Some u \<Rightarrow> (us_total_spent u, us_daily_spent u, us_monthly_spent u))"

definition spending :: "budget_engine \<Rightarrow>
    (string, budget_policy) dict \<times> (string, string list) dict \<times> (string, budget_override) dict \<times> bool \<times>
    (string \<Rightarrow> real \<times> real \<times> real)" where
  "spending e = (be_policies e, be_policies_by_scope e, be_overrides e, be_emergency_mode e, spent_of (be_usage_tracker e))"

lemma spent_of_get_usage:
  "spent_of t i = (us_total_spent (get_usage ck i t), us_daily_spent (get_usage ck i t), us_monthly_spent (get_usage ck i t))"
  by (simp add: spent_of_def get_usage_def dict_get_or_def new_usage_def split: option.splits)

lemma spending_core: "core e = core e' \<Longrightarrow> spending e = spending e'"
  by (simp add: core_def spending_def)

lemma spending_reservation [simp]:
  "spent_of (add_reservation ck i c t) = spent_of t" "spent_of (remove_reservation ck i c t) = spent_of t"
  by (auto simp: spent_of_def add_reservation_def remove_reservation_def get_usage_def dict_get_or_def new_usage_def
      Let_def split: option.splits)

lemma spending_put [simp]:
  "spending (put_reservation rv e) = spending e" "spending (e\<lparr>be_reservations := d\<rparr>) = spending e"
  "spending (free_funds ck rv e) = spending e"
  by (simp_all add: spending_def put_reservation_def free_funds_def)

lemma spending_cleanup [simp]: "spending (cleanup_expired ck e) = spending e"
proof -
  have "spending (fold (expire_reservation ck) is e) = spending e" for "is"
    by (induction "is" arbitrary: e) (simp_all add: expire_reservation_def split: option.splits)
  then show ?thesis by (simp add: cleanup_expired_def)
qed

lemma spending_reserve: "spending (fst (reserve_candidate ck uid p m est s)) = spending (sn_engine s)"
proof -
  have pub: "spending (be_publish_blocking ev x) = spending x" for ev x by (rule spending_core) simp
  show ?thesis by (simp add: reserve_candidate_def Let_def pub) (simp add: spending_def put_reservation_def)
qed

lemma spending_evaluate_candidate: "spending (fst (evaluate_candidate ck rq ps uid p m e)) = spending e"
proof (cases rule: evaluate_candidate_cases [of ck rq ps uid p m e])
  case (rejected e' rsn)
  then show ?thesis using spending_core [of e' e] by simp
next
  case (approved s)
  then show ?thesis using spending_core [of "sn_engine s" e] spending_reserve by simp
qed

lemma admits_spending: "spending e = spending e' \<Longrightarrow> admits ck e cost p = admits ck e' cost p"
  using spent_of_get_usage [of "be_usage_tracker e" "bg_id p" ck]
    spent_of_get_usage [of "be_usage_tracker e'" "bg_id p" ck]
  by (simp add: admits_def spending_def find_active_override_def Let_def)

subsection \<open>The results of an evaluation\<close>

definition fits :: "budget_clock \<Rightarrow> routing_request \<Rightarrow> budget_engine \<Rightarrow> omni_model \<Rightarrow> bool" where
  "fits ck rq e m \<longleftrightarrow>
     (let cost = ce_estimated_cost (estimate_cost m rq)
      in \<not> over_limit (rq_budget_limit rq) cost \<and> (\<forall>q\<in>set (resolve_applicable_policies rq e). admits ck e cost q))"

lemma fits_spending:
  assumes "spending e = spending e'"
  shows "fits ck rq e m = fits ck rq e' m"
proof -
  have "be_policies e = be_policies e'" "be_policies_by_scope e = be_policies_by_scope e'"
    using assms by (simp_all add: spending_def)
  then have "collect_policy e = collect_policy e'" by (intro ext) (simp add: collect_policy_def)
  then have "resolve_applicable_policies rq e = resolve_applicable_policies rq e'"
    using \<open>be_policies_by_scope e = be_policies_by_scope e'\<close> by (simp add: resolve_applicable_policies_def)
  then show ?thesis using admits_spending [OF assms] by (simp add: fits_def Let_def)
qed

lemma evaluate_candidate_approved:
  "br_approved (snd (evaluate_candidate ck rq ps uid p m e)) \<longleftrightarrow>
     \<not> over_limit (rq_budget_limit rq) (ce_estimated_cost (estimate_cost m rq)) \<and>
     (\<forall>q\<in>set ps. admits ck e (ce_estimated_cost (estimate_cost m rq)) q)"
  by (cases rule: evaluate_candidate_cases [of ck rq ps uid p m e]) (auto simp: rejected_result_def)

lemma evaluate_candidates_results:
  assumes "evaluate_candidates ck rq (resolve_applicable_policies rq e0) cs e = (e', rs)"
    and "spending e = spending e0"
  shows "map br_approved rs = map (\<lambda>(p, m, uid). fits ck rq e0 m) cs \<and> spending e' = spending e0"
  using assms
proof (induction cs arbitrary: e e' rs)
  case (Cons c cs)
  obtain p m uid where c: "c = (p, m, uid)" by (metis surj_pair)
  obtain e1 r where one: "evaluate_candidate ck rq (resolve_applicable_policies rq e0) uid p m e = (e1, r)" by force
  obtain e2 rs' where rest: "evaluate_candidates ck rq (resolve_applicable_policies rq e0) cs e1 = (e2, rs')" by force
  have out: "e' = e2" "rs = r # rs'" using Cons.prems(1) by (simp_all add: c one rest)
  have "spending e1 = spending e0"
    using spending_evaluate_candidate [of ck rq _ uid p m e] one Cons.prems(2) by (metis fst_conv)
  moreover have "br_approved r = fits ck rq e0 m"
    using evaluate_candidate_approved [of ck rq "resolve_applicable_policies rq e0" uid p m e]
      admits_spending [OF Cons.prems(2)] by (simp add: one fits_def Let_def)
  ultimately show ?case using Cons.IH [OF rest] unfolding out c by simp
qed simp

lemma be_evaluate_unfold:
  assumes "\<not> be_emergency_mode e"
    and "evaluate_candidates ck rq (resolve_applicable_policies rq (cleanup_expired ck e)) cs (cleanup_expired ck e) = (e1, rs)"
  shows "bd_results (snd (be_evaluate ck cs rq e)) = rs"
    "bd_approved (snd (be_evaluate ck cs rq e)) = list_ex br_approved rs"
    "bd_filtered_candidates (snd (be_evaluate ck cs rq e)) =
       map (\<lambda>((p, m, uid), r). candidate_name p m) (filter (\<lambda>(c, r). \<not> br_approved r) (zip cs rs))"
    "bd_reservations (snd (be_evaluate ck cs rq e)) = map br_reservation_id (filter br_approved rs)"
    "core (fst (be_evaluate ck cs rq e)) = core e1"
proof -
  have "be_emergency_mode (cleanup_expired ck e) = be_emergency_mode e"
    using spending_cleanup [of ck e] by (simp add: spending_def)
  then show "bd_results (snd (be_evaluate ck cs rq e)) = rs"
    "bd_approved (snd (be_evaluate ck cs rq e)) = list_ex br_approved rs"
    "bd_filtered_candidates (snd (be_evaluate ck cs rq e)) =
       map (\<lambda>((p, m, uid), r). candidate_name p m) (filter (\<lambda>(c, r). \<not> br_approved r) (zip cs rs))"
    "bd_reservations (snd (be_evaluate ck cs rq e)) = map br_reservation_id (filter br_approved rs)"
    "core (fst (be_evaluate ck cs rq e)) = core e1"
    using assms by (simp_all add: be_evaluate_def Let_def)
qed

lemma filtered_names:
  assumes "map br_approved rs = map (\<lambda>(p, m, uid). f m) cs"
  shows "map (\<lambda>((p, m, uid), r). candidate_name p m) (filter (\<lambda>(c, r). \<not> br_approved r) (zip cs rs)) =
         map (\<lambda>(p, m, uid). candidate_name p m) (filter (\<lambda>(p, m, uid). \<not> f m) cs)"
proof -
  have "length rs = length cs" using assms by (metis length_map)
  then show ?thesis using assms by (induction rs cs rule: list_induct2) auto
qed

lemma evaluation_results:
  assumes "\<not> be_emergency_mode e"
  shows "map br_approved (bd_results (snd (be_evaluate ck cs rq e))) = map (\<lambda>(p, m, uid). fits ck rq e m) cs"
    and "bd_approved (snd (be_evaluate ck cs rq e)) \<longleftrightarrow> (\<exists>(p, m, uid)\<in>set cs. fits ck rq e m)"
    and "bd_filtered_candidates (snd (be_evaluate ck cs rq e)) =
           map (\<lambda>(p, m, uid). candidate_name p m) (filter (\<lambda>(p, m, uid). \<not> fits ck rq e m) cs)"
    and "spending (fst (be_evaluate ck cs rq e)) = spending e"
proof -
  let ?e0 = "cleanup_expired ck e"
  obtain e1 rs where ev: "evaluate_candidates ck rq (resolve_applicable_policies rq ?e0) cs ?e0 = (e1, rs)" by force
  note r = evaluate_candidates_results [OF ev refl]
  have same: "fits ck rq ?e0 m = fits ck rq e m" for m by (rule fits_spending) simp
  have app: "map br_approved rs = map (\<lambda>(p, m, uid). fits ck rq e m) cs" using r by (simp add: same)
  note u = be_evaluate_unfold [OF assms ev]
  show "map br_approved (bd_results (snd (be_evaluate ck cs rq e))) = map (\<lambda>(p, m, uid). fits ck rq e m) cs"
    by (simp add: u app)
  have "list_ex br_approved rs \<longleftrightarrow> True \<in> set (map br_approved rs)" by (force simp: list_ex_iff)
  then show "bd_approved (snd (be_evaluate ck cs rq e)) \<longleftrightarrow> (\<exists>(p, m, uid)\<in>set cs. fits ck rq e m)"
    unfolding u app by force
  show "bd_filtered_candidates (snd (be_evaluate ck cs rq e)) =
      map (\<lambda>(p, m, uid). candidate_name p m) (filter (\<lambda>(p, m, uid). \<not> fits ck rq e m) cs)"
    by (simp add: u filtered_names [OF app])
  show "spending (fst (be_evaluate ck cs rq e)) = spending e"
    using spending_core [OF u(5)] r by simp
qed

text \<open>C27: An evaluation outside emergency mode approves exactly the candidates whose estimated cost is within
  the limit of the request and, for every applicable policy, within the hard and per-request limits and,
  added to what was spent before, within the total, daily and monthly limits. The verdict on a candidate
  does not depend on the other candidates nor on reservations that are open; rejected candidates are named
  in the decision, and nothing counts as spent.\<close>

theorem evaluation_approves_exactly:
  assumes "\<not> be_emergency_mode e"
  shows "map br_approved (bd_results (snd (be_evaluate ck cs rq e))) = map (\<lambda>(p, m, uid). fits ck rq e m) cs \<and>
    (bd_approved (snd (be_evaluate ck cs rq e)) \<longleftrightarrow> (\<exists>(p, m, uid)\<in>set cs. fits ck rq e m)) \<and>
    bd_filtered_candidates (snd (be_evaluate ck cs rq e)) =
      map (\<lambda>(p, m, uid). candidate_name p m) (filter (\<lambda>(p, m, uid). \<not> fits ck rq e m) cs) \<and>
    spending (fst (be_evaluate ck cs rq e)) = spending e"
  by (intro conjI evaluation_results assms)

subsection \<open>The books of a policy\<close>

definition open_total :: "(string, budget_reservation) dict \<Rightarrow> string \<Rightarrow> real" where
  "open_total R i =
     sum_list (map (\<lambda>(k, rv). if is_open rv \<and> rv_policy_id rv = i then rv_estimated_cost rv else 0) R)"

definition active_total :: "usage_tracker \<Rightarrow> string \<Rightarrow> real" where
  "active_total t i = (case dict_get (ut_usage t) i of None \<Rightarrow> 0 | Some u \<Rightarrow> us_active_reservations u)"

definition logged :: "usage_tracker \<Rightarrow> string \<Rightarrow> real" where
  "logged t i = sum_list (map (\<lambda>(k, a, time). if k = i then a else 0) (ut_spend_log t))"

definition requests :: "usage_tracker \<Rightarrow> string \<Rightarrow> int" where
  "requests t i = (case dict_get (ut_usage t) i of None \<Rightarrow> 0 | Some u \<Rightarrow> us_request_count u)"

text \<open>
  With \<open>strict\<close>, the reserved amount of a policy is the sum of its open reservations; otherwise it can
  only fall short of it.
\<close>

definition balance :: "bool \<Rightarrow> real \<Rightarrow> real \<Rightarrow> bool" where
  "balance strict a b \<longleftrightarrow> (if strict then a = b else a \<le> b)"

definition log_agrees :: "usage_tracker \<Rightarrow> bool" where
  "log_agrees t \<longleftrightarrow>
     (\<forall>i. fst (spent_of t i) = logged t i \<and>
          requests t i = int (length (filter (\<lambda>(k, a, time). k = i) (ut_spend_log t))))"

definition ledger :: "bool \<Rightarrow> (string, budget_reservation) dict \<Rightarrow> usage_tracker \<Rightarrow> bool" where
  "ledger strict R t \<longleftrightarrow>
     dict_wf R \<and> log_agrees t \<and> (\<forall>(k, rv)\<in>set R. rv_policy_id rv \<noteq> [] \<longrightarrow> 0 \<le> rv_estimated_cost rv) \<and>
     (\<forall>i. i \<noteq> [] \<longrightarrow> balance strict (active_total t i) (open_total R i))"

lemma sum_dict_set:
  fixes f :: "'k \<times> 'v \<Rightarrow> real"
  shows "sum_list (map f (dict_set d k v)) =
    sum_list (map f d) - (case dict_get d k of None \<Rightarrow> 0 | Some w \<Rightarrow> f (k, w)) + f (k, v)"
  by (induction d) auto

lemma open_total_set:
  "open_total (dict_set R k rv) i =
     open_total R i - (case dict_get R k of None \<Rightarrow> 0
        | Some w \<Rightarrow> if is_open w \<and> rv_policy_id w = i then rv_estimated_cost w else 0)
     + (if is_open rv \<and> rv_policy_id rv = i then rv_estimated_cost rv else 0)"
  unfolding open_total_def sum_dict_set by (simp split: option.splits)

lemma open_total_ge:
  assumes "\<forall>(k, rv)\<in>set R. rv_policy_id rv \<noteq> [] \<longrightarrow> 0 \<le> rv_estimated_cost rv" and "i \<noteq> []"
  shows "0 \<le> open_total R i \<and>
    (dict_get R k = Some rv \<longrightarrow> is_open rv \<longrightarrow> rv_policy_id rv = i \<longrightarrow> rv_estimated_cost rv \<le> open_total R i)"
  using assms
proof (induction R)
  case (Cons x R)
  obtain k' rv' where x: "x = (k', rv')" by force
  have "open_total (x # R) i = (if is_open rv' \<and> rv_policy_id rv' = i then rv_estimated_cost rv' else 0) + open_total R i"
    by (simp add: open_total_def x)
  moreover have "rv_policy_id rv' = i \<Longrightarrow> 0 \<le> rv_estimated_cost rv'" using Cons.prems x by auto
  ultimately show ?case using Cons x by auto
qed (simp add: open_total_def)

lemma tracker_totals [simp]:
  "active_total (add_reservation ck i c t) j = active_total t j + (if j = i then c else 0)"
  "active_total (remove_reservation ck i c t) j = active_total t j - (if j = i \<and> active_total t i > 0 then c else 0)"
  "active_total (record_spend ck i c p m t) j = active_total t j"
  "requests (add_reservation ck i c t) j = requests t j" "requests (remove_reservation ck i c t) j = requests t j"
  "requests (record_spend ck i c p m t) j = requests t j + (if j = i then 1 else 0)"
  "ut_spend_log (add_reservation ck i c t) = ut_spend_log t"
  "ut_spend_log (remove_reservation ck i c t) = ut_spend_log t"
  "ut_spend_log (record_spend ck i c p m t) = ut_spend_log t @ [(i, c, ck_now ck)]"
  "fst (spent_of (record_spend ck i c p m t) j) = fst (spent_of t j) + (if j = i then c else 0)"
  by (auto simp: active_total_def requests_def spent_of_def add_reservation_def remove_reservation_def record_spend_def
      get_usage_def dict_get_or_def new_usage_def spend_more_def first_spend_def Let_def case_prod_beta
      split: option.splits)

lemma log_agrees_tracker [simp]:
  "log_agrees t \<Longrightarrow> log_agrees (add_reservation ck i c t)"
  "log_agrees t \<Longrightarrow> log_agrees (remove_reservation ck i c t)"
  "log_agrees t \<Longrightarrow> log_agrees (record_spend ck i c p m t)"
  by (auto simp: log_agrees_def logged_def)

subsection \<open>Operations keep the books\<close>

abbreviation ledger_of :: "bool \<Rightarrow> budget_engine \<Rightarrow> bool" where
  "ledger_of strict e \<equiv> ledger strict (be_reservations e) (be_usage_tracker e)"

lemma ledger_core: "core e = core e' \<Longrightarrow> ledger_of strict e = ledger_of strict e'"
  by (simp add: core_def)

lemma ledger_init [simp]: "ledger_of strict (be_init b)"
  by (simp add: ledger_def be_init_def log_agrees_def spent_of_def logged_def requests_def active_total_def
      open_total_def balance_def)

text \<open>Adding an open reservation under a new identifier and reserving its amount.\<close>

lemma ledger_add:
  assumes "ledger strict R t" and "dict_get R (rv_id rv) = None" and "is_open rv"
    and "rv_policy_id rv \<noteq> [] \<Longrightarrow> 0 \<le> rv_estimated_cost rv"
  shows "ledger strict (dict_set R (rv_id rv) rv)
    (if rv_policy_id rv = [] then t else add_reservation ck (rv_policy_id rv) (rv_estimated_cost rv) t)"
proof -
  have "\<forall>(k, rv)\<in>set (dict_set R (rv_id rv) rv). rv_policy_id rv \<noteq> [] \<longrightarrow> 0 \<le> rv_estimated_cost rv"
    using assms by (intro ball_dict_set) (simp_all add: ledger_def)
  then show ?thesis using assms by (auto simp: ledger_def open_total_set balance_def)
qed

text \<open>Closing a stored reservation of the same policy and amount and freeing what it had reserved.\<close>

lemma ledger_close:
  assumes led: "ledger strict R t" and stored: "dict_get R k = Some rv" and closed: "\<not> is_open rv'"
    and same: "rv_policy_id rv' = rv_policy_id rv" "rv_estimated_cost rv' = rv_estimated_cost rv"
    and ok: "strict \<Longrightarrow> is_open rv"
  shows "ledger strict (dict_set R k rv')
    (if rv_policy_id rv = [] then t else remove_reservation ck (rv_policy_id rv) (rv_estimated_cost rv) t)"
proof -
  let ?p = "rv_policy_id rv" and ?c = "rv_estimated_cost rv"
  let ?t = "if ?p = [] then t else remove_reservation ck ?p ?c t"
  have cost: "rv_policy_id rv \<noteq> [] \<longrightarrow> 0 \<le> ?c"
    using led stored by (auto simp: ledger_def dest: map_of_SomeD)
  have "balance strict (active_total ?t i) (open_total (dict_set R k rv') i)" if i: "i \<noteq> []" for i
  proof -
    have b: "balance strict (active_total t i) (open_total R i)" using led i by (simp add: ledger_def)
    have ge: "0 \<le> open_total R i \<and> (is_open rv \<longrightarrow> ?p = i \<longrightarrow> ?c \<le> open_total R i)"
      using open_total_ge [of R i k rv] led i stored by (simp add: ledger_def)
    have a: "active_total ?t i = active_total t i - (if i = ?p \<and> active_total t ?p > 0 then ?c else 0)"
      using i by auto
    have o: "open_total (dict_set R k rv') i = open_total R i - (if is_open rv \<and> ?p = i then ?c else 0)"
      using closed by (simp add: open_total_set stored)
    show ?thesis
    proof (cases "?p = i")
      case True
      then show ?thesis using b ge cost ok i unfolding a o balance_def by (cases strict; cases "is_open rv") auto
    next
      case False
      then show ?thesis using b unfolding a o by (auto simp: balance_def)
    qed
  qed
  moreover have "log_agrees ?t" using led by (simp add: ledger_def)
  moreover have "\<forall>(k, rv)\<in>set (dict_set R k rv'). rv_policy_id rv \<noteq> [] \<longrightarrow> 0 \<le> rv_estimated_cost rv"
    using led cost by (intro ball_dict_set) (simp_all add: ledger_def same)
  ultimately show ?thesis using led by (simp add: ledger_def)
qed

lemma ledger_spend:
  "ledger strict R t \<Longrightarrow> ledger strict R (record_spend ck i c p m t)"
  by (simp add: ledger_def)

lemma ledger_free:
  assumes "ledger_of strict e" and "dict_get (be_reservations e) k = Some rv" and "\<not> is_open rv'"
    and "rv_policy_id rv' = rv_policy_id rv" and "rv_estimated_cost rv' = rv_estimated_cost rv"
    and "strict \<Longrightarrow> is_open rv"
  shows "ledger_of strict (free_funds ck rv (e\<lparr>be_reservations := dict_set (be_reservations e) k rv'\<rparr>))"
  using ledger_close [OF assms(1,2,3,4,5,6), of ck] by (simp add: free_funds_def split: if_splits)

lemma close_released_simps [simp]:
  "\<not> is_open (close_released rv)" "rv_policy_id (close_released rv) = rv_policy_id rv"
  "rv_estimated_cost (close_released rv) = rv_estimated_cost rv"
  by (simp_all add: close_released_def is_open_def)

lemma reservations_free [simp]: "be_reservations (free_funds ck rv e) = be_reservations e"
  by (simp add: free_funds_def)

lemma ledger_expire_all:
  assumes "ledger_of strict e" and "distinct is"
    and "\<forall>i\<in>set is. \<forall>rv. dict_get (be_reservations e) i = Some rv \<longrightarrow> is_open rv"
  shows "ledger_of strict (fold (expire_reservation ck) is e)"
  using assms
proof (induction "is" arbitrary: e)
  case (Cons i "is")
  show ?case
  proof (cases "dict_get (be_reservations e) i")
    case None
    then show ?thesis using Cons by (simp add: expire_reservation_def)
  next
    case (Some rv)
    let ?e = "expire_reservation ck i e"
    have e: "?e = free_funds ck rv (e\<lparr>be_reservations := dict_set (be_reservations e) i (close_released rv)\<rparr>)"
      using Some by (simp add: expire_reservation_def)
    have "ledger_of strict ?e" unfolding e using Cons.prems Some by (intro ledger_free) auto
    moreover have "\<forall>j\<in>set is. \<forall>rv. dict_get (be_reservations ?e) j = Some rv \<longrightarrow> is_open rv"
      using Cons.prems by (auto simp: e)
    ultimately show ?thesis using Cons.IH [of ?e] Cons.prems(2) by simp
  qed
qed simp

lemma keys_expire: "dict_keys (be_reservations (fold (expire_reservation ck) is e)) = dict_keys (be_reservations e)"
proof (induction "is" arbitrary: e)
  case (Cons i "is")
  have "dict_keys (dict_set d k v) = dict_keys d" if "dict_get d k = Some w" for d :: "(string, budget_reservation) dict" and k v w
    using that by (induction d) (auto split: if_splits)
  then have "dict_keys (be_reservations (expire_reservation ck i e)) = dict_keys (be_reservations e)"
    by (simp add: expire_reservation_def split: option.splits)
  then show ?case using Cons.IH by simp
qed simp

lemma keys_cleanup [simp]: "dict_keys (be_reservations (cleanup_expired ck e)) = dict_keys (be_reservations e)"
  by (simp add: cleanup_expired_def keys_expire)

lemma ledger_cleanup:
  assumes "ledger_of strict e"
  shows "ledger_of strict (cleanup_expired ck e)"
proof -
  let ?R = "be_reservations e" and ?due = "\<lambda>(i, rv). has_expired (ck_now ck) rv"
  have wf: "dict_wf ?R" using assms by (simp add: ledger_def)
  then have "distinct (map fst (filter ?due ?R))" by (rule distinct_map_filter)
  moreover have "\<forall>i\<in>set (map fst (filter ?due ?R)). \<forall>rv. dict_get ?R i = Some rv \<longrightarrow> is_open rv"
    using wf by (auto simp: has_expired_def dest: eq_key_imp_eq_value)
  ultimately show ?thesis unfolding cleanup_expired_def by (rule ledger_expire_all [OF assms])
qed

lemma ledger_put_reservation:
  assumes "ledger_of strict e" and "rv_id rv \<notin> set (dict_keys (be_reservations e))" and "is_open rv"
    and "rv_policy_id rv \<noteq> [] \<Longrightarrow> 0 \<le> rv_estimated_cost rv"
  shows "ledger strict (be_reservations (put_reservation rv e))
    (if rv_policy_id rv = [] then be_usage_tracker e
     else add_reservation ck (rv_policy_id rv) (rv_estimated_cost rv) (be_usage_tracker e))"
  using ledger_add [OF assms(1) _ assms(3,4), of ck] assms(2)
  by (simp add: put_reservation_def dict_get_None_iff)

lemma estimate_nonneg [simp]: "0 \<le> ce_estimated_cost (estimate_cost m rq)"
  by (simp add: estimate_cost_def Let_def)

lemma candidate_reservation_simps [simp]:
  "rv_id (candidate_reservation ck uid p m est s) = uid"
  "rv_policy_id (candidate_reservation ck uid p m est s) = sn_policy_id s"
  "rv_estimated_cost (candidate_reservation ck uid p m est s) = ce_estimated_cost est"
  "is_open (candidate_reservation ck uid p m est s)"
  by (simp_all add: candidate_reservation_def is_open_def)

lemma reserve_candidate_effect:
  "be_reservations (fst (reserve_candidate ck uid p m est s)) =
     be_reservations (put_reservation (candidate_reservation ck uid p m est s) (sn_engine s))"
  "be_usage_tracker (fst (reserve_candidate ck uid p m est s)) =
     (if sn_policy_id s = [] then be_usage_tracker (sn_engine s)
      else add_reservation ck (sn_policy_id s) (ce_estimated_cost est) (be_usage_tracker (sn_engine s)))"
  by (simp_all add: reserve_candidate_def put_reservation_def be_publish_blocking_def Let_def)

lemma ledger_reserve_candidate:
  assumes "ledger_of strict (sn_engine s)" and "uid \<notin> set (dict_keys (be_reservations (sn_engine s)))"
    and "0 \<le> ce_estimated_cost est"
  shows "ledger_of strict (fst (reserve_candidate ck uid p m est s)) \<and>
    set (dict_keys (be_reservations (fst (reserve_candidate ck uid p m est s)))) =
      insert uid (set (dict_keys (be_reservations (sn_engine s))))"
  using ledger_put_reservation [of strict "sn_engine s" "candidate_reservation ck uid p m est s" ck] assms
  unfolding reserve_candidate_effect by (simp add: put_reservation_def split: if_splits)

lemma ledger_evaluate_candidates:
  assumes "evaluate_candidates ck rq ps cs e = (e', rs)" and "ledger_of strict e"
    and "distinct (map (\<lambda>(p, m, uid). uid) cs)"
    and "\<forall>(p, m, uid)\<in>set cs. uid \<notin> set (dict_keys (be_reservations e))"
  shows "ledger_of strict e'"
  using assms
proof (induction cs arbitrary: e e' rs)
  case (Cons c cs)
  obtain p m uid where c: "c = (p, m, uid)" by (metis surj_pair)
  obtain e1 r where one: "evaluate_candidate ck rq ps uid p m e = (e1, r)" by force
  obtain e2 rs' where rest: "evaluate_candidates ck rq ps cs e1 = (e2, rs')" by force
  have out: "e' = e2" "rs = r # rs'" using Cons.prems(1) by (simp_all add: c one rest)
  have "ledger_of strict e1 \<and>
      set (dict_keys (be_reservations e1)) \<subseteq> insert uid (set (dict_keys (be_reservations e)))"
  proof (cases rule: evaluate_candidate_cases [of ck rq ps uid p m e])
    case (rejected e'' rsn)
    then have "e1 = e''" using one by simp
    moreover have "ledger_of strict e'' = ledger_of strict e" by (rule ledger_core [OF rejected(2)])
    ultimately show ?thesis using Cons.prems(2) coreD(3) [OF rejected(2)] by auto
  next
    case (approved s)
    have "ledger_of strict (sn_engine s)" using ledger_core [OF approved(2)] Cons.prems(2) by simp
    moreover have "uid \<notin> set (dict_keys (be_reservations (sn_engine s)))"
      using Cons.prems(4) coreD(3) [OF approved(2)] by (simp add: c)
    ultimately have "ledger_of strict (fst (reserve_candidate ck uid p m (estimate_cost m rq) s)) \<and>
        set (dict_keys (be_reservations (fst (reserve_candidate ck uid p m (estimate_cost m rq) s)))) =
          insert uid (set (dict_keys (be_reservations (sn_engine s))))"
      by (rule ledger_reserve_candidate) simp
    moreover have "fst (reserve_candidate ck uid p m (estimate_cost m rq) s) = e1"
      using approved(1) one by (metis fst_conv)
    ultimately show ?thesis using coreD(3) [OF approved(2)] by simp
  qed
  note first = this
  have "u \<noteq> uid \<and> u \<notin> set (dict_keys (be_reservations e))" if "(p', m', u) \<in> set cs" for p' m' u
    using Cons.prems(3,4) that by (force simp: c)
  then have "\<forall>(p', m', u)\<in>set cs. u \<notin> set (dict_keys (be_reservations e1))" using first by blast
  then show ?case using Cons.IH [OF rest] Cons.prems(3) first unfolding out by (simp add: c)
qed simp

lemma ledger_evaluate:
  assumes "ledger_of strict e" and "distinct (map (\<lambda>(p, m, uid). uid) cs)"
    and "\<forall>(p, m, uid)\<in>set cs. uid \<notin> set (dict_keys (be_reservations e))"
  shows "ledger_of strict (fst (be_evaluate ck cs rq e))"
proof (cases "be_emergency_mode e")
  case True
  then have "be_emergency_mode (cleanup_expired ck e)"
    using spending_cleanup [of ck e] by (simp add: spending_def)
  then show ?thesis using ledger_cleanup [OF assms(1), of ck] by (simp add: be_evaluate_def Let_def)
next
  case False
  let ?e = "cleanup_expired ck e"
  obtain e1 rs where ev: "evaluate_candidates ck rq (resolve_applicable_policies rq ?e) cs ?e = (e1, rs)" by force
  have "ledger_of strict e1"
    by (rule ledger_evaluate_candidates [OF ev ledger_cleanup [OF assms(1)] assms(2)])
      (use assms(3) keys_cleanup [of ck e] in simp)
  then show ?thesis using ledger_core [OF be_evaluate_unfold(5) [OF False ev]] by simp
qed

subsection \<open>The machine\<close>

datatype budget_call =
    BC_Start real | BC_Stop | BC_Dispose
  | BC_Create budget_policy | BC_Update string budget_policy | BC_Delete string
  | BC_Evaluate "budget_candidate list" routing_request
  | BC_Reserve string string string real real budget_scope string
  | BC_Commit string | BC_Rollback string | BC_Release string
  | BC_Override budget_override | BC_Remove_Override string | BC_Emergency bool | BC_Snapshot

fun be_call :: "budget_clock \<Rightarrow> budget_call \<Rightarrow> budget_engine \<Rightarrow> budget_engine" where
  "be_call ck (BC_Start now) e = be_start now e"
| "be_call ck BC_Stop e = be_stop e"
| "be_call ck BC_Dispose e = be_dispose e"
| "be_call ck (BC_Create p) e = fst (be_create_policy p e)"
| "be_call ck (BC_Update i p) e = fst (be_update_policy i p e)"
| "be_call ck (BC_Delete i) e = fst (be_delete_policy i e)"
| "be_call ck (BC_Evaluate cs rq) e = fst (be_evaluate ck cs rq e)"
| "be_call ck (BC_Reserve uid pn mn c mc sc sid) e = fst (be_reserve ck uid pn mn c mc sc sid e)"
| "be_call ck (BC_Commit i) e = fst (be_commit ck i e)"
| "be_call ck (BC_Rollback i) e = fst (be_rollback ck i e)"
| "be_call ck (BC_Release i) e = fst (be_release ck i e)"
| "be_call ck (BC_Override ov) e = fst (be_apply_override ov e)"
| "be_call ck (BC_Remove_Override i) e = fst (be_remove_override i e)"
| "be_call ck (BC_Emergency b) e = be_set_emergency_mode b e"
| "be_call ck BC_Snapshot e = fst (be_snapshot ck e)"

text \<open>
  Identifiers of new reservations are new. With \<open>strict\<close>, only open reservations are rolled back or
  released; without it, callers may close a reservation twice.
\<close>

fun proper :: "bool \<Rightarrow> budget_call \<Rightarrow> budget_engine \<Rightarrow> bool" where
  "proper strict (BC_Evaluate cs rq) e \<longleftrightarrow>
     distinct (map (\<lambda>(p, m, uid). uid) cs) \<and>
     (\<forall>(p, m, uid)\<in>set cs. uid \<notin> set (dict_keys (be_reservations e)))"
| "proper strict (BC_Reserve uid pn mn c mc sc sid) e \<longleftrightarrow> uid \<notin> set (dict_keys (be_reservations e))"
| "proper strict (BC_Rollback i) e \<longleftrightarrow>
     (strict \<longrightarrow> (case dict_get (be_reservations e) i of None \<Rightarrow> True | Some rv \<Rightarrow> is_open rv))"
| "proper strict (BC_Release i) e \<longleftrightarrow>
     (strict \<longrightarrow> (case dict_get (be_reservations e) i of None \<Rightarrow> True | Some rv \<Rightarrow> is_open rv))"
| "proper strict _ e \<longleftrightarrow> True"

inductive be_step :: "bool \<Rightarrow> budget_engine \<Rightarrow> budget_engine \<Rightarrow> bool" for strict where
  be_stepI: "proper strict call e \<Longrightarrow> be_step strict e (be_call ck call e)"

lemma ledger_reserve:
  assumes "ledger_of strict e" and "uid \<notin> set (dict_keys (be_reservations e))"
  shows "ledger_of strict (fst (be_reserve ck uid pn mn c mc sc sid e))"
proof -
  define rv where "rv = \<lparr>rv_id = uid, rv_policy_id = [], rv_scope = sc, rv_scope_id = sid, rv_provider = pn,
                rv_model = mn, rv_estimated_cost = c, rv_max_cost = mc,
                rv_timestamp = ck_now ck, rv_expires_at = Some (ck_now ck + RESERVATION_TTL),
                rv_committed = False, rv_rolled_back = False, rv_released = False\<rparr>"
  let ?e = "put_reservation rv (cleanup_expired ck e)"
  have rv: "rv_id rv = uid" "rv_policy_id rv = []" "is_open rv" by (simp_all add: rv_def is_open_def)
  have "ledger strict (be_reservations ?e) (be_usage_tracker (cleanup_expired ck e))"
    using ledger_put_reservation [OF ledger_cleanup [OF assms(1), of ck], of rv ck, unfolded keys_cleanup rv] assms(2) rv
    by simp
  then have "ledger_of strict ?e" by (simp add: put_reservation_def)
  moreover have "core (fst (be_reserve ck uid pn mn c mc sc sid e)) = core ?e"
    unfolding be_reserve_def Let_def rv_def by simp
  ultimately show ?thesis by (metis ledger_core)
qed

lemma ledger_commit:
  assumes "ledger_of strict e"
  shows "ledger_of strict (fst (be_commit ck i e))"
proof (cases "dict_get (be_reservations e) i")
  case (Some rv)
  let ?R = "dict_set (be_reservations e) i (rv\<lparr>rv_committed := True\<rparr>)"
  let ?t = "if rv_policy_id rv = [] then be_usage_tracker e
            else remove_reservation ck (rv_policy_id rv) (rv_estimated_cost rv) (be_usage_tracker e)"
  let ?t' = "if rv_policy_id rv = [] then be_usage_tracker e
             else record_spend ck (rv_policy_id rv) (rv_estimated_cost rv) (rv_provider rv) (rv_model rv) ?t"
  show ?thesis
  proof (cases "is_open rv")
    case True
    have "ledger strict ?R ?t" by (rule ledger_close [OF assms Some]) (use True in \<open>simp_all add: is_open_def\<close>)
    then have "ledger strict ?R ?t'" using ledger_spend by (simp split: if_splits)
    moreover have "be_reservations (fst (be_commit ck i e)) = ?R" "be_usage_tracker (fst (be_commit ck i e)) = ?t'"
      using Some True by (simp_all add: be_commit_def be_publish_def be_add_audit_def Let_def)
    ultimately show ?thesis by simp
  qed (use assms Some in \<open>simp add: be_commit_def\<close>)
qed (use assms in \<open>simp add: be_commit_def\<close>)

lemma ledger_rollback:
  assumes "ledger_of strict e" and "proper strict (BC_Rollback i) e"
  shows "ledger_of strict (fst (be_rollback ck i e))"
proof (cases "dict_get (be_reservations e) i")
  case (Some rv)
  define rv' where "rv' = rv\<lparr>rv_expires_at := None, rv_committed := False, rv_rolled_back := True, rv_released := False\<rparr>"
  show ?thesis
  proof (cases "rv_committed rv \<or> rv_rolled_back rv")
    case False
    let ?e = "free_funds ck rv (e\<lparr>be_reservations := dict_set (be_reservations e) i rv'\<rparr>)"
    have "ledger_of strict ?e"
      by (rule ledger_free [OF assms(1) Some]) (use assms(2) Some in \<open>simp_all add: rv'_def is_open_def\<close>)
    moreover have "core (fst (be_rollback ck i e)) = core ?e"
      unfolding be_rollback_def rv'_def using Some False by (simp add: Let_def)
    ultimately show ?thesis by (metis ledger_core)
  qed (use assms Some in \<open>auto simp: be_rollback_def\<close>)
qed (use assms in \<open>simp add: be_rollback_def\<close>)

lemma ledger_release:
  assumes "ledger_of strict e" and "proper strict (BC_Release i) e"
  shows "ledger_of strict (fst (be_release ck i e))"
proof (cases "dict_get (be_reservations e) i")
  case (Some rv)
  show ?thesis
  proof (cases "rv_released rv")
    case False
    let ?e = "free_funds ck rv (e\<lparr>be_reservations := dict_set (be_reservations e) i (close_released rv)\<rparr>)"
    have "ledger_of strict ?e"
      by (rule ledger_free [OF assms(1) Some]) (use assms(2) Some in simp_all)
    moreover have "core (fst (be_release ck i e)) = core ?e"
      using Some False by (simp add: be_release_def Let_def)
    ultimately show ?thesis by (metis ledger_core)
  qed (use assms Some in \<open>simp add: be_release_def\<close>)
qed (use assms in \<open>simp add: be_release_def\<close>)

lemma funds_untouched:
  "be_reservations (be_start now e) = be_reservations e" "be_usage_tracker (be_start now e) = be_usage_tracker e"
  "be_reservations (be_stop e) = be_reservations e" "be_usage_tracker (be_stop e) = be_usage_tracker e"
  "be_reservations (fst (be_create_policy p e)) = be_reservations e"
  "be_usage_tracker (fst (be_create_policy p e)) = be_usage_tracker e"
  "be_reservations (fst (be_update_policy i p e)) = be_reservations e"
  "be_usage_tracker (fst (be_update_policy i p e)) = be_usage_tracker e"
  "be_reservations (fst (be_delete_policy i e)) = be_reservations e"
  "be_usage_tracker (fst (be_delete_policy i e)) = be_usage_tracker e"
  "be_reservations (fst (be_apply_override ov e)) = be_reservations e"
  "be_usage_tracker (fst (be_apply_override ov e)) = be_usage_tracker e"
  "be_reservations (fst (be_remove_override i e)) = be_reservations e"
  "be_usage_tracker (fst (be_remove_override i e)) = be_usage_tracker e"
  "be_reservations (be_set_emergency_mode b e) = be_reservations e"
  "be_usage_tracker (be_set_emergency_mode b e) = be_usage_tracker e"
  by (simp_all add: be_start_def be_stop_def be_create_policy_def be_update_policy_def be_delete_policy_def
      be_apply_override_def be_remove_override_def be_set_emergency_mode_def be_publish_def Let_def
      split: option.splits)

lemma ledger_call:
  assumes "ledger_of strict e" and "proper strict call e"
  shows "ledger_of strict (be_call ck call e)"
proof (cases call)
  case BC_Dispose
  then show ?thesis using ledger_init [of strict True] by (simp add: be_dispose_def be_init_def be_stop_def)
next
  case (BC_Evaluate cs rq)
  then show ?thesis using ledger_evaluate [OF assms(1)] assms(2) by simp
next
  case (BC_Reserve uid pn mn c mc sc sid)
  then show ?thesis using ledger_reserve [OF assms(1)] assms(2) by simp
next
  case (BC_Commit i)
  then show ?thesis using ledger_commit [OF assms(1)] by simp
next
  case (BC_Rollback i)
  then show ?thesis using ledger_rollback [OF assms(1)] assms(2) by simp
next
  case (BC_Release i)
  then show ?thesis using ledger_release [OF assms(1)] assms(2) by simp
next
  case BC_Snapshot
  then show ?thesis using ledger_cleanup [OF assms(1)] by (simp add: be_snapshot_def Let_def)
qed (use assms in \<open>simp_all add: funds_untouched\<close>)

interpretation bkm: invariant_machine "\<lambda>e. \<exists>b. e = be_init b" "be_step strict" "ledger_of strict" for strict
proof unfold_locales
  show "ledger_of strict e" if "\<exists>b. e = be_init b" for e using that by auto
  show "ledger_of strict e'" if "ledger_of strict e" "be_step strict e e'" for e e'
    using that(2,1) by cases (auto intro: ledger_call)
qed

text \<open>C28: In every reachable state, what a policy has spent is the sum of its entries in the spending log and
  its requests are counted by them. What it has reserved never exceeds the sum of its open reservations; it is
  that sum when callers roll back and release open reservations only.\<close>

theorem budget_books_balance:
  assumes "reach (\<lambda>e. \<exists>b. e = be_init b) (be_step strict) e" and "i \<noteq> []"
  shows "us_total_spent (be_usage ck i e) = logged (be_usage_tracker e) i \<and>
    us_request_count (be_usage ck i e) =
      int (length (filter (\<lambda>(k, a, time). k = i) (ut_spend_log (be_usage_tracker e)))) \<and>
    us_active_reservations (be_usage ck i e) \<le> open_total (be_reservations e) i \<and>
    (strict \<longrightarrow> us_active_reservations (be_usage ck i e) = open_total (be_reservations e) i)"
proof -
  let ?t = "be_usage_tracker e"
  have led: "ledger_of strict e" by (rule bkm.reach_inv [OF assms(1)])
  have "active_total ?t i = us_active_reservations (be_usage ck i e)"
    and "requests ?t i = us_request_count (be_usage ck i e)"
    by (simp_all add: be_usage_def active_total_def requests_def get_usage_def dict_get_or_def new_usage_def
        split: option.splits)
  moreover have "us_total_spent (be_usage ck i e) = fst (spent_of ?t i)"
    using spent_of_get_usage [of ?t i ck] by (simp add: be_usage_def)
  ultimately show ?thesis using led assms(2) by (auto simp: ledger_def log_agrees_def balance_def split: if_splits)
qed

definition noon :: budget_clock where
  "noon = \<lparr>ck_now = 43200, ck_utc = (1970, 1, 1), ck_today = (1970, 1, 1)\<rparr>"

definition small_budget :: budget_policy where
  "small_budget = \<lparr>bg_id = ''p'', bg_scope = BG_GLOBAL, bg_scope_id = [], bg_enabled = True, bg_priority = 0,
     bg_max_spend_total = 1 / 4, bg_max_spend_daily = 1 / 4, bg_max_spend_monthly = 0, bg_max_spend_per_request = 0,
     bg_max_spend_burst = 0, bg_soft_limit = 0, bg_hard_limit = 0, bg_warning_threshold = 8 / 10,
     bg_currency = ''USD''\<rparr>"

definition priced_model :: omni_model where
  "priced_model = (new_model ''m'' 0)\<lparr>md_model_id := ''m'', md_output_cost_per_1k := 1\<rparr>"

definition two_candidates :: "budget_candidate list" where
  "two_candidates = [(new_provider ''v'' 0, priced_model, ''r1''), (new_provider ''v'' 0, priced_model, ''r2'')]"

definition two_reserved :: budget_engine where
  "two_reserved = be_call noon (BC_Evaluate two_candidates (new_request ''q'')) (be_call noon (BC_Create small_budget) (be_init True))"

lemma reach_two_reserved: "reach (\<lambda>e. \<exists>b. e = be_init b) (be_step strict) two_reserved"
proof -
  let ?e = "be_call noon (BC_Create small_budget) (be_init True)"
  have "reach (\<lambda>e. \<exists>b. e = be_init b) (be_step strict) (be_init True)" by (rule reach_init) blast
  then have "reach (\<lambda>e. \<exists>b. e = be_init b) (be_step strict) ?e"
    by (rule reach_step) (rule be_stepI, simp)
  moreover have "proper strict (BC_Evaluate two_candidates (new_request ''q'')) ?e"
    by (simp add: two_candidates_def funds_untouched) (simp add: be_init_def)
  ultimately show ?thesis unfolding two_reserved_def by (blast intro: reach_step be_stepI)
qed

theorem budget_books_balance_witness:
  "us_active_reservations (be_usage noon ''p'' two_reserved) = 2 / 5 \<and>
   open_total (be_reservations two_reserved) ''p'' = 2 / 5 \<and>
   (let e = be_call noon (BC_Release ''r1'') (be_call noon (BC_Commit ''r1'') two_reserved)
    in us_active_reservations (be_usage noon ''p'' e) = 0 \<and> open_total (be_reservations e) ''p'' = 1 / 5)"
proof -
  have "us_active_reservations (be_usage noon ''p'' two_reserved) = open_total (be_reservations two_reserved) ''p''"
    using budget_books_balance [OF reach_two_reserved [of True], of "''p''" noon] by simp
  moreover have "open_total (be_reservations two_reserved) ''p'' = 2 / 5" by code_simp
  moreover have "let e = be_call noon (BC_Release ''r1'') (be_call noon (BC_Commit ''r1'') two_reserved)
    in us_active_reservations (be_usage noon ''p'' e) = 0 \<and> open_total (be_reservations e) ''p'' = 1 / 5" by code_simp
  ultimately show ?thesis by simp
qed

theorem evaluation_approves_exactly_witness:
  "map br_approved (bd_results (snd (be_evaluate noon two_candidates (new_request ''q'') two_reserved))) = [True, True]"
proof -
  have e: "\<not> be_emergency_mode two_reserved" by code_simp
  have f: "fits noon (new_request ''q'') two_reserved priced_model" by code_simp
  show ?thesis using evaluation_approves_exactly [OF e, of noon two_candidates "new_request ''q''"] f
    by (simp add: two_candidates_def)
qed

end
