(* ===== verification/Budget_Limits.thy ===== *)
theory Budget_Limits
  imports Budget_Laws
begin

text \<open>
  Where the limits of the budget engine bite: spending that is settled before the next evaluation stays
  within the total limit, reservations that are open together are not counted against it, and a daily
  limit that is used up is never lifted by the passing of days.
\<close>

subsection \<open>Policies that apply to every request\<close>

lemma collect_keeps: "dict_get d i = Some p \<Longrightarrow> dict_get (be_policies e) i = Some p \<Longrightarrow> bg_enabled p \<Longrightarrow>
    dict_get (collect_policy e j d) i = Some p"
  by (auto simp: collect_policy_def split: option.splits)

lemma collect_finds:
  assumes "dict_get (be_policies e) i = Some p" and "bg_enabled p"
    and "i \<in> set is \<or> dict_get d i = Some p"
  shows "dict_get (fold (collect_policy e) is d) i = Some p"
  using assms(3)
proof (induction "is" arbitrary: d)
  case (Cons j "is")
  have "i \<in> set is \<or> dict_get (collect_policy e j d) i = Some p"
  proof (cases "j = i")
    case True
    then show ?thesis using assms(1,2) by (simp add: collect_policy_def)
  next
    case False
    then show ?thesis using Cons.prems assms(1,2) by (auto intro: collect_keeps)
  qed
  then show ?case using Cons.IH by simp
qed simp

lemma global_policy_applies:
  assumes "dict_get (be_policies e) i = Some p" and "bg_enabled p"
    and "i \<in> set (dict_get_or (be_policies_by_scope e) (scope_key BG_GLOBAL []) [])"
  shows "p \<in> set (resolve_applicable_policies rq e)"
proof -
  let ?is = "concat (map (\<lambda>k. dict_get_or (be_policies_by_scope e) k []) (request_keys rq))"
  have "i \<in> set ?is" using assms(3) by (simp add: request_keys_def)
  then have "dict_get (fold (collect_policy e) ?is []) i = Some p"
    using collect_finds [of e i p ?is "[]"] assms(1,2) by blast
  then show ?thesis unfolding resolve_applicable_policies_def by (force dest: map_of_SomeD)
qed

subsection \<open>A daily limit that is used up\<close>

text \<open>A global policy without overrides whose daily spending leaves less than \<open>c\<close>.\<close>

definition spent_out :: "string \<Rightarrow> real \<Rightarrow> budget_engine \<Rightarrow> bool" where
  "spent_out i c e \<longleftrightarrow>
     (\<exists>p. dict_get (be_policies e) i = Some p \<and> bg_enabled p \<and> bg_id p = i \<and>
          i \<in> set (dict_get_or (be_policies_by_scope e) (scope_key BG_GLOBAL []) []) \<and>
          (\<forall>ov\<in>set (dict_values (be_overrides e)). ov_policy_id ov \<noteq> i) \<and>
          over_limit (bg_max_spend_daily p) (fst (snd (spent_of (be_usage_tracker e) i)) + c))"

lemma spent_out_spending: "spending e = spending e' \<Longrightarrow> spent_out i c e = spent_out i c e'"
  by (simp add: spending_def spent_out_def)

lemma over_limit_mono: "over_limit l a \<Longrightarrow> a \<le> b \<Longrightarrow> over_limit l b"
  by (simp add: over_limit_def)

lemma spent_out_fits:
  assumes "spent_out i c e" and "c \<le> ce_estimated_cost (estimate_cost m rq)"
  shows "\<not> fits ck rq e m"
proof -
  obtain p where p: "dict_get (be_policies e) i = Some p" "bg_enabled p" "bg_id p = i"
      "i \<in> set (dict_get_or (be_policies_by_scope e) (scope_key BG_GLOBAL []) [])"
      "\<forall>ov\<in>set (dict_values (be_overrides e)). ov_policy_id ov \<noteq> i"
      "over_limit (bg_max_spend_daily p) (fst (snd (spent_of (be_usage_tracker e) i)) + c)"
    using assms(1) by (auto simp: spent_out_def)
  have "find_active_override (ck_now ck) i e = None"
    using p(5) by (auto simp: find_active_override_def find_None_iff)
  moreover have "over_limit (bg_max_spend_daily p)
      (us_daily_spent (get_usage ck i (be_usage_tracker e)) + ce_estimated_cost (estimate_cost m rq))"
    using over_limit_mono [OF p(6)] assms(2) spent_of_get_usage [of "be_usage_tracker e" i ck] by simp
  ultimately have "\<not> admits ck e (ce_estimated_cost (estimate_cost m rq)) p"
    by (simp add: admits_def spend_limits_of_def p(3) Let_def)
  then show ?thesis using global_policy_applies [OF p(1,2,4)] by (auto simp: fits_def Let_def)
qed

type_synonym budget_question = "budget_clock \<times> budget_candidate list \<times> routing_request"

fun ask_budget :: "budget_question \<Rightarrow> budget_engine \<Rightarrow> budget_engine \<times> bool" where
  "ask_budget (ck, cs, rq) e = (let (e', d) = be_evaluate ck cs rq e in (e', bd_approved d))"

fun costs_at_least :: "real \<Rightarrow> budget_question \<Rightarrow> bool" where
  "costs_at_least c (ck, cs, rq) \<longleftrightarrow> list_all (\<lambda>(p, m, uid). c \<le> ce_estimated_cost (estimate_cost m rq)) cs"

lemma emergency_evaluate:
  assumes "be_emergency_mode e"
  shows "\<not> bd_approved (snd (be_evaluate ck cs rq e)) \<and> spending (fst (be_evaluate ck cs rq e)) = spending e"
proof -
  have "be_emergency_mode (cleanup_expired ck e)"
    using assms spending_cleanup [of ck e] by (simp add: spending_def)
  moreover have "spending (x\<lparr>be_stats := st\<rparr>) = spending x" for x st by (simp add: spending_def)
  ultimately show ?thesis by (simp add: be_evaluate_def Let_def)
qed

interpretation out: refusing ask_budget "costs_at_least c" "spent_out i c" False for i c
proof unfold_locales
  fix e and q :: budget_question
  assume out: "spent_out i c e" and quiet: "costs_at_least c q"
  obtain ck cs rq where q: "q = (ck, cs, rq)" by (metis surj_pair)
  have costly: "c \<le> ce_estimated_cost (estimate_cost m rq)" if "(p, m, uid) \<in> set cs" for p m uid
    using quiet that by (force simp: q list_all_iff)
  have "\<not> bd_approved (snd (be_evaluate ck cs rq e)) \<and> spending (fst (be_evaluate ck cs rq e)) = spending e"
  proof (cases "be_emergency_mode e")
    case False
    have "\<not> fits ck rq e m" if "(p, m, uid) \<in> set cs" for p m uid
      using spent_out_fits [OF out costly [OF that]] .
    then show ?thesis using evaluation_results(2,4) [OF False, of ck cs rq] by auto
  qed (rule emergency_evaluate)
  then show "snd (ask_budget q e) = False \<and> spent_out i c (fst (ask_budget q e))"
    using out spent_out_spending [of "fst (be_evaluate ck cs rq e)" e] by (simp add: q case_prod_beta)
qed

text \<open>C29: Once what a global policy has spent on a day leaves less than \<open>c\<close> of its daily limit, every later
  evaluation of candidates that cost at least \<open>c\<close> is refused, whatever the clock says: the daily amount is
  reset only when something is spent, so the limit is not lifted on the next day.\<close>

theorem used_up_day_never_renewed:
  assumes "spent_out i c e" and "list_all (costs_at_least c) qs"
  shows "snd (run_calls ask_budget qs e) = replicate (length qs) False \<and> spent_out i c (fst (run_calls ask_budget qs e))"
  by (rule out.run_refused [OF assms])

definition new_year :: budget_clock where
  "new_year = \<lparr>ck_now = 31536000, ck_utc = (1971, 1, 1), ck_today = (1971, 1, 1)\<rparr>"

theorem used_up_day_never_renewed_witness:
  "snd (run_calls ask_budget [(noon, two_candidates, new_request ''q''), (new_year, two_candidates, new_request ''q'')]
          (be_call noon (BC_Commit ''r1'') two_reserved)) = [False, False]"
proof -
  let ?e = "be_call noon (BC_Commit ''r1'') two_reserved"
  have p: "dict_get (be_policies ?e) ''p'' = Some small_budget" by code_simp
  have i: "''p'' \<in> set (dict_get_or (be_policies_by_scope ?e) (scope_key BG_GLOBAL []) [])" by code_simp
  have o: "be_overrides ?e = []" by code_simp
  have l: "over_limit (bg_max_spend_daily small_budget) (fst (snd (spent_of (be_usage_tracker ?e) ''p'')) + 1 / 5)"
    by code_simp
  have b: "bg_enabled small_budget" "bg_id small_budget = ''p''" by (simp_all add: small_budget_def)
  have "spent_out ''p'' (1 / 5) ?e"
    unfolding spent_out_def by (rule exI [of _ small_budget]) (use p i o l b in simp)
  moreover have "list_all (costs_at_least (1 / 5))
      [(noon, two_candidates, new_request ''q''), (new_year, two_candidates, new_request ''q'')]" by code_simp
  ultimately show ?thesis using used_up_day_never_renewed [of "''p''" "1 / 5" ?e] by fastforce
qed

subsection \<open>What commits charge\<close>

abbreviation total_of :: "budget_engine \<Rightarrow> string \<Rightarrow> real" where
  "total_of e j \<equiv> fst (spent_of (be_usage_tracker e) j)"

definition pledged :: "budget_engine \<Rightarrow> string \<Rightarrow> real \<Rightarrow> string \<Rightarrow> bool" where
  "pledged e q c i \<longleftrightarrow>
     (\<exists>rv. dict_get (be_reservations e) i = Some rv \<and> is_open rv \<and> rv_policy_id rv = q \<and> rv_estimated_cost rv = c)"

lemma pledged_core: "core e = core e' \<Longrightarrow> pledged e q c i = pledged e' q c i"
  by (simp add: core_def pledged_def)

lemma total_core: "core e = core e' \<Longrightarrow> total_of e j = total_of e' j"
  by (simp add: core_def)

lemma commit_pledged:
  assumes "pledged e q c i" and "q \<noteq> []"
  shows "total_of (fst (be_commit ck i e)) j = total_of e j + (if j = q then c else 0)"
    and "i' \<noteq> i \<Longrightarrow> pledged (fst (be_commit ck i e)) q' c' i' = pledged e q' c' i'"
proof -
  obtain rv where rv: "dict_get (be_reservations e) i = Some rv" "is_open rv" "rv_policy_id rv = q" "rv_estimated_cost rv = c"
    using assms(1) by (auto simp: pledged_def)
  have eff: "be_reservations (fst (be_commit ck i e)) = dict_set (be_reservations e) i (rv\<lparr>rv_committed := True\<rparr>)"
    "be_usage_tracker (fst (be_commit ck i e)) =
       record_spend ck q c (rv_provider rv) (rv_model rv) (remove_reservation ck q c (be_usage_tracker e))"
    using rv assms(2) by (simp_all add: be_commit_def be_publish_def be_add_audit_def Let_def)
  show "total_of (fst (be_commit ck i e)) j = total_of e j + (if j = q then c else 0)" by (simp add: eff)
  show "i' \<noteq> i \<Longrightarrow> pledged (fst (be_commit ck i e)) q' c' i' = pledged e q' c' i'" by (simp add: pledged_def eff)
qed

definition commit_all :: "budget_clock \<Rightarrow> string list \<Rightarrow> budget_engine \<Rightarrow> budget_engine" where
  "commit_all ck is e = fold (\<lambda>i e. fst (be_commit ck i e)) is e"

lemma commit_all_pledged:
  assumes "distinct (map fst ps)" and "\<forall>(i, c)\<in>set ps. pledged e q c i" and "q \<noteq> []"
  shows "total_of (commit_all ck (map fst ps) e) j = total_of e j + (if j = q then sum_list (map snd ps) else 0)"
  using assms(1,2)
proof (induction ps arbitrary: e)
  case (Cons x ps)
  obtain i c where x: "x = (i, c)" by force
  let ?e = "fst (be_commit ck i e)"
  have "pledged e q c i" using Cons.prems(2) by (simp add: x)
  note one = commit_pledged [OF this assms(3), where ck = ck]
  have "\<forall>(i', c')\<in>set ps. pledged ?e q c' i'"
  proof clarify
    fix i' c' assume mem: "(i', c') \<in> set ps"
    then have "i' \<noteq> i" using Cons.prems(1) by (force simp: x)
    then show "pledged ?e q c' i'" using one(2) Cons.prems(2) mem by auto
  qed
  then have "total_of (commit_all ck (map fst ps) ?e) j = total_of ?e j + (if j = q then sum_list (map snd ps) else 0)"
    using Cons.IH [of ?e] Cons.prems(1) by auto
  then show ?case by (simp add: x commit_all_def one(1))
qed (simp add: commit_all_def)

definition model_cost :: "routing_request \<Rightarrow> omni_model \<Rightarrow> real" where
  "model_cost rq m = ce_estimated_cost (estimate_cost m rq)"

text \<open>The reservations an evaluation leaves behind: one per approved candidate, on the last policy.\<close>

lemma evaluate_candidate_pledges:
  assumes "evaluate_candidate ck rq ps uid p m e = (e', r)" and "ps \<noteq> []"
  shows "(br_approved r \<longrightarrow> br_reservation_id r = uid \<and> pledged e' (bg_id (last ps)) (model_cost rq m) uid) \<and>
    (i \<noteq> uid \<longrightarrow> pledged e' q c i = pledged e q c i)"
proof (cases rule: evaluate_candidate_cases [of ck rq ps uid p m e])
  case (rejected e'' rsn)
  then show ?thesis using assms pledged_core [OF rejected(2)] by (auto simp: rejected_result_def)
next
  case (approved s)
  let ?rv = "candidate_reservation ck uid p m (estimate_cost m rq) s"
  have rc: "reserve_candidate ck uid p m (estimate_cost m rq) s = (e', r)"
    using approved(1) assms(1) by (rule trans [OF sym])
  have "be_reservations e' = dict_set (be_reservations (sn_engine s)) uid ?rv"
    using reserve_candidate_effect(1) [of ck uid p m "estimate_cost m rq" s, unfolded rc]
    by (simp add: put_reservation_def)
  moreover have "br_reservation_id r = uid"
    using rc by (auto simp: reserve_candidate_def Let_def)
  ultimately show ?thesis using approved(3) assms(2) coreD(3) [OF approved(2)]
    by (simp add: pledged_def model_cost_def)
qed

lemma evaluate_candidates_pledges:
  assumes "evaluate_candidates ck rq ps cs e = (e', rs)" and "ps \<noteq> []"
    and "distinct (map (\<lambda>(p, m, uid). uid) cs)"
  shows "map br_reservation_id (filter br_approved rs) = map (\<lambda>((p, m, uid), r). uid) (filter (\<lambda>(c, r). br_approved r) (zip cs rs)) \<and>
    length rs = length cs \<and>
    (\<forall>((p, m, uid), r)\<in>set (zip cs rs). br_approved r \<longrightarrow> pledged e' (bg_id (last ps)) (model_cost rq m) uid) \<and>
    (\<forall>i q c. i \<notin> set (map (\<lambda>(p, m, uid). uid) cs) \<longrightarrow> pledged e' q c i = pledged e q c i)"
  using assms
proof (induction cs arbitrary: e e' rs)
  case (Cons x cs)
  obtain p m uid where x: "x = (p, m, uid)" by (metis surj_pair)
  obtain e1 r where one: "evaluate_candidate ck rq ps uid p m e = (e1, r)" by force
  obtain e2 rs' where rest: "evaluate_candidates ck rq ps cs e1 = (e2, rs')" by force
  have out: "e' = e2" "rs = r # rs'" using Cons.prems(1) by (simp_all add: x one rest)
  note step = evaluate_candidate_pledges [OF one Cons.prems(2)]
  have d: "uid \<notin> set (map (\<lambda>(p, m, uid). uid) cs)" "distinct (map (\<lambda>(p, m, uid). uid) cs)"
    using Cons.prems(3) by (simp_all add: x)
  note ih = Cons.IH [OF rest Cons.prems(2) d(2)]
  have "br_approved r \<Longrightarrow> pledged e2 (bg_id (last ps)) (model_cost rq m) uid"
    using ih step [of uid] d(1) by blast
  moreover have "pledged e2 q c i = pledged e q c i" if "i \<notin> set (map (\<lambda>(p, m, uid). uid) (x # cs))" for q c i
  proof -
    have "i \<notin> set (map (\<lambda>(p, m, uid). uid) cs)" "i \<noteq> uid" using that by (simp_all add: x)
    then show ?thesis using ih step [of i q c] by blast
  qed
  ultimately show ?case using ih step [of uid] unfolding out by (auto simp: x)
qed simp

text \<open>The identifiers and costs of the candidates that fit.\<close>

definition approved_costs :: "budget_clock \<Rightarrow> routing_request \<Rightarrow> budget_engine \<Rightarrow> budget_candidate list \<Rightarrow> (string \<times> real) list" where
  "approved_costs ck rq e cs =
     map (\<lambda>(p, m, uid). (uid, model_cost rq m)) (filter (\<lambda>(p, m, uid). fits ck rq e m) cs)"

lemma resolve_spending:
  assumes "spending e = spending e'"
  shows "resolve_applicable_policies rq e = resolve_applicable_policies rq e'"
proof -
  have "collect_policy e = collect_policy e'" using assms by (intro ext) (simp add: collect_policy_def spending_def)
  then show ?thesis using assms by (simp add: resolve_applicable_policies_def spending_def)
qed

lemma approved_pairs:
  assumes "map br_approved rs = map (\<lambda>(p, m, uid). f m) cs"
  shows "map (\<lambda>((p, m, uid), r). (uid, g m)) (filter (\<lambda>(c, r). br_approved r) (zip cs rs)) =
    map (\<lambda>(p, m, uid). (uid, g m)) (filter (\<lambda>(p, m, uid). f m) cs)"
proof -
  have "length rs = length cs" using assms by (metis length_map)
  then show ?thesis using assms by (induction rs cs rule: list_induct2) auto
qed

lemma evaluate_then_commit:
  assumes ok: "\<not> be_emergency_mode e" and ids: "distinct (map (\<lambda>(p, m, uid). uid) cs)"
    and ps: "resolve_applicable_policies rq e \<noteq> []" and q: "bg_id (last (resolve_applicable_policies rq e)) = q" "q \<noteq> []"
    and ev: "be_evaluate ck cs rq e = (e1, d)"
  shows "total_of (commit_all ck' (bd_reservations d) e1) j =
    total_of e j + (if j = q then sum_list (map snd (approved_costs ck rq e cs)) else 0)"
proof -
  let ?e0 = "cleanup_expired ck e"
  have res: "resolve_applicable_policies rq ?e0 = resolve_applicable_policies rq e" by (rule resolve_spending) simp
  obtain e2 rs where loop: "evaluate_candidates ck rq (resolve_applicable_policies rq ?e0) cs ?e0 = (e2, rs)" by force
  note u = be_evaluate_unfold [OF ok loop]
  have d: "bd_reservations d = map br_reservation_id (filter br_approved rs)" "core e1 = core e2"
    using u(4,5) by (simp_all add: ev)
  have app: "map br_approved rs = map (\<lambda>(p, m, uid). fits ck rq e m) cs"
    using u(1) evaluation_results(1) [OF ok, of ck cs rq] by (simp add: ev)
  note pl = evaluate_candidates_pledges [OF loop [unfolded res] ps ids]
  let ?pairs = "map (\<lambda>((p, m, uid), r). (uid, model_cost rq m)) (filter (\<lambda>(c, r). br_approved r) (zip cs rs))"
  have pairs: "?pairs = approved_costs ck rq e cs" using approved_pairs [OF app] by (simp add: approved_costs_def)
  have "map fst ?pairs = bd_reservations d"
    using pl by (simp add: d comp_def case_prod_beta)
  then have fst_pairs: "map fst (approved_costs ck rq e cs) = bd_reservations d" by (simp add: pairs)
  have "distinct (map fst (approved_costs ck rq e cs))"
    using distinct_map_filter [OF ids, of "\<lambda>(p, m, uid). fits ck rq e m"]
    by (simp add: approved_costs_def comp_def case_prod_unfold)
  moreover have "\<forall>(i, c)\<in>set (approved_costs ck rq e cs). pledged e1 q c i"
    using pl q(1) pledged_core [OF d(2)] unfolding pairs [symmetric] by auto
  ultimately have "total_of (commit_all ck' (bd_reservations d) e1) j =
      total_of e1 j + (if j = q then sum_list (map snd (approved_costs ck rq e cs)) else 0)"
    using commit_all_pledged [of "approved_costs ck rq e cs" e1 q ck' j] q(2) by (simp add: fst_pairs)
  moreover have "spending e1 = spending e" using evaluation_results(4) [OF ok, of ck cs rq] by (simp add: ev)
  ultimately show ?thesis by (simp add: spending_def)
qed

text \<open>C30: When every reservation of an evaluation is committed, the last applicable policy is charged the
  costs of all approved candidates and no other policy is charged anything. With one candidate this keeps the
  last policy within its total limit, if it was within it; with several, the amounts are not checked
  against each other.\<close>

theorem commits_charge_last_policy:
  assumes "\<not> be_emergency_mode e" and "distinct (map (\<lambda>(p, m, uid). uid) cs)"
    and "resolve_applicable_policies rq e \<noteq> []" and "q = last (resolve_applicable_policies rq e)" and "bg_id q \<noteq> []"
    and "be_evaluate ck cs rq e = (e1, d)" and "e2 = commit_all ck' (bd_reservations d) e1"
  shows "total_of e2 (bg_id q) = total_of e (bg_id q) + sum_list (map snd (approved_costs ck rq e cs)) \<and>
    (\<forall>j. j \<noteq> bg_id q \<longrightarrow> total_of e2 j = total_of e j) \<and>
    (length cs \<le> 1 \<longrightarrow> find_active_override (ck_now ck) (bg_id q) e = None \<longrightarrow> bg_max_spend_total q > 0 \<longrightarrow>
       total_of e (bg_id q) \<le> bg_max_spend_total q \<longrightarrow> total_of e2 (bg_id q) \<le> bg_max_spend_total q)"
proof -
  have q: "bg_id (last (resolve_applicable_policies rq e)) = bg_id q" by (simp add: assms(4))
  have tot: "total_of e2 j =
      total_of e j + (if j = bg_id q then sum_list (map snd (approved_costs ck rq e cs)) else 0)" for j
    unfolding assms(7) by (rule evaluate_then_commit [OF assms(1,2,3) q assms(5,6)])
  moreover have "total_of e (bg_id q) + sum_list (map snd (approved_costs ck rq e cs)) \<le> bg_max_spend_total q"
    if one: "length cs \<le> 1" and no: "find_active_override (ck_now ck) (bg_id q) e = None"
      and l: "bg_max_spend_total q > 0" and within: "total_of e (bg_id q) \<le> bg_max_spend_total q"
  proof (cases "approved_costs ck rq e cs")
    case (Cons x xs)
    obtain p m uid where cs: "cs = [(p, m, uid)]" and f: "fits ck rq e m" and x: "x = (uid, model_cost rq m)" "xs = []"
      using one Cons by (cases cs) (auto simp: approved_costs_def split: if_splits)
    have "admits ck e (model_cost rq m) q"
      using f assms(3,4) by (auto simp: fits_def Let_def model_cost_def)
    then have "\<not> over_limit (bg_max_spend_total q) (total_of e (bg_id q) + model_cost rq m)"
      using no spent_of_get_usage [of "be_usage_tracker e" "bg_id q" ck] by (simp add: admits_def spend_limits_of_def Let_def)
    then show ?thesis using l by (simp add: Cons x over_limit_def)
  qed (use within in simp)
  ultimately show ?thesis by simp
qed

definition small_engine_budget :: budget_engine where
  "small_engine_budget = be_call noon (BC_Create small_budget) (be_init True)"

theorem commits_charge_last_policy_witness:
  "bg_max_spend_total small_budget = 1 / 4 \<and>
   (let (e1, d) = be_evaluate noon two_candidates (new_request ''q'') small_engine_budget
    in total_of (commit_all noon (bd_reservations d) e1) ''p'' = 2 / 5)"
proof -
  obtain e1 d where ev: "be_evaluate noon two_candidates (new_request ''q'') small_engine_budget = (e1, d)" by force
  have ok: "\<not> be_emergency_mode small_engine_budget" by code_simp
  have ids: "distinct (map (\<lambda>(p, m, uid). uid) two_candidates)" by code_simp
  have res: "resolve_applicable_policies (new_request ''q'') small_engine_budget = [small_budget]" by code_simp
  have b: "bg_id small_budget = ''p''" "bg_max_spend_total small_budget = 1 / 4" by (simp_all add: small_budget_def)
  have "total_of small_engine_budget ''p'' = 0" by code_simp
  moreover have "sum_list (map snd (approved_costs noon (new_request ''q'') small_engine_budget two_candidates)) = 2 / 5"
    by code_simp
  ultimately have "total_of (commit_all noon (bd_reservations d) e1) ''p'' = 2 / 5"
    using commits_charge_last_policy [OF ok ids, of "new_request ''q''" small_budget noon e1 d _ noon] ev res b by simp
  then show ?thesis using b by (simp add: ev)
qed

end
