(* ===== verification/Routing_Policies.thy ===== *)
theory Routing_Policies
  imports Provider_Registry "HOL-Library.Product_Lexorder" "HOL-Library.List_Lexorder" "HOL-Library.Char_ord"
begin

text \<open>
  The routing policies (\<open>core/omniroute/routing_policies.py\<close>): scores, the strategies that rank candidates
  and the engine that stores policies, finds the one for a request and evaluates candidates with it.
  Logarithms are those of real analysis; every score is rounded as in the code. Random numbers are an
  argument, evaluation times are left out.
\<close>

subsection \<open>Data\<close>

record routing_policy =
  rp_id :: string
  rp_name :: string
  rp_description :: string
  rp_enabled :: bool
  rp_priority :: int
  rp_strategy :: string
  rp_provider_filter :: "string list"
  rp_model_filter :: "string list"
  rp_capability_filter :: "string list"
  rp_weight_overrides :: "(string, real) dict"
  rp_budget_override :: real
  rp_latency_override_ms :: real
  rp_context_override :: int
  rp_workspace_scope :: string
  rp_agent_scope :: string
  rp_user_scope :: string
  rp_version :: string
  rp_created_at :: real
  rp_updated_at :: real

definition new_routing_policy :: "string \<Rightarrow> real \<Rightarrow> routing_policy" where
  "new_routing_policy uid now =
     \<lparr>rp_id = uid, rp_name = [], rp_description = [], rp_enabled = True, rp_priority = 0,
      rp_strategy = ''balanced'', rp_provider_filter = [], rp_model_filter = [], rp_capability_filter = [],
      rp_weight_overrides = [], rp_budget_override = 0, rp_latency_override_ms = 0, rp_context_override = 0,
      rp_workspace_scope = [], rp_agent_scope = [], rp_user_scope = [], rp_version = ''1.0.0'',
      rp_created_at = now, rp_updated_at = now\<rparr>"

text \<open>Reasons: a fixed text, a named score, a flag with a score, or the index in the rotation.\<close>

datatype strategy_reason =
    RText string
  | RScore string real
  | RFlag string bool string real
  | RIndex nat

record scored_candidate =
  sd_provider :: omni_provider
  sd_model :: omni_model
  sd_score :: real
  sd_reason :: strategy_reason

type_synonym pair = "omni_provider \<times> omni_model"

subsection \<open>Scores\<close>

definition log_share :: "real \<Rightarrow> real \<Rightarrow> real" where
  "log_share x most = ln (1 + x) / ln (1 + most)"

definition cost_score :: "omni_provider \<Rightarrow> omni_model \<Rightarrow> real" where
  "cost_score p m =
     (let total = pv_cost_per_1k_input p + pv_cost_per_1k_output p + (md_input_cost_per_1k m + md_output_cost_per_1k m)
      in if total \<le> 0 then 1 else py_round 4 (max 0 (1 - log_share total 10)))"

definition latency_score :: "omni_provider \<Rightarrow> omni_model \<Rightarrow> real \<Rightarrow> real" where
  "latency_score p m max_latency =
     (let combined = max (pv_latency_ms p) (md_latency_ms m);
          bound = (if max_latency > 0 then max_latency else 5000)
      in if combined \<le> 0 then 1 else py_round 4 (max 0 (min 1 (1 - combined / bound))))"

definition health_score :: "omni_provider \<Rightarrow> omni_model \<Rightarrow> real" where
  "health_score p m =
     (if pv_healthy p \<and> md_healthy m then 1 else if pv_healthy p \<or> md_healthy m then 1 / 2 else 0)"

definition reliability_score :: "omni_provider \<Rightarrow> real" where
  "reliability_score p = (if \<not> pv_enabled p then 0 else if pv_healthy p then 1 else 3 / 10)"

definition context_score :: "omni_model \<Rightarrow> real" where
  "context_score m =
     (if md_context_window m \<le> 0 then 0 else py_round 4 (min 1 (log_share (of_int (md_context_window m)) 1000000)))"

definition preference_score :: "omni_provider \<Rightarrow> omni_model \<Rightarrow> routing_request \<Rightarrow> real" where
  "preference_score p m rq =
     (let a = (if rq_preferred_provider rq \<noteq> [] \<and>
                  (pv_name p = rq_preferred_provider rq \<or> pv_id p = rq_preferred_provider rq) then 1 / 2 else 0);
          b = (if rq_preferred_model rq \<noteq> [] \<and>
                  (md_model_id m = rq_preferred_model rq \<or> md_display_name m = rq_preferred_model rq) then 1 / 2 else 0)
      in py_round 4 (min 1 (a + b)))"

definition quality_score :: "omni_model \<Rightarrow> real" where
  "quality_score m = min (max (md_quality_score m) 0) 1"

record weights =
  wt_quality :: real
  wt_cost :: real
  wt_latency :: real
  wt_health :: real
  wt_reliability :: real
  wt_context :: real
  wt_preference :: real

definition default_weights :: weights where
  "default_weights = \<lparr>wt_quality = 1, wt_cost = 1, wt_latency = 1, wt_health = 1, wt_reliability = 1 / 2,
     wt_context = 3 / 10, wt_preference = 1 / 2\<rparr>"

definition resolve_weights :: "routing_policy \<Rightarrow> weights \<Rightarrow> weights" where
  "resolve_weights pol w =
     (let ow = rp_weight_overrides pol
      in \<lparr>wt_quality = dict_get_or ow ''quality'' (wt_quality w), wt_cost = dict_get_or ow ''cost'' (wt_cost w),
          wt_latency = dict_get_or ow ''latency'' (wt_latency w), wt_health = dict_get_or ow ''health'' (wt_health w),
          wt_reliability = dict_get_or ow ''reliability'' (wt_reliability w),
          wt_context = dict_get_or ow ''context'' (wt_context w),
          wt_preference = dict_get_or ow ''preference'' (wt_preference w)\<rparr>)"

definition sum_weights :: "weights \<Rightarrow> real" where
  "sum_weights w = wt_quality w + wt_cost w + wt_latency w + wt_health w + wt_reliability w + wt_context w + wt_preference w"

definition weighted_total :: "omni_provider \<Rightarrow> omni_model \<Rightarrow> routing_request \<Rightarrow> weights \<Rightarrow> real" where
  "weighted_total p m rq w =
     (let total = quality_score m * wt_quality w + cost_score p m * wt_cost w +
            latency_score p m (rq_max_latency_ms rq) * wt_latency w + health_score p m * wt_health w +
            reliability_score p * wt_reliability w + context_score m * wt_context w +
            preference_score p m rq * wt_preference w
      in py_round 4 (if sum_weights w > 0 then total / sum_weights w else 0))"

definition mentions :: "string list \<Rightarrow> omni_provider \<Rightarrow> bool" where
  "mentions ts p \<longleftrightarrow> list_ex (\<lambda>t. py_in t (py_lower (pv_kind p)) \<or> py_in t (py_lower (pv_name p))) ts"

definition local_names :: "string list" where
  "local_names = [''local'', ''ollama'', ''lm-studio'', ''lmstudio'']"

subsection \<open>Strategies\<close>

text \<open>A strategy without state scores each candidate by itself.\<close>

type_synonym scorer = "routing_request \<Rightarrow> routing_policy \<Rightarrow> omni_provider \<Rightarrow> omni_model \<Rightarrow> real \<times> strategy_reason"

definition balanced_strategy :: scorer where
  "balanced_strategy rq pol p m = (weighted_total p m rq (resolve_weights pol default_weights), RText ''balanced'')"

definition lowest_cost_strategy :: scorer where
  "lowest_cost_strategy rq pol p m =
     (let c = cost_score p m in (c * 5 + health_score p m * (1 / 2), RScore ''cost_score'' c))"

definition highest_quality_strategy :: scorer where
  "highest_quality_strategy rq pol p m =
     (let q = quality_score m in (q * 5 + health_score p m * (1 / 2), RScore ''quality_score'' q))"

definition lowest_latency_strategy :: scorer where
  "lowest_latency_strategy rq pol p m =
     (let l = latency_score p m (rq_max_latency_ms rq)
      in (l * 5 + health_score p m * (1 / 2), RScore ''latency_score'' l))"

definition highest_reliability_strategy :: scorer where
  "highest_reliability_strategy rq pol p m =
     (let r = reliability_score p in (r * 5 + quality_score m * 1, RScore ''reliability_score'' r))"

definition local_first_strategy :: scorer where
  "local_first_strategy rq pol p m =
     (let loc = mentions local_names p; q = quality_score m
      in (q + (if loc then 5 else 0), RFlag ''local'' loc ''quality'' q))"

definition cloud_first_strategy :: scorer where
  "cloud_first_strategy rq pol p m =
     (let loc = mentions local_names p; q = quality_score m
      in (q + (if \<not> loc then 3 else 0), RFlag ''cloud'' (\<not> loc) ''quality'' q))"

definition reasoning_optimized_strategy :: scorer where
  "reasoning_optimized_strategy rq pol p m =
     (let q = quality_score m
      in (q * 2 + (if md_supports_reasoning m then 3 else 0), RFlag ''reasoning'' (md_supports_reasoning m) ''quality'' q))"

definition vision_optimized_strategy :: scorer where
  "vision_optimized_strategy rq pol p m =
     (let q = quality_score m
      in (q * 2 + (if md_supports_vision m then 3 else 0), RFlag ''vision'' (md_supports_vision m) ''quality'' q))"

definition streaming_optimized_strategy :: scorer where
  "streaming_optimized_strategy rq pol p m =
     (let l = latency_score p m (rq_max_latency_ms rq)
      in (l * 2 + (if md_supports_streaming m then 3 else 0), RFlag ''streaming'' (md_supports_streaming m) ''latency'' l))"

definition tool_calling_optimized_strategy :: scorer where
  "tool_calling_optimized_strategy rq pol p m =
     (let q = quality_score m
      in (q * 2 + (if md_supports_tools m then 3 else 0), RFlag ''tools'' (md_supports_tools m) ''quality'' q))"

text \<open>The defaults of this one are the overrides themselves.\<close>

definition custom_weighted_strategy :: scorer where
  "custom_weighted_strategy rq pol p m =
     (weighted_total p m rq (resolve_weights pol (resolve_weights pol default_weights)), RText ''custom_weighted'')"

definition workspace_default_strategy :: scorer where
  "workspace_default_strategy rq pol p m =
     (weighted_total p m rq (resolve_weights pol default_weights), RText (''workspace='' @ rp_workspace_scope pol))"

definition agent_default_strategy :: scorer where
  "agent_default_strategy rq pol p m =
     (weighted_total p m rq (resolve_weights pol default_weights), RText (''agent='' @ rp_agent_scope pol))"

definition user_default_strategy :: scorer where
  "user_default_strategy rq pol p m =
     (weighted_total p m rq (resolve_weights pol default_weights), RText (''user='' @ rp_user_scope pol))"

definition emergency_failover_strategy :: scorer where
  "emergency_failover_strategy rq pol p m =
     (if pv_healthy p \<and> md_healthy m then 1 else 0, RText ''emergency_failover'')"

definition safe_mode_strategy :: scorer where
  "safe_mode_strategy rq pol p m =
     (if health_score p m < 1 then 0 else quality_score m * 2 + reliability_score p * 3, RText ''safe_mode'')"

definition offline_mode_strategy :: scorer where
  "offline_mode_strategy rq pol p m =
     (if mentions (local_names @ [''offline'']) p then 1 else 0, RText ''offline_mode'')"

definition plain_strategies :: "(string, scorer) dict" where
  "plain_strategies =
     [(''balanced'', balanced_strategy), (''lowest_cost'', lowest_cost_strategy),
      (''highest_quality'', highest_quality_strategy), (''lowest_latency'', lowest_latency_strategy),
      (''highest_reliability'', highest_reliability_strategy), (''local_first'', local_first_strategy),
      (''cloud_first'', cloud_first_strategy), (''reasoning_optimized'', reasoning_optimized_strategy),
      (''vision_optimized'', vision_optimized_strategy), (''streaming_optimized'', streaming_optimized_strategy),
      (''tool_calling_optimized'', tool_calling_optimized_strategy), (''custom_weighted'', custom_weighted_strategy),
      (''workspace_default'', workspace_default_strategy), (''agent_default'', agent_default_strategy),
      (''user_default'', user_default_strategy), (''emergency_failover'', emergency_failover_strategy),
      (''safe_mode'', safe_mode_strategy), (''offline_mode'', offline_mode_strategy)]"

definition mark :: "pair \<Rightarrow> real \<times> strategy_reason \<Rightarrow> scored_candidate" where
  "mark c sr = \<lparr>sd_provider = fst c, sd_model = snd c, sd_score = fst sr, sd_reason = snd sr\<rparr>"

definition rank_by :: "(pair \<Rightarrow> real \<times> strategy_reason) \<Rightarrow> pair list \<Rightarrow> scored_candidate list" where
  "rank_by f cs = sort_desc sd_score (map (\<lambda>c. mark c (f c)) cs)"

text \<open>The state of the strategies: the counter of the rotation and the last provider of each user.\<close>

record strategy_state =
  st_counter :: int
  st_last_provider :: "(string, string) dict"

definition rotation_score :: "int \<Rightarrow> nat \<Rightarrow> nat \<Rightarrow> real" where
  "rotation_score counter n i =
     (let distance = (int i - counter mod int n) mod int n in 1 - of_int distance / of_int (max (int n) 1))"

definition round_robin_strategy :: "pair list \<Rightarrow> strategy_state \<Rightarrow> strategy_state \<times> scored_candidate list" where
  "round_robin_strategy cs st =
     (if cs = [] then (st, [])
      else
        (let n = length cs
         in (st\<lparr>st_counter := (st_counter st + 1) mod int n\<rparr>,
             sort_desc sd_score
               (map (\<lambda>(i, c). mark c (rotation_score (st_counter st) n i, RIndex i)) (enumerate 0 cs)))))"

definition random_strategy :: "(nat \<Rightarrow> real) \<Rightarrow> pair list \<Rightarrow> scored_candidate list" where
  "random_strategy rnd cs = sort_desc sd_score (map (\<lambda>(i, c). mark c (rnd i, RText ''random'')) (enumerate 0 cs))"

definition sticky_key :: "routing_request \<Rightarrow> string" where
  "sticky_key rq = list_or (rq_user_id rq) (list_or (rq_workspace rq) ''default'')"

definition sticky_strategy :: "routing_request \<Rightarrow> pair list \<Rightarrow> strategy_state \<Rightarrow> strategy_state \<times> scored_candidate list" where
  "sticky_strategy rq cs st =
     (let last = dict_get_or (st_last_provider st) (sticky_key rq) [];
          same = (\<lambda>p. pv_id p = last \<or> pv_name p = last);
          ranked = rank_by (\<lambda>(p, m). (quality_score m + (if same p then 3 else 0),
                     RText (''sticky_provider='' @ (if same p then ''yes'' else ''no'')))) cs
      in case ranked of
           [] \<Rightarrow> (st, [])
         | c # _ \<Rightarrow> (st\<lparr>st_last_provider := dict_set (st_last_provider st) (sticky_key rq) (pv_name (sd_provider c))\<rparr>, ranked))"

text \<open>An unknown name falls back to the balanced strategy.\<close>

definition run_strategy ::
  "(nat \<Rightarrow> real) \<Rightarrow> string \<Rightarrow> routing_request \<Rightarrow> routing_policy \<Rightarrow> pair list \<Rightarrow> strategy_state \<Rightarrow>
   strategy_state \<times> scored_candidate list" where
  "run_strategy rnd name rq pol cs st =
     (if name = ''round_robin'' then round_robin_strategy cs st
      else if name = ''random'' then (st, random_strategy rnd cs)
      else if name = ''sticky_provider'' then sticky_strategy rq cs st
      else
        (let f = dict_get_or plain_strategies name balanced_strategy
         in (st, rank_by (\<lambda>(p, m). f rq pol p m) cs)))"

subsection \<open>The engine\<close>

record policy_engine =
  re_has_bus :: bool
  re_started :: bool
  re_start_time :: real
  re_policies :: "(string, routing_policy) dict"
  re_default_policy_id :: string
  re_strategies :: strategy_state
  re_policy_usage :: "(string, int) dict"
  re_evaluations :: int
  re_selection_freq :: "(string, int) dict"
  re_events :: "omni_event list"

definition pe_init :: "bool \<Rightarrow> policy_engine" where
  "pe_init has_bus = \<lparr>re_has_bus = has_bus, re_started = False, re_start_time = 0, re_policies = [],
     re_default_policy_id = [], re_strategies = \<lparr>st_counter = 0, st_last_provider = []\<rparr>, re_policy_usage = [],
     re_evaluations = 0, re_selection_freq = [], re_events = []\<rparr>"

definition pe_publish :: "omni_event \<Rightarrow> policy_engine \<Rightarrow> policy_engine" where
  "pe_publish ev e = (if re_has_bus e then e\<lparr>re_events := re_events e @ [ev]\<rparr> else e)"

definition pe_initialize :: "string \<Rightarrow> real \<Rightarrow> policy_engine \<Rightarrow> policy_engine" where
  "pe_initialize uid now e =
     (if list_ex (\<lambda>p. rp_name p = ''Balanced (Default)'') (dict_values (re_policies e)) then e
      else e\<lparr>re_policies := dict_set (re_policies e) uid
               ((new_routing_policy uid now)\<lparr>rp_name := ''Balanced (Default)'',
                  rp_description := ''Default balanced routing policy''\<rparr>),
             re_default_policy_id := uid\<rparr>)"

definition pe_start :: "real \<Rightarrow> policy_engine \<Rightarrow> policy_engine" where
  "pe_start now e = e\<lparr>re_started := True, re_start_time := now\<rparr>"

definition pe_stop :: "policy_engine \<Rightarrow> policy_engine" where
  "pe_stop e = e\<lparr>re_started := False\<rparr>"

definition pe_dispose :: "policy_engine \<Rightarrow> policy_engine" where
  "pe_dispose e = (pe_stop e)\<lparr>re_policies := [], re_default_policy_id := []\<rparr>"

definition named_event :: "string \<Rightarrow> routing_policy \<Rightarrow> omni_event" where
  "named_event topic p = (topic, [(''policy_id'', Txt (rp_id p)), (''name'', Txt (rp_name p))])"

definition pe_create_policy :: "routing_policy \<Rightarrow> policy_engine \<Rightarrow> policy_engine \<times> string result" where
  "pe_create_policy p e =
     (if rp_id p \<in> set (dict_keys (re_policies e)) then (e, Inl (ValueError (rp_id p)))
      else (pe_publish (named_event ''routing_policy.created'' p)
              (e\<lparr>re_policies := dict_set (re_policies e) (rp_id p) p\<rparr>), Inr (rp_id p)))"

definition pe_update_policy :: "routing_policy \<Rightarrow> policy_engine \<Rightarrow> policy_engine \<times> string result" where
  "pe_update_policy p e =
     (if rp_id p \<notin> set (dict_keys (re_policies e)) then (e, Inl (ValueError (rp_id p)))
      else (pe_publish (named_event ''routing_policy.updated'' p)
              (e\<lparr>re_policies := dict_set (re_policies e) (rp_id p) p\<rparr>), Inr (rp_id p)))"

definition pe_delete_policy :: "string \<Rightarrow> policy_engine \<Rightarrow> policy_engine \<times> bool" where
  "pe_delete_policy i e =
     (if i \<notin> set (dict_keys (re_policies e)) then (e, False)
      else (pe_publish (''routing_policy.deleted'', [(''policy_id'', Txt i)])
              (e\<lparr>re_policies := dict_del (re_policies e) i,
                 re_default_policy_id := (if re_default_policy_id e = i then [] else re_default_policy_id e)\<rparr>), True))"

text \<open>Enabling and disabling: false unless the flag changes; the times are set anew.\<close>

definition turn_policy :: "bool \<Rightarrow> string \<Rightarrow> real \<Rightarrow> string \<Rightarrow> policy_engine \<Rightarrow> policy_engine \<times> bool" where
  "turn_policy on topic now i e =
     (case dict_get (re_policies e) i of
        None \<Rightarrow> (e, False)
      | Some p \<Rightarrow>
          if rp_enabled p = on then (e, False)
          else (pe_publish (topic, [(''policy_id'', Txt i)])
                  (e\<lparr>re_policies := dict_set (re_policies e) i
                       (p\<lparr>rp_enabled := on, rp_created_at := now, rp_updated_at := now\<rparr>)\<rparr>), True))"

definition pe_enable_policy :: "real \<Rightarrow> string \<Rightarrow> policy_engine \<Rightarrow> policy_engine \<times> bool" where
  "pe_enable_policy now i e = turn_policy True ''routing_policy.enabled'' now i e"

definition pe_disable_policy :: "real \<Rightarrow> string \<Rightarrow> policy_engine \<Rightarrow> policy_engine \<times> bool" where
  "pe_disable_policy now i e = turn_policy False ''routing_policy.disabled'' now i e"

definition pe_get_policy :: "string \<Rightarrow> policy_engine \<Rightarrow> routing_policy option" where
  "pe_get_policy i e = dict_get (re_policies e) i"

definition by_priority :: "routing_policy list \<Rightarrow> routing_policy list" where
  "by_priority ps = sort_key (\<lambda>p. (- rp_priority p, rp_name p)) ps"

definition pe_list_policies :: "bool \<Rightarrow> policy_engine \<Rightarrow> routing_policy list" where
  "pe_list_policies enabled_only e =
     by_priority (filter (\<lambda>p. enabled_only \<longrightarrow> rp_enabled p) (dict_values (re_policies e)))"

text \<open>\<open>max(xs, key=f)\<close>: the first element with the greatest key.\<close>

fun py_max :: "('a \<Rightarrow> 'b::linorder) \<Rightarrow> 'a \<Rightarrow> 'a list \<Rightarrow> 'a" where
  "py_max f b [] = b"
| "py_max f b (x # xs) = py_max f (if f x > f b then x else b) xs"

definition pe_default_policy :: "policy_engine \<Rightarrow> routing_policy option" where
  "pe_default_policy e =
     (if re_default_policy_id e \<noteq> [] then dict_get (re_policies e) (re_default_policy_id e)
      else (case dict_values (re_policies e) of
              [] \<Rightarrow> None
            | p # ps \<Rightarrow> Some (py_max (\<lambda>p. (rp_priority p, rp_name p)) p ps)))"

definition pe_set_default :: "string \<Rightarrow> policy_engine \<Rightarrow> policy_engine \<times> bool" where
  "pe_set_default i e =
     (if i \<notin> set (dict_keys (re_policies e)) then (e, False) else (e\<lparr>re_default_policy_id := i\<rparr>, True))"

definition caps_overlap :: "string list \<Rightarrow> string list \<Rightarrow> bool" where
  "caps_overlap xs ys \<longleftrightarrow> list_ex (\<lambda>x. x \<in> set (map py_lower ys)) (map py_lower xs)"

definition policy_applies :: "routing_request \<Rightarrow> routing_policy \<Rightarrow> bool" where
  "policy_applies rq p \<longleftrightarrow>
     (if rp_user_scope p \<noteq> [] \<and> rp_user_scope p \<noteq> rq_user_id rq then False
      else if rp_agent_scope p \<noteq> [] \<and> rp_agent_scope p \<noteq> rq_agent rq then False
      else if rp_workspace_scope p \<noteq> [] \<and> rp_workspace_scope p \<noteq> rq_workspace rq then False
      else if rp_provider_filter p \<noteq> [] \<and> rq_preferred_provider rq \<noteq> [] \<and>
              rq_preferred_provider rq \<notin> set (rp_provider_filter p) then False
      else if rp_model_filter p \<noteq> [] \<and> rq_preferred_model rq \<noteq> [] \<and>
              rq_preferred_model rq \<notin> set (rp_model_filter p) then False
      else if rp_capability_filter p \<noteq> [] \<and> rq_required_capabilities rq \<noteq> [] \<and>
              \<not> caps_overlap (rq_required_capabilities rq) (rp_capability_filter p) then False
      else True)"

definition pe_applicable_policies :: "routing_request \<Rightarrow> policy_engine \<Rightarrow> routing_policy list" where
  "pe_applicable_policies rq e = by_priority (filter (policy_applies rq) (pe_list_policies True e))"

definition pe_rank_policies :: "routing_request \<Rightarrow> policy_engine \<Rightarrow> routing_policy list" where
  "pe_rank_policies rq e = pe_applicable_policies rq e"

text \<open>The policy for a request; the last resort is made on the spot.\<close>

definition pe_resolve_policy :: "string \<Rightarrow> real \<Rightarrow> routing_request \<Rightarrow> policy_engine \<Rightarrow> routing_policy" where
  "pe_resolve_policy uid now rq e =
     (case pe_applicable_policies rq e of
        p # _ \<Rightarrow> p
      | [] \<Rightarrow>
          (case pe_default_policy e of
             Some p \<Rightarrow> p
           | None \<Rightarrow> (new_routing_policy uid now)\<lparr>rp_name := ''Fallback Balanced'', rp_priority := -1\<rparr>))"

definition apply_policy_filters :: "routing_policy \<Rightarrow> pair list \<Rightarrow> pair list" where
  "apply_policy_filters pol cs =
     (let cs = (if rp_provider_filter pol = [] then cs
                else (let pf = set (map py_lower (rp_provider_filter pol))
                      in filter (\<lambda>(p, m). py_lower (pv_name p) \<in> pf \<or> py_lower (pv_id p) \<in> pf) cs));
          cs = (if rp_model_filter pol = [] then cs
                else (let mf = set (map py_lower (rp_model_filter pol))
                      in filter (\<lambda>(p, m). py_lower (md_model_id m) \<in> mf \<or>
                           (md_display_name m \<noteq> [] \<and> py_lower (md_display_name m) \<in> mf)) cs))
      in if rp_capability_filter pol = [] then cs
         else filter (\<lambda>(p, m). caps_overlap (rp_capability_filter pol) (md_capabilities m)) cs)"

record overrides_used =
  ou_weights :: "(string, real) dict"
  ou_budget :: "real option"
  ou_latency_ms :: "real option"
  ou_context :: "int option"

record policy_result =
  pt_policy_name :: string
  pt_policy_id :: string
  pt_strategy :: string
  pt_selected_provider :: string
  pt_selected_provider_id :: string
  pt_selected_model :: string
  pt_selected_model_id :: string
  pt_selected_cost :: real
  pt_selected_latency_ms :: real
  pt_scored_candidates :: "(string \<times> string \<times> strategy_reason \<times> real) list"
  pt_reason :: strategy_reason
  pt_policy_applied :: bool
  pt_overrides_used :: overrides_used

definition no_overrides :: overrides_used where
  "no_overrides = \<lparr>ou_weights = [], ou_budget = None, ou_latency_ms = None, ou_context = None\<rparr>"

definition used_overrides :: "routing_policy \<Rightarrow> overrides_used" where
  "used_overrides pol =
     \<lparr>ou_weights = rp_weight_overrides pol,
      ou_budget = (if rp_budget_override pol > 0 then Some (rp_budget_override pol) else None),
      ou_latency_ms = (if rp_latency_override_ms pol > 0 then Some (rp_latency_override_ms pol) else None),
      ou_context = (if rp_context_override pol > 0 then Some (rp_context_override pol) else None)\<rparr>"

definition empty_result :: "routing_policy \<Rightarrow> strategy_reason \<Rightarrow> bool \<Rightarrow> overrides_used \<Rightarrow> policy_result" where
  "empty_result pol rsn applied ou =
     \<lparr>pt_policy_name = rp_name pol, pt_policy_id = rp_id pol, pt_strategy = rp_strategy pol,
      pt_selected_provider = [], pt_selected_provider_id = [], pt_selected_model = [], pt_selected_model_id = [],
      pt_selected_cost = 0, pt_selected_latency_ms = 0, pt_scored_candidates = [], pt_reason = rsn,
      pt_policy_applied = applied, pt_overrides_used = ou\<rparr>"

definition selected_result :: "routing_policy \<Rightarrow> scored_candidate \<Rightarrow> scored_candidate list \<Rightarrow> policy_result" where
  "selected_result pol c ranked =
     (let p = sd_provider c; m = sd_model c
      in (empty_result pol (sd_reason c) True (used_overrides pol))
         \<lparr>pt_selected_provider := pv_name p, pt_selected_provider_id := pv_id p,
          pt_selected_model := list_or (md_display_name m) (md_model_id m), pt_selected_model_id := md_model_id m,
          pt_selected_cost := md_input_cost_per_1k m + md_output_cost_per_1k m,
          pt_selected_latency_ms := max (pv_latency_ms p) (md_latency_ms m),
          pt_scored_candidates :=
            map (\<lambda>s. (pv_name (sd_provider s), md_model_id (sd_model s), sd_reason s, sd_score s)) ranked\<rparr>)"

definition count_up :: "string \<Rightarrow> (string, int) dict \<Rightarrow> (string, int) dict" where
  "count_up k d = dict_set d k (dict_get_or d k 0 + 1)"

definition pe_evaluate ::
  "string \<Rightarrow> real \<Rightarrow> (nat \<Rightarrow> real) \<Rightarrow> pair list \<Rightarrow> routing_request \<Rightarrow> routing_policy option \<Rightarrow> policy_engine \<Rightarrow>
   policy_engine \<times> policy_result" where
  "pe_evaluate uid now rnd cs rq given e =
     (let pol = (case given of Some p \<Rightarrow> p | None \<Rightarrow> pe_resolve_policy uid now rq e) in
      if cs = [] then (e, empty_result pol (RText ''No candidates to evaluate'') False no_overrides)
      else
        (let (st, ranked) = run_strategy rnd (rp_strategy pol) rq pol (apply_policy_filters pol cs) (re_strategies e);
             e = e\<lparr>re_strategies := st, re_evaluations := re_evaluations e + 1,
                   re_policy_usage := count_up (rp_strategy pol) (re_policy_usage e)\<rparr>;
             e = (case ranked of [] \<Rightarrow> e
                  | c # _ \<Rightarrow> e\<lparr>re_selection_freq :=
                      count_up (pv_name (sd_provider c) @ ''/'' @ md_model_id (sd_model c)) (re_selection_freq e)\<rparr>);
             r = (case ranked of
                    [] \<Rightarrow> empty_result pol (RText ''No viable candidates'') True (used_overrides pol)
                  | c # _ \<Rightarrow> selected_result pol c ranked);
             e = pe_publish (''routing_policy.selected'',
                   [(''policy_id'', Txt (rp_id pol)), (''policy_name'', Txt (rp_name pol)),
                    (''strategy'', Txt (rp_strategy pol)), (''selected_provider'', Txt (pt_selected_provider r)),
                    (''selected_model'', Txt (pt_selected_model_id r)),
                    (''candidates_evaluated'', Num (of_nat (length ranked)))]) e
         in (e, r)))"

text \<open>The metrics: tables in descending order of their counts.\<close>

definition pe_metrics :: "policy_engine \<Rightarrow> (string, int) dict \<times> int \<times> (string, int) dict" where
  "pe_metrics e = (sort_desc snd (re_policy_usage e), re_evaluations e, sort_desc snd (re_selection_freq e))"

definition pe_strategy_names :: "string list" where
  "pe_strategy_names =
     (let names = dict_keys plain_strategies
      in take 12 names @ [''round_robin'', ''random'', ''sticky_provider''] @ drop 12 names)"

end
