(* ===== verification/Policy_Laws.thy ===== *)
theory Policy_Laws
  imports Routing_Policies
begin

text \<open>
  What the strategies and the policy engine guarantee: rankings are permutations in descending order, the
  selected candidate has passed the filters of its policy and has the best score, the rotation serves every
  candidate once per round, and weighted scores stay in the unit interval.
\<close>

subsection \<open>Rankings\<close>

abbreviation pair_of :: "scored_candidate \<Rightarrow> pair" where
  "pair_of s \<equiv> (sd_provider s, sd_model s)"

definition ranking_of :: "pair list \<Rightarrow> scored_candidate list \<Rightarrow> bool" where
  "ranking_of cs rs \<longleftrightarrow> mset (map pair_of rs) = mset cs \<and> sorted_wrt (\<lambda>x y. sd_score y \<le> sd_score x) rs"

lemma mark_simps [simp]: "pair_of (mark c sr) = c" "sd_score (mark c sr) = fst sr" "sd_reason (mark c sr) = snd sr"
  by (simp_all add: mark_def)

lemma ranking_sort:
  assumes "map pair_of xs = cs"
  shows "ranking_of cs (sort_desc sd_score xs)"
proof -
  have "mset (map pair_of (sort_desc sd_score xs)) = mset (map pair_of xs)" by (simp add: mset_map)
  then show ?thesis using assms sorted_sort_desc [of sd_score xs] by (simp add: ranking_of_def)
qed

lemma map_pair_enumerate: "map pair_of (map (\<lambda>(i, c). mark c (f i c)) (enumerate n cs)) = cs"
  by (induction cs arbitrary: n) (simp_all add: mark_def)

lemma ranking_rank_by: "ranking_of cs (rank_by f cs)"
  unfolding rank_by_def by (rule ranking_sort) (simp add: comp_def mark_def)

lemma ranking_enumerate: "ranking_of cs (sort_desc sd_score (map (\<lambda>(i, c). mark c (f i c)) (enumerate 0 cs)))"
  by (rule ranking_sort [OF map_pair_enumerate])

lemma ranking_run_strategy: "ranking_of cs (snd (run_strategy rnd name rq pol cs st))"
proof -
  have "ranking_of cs (snd (round_robin_strategy cs st))"
    using ranking_enumerate [of cs "\<lambda>i c. (rotation_score (st_counter st) (length cs) i, RIndex i)"]
    by (simp add: round_robin_strategy_def Let_def ranking_of_def)
  moreover have "ranking_of cs (random_strategy rnd cs)"
    unfolding random_strategy_def by (rule ranking_enumerate)
  moreover have "snd (sticky_strategy rq cs st) = rank_by
      (\<lambda>(p, m). (quality_score m + (if pv_id p = dict_get_or (st_last_provider st) (sticky_key rq) [] \<or>
           pv_name p = dict_get_or (st_last_provider st) (sticky_key rq) [] then 3 else 0),
         RText (''sticky_provider='' @ (if pv_id p = dict_get_or (st_last_provider st) (sticky_key rq) [] \<or>
           pv_name p = dict_get_or (st_last_provider st) (sticky_key rq) [] then ''yes'' else ''no'')))) cs"
    by (simp add: sticky_strategy_def Let_def split: list.split)
  ultimately show ?thesis using ranking_rank_by [of cs] by (simp add: run_strategy_def Let_def)
qed

subsection \<open>Selection\<close>

definition passes_filters :: "routing_policy \<Rightarrow> pair \<Rightarrow> bool" where
  "passes_filters pol c \<longleftrightarrow>
     (rp_provider_filter pol \<noteq> [] \<longrightarrow>
        py_lower (pv_name (fst c)) \<in> set (map py_lower (rp_provider_filter pol)) \<or>
        py_lower (pv_id (fst c)) \<in> set (map py_lower (rp_provider_filter pol))) \<and>
     (rp_model_filter pol \<noteq> [] \<longrightarrow>
        py_lower (md_model_id (snd c)) \<in> set (map py_lower (rp_model_filter pol)) \<or>
        (md_display_name (snd c) \<noteq> [] \<and> py_lower (md_display_name (snd c)) \<in> set (map py_lower (rp_model_filter pol)))) \<and>
     (rp_capability_filter pol \<noteq> [] \<longrightarrow> caps_overlap (rp_capability_filter pol) (md_capabilities (snd c)))"

lemma apply_policy_filters_eq: "apply_policy_filters pol cs = filter (passes_filters pol) cs"
  unfolding apply_policy_filters_def Let_def passes_filters_def
  by (auto simp: case_prod_unfold filter_filter intro!: filter_cong)

lemma selected_result_simps [simp]:
  "pt_selected_provider (selected_result pol c rs) = pv_name (sd_provider c)"
  "pt_selected_model_id (selected_result pol c rs) = md_model_id (sd_model c)"
  "pt_scored_candidates (selected_result pol c rs) =
     map (\<lambda>s. (pv_name (sd_provider s), md_model_id (sd_model s), sd_reason s, sd_score s)) rs"
  "pt_policy_id (selected_result pol c rs) = rp_id pol" "pt_reason (selected_result pol c rs) = sd_reason c"
  "pt_selected_cost (selected_result pol c rs) = md_input_cost_per_1k (sd_model c) + md_output_cost_per_1k (sd_model c)"
  by (simp_all add: selected_result_def empty_result_def Let_def)

lemma empty_result_simps [simp]:
  "pt_selected_model_id (empty_result pol r b ou) = []" "pt_scored_candidates (empty_result pol r b ou) = []"
  "pt_policy_id (empty_result pol r b ou) = rp_id pol"
  by (simp_all add: empty_result_def)

lemma pe_evaluate_result:
  assumes ev: "pe_evaluate uid now rnd cs rq given e = (e', r)"
    and pol: "pol = (case given of Some p \<Rightarrow> p | None \<Rightarrow> pe_resolve_policy uid now rq e)"
  shows "(filter (passes_filters pol) cs = [] \<and> pt_scored_candidates r = [] \<and> pt_selected_model_id r = []) \<or>
    (\<exists>c rs. ranking_of (filter (passes_filters pol) cs) (c # rs) \<and> r = selected_result pol c (c # rs))"
proof -
  obtain st rs where run: "run_strategy rnd (rp_strategy pol) rq pol (filter (passes_filters pol) cs) (re_strategies e) = (st, rs)"
    by force
  have rank: "ranking_of (filter (passes_filters pol) cs) rs"
    using ranking_run_strategy [of "filter (passes_filters pol) cs" rnd "rp_strategy pol" rq pol "re_strategies e"] by (simp add: run)
  show ?thesis
  proof (cases "cs = []")
    case True
    then have "r = empty_result pol (RText ''No candidates to evaluate'') False no_overrides"
      using ev by (simp add: pe_evaluate_def pol)
    then show ?thesis using True by simp
  next
    case False
    have res: "r = (case rs of [] \<Rightarrow> empty_result pol (RText ''No viable candidates'') True (used_overrides pol)
                  | c # _ \<Rightarrow> selected_result pol c rs)"
      using ev False run by (auto simp: pe_evaluate_def pol [symmetric] apply_policy_filters_eq Let_def)
    show ?thesis
    proof (cases rs)
      case Nil
      then have "filter (passes_filters pol) cs = []" using rank by (auto simp: ranking_of_def filter_empty_conv)
      then show ?thesis using res Nil by (auto simp: filter_empty_conv)
    next
      case (Cons c rs')
      then show ?thesis using rank res by auto
    qed
  qed
qed

lemma mset_map_cong: "mset xs = mset ys \<Longrightarrow> mset (map g xs) = mset (map g ys)"
  by (simp only: mset_map)

text \<open>C31: For every strategy, evaluating candidates with a policy scores exactly the candidates that pass the
  policy's filters, in descending order of their scores; if there is one, the selected model and provider are
  those of a candidate with the best score.\<close>

theorem policy_selects_best:
  assumes "pe_evaluate uid now rnd cs rq (Some pol) e = (e', r)"
  shows "sorted_wrt (\<lambda>x y. snd (snd (snd y)) \<le> snd (snd (snd x))) (pt_scored_candidates r) \<and>
    mset (map (\<lambda>(pn, mid, rsn, sc). (pn, mid)) (pt_scored_candidates r)) =
      mset (map (\<lambda>(p, m). (pv_name p, md_model_id m)) (filter (passes_filters pol) cs)) \<and>
    (filter (passes_filters pol) cs \<noteq> [] \<longrightarrow>
       (\<exists>p m rsn sc. (p, m) \<in> set cs \<and> passes_filters pol (p, m) \<and> pt_selected_provider r = pv_name p \<and>
          pt_selected_model_id r = md_model_id m \<and>
          pt_scored_candidates r \<noteq> [] \<and> hd (pt_scored_candidates r) = (pv_name p, md_model_id m, rsn, sc) \<and>
          (\<forall>x\<in>set (pt_scored_candidates r). snd (snd (snd x)) \<le> sc)))"
proof (cases "filter (passes_filters pol) cs = []")
  case True
  then have "pt_scored_candidates r = []"
    using pe_evaluate_result [OF assms, of pol] by (auto simp: ranking_of_def)
  then show ?thesis using True by simp
next
  case False
  then obtain c rs where ranked: "ranking_of (filter (passes_filters pol) cs) (c # rs)" "r = selected_result pol c (c # rs)"
    using pe_evaluate_result [OF assms, of pol] by auto
  note rank = ranked(1) [unfolded ranking_of_def]
  let ?row = "\<lambda>s. (pv_name (sd_provider s), md_model_id (sd_model s), sd_reason s, sd_score s)"
  have rows: "pt_scored_candidates r = map ?row (c # rs)" using ranked(2) by simp
  have "map (\<lambda>(pn, mid, rsn, sc). (pn, mid)) (pt_scored_candidates r) =
      map (\<lambda>(p, m). (pv_name p, md_model_id m)) (map pair_of (c # rs))"
    unfolding rows by simp
  then have ms: "mset (map (\<lambda>(pn, mid, rsn, sc). (pn, mid)) (pt_scored_candidates r)) =
      mset (map (\<lambda>(p, m). (pv_name p, md_model_id m)) (filter (passes_filters pol) cs))"
    using mset_map_cong [OF rank [THEN conjunct1], of "\<lambda>(p, m). (pv_name p, md_model_id m)"] by (simp only:)
  have "pair_of c \<in> set (filter (passes_filters pol) cs)"
    using mset_eq_setD [OF rank [THEN conjunct1]] by auto
  moreover have "\<forall>x\<in>set (pt_scored_candidates r). snd (snd (snd x)) \<le> sd_score c"
    using rank by (auto simp: rows)
  ultimately have "\<exists>p m rsn sc. (p, m) \<in> set cs \<and> passes_filters pol (p, m) \<and> pt_selected_provider r = pv_name p \<and>
          pt_selected_model_id r = md_model_id m \<and>
          pt_scored_candidates r \<noteq> [] \<and> hd (pt_scored_candidates r) = (pv_name p, md_model_id m, rsn, sc) \<and>
          (\<forall>x\<in>set (pt_scored_candidates r). snd (snd (snd x)) \<le> sc)"
    using ranked(2) rows by (intro exI [of _ "sd_provider c"] exI [of _ "sd_model c"]) auto
  moreover have "sorted_wrt (\<lambda>x y. snd (snd (snd y)) \<le> snd (snd (snd x))) (pt_scored_candidates r)"
    using rank by (simp add: rows sorted_wrt_map)
  ultimately show ?thesis using ms by blast
qed

subsection \<open>Rotation\<close>

lemma rotation_score_top:
  assumes "i < n" and "0 < n"
  shows "rotation_score k n i \<le> 1" and "rotation_score k n i = 1 \<longleftrightarrow> int i = k mod int n"
proof -
  let ?d = "(int i - k mod int n) mod int n"
  have d: "0 \<le> ?d" using assms by simp
  have s: "rotation_score k n i = 1 - of_int ?d / of_int (int n)" using assms by (simp add: rotation_score_def Let_def)
  show "rotation_score k n i \<le> 1" using d assms by (simp add: s)
  have "rotation_score k n i = 1 \<longleftrightarrow> ?d = 0" using assms by (simp add: s)
  also have "\<dots> \<longleftrightarrow> int i mod int n = (k mod int n) mod int n" by (simp add: mod_eq_dvd_iff dvd_eq_mod_eq_0 mod_diff_right_eq)
  also have "\<dots> \<longleftrightarrow> int i = k mod int n" using assms by simp
  finally show "rotation_score k n i = 1 \<longleftrightarrow> int i = k mod int n" .
qed

definition turn :: "int \<Rightarrow> nat \<Rightarrow> nat" where
  "turn k n = nat (k mod int n)"

lemma round_robin_selects:
  assumes "cs \<noteq> []"
  shows "pair_of (hd (snd (round_robin_strategy cs st))) = cs ! turn (st_counter st) (length cs)"
    and "st_counter (fst (round_robin_strategy cs st)) = (st_counter st + 1) mod int (length cs)"
proof -
  let ?n = "length cs" and ?k = "st_counter st"
  let ?xs = "map (\<lambda>(i, c). mark c (rotation_score ?k ?n i, RIndex i)) (enumerate 0 cs)"
  have n: "0 < ?n" using assms by simp
  let ?t = "turn ?k ?n"
  have t: "?t < ?n" "int ?t = ?k mod int ?n" using n by (simp_all add: turn_def nat_less_iff)
  have mem: "x \<in> set ?xs \<longleftrightarrow> (\<exists>i<?n. x = mark (cs ! i) (rotation_score ?k ?n i, RIndex i))" for x
    by (auto simp: in_set_enumerate_eq)
  have top: "mark (cs ! ?t) (rotation_score ?k ?n ?t, RIndex ?t) \<in> set ?xs" unfolding mem using t(1) by blast
  have "rotation_score ?k ?n ?t = 1" using rotation_score_top(2) [OF t(1) n] t(2) by simp
  then have "1 \<le> sd_score (hd (sort_desc sd_score ?xs))" using hd_sort_desc [OF top, of sd_score] by simp
  moreover have "hd (sort_desc sd_score ?xs) \<in> set ?xs"
    unfolding set_sort_desc [of sd_score ?xs, symmetric] by (rule hd_in_set) (use top in auto)
  then obtain i where i: "i < ?n" "hd (sort_desc sd_score ?xs) = mark (cs ! i) (rotation_score ?k ?n i, RIndex i)"
    unfolding mem by blast
  ultimately have "rotation_score ?k ?n i = 1" using rotation_score_top(1) [OF i(1) n, of ?k] by simp
  then have "i = ?t" using rotation_score_top(2) [OF i(1) n, of ?k] t by simp
  then show "pair_of (hd (snd (round_robin_strategy cs st))) = cs ! turn ?k ?n"
    using assms i by (simp add: round_robin_strategy_def Let_def)
  show "st_counter (fst (round_robin_strategy cs st)) = (?k + 1) mod int ?n"
    using assms by (simp add: round_robin_strategy_def Let_def)
qed

definition next_in_turn :: "pair list \<Rightarrow> unit \<Rightarrow> strategy_state \<Rightarrow> strategy_state \<times> pair" where
  "next_in_turn cs u st = (let (st', rs) = round_robin_strategy cs st in (st', pair_of (hd rs)))"

lemma turn_succ: "0 < n \<Longrightarrow> turn ((k + 1) mod int n + int j) n = turn (k + int (Suc j)) n"
  by (simp add: turn_def mod_add_left_eq) (simp add: algebra_simps)

lemma rotation_run:
  assumes "cs \<noteq> []"
  shows "snd (run_calls (next_in_turn cs) (replicate m ()) st) =
    map (\<lambda>j. cs ! turn (st_counter st + int j) (length cs)) [0..<m]"
proof (induction m arbitrary: st)
  case (Suc m)
  let ?st = "fst (round_robin_strategy cs st)"
  have n: "0 < length cs" using assms by simp
  have one: "next_in_turn cs () st = (?st, cs ! turn (st_counter st) (length cs))"
    using round_robin_selects(1) [OF assms] by (simp add: next_in_turn_def case_prod_beta)
  have "map (\<lambda>j. cs ! turn (st_counter ?st + int j) (length cs)) [0..<m] =
      map (\<lambda>j. cs ! turn (st_counter st + int (Suc j)) (length cs)) [0..<m]"
    using turn_succ [OF n] round_robin_selects(2) [OF assms] by (simp del: of_nat_Suc)
  moreover have "[0..<Suc m] = 0 # map Suc [0..<m]" by (simp add: map_Suc_upt upt_conv_Cons)
  ultimately show ?case using Suc.IH [of ?st] one by (simp add: case_prod_beta comp_def del: upt_Suc)
qed simp

text \<open>C32: Over as many calls as there are candidates, the rotation selects every candidate exactly once, in
  the order of the list, beginning where its counter stands; the number of the call alone decides.\<close>

theorem rotation_serves_each_once:
  assumes "cs \<noteq> []"
  shows "snd (run_calls (next_in_turn cs) (replicate (length cs) ()) st) =
      rotate (turn (st_counter st) (length cs)) cs \<and>
    (\<forall>m. length (snd (run_calls (next_in_turn cs) (replicate m ()) st)) = m) \<and>
    mset (snd (run_calls (next_in_turn cs) (replicate (length cs) ()) st)) = mset cs"
proof -
  let ?n = "length cs" and ?k = "st_counter st"
  have n: "0 < ?n" using assms by simp
  have t: "turn (?k + int j) ?n = (turn ?k ?n + j) mod ?n" for j
  proof -
    have "int (turn (?k + int j) ?n) = (?k + int j) mod int ?n" using n by (simp add: turn_def)
    also have "\<dots> = (?k mod int ?n + int j) mod int ?n" by (simp add: mod_add_left_eq)
    also have "\<dots> = int ((turn ?k ?n + j) mod ?n)" using n by (simp add: turn_def zmod_int)
    finally show ?thesis by simp
  qed
  have eq: "snd (run_calls (next_in_turn cs) (replicate ?n ()) st) = rotate (turn ?k ?n) cs"
    unfolding rotation_run [OF assms] by (rule nth_equalityI) (simp_all add: t nth_rotate)
  have "mset (rotate k cs) = mset cs" for k
  proof -
    have "mset (rotate k cs) = mset (drop (k mod ?n) cs) + mset (take (k mod ?n) cs)" by (simp add: rotate_drop_take)
    also have "\<dots> = mset (take (k mod ?n) cs @ drop (k mod ?n) cs)"
      by (simp only: mset_append add.commute)
    finally show ?thesis by simp
  qed
  then show ?thesis using eq by simp
qed

definition three_pairs :: "pair list" where
  "three_pairs = map (\<lambda>n. ((new_provider n 0)\<lparr>pv_name := n\<rparr>, (new_model n 0)\<lparr>md_model_id := n\<rparr>)) [''a'', ''b'', ''c'']"

theorem rotation_serves_each_once_witness:
  "map (pv_name \<circ> fst) (snd (run_calls (next_in_turn three_pairs) [(), (), ()] \<lparr>st_counter = 1, st_last_provider = []\<rparr>))
     = [''b'', ''c'', ''a'']"
proof -
  have ne: "three_pairs \<noteq> []" and l: "length three_pairs = 3" by (simp_all add: three_pairs_def)
  have "snd (run_calls (next_in_turn three_pairs) (replicate 3 ()) \<lparr>st_counter = 1, st_last_provider = []\<rparr>) =
      rotate 1 three_pairs"
    using rotation_serves_each_once [OF ne, of "\<lparr>st_counter = 1, st_last_provider = []\<rparr>"] by (simp add: l turn_def)
  then show ?thesis by (simp add: numeral_3_eq_3 three_pairs_def)
qed

definition quality_policy :: routing_policy where
  "quality_policy = (new_routing_policy ''pol'' 0)\<lparr>rp_strategy := ''highest_quality'', rp_model_filter := [''A'', ''C'']\<rparr>"

definition graded_pairs :: "pair list" where
  "graded_pairs = map (\<lambda>(n, q). ((new_provider n 0)\<lparr>pv_name := n\<rparr>, (new_model n 0)\<lparr>md_model_id := n, md_quality_score := q\<rparr>))
     [(''a'', 1 / 4), (''b'', 1), (''c'', 3 / 4)]"

lemma graded_run:
  "snd (run_strategy rnd ''highest_quality'' rq quality_policy (apply_policy_filters quality_policy graded_pairs) st) =
   map (\<lambda>(c, q). mark c (q * 5, RScore ''quality_score'' q)) [(graded_pairs ! 2, 3 / 4), (graded_pairs ! 0, 1 / 4)]"
proof -
  have f: "apply_policy_filters quality_policy graded_pairs = [graded_pairs ! 0, graded_pairs ! 2]" by code_simp
  show ?thesis unfolding f
    by (simp add: run_strategy_def plain_strategies_def dict_get_or_def highest_quality_strategy_def rank_by_def
        graded_pairs_def quality_score_def health_score_def new_provider_def new_model_def sort_desc_def mark_def)
qed

theorem policy_selects_best_witness:
  "pt_selected_model_id (snd (pe_evaluate ''u'' 0 (\<lambda>i. 0) graded_pairs (new_request ''q'') (Some quality_policy) (pe_init False))) = ''c'' \<and>
   sorted_wrt (\<lambda>x y. snd (snd (snd y)) \<le> snd (snd (snd x)))
     (pt_scored_candidates (snd (pe_evaluate ''u'' 0 (\<lambda>i. 0) graded_pairs (new_request ''q'') (Some quality_policy) (pe_init False))))"
proof -
  let ?ev = "pe_evaluate ''u'' 0 (\<lambda>i. 0) graded_pairs (new_request ''q'') (Some quality_policy) (pe_init False)"
  obtain e' r where ev: "?ev = (e', r)" by force
  have ne: "graded_pairs \<noteq> []" by (simp add: graded_pairs_def)
  have str: "rp_strategy quality_policy = ''highest_quality''" by (simp add: quality_policy_def)
  obtain st rs where run: "run_strategy (\<lambda>i. 0) ''highest_quality'' (new_request ''q'') quality_policy
      (apply_policy_filters quality_policy graded_pairs) (re_strategies (pe_init False)) = (st, rs)" by force
  have rs: "rs = map (\<lambda>(c, q). mark c (q * 5, RScore ''quality_score'' q)) [(graded_pairs ! 2, 3 / 4), (graded_pairs ! 0, 1 / 4)]"
    using graded_run [of "\<lambda>i. 0" "new_request ''q''" "re_strategies (pe_init False)"] by (simp only: run snd_conv)
  have "r = selected_result quality_policy (hd rs) rs"
    using ev by (auto simp: pe_evaluate_def ne str run Let_def rs)
  then have "pt_selected_model_id r = ''c''" by (simp add: rs mark_def) (simp add: graded_pairs_def new_model_def)
  then show ?thesis using policy_selects_best [OF ev] by (simp add: ev)
qed

subsection \<open>Scores in the unit interval\<close>

lemma unit_scores:
  "0 \<le> quality_score m \<and> quality_score m \<le> 1" "0 \<le> cost_score p m \<and> cost_score p m \<le> 1"
  "0 \<le> latency_score p m l \<and> latency_score p m l \<le> 1" "0 \<le> health_score p m \<and> health_score p m \<le> 1"
  "0 \<le> reliability_score p \<and> reliability_score p \<le> 1" "0 \<le> context_score m \<and> context_score m \<le> 1"
  "0 \<le> preference_score p m rq \<and> preference_score p m rq \<le> 1"
proof -
  have share: "0 \<le> log_share x t" if "0 \<le> x" "0 < t" for x t
    using that by (simp add: log_share_def)
  show "0 \<le> quality_score m \<and> quality_score m \<le> 1" by (simp add: quality_score_def)
  show "0 \<le> cost_score p m \<and> cost_score p m \<le> 1"
    unfolding cost_score_def Let_def
    using share [of "pv_cost_per_1k_input p + pv_cost_per_1k_output p + (md_input_cost_per_1k m + md_output_cost_per_1k m)" 10]
    by (auto intro!: py_round_unit [THEN conjunct1] py_round_unit [THEN conjunct2])
  show "0 \<le> latency_score p m l \<and> latency_score p m l \<le> 1"
    unfolding latency_score_def Let_def
    by (auto intro!: py_round_unit [THEN conjunct1] py_round_unit [THEN conjunct2])
  show "0 \<le> health_score p m \<and> health_score p m \<le> 1" by (simp add: health_score_def)
  show "0 \<le> reliability_score p \<and> reliability_score p \<le> 1" by (simp add: reliability_score_def)
  show "0 \<le> context_score m \<and> context_score m \<le> 1"
    unfolding context_score_def using share [of "of_int (md_context_window m)" 1000000]
    by (auto intro!: py_round_unit [THEN conjunct1] py_round_unit [THEN conjunct2])
  show "0 \<le> preference_score p m rq \<and> preference_score p m rq \<le> 1"
    unfolding preference_score_def Let_def
    by (auto intro!: py_round_unit [THEN conjunct1] py_round_unit [THEN conjunct2])
qed

definition weights_ok :: "weights \<Rightarrow> bool" where
  "weights_ok w \<longleftrightarrow> 0 \<le> wt_quality w \<and> 0 \<le> wt_cost w \<and> 0 \<le> wt_latency w \<and> 0 \<le> wt_health w \<and>
     0 \<le> wt_reliability w \<and> 0 \<le> wt_context w \<and> 0 \<le> wt_preference w"

lemma unit_times:
  assumes "0 \<le> x \<and> x \<le> (1::real)" and "0 \<le> w"
  shows "0 \<le> x * w \<and> x * w \<le> w"
  using assms mult_right_mono [of x 1 w] by simp

lemma weighted_total_unit:
  assumes "weights_ok w"
  shows "0 \<le> weighted_total p m rq w \<and> weighted_total p m rq w \<le> 1"
proof -
  note w = assms [unfolded weights_ok_def]
  note parts = unit_times [OF unit_scores(1) [of m], of "wt_quality w"] unit_times [OF unit_scores(2) [of p m], of "wt_cost w"]
    unit_times [OF unit_scores(3) [of p m "rq_max_latency_ms rq"], of "wt_latency w"]
    unit_times [OF unit_scores(4) [of p m], of "wt_health w"] unit_times [OF unit_scores(5) [of p], of "wt_reliability w"]
    unit_times [OF unit_scores(6) [of m], of "wt_context w"] unit_times [OF unit_scores(7) [of p m rq], of "wt_preference w"]
  let ?t = "quality_score m * wt_quality w + cost_score p m * wt_cost w +
            latency_score p m (rq_max_latency_ms rq) * wt_latency w + health_score p m * wt_health w +
            reliability_score p * wt_reliability w + context_score m * wt_context w +
            preference_score p m rq * wt_preference w"
  have t: "0 \<le> ?t \<and> ?t \<le> sum_weights w" using parts w by (simp add: sum_weights_def)
  then have "0 \<le> (if sum_weights w > 0 then ?t / sum_weights w else 0) \<and> (if sum_weights w > 0 then ?t / sum_weights w else 0) \<le> 1"
    by auto
  then show ?thesis unfolding weighted_total_def Let_def by (intro py_round_unit) simp_all
qed

subsection \<open>Which policy applies\<close>

lemma set_by_priority [simp]: "set (by_priority ps) = set ps"
  by (simp add: by_priority_def)

lemma hd_by_priority:
  assumes "by_priority ps = p # qs" and "q \<in> set ps"
  shows "(- rp_priority p, rp_name p) \<le> (- rp_priority q, rp_name q)"
proof -
  have "sorted (map (\<lambda>p. (- rp_priority p, rp_name p)) (by_priority ps))" by (simp add: by_priority_def)
  moreover have "q \<in> set (p # qs)" using assms by (metis set_by_priority)
  ultimately show ?thesis using assms(1) by auto
qed

lemma by_priority_Nil [simp]: "by_priority ps = [] \<longleftrightarrow> ps = []"
  by (metis set_by_priority set_empty)

text \<open>C33: The policy for a request is an enabled stored policy that applies to it, with the highest priority
  among those and the least name among equals; when no enabled policy applies it is the default policy, which is used
  even if it is disabled or scoped to somebody else, and if there is none a fallback is made up.\<close>

theorem resolution_prefers_priority:
  "(case pe_applicable_policies rq e of
      [] \<Rightarrow> {q \<in> set (dict_values (re_policies e)). rp_enabled q \<and> policy_applies rq q} = {} \<and>
             pe_resolve_policy uid now rq e =
               (case pe_default_policy e of Some d \<Rightarrow> d
                | None \<Rightarrow> (new_routing_policy uid now)\<lparr>rp_name := ''Fallback Balanced'', rp_priority := -1\<rparr>)
    | _ # _ \<Rightarrow>
        (case pe_resolve_policy uid now rq e of p \<Rightarrow>
           p \<in> {q \<in> set (dict_values (re_policies e)). rp_enabled q \<and> policy_applies rq q} \<and>
           is_arg_min (\<lambda>q. (- rp_priority q, rp_name q))
             (\<lambda>q. q \<in> set (dict_values (re_policies e)) \<and> rp_enabled q \<and> policy_applies rq q) p))"
proof -
  let ?A = "filter (policy_applies rq) (pe_list_policies True e)"
  have A: "q \<in> set ?A \<longleftrightarrow> q \<in> set (dict_values (re_policies e)) \<and> rp_enabled q \<and> policy_applies rq q" for q
    by (auto simp: pe_list_policies_def)
  have app: "pe_applicable_policies rq e = by_priority ?A" by (simp add: pe_applicable_policies_def)
  show ?thesis
  proof (cases "by_priority ?A")
    case Nil
    then have "?A = []" by (simp only: by_priority_Nil)
    then have "q \<notin> set ?A" for q by simp
    then have "\<not> (rp_enabled q \<and> policy_applies rq q)" if "q \<in> set (dict_values (re_policies e))" for q
      using A that by blast
    then have "{q \<in> set (dict_values (re_policies e)). rp_enabled q \<and> policy_applies rq q} = {}" by blast
    then show ?thesis by (simp only: app Nil pe_resolve_policy_def list.case simp_thms)
  next
    case (Cons p qs)
    have r: "pe_resolve_policy uid now rq e = p" by (simp add: pe_resolve_policy_def app Cons)
    have "p \<in> set ?A" using Cons by (metis list.set_intros(1) set_by_priority)
    then have p: "p \<in> set (dict_values (re_policies e)) \<and> rp_enabled p \<and> policy_applies rq p" by (simp only: A)
    have "is_arg_min (\<lambda>q. (- rp_priority q, rp_name q))
        (\<lambda>q. q \<in> set (dict_values (re_policies e)) \<and> rp_enabled q \<and> policy_applies rq q) p"
      unfolding is_arg_min_def
    proof (intro conjI notI)
      show "p \<in> set (dict_values (re_policies e))" "rp_enabled p" "policy_applies rq p" using p by blast+
      assume "\<exists>q. (q \<in> set (dict_values (re_policies e)) \<and> rp_enabled q \<and> policy_applies rq q) \<and>
          (- rp_priority q, rp_name q) < (- rp_priority p, rp_name p)"
      then obtain q where q: "q \<in> set ?A" "(- rp_priority q, rp_name q) < (- rp_priority p, rp_name p)" by (metis A)
      then show False using hd_by_priority [OF Cons q(1)] by (metis not_le)
    qed
    then show ?thesis using p by (simp add: app Cons r)
  qed
qed

end
