(* ===== verification/Router.thy ===== *)
theory Router
  imports Routing_Policies Model_Registry Budgets Rate_Engine Scheduler_Engine Circuit_Breaker
begin

text \<open>
  The router (\<open>core/omniroute/router.py\<close>): the scoring engine, the fallback engine, the filters and the
  pipeline of \<open>route\<close> over the registries, the budget engine, the rate limiter, the scheduler, the circuit
  breaker, the learning engine and the policy engine, which are the models of their own theories.

  A call of \<open>route\<close> runs without being suspended as long as the bus has room for its events, so it is one
  step. Clock readings, fresh identifiers, random numbers and the measured durations come with the call.
  Of the learning engine only \<open>enrich\<close> is here, as the router calls it; the execution and aggregation
  engines are stored by the router and never used. Identifier and time of a decision are left out.
\<close>

subsection \<open>Data\<close>

record routing_score =
  rs_quality_score :: real
  rs_cost_score :: real
  rs_latency_score :: real
  rs_health_score :: real
  rs_reliability_score :: real
  rs_context_score :: real
  rs_preference_score :: real
  rs_weighted_total :: real
  rs_candidate_count :: int
  rs_rank :: int

definition no_score :: routing_score where
  "no_score = \<lparr>rs_quality_score = 0, rs_cost_score = 0, rs_latency_score = 0, rs_health_score = 0,
     rs_reliability_score = 0, rs_context_score = 0, rs_preference_score = 0, rs_weighted_total = 0,
     rs_candidate_count = 0, rs_rank = 0\<rparr>"

text \<open>A fixed text, the reason of the policy engine, or the texts that quote the selection and its score.\<close>

datatype route_reason =
    Because string
  | PolicySays strategy_reason
  | Selected string string real
  | BestProvider string real

record routing_decision =
  dn_request_id :: string
  dn_provider :: string
  dn_provider_id :: string
  dn_model :: string
  dn_model_id :: string
  dn_score :: routing_score
  dn_reason :: route_reason
  dn_fallback_chain :: "(string \<times> string \<times> string) list"
  dn_estimated_cost :: real
  dn_estimated_latency_ms :: real
  dn_confidence :: real
  dn_policy_used :: string
  dn_status :: string
  dn_alternatives_rejected :: int

definition new_decision :: "string \<Rightarrow> routing_decision" where
  "new_decision req =
     \<lparr>dn_request_id = req, dn_provider = [], dn_provider_id = [], dn_model = [], dn_model_id = [],
      dn_score = no_score, dn_reason = Because [], dn_fallback_chain = [], dn_estimated_cost = 0,
      dn_estimated_latency_ms = 0, dn_confidence = 0, dn_policy_used = ''weighted'', dn_status = ''routed'',
      dn_alternatives_rejected = 0\<rparr>"

record route_candidate =
  cn_provider :: omni_provider
  cn_model :: omni_model
  cn_score :: routing_score
  cn_weighted_total :: real
  cn_rank :: int

subsection \<open>Scoring engine\<close>

definition se_quality :: "omni_model \<Rightarrow> real" where
  "se_quality m = min (max (md_quality_score m) 0) 1"

definition se_cost :: "omni_provider \<Rightarrow> omni_model \<Rightarrow> real" where
  "se_cost p m =
     (let total = pv_cost_per_1k_input p + pv_cost_per_1k_output p + (md_input_cost_per_1k m + md_output_cost_per_1k m)
      in if total \<le> 0 then 1 else py_round 4 (max 0 (1 - ln (1 + total) / ln (1 + 10))))"

definition se_latency :: "routing_request \<Rightarrow> omni_provider \<Rightarrow> omni_model \<Rightarrow> real" where
  "se_latency rq p m =
     (let combined = max (pv_latency_ms p) (md_latency_ms m)
      in if combined \<le> 0 then 1
         else py_round 4 (max 0 (min 1 (1 - combined / num_or (rq_max_latency_ms rq) 5000))))"

definition se_health :: "omni_provider \<Rightarrow> omni_model \<Rightarrow> real" where
  "se_health p m = (if pv_healthy p \<and> md_healthy m then 1 else if pv_healthy p \<or> md_healthy m then 1 / 2 else 0)"

definition se_reliability :: "omni_provider \<Rightarrow> real" where
  "se_reliability p = (if \<not> pv_enabled p then 0 else if pv_healthy p then 1 else 3 / 10)"

definition se_context :: "omni_model \<Rightarrow> real" where
  "se_context m =
     (if md_context_window m \<le> 0 then 0
      else py_round 4 (min 1 (ln (1 + of_int (md_context_window m)) / ln (1 + 1000000))))"

definition se_preference :: "routing_request \<Rightarrow> omni_provider \<Rightarrow> omni_model \<Rightarrow> real" where
  "se_preference rq p m =
     py_round 4 (min 1
       ((if rq_preferred_provider rq \<noteq> [] \<and>
            (pv_name p = rq_preferred_provider rq \<or> pv_id p = rq_preferred_provider rq) then 1 / 2 else 0) +
        (if rq_preferred_model rq \<noteq> [] \<and>
            (md_model_id m = rq_preferred_model rq \<or> md_display_name m = rq_preferred_model rq) then 1 / 2 else 0)))"

definition se_score :: "routing_request \<Rightarrow> omni_provider \<Rightarrow> omni_model \<Rightarrow> routing_score" where
  "se_score rq p m =
     (let quality = se_quality m; cost = se_cost p m; latency = se_latency rq p m; health = se_health p m;
          reliability = se_reliability p; context = se_context m; preference = se_preference rq p m;
          total_weight = rq_quality_weight rq + rq_cost_weight rq + rq_latency_weight rq + 1 + 1 / 2 + 3 / 10 + 1 / 2;
          total_weight = (if total_weight \<le> 0 then 1 else total_weight);
          weighted_total =
            (quality * rq_quality_weight rq + cost * rq_cost_weight rq + latency * rq_latency_weight rq +
             health * 1 + reliability * (1 / 2) + context * (3 / 10) + preference * (1 / 2)) / total_weight
      in \<lparr>rs_quality_score = py_round 4 quality, rs_cost_score = py_round 4 cost,
          rs_latency_score = py_round 4 latency, rs_health_score = py_round 4 health,
          rs_reliability_score = py_round 4 reliability, rs_context_score = py_round 4 context,
          rs_preference_score = py_round 4 preference, rs_weighted_total = py_round 4 weighted_total,
          rs_candidate_count = 1, rs_rank = 0\<rparr>)"

definition score_pair :: "routing_request \<Rightarrow> pair \<Rightarrow> route_candidate" where
  "score_pair rq c =
     (let s = se_score rq (fst c) (snd c)
      in \<lparr>cn_provider = fst c, cn_model = snd c, cn_score = s, cn_weighted_total = rs_weighted_total s, cn_rank = 0\<rparr>)"

subsection \<open>Fallback engine\<close>

fun fallback_generate ::
  "int \<Rightarrow> route_candidate list \<Rightarrow> (string \<times> string \<times> string) list \<Rightarrow> (string \<times> string \<times> string) list" where
  "fallback_generate n [] chain = chain"
| "fallback_generate n (c # cs) chain =
     (if int (length chain) \<ge> n then chain
      else if cn_weighted_total c \<le> 0 then fallback_generate n cs chain
      else fallback_generate n cs
             (chain @ [(pv_name (cn_provider c), pv_id (cn_provider c), md_model_id (cn_model c))]))"

fun fallback_by_provider ::
  "int \<Rightarrow> omni_provider list \<Rightarrow> (string \<times> string \<times> string) list \<Rightarrow> (string \<times> string \<times> string) list" where
  "fallback_by_provider n [] chain = chain"
| "fallback_by_provider n (p # ps) chain =
     (if int (length chain) \<ge> n then chain
      else fallback_by_provider n ps (chain @ [(pv_name p, pv_id p, [])]))"

subsection \<open>Latency histogram\<close>

record latency_histogram =
  lh_samples :: "real list"
  lh_max :: int

definition lh_init :: latency_histogram where
  "lh_init = \<lparr>lh_samples = [], lh_max = 1000\<rparr>"

definition lh_record :: "real \<Rightarrow> latency_histogram \<Rightarrow> latency_histogram" where
  "lh_record x h =
     (let xs = lh_samples h @ [x]
      in h\<lparr>lh_samples := (if int (length xs) > lh_max h then py_slice (- lh_max h) (int (length xs)) xs else xs)\<rparr>)"

definition lh_percentile :: "real \<Rightarrow> latency_histogram \<Rightarrow> real" where
  "lh_percentile p h =
     (if lh_samples h = [] then 0
      else
        (let xs = sort (lh_samples h); n = int (length xs)
         in xs ! nat (max 0 (min (n - 1) (py_int (of_int n * p / 100))))))"

definition lh_count :: "latency_histogram \<Rightarrow> int" where
  "lh_count h = int (length (lh_samples h))"

subsection \<open>The learning engine as the router calls it\<close>

text \<open>
  \<open>enrich\<close> unpacks each candidate into a provider and a model. The router passes objects of its own class,
  which cannot be unpacked, so with candidates a started engine raises.
\<close>

record learner =
  ln_started :: bool
  ln_enrich_count :: int

definition enrich :: "route_candidate list \<Rightarrow> learner \<Rightarrow> learner \<times> unit result" where
  "enrich cs l =
     (if \<not> ln_started l \<or> cs = [] then (l, Inr ())
      else (l\<lparr>ln_enrich_count := ln_enrich_count l + 1\<rparr>, Inl (OtherError ''TypeError'')))"

subsection \<open>The router\<close>

datatype route_event =
    RV_Requested string string "string list"
  | RV_Rejected string "string list"
  | RV_Failed string route_reason
  | RV_Selected string string string string real real real int int
  | RV_Scoring string real int

record router =
  ro_provider_registry :: "provider_registry option"
  ro_model_registry :: "model_registry option"
  ro_policy_engine :: "policy_engine option"
  ro_budget_engine :: "budget_engine option"
  ro_circuit_breaker :: "cb_engine option"
  ro_learning_engine :: "learner option"
  ro_rate_limiter :: "rate_engine option"
  ro_scheduler :: "scheduler option"
  ro_has_bus :: bool
  ro_started :: bool
  ro_start_time :: real
  ro_routing_count :: int
  ro_routing_failures :: int
  ro_routing_duration_total :: real
  ro_provider_selection :: "(string, int) dict"
  ro_model_selection :: "(string, int) dict"
  ro_total_candidates :: int
  ro_total_scoring_time :: real
  ro_latency_histogram :: latency_histogram
  ro_events :: "route_event list"

definition ro_init ::
  "provider_registry option \<Rightarrow> model_registry option \<Rightarrow> bool \<Rightarrow> policy_engine option \<Rightarrow> budget_engine option \<Rightarrow>
   cb_engine option \<Rightarrow> learner option \<Rightarrow> rate_engine option \<Rightarrow> scheduler option \<Rightarrow> router" where
  "ro_init pr mr bus pe be cb le rl sc =
     \<lparr>ro_provider_registry = pr, ro_model_registry = mr, ro_policy_engine = pe, ro_budget_engine = be,
      ro_circuit_breaker = cb, ro_learning_engine = le, ro_rate_limiter = rl, ro_scheduler = sc,
      ro_has_bus = bus, ro_started = False, ro_start_time = 0, ro_routing_count = 0, ro_routing_failures = 0,
      ro_routing_duration_total = 0, ro_provider_selection = [], ro_model_selection = [],
      ro_total_candidates = 0, ro_total_scoring_time = 0, ro_latency_histogram = lh_init, ro_events = []\<rparr>"

definition ro_publish :: "route_event \<Rightarrow> router \<Rightarrow> router" where
  "ro_publish ev r = (if ro_has_bus r then r\<lparr>ro_events := ro_events r @ [ev]\<rparr> else r)"

definition ro_start :: "real \<Rightarrow> router \<Rightarrow> router" where
  "ro_start now r = r\<lparr>ro_started := True, ro_start_time := now\<rparr>"

definition ro_stop :: "router \<Rightarrow> router" where
  "ro_stop r = r\<lparr>ro_started := False\<rparr>"

definition ro_dispose :: "router \<Rightarrow> router" where
  "ro_dispose r = (ro_stop r)\<lparr>ro_latency_histogram := lh_init, ro_provider_selection := [], ro_model_selection := [],
     ro_routing_count := 0, ro_routing_duration_total := 0\<rparr>"

definition ro_health :: "real \<Rightarrow> router \<Rightarrow> string \<times> bool \<times> real \<times> int \<times> int \<times> bool \<times> bool" where
  "ro_health now r =
     (if ro_started r then ''healthy'' else ''stopped'', ro_started r,
      py_round 2 (if ro_started r then now - ro_start_time r else 0), ro_routing_count r, ro_routing_failures r,
      ro_provider_registry r \<noteq> None, ro_model_registry r \<noteq> None)"

text \<open>What a call of \<open>route\<close> finds: clocks, identifiers, random numbers and the time it takes.\<close>

record route_env =
  rc_clock :: budget_clock
  rc_mono :: real
  rc_mono_ms :: real
  rc_wall :: real
  rc_reservation_id :: "nat \<Rightarrow> string"
  rc_item_id :: "nat \<Rightarrow> string"
  rc_stamp :: string
  rc_policy_id :: string
  rc_random :: "nat \<Rightarrow> real"
  rc_scoring_time :: real
  rc_duration :: real

subsubsection \<open>Validation and candidates\<close>

definition validate_request :: "routing_request \<Rightarrow> string list" where
  "validate_request rq =
     (if rq_task_type rq = [] then [''task_type is required''] else []) @
     (if rq_cost_weight rq < 0 then [''cost_weight must be >= 0''] else []) @
     (if rq_quality_weight rq < 0 then [''quality_weight must be >= 0''] else []) @
     (if rq_latency_weight rq < 0 then [''latency_weight must be >= 0''] else []) @
     (if rq_budget_limit rq < 0 then [''budget_limit must be >= 0''] else []) @
     (if rq_max_latency_ms rq < 0 then [''max_latency_ms must be >= 0''] else [])"

definition query_providers :: "routing_request \<Rightarrow> router \<Rightarrow> omni_provider list" where
  "query_providers rq r =
     (case ro_provider_registry r of
        None \<Rightarrow> []
      | Some reg \<Rightarrow>
          (let ps = pr_list_providers
                 (if rq_task_type rq \<in> {''openai'', ''anthropic'', ''ollama''} then Some (rq_task_type rq) else None)
                 False False None reg
           in if rq_preferred_provider rq = [] then ps
              else (case pr_get_by_name (rq_preferred_provider rq) reg of
                      None \<Rightarrow> ps
                    | Some p \<Rightarrow> if p \<in> set ps then ps else ps @ [p])))"

definition query_models :: "router \<Rightarrow> omni_model list" where
  "query_models r =
     (case ro_model_registry r of None \<Rightarrow> [] | Some reg \<Rightarrow> mr_list_models None None None True False reg)"

text \<open>A comprehension keyed by identifier or name: the last provider with a key stays.\<close>

definition provider_map :: "(omni_provider \<Rightarrow> string) \<Rightarrow> omni_provider list \<Rightarrow> (string, omni_provider) dict" where
  "provider_map key ps = fold (\<lambda>p d. dict_set d (key p) p) ps []"

definition provider_of_model :: "omni_provider list \<Rightarrow> omni_model \<Rightarrow> omni_provider option" where
  "provider_of_model ps m =
     (case dict_get (provider_map pv_id ps) (md_provider_id m) of
        Some p \<Rightarrow> Some p
      | None \<Rightarrow> if md_provider m = [] then None else dict_get (provider_map pv_name ps) (md_provider m))"

definition filter_unhealthy_disabled :: "omni_provider list \<Rightarrow> omni_model list \<Rightarrow> pair list" where
  "filter_unhealthy_disabled ps ms =
     List.map_filter
       (\<lambda>m. map_option (\<lambda>p. (p, m)) (provider_of_model (filter (\<lambda>p. pv_enabled p \<and> pv_healthy p) ps) m))
       (filter md_enabled ms)"

subsubsection \<open>Filters\<close>

text \<open>One common capability is enough.\<close>

definition filter_capabilities :: "routing_request \<Rightarrow> pair list \<Rightarrow> pair list" where
  "filter_capabilities rq cs =
     (let cs = (if rq_required_capabilities rq = [] then cs
                else filter (\<lambda>(p, m). caps_overlap (rq_required_capabilities rq) (md_capabilities m)) cs);
          cs = (if rq_streaming_required rq then filter (\<lambda>(p, m). md_supports_streaming m) cs else cs);
          cs = (if rq_vision_required rq then filter (\<lambda>(p, m). md_supports_vision m) cs else cs);
          cs = (if rq_reasoning_required rq then filter (\<lambda>(p, m). md_supports_reasoning m) cs else cs)
      in if rq_tools_required rq then filter (\<lambda>(p, m). md_supports_tools m) cs else cs)"

definition filter_context :: "routing_request \<Rightarrow> pair list \<Rightarrow> pair list" where
  "filter_context rq cs =
     (if rq_minimum_context rq \<le> 0 then cs
      else filter (\<lambda>(p, m). md_context_window m \<ge> rq_minimum_context rq) cs)"

definition filter_budget :: "routing_request \<Rightarrow> pair list \<Rightarrow> pair list" where
  "filter_budget rq cs =
     (if rq_budget_limit rq \<le> 0 then cs
      else filter (\<lambda>(p, m). md_input_cost_per_1k m + md_output_cost_per_1k m \<le> rq_budget_limit rq) cs)"

definition filter_latency :: "routing_request \<Rightarrow> pair list \<Rightarrow> pair list" where
  "filter_latency rq cs =
     (if rq_max_latency_ms rq \<le> 0 then cs
      else filter (\<lambda>(p, m). max (pv_latency_ms p) (md_latency_ms m) \<le> rq_max_latency_ms rq) cs)"

subsubsection \<open>Stages of the pipeline\<close>

text \<open>A stage hands on the candidates that are left, or stops: the route fails, or an exception leaves it.\<close>

datatype route_stop = Fails route_reason | Raises py_error

type_synonym stage = "router \<times> (route_stop + pair list)"

definition continue_with :: "(pair list \<Rightarrow> router \<Rightarrow> stage) \<Rightarrow> stage \<Rightarrow> stage" where
  "continue_with f s = (case s of (r, Inl stop) \<Rightarrow> (r, Inl stop) | (r, Inr cs) \<Rightarrow> f cs r)"

definition keep_some :: "string \<Rightarrow> pair list \<Rightarrow> router \<Rightarrow> stage" where
  "keep_some rsn cs r = (r, if cs = [] then Inl (Fails (Because rsn)) else Inr cs)"

definition with_ids :: "(nat \<Rightarrow> string) \<Rightarrow> pair list \<Rightarrow> budget_candidate list" where
  "with_ids ids cs = map (\<lambda>(i, (p, m)). (p, m, ids i)) (enumerate 0 cs)"

definition budget_stage :: "route_env \<Rightarrow> routing_request \<Rightarrow> pair list \<Rightarrow> router \<Rightarrow> stage" where
  "budget_stage env rq cs r =
     (case ro_budget_engine r of
        None \<Rightarrow> (r, Inr cs)
      | Some e \<Rightarrow>
          (let (e, d) = be_evaluate (rc_clock env) (with_ids (rc_reservation_id env) cs) rq e;
               r = r\<lparr>ro_budget_engine := Some e\<rparr>
           in if \<not> bd_approved d then (r, Inl (Fails (Because (''Budget exceeded: '' @ bd_reason d))))
              else if bd_filtered_candidates d = [] then (r, Inr cs)
              else keep_some ''All candidates excluded by budget policies''
                     (filter (\<lambda>(p, m). candidate_name p m \<notin> set (bd_filtered_candidates d)) cs) r))"

definition limiter_request :: "route_env \<Rightarrow> routing_request \<Rightarrow> pair \<Rightarrow> rate_request" where
  "limiter_request env rq c =
     \<lparr>rr_provider = pv_name (fst c), rr_model = md_model_id (snd c),
      rr_scope_id = list_or (rq_workspace rq) (rq_user_id rq), rr_priority = NORMAL,
      rr_now = rc_mono env, rr_stamp = rc_stamp env\<rparr>"

fun limit_each :: "(pair \<Rightarrow> rate_request) \<Rightarrow> pair list \<Rightarrow> pair list \<Rightarrow> rate_engine \<Rightarrow> rate_engine \<times> pair list result" where
  "limit_each req [] cs e = (e, Inr cs)"
| "limit_each req (c # todo) cs e =
     (case en_evaluate (req c) e of
        (e, Inl err) \<Rightarrow> (e, Inl err)
      | (e, Inr d) \<Rightarrow>
          limit_each req todo (if \<not> rd_approved d \<and> \<not> rd_queued d then remove1 c cs else cs) e)"

definition limiter_stage :: "route_env \<Rightarrow> routing_request \<Rightarrow> pair list \<Rightarrow> router \<Rightarrow> stage" where
  "limiter_stage env rq cs r =
     (case ro_rate_limiter r of
        None \<Rightarrow> (r, Inr cs)
      | Some e \<Rightarrow>
          (case limit_each (limiter_request env rq) cs cs e of
             (e, Inl err) \<Rightarrow> (r\<lparr>ro_rate_limiter := Some e\<rparr>, Inl (Raises err))
           | (e, Inr cs) \<Rightarrow>
               keep_some ''All candidates excluded by rate limiter'' cs (r\<lparr>ro_rate_limiter := Some e\<rparr>)))"

text \<open>Models have no priority, cost per request or estimated latency and requests no deadline: the defaults apply.\<close>

fun schedule_each ::
  "route_env \<Rightarrow> nat \<Rightarrow> pair list \<Rightarrow> pair list \<Rightarrow> scheduler \<Rightarrow> scheduler \<times> pair list" where
  "schedule_each env i [] cs s = (s, cs)"
| "schedule_each env i (c # todo) cs s =
     (let (s, d) = sched_enqueue (rc_mono_ms env) (rc_wall env) (rc_item_id env i) (pv_name (fst c))
                     (md_model_id (snd c)) NORMAL None 0 0 (Some (pv_name (fst c))) s
      in schedule_each env (i + 1) todo (if \<not> sdn_queued d then remove1 c cs else cs) s)"

definition scheduler_stage :: "route_env \<Rightarrow> pair list \<Rightarrow> router \<Rightarrow> stage" where
  "scheduler_stage env cs r =
     (case ro_scheduler r of
        None \<Rightarrow> (r, Inr cs)
      | Some s \<Rightarrow>
          (let (s, cs) = schedule_each env 0 cs cs s
           in keep_some ''All candidates excluded by scheduler'' cs (r\<lparr>ro_scheduler := Some s\<rparr>)))"

fun admit_each :: "real \<Rightarrow> real \<Rightarrow> pair list \<Rightarrow> cb_engine \<Rightarrow> cb_engine \<times> pair list" where
  "admit_each mt wt [] b = (b, [])"
| "admit_each mt wt (c # cs) b =
     (let (b, ok) = cb_allow_request mt wt (pv_name (fst c)) b;
          (b, cs) = admit_each mt wt cs b
      in (b, if ok then c # cs else cs))"

definition breaker_stage :: "route_env \<Rightarrow> pair list \<Rightarrow> router \<Rightarrow> stage" where
  "breaker_stage env cs r =
     (case ro_circuit_breaker r of
        None \<Rightarrow> (r, Inr cs)
      | Some b \<Rightarrow>
          (let (b, cs) = admit_each (rc_mono env) (rc_wall env) cs b
           in keep_some ''All candidates excluded by circuit breaker'' cs (r\<lparr>ro_circuit_breaker := Some b\<rparr>)))"

definition plain_candidate :: "pair \<Rightarrow> route_candidate" where
  "plain_candidate c =
     \<lparr>cn_provider = fst c, cn_model = snd c, cn_score = no_score, cn_weighted_total = 0, cn_rank = 0\<rparr>"

definition learning_stage :: "pair list \<Rightarrow> router \<Rightarrow> stage" where
  "learning_stage cs r =
     (case ro_learning_engine r of
        None \<Rightarrow> (r, Inr cs)
      | Some l \<Rightarrow>
          (case enrich (map plain_candidate cs) l of
             (l, Inl err) \<Rightarrow> (r\<lparr>ro_learning_engine := Some l\<rparr>, Inl (Raises err))
           | (l, Inr _) \<Rightarrow> (r\<lparr>ro_learning_engine := Some l\<rparr>, Inr cs)))"

definition constraint_stage :: "routing_request \<Rightarrow> pair list \<Rightarrow> router \<Rightarrow> stage" where
  "constraint_stage rq cs r =
     keep_some ''No candidates pass budget/latency constraints''
       (let cs = filter_context rq cs;
            cs = (if rq_budget_limit rq > 0 then filter_budget rq cs else cs)
        in if rq_max_latency_ms rq > 0 then filter_latency rq cs else cs) r"

text \<open>Steps 2 to 10.\<close>

definition select_candidates :: "route_env \<Rightarrow> routing_request \<Rightarrow> router \<Rightarrow> stage" where
  "select_candidates env rq r =
     (let ps = query_providers rq r; ms = query_models r in
      if ps = [] \<or> ms = [] then (r, Inl (Fails (Because ''No providers or models available'')))
      else
        continue_with (constraint_stage rq)
          (continue_with (\<lambda>cs. keep_some ''No candidates match required capabilities'' (filter_capabilities rq cs))
            (continue_with learning_stage
              (continue_with (breaker_stage env)
                (continue_with (scheduler_stage env)
                  (continue_with (limiter_stage env rq)
                    (continue_with (budget_stage env rq)
                      (keep_some ''All providers/models unhealthy or disabled''
                         (filter_unhealthy_disabled ps ms) r))))))))"

subsubsection \<open>Scoring\<close>

definition rank_candidates :: "route_candidate list \<Rightarrow> route_candidate list" where
  "rank_candidates cs =
     (let ranked = sort_desc cn_weighted_total cs
      in map (\<lambda>(i, c). c\<lparr>cn_rank := int i + 1,
                        cn_score := (cn_score c)\<lparr>rs_candidate_count := int (length ranked), rs_rank := int i + 1\<rparr>\<rparr>)
           (enumerate 0 ranked))"

definition model_name :: "omni_model \<Rightarrow> string" where
  "model_name m = list_or (md_display_name m) (md_model_id m)"

definition model_price :: "omni_model \<Rightarrow> real" where
  "model_price m = md_input_cost_per_1k m + md_output_cost_per_1k m"

definition pair_latency :: "omni_provider \<Rightarrow> omni_model \<Rightarrow> real" where
  "pair_latency p m = max (pv_latency_ms p) (md_latency_ms m)"

text \<open>The same score in every dimension, for a candidate that the policy engine has scored.\<close>

definition policy_candidate :: "int \<Rightarrow> pair \<Rightarrow> real \<Rightarrow> route_candidate" where
  "policy_candidate n c x =
     \<lparr>cn_provider = fst c, cn_model = snd c,
      cn_score = \<lparr>rs_quality_score = x, rs_cost_score = x, rs_latency_score = x, rs_health_score = x,
        rs_reliability_score = x, rs_context_score = x, rs_preference_score = x, rs_weighted_total = x,
        rs_candidate_count = n, rs_rank = 0\<rparr>,
      cn_weighted_total = x, cn_rank = 0\<rparr>"

definition policy_candidates :: "pair list \<Rightarrow> policy_result \<Rightarrow> route_candidate list" where
  "policy_candidates cs res =
     List.map_filter
       (\<lambda>(pn, mid, _, x).
          map_option (\<lambda>c. policy_candidate (int (length (pt_scored_candidates res))) c x)
            (find (\<lambda>(p, m). pv_name p = pn \<and> md_model_id m = mid) cs))
       (pt_scored_candidates res)"

text \<open>The decision for the best of the ranked candidates.\<close>

definition make_decision ::
  "routing_request \<Rightarrow> route_candidate list \<Rightarrow> route_reason \<Rightarrow> real \<Rightarrow> real \<Rightarrow> string \<Rightarrow> routing_decision" where
  "make_decision rq ranked rsn cost latency used =
     (let best = hd ranked
      in (new_decision (rq_request_id rq))
         \<lparr>dn_provider := pv_name (cn_provider best), dn_provider_id := pv_id (cn_provider best),
          dn_model := model_name (cn_model best), dn_model_id := md_model_id (cn_model best),
          dn_score := cn_score best, dn_reason := rsn, dn_fallback_chain := fallback_generate 5 ranked [],
          dn_estimated_cost := py_round 6 cost, dn_estimated_latency_ms := py_round 2 latency,
          dn_confidence := py_round 4 (rs_weighted_total (cn_score best)), dn_policy_used := used,
          dn_alternatives_rejected := int (length ranked) - 1\<rparr>)"

text \<open>
  The decision with the ranked candidates and the unrounded estimates that are published, or the reason of
  failure. A reason of a strategy is never empty, and its name only if a policy has an empty one.
\<close>

type_synonym verdict = "route_reason + routing_decision \<times> route_candidate list \<times> real \<times> real"

definition decide_by_policy ::
  "route_env \<Rightarrow> routing_request \<Rightarrow> pair list \<Rightarrow> policy_engine \<Rightarrow> router \<Rightarrow> router \<times> verdict" where
  "decide_by_policy env rq cs pe r =
     (let (pe, res) = pe_evaluate (rc_policy_id env) (rc_wall env) (rc_random env) cs rq None pe;
          r = r\<lparr>ro_policy_engine := Some pe, ro_total_scoring_time := ro_total_scoring_time r + rc_scoring_time env\<rparr>
      in if pt_selected_model_id res = [] then (r, Inl (PolicySays (pt_reason res)))
         else
           (let scored = policy_candidates cs res in
            if scored = [] then (r, Inl (Because ''Policy engine scored zero candidates''))
            else
              (let ranked = rank_candidates scored; best = hd ranked;
                   cost = num_or (pt_selected_cost res) (model_price (cn_model best));
                   latency = num_or (pt_selected_latency_ms res) (pair_latency (cn_provider best) (cn_model best))
               in (r\<lparr>ro_total_candidates := ro_total_candidates r + int (length scored)\<rparr>,
                   Inr (make_decision rq ranked (PolicySays (pt_reason res)) cost latency
                          (list_or (pt_strategy res) ''policy_engine''), ranked, cost, latency)))))"

definition decide_by_weights :: "route_env \<Rightarrow> routing_request \<Rightarrow> pair list \<Rightarrow> router \<Rightarrow> router \<times> verdict" where
  "decide_by_weights env rq cs r =
     (let scored = map (score_pair rq) (sort_desc (md_quality_score \<circ> snd) cs);
          ranked = rank_candidates scored; best = hd ranked;
          r = r\<lparr>ro_total_scoring_time := ro_total_scoring_time r + rc_scoring_time env,
                ro_total_candidates := ro_total_candidates r + int (length scored)\<rparr>
      in if scored = [] then (r, Inl (Because ''All candidates scored zero''))
         else
           (let cost = model_price (cn_model best); latency = pair_latency (cn_provider best) (cn_model best)
            in (r, Inr (make_decision rq ranked
                          (Selected (pv_name (cn_provider best)) (md_model_id (cn_model best))
                             (rs_weighted_total (cn_score best))) cost latency ''weighted'', ranked, cost, latency))))"

definition decide_route :: "route_env \<Rightarrow> routing_request \<Rightarrow> pair list \<Rightarrow> router \<Rightarrow> router \<times> verdict" where
  "decide_route env rq cs r =
     (case ro_policy_engine r of
        Some pe \<Rightarrow> decide_by_policy env rq cs pe r
      | None \<Rightarrow> decide_by_weights env rq cs r)"

subsection \<open>Routing\<close>

definition failed_decision :: "routing_request \<Rightarrow> string \<Rightarrow> route_reason \<Rightarrow> routing_decision" where
  "failed_decision rq status rsn = (new_decision (rq_request_id rq))\<lparr>dn_status := status, dn_reason := rsn\<rparr>"

definition fail_route :: "routing_request \<Rightarrow> route_reason \<Rightarrow> router \<Rightarrow> router \<times> routing_decision result" where
  "fail_route rq rsn r =
     (ro_publish (RV_Failed (rq_request_id rq) rsn) (r\<lparr>ro_routing_failures := ro_routing_failures r + 1\<rparr>),
      Inr (failed_decision rq ''failed'' rsn))"

definition finish_route ::
  "route_env \<Rightarrow> routing_decision \<times> route_candidate list \<times> real \<times> real \<Rightarrow> router \<Rightarrow> router" where
  "finish_route env v r =
     (case v of (d, ranked, cost, latency) \<Rightarrow>
        ro_publish (RV_Scoring (dn_request_id d) (py_round 2 (rc_scoring_time env * 1000)) (int (length ranked)))
          (ro_publish (RV_Selected (dn_request_id d) (dn_provider d) (dn_provider_id d) (dn_model_id d)
               (rs_weighted_total (dn_score d)) cost latency (int (length ranked)) (int (length (dn_fallback_chain d))))
             (r\<lparr>ro_provider_selection := count_up (dn_provider d) (ro_provider_selection r),
                ro_model_selection := count_up (dn_model_id d) (ro_model_selection r),
                ro_routing_duration_total := ro_routing_duration_total r + rc_duration env,
                ro_latency_histogram := lh_record (rc_duration env * 1000) (ro_latency_histogram r)\<rparr>)))"

definition begin_route :: "routing_request \<Rightarrow> router \<Rightarrow> router" where
  "begin_route rq r =
     ro_publish (RV_Requested (rq_request_id rq) (rq_task_type rq) (rq_required_capabilities rq))
       (r\<lparr>ro_routing_count := ro_routing_count r + 1\<rparr>)"

definition route :: "route_env \<Rightarrow> routing_request \<Rightarrow> router \<Rightarrow> router \<times> routing_decision result" where
  "route env rq r =
     (if \<not> ro_started r then (r, Inr (failed_decision rq ''failed'' (Because ''Router engine not started'')))
      else
        (let r = begin_route rq r; errors = validate_request rq in
         if errors \<noteq> [] then
           (ro_publish (RV_Rejected (rq_request_id rq) errors) (r\<lparr>ro_routing_failures := ro_routing_failures r + 1\<rparr>),
            Inr (failed_decision rq ''rejected'' (Because (py_join ''; '' errors))))
         else
           (case select_candidates env rq r of
              (r, Inl (Raises err)) \<Rightarrow> (r, Inl err)
            | (r, Inl (Fails rsn)) \<Rightarrow> fail_route rq rsn r
            | (r, Inr cs) \<Rightarrow>
                (case decide_route env rq cs r of
                   (r, Inl rsn) \<Rightarrow> fail_route rq rsn r
                 | (r, Inr v) \<Rightarrow> (finish_route env v r, Inr (fst v))))))"

text \<open>
  Several requests are gathered: their routes start in order, and each is one step. The first exception is
  raised to the caller while the others still run.
\<close>

fun route_all ::
  "(route_env \<times> routing_request) list \<Rightarrow> router \<Rightarrow> router \<times> routing_decision result list" where
  "route_all [] r = (r, [])"
| "route_all ((env, rq) # qs) r =
     (let (r, d) = route env rq r; (r, ds) = route_all qs r in (r, d # ds))"

definition gather :: "'a result list \<Rightarrow> 'a list result" where
  "gather xs =
     (case find (\<lambda>x. case x of Inl _ \<Rightarrow> True | Inr _ \<Rightarrow> False) xs of
        Some (Inl e) \<Rightarrow> Inl e
      | _ \<Rightarrow> Inr (concat (map (\<lambda>x. case x of Inl _ \<Rightarrow> [] | Inr y \<Rightarrow> [y]) xs)))"

definition route_many ::
  "(route_env \<times> routing_request) list \<Rightarrow> router \<Rightarrow> router \<times> routing_decision list result" where
  "route_many qs r = (let (r, ds) = route_all qs r in (r, gather ds))"

definition best_model :: "route_env \<Rightarrow> routing_request \<Rightarrow> int \<Rightarrow> router \<Rightarrow> router \<times> routing_decision list result" where
  "best_model env rq top_k r =
     (case route env rq r of
        (r, Inl err) \<Rightarrow> (r, Inl err)
      | (r, Inr d) \<Rightarrow> (r, Inr (if dn_status d \<noteq> ''routed'' then [] else [d])))"

subsection \<open>Queries\<close>

definition viable_pairs :: "routing_request \<Rightarrow> router \<Rightarrow> pair list" where
  "viable_pairs rq r =
     filter_capabilities rq (filter_unhealthy_disabled (query_providers rq r) (query_models r))"

text \<open>The best model of each provider, by identifier, in the order of their first models.\<close>

definition keep_best :: "route_candidate \<Rightarrow> (string, route_candidate) dict \<Rightarrow> (string, route_candidate) dict" where
  "keep_best c d =
     (case dict_get d (pv_id (cn_provider c)) of
        None \<Rightarrow> dict_set d (pv_id (cn_provider c)) c
      | Some b \<Rightarrow>
          if cn_weighted_total c > cn_weighted_total b then dict_set d (pv_id (cn_provider c)) c else d)"

definition provider_bests :: "routing_request \<Rightarrow> pair list \<Rightarrow> route_candidate list" where
  "provider_bests rq cs = dict_values (fold keep_best (map (score_pair rq) cs) [])"

definition weighted_decision :: "routing_request \<Rightarrow> string \<Rightarrow> route_candidate \<Rightarrow> routing_decision" where
  "weighted_decision rq status c =
     (new_decision (rq_request_id rq))
       \<lparr>dn_provider := pv_name (cn_provider c), dn_provider_id := pv_id (cn_provider c),
        dn_model := model_name (cn_model c), dn_model_id := md_model_id (cn_model c), dn_score := cn_score c,
        dn_estimated_cost := model_price (cn_model c),
        dn_estimated_latency_ms := pair_latency (cn_provider c) (cn_model c), dn_status := status\<rparr>"

definition best_provider :: "routing_request \<Rightarrow> router \<Rightarrow> routing_decision option" where
  "best_provider rq r =
     (case provider_bests rq (viable_pairs rq r) of
        [] \<Rightarrow> None
      | c # cs \<Rightarrow>
          (let b = py_max cn_weighted_total c cs
           in Some ((weighted_decision rq ''routed'' b)
                \<lparr>dn_reason := BestProvider (pv_name (cn_provider b)) (rs_weighted_total (cn_score b)),
                 dn_confidence := rs_weighted_total (cn_score b)\<rparr>)))"

definition viable_in_time :: "routing_request \<Rightarrow> router \<Rightarrow> pair list" where
  "viable_in_time rq r =
     (let cs = viable_pairs rq r in if rq_max_latency_ms rq > 0 then filter_latency rq cs else cs)"

definition rank_models ::
  "route_env \<Rightarrow> routing_request \<Rightarrow> int \<Rightarrow> router \<Rightarrow> router \<times> routing_decision list result" where
  "rank_models env rq limit r =
     (case route env rq r of
        (r, Inl err) \<Rightarrow> (r, Inl err)
      | (r, Inr d) \<Rightarrow>
          (r, Inr (if dn_status d \<noteq> ''routed'' then []
                   else py_slice 0 limit
                     (map (weighted_decision rq ''ranked'')
                        (rank_candidates (map (score_pair rq) (viable_in_time rq r)))))))"

definition rank_providers :: "routing_request \<Rightarrow> router \<Rightarrow> routing_decision list" where
  "rank_providers rq r =
     sort_desc (rs_weighted_total \<circ> dn_score)
       (map (weighted_decision rq ''ranked'') (provider_bests rq (viable_pairs rq r)))"

definition generate_fallback_chain ::
  "routing_request \<Rightarrow> int \<Rightarrow> router \<Rightarrow> (string \<times> string \<times> string) list" where
  "generate_fallback_chain rq n r =
     (if query_providers rq r = [] \<or> query_models r = [] then []
      else fallback_generate n (sort_desc cn_weighted_total (map (score_pair rq) (viable_in_time rq r))) [])"

definition route_cost_bound :: "routing_request \<Rightarrow> router \<Rightarrow> real" where
  "route_cost_bound rq r =
     py_round 6
       (fold (\<lambda>x m. if x > m then x else m)
          (concat (map (\<lambda>p. map (\<lambda>m. pv_cost_per_1k_input p + pv_cost_per_1k_output p +
                                     md_input_cost_per_1k m + md_output_cost_per_1k m) (query_models r))
             (query_providers rq r))) 0)"

text \<open>No latency known is \<open>None\<close>, the initial infinity of the code.\<close>

definition route_latency_bound :: "routing_request \<Rightarrow> router \<Rightarrow> real" where
  "route_latency_bound rq r =
     (case fold (\<lambda>x m. if (case m of None \<Rightarrow> True | Some y \<Rightarrow> x < y) \<and> x > 0 then Some x else m)
             (concat (map (\<lambda>p. map (pair_latency p) (query_models r)) (query_providers rq r))) None of
        None \<Rightarrow> py_round 2 0
      | Some x \<Rightarrow> py_round 2 x)"

definition score_candidate :: "omni_provider \<Rightarrow> omni_model \<Rightarrow> routing_request \<Rightarrow> routing_score" where
  "score_candidate p m rq = se_score rq p m"

definition supported_capabilities :: "string list" where
  "supported_capabilities =
     [''chat'', ''completion'', ''vision'', ''reasoning'', ''coding'', ''embedding'', ''moderation'',
      ''image-generation'', ''audio'', ''function-calling'', ''tools'', ''streaming'']"

record router_metrics =
  rm_routing_count :: int
  rm_routing_failures :: int
  rm_failure_rate :: real
  rm_avg_routing_latency_ms :: real
  rm_percentiles :: "real list"
  rm_avg_candidate_count :: real
  rm_avg_scoring_time_ms :: real
  rm_provider_selection :: "(string, int) dict"
  rm_model_selection :: "(string, int) dict"

definition ro_metrics :: "router \<Rightarrow> router_metrics" where
  "ro_metrics r =
     (let n = of_int (max (ro_routing_count r) 1)
      in \<lparr>rm_routing_count = ro_routing_count r, rm_routing_failures = ro_routing_failures r,
          rm_failure_rate = py_round 4 (of_int (ro_routing_failures r) / n),
          rm_avg_routing_latency_ms = py_round 2 (ro_routing_duration_total r / n * 1000),
          rm_percentiles = map (\<lambda>p. py_round 2 (lh_percentile p (ro_latency_histogram r))) [50, 95, 99],
          rm_avg_candidate_count = py_round 1 (of_int (ro_total_candidates r) / n),
          rm_avg_scoring_time_ms = py_round 2 (ro_total_scoring_time r / n * 1000),
          rm_provider_selection = sort_desc snd (ro_provider_selection r),
          rm_model_selection = sort_desc snd (ro_model_selection r)\<rparr>)"

end
