(* ===== verification/Router_Laws.thy ===== *)
theory Router_Laws
  imports Router Budget_Laws Policy_Laws Circuit_Breaker_Laws
begin

text \<open>
  What a route guarantees, and what the router does to the engines it asks: which candidates survive the
  pipeline, what is selected among them, the counters, the funds that are reserved and never settled, and
  the exception of the learning engine.
\<close>

subsection \<open>Stages\<close>

lemma continue_with_Inr:
  "continue_with f s = (r', Inr cs) \<longleftrightarrow> (\<exists>r1 cs1. s = (r1, Inr cs1) \<and> f cs1 r1 = (r', Inr cs))"
  by (cases s) (auto simp: continue_with_def split: sum.splits)

lemma keep_some_Inr [simp]: "keep_some rsn cs r = (r', Inr cs') \<longleftrightarrow> r' = r \<and> cs' = cs \<and> cs \<noteq> []"
  by (auto simp: keep_some_def)

lemma fst_keep_some [simp]: "fst (keep_some rsn cs r) = r"
  by (simp add: keep_some_def)

text \<open>What a stage is allowed to change: its own engine.\<close>

definition rest_of :: "router \<Rightarrow> router" where
  "rest_of r = r\<lparr>ro_policy_engine := None, ro_budget_engine := None, ro_circuit_breaker := None,
     ro_learning_engine := None, ro_rate_limiter := None, ro_scheduler := None\<rparr>"

lemma continue_with_keeps:
  assumes "\<And>cs r. F (fst (f cs r)) = F r"
  shows "F (fst (continue_with f s)) = F (fst s)"
  using assms by (cases s) (auto simp: continue_with_def split: sum.splits)

lemma budget_stage_keeps:
  "ro_circuit_breaker (fst (budget_stage env rq cs r)) = ro_circuit_breaker r"
  "ro_learning_engine (fst (budget_stage env rq cs r)) = ro_learning_engine r"
  "ro_policy_engine (fst (budget_stage env rq cs r)) = ro_policy_engine r"
  "rest_of (fst (budget_stage env rq cs r)) = rest_of r"
  by (simp_all add: budget_stage_def case_prod_beta Let_def rest_of_def split: option.splits)

lemma limiter_stage_keeps:
  "ro_circuit_breaker (fst (limiter_stage env rq cs r)) = ro_circuit_breaker r"
  "ro_learning_engine (fst (limiter_stage env rq cs r)) = ro_learning_engine r"
  "ro_policy_engine (fst (limiter_stage env rq cs r)) = ro_policy_engine r"
  "ro_budget_engine (fst (limiter_stage env rq cs r)) = ro_budget_engine r"
  "rest_of (fst (limiter_stage env rq cs r)) = rest_of r"
  by (simp_all add: limiter_stage_def case_prod_beta Let_def rest_of_def split: option.splits prod.splits sum.splits)

lemma scheduler_stage_keeps:
  "ro_circuit_breaker (fst (scheduler_stage env cs r)) = ro_circuit_breaker r"
  "ro_learning_engine (fst (scheduler_stage env cs r)) = ro_learning_engine r"
  "ro_policy_engine (fst (scheduler_stage env cs r)) = ro_policy_engine r"
  "ro_budget_engine (fst (scheduler_stage env cs r)) = ro_budget_engine r"
  "rest_of (fst (scheduler_stage env cs r)) = rest_of r"
  by (simp_all add: scheduler_stage_def case_prod_beta Let_def rest_of_def split: option.splits)

lemma breaker_stage_keeps:
  "ro_learning_engine (fst (breaker_stage env cs r)) = ro_learning_engine r"
  "ro_policy_engine (fst (breaker_stage env cs r)) = ro_policy_engine r"
  "ro_budget_engine (fst (breaker_stage env cs r)) = ro_budget_engine r"
  "rest_of (fst (breaker_stage env cs r)) = rest_of r"
  by (simp_all add: breaker_stage_def case_prod_beta Let_def rest_of_def split: option.splits)

lemma learning_stage_keeps:
  "ro_policy_engine (fst (learning_stage cs r)) = ro_policy_engine r"
  "ro_budget_engine (fst (learning_stage cs r)) = ro_budget_engine r"
  "rest_of (fst (learning_stage cs r)) = rest_of r"
  by (simp_all add: learning_stage_def case_prod_beta Let_def rest_of_def split: option.splits prod.splits sum.splits)

lemma constraint_stage_keeps [simp]: "fst (constraint_stage rq cs r) = r"
  by (simp add: constraint_stage_def)

lemmas stage_keeps = budget_stage_keeps limiter_stage_keeps scheduler_stage_keeps breaker_stage_keeps learning_stage_keeps

lemma select_keeps:
  "rest_of (fst (select_candidates env rq r)) = rest_of r"
  "ro_policy_engine (fst (select_candidates env rq r)) = ro_policy_engine r"
  "ro_budget_engine (fst (select_candidates env rq r)) =
     (if query_providers rq r = [] \<or> query_models r = [] then ro_budget_engine r
      else ro_budget_engine (fst (continue_with (budget_stage env rq)
        (keep_some ''All providers/models unhealthy or disabled''
           (filter_unhealthy_disabled (query_providers rq r) (query_models r)) r))))"
  unfolding select_candidates_def Let_def
  by (simp_all add: continue_with_keeps [of rest_of] continue_with_keeps [of ro_policy_engine]
      continue_with_keeps [of ro_budget_engine] stage_keeps)

subsection \<open>Which candidates survive\<close>

text \<open>What a candidate is made of, and what a request asks of it.\<close>

definition offered :: "routing_request \<Rightarrow> router \<Rightarrow> omni_provider \<Rightarrow> omni_model \<Rightarrow> bool" where
  "offered rq r p m \<longleftrightarrow>
     p \<in> set (query_providers rq r) \<and> pv_enabled p \<and> pv_healthy p \<and> m \<in> set (query_models r) \<and> md_enabled m \<and>
     (md_provider_id m = pv_id p \<or> md_provider m = pv_name p)"

definition suits :: "routing_request \<Rightarrow> omni_provider \<Rightarrow> omni_model \<Rightarrow> bool" where
  "suits rq p m \<longleftrightarrow>
     (rq_required_capabilities rq = [] \<or> caps_overlap (rq_required_capabilities rq) (md_capabilities m)) \<and>
     (rq_streaming_required rq \<longrightarrow> md_supports_streaming m) \<and> (rq_vision_required rq \<longrightarrow> md_supports_vision m) \<and>
     (rq_reasoning_required rq \<longrightarrow> md_supports_reasoning m) \<and> (rq_tools_required rq \<longrightarrow> md_supports_tools m) \<and>
     (rq_minimum_context rq > 0 \<longrightarrow> rq_minimum_context rq \<le> md_context_window m) \<and>
     (rq_budget_limit rq > 0 \<longrightarrow> model_price m \<le> rq_budget_limit rq) \<and>
     (rq_max_latency_ms rq > 0 \<longrightarrow> pair_latency p m \<le> rq_max_latency_ms rq)"

lemma provider_map_get:
  assumes "dict_get (fold (\<lambda>p d. dict_set d (key p) p) ps d) k = Some p"
    and "\<And>p. dict_get d k = Some p \<Longrightarrow> P p \<and> key p = k" and "\<And>p. p \<in> set ps \<Longrightarrow> P p"
  shows "P p \<and> key p = k"
  using assms
proof (induction ps arbitrary: d)
  case (Cons q ps)
  show ?case
  proof (rule Cons.IH)
    show "dict_get (fold (\<lambda>p d. dict_set d (key p) p) ps (dict_set d (key q) q)) k = Some p" using Cons.prems(1) by simp
    show "P x \<and> key x = k" if "dict_get (dict_set d (key q) q) k = Some x" for x
      using that Cons.prems(2) [of x] Cons.prems(3) [of q] by (auto split: if_splits)
    show "P x" if "x \<in> set ps" for x using that Cons.prems(3) by simp
  qed
qed simp

lemma provider_of_model_Some:
  assumes "provider_of_model ps m = Some p"
  shows "p \<in> set ps \<and> (md_provider_id m = pv_id p \<or> md_provider m = pv_name p)"
proof -
  have get: "q \<in> set ps \<and> key q = k" if "dict_get (provider_map key ps) k = Some q" for key k q
    using provider_map_get [OF that [unfolded provider_map_def], of "\<lambda>p. p \<in> set ps"] by simp
  show ?thesis
  proof (cases "dict_get (provider_map pv_id ps) (md_provider_id m)")
    case (Some q)
    then have "p = q" using assms by (simp add: provider_of_model_def)
    then show ?thesis using get [OF Some] by simp
  next
    case None
    then have "dict_get (provider_map pv_name ps) (md_provider m) = Some p"
      using assms by (simp add: provider_of_model_def split: if_splits)
    then show ?thesis using get by metis
  qed
qed

lemma unhealthy_disabled_removed:
  assumes "(p, m) \<in> set (filter_unhealthy_disabled ps ms)"
  shows "p \<in> set ps \<and> pv_enabled p \<and> pv_healthy p \<and> m \<in> set ms \<and> md_enabled m \<and>
    (md_provider_id m = pv_id p \<or> md_provider m = pv_name p)"
proof -
  let ?ok = "filter (\<lambda>p. pv_enabled p \<and> pv_healthy p) ps"
  have "m \<in> set ms \<and> md_enabled m" "provider_of_model ?ok m = Some p"
    using assms by (auto simp: filter_unhealthy_disabled_def List.map_filter_def)
  then show ?thesis using provider_of_model_Some [of ?ok m p] by simp
qed

lemma budget_stage_Inr:
  assumes st: "budget_stage env rq cs r = (r', Inr cs')"
  shows "set cs' \<subseteq> set cs \<and>
    (\<forall>e. ro_budget_engine r = Some e \<longrightarrow> \<not> be_emergency_mode e \<and> (\<forall>(p, m)\<in>set cs'. fits (rc_clock env) rq e m))"
proof (cases "ro_budget_engine r")
  case (Some e)
  let ?ids = "with_ids (rc_reservation_id env) cs"
  obtain e1 d where ev: "be_evaluate (rc_clock env) ?ids rq e = (e1, d)" by force
  have ok: "bd_approved d" using st by (auto simp: budget_stage_def Some ev Let_def split: if_splits)
  have calm: "\<not> be_emergency_mode e"
  proof
    assume "be_emergency_mode e"
    then have "be_emergency_mode (cleanup_expired (rc_clock env) e)"
      using spending_cleanup [of "rc_clock env" e] by (simp add: spending_def)
    then show False using ev ok by (auto simp: be_evaluate_def Let_def)
  qed
  have ids: "\<exists>i. (p, m, i) \<in> set ?ids" if "(p, m) \<in> set cs" for p m
  proof -
    obtain j where "j < length cs" "cs ! j = (p, m)" using \<open>(p, m) \<in> set cs\<close> by (metis in_set_conv_nth)
    then have "(j, (p, m)) \<in> set (enumerate 0 cs)" by (simp add: in_set_enumerate_eq)
    then have "(p, m, rc_reservation_id env j) \<in> set ?ids" by (force simp: with_ids_def)
    then show ?thesis ..
  qed
  have names: "bd_filtered_candidates d =
      map (\<lambda>(p, m, uid). candidate_name p m) (filter (\<lambda>(p, m, uid). \<not> fits (rc_clock env) rq e m) ?ids)"
    using evaluation_results(3) [OF calm, of "rc_clock env" ?ids rq] by (simp add: ev)
  have "candidate_name p m \<in> set (bd_filtered_candidates d)" if c: "(p, m) \<in> set cs" and "\<not> fits (rc_clock env) rq e m" for p m
  proof -
    obtain i where "(p, m, i) \<in> set ?ids" using ids [OF c] by blast
    then show ?thesis using \<open>\<not> fits (rc_clock env) rq e m\<close> unfolding names by force
  qed
  then have "set cs' \<subseteq> set cs \<and> (\<forall>(p, m)\<in>set cs'. fits (rc_clock env) rq e m)"
    using st ok by (auto simp: budget_stage_def Some ev Let_def split: if_splits)
  then show ?thesis using calm Some by simp
qed (use st in \<open>simp add: budget_stage_def\<close>)

lemma limit_each_subset: "limit_each req todo cs e = (e', Inr cs') \<Longrightarrow> set cs' \<subseteq> set cs"
proof (induction todo arbitrary: cs e)
  case (Cons c todo)
  obtain e1 d where e1: "en_evaluate (req c) e = (e1, Inr d)"
    using Cons.prems by (auto split: prod.splits sum.splits)
  then have "set cs' \<subseteq> set (if \<not> rd_approved d \<and> \<not> rd_queued d then remove1 c cs else cs)"
    using Cons.prems by (intro Cons.IH [of _ e1]) simp
  then show ?case using set_remove1_subset [of c cs] by (auto split: if_splits)
qed simp

lemma schedule_each_subset: "set (snd (schedule_each env i todo cs s)) \<subseteq> set cs"
proof (induction todo arbitrary: i cs s)
  case (Cons c todo)
  then show ?case using set_remove1_subset [of c cs] by (auto simp: case_prod_beta Let_def dest!: subsetD [OF Cons.IH])
qed simp

lemma limiter_stage_Inr: "limiter_stage env rq cs r = (r', Inr cs') \<Longrightarrow> set cs' \<subseteq> set cs"
  by (auto simp: limiter_stage_def split: option.splits prod.splits sum.splits dest!: limit_each_subset)

lemma scheduler_stage_Inr: "scheduler_stage env cs r = (r', Inr cs') \<Longrightarrow> set cs' \<subseteq> set cs"
  using schedule_each_subset by (fastforce simp: scheduler_stage_def case_prod_beta Let_def split: option.splits)

lemma learning_stage_Inr:
  "learning_stage cs r = (r', Inr cs') \<longleftrightarrow>
     cs' = cs \<and> r' = r \<and> (\<forall>l. ro_learning_engine r = Some l \<longrightarrow> \<not> ln_started l \<or> cs = [])"
  by (auto simp: learning_stage_def enrich_def split: option.splits prod.splits sum.splits if_splits)

lemma cond_filter:
  "(if b then filter P xs else xs) = filter (\<lambda>x. b \<longrightarrow> P x) xs"
  "(if b then xs else filter P xs) = filter (\<lambda>x. \<not> b \<longrightarrow> P x) xs"
  by simp_all

lemma filter_capabilities_eq:
  "filter_capabilities rq cs =
     filter (\<lambda>(p, m). (rq_required_capabilities rq \<noteq> [] \<longrightarrow> caps_overlap (rq_required_capabilities rq) (md_capabilities m)) \<and>
       (rq_streaming_required rq \<longrightarrow> md_supports_streaming m) \<and> (rq_vision_required rq \<longrightarrow> md_supports_vision m) \<and>
       (rq_reasoning_required rq \<longrightarrow> md_supports_reasoning m) \<and> (rq_tools_required rq \<longrightarrow> md_supports_tools m)) cs"
  unfolding filter_capabilities_def Let_def cond_filter filter_filter
  by (rule filter_cong [OF refl]) auto

lemma constraint_stage_eq:
  "constraint_stage rq cs r = keep_some ''No candidates pass budget/latency constraints''
     (filter (\<lambda>(p, m). (rq_minimum_context rq > 0 \<longrightarrow> rq_minimum_context rq \<le> md_context_window m) \<and>
       (rq_budget_limit rq > 0 \<longrightarrow> model_price m \<le> rq_budget_limit rq) \<and>
       (rq_max_latency_ms rq > 0 \<longrightarrow> pair_latency p m \<le> rq_max_latency_ms rq)) cs) r"
  unfolding constraint_stage_def filter_context_def filter_budget_def filter_latency_def Let_def cond_filter filter_filter
  by (rule arg_cong [of _ _ "\<lambda>xs. keep_some _ xs r"], rule filter_cong [OF refl])
     (auto simp: model_price_def pair_latency_def)

lemma filters_suit:
  "constraint_stage rq (filter_capabilities rq cs) r = (r', Inr cs') \<Longrightarrow>
     cs' = filter (\<lambda>(p, m). suits rq p m) cs \<and> cs' \<noteq> [] \<and> r' = r"
  unfolding constraint_stage_eq filter_capabilities_eq keep_some_Inr filter_filter
  by (auto simp: suits_def intro!: filter_cong)

lemma admit_each_subset: "set (snd (admit_each mt wt cs b)) \<subseteq> set cs"
proof (induction cs arbitrary: b)
  case (Cons c cs)
  show ?case using Cons.IH [of "fst (cb_allow_request mt wt (pv_name (fst c)) b)"] by (auto simp: case_prod_beta Let_def)
qed simp

lemma allow_keeps_open:
  assumes "circuit_open_at p until b" and "wt < until"
  shows "circuit_open_at p until (fst (cb_allow_request mt wt q b)) \<and> (q = p \<longrightarrow> \<not> snd (cb_allow_request mt wt q b))"
proof (cases "q = p")
  case True
  then show ?thesis using open_circuit.refuse_idle [OF assms(1), of "(mt, wt)"] assms by simp
next
  case False
  have "cb_started b" using assms(1) by (simp add: circuit_open_at_def)
  moreover have "cb_started (fst (cb_allow_request mt wt q b))" using \<open>cb_started b\<close> by simp
  ultimately show ?thesis using assms(1) False allow_request_get [of b mt wt q p] by (simp add: circuit_open_at_def)
qed

lemma admit_each_skips_open:
  assumes "circuit_open_at p until b" and "wt < until" and "c \<in> set (snd (admit_each mt wt cs b))"
  shows "pv_name (fst c) \<noteq> p"
  using assms
proof (induction cs arbitrary: b)
  case (Cons x cs)
  let ?b = "fst (cb_allow_request mt wt (pv_name (fst x)) b)"
  have b: "circuit_open_at p until ?b" "pv_name (fst x) = p \<longrightarrow> \<not> snd (cb_allow_request mt wt (pv_name (fst x)) b)"
    using allow_keeps_open [OF Cons.prems(1,2)] by blast+
  have "c \<in> set (snd (admit_each mt wt cs ?b)) \<or> (c = x \<and> snd (cb_allow_request mt wt (pv_name (fst x)) b))"
    using Cons.prems(3) by (auto simp: case_prod_beta Let_def split: if_splits)
  then show ?case using Cons.IH [OF b(1) Cons.prems(2)] b(2) by blast
qed simp

lemma breaker_stage_Inr:
  assumes "breaker_stage env cs r = (r', Inr cs')"
  shows "set cs' \<subseteq> set cs \<and>
    (\<forall>b. ro_circuit_breaker r = Some b \<longrightarrow>
       (\<forall>(p, m)\<in>set cs'. \<forall>until > rc_wall env. \<not> circuit_open_at (pv_name p) until b))"
proof (cases "ro_circuit_breaker r")
  case (Some b)
  then have cs': "cs' = snd (admit_each (rc_mono env) (rc_wall env) cs b)"
    using assms by (simp add: breaker_stage_def case_prod_beta Let_def)
  have "\<not> circuit_open_at (pv_name p) until b" if "(p, m) \<in> set cs'" "until > rc_wall env" for p m until
    using admit_each_skips_open [of "pv_name p" until b "rc_wall env" "(p, m)" "rc_mono env" cs] that by (auto simp: cs')
  then show ?thesis using admit_each_subset Some by (auto simp: cs')
qed (use assms in \<open>simp add: breaker_stage_def\<close>)

text \<open>All stages together.\<close>

lemma select_candidates_Inr:
  assumes "select_candidates env rq r = (r', Inr cs)"
  shows "cs \<noteq> [] \<and> (\<forall>(p, m)\<in>set cs. offered rq r p m \<and> suits rq p m \<and>
    (\<forall>e. ro_budget_engine r = Some e \<longrightarrow> \<not> be_emergency_mode e \<and> fits (rc_clock env) rq e m) \<and>
    (\<forall>b. ro_circuit_breaker r = Some b \<longrightarrow> (\<forall>until > rc_wall env. \<not> circuit_open_at (pv_name p) until b)) \<and>
    (\<forall>l. ro_learning_engine r = Some l \<longrightarrow> \<not> ln_started l))"
proof -
  let ?c0 = "filter_unhealthy_disabled (query_providers rq r) (query_models r)"
  obtain r1 c1 r2 c2 r3 c3 r4 c4 r5 c5 where
    st: "budget_stage env rq ?c0 r = (r1, Inr c1)" "limiter_stage env rq c1 r1 = (r2, Inr c2)"
      "scheduler_stage env c2 r2 = (r3, Inr c3)" "breaker_stage env c3 r3 = (r4, Inr c4)"
      "learning_stage c4 r4 = (r5, Inr c5)" "constraint_stage rq (filter_capabilities rq c5) r5 = (r', Inr cs)"
    using assms by (auto simp: select_candidates_def Let_def continue_with_Inr split: if_splits)
  have same: "ro_circuit_breaker r3 = ro_circuit_breaker r" "ro_learning_engine r4 = ro_learning_engine r"
    using st stage_keeps by (metis fst_conv)+
  have cs: "cs = filter (\<lambda>(p, m). suits rq p m) c4" "cs \<noteq> []" "c4 \<noteq> []"
    using filters_suit [OF st(6)] st(5) [unfolded learning_stage_Inr] by auto
  have sub: "set c4 \<subseteq> set c3" "set c3 \<subseteq> set c1" "set c1 \<subseteq> set ?c0"
    using breaker_stage_Inr [OF st(4)] scheduler_stage_Inr [OF st(3)] limiter_stage_Inr [OF st(2)] budget_stage_Inr [OF st(1)]
    by blast+
  show ?thesis
  proof (intro conjI ballI)
    fix c assume "c \<in> set cs"
    obtain p m where c: "c = (p, m)" by force
    then have "(p, m) \<in> set c4" "suits rq p m" using \<open>c \<in> set cs\<close> cs(1) by auto
    moreover have "offered rq r p m"
    proof -
      have "(p, m) \<in> set ?c0" using \<open>(p, m) \<in> set c4\<close> sub by blast
      from unhealthy_disabled_removed [OF this] show ?thesis by (simp add: offered_def)
    qed
    moreover have "\<not> ln_started l" if "ro_learning_engine r = Some l" for l
      using st(5) [unfolded learning_stage_Inr] cs(3) same(2) that by auto
    moreover have "\<not> be_emergency_mode e \<and> fits (rc_clock env) rq e m" if "ro_budget_engine r = Some e" for e
      using budget_stage_Inr [OF st(1)] that \<open>(p, m) \<in> set c4\<close> sub by blast
    moreover have "\<not> circuit_open_at (pv_name p) until b" if "ro_circuit_breaker r = Some b" "until > rc_wall env" for b until
      using breaker_stage_Inr [OF st(4)] that same(1) \<open>(p, m) \<in> set c4\<close> by fastforce
    ultimately show "case c of (p, m) \<Rightarrow> offered rq r p m \<and> suits rq p m \<and>
        (\<forall>e. ro_budget_engine r = Some e \<longrightarrow> \<not> be_emergency_mode e \<and> fits (rc_clock env) rq e m) \<and>
        (\<forall>b. ro_circuit_breaker r = Some b \<longrightarrow> (\<forall>until > rc_wall env. \<not> circuit_open_at (pv_name p) until b)) \<and>
        (\<forall>l. ro_learning_engine r = Some l \<longrightarrow> \<not> ln_started l)"
      by (simp add: c)
  qed (rule cs(2))
qed

subsection \<open>Ranking and fallback\<close>

abbreviation names_of :: "route_candidate \<Rightarrow> string \<times> string \<times> string" where
  "names_of c \<equiv> (pv_name (cn_provider c), pv_id (cn_provider c), md_model_id (cn_model c))"

abbreviation seen :: "route_candidate \<Rightarrow> omni_provider \<times> omni_model \<times> real \<times> real" where
  "seen c \<equiv> (cn_provider c, cn_model c, cn_weighted_total c, rs_weighted_total (cn_score c))"

lemma rank_candidates_seen: "map seen (rank_candidates cs) = map seen (sort_desc cn_weighted_total cs)"
proof -
  have "map seen (map (\<lambda>(i, c). c\<lparr>cn_rank := int i + 1, cn_score := (cn_score c)\<lparr>rs_candidate_count := n, rs_rank := int i + 1\<rparr>\<rparr>)
      (enumerate k xs)) = map seen xs" for k n xs
    by (induction xs arbitrary: k) simp_all
  then show ?thesis by (simp only: rank_candidates_def Let_def)
qed

lemma rank_candidates_Nil [simp]: "rank_candidates cs = [] \<longleftrightarrow> cs = []"
  by (simp add: rank_candidates_def Let_def flip: length_0_conv)

lemma rank_candidates_seen_set: "seen ` set (rank_candidates cs) = seen ` set cs"
  using arg_cong [OF rank_candidates_seen, of set] by simp

lemma hd_rank_candidates:
  assumes "cs \<noteq> []"
  shows "\<exists>c\<in>set cs. seen (hd (rank_candidates cs)) = seen c \<and> (\<forall>x\<in>set cs. cn_weighted_total x \<le> cn_weighted_total c)"
proof -
  let ?c = "hd (sort_desc cn_weighted_total cs)"
  have "seen (hd (rank_candidates cs)) = seen ?c"
  proof -
    have "hd (map seen (rank_candidates cs)) = hd (map seen (sort_desc cn_weighted_total cs))"
      by (simp only: rank_candidates_seen)
    then show ?thesis using assms by (simp add: hd_map)
  qed
  moreover have "?c \<in> set cs" using assms by (metis hd_in_set set_sort_desc sort_desc_Nil)
  ultimately show ?thesis using hd_sort_desc [of _ cs cn_weighted_total] by blast
qed

lemma fallback_generate_eq:
  "fallback_generate n cs chain =
     chain @ take (nat n - length chain) (map names_of (filter (\<lambda>c. 0 < cn_weighted_total c) cs))"
proof (induction n cs chain rule: fallback_generate.induct)
  case (2 n c cs chain)
  show ?case
  proof (cases "int (length chain) \<ge> n")
    case False
    then have "nat n - length chain = Suc (nat n - Suc (length chain))" by linarith
    then show ?thesis using 2 False by (auto simp: not_le)
  qed (simp add: nat_le_iff)
qed simp

lemma fallback_generate_bound: "0 \<le> n \<Longrightarrow> length (fallback_generate n cs []) \<le> nat n"
  by (simp add: fallback_generate_eq)

lemma fallback_generate_names: "x \<in> set (fallback_generate n cs []) \<Longrightarrow> \<exists>c\<in>set cs. x = names_of c"
  by (auto simp: fallback_generate_eq dest!: in_set_takeD)

subsection \<open>Decisions\<close>

definition made_of :: "pair list \<Rightarrow> string \<times> string \<times> string \<Rightarrow> bool" where
  "made_of cs x \<longleftrightarrow> (\<exists>(p, m)\<in>set cs. x = (pv_name p, pv_id p, md_model_id m))"

lemma decide_simps [simp]:
  "dn_status (make_decision rq ranked rsn cost lat used) = ''routed''"
  "dn_provider (make_decision rq ranked rsn cost lat used) = pv_name (cn_provider (hd ranked))"
  "dn_provider_id (make_decision rq ranked rsn cost lat used) = pv_id (cn_provider (hd ranked))"
  "dn_model_id (make_decision rq ranked rsn cost lat used) = md_model_id (cn_model (hd ranked))"
  "dn_score (make_decision rq ranked rsn cost lat used) = cn_score (hd ranked)"
  "dn_confidence (make_decision rq ranked rsn cost lat used) = py_round 4 (rs_weighted_total (cn_score (hd ranked)))"
  "dn_fallback_chain (make_decision rq ranked rsn cost lat used) = fallback_generate 5 ranked []"
  "dn_request_id (make_decision rq ranked rsn cost lat used) = rq_request_id rq"
  by (simp_all add: make_decision_def new_decision_def Let_def)

lemma decide_made_of:
  assumes ne: "scored \<noteq> []" and made: "\<And>c. c \<in> set scored \<Longrightarrow> (cn_provider c, cn_model c) \<in> set cs"
    and d: "d = make_decision rq (rank_candidates scored) rsn cost lat used"
  shows "dn_status d = ''routed'' \<and> made_of cs (dn_provider d, dn_provider_id d, dn_model_id d) \<and>
    list_all (made_of cs) (dn_fallback_chain d) \<and> length (dn_fallback_chain d) \<le> 5"
proof -
  have in_cs: "made_of cs (names_of c)" if "c \<in> set (rank_candidates scored)" for c
  proof -
    have "seen c \<in> seen ` set scored" using that rank_candidates_seen_set [of scored] by blast
    then obtain x where "x \<in> set scored" "seen c = seen x" by blast
    then show ?thesis using made by (force simp: made_of_def)
  qed
  have "hd (rank_candidates scored) \<in> set (rank_candidates scored)" using ne by simp
  moreover have "list_all (made_of cs) (fallback_generate 5 (rank_candidates scored) [])"
    using in_cs fallback_generate_names by (fastforce simp: list_all_iff)
  ultimately show ?thesis
    using in_cs fallback_generate_bound [of 5 "rank_candidates scored"] by (simp add: d)
qed

lemma policy_candidates_made:
  "c \<in> set (policy_candidates cs res) \<Longrightarrow> (cn_provider c, cn_model c) \<in> set cs"
proof -
  assume "c \<in> set (policy_candidates cs res)"
  then obtain pn mid x y where "find (\<lambda>(p, m). pv_name p = pn \<and> md_model_id m = mid) cs = Some y"
      "c = policy_candidate (int (length (pt_scored_candidates res))) y x"
    by (auto simp: policy_candidates_def List.map_filter_def)
  then show ?thesis by (auto simp: policy_candidate_def dest!: find_SomeD)
qed

lemma decide_route_made:
  assumes "decide_route env rq cs r = (r', Inr (d, v))"
  shows "dn_status d = ''routed'' \<and> made_of cs (dn_provider d, dn_provider_id d, dn_model_id d) \<and>
    list_all (made_of cs) (dn_fallback_chain d) \<and> length (dn_fallback_chain d) \<le> 5"
proof (cases "ro_policy_engine r")
  case None
  let ?scored = "map (score_pair rq) (sort_desc (md_quality_score \<circ> snd) cs)"
  show ?thesis
    using assms by (intro decide_made_of [of ?scored])
      (auto simp: decide_route_def None decide_by_weights_def Let_def score_pair_def split: if_splits)
next
  case (Some pe)
  obtain pe' res where ev: "pe_evaluate (rc_policy_id env) (rc_wall env) (rc_random env) cs rq None pe = (pe', res)" by force
  show ?thesis
    using assms by (intro decide_made_of [of "policy_candidates cs res"])
      (auto simp: decide_route_def Some decide_by_policy_def ev Let_def policy_candidates_made split: if_splits)
qed

subsection \<open>What is routed\<close>

lemma begin_route_simps [simp]:
  "query_providers rq' (begin_route rq r) = query_providers rq' r" "query_models (begin_route rq r) = query_models r"
  "ro_budget_engine (begin_route rq r) = ro_budget_engine r" "ro_circuit_breaker (begin_route rq r) = ro_circuit_breaker r"
  "ro_learning_engine (begin_route rq r) = ro_learning_engine r" "ro_policy_engine (begin_route rq r) = ro_policy_engine r"
  "ro_scheduler (begin_route rq r) = ro_scheduler r" "ro_rate_limiter (begin_route rq r) = ro_rate_limiter r"
  "offered rq' (begin_route rq r) = offered rq' r"
  by (auto simp: begin_route_def ro_publish_def query_providers_def query_models_def offered_def fun_eq_iff)

lemma route_routed:
  assumes "route env rq r = (r', Inr d)" and "dn_status d = ''routed''"
  obtains r1 cs r2 v where "ro_started r" "validate_request rq = []"
    "select_candidates env rq (begin_route rq r) = (r1, Inr cs)" "decide_route env rq cs r1 = (r2, Inr (d, v))"
    "r' = finish_route env (d, v) r2"
proof -
  have started: "ro_started r" and valid: "validate_request rq = []"
    using assms by (auto simp: route_def failed_decision_def new_decision_def Let_def split: if_splits)
  obtain r1 s where s: "select_candidates env rq (begin_route rq r) = (r1, s)" by force
  have "\<exists>cs. s = Inr cs"
    using assms by (cases s)
      (auto simp: route_def started valid s fail_route_def failed_decision_def Let_def split: route_stop.splits)
  then obtain cs where cs: "s = Inr cs" ..
  obtain r2 w where w: "decide_route env rq cs r1 = (r2, w)" by force
  have "\<exists>v. w = Inr (d, v) \<and> r' = finish_route env (d, v) r2"
    using assms by (cases w) (auto simp: route_def started valid s cs w fail_route_def failed_decision_def Let_def)
  then show ?thesis using that started valid s cs w by blast
qed

text \<open>A provider and a model that a route may name: on offer, suitable, affordable and not cut off.\<close>

definition eligible :: "route_env \<Rightarrow> routing_request \<Rightarrow> router \<Rightarrow> string \<times> string \<times> string \<Rightarrow> bool" where
  "eligible env rq r x \<longleftrightarrow>
     (\<exists>p m. x = (pv_name p, pv_id p, md_model_id m) \<and> offered rq r p m \<and> suits rq p m \<and>
        (\<forall>e. ro_budget_engine r = Some e \<longrightarrow> \<not> be_emergency_mode e \<and> fits (rc_clock env) rq e m) \<and>
        (\<forall>b. ro_circuit_breaker r = Some b \<longrightarrow> (\<forall>until > rc_wall env. \<not> circuit_open_at (pv_name p) until b)))"

lemma made_of_eligible:
  assumes "select_candidates env rq (begin_route rq r) = (r1, Inr cs)" and "made_of cs x"
  shows "eligible env rq r x"
proof -
  obtain p m where pm: "(p, m) \<in> set cs" "x = (pv_name p, pv_id p, md_model_id m)"
    using assms(2) by (auto simp: made_of_def)
  have "offered rq r p m \<and> suits rq p m \<and>
    (\<forall>e. ro_budget_engine r = Some e \<longrightarrow> \<not> be_emergency_mode e \<and> fits (rc_clock env) rq e m) \<and>
    (\<forall>b. ro_circuit_breaker r = Some b \<longrightarrow> (\<forall>until > rc_wall env. \<not> circuit_open_at (pv_name p) until b))"
    using bspec [OF conjunct2 [OF select_candidates_Inr [OF assms(1)]] pm(1)] by simp
  then show ?thesis using pm(2) unfolding eligible_def by blast
qed

text \<open>C34: A routed decision names a provider that is registered, enabled and healthy and an enabled model of it
  which suits the request, fits the budgets as they stood before the call and whose circuit was not open; the
  same holds for every entry of the fallback chain, which has at most five.\<close>

theorem routed_decision_eligible:
  assumes "route env rq r = (r', Inr d)" and "dn_status d = ''routed''"
  shows "eligible env rq r (dn_provider d, dn_provider_id d, dn_model_id d) \<and>
    list_all (eligible env rq r) (dn_fallback_chain d) \<and> length (dn_fallback_chain d) \<le> 5"
proof -
  obtain r1 cs r2 v where sel: "select_candidates env rq (begin_route rq r) = (r1, Inr cs)"
    and dec: "decide_route env rq cs r1 = (r2, Inr (d, v))"
    using route_routed [OF assms] by metis
  show ?thesis using decide_route_made [OF dec] made_of_eligible [OF sel] by (simp add: list_all_iff)
qed

subsection \<open>Scores\<close>

definition request_weights :: "routing_request \<Rightarrow> weights" where
  "request_weights rq = default_weights\<lparr>wt_quality := rq_quality_weight rq, wt_cost := rq_cost_weight rq,
     wt_latency := rq_latency_weight rq\<rparr>"

lemma valid_weights:
  assumes "validate_request rq = []"
  shows "0 \<le> rq_quality_weight rq" "0 \<le> rq_cost_weight rq" "0 \<le> rq_latency_weight rq" "0 \<le> rq_max_latency_ms rq"
  using assms by (auto simp: validate_request_def split: if_splits)

text \<open>The scoring engine of the router is the balanced strategy with the weights of the request.\<close>

lemma se_score_balanced:
  assumes "validate_request rq = []"
  shows "rs_weighted_total (se_score rq p m) = weighted_total p m rq (request_weights rq)"
proof -
  note w = valid_weights [OF assms]
  have "se_latency rq p m = latency_score p m (rq_max_latency_ms rq)"
    using w(4) by (auto simp: se_latency_def latency_score_def num_or_def Let_def)
  moreover have "se_cost p m = cost_score p m" "se_context m = context_score m"
    by (simp_all add: se_cost_def cost_score_def se_context_def context_score_def log_share_def Let_def)
  moreover have "se_quality m = quality_score m" "se_health p m = health_score p m"
      "se_reliability p = reliability_score p" "se_preference rq p m = preference_score p m rq"
    by (simp_all add: se_quality_def quality_score_def se_health_def health_score_def se_reliability_def
        reliability_score_def se_preference_def preference_score_def Let_def)
  ultimately show ?thesis
    using w by (simp add: se_score_def weighted_total_def request_weights_def default_weights_def sum_weights_def Let_def)
qed

lemma py_round_idem [simp]: "py_round n (py_round n x) = py_round n x"
  by (simp add: py_round_def)

lemma score_pair_simps [simp]:
  "cn_weighted_total (score_pair rq c) = rs_weighted_total (se_score rq (fst c) (snd c))"
  "rs_weighted_total (cn_score (score_pair rq c)) = rs_weighted_total (se_score rq (fst c) (snd c))"
  by (simp_all add: score_pair_def Let_def)

lemma round_se_score [simp]: "py_round 4 (rs_weighted_total (se_score rq p m)) = rs_weighted_total (se_score rq p m)"
  by (simp add: se_score_def Let_def)

text \<open>C35: Without a policy engine, the router selects by the score of the balanced policy with the weights of the
  request: the score of a routed decision, which is its confidence, is the greatest among the candidates that
  are left, and lies in the unit interval.\<close>

theorem weighted_route_is_best:
  assumes "route env rq r = (r', Inr d)" and "dn_status d = ''routed''" and "ro_policy_engine r = None"
  shows "(\<exists>cs. snd (select_candidates env rq (begin_route rq r)) = Inr cs \<and>
       dn_confidence d = Max ((\<lambda>(p, m). weighted_total p m rq (request_weights rq)) ` set cs)) \<and>
    rs_weighted_total (dn_score d) = dn_confidence d \<and> 0 \<le> dn_confidence d \<and> dn_confidence d \<le> 1"
proof -
  obtain r1 cs r2 v where valid: "validate_request rq = []"
    and sel: "select_candidates env rq (begin_route rq r) = (r1, Inr cs)"
    and dec: "decide_route env rq cs r1 = (r2, Inr (d, v))"
    using route_routed [OF assms(1,2)] by metis
  have "ro_policy_engine r1 = None" using select_keeps(2) [of env rq "begin_route rq r"] sel assms(3) by simp
  let ?xs = "map (score_pair rq) (sort_desc (md_quality_score \<circ> snd) cs)"
  have ne: "?xs \<noteq> []" and d: "dn_score d = cn_score (hd (rank_candidates ?xs))"
      "dn_confidence d = py_round 4 (rs_weighted_total (dn_score d))"
    using dec \<open>ro_policy_engine r1 = None\<close> by (auto simp: decide_route_def decide_by_weights_def Let_def split: if_splits)
  let ?f = "\<lambda>(p, m). weighted_total p m rq (request_weights rq)"
  have f: "?f c = rs_weighted_total (se_score rq (fst c) (snd c))" for c
    using se_score_balanced [OF valid] by (simp add: case_prod_beta)
  obtain c where c: "c \<in> set cs" "seen (hd (rank_candidates ?xs)) = seen (score_pair rq c)"
      "\<forall>x\<in>set cs. ?f x \<le> ?f c"
    using hd_rank_candidates [OF ne] by (auto simp: f)
  have tot: "rs_weighted_total (dn_score d) = ?f c" using c(2) by (simp add: d f)
  then have conf: "dn_confidence d = ?f c" using d(2) by (simp add: f)
  have "Max (?f ` set cs) = ?f c" using c(1,3) by (intro Max_eqI) auto
  moreover have "weights_ok (request_weights rq)"
    using valid_weights [OF valid] by (simp add: weights_ok_def request_weights_def default_weights_def)
  then have "0 \<le> ?f c \<and> ?f c \<le> 1" using weighted_total_unit by (simp add: case_prod_beta)
  ultimately show ?thesis using sel conf tot by auto
qed

subsection \<open>Funds are reserved and never settled\<close>

lemma be_evaluate_spending: "spending (fst (be_evaluate ck cs rq e)) = spending e"
proof (cases "be_emergency_mode e")
  case True
  then have "be_emergency_mode (cleanup_expired ck e)" using spending_cleanup [of ck e] by (simp add: spending_def)
  then have "spending (fst (be_evaluate ck cs rq e)) = spending (cleanup_expired ck e)"
    by (simp add: be_evaluate_def Let_def spending_def)
  then show ?thesis by simp
qed (rule evaluation_results(4))

lemma decide_route_keeps:
  "ro_budget_engine (fst (decide_route env rq cs r)) = ro_budget_engine r"
  "ro_learning_engine (fst (decide_route env rq cs r)) = ro_learning_engine r"
  "ro_started (fst (decide_route env rq cs r)) = ro_started r"
  by (simp_all add: decide_route_def decide_by_policy_def decide_by_weights_def case_prod_beta Let_def split: option.split)

lemma select_funds: "map_option spending (ro_budget_engine (fst (select_candidates env rq r))) = map_option spending (ro_budget_engine r)"
proof -
  have "map_option spending (ro_budget_engine (fst (budget_stage env rq cs r))) = map_option spending (ro_budget_engine r)" for cs r
    using be_evaluate_spending by (simp add: budget_stage_def case_prod_beta Let_def split: option.split)
  then show ?thesis
    unfolding select_keeps(3)
    by (simp add: continue_with_keeps [of "\<lambda>r. map_option spending (ro_budget_engine r)"])
qed

lemma publish_fields [simp]:
  "ro_budget_engine (ro_publish ev r) = ro_budget_engine r" "ro_learning_engine (ro_publish ev r) = ro_learning_engine r"
  "ro_provider_selection (ro_publish ev r) = ro_provider_selection r" "ro_model_selection (ro_publish ev r) = ro_model_selection r"
  "ro_routing_count (ro_publish ev r) = ro_routing_count r" "ro_routing_failures (ro_publish ev r) = ro_routing_failures r"
  "ro_latency_histogram (ro_publish ev r) = ro_latency_histogram r" "ro_started (ro_publish ev r) = ro_started r"
  by (simp_all add: ro_publish_def)

lemma finish_route_fields [simp]:
  "ro_budget_engine (finish_route env v r) = ro_budget_engine r" "ro_learning_engine (finish_route env v r) = ro_learning_engine r"
  by (simp_all add: finish_route_def case_prod_beta)

lemma fail_route_fields [simp]:
  "ro_budget_engine (fst (fail_route rq rsn r)) = ro_budget_engine r"
  "ro_learning_engine (fst (fail_route rq rsn r)) = ro_learning_engine r"
  "ro_provider_selection (fst (fail_route rq rsn r)) = ro_provider_selection r"
  "snd (fail_route rq rsn r) = Inr (failed_decision rq ''failed'' rsn)"
  by (simp_all add: fail_route_def)

text \<open>The ways a route can end.\<close>

lemma route_cases:
  obtains
    (idle) "\<not> ro_started r" "route env rq r = (r, Inr (failed_decision rq ''failed'' (Because ''Router engine not started'')))"
  | (rejected) errors where "ro_started r" "errors = validate_request rq" "errors \<noteq> []"
      "route env rq r = (ro_publish (RV_Rejected (rq_request_id rq) errors)
           ((begin_route rq r)\<lparr>ro_routing_failures := ro_routing_failures (begin_route rq r) + 1\<rparr>),
         Inr (failed_decision rq ''rejected'' (Because (py_join ''; '' errors))))"
  | (raised) r1 err where "ro_started r" "select_candidates env rq (begin_route rq r) = (r1, Inl (Raises err))"
      "route env rq r = (r1, Inl err)"
  | (excluded) r1 rsn where "ro_started r" "select_candidates env rq (begin_route rq r) = (r1, Inl (Fails rsn))"
      "route env rq r = fail_route rq rsn r1"
  | (undecided) r1 cs r2 rsn where "ro_started r" "select_candidates env rq (begin_route rq r) = (r1, Inr cs)"
      "decide_route env rq cs r1 = (r2, Inl rsn)" "route env rq r = fail_route rq rsn r2"
  | (routed) r1 cs r2 v where "ro_started r" "select_candidates env rq (begin_route rq r) = (r1, Inr cs)"
      "decide_route env rq cs r1 = (r2, Inr v)" "route env rq r = (finish_route env v r2, Inr (fst v))"
proof (cases "ro_started r \<and> validate_request rq = []")
  case False
  then show ?thesis using idle rejected by (cases "ro_started r") (simp_all add: route_def Let_def)
next
  case True
  obtain r1 s where s: "select_candidates env rq (begin_route rq r) = (r1, s)" by force
  show ?thesis
  proof (cases s)
    case (Inl stop)
    then show ?thesis using raised excluded s True by (cases stop) (simp_all add: route_def Let_def)
  next
    case (Inr cs)
    obtain r2 w where w: "decide_route env rq cs r1 = (r2, w)" by force
    then show ?thesis using undecided routed s Inr True by (cases w) (simp_all add: route_def Let_def)
  qed
qed

lemma route_funds: "map_option spending (ro_budget_engine (fst (route env rq r))) = map_option spending (ro_budget_engine r)"
proof -
  have sel: "map_option spending (ro_budget_engine r1) = map_option spending (ro_budget_engine r)"
    if "select_candidates env rq (begin_route rq r) = (r1, x)" for r1 x
    using select_funds [of env rq "begin_route rq r"] that by simp
  have dec: "ro_budget_engine r2 = ro_budget_engine r1" if "decide_route env rq cs r1 = (r2, x)" for r1 r2 cs x
    using decide_route_keeps(1) [of env rq cs r1] that by simp
  show ?thesis
    by (cases rule: route_cases [of r env rq]) (use sel dec in \<open>simp_all\<close>)
qed

lemma route_all_funds: "map_option spending (ro_budget_engine (fst (route_all qs r))) = map_option spending (ro_budget_engine r)"
proof (induction qs arbitrary: r)
  case (Cons q qs)
  have "fst (route_all (q # qs) r) = fst (route_all qs (fst (route (fst q) (snd q) r)))"
    by (cases q) (simp add: case_prod_beta Let_def)
  then show ?case by (simp only: Cons.IH route_funds)
qed simp

text \<open>C36: Routing never spends: after any sequence of requests the amounts the budget engine has booked as spent,
  and with them its verdict on every candidate, are what they were before, since the reservations of a route
  are never committed. A total or daily limit therefore never ends the routing to a model that fits once.\<close>

theorem routing_never_spends:
  assumes "ro_budget_engine r = Some e"
  shows "case ro_budget_engine (fst (route_all qs r)) of
      None \<Rightarrow> False
    | Some e' \<Rightarrow> spending e' = spending e \<and> fits ck rq e' m = fits ck rq e m"
proof -
  have "map_option spending (ro_budget_engine (fst (route_all qs r))) = Some (spending e)"
    unfolding route_all_funds assms by simp
  then obtain e' where e': "ro_budget_engine (fst (route_all qs r)) = Some e'" "spending e' = spending e" by blast
  then have "fits ck rq e' m = fits ck rq e m" by (intro fits_spending)
  with e' show ?thesis by simp
qed

subsection \<open>The learning engine stops every route\<close>

definition is_routed :: "routing_decision result \<Rightarrow> bool" where
  "is_routed x = (case x of Inl _ \<Rightarrow> False | Inr d \<Rightarrow> dn_status d = ''routed'')"

definition ask_route :: "route_env \<times> routing_request \<Rightarrow> router \<Rightarrow> router \<times> bool" where
  "ask_route q r = (let (r, x) = route (fst q) (snd q) r in (r, is_routed x))"

definition learning_on :: "(string, int) dict \<Rightarrow> router \<Rightarrow> bool" where
  "learning_on sel r \<longleftrightarrow> (\<exists>l. ro_learning_engine r = Some l \<and> ln_started l) \<and> ro_provider_selection r = sel"

lemma select_learning:
  assumes "\<exists>l. ro_learning_engine r = Some l \<and> ln_started l"
  shows "(\<exists>l. ro_learning_engine (fst (select_candidates env rq r)) = Some l \<and> ln_started l) \<and>
    (\<exists>stop. snd (select_candidates env rq r) = Inl stop) \<and>
    ro_provider_selection (fst (select_candidates env rq r)) = ro_provider_selection r"
proof -
  let ?on = "\<lambda>r. \<exists>l. ro_learning_engine r = Some l \<and> ln_started l"
  have learn: "?on (fst (learning_stage cs r)) = ?on r" for cs r
    by (auto simp: learning_stage_def enrich_def split: option.splits)
  have "?on (fst (select_candidates env rq r)) = ?on r"
    unfolding select_candidates_def Let_def
    by (simp add: continue_with_keeps [of ?on] stage_keeps learn)
  moreover have "\<exists>stop. snd (select_candidates env rq r) = Inl stop"
  proof (cases "snd (select_candidates env rq r)")
    case (Inr cs)
    then have "select_candidates env rq r = (fst (select_candidates env rq r), Inr cs)" by (simp add: prod_eq_iff)
    from select_candidates_Inr [OF this] obtain p m where "(p, m) \<in> set cs"
        "\<forall>l. ro_learning_engine r = Some l \<longrightarrow> \<not> ln_started l"
      by (cases cs) auto
    then show ?thesis using assms by auto
  qed simp
  moreover have "ro_provider_selection (fst (select_candidates env rq r)) = ro_provider_selection r"
    using arg_cong [OF select_keeps(1) [of env rq r], of ro_provider_selection] by (simp add: rest_of_def)
  ultimately show ?thesis using assms by simp
qed

lemma begin_selection [simp]: "ro_provider_selection (begin_route rq r) = ro_provider_selection r"
  by (simp add: begin_route_def)

lemma learning_on_route:
  assumes "learning_on sel r"
  shows "\<not> is_routed (snd (route env rq r)) \<and> learning_on sel (fst (route env rq r))"
proof -
  let ?b = "begin_route rq r"
  have stop: "(\<exists>l. ro_learning_engine r1 = Some l \<and> ln_started l) \<and> (\<exists>stop. s = Inl stop) \<and>
      ro_provider_selection r1 = ro_provider_selection r"
    if "select_candidates env rq ?b = (r1, s)" for r1 s
    using select_learning [of ?b env rq] assms that by (simp add: learning_on_def)
  show ?thesis
    by (cases rule: route_cases [of r env rq])
       (use assms stop in \<open>fastforce simp: learning_on_def is_routed_def failed_decision_def\<close>)+
qed

interpretation unlearned: refusing ask_route "\<lambda>_. True" "learning_on sel" False for sel
proof
  fix r q assume "learning_on sel r"
  then show "snd (ask_route q r) = False \<and> learning_on sel (fst (ask_route q r))"
    using learning_on_route [of sel r "fst q" "snd q"] by (simp add: ask_route_def case_prod_beta)
qed

text \<open>The pipeline up to the learning engine.\<close>

definition before_learning :: "route_env \<Rightarrow> routing_request \<Rightarrow> router \<Rightarrow> stage" where
  "before_learning env rq r =
     continue_with (breaker_stage env)
       (continue_with (scheduler_stage env)
         (continue_with (limiter_stage env rq)
           (continue_with (budget_stage env rq)
             (keep_some ''All providers/models unhealthy or disabled''
                (filter_unhealthy_disabled (query_providers rq r) (query_models r)) r))))"

lemma learning_raises:
  assumes "ro_started r" and "validate_request rq = []" and "query_providers rq r \<noteq> []" and "query_models r \<noteq> []"
    and on: "learning_on sel r" and left: "before_learning env rq (begin_route rq r) = (r1, Inr cs)" and "cs \<noteq> []"
  shows "snd (route env rq r) = Inl (OtherError ''TypeError'')"
proof -
  have "ro_learning_engine (fst (before_learning env rq (begin_route rq r))) = ro_learning_engine r"
    unfolding before_learning_def by (simp add: continue_with_keeps [of ro_learning_engine] stage_keeps)
  then obtain l where l: "ro_learning_engine r1 = Some l" "ln_started l" using on left by (auto simp: learning_on_def)
  have "select_candidates env rq (begin_route rq r) =
      continue_with (constraint_stage rq)
        (continue_with (\<lambda>cs. keep_some ''No candidates match required capabilities'' (filter_capabilities rq cs))
          (continue_with learning_stage (before_learning env rq (begin_route rq r))))"
    using assms(3,4) by (simp add: select_candidates_def before_learning_def Let_def)
  then have "snd (select_candidates env rq (begin_route rq r)) = Inl (Raises (OtherError ''TypeError''))"
    using left l \<open>cs \<noteq> []\<close> by (simp add: continue_with_def learning_stage_def enrich_def)
  then show ?thesis using assms(1,2)
    by (cases "select_candidates env rq (begin_route rq r)") (simp add: route_def Let_def)
qed

text \<open>C37: With a started learning engine, as the components are wired, no request is ever routed: every call fails, is
  rejected or raises, no selection is counted, and a valid request with candidates left after the circuit breaker
  raises a \<open>TypeError\<close>.\<close>

theorem learning_engine_stops_routing:
  assumes "learning_on sel r"
  shows "snd (run_calls ask_route qs r) = replicate (length qs) False \<and>
    ro_provider_selection (fst (run_calls ask_route qs r)) = sel \<and>
    (ro_started r \<and> validate_request rq = [] \<and> query_providers rq r \<noteq> [] \<and> query_models r \<noteq> [] \<and> cs \<noteq> [] \<and>
     snd (before_learning env rq (begin_route rq r)) = Inr cs \<longrightarrow>
     snd (route env rq r) = Inl (OtherError ''TypeError''))"
proof -
  have "snd (run_calls ask_route qs r) = replicate (length qs) False \<and> learning_on sel (fst (run_calls ask_route qs r))"
    by (rule unlearned.run_refused [OF assms]) (simp add: list_all_iff)
  moreover have "snd (route env rq r) = Inl (OtherError ''TypeError'')"
    if "ro_started r" "validate_request rq = []" "query_providers rq r \<noteq> []" "query_models r \<noteq> []" "cs \<noteq> []"
      "snd (before_learning env rq (begin_route rq r)) = Inr cs"
    using learning_raises [OF that(1-4) assms _ that(5)] that(6)
    by (cases "before_learning env rq (begin_route rq r)") simp
  ultimately show ?thesis by (simp add: learning_on_def)
qed

subsection \<open>The counters\<close>

lemma dict_get_count_up:
  "dict_get_or (count_up k d) k' 0 = dict_get_or d k' 0 + (if k' = k then 1 else (0 :: int))"
  by (simp add: count_up_def dict_get_or_def)

definition counters ::
  "router \<Rightarrow> int \<times> int \<times> real \<times> (string, int) dict \<times> (string, int) dict \<times> latency_histogram" where
  "counters r = (ro_routing_count r, ro_routing_failures r, ro_routing_duration_total r,
     ro_provider_selection r, ro_model_selection r, ro_latency_histogram r)"

lemma select_counters: "counters (fst (select_candidates env rq r)) = counters r"
  using select_keeps(1) [of env rq r] by (cases "fst (select_candidates env rq r)"; cases r) (simp add: rest_of_def counters_def)

lemma decide_counters: "counters (fst (decide_route env rq cs r)) = counters r"
  by (simp add: decide_route_def decide_by_policy_def decide_by_weights_def counters_def case_prod_beta Let_def split: option.split)

lemma decide_routed: "decide_route env rq cs r = (r', Inr v) \<Longrightarrow> dn_status (fst v) = ''routed''"
  by (auto simp: decide_route_def decide_by_policy_def decide_by_weights_def Let_def case_prod_beta
      split: option.splits if_splits)

text \<open>
  The ledger of those who call \<open>route\<close>: what the calls to the started router answered since it was
  last disposed, and the failures it had counted when that happened. A routed call is entered with
  the provider and the model of its decision and the time it took.
\<close>

record ledger =
  lg_earlier :: int
  lg_failed :: nat
  lg_raised :: nat
  lg_routed :: "(string \<times> string \<times> real) list"

definition new_ledger :: "int \<Rightarrow> ledger" where
  "new_ledger earlier = \<lparr>lg_earlier = earlier, lg_failed = 0, lg_raised = 0, lg_routed = []\<rparr>"

definition enter :: "route_env \<Rightarrow> routing_decision result \<Rightarrow> ledger \<Rightarrow> ledger" where
  "enter env x l =
     (case x of
        Inl _ \<Rightarrow> l\<lparr>lg_raised := lg_raised l + 1\<rparr>
      | Inr d \<Rightarrow>
          if dn_status d = ''routed''
          then l\<lparr>lg_routed := lg_routed l @ [(dn_provider d, dn_model_id d, rc_duration env)]\<rparr>
          else l\<lparr>lg_failed := lg_failed l + 1\<rparr>)"

text \<open>The operations of the router, and whatever happens to the components it shares with others.\<close>

inductive router_step :: "router \<times> ledger \<Rightarrow> router \<times> ledger \<Rightarrow> bool" where
  step_route: "route env rq r = (r', x) \<Longrightarrow>
     router_step (r, l) (r', if ro_started r then enter env x l else l)"
| step_start: "router_step (r, l) (ro_start now r, l)"
| step_stop: "router_step (r, l) (ro_stop r, l)"
| step_dispose: "router_step (r, l) (ro_dispose r, new_ledger (ro_routing_failures r))"
| step_shared: "router_step (r, l)
     (r\<lparr>ro_provider_registry := pr, ro_model_registry := mr, ro_policy_engine := pe, ro_budget_engine := be,
        ro_circuit_breaker := cb, ro_learning_engine := le, ro_rate_limiter := rl, ro_scheduler := sc\<rparr>, l)"

inductive_cases router_stepE: "router_step x y"

definition new_router :: "router \<times> ledger \<Rightarrow> bool" where
  "new_router x \<longleftrightarrow> (\<exists>pr mr bus pe be cb le rl sc. x = (ro_init pr mr bus pe be cb le rl sc, new_ledger 0))"

definition keeps_last :: "real list \<Rightarrow> latency_histogram \<Rightarrow> bool" where
  "keeps_last xs h \<longleftrightarrow> lh_max h = 1000 \<and> lh_samples h = last_n 1000 xs"

lemma lh_record_keeps:
  assumes "keeps_last xs h"
  shows "keeps_last (xs @ [x]) (lh_record x h)"
proof (cases "length xs < 1000")
  case True
  then show ?thesis using assms by (simp add: keeps_last_def lh_record_def last_n_def)
next
  case False
  then have l: "length (lh_samples h) = 1000" using assms by (simp add: keeps_last_def length_last_n)
  then have "lh_samples (lh_record x h) = drop 1 (lh_samples h) @ [x]"
    using assms by (simp add: keeps_last_def lh_record_def py_slice_def clip_index_def Let_def)
  moreover have "length xs - 999 = Suc (length xs - 1000)" using False by linarith
  ultimately show ?thesis using False assms
    by (simp add: keeps_last_def lh_record_def last_n_def Let_def)
qed

definition books_agree :: "router \<times> ledger \<Rightarrow> bool" where
  "books_agree x \<longleftrightarrow>
     (case x of (r, l) \<Rightarrow> case counters r of (n, failures, time, ps, ms, h) \<Rightarrow>
        n = int (lg_failed l + lg_raised l + length (lg_routed l)) \<and>
        failures = lg_earlier l + int (lg_failed l) \<and>
        time = (\<Sum>(p, m, t)\<leftarrow>lg_routed l. t) \<and>
        (\<forall>p. dict_get_or ps p 0 = int (count_list (map fst (lg_routed l)) p)) \<and>
        (\<forall>m. dict_get_or ms m 0 = int (count_list (map (fst \<circ> snd) (lg_routed l)) m)) \<and>
        keeps_last (map (\<lambda>(p, m, t). t * 1000) (lg_routed l)) h)"

lemma books_cong: "counters r' = counters r \<Longrightarrow> books_agree (r', l) = books_agree (r, l)"
  by (simp add: books_agree_def)

lemma books_failed:
  assumes "books_agree (r, l)"
    and "counters r' = (ro_routing_count r + 1, ro_routing_failures r + 1, ro_routing_duration_total r,
      ro_provider_selection r, ro_model_selection r, ro_latency_histogram r)"
    and "dn_status d \<noteq> ''routed''"
  shows "books_agree (r', enter env (Inr d) l)"
  using assms by (simp add: books_agree_def counters_def enter_def)

lemma books_raised:
  assumes "books_agree (r, l)"
    and "counters r' = (ro_routing_count r + 1, ro_routing_failures r, ro_routing_duration_total r,
      ro_provider_selection r, ro_model_selection r, ro_latency_histogram r)"
  shows "books_agree (r', enter env (Inl e) l)"
  using assms by (simp add: books_agree_def counters_def enter_def)

lemma books_routed:
  assumes "books_agree (r, l)" and "dn_status d = ''routed''"
    and "counters r' = (ro_routing_count r + 1, ro_routing_failures r,
      ro_routing_duration_total r + rc_duration env,
      count_up (dn_provider d) (ro_provider_selection r), count_up (dn_model_id d) (ro_model_selection r),
      lh_record (rc_duration env * 1000) (ro_latency_histogram r))"
  shows "books_agree (r', enter env (Inr d) l)"
  using assms lh_record_keeps [of "map (\<lambda>(p, m, t). t * 1000) (lg_routed l)" "ro_latency_histogram r" "rc_duration env * 1000"]
  by (auto simp: books_agree_def counters_def enter_def dict_get_count_up)

lemma failed_not_routed: "status \<noteq> ''routed'' \<Longrightarrow> dn_status (failed_decision rq status rsn) \<noteq> ''routed''"
  by (simp add: failed_decision_def)

lemma books_route:
  assumes ok: "books_agree (r, l)" and rt: "route env rq r = (r', x)" and on: "ro_started r"
  shows "books_agree (r', enter env x l)"
proof -
  have first: "counters (begin_route rq r) = (ro_routing_count r + 1, ro_routing_failures r, ro_routing_duration_total r,
      ro_provider_selection r, ro_model_selection r, ro_latency_histogram r)" by (simp add: begin_route_def counters_def ro_publish_def)
  have sel: "counters r1 = counters (begin_route rq r)" if "select_candidates env rq (begin_route rq r) = (r1, s)" for r1 s
    using select_counters [of env rq "begin_route rq r"] that by simp
  have dec: "counters r2 = counters r1" if "decide_route env rq cs r1 = (r2, s)" for r1 r2 cs s
    using decide_counters [of env rq cs r1] that by simp
  have fail: "books_agree (r', enter env x l)"
    if "counters q = counters (begin_route rq r)" and "fail_route rq rsn q = (r', x)" for q rsn
  proof -
    have "counters r' = (ro_routing_count r + 1, ro_routing_failures r + 1,
        ro_routing_duration_total r, ro_provider_selection r, ro_model_selection r, ro_latency_histogram r)"
      using that first by (auto simp: fail_route_def counters_def ro_publish_def)
    from books_failed [OF ok this, of "failed_decision rq ''failed'' rsn"] that(2) show ?thesis
      by (auto simp: fail_route_def failed_not_routed)
  qed
  show ?thesis
  proof (cases rule: route_cases [of r env rq])
    case idle
    then show ?thesis using on by simp
  next
    case (rejected errors)
    then have "counters r' = (ro_routing_count r + 1, ro_routing_failures r + 1, ro_routing_duration_total r,
        ro_provider_selection r, ro_model_selection r, ro_latency_histogram r)"
      using rt first by (auto simp: counters_def ro_publish_def)
    then show ?thesis using books_failed [OF ok] rejected(4) rt failed_not_routed [of "''rejected''"] by auto
  next
    case (raised r1 err)
    then show ?thesis using books_raised [OF ok, of r1] rt sel [of r1] first by simp
  next
    case (excluded r1 rsn)
    then show ?thesis using fail [of r1 rsn] rt sel [of r1] by metis
  next
    case (undecided r1 cs r2 rsn)
    then show ?thesis using fail [of r2 rsn] rt sel [of r1] dec [of cs r1 r2] by metis
  next
    case (routed r1 cs r2 v)
    have "counters r2 = counters (begin_route rq r)" using routed sel [of r1] dec [of cs r1 r2] by simp
    then have "counters (finish_route env v r2) = (ro_routing_count r + 1, ro_routing_failures r,
        ro_routing_duration_total r + rc_duration env,
        count_up (dn_provider (fst v)) (ro_provider_selection r), count_up (dn_model_id (fst v)) (ro_model_selection r),
        lh_record (rc_duration env * 1000) (ro_latency_histogram r))"
      using first by (simp add: finish_route_def counters_def case_prod_beta ro_publish_def)
    then show ?thesis using books_routed [OF ok decide_routed [OF routed(3)]] routed(4) rt by simp
  qed
qed

interpretation router_machine: invariant_machine new_router router_step books_agree
proof
  fix x assume "new_router x"
  then show "books_agree x"
    by (auto simp: new_router_def books_agree_def counters_def ro_init_def lh_init_def new_ledger_def keeps_last_def
        last_n_def dict_get_or_def)
next
  fix x y assume ok: "books_agree x" and "router_step x y"
  from this(2) show "books_agree y"
  proof cases
    case (step_route env rq r r' x l)
    show ?thesis
    proof (cases "ro_started r")
      case True
      then show ?thesis using books_route [of r l env rq r' x] step_route ok by simp
    next
      case False
      then have "r' = r" using step_route by (simp add: route_def)
      then show ?thesis using False step_route ok by simp
    qed
  next
    case (step_dispose r l)
    then show ?thesis
      by (simp add: books_agree_def counters_def ro_dispose_def ro_stop_def lh_init_def new_ledger_def keeps_last_def
          last_n_def dict_get_or_def)
  qed (use ok in \<open>simp_all add: books_agree_def counters_def ro_start_def ro_stop_def\<close>)
qed

text \<open>C38: In every reachable state of the router, its statistics are those of the ledger of answers since it
  was last disposed. It counts every call it answered when started: those that failed or were rejected, those
  that raised and those it routed. The selection counts of every provider and of every model are the numbers
  of decisions that named them, the total duration is the sum over the routed calls, and the histogram holds
  the durations in milliseconds of the last thousand routed calls, in order. The failure count is not
  reset by a disposal and goes on from what it was.\<close>

theorem router_books_agree:
  assumes "reach new_router router_step (r, l)"
  shows "ro_routing_count r = int (lg_failed l + lg_raised l + length (lg_routed l)) \<and>
    ro_routing_failures r = lg_earlier l + int (lg_failed l) \<and>
    (\<forall>p. dict_get_or (ro_provider_selection r) p 0 = int (count_list (map fst (lg_routed l)) p)) \<and>
    (\<forall>m. dict_get_or (ro_model_selection r) m 0 = int (count_list (map (fst \<circ> snd) (lg_routed l)) m)) \<and>
    ro_routing_duration_total r = (\<Sum>(p, m, t)\<leftarrow>lg_routed l. t) \<and>
    lh_samples (ro_latency_histogram r) = last_n 1000 (map (\<lambda>(p, m, t). t * 1000) (lg_routed l))"
  using router_machine.reach_inv [OF assms] by (simp add: books_agree_def counters_def keeps_last_def)

end
