(* ===== verification/Router_Examples.thy ===== *)
theory Router_Examples
  imports Router_Laws
begin

text \<open>
  The theorems about the router at a concrete input: two providers, one of them cut off by its circuit, and
  three models, one too expensive for the budget.
\<close>

definition desk_provider :: "string \<Rightarrow> omni_provider" where
  "desk_provider n = (new_provider n 0)\<lparr>pv_name := n, pv_kind := ''openai'', pv_healthy := True\<rparr>"

definition desk_model :: "string \<Rightarrow> string \<Rightarrow> real \<Rightarrow> omni_model" where
  "desk_model n p cost = (new_model n 0)\<lparr>md_model_id := n, md_provider_id := p, md_input_cost_per_1k := cost\<rparr>"

definition desk_budget :: budget_engine where
  "desk_budget = fst (be_create_policy
     \<lparr>bg_id = ''g'', bg_scope = BG_GLOBAL, bg_scope_id = [], bg_enabled = True, bg_priority = 0,
      bg_max_spend_total = 0, bg_max_spend_daily = 0, bg_max_spend_monthly = 0, bg_max_spend_per_request = 1,
      bg_max_spend_burst = 0, bg_soft_limit = 0, bg_hard_limit = 0, bg_warning_threshold = 4 / 5, bg_currency = ''USD''\<rparr>
     (be_init False))"

definition desk_breaker :: cb_engine where
  "desk_breaker = fst (cb_trip 0 0 ''p1'' (cb_start 0 (cb_init False None)))"

definition desk_router :: router where
  "desk_router = ro_start 0 (ro_init
     (Some ((pr_init False)\<lparr>pr_providers := map (\<lambda>n. (n, desk_provider n)) [''p1'', ''p2'']\<rparr>))
     (Some ((mr_init False)\<lparr>mr_models := map (\<lambda>(n, p, c). (n, desk_model n p c))
        [(''m1'', ''p1'', 1), (''m2'', ''p2'', 1), (''m3'', ''p2'', 100)]\<rparr>))
     True None (Some desk_budget) (Some desk_breaker) None None None)"

definition desk_env :: route_env where
  "desk_env = \<lparr>rc_clock = noon, rc_mono = 1, rc_mono_ms = 1000, rc_wall = 1,
     rc_reservation_id = (\<lambda>i. replicate (i + 1) (CHR ''r'')), rc_item_id = (\<lambda>i. replicate (i + 1) (CHR ''i'')),
     rc_stamp = ''0'', rc_policy_id = ''u'', rc_random = (\<lambda>i. 0), rc_scoring_time = 0, rc_duration = 0\<rparr>"

definition desk_request :: routing_request where
  "desk_request = (new_request ''q'')\<lparr>rq_task_type := ''openai''\<rparr>"

lemma desk_candidates:
  "snd (select_candidates desk_env desk_request (begin_route desk_request desk_router)) =
     Inr [(desk_provider ''p2'', desk_model ''m2'' ''p2'' 1)]"
  by code_simp

lemma desk_started [simp]: "ro_started desk_router" "ro_policy_engine desk_router = None"
  "ro_budget_engine desk_router = Some desk_budget" "ro_circuit_breaker desk_router = Some desk_breaker"
  by (simp_all add: desk_router_def ro_start_def ro_init_def)

lemma desk_valid [simp]: "validate_request desk_request = []"
  by (simp add: validate_request_def desk_request_def new_request_def)

text \<open>Without a policy engine, any candidates that are left lead to a decision.\<close>

lemma weighted_route_succeeds:
  assumes "ro_started r" "validate_request rq = []" "ro_policy_engine r = None"
    and "snd (select_candidates env rq (begin_route rq r)) = Inr cs" "cs \<noteq> []"
  shows "\<exists>d. snd (route env rq r) = Inr d \<and> dn_status d = ''routed''"
proof -
  obtain r1 where sel: "select_candidates env rq (begin_route rq r) = (r1, Inr cs)"
    using assms(4) by (cases "select_candidates env rq (begin_route rq r)") simp
  then have "ro_policy_engine r1 = None" using select_keeps(2) [of env rq "begin_route rq r"] assms(3) by simp
  then have "\<exists>d v. snd (decide_route env rq cs r1) = Inr (d, v) \<and> dn_status d = ''routed''"
    using assms(5) by (simp add: decide_route_def decide_by_weights_def Let_def)
  then show ?thesis using assms(1,2) sel
    by (cases "decide_route env rq cs r1") (auto simp: route_def Let_def)
qed

lemma desk_routed:
  obtains r' d where "route desk_env desk_request desk_router = (r', Inr d)" "dn_status d = ''routed''"
  using weighted_route_succeeds [OF _ _ _ desk_candidates] by (metis desk_started(1,2) desk_valid not_Cons_self2 prod.collapse)

theorem routed_decision_eligible_witness:
  "\<exists>d. snd (route desk_env desk_request desk_router) = Inr d \<and>
     eligible desk_env desk_request desk_router (dn_provider d, dn_provider_id d, dn_model_id d)"
proof -
  obtain r' d where r: "route desk_env desk_request desk_router = (r', Inr d)" "dn_status d = ''routed''"
    by (rule desk_routed)
  then show ?thesis using routed_decision_eligible [OF r] by auto
qed

theorem weighted_route_is_best_witness:
  "\<exists>d. snd (route desk_env desk_request desk_router) = Inr d \<and> 0 \<le> dn_confidence d \<and>
     dn_confidence d = weighted_total (desk_provider ''p2'') (desk_model ''m2'' ''p2'' 1) desk_request (request_weights desk_request)"
proof -
  obtain r' d where r: "route desk_env desk_request desk_router = (r', Inr d)" "dn_status d = ''routed''"
    by (rule desk_routed)
  show ?thesis using weighted_route_is_best [OF r desk_started(2)] r(1) by (simp add: desk_candidates)
qed

theorem routing_never_spends_witness:
  "case ro_budget_engine (fst (route_all [(desk_env, desk_request), (desk_env, desk_request)] desk_router)) of
     None \<Rightarrow> False
   | Some e' \<Rightarrow> spending e' = spending desk_budget \<and>
       fits noon desk_request e' (desk_model ''m2'' ''p2'' 1) = fits noon desk_request desk_budget (desk_model ''m2'' ''p2'' 1)"
  by (rule routing_never_spends) simp

definition wired_router :: router where
  "wired_router = desk_router\<lparr>ro_learning_engine := Some \<lparr>ln_started = True, ln_enrich_count = 0\<rparr>\<rparr>"

lemma wired_candidates:
  "snd (before_learning desk_env desk_request (begin_route desk_request wired_router)) =
     Inr [(desk_provider ''p2'', desk_model ''m2'' ''p2'' 1)]"
  by code_simp

lemma wired_queries: "query_providers desk_request wired_router \<noteq> []" "query_models wired_router \<noteq> []"
  by code_simp+

theorem learning_engine_stops_routing_witness:
  "snd (run_calls ask_route [(desk_env, desk_request), (desk_env, desk_request)] wired_router) = [False, False] \<and>
   snd (route desk_env desk_request wired_router) = Inl (OtherError ''TypeError'')"
proof -
  have on: "learning_on [] wired_router"
    by (simp add: learning_on_def wired_router_def desk_router_def ro_start_def ro_init_def)
  have "ro_started wired_router" by (simp add: wired_router_def)
  then show ?thesis
    using learning_engine_stops_routing [OF on, of "[(desk_env, desk_request), (desk_env, desk_request)]" desk_request
        "[(desk_provider ''p2'', desk_model ''m2'' ''p2'' 1)]" desk_env] wired_candidates wired_queries
    by (simp add: numeral_2_eq_2)
qed

theorem router_books_agree_witness:
  "\<exists>r' d. route desk_env desk_request desk_router = (r', Inr d) \<and> ro_routing_count r' = 1 \<and>
     dict_get_or (ro_provider_selection r') (dn_provider d) 0 = 1 \<and>
     lh_samples (ro_latency_histogram r') = [rc_duration desk_env * 1000]"
proof -
  let ?r = "ro_init (ro_provider_registry desk_router) (ro_model_registry desk_router) True None (Some desk_budget)
    (Some desk_breaker) None None None"
  have "reach new_router router_step (?r, new_ledger 0)" by (rule reach_init) (unfold new_router_def, blast)
  moreover have "ro_start 0 ?r = desk_router" by (simp add: desk_router_def ro_start_def ro_init_def)
  ultimately have "reach new_router router_step (desk_router, new_ledger 0)"
    using reach_step [of new_router router_step "(?r, new_ledger 0)"] step_start [of ?r "new_ledger 0" 0] by simp
  moreover obtain r' d where r: "route desk_env desk_request desk_router = (r', Inr d)" and d: "dn_status d = ''routed''"
    by (rule desk_routed)
  moreover have "ro_started desk_router" by (simp add: desk_router_def ro_start_def)
  ultimately have "reach new_router router_step (r', enter desk_env (Inr d) (new_ledger 0))"
    using reach_step [of new_router router_step "(desk_router, new_ledger 0)"] step_route [OF r, of "new_ledger 0"] by simp
  from router_books_agree [OF this] r d show ?thesis by (simp add: enter_def new_ledger_def last_n_def)
qed

end
