(* ===== verification/Spec2Isabelle.thy ===== *)
theory Spec2Isabelle
  imports Workflow_Invariants Circuit_Breaker_Laws Scheduler_Laws Consensus Security_Laws Lifecycle_Laws
    Event_Bus_Laws Rate_Limit_Laws Permits Di_Validator_Laws Rate_Engine_Steps
    Registry_Laws Budget_Limits Policy_Laws Router_Examples
begin

text \<open>
  Verification of the core of AgenticOS (\<open>src/src/agentic_os\<close>), an operating layer for agents: a kernel
  brings up services in phases, the services talk over an event bus, requests to model providers pass
  rate limits, a scheduler and circuit breakers, workflows are validated and executed as graphs, tool calls pass a
  security framework, and cluster nodes vote on proposals. The development models these parts as they
  are written and proves what they guarantee; where the code does not do what it says, the theorem
  states what it does.

  \<^bold>\<open>Conventions.\<close> A class is a record, an enumeration a datatype, a method a function that returns
  the new state; a raised exception is the left value of a sum. A Python \<open>dict\<close> is an association
  list in insertion order (\<open>dict_get\<close>, \<open>dict_set\<close>, \<open>dict_del\<close>), a \<open>deque\<close> with a maximal length is
  \<open>deque_append\<close>, slices with negative bounds are \<open>py_slice\<close>. Integers are unbounded, floats are exact
  reals: rounding is not modelled. Clock readings and fresh identifiers are arguments; an operation that
  reads the clock several times in a row without waiting gets one reading. Published events are
  recorded in the state as they are sent. Coroutines are split at the points where they can be
  suspended; every order of these pieces is a run of the model.

  \<^bold>\<open>Shared theories.\<close>
  \<^item> \<open>Prelude\<close>: Python values, dictionaries, deques, the locale \<open>invariant_machine\<close> (an invariant of the
    initial states and of every step holds in all reachable states) and the locales \<open>refusing\<close> and
    \<open>refusing_idle\<close> for components that turn calls away. Each component's step relation interprets
    \<open>invariant_machine\<close>.
  \<^item> \<open>Graph\<close>: finite graphs, topological orders and the invariant of Kahn's algorithm.
  \<^item> \<open>Heapq\<close>: \<open>heappush\<close> and \<open>heappop\<close> of the standard library with their sift loops; the locale
    \<open>min_queue\<close> is the contract of a priority queue and is interpreted on them.
  \<^item> \<open>Interleaving\<close>: tasks of one event loop under an arbitrary schedule. The locales
    \<open>separate_tasks\<close> and \<open>local_tasks\<close> say that a task which touches only its own part of the
    state ends as if it had run alone.

  \<^bold>\<open>Workflows\<close> (\<open>domain/workflow.py\<close>, \<open>ports/workflow.py\<close>, \<open>core/workflow/engine.py\<close>).
  \<open>Workflow_Domain\<close> has the entities and executions, \<open>Workflow_Validation\<close> the validation with its
  edge scan and Kahn loop, \<open>Workflow_Engine\<close> every public operation and the background task
  \<open>_run_execution\<close>, \<open>Workflow_Run\<close> the proofs about a run, \<open>Workflow_Invariants\<close> the machine of all
  operations. Shown: validation accepts exactly acyclic graphs with coherent identifiers; an
  undisturbed run of a validated workflow from its start nodes ends within two steps per node plus two, in
  topological order, while a replay from a node with an incoming edge never ends; stored executions
  stay consistent; and how resume, pause, approval, cancellation and versions really behave. No operation
  activates a workflow, so in reachable states runs are started by replays only.

  \<^bold>\<open>Circuit breaker\<close> (\<open>core/omniroute/failover.py\<close>, data in \<open>domain/omniroute.py\<close>).
  \<open>Circuit_Breaker\<close> models sliding windows, provider states, the transition function and every
  operation, \<open>Circuit_Breaker_Laws\<close> the invariant, when a circuit trips and that it trips alone, how long
  it refuses, how many probes it admits and how it recovers.

  \<^bold>\<open>Scheduler\<close> (\<open>core/omniroute/scheduler.py\<close>). \<open>Scheduler_Queues\<close> has the priority queue with its
  overflow strategies, the deadline heap and the weighted fair queue, \<open>Scheduler_Engine\<close> the helpers and
  the engine. \<open>Scheduler_Queue_Laws\<close> shows which order each queue serves (through the locales
  \<open>ordered_queue\<close> and \<open>fair_pop\<close>), capacity and expiry; \<open>Scheduler_Laws\<close> shows that requests leave
  the queues only when their deadline has come or when they are dispatched, that acceptance and storage agree, and the effect of a worker pool that is never released.

  \<^bold>\<open>Consensus\<close> (\<open>core/cluster/consensus.py\<close>): theory \<open>Consensus\<close>, the five strategies, history and
  statistics; the outcome of a round is characterised over the multiset of its votes for each strategy, so it
  does not depend on their order, and the history is coherent.

  \<^bold>\<open>Security\<close> (\<open>core/security\<close>, \<open>domain/security.py\<close>): \<open>Security\<close> models roles, grants, tool
  permissions, the approval gate, the audit log, workspace names and the facade; path resolution is a
  parameter. \<open>Security_Laws\<close> characterises when a request is allowed, shows that decisions and pending
  approvals are always audited and the log only grows (locale \<open>append_only\<close>), that decisions are read
  back, and what declared roles and sanitised names amount to. The locale \<open>access_policy\<close> is what tool
  permissions need from access control.

  \<^bold>\<open>Lifecycle\<close> (\<open>core/lifecycle.py\<close>): \<open>Lifecycle\<close> models records, transitions, the concurrent boot of a
  phase, startup of all phases, shutdown, health and failures. What services and hooks do is an
  argument: a call returns, raises or hangs, and \<open>wait_for\<close> turns a hanging call of startup or shutdown into
  a time-out, while health queries and repairs are awaited without a limit. A schedule decides how boot tasks interleave; \<open>start_phase\<close> has no value while tasks are
  unfinished, and fifteen turns per task are enough, which is the length of the longest boot.
  \<open>Lifecycle_Laws\<close> shows that the outcome does not depend on the schedule, that startup is gated with
  \<open>stop_on_failure\<close>, and which services a shutdown really stops and disposes, in reverse order.

  \<^bold>\<open>Event bus\<close> (\<open>adapters/bus/local.py\<close>): \<open>Event_Bus\<close> models subscriptions, buffering before start, the
  bounded queue with workers, handlers that publish, backpressure and a stop that may time out.
  \<open>Event_Bus_Laws\<close> shows conservation of items, bounds, that between publications only boundedly many steps
  are made (by a decreasing measure of the work left) and when exactly the bus is stuck with work left, and the
  round trip of subscriptions.

  \<^bold>\<open>Rate limiter\<close> (\<open>core/omniroute/rate_limiter.py\<close>): \<open>Rate_Limits\<close> models token bucket, leaky bucket, sliding
  and fixed window, adaptive quota and retry prediction, \<open>Permits\<close> the reservations with their lifecycle.
  \<open>Rate_Limit_Laws\<close> has the locale \<open>budgeted\<close>: what a limiter admits is paid from a budget; its four
  interpretations bound the admissions of each limiter over arbitrary sequences of calls. \<open>Permits\<close> shows
  the possible changes of status and that the counts partition the reservations. The buckets are
  bounded for positive intervals; a zero interval is an error value of the model.

  \<open>Rate_Engine\<close> is the engine around them: policies, queueing of what is refused, quotas, permits and
  reports. \<open>Rate_Engine_Laws\<close> has the locale \<open>gated\<close>, a limiter inside a policy of the engine, whose
  interpretations carry the bounds over to arbitrary calls of the engine; \<open>Rate_Engine_Steps\<close> is the machine
  of all operations with its bookkeeping, and shows that queued requests are never served.

  \<^bold>\<open>Container\<close> (\<open>core/container.py\<close>, \<open>core/di_validator.py\<close>): \<open>Container\<close> models registrations, aliases,
  scopes and resolution; factories are values of a datatype, so what they build is a function of what they
  are given. Resolution is defined with fuel; the depth of the recursion is at most the number of nested
  containers plus the number of registrations, because every call enters a registration that was not entered
  before, so that fuel is enough for every input. \<open>Container_Laws\<close> shows the latter and the invariant,
  \<open>Container_Steps\<close> the machine of all operations and the sharing of singletons. \<open>Dependency_Search\<close> is
  the depth-first search for cycles, \<open>Di_Validator\<close> the checkers and the pipeline, and
  \<open>Di_Validator_Laws\<close> shows which kernels pass, what that means for resolution, and that cycles of services
  without stored instances stay unresolvable.

  \<^bold>\<open>Routing data and registries\<close> (\<open>domain/omniroute.py\<close>, \<open>core/omniroute/provider_registry.py\<close>,
  \<open>core/omniroute/model_registry.py\<close>): \<open>Omni_Domain\<close> has providers, models, requests and stable descending
  sorting, \<open>Provider_Registry\<close> and \<open>Model_Registry\<close> every operation of the two registries.
  \<open>Registry_Laws\<close> is the machine of both: identifiers are the keys, rate buckets stay within their limits
  (another interpretation of \<open>budgeted\<close> bounds what a provider admits per minute), and the flagged model
  of a provider is its default as long as updates leave the flag and the provider of a model alone.

  \<^bold>\<open>Budgets\<close> (\<open>core/omniroute/budgets.py\<close>): \<open>Budgets\<close> models cost prediction, usage per policy, evaluation of
  candidates, reservations and reports. \<open>Budget_Laws\<close> characterises approval and is the machine of all
  operations with its balance of reservations and spending; \<open>Budget_Limits\<close> shows which limits are really
  kept when reservations are committed, and that a used-up day is never renewed (through \<open>refusing\<close>).

  \<^bold>\<open>Routing policies\<close> (\<open>core/omniroute/routing_policies.py\<close>): \<open>Routing_Policies\<close> models the scores, the
  strategies and the engine, with logarithms of real analysis and random numbers as an argument.
  \<open>Policy_Laws\<close> shows that rankings are permutations in descending order, that the selection passes the
  filters and is the best, that the rotation is fair, and which policy applies to a request.

  \<^bold>\<open>Router\<close> (\<open>core/omniroute/router.py\<close>): \<open>Router\<close> models the scores, the filters, the fallback chain and
  the pipeline of \<open>route\<close> with the operations around it. Each stage of the pipeline is a definition that
  hands on the candidates or stops with a failure or an exception, and calls the models of the other
  engines: registries, budgets, rate limiter, scheduler, circuit breaker, learning (only the entry of its
  \<open>enrich\<close>) and routing policies. \<open>Router_Laws\<close> shows what a routed decision guarantees about its
  candidate, that weighted routing selects the best, that routing never spends, that a started learning
  engine stops every route (through \<open>refusing\<close>), and that the statistics are those of the answers given since
  the router was last disposed; \<open>Router_Examples\<close> applies
  these to concrete routers.

  \<^bold>\<open>How the parts interact.\<close> The router holds the states of the other omniroute engines and threads them
  through its stages, so that its theorems are about the composition of their models. The engines publish to the bus; in their theories this is the list of events
  in their state, which the bus theory takes up as publications. The lifecycle manager calls services only
  through their interface, which is why their behaviour is an argument there. The security framework calls
  access control, gate and log in sequence and the model composes them in the same way.

  \<^bold>\<open>Not modelled.\<close> Rendering to dictionaries for transport; logging; locks and threads below the event loop
  (operations between awaits are atomic); cancellation of the caller of a coroutine; a start of the bus
  that overlaps its stop; actions of boot tasks after an error hook has raised out of a phase. Of the
  program: the aggregation and execution engines of omniroute, its learning engine beyond the call by the
  router, the service registry, the rest of the cluster, pipeline and persistent queue are left out and are of
  the same kind as what is here; provider adapters, gateways, discovery, desktop, the HTTP interface, plugins
  and the external bus adapters are input and output; the learning and cognition packages are heuristics
  around language models without a contract
  to check.
\<close>

end
